(* ===== verification/Pim_Prelude.thy ===== *)
theory Pim_Prelude
  imports Main "HOL-Library.Word"
begin

text \<open>
  Shared vocabulary of the development: the machine integer types of the C sources, the
  sizes that every component uses (\<^verbatim>\<open>PAGE_SIZE\<close>, \<^verbatim>\<open>NUM_PAGES\<close>, \<^verbatim>\<open>HUGE_PAGE_SIZE\<close> of
  \<^verbatim>\<open>pim_mem.h\<close> and \<^verbatim>\<open>pim_mem_lib_user.h\<close>), and generic facts on lists and words that the
  component theories share.
\<close>

unbundle bit_operations_syntax

type_synonym u8 = "8 word"
type_synonym u16 = "16 word"
type_synonym u32 = "32 word"
type_synonym u64 = "64 word"

named_theorems list_upd_simps \<open>reads of an updated list\<close>

section \<open>Sizes\<close>

abbreviation PAGE_SIZE :: nat where "PAGE_SIZE \<equiv> 4096"
abbreviation PAGE_SHIFT :: nat where "PAGE_SHIFT \<equiv> 12"
abbreviation NUM_PAGES :: nat where "NUM_PAGES \<equiv> 512"
abbreviation HUGE_PAGE_SIZE :: nat where "HUGE_PAGE_SIZE \<equiv> 2097152"

section \<open>Lists\<close>

definition blit :: "nat \<Rightarrow> 'a list \<Rightarrow> 'a list \<Rightarrow> 'a list" where
  "blit i ys xs = take i xs @ ys @ drop (i + length ys) xs"

lemma length_blit [simp]: "i + length ys \<le> length xs \<Longrightarrow> length (blit i ys xs) = length xs"
  by (simp add: blit_def)

lemma nth_blit:
  assumes "i + length ys \<le> length xs" and "k < length xs"
  shows "blit i ys xs ! k = (if k < i then xs ! k
    else if k < i + length ys then ys ! (k - i) else xs ! k)"
  using assms by (auto simp: blit_def nth_append min_def)

lemma nth_blit_replicate [list_upd_simps]:
  "i + n \<le> length xs \<Longrightarrow> k < length xs \<Longrightarrow>
    blit i (replicate n c) xs ! k = (if i \<le> k \<and> k < i + n then c else xs ! k)"
  using nth_blit [of i "replicate n c" xs k] by auto

lemma count_list_append: "count_list (xs @ ys) c = count_list xs c + count_list ys c"
  by (induction xs) auto

lemma count_list_replicate: "count_list (replicate n a) c = (if a = c then n else 0)"
  by (induction n) auto

lemma count_list_le_length: "count_list xs c \<le> length xs"
  by (induction xs) auto

lemma count_list_all_iff: "count_list xs c = length xs \<longleftrightarrow> (\<forall>x \<in> set xs. x = c)"
proof (induction xs)
  case (Cons x xs)
  then show ?case using count_list_le_length [of xs c] by auto
qed simp

lemma count_list_take_drop:
  "count_list xs c = count_list (take i xs) c + count_list (drop i xs) c"
  using count_list_append [of "take i xs" "drop i xs" c] by simp

lemma count_list_blit:
  assumes "i + length ys \<le> length xs"
  shows "count_list (blit i ys xs) c + count_list (take (length ys) (drop i xs)) c
    = count_list xs c + count_list ys c"
proof -
  have "count_list xs c = count_list (take i xs) c + count_list (drop i xs) c"
    by (rule count_list_take_drop)
  also have "count_list (drop i xs) c = count_list (take (length ys) (drop i xs)) c
      + count_list (drop (length ys) (drop i xs)) c"
    by (rule count_list_take_drop)
  finally show ?thesis by (simp add: blit_def count_list_append add.commute)
qed

lemma take_drop_eq_replicateD:
  assumes "take n (drop i xs) = replicate n c"
  shows "\<forall>k. i \<le> k \<longrightarrow> k < i + n \<longrightarrow> k < length xs \<and> xs ! k = c"
proof (intro allI impI)
  fix k assume k: "i \<le> k" "k < i + n"
  from assms have "length (take n (drop i xs)) = n" by simp
  then have len: "n \<le> length xs - i" by simp
  have "take n (drop i xs) ! (k - i) = c" using assms k by simp
  then show "k < length xs \<and> xs ! k = c" using k len by simp
qed

lemma take_drop_eq_replicateI:
  assumes "i + n \<le> length xs" and "\<And>k. i \<le> k \<Longrightarrow> k < i + n \<Longrightarrow> xs ! k = c"
  shows "take n (drop i xs) = replicate n c"
  using assms by (intro nth_equalityI) auto

section \<open>Words\<close>

lemma unat_add_u64: "unat (a :: u64) + unat b < 2 ^ 64 \<Longrightarrow> unat (a + b) = unat a + unat b"
  by (simp add: unat_word_ariths)

lemma unat_sub_le: "b \<le> (a :: 'a::len word) \<Longrightarrow> unat (a - b) = unat a - unat b"
  by (rule unat_sub)

lemma unat_of_nat_u64 [simp]: "n < 2 ^ 64 \<Longrightarrow> unat (of_nat n :: u64) = n"
  by (simp add: unat_of_nat take_bit_nat_eq_self)

lemma unat_of_nat_u32 [simp]: "n < 2 ^ 32 \<Longrightarrow> unat (of_nat n :: u32) = n"
  by (simp add: unat_of_nat take_bit_nat_eq_self)

lemma u32_bound [simp]: "unat (w :: u32) < 4294967296"
  using unsigned_less [of w] by simp

lemma u64_bound [simp]: "unat (w :: u64) < 18446744073709551616"
  using unsigned_less [of w] by simp

end
