(* ===== verification/Qdma_Resource.thy ===== *)
theory Qdma_Resource
  imports Pim_Prelude
begin

text \<open>
  The queue resource manager of the QDMA driver
  (\<^verbatim>\<open>xilinx-qdma/driver/src/libqdma/qdma_access/qdma_resource_mgmt.c\<close>): every PCIe bus range has
  a master entry that owns a range of hardware queues; each function (device entry) holds one
  contiguous part of it, the rest is the master's sorted list of free ranges. The circular
  lists are HOL lists in list order, \<open>mem\<close> is the number of \<^verbatim>\<open>qdma_calloc\<close> calls that
  will still succeed. A C \<^verbatim>\<open>int\<close> is a 32-bit word compared with \<open>sint\<close>.
\<close>

datatype qdma_err = RM_RES_EXISTS | RM_RES_NOT_EXISTS | RM_DEV_EXISTS | RM_DEV_NOT_EXISTS
  | RM_NO_QUEUES_LEFT | RM_QMAX_CONF_REJECTED | NO_MEM

datatype q_range = Q_OUT_OF_RANGE | Q_IN_RANGE

datatype q_type = TYPE_H2C | TYPE_C2H | TYPE_CMPT | TYPE_MAX

record resource_entry =
  qbase :: u32
  total_q :: u32

record dev_entry =
  func_id :: u16
  active_h2c_qcnt :: u32
  active_c2h_qcnt :: u32
  active_cmpt_qcnt :: u32
  entry :: resource_entry

record resource_master =
  dma_device_index :: u32
  pci_bus_start :: u32
  pci_bus_end :: u32
  master_total_q :: u32
  master_qbase :: u32
  dev_list :: "dev_entry list"
  free_list :: "resource_entry list"
  active_qcnt :: u32

record rm_state =
  masters :: "resource_master list"
  next_index :: u32
  mem :: nat

section \<open>Finding entries\<close>

fun find_index :: "('a \<Rightarrow> bool) \<Rightarrow> 'a list \<Rightarrow> nat option" where
  "find_index P [] = None"
| "find_index P (x # xs) = (if P x then Some 0 else map_option Suc (find_index P xs))"

definition find_master_resource_entry :: "rm_state \<Rightarrow> u32 \<Rightarrow> u32 \<Rightarrow> nat option" where
  "find_master_resource_entry st bus_start bus_end =
     find_index (\<lambda>m. pci_bus_start m = bus_start \<and> pci_bus_end m = bus_end) (masters st)"

definition get_master_resource_entry :: "rm_state \<Rightarrow> u32 \<Rightarrow> nat option" where
  "get_master_resource_entry st idx = find_index (\<lambda>m. dma_device_index m = idx) (masters st)"

definition get_dev_entry :: "resource_master \<Rightarrow> u16 \<Rightarrow> nat option" where
  "get_dev_entry m f = find_index (\<lambda>d. func_id d = f) (dev_list m)"

section \<open>The free list\<close>

text \<open>The insertion loop: before the first larger base, at the end after the last entry.\<close>

fun insert_free :: "resource_entry \<Rightarrow> resource_entry list \<Rightarrow> resource_entry list" where
  "insert_free e [] = [e]"
| "insert_free e [n] = (if sint (qbase n) > sint (qbase e) then [e, n] else [n, e])"
| "insert_free e (n # n' # ns) =
     (if sint (qbase n) > sint (qbase e) then e # n # n' # ns else n # insert_free e (n' # ns))"

text \<open>The merging loop; the first entry is \<^verbatim>\<open>streach_node\<close>.\<close>

function defrag :: "resource_entry list \<Rightarrow> resource_entry list" where
  "defrag [] = []"
| "defrag [s] = [s]"
| "defrag (s # n # ns) =
     (if qbase s + total_q s = qbase n then defrag (s\<lparr>total_q := total_q s + total_q n\<rparr> # ns)
      else s # defrag (n # ns))"
  by pat_completeness auto
termination by (relation "measure length") auto

definition no_queues :: resource_entry where
  "no_queues = \<lparr>qbase = - 1, total_q = 0\<rparr>"

definition submit_to_free_list ::
  "dev_entry \<Rightarrow> resource_entry list \<Rightarrow> nat \<Rightarrow> dev_entry \<times> resource_entry list \<times> nat" where
  "submit_to_free_list dev fl hm =
     (if total_q (entry dev) = 0 then (dev, fl, hm)
      else if hm = 0 then (dev, fl, hm)
      else (dev\<lparr>entry := no_queues\<rparr>, defrag (insert_free (entry dev) fl), hm - 1))"

definition honours :: "u32 \<Rightarrow> u32 \<Rightarrow> resource_entry \<Rightarrow> bool" where
  "honours qmax qb n \<longleftrightarrow> sint qb \<ge> sint (qbase n) \<and> qbase n + total_q n \<ge> qb + qmax"

fun best_fit :: "u32 \<Rightarrow> resource_entry list \<Rightarrow> nat \<Rightarrow> (nat \<times> resource_entry) option \<Rightarrow> (nat \<times> resource_entry) option" where
  "best_fit qmax [] i best = best"
| "best_fit qmax (n # ns) i best =
     best_fit qmax ns (Suc i)
       (if total_q n \<ge> qmax \<and> (case best of None \<Rightarrow> True | Some (_, b) \<Rightarrow> total_q b \<ge> total_q n)
        then Some (i, n) else best)"

text \<open>
  \<^verbatim>\<open>fragment_free_list\<close>: the free list after the split, and where the node to hand out is.
\<close>

definition fragment :: "u32 \<Rightarrow> u32 \<Rightarrow> resource_entry list \<Rightarrow> nat \<Rightarrow> nat \<Rightarrow>
    nat option \<times> resource_entry list \<times> nat" where
  "fragment qmax qb fl i hm =
     (let n = fl ! i; before = take i fl; after = drop (Suc i) fl
      in if qb = qbase n \<and> qmax = total_q n then (Some i, fl, hm)
         else if qb = qbase n then
           (let lqbase = qbase n + qmax; lqmax = total_q n - qmax
            in if hm = 0 then (None, fl, hm)
               else (Some i, before @ [n\<lparr>total_q := total_q n - lqmax\<rparr>,
                                       \<lparr>qbase = lqbase, total_q = lqmax\<rparr>] @ after, hm - 1))
         else if sint qb > sint (qbase n) \<and> qb + qmax = qbase n + total_q n then
           (let lqbase = qbase n; lqmax = qb - qbase n
            in if hm = 0 then (None, fl, hm)
               else (Some (Suc i), before @ [\<lparr>qbase = lqbase, total_q = lqmax\<rparr>,
                                             n\<lparr>total_q := qmax, qbase := qb\<rparr>] @ after, hm - 1))
         else
           (let lqbase = qbase n; lqmax = qb - qbase n;
                n1 = n\<lparr>qbase := qb, total_q := total_q n - lqmax\<rparr>;
                rqbase = qbase n1 + qmax; rqmax = total_q n1 - qmax
            in if hm = 0 then (None, fl, hm)
               else if hm = 1 then
                 (None, before @ [\<lparr>qbase = lqbase, total_q = lqmax\<rparr>, n1] @ after, 0)
               else (Some (Suc i), before @ [\<lparr>qbase = lqbase, total_q = lqmax\<rparr>,
                         n1\<lparr>total_q := qmax\<rparr>, \<lparr>qbase = rqbase, total_q = rqmax\<rparr>] @ after, hm - 2)))"

definition get_resource_node :: "u32 \<Rightarrow> u32 \<Rightarrow> resource_entry list \<Rightarrow> nat \<Rightarrow>
    nat option \<times> resource_entry list \<times> nat" where
  "get_resource_node qmax qb fl hm =
     (case (if sint qb \<ge> 0 then find_index (honours qmax qb) fl else None) of
        Some i \<Rightarrow> fragment qmax qb fl i hm
      | None \<Rightarrow>
          (case best_fit qmax fl 0 None of
             None \<Rightarrow> (None, fl, hm)
           | Some (i, n) \<Rightarrow> fragment qmax (qbase n) fl i hm))"

text \<open>The end of \<^verbatim>\<open>qdma_request_q_resource\<close>: the node's queues move to the device.\<close>

definition take_node :: "dev_entry \<Rightarrow> resource_entry list \<Rightarrow> nat \<Rightarrow> dev_entry \<times> resource_entry list" where
  "take_node dev fl i = (dev\<lparr>entry := fl ! i\<rparr>, take i fl @ drop (Suc i) fl)"

definition request_q_resource :: "dev_entry \<Rightarrow> u32 \<Rightarrow> u32 \<Rightarrow> resource_entry list \<Rightarrow> nat \<Rightarrow>
    dev_entry \<times> resource_entry list \<times> nat \<times> qdma_err option" where
  "request_q_resource dev new_qmax new_qbase fl hm =
     (let qmax = total_q (entry dev); qb = qbase (entry dev)
      in case submit_to_free_list dev fl hm of
           (dev1, fl1, hm1) \<Rightarrow>
             if new_qmax = 0 then (dev1, fl1, hm1, None)
             else (case get_resource_node new_qmax new_qbase fl1 hm1 of
               (Some i, fl2, hm2) \<Rightarrow>
                 (case take_node dev1 fl2 i of (dev2, fl3) \<Rightarrow> (dev2, fl3, hm2, None))
             | (None, fl2, hm2) \<Rightarrow>
                 (case get_resource_node qmax qb fl2 hm2 of
                    (None, fl3, hm3) \<Rightarrow> (dev1\<lparr>entry := no_queues\<rparr>, fl3, hm3, Some RM_NO_QUEUES_LEFT)
                  | (Some i, fl3, hm3) \<Rightarrow>
                      (case take_node dev1 fl3 i of
                         (dev2, fl4) \<Rightarrow> (dev2, fl4, hm3, Some RM_NO_QUEUES_LEFT)))))"

section \<open>The operations\<close>

definition master_resource_create :: "rm_state \<Rightarrow> u32 \<Rightarrow> u32 \<Rightarrow> u32 \<Rightarrow> u32 \<Rightarrow>
    rm_state \<times> u32 \<times> qdma_err option" where
  "master_resource_create st bus_start bus_end q_base n_total =
     (case find_master_resource_entry st bus_start bus_end of
        Some k \<Rightarrow> (st, dma_device_index (masters st ! k), Some RM_RES_EXISTS)
      | None \<Rightarrow>
          if mem st = 0 then (st, next_index st, Some NO_MEM)
          else if mem st = 1 then (st\<lparr>mem := 0\<rparr>, next_index st, Some NO_MEM)
          else (st\<lparr>masters := masters st @
                     [\<lparr>dma_device_index = next_index st, pci_bus_start = bus_start,
                       pci_bus_end = bus_end, master_total_q = n_total, master_qbase = q_base,
                       dev_list = [], free_list = [\<lparr>qbase = q_base, total_q = n_total\<rparr>],
                       active_qcnt = 0\<rparr>],
                   next_index := next_index st + 1, mem := mem st - 2\<rparr>, next_index st, None))"

definition master_resource_destroy :: "rm_state \<Rightarrow> u32 \<Rightarrow> rm_state" where
  "master_resource_destroy st idx =
     (case get_master_resource_entry st idx of
        None \<Rightarrow> st
      | Some k \<Rightarrow>
          if dev_list (masters st ! k) \<noteq> [] then st
          else st\<lparr>masters := take k (masters st) @ drop (Suc k) (masters st)\<rparr>)"

definition new_dev :: "u16 \<Rightarrow> dev_entry" where
  "new_dev f = \<lparr>func_id = f, active_h2c_qcnt = 0, active_c2h_qcnt = 0, active_cmpt_qcnt = 0,
     entry = no_queues\<rparr>"

definition dev_entry_create :: "rm_state \<Rightarrow> u32 \<Rightarrow> u16 \<Rightarrow> rm_state \<times> qdma_err option" where
  "dev_entry_create st idx f =
     (case get_master_resource_entry st idx of
        None \<Rightarrow> (st, Some RM_RES_NOT_EXISTS)
      | Some k \<Rightarrow>
          (let m = masters st ! k
           in case get_dev_entry m f of
                Some _ \<Rightarrow> (st, Some RM_DEV_EXISTS)
              | None \<Rightarrow>
                  if mem st = 0 then (st, Some NO_MEM)
                  else (st\<lparr>masters := (masters st)[k := m\<lparr>dev_list := dev_list m @ [new_dev f]\<rparr>],
                           mem := mem st - 1\<rparr>, None)))"

definition dev_entry_destroy :: "rm_state \<Rightarrow> u32 \<Rightarrow> u16 \<Rightarrow> rm_state" where
  "dev_entry_destroy st idx f =
     (case get_master_resource_entry st idx of
        None \<Rightarrow> st
      | Some k \<Rightarrow>
          (let m = masters st ! k
           in case get_dev_entry m f of
                None \<Rightarrow> st
              | Some j \<Rightarrow>
                  (case submit_to_free_list (dev_list m ! j) (free_list m) (mem st) of
                     (dev, fl, hm) \<Rightarrow>
                       st\<lparr>masters := (masters st)[k := m\<lparr>free_list := fl,
                            dev_list := take j (dev_list m) @ drop (Suc j) (dev_list m)\<rparr>],
                          mem := hm\<rparr>)))"

definition dev_update :: "rm_state \<Rightarrow> u32 \<Rightarrow> u16 \<Rightarrow> u32 \<Rightarrow> u32 \<Rightarrow> rm_state \<times> u32 \<times> qdma_err option" where
  "dev_update st idx f qmax qb =
     (case get_master_resource_entry st idx of
        None \<Rightarrow> (st, qb, Some RM_RES_NOT_EXISTS)
      | Some k \<Rightarrow>
          (let m = masters st ! k
           in case get_dev_entry m f of
                None \<Rightarrow> (st, qb, Some RM_DEV_NOT_EXISTS)
              | Some j \<Rightarrow>
                  (let d = dev_list m ! j
                   in if active_h2c_qcnt d \<noteq> 0 \<or> active_c2h_qcnt d \<noteq> 0 \<or> active_cmpt_qcnt d \<noteq> 0
                      then (st, qb, Some RM_QMAX_CONF_REJECTED)
                      else (case request_q_resource d qmax qb (free_list m) (mem st) of
                        (d', fl, hm, rv) \<Rightarrow>
                          (st\<lparr>masters := (masters st)[k := m\<lparr>free_list := fl,
                                dev_list := (dev_list m)[j := d']\<rparr>], mem := hm\<rparr>,
                           qbase (entry d'), rv)))))"

definition find_dev :: "rm_state \<Rightarrow> u32 \<Rightarrow> u16 \<Rightarrow> qdma_err + (nat \<times> nat)" where
  "find_dev st idx f =
     (case get_master_resource_entry st idx of
        None \<Rightarrow> Inl RM_RES_NOT_EXISTS
      | Some k \<Rightarrow>
          (case get_dev_entry (masters st ! k) f of
             None \<Rightarrow> Inl RM_DEV_NOT_EXISTS | Some j \<Rightarrow> Inr (k, j)))"

abbreviation the_dev :: "rm_state \<Rightarrow> nat \<Rightarrow> nat \<Rightarrow> dev_entry" where
  "the_dev st k j \<equiv> dev_list (masters st ! k) ! j"

definition dev_qinfo_get :: "rm_state \<Rightarrow> u32 \<Rightarrow> u16 \<Rightarrow> qdma_err + (u32 \<times> u32)" where
  "dev_qinfo_get st idx f =
     (case find_dev st idx f of
        Inl e \<Rightarrow> Inl e
      | Inr (k, j) \<Rightarrow> Inr (qbase (entry (the_dev st k j)), total_q (entry (the_dev st k j))))"

definition dev_is_queue_in_range :: "rm_state \<Rightarrow> u32 \<Rightarrow> u16 \<Rightarrow> u32 \<Rightarrow> q_range" where
  "dev_is_queue_in_range st idx f qid_hw =
     (case find_dev st idx f of
        Inl e \<Rightarrow> Q_OUT_OF_RANGE
      | Inr (k, j) \<Rightarrow>
          (let e = entry (the_dev st k j); qmax = qbase e + total_q e
           in if total_q e \<noteq> 0 \<and> qid_hw < qmax \<and> sint qid_hw \<ge> sint (qbase e)
              then Q_IN_RANGE else Q_OUT_OF_RANGE))"

fun active_of :: "q_type \<Rightarrow> dev_entry \<Rightarrow> u32 option" where
  "active_of TYPE_H2C d = Some (active_h2c_qcnt d)"
| "active_of TYPE_C2H d = Some (active_c2h_qcnt d)"
| "active_of TYPE_CMPT d = Some (active_cmpt_qcnt d)"
| "active_of TYPE_MAX d = None"

fun set_active :: "q_type \<Rightarrow> u32 \<Rightarrow> dev_entry \<Rightarrow> dev_entry" where
  "set_active TYPE_H2C n d = d\<lparr>active_h2c_qcnt := n\<rparr>"
| "set_active TYPE_C2H n d = d\<lparr>active_c2h_qcnt := n\<rparr>"
| "set_active TYPE_CMPT n d = d\<lparr>active_cmpt_qcnt := n\<rparr>"
| "set_active TYPE_MAX n d = d"

definition put_dev :: "rm_state \<Rightarrow> nat \<Rightarrow> nat \<Rightarrow> dev_entry \<Rightarrow> u32 \<Rightarrow> rm_state" where
  "put_dev st k j d act =
     (let m = masters st ! k
      in st\<lparr>masters := (masters st)[k := m\<lparr>dev_list := (dev_list m)[j := d], active_qcnt := act\<rparr>]\<rparr>)"

definition dev_increment_active_queue :: "rm_state \<Rightarrow> u32 \<Rightarrow> u16 \<Rightarrow> q_type \<Rightarrow> rm_state \<times> qdma_err option" where
  "dev_increment_active_queue st idx f t =
     (case find_dev st idx f of
        Inl e \<Rightarrow> (st, Some e)
      | Inr (k, j) \<Rightarrow>
          (let d = the_dev st k j
           in case active_of t d of
                None \<Rightarrow> (st, Some RM_DEV_NOT_EXISTS)
              | Some c \<Rightarrow>
                  if total_q (entry d) < c + 1 then (st, Some RM_NO_QUEUES_LEFT)
                  else (put_dev st k j (set_active t (c + 1) d) (active_qcnt (masters st ! k) + 1), None)))"

definition dev_decrement_active_queue :: "rm_state \<Rightarrow> u32 \<Rightarrow> u16 \<Rightarrow> q_type \<Rightarrow> rm_state \<times> qdma_err option" where
  "dev_decrement_active_queue st idx f t =
     (case find_dev st idx f of
        Inl e \<Rightarrow> (st, Some e)
      | Inr (k, j) \<Rightarrow>
          (let d = the_dev st k j; act = active_qcnt (masters st ! k) - 1
           in case active_of t d of
                None \<Rightarrow> (put_dev st k j d act, Some RM_DEV_NOT_EXISTS)
              | Some c \<Rightarrow> (put_dev st k j (if c \<noteq> 0 then set_active t (c - 1) d else d) act, None)))"

definition get_active_queue_count :: "rm_state \<Rightarrow> u32 \<Rightarrow> u32" where
  "get_active_queue_count st idx =
     (case get_master_resource_entry st idx of
        None \<Rightarrow> 0 | Some k \<Rightarrow> active_qcnt (masters st ! k))"

definition get_device_active_queue_count :: "rm_state \<Rightarrow> u32 \<Rightarrow> u16 \<Rightarrow> q_type \<Rightarrow> qdma_err + u32" where
  "get_device_active_queue_count st idx f t =
     (case find_dev st idx f of
        Inl e \<Rightarrow> Inl e
      | Inr (k, j) \<Rightarrow> Inr (case active_of t (the_dev st k j) of None \<Rightarrow> 0 | Some c \<Rightarrow> c))"

section \<open>Ranges\<close>

definition lo :: "resource_entry \<Rightarrow> nat" where "lo e = unat (qbase e)"
definition hi :: "resource_entry \<Rightarrow> nat" where "hi e = unat (qbase e) + unat (total_q e)"

abbreviation cells :: "resource_entry \<Rightarrow> nat set" where "cells e \<equiv> {lo e..<hi e}"

definition all_cells :: "resource_entry list \<Rightarrow> nat set" where
  "all_cells fl = \<Union> (cells ` set fl)"

text \<open>A free list in order: nonempty ranges between \<open>a\<close> and \<open>b\<close>, none overlapping the next.\<close>

fun sorted_free :: "nat \<Rightarrow> nat \<Rightarrow> resource_entry list \<Rightarrow> bool" where
  "sorted_free a b [] \<longleftrightarrow> a \<le> b"
| "sorted_free a b (e # es) \<longleftrightarrow> a \<le> lo e \<and> lo e < hi e \<and> sorted_free (hi e) b es"

lemma all_cells_simps [simp]:
  "all_cells [] = {}" "all_cells (e # es) = cells e \<union> all_cells es"
  "all_cells (xs @ ys) = all_cells xs \<union> all_cells ys"
  by (auto simp: all_cells_def)

lemma lo_le_hi [simp]: "lo e \<le> hi e" by (simp add: lo_def hi_def)

lemma sorted_free_le: "sorted_free a b fl \<Longrightarrow> a \<le> b"
proof (induction fl arbitrary: a)
  case (Cons e es)
  then have "sorted_free (hi e) b es" "a \<le> lo e" "lo e < hi e" by simp_all
  with Cons.IH [OF this(1)] show ?case by linarith
qed simp

lemma sorted_free_mono: "sorted_free a b fl \<Longrightarrow> a' \<le> a \<Longrightarrow> sorted_free a' b fl"
  by (cases fl) auto

lemma sorted_free_cells: "sorted_free a b fl \<Longrightarrow> all_cells fl \<subseteq> {a..<b}"
proof (induction fl arbitrary: a)
  case (Cons e es)
  then have es: "all_cells es \<subseteq> {hi e..<b}" and b: "hi e \<le> b" "a \<le> lo e"
    using sorted_free_le by auto
  have "a \<le> hi e" using b(2) lo_le_hi [of e] by (rule le_trans)
  then have "{hi e..<b} \<subseteq> {a..<b}" using b by simp
  with es have "all_cells es \<subseteq> {a..<b}" by (rule subset_trans)
  moreover have "cells e \<subseteq> {a..<b}" using b by simp
  ultimately show ?case unfolding all_cells_simps by (rule Un_least [rotated])
qed simp

lemma sorted_free_append:
  "sorted_free a b (xs @ ys) \<longleftrightarrow> (\<exists>c. sorted_free a c xs \<and> sorted_free c b ys)"
proof (induction xs arbitrary: a)
  case Nil
  have "sorted_free a b ys \<Longrightarrow> \<exists>c. a \<le> c \<and> sorted_free c b ys" by (intro exI [of _ a]) simp
  then show ?case using sorted_free_mono by auto
next
  case (Cons x xs)
  then show ?case by auto
qed

lemma sorted_free_weaken: "sorted_free a c xs \<Longrightarrow> c \<le> b \<Longrightarrow> sorted_free a b xs"
  by (induction xs arbitrary: a) auto

lemma sorted_free_nonempty: "sorted_free a b fl \<Longrightarrow> e \<in> set fl \<Longrightarrow> lo e < hi e \<and> a \<le> lo e \<and> hi e \<le> b"
proof (induction fl arbitrary: a)
  case (Cons x xs)
  from Cons.prems(1) have x: "a \<le> lo x" "lo x < hi x" "sorted_free (hi x) b xs" by auto
  show ?case
  proof (cases "e = x")
    case True
    with x sorted_free_le show ?thesis by auto
  next
    case False
    with Cons.IH [OF x(3)] Cons.prems(2) x show ?thesis by auto
  qed
qed simp

lemma sint_of_nat_small: "n < 2 ^ 31 \<Longrightarrow> sint (of_nat n :: u32) = int n"
proof -
  assume n: "n < 2 ^ 31"
  have "sint (of_nat n :: u32) = signed_take_bit 31 (int n)" by (simp add: signed_of_nat)
  also have "\<dots> = int n" by (rule signed_take_bit_int_eq_self) (use n in simp_all)
  finally show ?thesis .
qed

lemma sint_small: "unat (w :: u32) < 2 ^ 31 \<Longrightarrow> sint w = int (unat w)"
  using sint_of_nat_small [of "unat w"] by simp

lemma sint_lo_less: "b \<le> 2 ^ 31 \<Longrightarrow> lo e < b \<Longrightarrow> lo e' < b \<Longrightarrow> sint (qbase e) > sint (qbase e') \<longleftrightarrow> lo e > lo e'"
proof -
  assume "b \<le> 2 ^ 31" "lo e < b" "lo e' < b"
  then have "unat (qbase e) < 2 ^ 31" "unat (qbase e') < 2 ^ 31" by (simp_all add: lo_def)
  then show ?thesis by (simp only: sint_small lo_def of_nat_less_iff)
qed

lemma insert_free_sorted:
  assumes "sorted_free a b fl" "b \<le> 2 ^ 31" "a \<le> lo e" "lo e < hi e" "hi e \<le> b"
    and "cells e \<inter> all_cells fl = {}"
  shows "sorted_free a b (insert_free e fl) \<and> all_cells (insert_free e fl) = cells e \<union> all_cells fl"
  using assms
proof (induction e fl arbitrary: a rule: insert_free.induct)
  case (1 e)
  then show ?case by simp
next
  case (2 e n)
  then have n: "a \<le> lo n" "lo n < hi n" "hi n \<le> b" by auto
  have disj: "hi e \<le> lo n \<or> hi n \<le> lo e"
  proof (rule ccontr)
    assume "\<not> ?thesis"
    then have "max (lo e) (lo n) \<in> cells e \<inter> cells n" using n(2) "2.prems"(4) by auto
    with "2.prems"(6) show False by auto
  qed
  have "sint (qbase n) > sint (qbase e) \<longleftrightarrow> lo n > lo e"
    by (rule sint_lo_less [OF "2.prems"(2)]) (use n "2.prems" in auto)
  with disj n "2.prems" show ?case by auto
next
  case (3 e n n' ns)
  then have n: "a \<le> lo n" "lo n < hi n" "sorted_free (hi n) b (n' # ns)" by auto
  then have hb: "hi n \<le> b" using sorted_free_le by blast
  have disj: "hi e \<le> lo n \<or> hi n \<le> lo e"
  proof (rule ccontr)
    assume "\<not> ?thesis"
    then have "max (lo e) (lo n) \<in> cells e \<inter> all_cells (n # n' # ns)" using n(2) "3.prems"(4) by simp
    with "3.prems"(6) show False by blast
  qed
  have cmp: "sint (qbase n) > sint (qbase e) \<longleftrightarrow> lo n > lo e"
    by (rule sint_lo_less [OF "3.prems"(2)]) (use n hb "3.prems" in auto)
  show ?case
  proof (cases "lo n > lo e")
    case True
    with cmp disj n "3.prems" show ?thesis by auto
  next
    case False
    with disj n have he: "hi n \<le> lo e" using "3.prems"(4) by linarith
    have rest: "cells e \<inter> all_cells (n' # ns) = {}" using "3.prems"(6) by (simp add: Int_Un_distrib)
    have nc: "\<not> sint (qbase n) > sint (qbase e)" using cmp False by simp
    from "3.IH" [OF nc n(3) "3.prems"(2) he "3.prems"(4,5) rest] nc n show ?thesis
      by (simp add: Un_left_commute)
  qed
qed

lemma merge_cells:
  assumes "qbase s + total_q s = qbase n" "sorted_free (hi s) b (n # ns)" "b \<le> 2 ^ 31"
  shows "hi (s\<lparr>total_q := total_q s + total_q n\<rparr>) = hi n" "hi s = lo n"
    "lo (s\<lparr>total_q := total_q s + total_q n\<rparr>) = lo s"
proof -
  have n: "hi s \<le> lo n" "lo n < hi n" "hi n \<le> b" using assms(2) sorted_free_le by auto
  have "unat (qbase s + total_q s) = unat (qbase s) + unat (total_q s)"
    using n assms(3) by (simp add: hi_def lo_def unat_word_ariths)
  then show eq: "hi s = lo n" using assms(1) by (simp add: hi_def lo_def)
  have "unat (total_q s + total_q n) = unat (total_q s) + unat (total_q n)"
    using n assms(3) eq by (simp add: hi_def lo_def unat_word_ariths)
  then show "hi (s\<lparr>total_q := total_q s + total_q n\<rparr>) = hi n" using eq by (simp add: hi_def lo_def)
qed (simp add: lo_def)

fun coalesced :: "resource_entry list \<Rightarrow> bool" where
  "coalesced (e # e' # es) \<longleftrightarrow> hi e \<noteq> lo e' \<and> coalesced (e' # es)"
| "coalesced _ \<longleftrightarrow> True"

lemma defrag_head: "fl \<noteq> [] \<Longrightarrow> \<exists>e es. defrag fl = e # es \<and> lo e = lo (hd fl)"
  by (induction fl rule: defrag.induct) (auto simp: lo_def)

lemma defrag_sorted:
  "sorted_free a b fl \<Longrightarrow> b \<le> 2 ^ 31 \<Longrightarrow>
    sorted_free a b (defrag fl) \<and> all_cells (defrag fl) = all_cells fl \<and> coalesced (defrag fl)"
proof (induction fl arbitrary: a rule: defrag.induct)
  case (3 s n ns)
  from "3.prems"(1) have s: "a \<le> lo s" "lo s < hi s" "sorted_free (hi s) b (n # ns)" by auto
  show ?case
  proof (cases "qbase s + total_q s = qbase n")
    case True
    note m = merge_cells [OF True s(3) "3.prems"(2)]
    have "sorted_free a b (s\<lparr>total_q := total_q s + total_q n\<rparr> # ns)"
      using s m by auto
    from "3.IH"(1) [OF True this "3.prems"(2)] True m s show ?thesis
      by (auto simp: ivl_disj_un Un_assoc [symmetric])
  next
    case False
    have "hi s \<noteq> lo n"
    proof
      assume eq: "hi s = lo n"
      have "lo n < 2 ^ 31" using s(3) "3.prems"(2) sorted_free_le by fastforce
      then have "unat (qbase s + total_q s) = unat (qbase n)"
        using eq by (simp add: hi_def lo_def unat_word_ariths)
      with False show False by (simp add: word_unat_eq_iff)
    qed
    with "3.IH"(2) [OF False s(3) "3.prems"(2)] False s defrag_head [of "n # ns"] show ?thesis
      by auto
  qed
qed auto

section \<open>Splitting a node\<close>

lemma replace_node:
  assumes "sorted_free a b (before @ n # after)" "sorted_free (lo n) (hi n) ps"
  shows "sorted_free a b (before @ ps @ after)"
proof -
  from assms(1) obtain c where c: "sorted_free a c before" "c \<le> lo n" "sorted_free (hi n) b after"
    unfolding sorted_free_append by auto
  have "sorted_free c (hi n) ps" by (rule sorted_free_mono [OF assms(2) c(2)])
  with c show ?thesis unfolding sorted_free_append by blast
qed

lemma node_bounds:
  assumes "sorted_free a b fl" "b \<le> 2 ^ 31" "i < length fl"
  shows "lo (fl ! i) < hi (fl ! i)" "hi (fl ! i) \<le> 2 ^ 31" "a \<le> lo (fl ! i)" "hi (fl ! i) \<le> b"
  using sorted_free_nonempty [OF assms(1), of "fl ! i"] assms(2,3) by auto

lemma node_disjoint:
  assumes "sorted_free a b (before @ n # after)" "x \<in> cells n"
  shows "x \<notin> all_cells before" "x \<notin> all_cells after"
proof -
  from assms(1) obtain c where c: "sorted_free a c before" "c \<le> lo n" "sorted_free (hi n) b after"
    unfolding sorted_free_append by auto
  from sorted_free_cells [OF c(1)] sorted_free_cells [OF c(3)] c(2) assms(2)
  show "x \<notin> all_cells before" "x \<notin> all_cells after" by auto
qed

text \<open>What a search for \<open>qmax\<close> queues from \<open>qb\<close> on leaves behind.\<close>

definition split_ok :: "nat \<Rightarrow> nat \<Rightarrow> resource_entry list \<Rightarrow> (resource_entry \<Rightarrow> bool) \<Rightarrow>
    nat option \<times> resource_entry list \<times> nat \<Rightarrow> bool" where
  "split_ok a b fl good r \<longleftrightarrow> (case r of
      (None, fl', hm) \<Rightarrow> sorted_free a b fl' \<and> all_cells fl' = all_cells fl
    | (Some j, fl', hm) \<Rightarrow> j < length fl' \<and> good (fl' ! j)
        \<and> sorted_free a b (take j fl' @ drop (Suc j) fl')
        \<and> cells (fl' ! j) \<union> all_cells (take j fl' @ drop (Suc j) fl') = all_cells fl
        \<and> cells (fl' ! j) \<inter> all_cells (take j fl' @ drop (Suc j) fl') = {})"

lemma split_okI:
  assumes "sorted_free a b (before @ n # after)" "fl' = before @ pre @ m # post @ after"
    and "sorted_free (lo n) (hi n) (pre @ post)" "good m"
    and "cells m \<union> all_cells (pre @ post) = cells n" "cells m \<inter> all_cells (pre @ post) = {}"
    and "j = length before + length pre"
  shows "split_ok a b (before @ n # after) good (Some j, fl', hm)"
proof -
  have t: "take j fl' @ drop (Suc j) fl' = before @ (pre @ post) @ after" "fl' ! j = m" "j < length fl'"
    using assms(2,7) by (simp_all add: nth_append)
  have "x \<notin> all_cells before \<and> x \<notin> all_cells after" if "x \<in> cells m" for x
    using node_disjoint [OF assms(1), of x] assms(5) that by blast
  then have "cells m \<inter> all_cells (before @ (pre @ post) @ after) = {}"
    using assms(6) by (auto simp del: atLeastLessThan_iff)
  moreover have "cells m \<union> all_cells (before @ (pre @ post) @ after) = all_cells (before @ n # after)"
    unfolding all_cells_simps assms(5) [symmetric] by auto
  ultimately show ?thesis
    unfolding split_ok_def by (simp only: option.case prod.case t assms(4) replace_node [OF assms(1,3)])
qed

definition holds :: "nat \<Rightarrow> u32 \<Rightarrow> resource_entry \<Rightarrow> bool" where
  "holds q qmax e \<longleftrightarrow> unat (qbase e) = q \<and> total_q e = qmax"

lemma fragment_spec:
  assumes s: "sorted_free a b fl" and b: "b < 2 ^ 31" and i: "i < length fl"
    and q: "lo (fl ! i) \<le> unat qb" "unat qb + unat qmax \<le> hi (fl ! i)"
  shows "split_ok a b fl (holds (unat qb) qmax) (fragment qmax qb fl i hm)"
    and "2 \<le> hm \<Longrightarrow> fst (fragment qmax qb fl i hm) \<noteq> None"
proof -
  define n before after where "n = fl ! i" "before = take i fl" "after = drop (Suc i) fl"
  note nba = this
  have fl: "fl = before @ n # after" unfolding nba by (rule id_take_nth_drop [OF i])
  have len: "length before = i" using i by (simp add: nba)
  note nb = node_bounds [OF s less_imp_le [OF b] i, folded nba(1)]
  note q' = q [folded nba(1)]
  have qn: "unat (qbase n) = lo n" "unat (total_q n) = hi n - lo n" by (simp_all add: lo_def hi_def)
  have tq: "qmax \<le> total_q n" using q' by (simp add: word_le_nat_alt lo_def hi_def)
  have add: "unat (qb + qmax) = unat qb + unat qmax" using q' nb by (simp add: unat_word_ariths)
  have addn: "unat (qbase n + total_q n) = hi n" using nb by (simp add: unat_word_ariths hi_def)
  have leb: "qbase n \<le> qb" using q' by (simp add: word_le_nat_alt lo_def)
  have sub: "unat (qb - qbase n) = unat qb - lo n" unfolding unat_sub [OF leb] qn(1) ..
  have subt: "unat (total_q n - qmax) = hi n - lo n - unat qmax" unfolding unat_sub [OF tq] qn(2) ..
  have s': "sorted_free a b (before @ n # after)" using s fl by simp
  have sintq: "sint qb > sint (qbase n) \<longleftrightarrow> unat qb > lo n"
  proof -
    have "unat qb < 2 ^ 31" "unat (qbase n) < 2 ^ 31" using q' nb b by (simp_all add: lo_def)
    then show ?thesis by (simp only: sint_small lo_def of_nat_less_iff)
  qed
  have eqb: "qb = qbase n \<longleftrightarrow> unat qb = lo n" by (simp add: word_unat_eq_iff lo_def)
  have eqe: "qb + qmax = qbase n + total_q n \<longleftrightarrow> unat qb + unat qmax = hi n"
    unfolding word_unat_eq_iff add addn ..
  let ?r = "fragment qmax qb fl i hm"
  let ?pre = "\<lparr>qbase = qbase n, total_q = qb - qbase n\<rparr>"
  have pre: "lo ?pre = lo n" "hi ?pre = unat qb" using q' sub by (simp_all add: lo_def hi_def)
  note def = fragment_def [of qmax qb fl i hm, unfolded Let_def, folded nba]
  consider (A) "qb = qbase n" "qmax = total_q n" | (B) "qb = qbase n" "qmax \<noteq> total_q n"
    | (C) "lo n < unat qb" "unat qb + unat qmax = hi n"
    | (D) "lo n < unat qb" "unat qb + unat qmax < hi n"
    using eqb q' by force
  then show "split_ok a b fl (holds (unat qb) qmax) ?r" and "2 \<le> hm \<Longrightarrow> fst ?r \<noteq> None"
  proof (atomize(full), cases)
    case A
    have "split_ok a b (before @ n # after) (holds (unat qb) qmax) (Some i, fl, hm)"
      by (rule split_okI [OF s', where pre = "[]" and post = "[]" and m = n])
        (use fl len A in \<open>simp_all add: holds_def\<close>)
    with A def fl show "split_ok a b fl (holds (unat qb) qmax) ?r \<and> (2 \<le> hm \<longrightarrow> fst ?r \<noteq> None)" by simp
  next
    case B
    let ?m = "n\<lparr>total_q := total_q n - (total_q n - qmax)\<rparr>"
    let ?post = "\<lparr>qbase = qbase n + qmax, total_q = total_q n - qmax\<rparr>"
    have post: "lo ?post = unat qb + unat qmax" "hi ?post = hi n"
      using add subt B(1) q' by (simp_all add: lo_def hi_def)
    have m: "lo ?m = unat qb" "hi ?m = unat qb + unat qmax" using B(1) by (simp_all add: lo_def hi_def)
    have "unat qmax \<noteq> unat (total_q n)" using B(2) by (simp add: word_unat_eq_iff)
    then have lt: "unat qb + unat qmax < hi n" using q' B(1) by (simp add: hi_def lo_def)
    have "split_ok a b (before @ n # after) (holds (unat qb) qmax)
        (Some i, before @ [?m, ?post] @ after, hm - 1)"
      by (rule split_okI [OF s', where pre = "[]" and post = "[?post]" and m = ?m])
        (use len lt m post q' B(1) qn(1) in \<open>auto simp: holds_def\<close>)
    moreover have "split_ok a b fl (holds (unat qb) qmax) (None, fl, h)" for h using s by (simp add: split_ok_def)
    ultimately show "split_ok a b fl (holds (unat qb) qmax) ?r \<and> (2 \<le> hm \<longrightarrow> fst ?r \<noteq> None)"
      using B fl unfolding def by simp
  next
    case C
    let ?m = "n\<lparr>total_q := qmax, qbase := qb\<rparr>"
    have m: "lo ?m = unat qb" "hi ?m = hi n" using C(2) by (simp_all add: lo_def hi_def)
    have "split_ok a b (before @ n # after) (holds (unat qb) qmax)
        (Some (Suc i), before @ [?pre, ?m] @ after, hm - 1)"
      by (rule split_okI [OF s', where pre = "[?pre]" and post = "[]" and m = ?m])
        (use len m pre C q' in \<open>auto simp: holds_def\<close>)
    moreover have "split_ok a b fl (holds (unat qb) qmax) (None, fl, h)" for h using s by (simp add: split_ok_def)
    ultimately show "split_ok a b fl (holds (unat qb) qmax) ?r \<and> (2 \<le> hm \<longrightarrow> fst ?r \<noteq> None)"
      using C fl eqb eqe sintq unfolding def by simp
  next
    case D
    let ?n1 = "n\<lparr>qbase := qb, total_q := total_q n - (qb - qbase n)\<rparr>"
    let ?post = "\<lparr>qbase = qbase ?n1 + qmax, total_q = total_q ?n1 - qmax\<rparr>"
    let ?m = "?n1\<lparr>total_q := qmax\<rparr>"
    have le1: "qb - qbase n \<le> total_q n" unfolding word_le_nat_alt sub qn(2) using q' by linarith
    have t1: "unat (total_q ?n1) = hi n - unat qb" using unat_sub [OF le1] sub qn(2) q' by simp
    have le2: "qmax \<le> total_q ?n1" unfolding word_le_nat_alt t1 using q' by linarith
    have n1: "lo ?n1 = unat qb" "hi ?n1 = hi n" using t1 q' by (simp_all add: lo_def hi_def)
    have post: "lo ?post = unat qb + unat qmax" "hi ?post = hi n"
      using add unat_sub [OF le2] t1 q' by (simp_all add: lo_def hi_def)
    have m: "lo ?m = unat qb" "hi ?m = unat qb + unat qmax" by (simp_all add: lo_def hi_def)
    have "split_ok a b (before @ n # after) (holds (unat qb) qmax)
        (Some (Suc i), before @ [?pre, ?m, ?post] @ after, hm - 2)"
      by (rule split_okI [OF s', where pre = "[?pre]" and post = "[?post]" and m = ?m])
        (use len m pre post D q' in \<open>auto simp: holds_def\<close>)
    moreover have "split_ok a b fl (holds (unat qb) qmax) (None, before @ [?pre, ?n1] @ after, 0)"
    proof -
      have "sorted_free (lo n) (hi n) [?pre, ?n1]" using pre n1 D by simp
      from replace_node [OF s' this] have "sorted_free a b (before @ [?pre, ?n1] @ after)" .
      moreover have "cells ?pre \<union> cells ?n1 = cells n"
        unfolding pre n1 using D by (intro ivl_disj_un) simp_all
      ultimately show ?thesis unfolding split_ok_def fl by (auto simp del: atLeastLessThan_iff)
    qed
    moreover have "split_ok a b fl (holds (unat qb) qmax) (None, fl, h)" for h using s by (simp add: split_ok_def)
    ultimately show "split_ok a b fl (holds (unat qb) qmax) ?r \<and> (2 \<le> hm \<longrightarrow> fst ?r \<noteq> None)"
      using D fl eqb eqe sintq unfolding def by simp
  qed
qed

section \<open>The search\<close>

lemma sint_nonneg:
  assumes "0 \<le> sint (w :: u32)" shows "unat w < 2 ^ 31"
proof -
  define n where "n = unat w"
  have w: "w = of_nat n" by (simp add: n_def)
  have lt: "int n < 2 ^ 32" using u32_bound [of w] unfolding n_def [symmetric] by simp
  have "sint (of_nat n :: u32) = signed_take_bit 31 (int n)" by (simp add: signed_of_nat)
  also have "\<dots> = take_bit (Suc 31) (int n) - 2 ^ Suc 31 * of_bool (bit (int n) 31)"
    by (rule signed_take_bit_eq_take_bit_minus)
  also have "take_bit (Suc 31) (int n) = int n"
    using lt by (intro take_bit_int_eq_self) simp_all
  finally have s: "sint w = int n - 2 ^ Suc 31 * of_bool (bit (int n) 31)" unfolding w .
  have "\<not> bit (int n) 31"
  proof
    assume "bit (int n) 31"
    with s lt assms show False by simp
  qed
  with s have "sint w = int n" by simp
  moreover have "sint w < 2 ^ 31" using sint_less [of w] by simp
  ultimately have "int n < 2 ^ 31" by simp
  then show ?thesis unfolding n_def [symmetric] by simp
qed

lemma find_index_Some: "find_index P xs = Some i \<Longrightarrow> i < length xs \<and> P (xs ! i)"
proof (induction xs arbitrary: i)
  case (Cons x xs)
  then show ?case by (cases "P x") auto
qed simp

lemma find_index_None: "find_index P xs = None \<Longrightarrow> x \<in> set xs \<Longrightarrow> \<not> P x"
  by (induction xs) (auto split: if_splits)

lemma best_fit_Some:
  "best_fit qmax ns i best = Some (j, n) \<Longrightarrow>
    best = Some (j, n) \<or> (i \<le> j \<and> j - i < length ns \<and> n = ns ! (j - i) \<and> qmax \<le> total_q n)"
proof (induction ns arbitrary: i best)
  case (Cons x xs)
  let ?best = "if total_q x \<ge> qmax \<and> (case best of None \<Rightarrow> True | Some (_, b) \<Rightarrow> total_q b \<ge> total_q x)
        then Some (i, x) else best"
  from Cons.prems have "best_fit qmax xs (Suc i) ?best = Some (j, n)" by simp
  from Cons.IH [OF this] consider "?best = Some (j, n)"
    | "Suc i \<le> j" "j - Suc i < length xs" "n = xs ! (j - Suc i)" "qmax \<le> total_q n" by blast
  then show ?case
  proof cases
    case 1
    then show ?thesis by (cases "?best = best") (auto split: if_splits)
  next
    case 2
    then have "j - i = Suc (j - Suc i)" by simp
    with 2 show ?thesis by simp
  qed
qed simp

lemma best_fit_None: "best_fit qmax ns i best = None \<Longrightarrow> best = None \<and> (\<forall>n \<in> set ns. \<not> qmax \<le> total_q n)"
proof (induction ns arbitrary: i best)
  case (Cons x xs)
  from Cons.prems have "best_fit qmax xs (Suc i) (if total_q x \<ge> qmax \<and> (case best of None \<Rightarrow> True
      | Some (_, b) \<Rightarrow> total_q b \<ge> total_q x) then Some (i, x) else best) = None" by simp
  from Cons.IH [OF this] show ?case by (auto split: if_splits)
qed simp

lemma split_ok_mono: "split_ok a b fl P r \<Longrightarrow> (\<And>e. P e \<Longrightarrow> Q e) \<Longrightarrow> split_ok a b fl Q r"
  by (auto simp: split_ok_def split: option.splits prod.splits)

definition no_wrap :: "u32 \<Rightarrow> u32 \<Rightarrow> bool" where
  "no_wrap qmax qb \<longleftrightarrow> (0 \<le> sint qb \<longrightarrow> unat qb + unat qmax < 2 ^ 32)"

lemma get_resource_node_spec:
  assumes s: "sorted_free a b fl" and b: "b < 2 ^ 31" and w: "no_wrap qmax qb"
  shows "split_ok a b fl (\<lambda>e. total_q e = qmax) (get_resource_node qmax qb fl hm)"
    and "2 \<le> hm \<Longrightarrow> e \<in> set fl \<Longrightarrow> qmax \<le> total_q e \<Longrightarrow> fst (get_resource_node qmax qb fl hm) \<noteq> None"
    and "2 \<le> hm \<Longrightarrow> 0 \<le> sint qb \<Longrightarrow> e \<in> set fl \<Longrightarrow> lo e \<le> unat qb \<Longrightarrow> unat qb + unat qmax \<le> hi e \<Longrightarrow>
      \<exists>i fl' hm'. get_resource_node qmax qb fl hm = (Some i, fl', hm') \<and> unat (qbase (fl' ! i)) = unat qb"
proof -
  let ?h = "if sint qb \<ge> 0 then find_index (honours qmax qb) fl else None"
  have honour: "lo n \<le> unat qb \<and> unat qb + unat qmax \<le> hi n \<longleftrightarrow> honours qmax qb n"
    if "n \<in> set fl" "0 \<le> sint qb" for n
  proof -
    have nb: "lo n < hi n" "hi n \<le> b" using sorted_free_nonempty [OF s that(1)] by auto
    have q: "unat qb < 2 ^ 31" by (rule sint_nonneg [OF that(2)])
    have n: "unat (qbase n) < 2 ^ 31" using nb b by (simp add: lo_def)
    have e: "unat (qbase n + total_q n) = hi n" using nb b by (simp add: hi_def unat_word_ariths)
    have r: "unat (qb + qmax) = unat qb + unat qmax"
      using w that(2) by (simp add: no_wrap_def unat_word_ariths)
    have "sint qb \<ge> sint (qbase n) \<longleftrightarrow> unat (qbase n) \<le> unat qb"
      unfolding sint_small [OF q] sint_small [OF n] by (simp only: of_nat_le_iff)
    then show ?thesis by (simp add: honours_def word_le_nat_alt e r) (simp add: lo_def)
  qed
  have hon: "i < length fl \<and> lo (fl ! i) \<le> unat qb \<and> unat qb + unat qmax \<le> hi (fl ! i)" if "?h = Some i" for i
    using that find_index_Some [of "honours qmax qb" fl i] honour [of "fl ! i"] by (auto split: if_splits)
  have best: "i < length fl \<and> n = fl ! i \<and> qmax \<le> total_q n" if "best_fit qmax fl 0 None = Some (i, n)" for i n
    using best_fit_Some [OF that] by auto
  have frag: "split_ok a b fl (\<lambda>e. total_q e = qmax) (fragment qmax qb' fl i hm)"
    if "i < length fl" "lo (fl ! i) \<le> unat qb'" "unat qb' + unat qmax \<le> hi (fl ! i)" for i qb'
    using fragment_spec(1) [OF s b that, of hm] by (rule split_ok_mono) (simp add: holds_def)
  have bestq: "lo (fl ! i) \<le> unat (qbase n) \<and> unat (qbase n) + unat qmax \<le> hi (fl ! i)"
    if "best_fit qmax fl 0 None = Some (i, n)" for i n
  proof -
    from best [OF that] have n: "n = fl ! i" and le: "qmax \<le> total_q n" by blast+
    from le have "qmax \<le> total_q (fl ! i)" unfolding n .
    then show ?thesis unfolding n by (simp add: lo_def hi_def word_le_nat_alt)
  qed
  show "split_ok a b fl (\<lambda>e. total_q e = qmax) (get_resource_node qmax qb fl hm)"
  proof (cases ?h)
    case (Some i)
    with hon [OF Some] frag show ?thesis by (simp add: get_resource_node_def)
  next
    case None
    show ?thesis
    proof (cases "best_fit qmax fl 0 None")
      case None': None
      have "split_ok a b fl (\<lambda>e. total_q e = qmax) (None, fl, hm)" using s by (simp add: split_ok_def)
      with None None' show ?thesis unfolding get_resource_node_def by simp
    next
      case (Some p)
      obtain i n where p: "p = (i, n)" by (cases p)
      with Some best bestq frag None show ?thesis unfolding get_resource_node_def by auto
    qed
  qed
  show "fst (get_resource_node qmax qb fl hm) \<noteq> None" if "2 \<le> hm" "e \<in> set fl" "qmax \<le> total_q e"
  proof (cases ?h)
    case (Some i)
    with hon [OF Some] fragment_spec(2) [OF s b] that(1) show ?thesis by (simp add: get_resource_node_def)
  next
    case None
    have "best_fit qmax fl 0 None \<noteq> None" using best_fit_None [of qmax fl 0 None] that(2,3) by blast
    then obtain i n where p: "best_fit qmax fl 0 None = Some (i, n)" by fast
    have "fst (fragment qmax (qbase n) fl i hm) \<noteq> None"
      using best [OF p] bestq [OF p] by (intro fragment_spec(2) [OF s b _ _ _ that(1)]) auto
    with None p show ?thesis unfolding get_resource_node_def by simp
  qed
  show "\<exists>i fl' hm'. get_resource_node qmax qb fl hm = (Some i, fl', hm') \<and> unat (qbase (fl' ! i)) = unat qb"
    if "2 \<le> hm" "0 \<le> sint qb" "e \<in> set fl" "lo e \<le> unat qb" "unat qb + unat qmax \<le> hi e"
  proof -
    have "honours qmax qb e" using honour [OF that(3,2)] that(4,5) by blast
    with find_index_None [of "honours qmax qb" fl e] that(2,3) have "?h \<noteq> None" by auto
    then obtain i where h: "?h = Some i" by blast
    note i = hon [OF h]
    obtain p fl' hm' where f: "fragment qmax qb fl i hm = (p, fl', hm')" by (cases "fragment qmax qb fl i hm")
    from fragment_spec(2) [OF s b _ _ _ that(1)] i f obtain j where "p = Some j" by fastforce
    with fragment_spec(1) [OF s b, of i qb qmax hm] i f h show ?thesis
      by (auto simp: get_resource_node_def split_ok_def holds_def)
  qed
qed

section \<open>A device's request\<close>

lemma no_queues_simps [simp]: "hi no_queues = lo no_queues" "total_q no_queues = 0"
  by (simp_all add: no_queues_def lo_def hi_def)

lemma cells_empty_iff: "cells e = {} \<longleftrightarrow> total_q e = 0"
  by (simp add: lo_def hi_def unat_eq_0)

definition apart :: "nat \<Rightarrow> nat \<Rightarrow> resource_entry \<Rightarrow> resource_entry list \<Rightarrow> bool" where
  "apart a b e fl \<longleftrightarrow> sorted_free a b fl \<and> cells e \<subseteq> {a..<b} \<and> cells e \<inter> all_cells fl = {}"

lemma submit_spec:
  assumes "apart a b (entry d) fl" "b < 2 ^ 31" "submit_to_free_list d fl hm = (d', fl', hm')"
  shows "apart a b (entry d') fl'" "cells (entry d') \<union> all_cells fl' = cells (entry d) \<union> all_cells fl"
    and "entry d' = entry d \<and> fl' = fl \<and> hm' = hm \<or> entry d' = no_queues" "hm \<le> Suc hm'"
    and "hm \<noteq> 0 \<Longrightarrow> cells (entry d') = {}" "d' = d\<lparr>entry := entry d'\<rparr>"
proof -
  let ?e = "entry d"
  have in_range: "a \<le> lo ?e \<and> lo ?e < hi ?e \<and> hi ?e \<le> b" if "total_q ?e \<noteq> 0"
  proof -
    have "lo ?e < hi ?e" using that by (simp add: lo_def hi_def unat_gt_0)
    with assms(1) show ?thesis by (auto simp: apart_def)
  qed
  have ins: "sorted_free a b (defrag (insert_free ?e fl)) \<and> all_cells (defrag (insert_free ?e fl)) = cells ?e \<union> all_cells fl"
    if "total_q ?e \<noteq> 0"
    using insert_free_sorted [of a b fl ?e] defrag_sorted [of a b "insert_free ?e fl"] assms(1,2) in_range [OF that]
    by (simp add: apart_def)
  show "apart a b (entry d') fl'" "cells (entry d') \<union> all_cells fl' = cells (entry d) \<union> all_cells fl"
    "entry d' = entry d \<and> fl' = fl \<and> hm' = hm \<or> entry d' = no_queues" "hm \<le> Suc hm'"
    "d' = d\<lparr>entry := entry d'\<rparr>"
    using assms(1,3) ins by (auto simp: submit_to_free_list_def apart_def split: if_splits)
  show "cells (entry d') = {}" if "hm \<noteq> 0"
    using that assms(3) by (auto simp: submit_to_free_list_def lo_def hi_def split: if_splits)
qed

lemma no_wrap_own: "cells e \<subseteq> {a..<b} \<Longrightarrow> b < 2 ^ 31 \<Longrightarrow> no_wrap (total_q e) (qbase e)"
proof (cases "total_q e = 0")
  case True
  then show ?thesis using unsigned_less [of "qbase e"] by (simp add: no_wrap_def)
next
  case False
  assume "cells e \<subseteq> {a..<b}" "b < 2 ^ 31"
  with False show ?thesis by (auto simp: no_wrap_def lo_def hi_def unat_gt_0)
qed

lemma take_node_spec:
  assumes "split_ok a b fl P (Some i, fl', hm)" "take_node d fl' i = (d', fl'')" "sorted_free a b fl"
  shows "apart a b (entry d') fl''" "cells (entry d') \<union> all_cells fl'' = all_cells fl" "P (entry d')"
    "d' = d\<lparr>entry := entry d'\<rparr>"
proof -
  note s = assms(1) [unfolded split_ok_def option.case prod.case]
  from assms(2) have e: "entry d' = fl' ! i" "fl'' = take i fl' @ drop (Suc i) fl'" by (auto simp: take_node_def)
  show "d' = d\<lparr>entry := entry d'\<rparr>" using assms(2) by (auto simp: take_node_def)
  show "cells (entry d') \<union> all_cells fl'' = all_cells fl" "P (entry d')" unfolding e using s by blast+
  show "apart a b (entry d') fl''" unfolding apart_def
  proof (intro conjI)
    show "sorted_free a b fl''" "cells (entry d') \<inter> all_cells fl'' = {}" unfolding e using s by blast+
    have "cells (entry d') \<subseteq> all_cells fl" unfolding e using s by blast
    then show "cells (entry d') \<subseteq> {a..<b}" using sorted_free_cells [OF assms(3)] by (rule subset_trans)
  qed
qed

end
