(* ===== verification/Qdma_Mbox.thy ===== *)
theory Qdma_Mbox
  imports Qdma_Resource
begin

text \<open>
  The mailbox protocol between the physical function (PF) and its virtual functions (VF):
  \<^verbatim>\<open>xilinx-qdma/driver/src/libqdma/qdma_access/qdma_mbox_protocol.c\<close>. A VF asks by message, the
  PF's handler runs the request against the resource manager (theory \<open>Qdma_Resource\<close>) and the
  queue contexts of the hardware and composes the response.

  A message is 32 words read through a union; here it is the record of what the views of the
  union read. The register-level routines behind \<^verbatim>\<open>struct qdma_hw_access\<close> are the parameter
  \<open>mb_env\<close>: what each call answers, given the calls before it. The state is the resource manager
  and the list of these calls. A NULL message pointer is not modelled (every caller passes a
  buffer).
\<close>

section \<open>Error codes\<close>

abbreviation (input) QDMA_SUCCESS :: int where "QDMA_SUCCESS \<equiv> 0"
abbreviation (input) QDMA_ERR_HWACC_FEATURE_NOT_SUPPORTED :: int where "QDMA_ERR_HWACC_FEATURE_NOT_SUPPORTED \<equiv> 7"
abbreviation (input) QDMA_ERR_MBOX_NUM_QUEUES :: int where "QDMA_ERR_MBOX_NUM_QUEUES \<equiv> 15"
abbreviation (input) QDMA_ERR_MBOX_INV_QID :: int where "QDMA_ERR_MBOX_INV_QID \<equiv> 16"
abbreviation (input) QDMA_ERR_MBOX_INV_RINGSZ :: int where "QDMA_ERR_MBOX_INV_RINGSZ \<equiv> 17"
abbreviation (input) QDMA_ERR_MBOX_INV_BUFSZ :: int where "QDMA_ERR_MBOX_INV_BUFSZ \<equiv> 18"
abbreviation (input) QDMA_ERR_MBOX_INV_CNTR_TH :: int where "QDMA_ERR_MBOX_INV_CNTR_TH \<equiv> 19"
abbreviation (input) QDMA_ERR_MBOX_INV_TMR_TH :: int where "QDMA_ERR_MBOX_INV_TMR_TH \<equiv> 20"
abbreviation (input) QDMA_ERR_MBOX_INV_MSG :: int where "QDMA_ERR_MBOX_INV_MSG \<equiv> 21"
abbreviation (input) QDMA_ERR_MBOX_SEND_BUSY :: int where "QDMA_ERR_MBOX_SEND_BUSY \<equiv> 22"
abbreviation (input) QDMA_ERR_MBOX_NO_MSG_IN :: int where "QDMA_ERR_MBOX_NO_MSG_IN \<equiv> 23"
abbreviation (input) QDMA_ERR_MBOX_REG_READ_FAILED :: int where "QDMA_ERR_MBOX_REG_READ_FAILED \<equiv> 24"
abbreviation (input) QDMA_ERR_MBOX_ALL_ZERO_MSG :: int where "QDMA_ERR_MBOX_ALL_ZERO_MSG \<equiv> 25"

text \<open>The errors of the resource manager as the C code returns them, negated.\<close>

fun rm_code :: "qdma_err \<Rightarrow> int" where
  "rm_code NO_MEM = 2"
| "rm_code RM_RES_EXISTS = 8"
| "rm_code RM_RES_NOT_EXISTS = 9"
| "rm_code RM_DEV_EXISTS = 10"
| "rm_code RM_DEV_NOT_EXISTS = 11"
| "rm_code RM_NO_QUEUES_LEFT = 12"
| "rm_code RM_QMAX_CONF_REJECTED = 13"

definition rm_rv :: "qdma_err option \<Rightarrow> int" where
  "rm_rv e = (case e of None \<Rightarrow> QDMA_SUCCESS | Some x \<Rightarrow> - rm_code x)"

section \<open>Contexts\<close>

text \<open>
  The fields of the contexts that the protocol sets. The other members of the C structures stay
  zero in a context that the PF writes (the structure is cleared before) and are left out of one
  that it reads. One-bit fields of the request are numbers here, as in C; \<open>hw_features\<close> holds the
  eight feature bits at the end of \<^verbatim>\<open>struct qdma_dev_attributes\<close>.
\<close>

record mbox_descq_conf =
  conf_ring_bs_addr :: u64
  conf_cmpt_ring_bs_addr :: u64
  conf_forced_en :: u8
  conf_en_bypass :: u8
  conf_irq_arm :: u8
  conf_wbi_intvl_en :: u8
  conf_wbi_chk :: u8
  conf_wbk_en :: u8
  conf_irq_en :: u8
  conf_pfch_en :: u8
  conf_en_bypass_prefetch :: u8
  conf_dis_overflow_check :: u8
  conf_cmpt_int_en :: u8
  conf_cmpl_stat_en :: u8
  conf_desc_sz :: u8
  conf_cmpt_desc_sz :: u8
  conf_triggermode :: u8
  conf_func_id :: u16
  conf_cnt_thres :: u8
  conf_timer_thres :: u8
  conf_intr_id :: u16
  conf_intr_aggr :: u8
  conf_ringsz :: u16
  conf_bufsz :: u16
  conf_cmpt_ringsz :: u16

record sw_ctxt =
  sw_ring_bs_addr :: u64
  sw_vec :: u16
  sw_irq_arm :: u8
  sw_fnc_id :: u8
  sw_qen :: u8
  sw_frcd_en :: u8
  sw_wbi_chk :: u8
  sw_wbi_intvl_en :: u8
  sw_rngsz_idx :: u8
  sw_desc_sz :: u8
  sw_bypass :: u8
  sw_mm_chn :: u8
  sw_wbk_en :: u8
  sw_irq_en :: u8
  sw_is_mm :: u8
  sw_intr_aggr :: u8

record hw_ctxt =
  hw_cidx :: u16
  hw_crd_use :: u16
  hw_dsc_pend :: u8
  hw_idl_stp_b :: u8
  hw_evt_pnd :: u8
  hw_fetch_pnd :: u8

record pfetch_ctxt =
  pf_bypass :: u8
  pf_bufsz_idx :: u8
  pf_pfch_en :: u8
  pf_valid :: u8

record cmpt_ctxt =
  cm_bs_addr :: u64
  cm_vec :: u16
  cm_en_stat_desc :: u8
  cm_en_int :: u8
  cm_trig_mode :: u8
  cm_fnc_id :: u8
  cm_counter_idx :: u8
  cm_timer_idx :: u8
  cm_color :: u8
  cm_ringsz_idx :: u8
  cm_desc_sz :: u8
  cm_valid :: u8
  cm_ovf_chk_dis :: u8
  cm_int_aggr :: u8

record descq_ctxt =
  dq_sw :: sw_ctxt
  dq_hw :: hw_ctxt
  dq_credit :: u32
  dq_pfetch :: pfetch_ctxt
  dq_cmpt :: cmpt_ctxt

record intr_ctxt =
  in_baddr_4k :: u64
  in_vec :: u16
  in_pidx :: u16
  in_valid :: u8
  in_int_st :: u8
  in_color :: u8
  in_page_size :: u8
  in_at :: u8
  in_host_id :: u8
  in_pasid :: u32
  in_pasid_en :: u8
  in_func_id :: u16

record csr_info =
  csr_ringsz :: "u16 list"
  csr_bufsz :: "u16 list"
  csr_timer_cnt :: "u8 list"
  csr_cnt_thres :: "u8 list"
  csr_wb_intvl :: u8

record dev_attributes =
  num_pfs :: u8
  num_qs :: u16
  flr_present :: bool
  st_en :: bool
  mm_en :: bool
  mm_cmpt_en :: bool
  mailbox_en :: bool
  debug_mode :: bool
  desc_eng_mode :: u8
  mm_channel_max :: u8
  hw_features :: u8

datatype cmpt_type = CMPT_CTXT_ONLY | CMPT_WITH_MM | CMPT_WITH_ST | CMPT_CTXT_NONE

section \<open>Messages\<close>

definition MBOX_OP_VF_BYE :: u8 where "MBOX_OP_VF_BYE = 0"
definition MBOX_OP_HELLO :: u8 where "MBOX_OP_HELLO = 1"
definition MBOX_OP_FMAP :: u8 where "MBOX_OP_FMAP = 2"
definition MBOX_OP_CSR :: u8 where "MBOX_OP_CSR = 3"
definition MBOX_OP_QREQ :: u8 where "MBOX_OP_QREQ = 4"
definition MBOX_OP_QNOTIFY_ADD :: u8 where "MBOX_OP_QNOTIFY_ADD = 5"
definition MBOX_OP_QNOTIFY_DEL :: u8 where "MBOX_OP_QNOTIFY_DEL = 6"
definition MBOX_OP_GET_QACTIVE_CNT :: u8 where "MBOX_OP_GET_QACTIVE_CNT = 7"
definition MBOX_OP_QCTXT_WRT :: u8 where "MBOX_OP_QCTXT_WRT = 8"
definition MBOX_OP_QCTXT_RD :: u8 where "MBOX_OP_QCTXT_RD = 9"
definition MBOX_OP_QCTXT_CLR :: u8 where "MBOX_OP_QCTXT_CLR = 10"
definition MBOX_OP_QCTXT_INV :: u8 where "MBOX_OP_QCTXT_INV = 11"
definition MBOX_OP_INTR_CTXT_WRT :: u8 where "MBOX_OP_INTR_CTXT_WRT = 12"
definition MBOX_OP_INTR_CTXT_RD :: u8 where "MBOX_OP_INTR_CTXT_RD = 13"
definition MBOX_OP_INTR_CTXT_CLR :: u8 where "MBOX_OP_INTR_CTXT_CLR = 14"
definition MBOX_OP_INTR_CTXT_INV :: u8 where "MBOX_OP_INTR_CTXT_INV = 15"
definition MBOX_OP_RESET_PREPARE :: u8 where "MBOX_OP_RESET_PREPARE = 16"
definition MBOX_OP_RESET_DONE :: u8 where "MBOX_OP_RESET_DONE = 17"
definition MBOX_OP_REG_LIST_READ :: u8 where "MBOX_OP_REG_LIST_READ = 18"
definition MBOX_OP_PF_BYE :: u8 where "MBOX_OP_PF_BYE = 19"
definition MBOX_OP_PF_RESET_VF_BYE :: u8 where "MBOX_OP_PF_RESET_VF_BYE = 20"
definition MBOX_OP_RESET_PREPARE_RESP :: u8 where "MBOX_OP_RESET_PREPARE_RESP = 0x90"
definition MBOX_OP_RESET_DONE_RESP :: u8 where "MBOX_OP_RESET_DONE_RESP = 0x91"
definition MBOX_OP_PF_BYE_RESP :: u8 where "MBOX_OP_PF_BYE_RESP = 0x93"

lemmas mbox_ops = MBOX_OP_VF_BYE_def MBOX_OP_HELLO_def MBOX_OP_FMAP_def MBOX_OP_CSR_def MBOX_OP_QREQ_def
  MBOX_OP_QNOTIFY_ADD_def MBOX_OP_QNOTIFY_DEL_def MBOX_OP_GET_QACTIVE_CNT_def MBOX_OP_QCTXT_WRT_def
  MBOX_OP_QCTXT_RD_def MBOX_OP_QCTXT_CLR_def MBOX_OP_QCTXT_INV_def MBOX_OP_INTR_CTXT_WRT_def
  MBOX_OP_INTR_CTXT_RD_def MBOX_OP_INTR_CTXT_CLR_def MBOX_OP_INTR_CTXT_INV_def MBOX_OP_RESET_PREPARE_def
  MBOX_OP_RESET_DONE_def MBOX_OP_REG_LIST_READ_def MBOX_OP_PF_BYE_def MBOX_OP_PF_RESET_VF_BYE_def
  MBOX_OP_RESET_PREPARE_RESP_def MBOX_OP_RESET_DONE_RESP_def MBOX_OP_PF_BYE_RESP_def

definition MBOX_MSG_OP_RSP_OFFSET :: u8 where "MBOX_MSG_OP_RSP_OFFSET = 0x80"

definition QDMA_MBOX_VF_ONLINE :: int where "QDMA_MBOX_VF_ONLINE = 1"
definition QDMA_MBOX_VF_OFFLINE :: int where "QDMA_MBOX_VF_OFFLINE = - 1"
definition QDMA_MBOX_VF_RESET :: int where "QDMA_MBOX_VF_RESET = 2"
definition QDMA_MBOX_PF_RESET_DONE :: int where "QDMA_MBOX_PF_RESET_DONE = 3"
definition QDMA_MBOX_PF_BYE :: int where "QDMA_MBOX_PF_BYE = 4"
definition QDMA_MBOX_VF_RESET_BYE :: int where "QDMA_MBOX_VF_RESET_BYE = 5"

text \<open>
  \<open>qbase\<close> and \<open>qmax\<close> sit at the same place in the hello and in the fmap view, so there is one
  pair of them. The interrupt rings are read by index without a check: \<open>ring_index\<close> and
  \<open>ictxt\<close> give what is found at any index.
\<close>

record mbox_txrx =
  m_op :: u8
  m_status :: u8
  m_src :: u16
  m_dst :: u16
  m_qbase :: u32
  m_qmax :: u32
  m_dev_cap :: dev_attributes
  m_dev_index :: u32
  m_qid :: u16
  m_q_type :: q_type
  m_h2c_queues :: u32
  m_c2h_queues :: u32
  m_cmpt_queues :: u32
  m_st :: bool
  m_c2h :: bool
  m_cmpt_type :: cmpt_type
  m_conf :: mbox_descq_conf
  m_ctxt :: descq_ctxt
  m_num_rings :: u8
  m_ring_index :: "nat \<Rightarrow> u32"
  m_ictxt :: "nat \<Rightarrow> intr_ctxt"
  m_csr :: csr_info
  m_group_num :: u16
  m_num_regs :: u16
  m_reg_list :: "(u32 \<times> u32) list"

section \<open>Hardware accesses\<close>

datatype hw_access = HW_READ | HW_WRITE | HW_CLEAR | HW_INVALIDATE

datatype csr_type = CSR_RING_SZ | CSR_TIMER_CNT | CSR_CNT_TH | CSR_BUF_SZ

datatype hw_op =
    SwCtx hw_access bool u16 "sw_ctxt option"
  | HwCtx hw_access bool u16
  | CreditCtx hw_access bool u16
  | PfetchCtx hw_access u16 "pfetch_ctxt option"
  | CmptCtx hw_access u16 "cmpt_ctxt option"
  | IntrCtx hw_access u32 "intr_ctxt option"
  | FmapWr u16 u16 u16
  | CsrRd csr_type
  | RegListRd u16

record mb_env =
  hw_rv :: "hw_op list \<Rightarrow> hw_op \<Rightarrow> int"
  csr_of :: "hw_op list \<Rightarrow> csr_type \<Rightarrow> nat \<Rightarrow> u32"
  sw_of :: "hw_op list \<Rightarrow> sw_ctxt"
  hw_of :: "hw_op list \<Rightarrow> hw_ctxt"
  credit_of :: "hw_op list \<Rightarrow> u32"
  pfetch_of :: "hw_op list \<Rightarrow> pfetch_ctxt"
  cmpt_of :: "hw_op list \<Rightarrow> cmpt_ctxt"
  intr_of :: "hw_op list \<Rightarrow> intr_ctxt"
  regs_of :: "hw_op list \<Rightarrow> u16 \<times> (u32 \<times> u32) list"
  attrs_of :: dev_attributes

record mb_state =
  rmgr :: rm_state
  hwt :: "hw_op list"

definition hw_do :: "mb_env \<Rightarrow> hw_op \<Rightarrow> mb_state \<Rightarrow> int \<times> mb_state" where
  "hw_do env oper s = (hw_rv env (hwt s) oper, s\<lparr>hwt := hwt s @ [oper]\<rparr>)"

text \<open>A sequence of calls, each followed by \<^verbatim>\<open>if (rv < 0) return rv\<close>.\<close>

fun hw_seq :: "mb_env \<Rightarrow> hw_op list \<Rightarrow> mb_state \<Rightarrow> int \<times> mb_state" where
  "hw_seq env [] s = (QDMA_SUCCESS, s)"
| "hw_seq env (oper # opers) s =
     (case hw_do env oper s of (rv, s1) \<Rightarrow> if rv < 0 then (rv, s1) else hw_seq env opers s1)"

section \<open>Looking up sizes\<close>

definition QDMA_GLOBAL_CSR_ARRAY_SZ :: nat where "QDMA_GLOBAL_CSR_ARRAY_SZ = 16"

definition get_idx :: "mb_env \<Rightarrow> csr_type \<Rightarrow> (u32 \<Rightarrow> bool) \<Rightarrow> int \<Rightarrow> mb_state \<Rightarrow> int \<times> nat \<times> mb_state" where
  "get_idx env ct P err s =
     (case hw_do env (CsrRd ct) s of (rv, s1) \<Rightarrow>
        if rv \<noteq> 0 then (rv, 0, s1)
        else (case find_index P (map (csr_of env (hwt s) ct) [0..<QDMA_GLOBAL_CSR_ARRAY_SZ]) of
                Some i \<Rightarrow> (QDMA_SUCCESS, i, s1) | None \<Rightarrow> (- err, 0, s1)))"

definition get_ring_idx :: "mb_env \<Rightarrow> u16 \<Rightarrow> mb_state \<Rightarrow> int \<times> nat \<times> mb_state" where
  "get_ring_idx env ring_sz = get_idx env CSR_RING_SZ (\<lambda>v. ucast ring_sz = v - 1) QDMA_ERR_MBOX_INV_RINGSZ"

definition get_buf_idx :: "mb_env \<Rightarrow> u16 \<Rightarrow> mb_state \<Rightarrow> int \<times> nat \<times> mb_state" where
  "get_buf_idx env buf_sz = get_idx env CSR_BUF_SZ (\<lambda>v. v = ucast buf_sz) QDMA_ERR_MBOX_INV_BUFSZ"

definition get_cntr_idx :: "mb_env \<Rightarrow> u8 \<Rightarrow> mb_state \<Rightarrow> int \<times> nat \<times> mb_state" where
  "get_cntr_idx env cntr_val = get_idx env CSR_CNT_TH (\<lambda>v. v = ucast cntr_val) QDMA_ERR_MBOX_INV_CNTR_TH"

definition get_tmr_idx :: "mb_env \<Rightarrow> u8 \<Rightarrow> mb_state \<Rightarrow> int \<times> nat \<times> mb_state" where
  "get_tmr_idx env tmr_val = get_idx env CSR_TIMER_CNT (\<lambda>v. v = ucast tmr_val) QDMA_ERR_MBOX_INV_TMR_TH"

section \<open>Composing contexts\<close>

definition sw_zero :: sw_ctxt where
  "sw_zero = \<lparr>sw_ring_bs_addr = 0, sw_vec = 0, sw_irq_arm = 0, sw_fnc_id = 0, sw_qen = 0, sw_frcd_en = 0,
     sw_wbi_chk = 0, sw_wbi_intvl_en = 0, sw_rngsz_idx = 0, sw_desc_sz = 0, sw_bypass = 0, sw_mm_chn = 0,
     sw_wbk_en = 0, sw_irq_en = 0, sw_is_mm = 0, sw_intr_aggr = 0\<rparr>"

definition pfetch_zero :: pfetch_ctxt where
  "pfetch_zero = \<lparr>pf_bypass = 0, pf_bufsz_idx = 0, pf_pfch_en = 0, pf_valid = 0\<rparr>"

definition cmpt_zero :: cmpt_ctxt where
  "cmpt_zero = \<lparr>cm_bs_addr = 0, cm_vec = 0, cm_en_stat_desc = 0, cm_en_int = 0, cm_trig_mode = 0,
     cm_fnc_id = 0, cm_counter_idx = 0, cm_timer_idx = 0, cm_color = 0, cm_ringsz_idx = 0, cm_desc_sz = 0,
     cm_valid = 0, cm_ovf_chk_dis = 0, cm_int_aggr = 0\<rparr>"

definition sw_of_conf :: "mbox_txrx \<Rightarrow> nat \<Rightarrow> sw_ctxt" where
  "sw_of_conf q rng =
     (let c = m_conf q; st_c2h = m_st q \<and> m_c2h q
      in \<lparr>sw_ring_bs_addr = conf_ring_bs_addr c, sw_vec = conf_intr_id c,
          sw_irq_arm = (if st_c2h then 0 else conf_irq_arm c), sw_fnc_id = ucast (conf_func_id c),
          sw_qen = 1, sw_frcd_en = conf_forced_en c,
          sw_wbi_chk = (if st_c2h then 0 else conf_wbi_chk c), sw_wbi_intvl_en = conf_wbi_intvl_en c,
          sw_rngsz_idx = of_nat rng, sw_desc_sz = conf_desc_sz c, sw_bypass = conf_en_bypass c,
          sw_mm_chn = 0, sw_wbk_en = (if st_c2h then 0 else conf_wbk_en c),
          sw_irq_en = (if st_c2h then 0 else conf_irq_en c), sw_is_mm = not (of_bool (m_st q)),
          sw_intr_aggr = conf_intr_aggr c\<rparr>)"

definition mbox_compose_sw_context :: "mb_env \<Rightarrow> mbox_txrx \<Rightarrow> mb_state \<Rightarrow> int \<times> sw_ctxt \<times> mb_state" where
  "mbox_compose_sw_context env q s =
     (case get_ring_idx env (conf_ringsz (m_conf q)) s of (rv, rng, s1) \<Rightarrow>
        if rv < 0 then (rv, sw_zero, s1) else (QDMA_SUCCESS, sw_of_conf q rng, s1))"

definition mbox_compose_prefetch_context ::
  "mb_env \<Rightarrow> mbox_txrx \<Rightarrow> mb_state \<Rightarrow> int \<times> pfetch_ctxt \<times> mb_state" where
  "mbox_compose_prefetch_context env q s =
     (case get_buf_idx env (conf_bufsz (m_conf q)) s of (rv, buf, s1) \<Rightarrow>
        if rv < 0 then (rv, pfetch_zero, s1)
        else (QDMA_SUCCESS,
              \<lparr>pf_bypass = conf_en_bypass_prefetch (m_conf q), pf_bufsz_idx = of_nat buf,
               pf_pfch_en = conf_pfch_en (m_conf q), pf_valid = 1\<rparr>, s1))"

definition cmpt_of_conf :: "mbox_txrx \<Rightarrow> nat \<Rightarrow> nat \<Rightarrow> nat \<Rightarrow> cmpt_ctxt" where
  "cmpt_of_conf q cntr tmr rng =
     (let c = m_conf q
      in \<lparr>cm_bs_addr = conf_cmpt_ring_bs_addr c, cm_vec = conf_intr_id c, cm_en_stat_desc = conf_cmpl_stat_en c,
          cm_en_int = conf_cmpt_int_en c, cm_trig_mode = conf_triggermode c, cm_fnc_id = ucast (conf_func_id c),
          cm_counter_idx = of_nat cntr, cm_timer_idx = of_nat tmr, cm_color = 1, cm_ringsz_idx = of_nat rng,
          cm_desc_sz = conf_cmpt_desc_sz c, cm_valid = 1, cm_ovf_chk_dis = conf_dis_overflow_check c,
          cm_int_aggr = conf_intr_aggr c\<rparr>)"

definition mbox_compose_cmpt_context ::
  "mb_env \<Rightarrow> mbox_txrx \<Rightarrow> mb_state \<Rightarrow> int \<times> cmpt_ctxt \<times> mb_state" where
  "mbox_compose_cmpt_context env q s =
     (case get_cntr_idx env (conf_cnt_thres (m_conf q)) s of (rv1, cntr, s1) \<Rightarrow>
        if rv1 < 0 then (rv1, cmpt_zero, s1)
        else (case get_tmr_idx env (conf_timer_thres (m_conf q)) s1 of (rv2, tmr, s2) \<Rightarrow>
          if rv2 < 0 then (rv2, cmpt_zero, s2)
          else (case get_ring_idx env (conf_cmpt_ringsz (m_conf q)) s2 of (rv3, rng, s3) \<Rightarrow>
            if rv3 < 0 then (rv3, cmpt_zero, s3) else (QDMA_SUCCESS, cmpt_of_conf q cntr tmr rng, s3))))"

section \<open>Queue contexts\<close>

abbreviation with_cmpt :: "cmpt_type \<Rightarrow> bool" where
  "with_cmpt ct \<equiv> ct = CMPT_WITH_MM \<or> ct = CMPT_WITH_ST"

text \<open>
  Clearing and invalidating walk over the same contexts. A queue that the function does not own
  ends the routine with the last \<^verbatim>\<open>rv\<close>, the success of \<^verbatim>\<open>qdma_dev_qinfo_get\<close>.
\<close>

definition queue_contexts :: "hw_access \<Rightarrow> u16 \<Rightarrow> bool \<Rightarrow> bool \<Rightarrow> cmpt_type \<Rightarrow> hw_op list" where
  "queue_contexts acc qid st c2h ct =
     [SwCtx acc c2h qid None, HwCtx acc c2h qid, CreditCtx acc c2h qid]
     @ (if st \<and> c2h then [PfetchCtx acc qid None] else [])
     @ (if with_cmpt ct then [CmptCtx acc qid None] else [])"

definition drop_queue_contexts ::
  "hw_access \<Rightarrow> mb_env \<Rightarrow> u8 \<Rightarrow> u16 \<Rightarrow> u16 \<Rightarrow> bool \<Rightarrow> bool \<Rightarrow> cmpt_type \<Rightarrow> mb_state \<Rightarrow> int \<times> mb_state" where
  "drop_queue_contexts acc env idx f qid st c2h ct s =
     (if ct = CMPT_CTXT_ONLY then hw_seq env [CmptCtx acc qid None] s
      else (case dev_qinfo_get (rmgr s) (ucast idx) f of
        Inl e \<Rightarrow> (rm_rv (Some e), s)
      | Inr _ \<Rightarrow>
          if dev_is_queue_in_range (rmgr s) (ucast idx) f (ucast qid) \<noteq> Q_IN_RANGE then (QDMA_SUCCESS, s)
          else hw_seq env (queue_contexts acc qid st c2h ct) s))"

definition mbox_clear_queue_contexts ::
  "mb_env \<Rightarrow> u8 \<Rightarrow> u16 \<Rightarrow> u16 \<Rightarrow> bool \<Rightarrow> bool \<Rightarrow> cmpt_type \<Rightarrow> mb_state \<Rightarrow> int \<times> mb_state" where
  "mbox_clear_queue_contexts = drop_queue_contexts HW_CLEAR"

definition mbox_invalidate_queue_contexts ::
  "mb_env \<Rightarrow> u8 \<Rightarrow> u16 \<Rightarrow> u16 \<Rightarrow> bool \<Rightarrow> bool \<Rightarrow> cmpt_type \<Rightarrow> mb_state \<Rightarrow> int \<times> mb_state" where
  "mbox_invalidate_queue_contexts = drop_queue_contexts HW_INVALIDATE"

definition compose_if :: "bool \<Rightarrow> (mb_state \<Rightarrow> int \<times> 'c \<times> mb_state) \<Rightarrow> 'c \<Rightarrow> mb_state \<Rightarrow> int \<times> 'c \<times> mb_state" where
  "compose_if b f z s = (if b then f s else (QDMA_SUCCESS, z, s))"

definition write_ops :: "mbox_txrx \<Rightarrow> sw_ctxt \<Rightarrow> pfetch_ctxt \<Rightarrow> cmpt_ctxt \<Rightarrow> hw_op list" where
  "write_ops q sw pf cm =
     [SwCtx HW_WRITE (m_c2h q) (m_qid q) (Some sw)]
     @ (if m_st q \<and> m_c2h q then [PfetchCtx HW_WRITE (m_qid q) (Some pf)] else [])
     @ (if with_cmpt (m_cmpt_type q) then [CmptCtx HW_WRITE (m_qid q) (Some cm)] else [])"

definition write_cmpt_only :: "mb_env \<Rightarrow> mbox_txrx \<Rightarrow> mb_state \<Rightarrow> int \<times> mb_state" where
  "write_cmpt_only env q s =
     (case mbox_compose_cmpt_context env q s of (rv, cm, s1) \<Rightarrow>
        if rv < 0 then (rv, s1)
        else hw_seq env [CmptCtx HW_CLEAR (m_qid q) None, CmptCtx HW_WRITE (m_qid q) (Some cm)] s1)"

definition write_queue :: "mb_env \<Rightarrow> u8 \<Rightarrow> mbox_txrx \<Rightarrow> mb_state \<Rightarrow> int \<times> mb_state" where
  "write_queue env idx q s =
     (case mbox_compose_sw_context env q s of (rv1, sw, s1) \<Rightarrow>
        if rv1 < 0 then (rv1, s1)
        else (case compose_if (m_st q \<and> m_c2h q) (mbox_compose_prefetch_context env q) pfetch_zero s1 of
                (rv2, pf, s2) \<Rightarrow>
          if rv2 < 0 then (rv2, s2)
          else (case compose_if (with_cmpt (m_cmpt_type q)) (mbox_compose_cmpt_context env q) cmpt_zero s2 of
                  (rv3, cm, s3) \<Rightarrow>
            if rv3 < 0 then (rv3, s3)
            else (case mbox_clear_queue_contexts env idx (conf_func_id (m_conf q)) (m_qid q) (m_st q)
                         (m_c2h q) (m_cmpt_type q) s3 of (rv4, s4) \<Rightarrow>
              if rv4 < 0 then (rv4, s4) else hw_seq env (write_ops q sw pf cm) s4))))"

definition mbox_write_queue_contexts :: "mb_env \<Rightarrow> u8 \<Rightarrow> mbox_txrx \<Rightarrow> mb_state \<Rightarrow> int \<times> mb_state" where
  "mbox_write_queue_contexts env idx q s =
     (case dev_qinfo_get (rmgr s) (ucast idx) (conf_func_id (m_conf q)) of
        Inl e \<Rightarrow> (rm_rv (Some e), s)
      | Inr _ \<Rightarrow>
          if dev_is_queue_in_range (rmgr s) (ucast idx) (conf_func_id (m_conf q)) (ucast (m_qid q)) \<noteq> Q_IN_RANGE
          then (QDMA_SUCCESS, s)
          else if m_cmpt_type q = CMPT_CTXT_ONLY then write_cmpt_only env q s
          else write_queue env idx q s)"

text \<open>Reads fill the context of the response one after the other, and stop at the first error.\<close>

fun rd_seq :: "mb_env \<Rightarrow> (hw_op \<times> (hw_op list \<Rightarrow> descq_ctxt \<Rightarrow> descq_ctxt)) list \<Rightarrow> descq_ctxt \<Rightarrow> mb_state \<Rightarrow>
    int \<times> descq_ctxt \<times> mb_state" where
  "rd_seq env [] c s = (QDMA_SUCCESS, c, s)"
| "rd_seq env ((oper, put) # os) c s =
     (case hw_do env oper s of (rv, s1) \<Rightarrow>
        if rv < 0 then (rv, put (hwt s) c, s1) else rd_seq env os (put (hwt s) c) s1)"

definition mbox_read_queue_contexts ::
  "mb_env \<Rightarrow> u16 \<Rightarrow> bool \<Rightarrow> bool \<Rightarrow> cmpt_type \<Rightarrow> descq_ctxt \<Rightarrow> mb_state \<Rightarrow> int \<times> descq_ctxt \<times> mb_state" where
  "mbox_read_queue_contexts env qid st c2h ct =
     rd_seq env
       ([(SwCtx HW_READ c2h qid None, \<lambda>t c. c\<lparr>dq_sw := sw_of env t\<rparr>),
         (HwCtx HW_READ c2h qid, \<lambda>t c. c\<lparr>dq_hw := hw_of env t\<rparr>),
         (CreditCtx HW_READ c2h qid, \<lambda>t c. c\<lparr>dq_credit := credit_of env t\<rparr>)]
        @ (if st \<and> c2h then [(PfetchCtx HW_READ qid None, \<lambda>t c. c\<lparr>dq_pfetch := pfetch_of env t\<rparr>)] else [])
        @ (if with_cmpt ct then [(CmptCtx HW_READ qid None, \<lambda>t c. c\<lparr>dq_cmpt := cmpt_of env t\<rparr>)] else []))"

section \<open>The handler of the physical function\<close>

text \<open>
  One definition per case of the switch: what becomes of \<^verbatim>\<open>rv\<close>, the response and the state.
  The handler also writes into the received message (the queue range of a hello, the function id
  of a queue configuration); the caller does not look at it again. \<open>idx\<close> is the DMA device index.
\<close>

definition pf_bye :: "mb_env \<Rightarrow> u8 \<Rightarrow> mbox_txrx \<Rightarrow> mbox_txrx \<Rightarrow> mb_state \<Rightarrow> int \<times> mbox_txrx \<times> mb_state" where
  "pf_bye env idx rcv resp s =
     (case hw_do env (FmapWr (m_src rcv) 0 0) s of (rv, s1) \<Rightarrow>
        (rv, resp, s1\<lparr>rmgr := dev_entry_destroy (rmgr s1) (ucast idx) (m_src rcv)\<rparr>))"

definition pf_hello :: "mb_env \<Rightarrow> u8 \<Rightarrow> mbox_txrx \<Rightarrow> mbox_txrx \<Rightarrow> mb_state \<Rightarrow> int \<times> mbox_txrx \<times> mb_state" where
  "pf_hello env idx rcv resp s =
     (let (rv, qb, qm, rm') =
            (case dev_qinfo_get (rmgr s) (ucast idx) (m_src rcv) of
               Inr (qb, qm) \<Rightarrow> (QDMA_SUCCESS, qb, qm, rmgr s)
             | Inl e \<Rightarrow>
                 (case dev_entry_create (rmgr s) (ucast idx) (m_src rcv) of
                    (rm1, err) \<Rightarrow> (rm_rv err, m_qbase rcv, m_qmax rcv, rm1)));
          resp1 = (if rv = 0
                   then resp\<lparr>m_qbase := qb, m_qmax := qm, m_dev_index := ucast idx, m_dev_cap := attrs_of env\<rparr>
                   else resp)
      in (case hw_do env (FmapWr (m_src rcv) 0 0) (s\<lparr>rmgr := rm'\<rparr>) of (_, s1) \<Rightarrow> (rv, resp1, s1)))"

definition pf_fmap :: "mb_env \<Rightarrow> mbox_txrx \<Rightarrow> mb_state \<Rightarrow> int \<times> mb_state" where
  "pf_fmap env rcv s = hw_do env (FmapWr (m_src rcv) (ucast (m_qbase rcv)) (ucast (m_qmax rcv))) s"

abbreviation feature_error :: "int \<Rightarrow> bool" where
  "feature_error rv \<equiv> rv < 0 \<and> rv \<noteq> - QDMA_ERR_HWACC_FEATURE_NOT_SUPPORTED"

text \<open>
  A block of registers that is read only under a condition: \<^verbatim>\<open>rv\<close> keeps its value and the
  array its zeros otherwise.
\<close>

definition csr_read :: "mb_env \<Rightarrow> bool \<Rightarrow> csr_type \<Rightarrow> int \<times> mb_state \<Rightarrow> (nat \<Rightarrow> u32) \<times> int \<times> mb_state" where
  "csr_read env b ct = (\<lambda>(rv, s).
     if b then (csr_of env (hwt s) ct, hw_do env (CsrRd ct) s) else (\<lambda>_. 0, rv, s))"

definition csr_row :: "(nat \<Rightarrow> u32) \<Rightarrow> 'w::len word list" where
  "csr_row a = map (\<lambda>i. ucast (a i)) [0..<QDMA_GLOBAL_CSR_ARRAY_SZ]"

definition csr_fill :: "int \<Rightarrow> (nat \<Rightarrow> u32) \<Rightarrow> (nat \<Rightarrow> u32) \<Rightarrow> (nat \<Rightarrow> u32) \<Rightarrow> (nat \<Rightarrow> u32) \<Rightarrow> csr_info \<Rightarrow> csr_info" where
  "csr_fill rv ringsz bufsz tmr cntr c =
     (let c1 = c\<lparr>csr_ringsz := csr_row ringsz\<rparr>
      in if rv = 0 then c1\<lparr>csr_bufsz := csr_row bufsz, csr_timer_cnt := csr_row tmr, csr_cnt_thres := csr_row cntr\<rparr>
         else c1)"

definition pf_csr :: "mb_env \<Rightarrow> mbox_txrx \<Rightarrow> mb_state \<Rightarrow> int \<times> mbox_txrx \<times> mb_state" where
  "pf_csr env resp s =
     (let st = st_en (attrs_of env); cmpt = mm_cmpt_en (attrs_of env)
      in case csr_read env True CSR_RING_SZ (QDMA_SUCCESS, s) of (ringsz, rv1, s1) \<Rightarrow>
        if rv1 < 0 then (rv1, resp, s1)
        else (case csr_read env st CSR_BUF_SZ (rv1, s1) of (bufsz, rv2, s2) \<Rightarrow>
          if st \<and> feature_error rv2 then (rv2, resp, s2)
          else (case csr_read env (st \<or> cmpt) CSR_TIMER_CNT (rv2, s2) of (tmr, rv3, s3) \<Rightarrow>
            if (st \<or> cmpt) \<and> feature_error rv3 then (rv3, resp, s3)
            else (case csr_read env (st \<or> cmpt) CSR_CNT_TH (rv3, s3) of (cntr, rv4, s4) \<Rightarrow>
              if (st \<or> cmpt) \<and> feature_error rv4 then (rv4, resp, s4)
              else (if rv4 = - QDMA_ERR_HWACC_FEATURE_NOT_SUPPORTED then QDMA_SUCCESS else rv4,
                    resp\<lparr>m_csr := csr_fill rv4 ringsz bufsz tmr cntr (m_csr resp)\<rparr>, s4)))))"

definition pf_qreq :: "mb_env \<Rightarrow> u8 \<Rightarrow> mbox_txrx \<Rightarrow> mbox_txrx \<Rightarrow> mb_state \<Rightarrow> int \<times> mbox_txrx \<times> mb_state" where
  "pf_qreq env idx rcv resp s =
     (case dev_update (rmgr s) (ucast idx) (m_src rcv) (m_qmax rcv) (m_qbase rcv) of (rm1, _, err) \<Rightarrow>
        (let s1 = s\<lparr>rmgr := rm1\<rparr>;
             res = (case err of Some e \<Rightarrow> Inl e | None \<Rightarrow> dev_qinfo_get rm1 (ucast idx) (m_src rcv))
         in (case res of
               Inl e \<Rightarrow> (- QDMA_ERR_MBOX_NUM_QUEUES, resp, s1)
             | Inr (qb, qm) \<Rightarrow>
                 (case hw_do env (FmapWr (m_src rcv) 0 0) s1 of (_, s2) \<Rightarrow>
                    (QDMA_SUCCESS, resp\<lparr>m_qbase := qb, m_qmax := qm\<rparr>, s2)))))"

definition pf_qnotify_add :: "u8 \<Rightarrow> mbox_txrx \<Rightarrow> mb_state \<Rightarrow> int \<times> mb_state" where
  "pf_qnotify_add idx rcv s =
     (if dev_is_queue_in_range (rmgr s) (ucast idx) (m_src rcv) (ucast (m_qid rcv)) \<noteq> Q_IN_RANGE
      then (- QDMA_ERR_MBOX_INV_QID, s)
      else (case dev_increment_active_queue (rmgr s) (ucast idx) (m_src rcv) (m_q_type rcv) of
              (rm1, err) \<Rightarrow> (rm_rv err, s\<lparr>rmgr := rm1\<rparr>)))"

definition pf_qnotify_del :: "u8 \<Rightarrow> mbox_txrx \<Rightarrow> mb_state \<Rightarrow> int \<times> mb_state" where
  "pf_qnotify_del idx rcv s =
     (if dev_is_queue_in_range (rmgr s) (ucast idx) (m_src rcv) (ucast (m_qid rcv)) \<noteq> Q_IN_RANGE
      then (- QDMA_ERR_MBOX_INV_QID, s)
      else (case dev_decrement_active_queue (rmgr s) (ucast idx) (m_src rcv) (m_q_type rcv) of
              (rm1, err) \<Rightarrow> (rm_rv err, s\<lparr>rmgr := rm1\<rparr>)))"

text \<open>The count comes back as a C \<^verbatim>\<open>int\<close>, an error as its negated code.\<close>

definition active_rv :: "rm_state \<Rightarrow> u8 \<Rightarrow> u16 \<Rightarrow> q_type \<Rightarrow> int" where
  "active_rv rm idx f t =
     (case get_device_active_queue_count rm (ucast idx) f t of
        Inl e \<Rightarrow> rm_rv (Some e) | Inr n \<Rightarrow> sint n)"

definition pf_get_qactive_cnt :: "u8 \<Rightarrow> mbox_txrx \<Rightarrow> mbox_txrx \<Rightarrow> mb_state \<Rightarrow> int \<times> mbox_txrx" where
  "pf_get_qactive_cnt idx rcv resp s =
     (let n = active_rv (rmgr s) idx (m_src rcv)
      in (n TYPE_CMPT,
          resp\<lparr>m_h2c_queues := word_of_int (n TYPE_H2C), m_c2h_queues := word_of_int (n TYPE_C2H),
               m_cmpt_queues := word_of_int (n TYPE_CMPT)\<rparr>))"

text \<open>
  The interrupt loops. An error of one ring is only put into the status of the response, which is
  overwritten after the switch, so what remains is the \<^verbatim>\<open>rv\<close> of the last call.
\<close>

fun intr_ops :: "mb_env \<Rightarrow> hw_op list \<Rightarrow> int \<Rightarrow> mb_state \<Rightarrow> int \<times> mb_state" where
  "intr_ops env [] rv s = (rv, s)"
| "intr_ops env (oper # os) rv s = (case hw_do env oper s of (rv1, s1) \<Rightarrow> intr_ops env os rv1 s1)"

definition pf_intr_wrt :: "mb_env \<Rightarrow> mbox_txrx \<Rightarrow> mb_state \<Rightarrow> int \<times> mb_state" where
  "pf_intr_wrt env rcv =
     intr_ops env
       (concat (map (\<lambda>i. [IntrCtx HW_CLEAR (m_ring_index rcv i) None,
                          IntrCtx HW_WRITE (m_ring_index rcv i) (Some (m_ictxt rcv i))])
                    [0..<unat (m_num_rings rcv)])) QDMA_SUCCESS"

definition pf_intr_drop :: "hw_access \<Rightarrow> mb_env \<Rightarrow> mbox_txrx \<Rightarrow> mb_state \<Rightarrow> int \<times> mb_state" where
  "pf_intr_drop acc env rcv =
     intr_ops env (map (\<lambda>i. IntrCtx acc (m_ring_index rcv i) None) [0..<unat (m_num_rings rcv)]) QDMA_SUCCESS"

fun pf_intr_rd :: "mb_env \<Rightarrow> mbox_txrx \<Rightarrow> nat list \<Rightarrow> int \<Rightarrow> mbox_txrx \<Rightarrow> mb_state \<Rightarrow> int \<times> mbox_txrx \<times> mb_state" where
  "pf_intr_rd env rcv [] rv resp s = (rv, resp, s)"
| "pf_intr_rd env rcv (i # is) rv resp s =
     (case hw_do env (IntrCtx HW_READ (m_ring_index rcv i) None) s of (rv1, s1) \<Rightarrow>
        pf_intr_rd env rcv is rv1 (resp\<lparr>m_ictxt := (m_ictxt resp)(i := intr_of env (hwt s))\<rparr>) s1)"

definition pf_qctxt_rd :: "mb_env \<Rightarrow> mbox_txrx \<Rightarrow> mbox_txrx \<Rightarrow> mb_state \<Rightarrow> int \<times> mbox_txrx \<times> mb_state" where
  "pf_qctxt_rd env rcv resp s =
     (case mbox_read_queue_contexts env (m_qid rcv) (m_st rcv) (m_c2h rcv) (m_cmpt_type rcv) (m_ctxt resp) s of
        (rv, c, s1) \<Rightarrow> (rv, resp\<lparr>m_ctxt := c\<rparr>, s1))"

definition pf_qctxt_wrt :: "mb_env \<Rightarrow> u8 \<Rightarrow> mbox_txrx \<Rightarrow> mb_state \<Rightarrow> int \<times> mb_state" where
  "pf_qctxt_wrt env idx rcv s =
     mbox_write_queue_contexts env idx (rcv\<lparr>m_conf := (m_conf rcv)\<lparr>conf_func_id := m_src rcv\<rparr>\<rparr>) s"

definition pf_reg_list_read :: "mb_env \<Rightarrow> mbox_txrx \<Rightarrow> mbox_txrx \<Rightarrow> mb_state \<Rightarrow> int \<times> mbox_txrx \<times> mb_state" where
  "pf_reg_list_read env rcv resp s =
     (case hw_do env (RegListRd (m_group_num rcv)) s of (rv, s1) \<Rightarrow>
        (let (n, regs) = regs_of env (hwt s); resp1 = resp\<lparr>m_num_regs := n, m_reg_list := regs\<rparr>
         in (if rv < 0 \<or> n = 0 then - QDMA_ERR_MBOX_REG_READ_FAILED else rv, resp1, s1)))"

text \<open>The end of the handler, after the label \<^verbatim>\<open>exit_func\<close>.\<close>

definition respond :: "u16 \<Rightarrow> int \<Rightarrow> mbox_txrx \<Rightarrow> int \<times> mbox_txrx \<times> mb_state \<Rightarrow> int \<times> mbox_txrx \<times> mb_state" where
  "respond f ret rcv = (\<lambda>(rv, resp, s).
     (ret, resp\<lparr>m_op := m_op rcv + MBOX_MSG_OP_RSP_OFFSET, m_dst := m_src rcv, m_src := f,
                m_status := word_of_int rv\<rparr>, s))"

definition keep_resp :: "mbox_txrx \<Rightarrow> int \<times> mb_state \<Rightarrow> int \<times> mbox_txrx \<times> mb_state" where
  "keep_resp resp = (\<lambda>(rv, s). (rv, resp, s))"

definition pf_request :: "mb_env \<Rightarrow> u8 \<Rightarrow> mbox_txrx \<Rightarrow> mbox_txrx \<Rightarrow> mb_state \<Rightarrow>
    (int \<times> mbox_txrx \<times> mb_state) option" where
  "pf_request env idx rcv resp s =
     (let oper = m_op rcv
      in if oper = MBOX_OP_VF_BYE \<or> oper = MBOX_OP_PF_RESET_VF_BYE then Some (pf_bye env idx rcv resp s)
         else if oper = MBOX_OP_HELLO then Some (pf_hello env idx rcv resp s)
         else if oper = MBOX_OP_FMAP then Some (keep_resp resp (pf_fmap env rcv s))
         else if oper = MBOX_OP_CSR then Some (pf_csr env resp s)
         else if oper = MBOX_OP_QREQ then Some (pf_qreq env idx rcv resp s)
         else if oper = MBOX_OP_QNOTIFY_ADD then Some (keep_resp resp (pf_qnotify_add idx rcv s))
         else if oper = MBOX_OP_QNOTIFY_DEL then Some (keep_resp resp (pf_qnotify_del idx rcv s))
         else if oper = MBOX_OP_GET_QACTIVE_CNT then
           Some (case pf_get_qactive_cnt idx rcv resp s of (rv, resp1) \<Rightarrow> (rv, resp1, s))
         else if oper = MBOX_OP_INTR_CTXT_WRT then Some (keep_resp resp (pf_intr_wrt env rcv s))
         else if oper = MBOX_OP_INTR_CTXT_RD then
           Some (pf_intr_rd env rcv [0..<unat (m_num_rings rcv)] QDMA_SUCCESS resp s)
         else if oper = MBOX_OP_INTR_CTXT_CLR then Some (keep_resp resp (pf_intr_drop HW_CLEAR env rcv s))
         else if oper = MBOX_OP_INTR_CTXT_INV then Some (keep_resp resp (pf_intr_drop HW_INVALIDATE env rcv s))
         else if oper = MBOX_OP_QCTXT_INV then
           Some (keep_resp resp (mbox_invalidate_queue_contexts env idx (m_src rcv) (m_qid rcv) (m_st rcv)
                                   (m_c2h rcv) (m_cmpt_type rcv) s))
         else if oper = MBOX_OP_QCTXT_CLR then
           Some (keep_resp resp (mbox_clear_queue_contexts env idx (m_src rcv) (m_qid rcv) (m_st rcv)
                                   (m_c2h rcv) (m_cmpt_type rcv) s))
         else if oper = MBOX_OP_QCTXT_RD then Some (pf_qctxt_rd env rcv resp s)
         else if oper = MBOX_OP_QCTXT_WRT then Some (keep_resp resp (pf_qctxt_wrt env idx rcv s))
         else if oper = MBOX_OP_REG_LIST_READ then Some (pf_reg_list_read env rcv resp s)
         else None)"

definition pf_ret :: "u8 \<Rightarrow> int" where
  "pf_ret oper = (if oper = MBOX_OP_VF_BYE then QDMA_MBOX_VF_OFFLINE
     else if oper = MBOX_OP_PF_RESET_VF_BYE then QDMA_MBOX_VF_RESET_BYE
     else if oper = MBOX_OP_HELLO then QDMA_MBOX_VF_ONLINE else 0)"

text \<open>\<^verbatim>\<open>qdma_mbox_pf_rcv_msg_handler\<close>: a failing FMAP and the last three cases return at once.\<close>

definition qdma_mbox_pf_rcv_msg_handler :: "mb_env \<Rightarrow> u8 \<Rightarrow> u16 \<Rightarrow> mbox_txrx \<Rightarrow> mbox_txrx \<Rightarrow> mb_state \<Rightarrow>
    int \<times> mbox_txrx \<times> mb_state" where
  "qdma_mbox_pf_rcv_msg_handler env idx f rcv resp s =
     (let oper = m_op rcv
      in case pf_request env idx rcv resp s of
           Some (rv, resp1, s1) \<Rightarrow>
             if oper = MBOX_OP_FMAP \<and> rv < 0 then (rv, resp, s1)
             else respond f (pf_ret oper) rcv (rv, resp1, s1)
         | None \<Rightarrow>
             if oper = MBOX_OP_RESET_PREPARE_RESP then (QDMA_MBOX_VF_RESET, resp, s)
             else if oper = MBOX_OP_RESET_DONE_RESP then (QDMA_MBOX_PF_RESET_DONE, resp, s)
             else if oper = MBOX_OP_PF_BYE_RESP then (QDMA_MBOX_PF_BYE, resp, s)
             else (- QDMA_ERR_MBOX_INV_MSG, resp, s))"

end
