(* ===== verification/Mbox_Link.thy ===== *)
theory Mbox_Link
  imports Qdma_Mbox
begin

text \<open>
  The rest of \<^verbatim>\<open>qdma_mbox_protocol.c\<close>: the messages that a function composes, what a VF reads out
  of a response, the handler of the VF, and the registers that carry a message. A routine that
  checks its buffer for NULL is modelled for a buffer. Registers are the parameter \<open>mb_dev\<close>: what
  a read answers given the accesses before it; the state is the list of accesses.
\<close>

section \<open>Composing requests\<close>

definition conf_zero :: mbox_descq_conf where
  "conf_zero = \<lparr>conf_ring_bs_addr = 0, conf_cmpt_ring_bs_addr = 0, conf_forced_en = 0, conf_en_bypass = 0,
     conf_irq_arm = 0, conf_wbi_intvl_en = 0, conf_wbi_chk = 0, conf_wbk_en = 0, conf_irq_en = 0,
     conf_pfch_en = 0, conf_en_bypass_prefetch = 0, conf_dis_overflow_check = 0, conf_cmpt_int_en = 0,
     conf_cmpl_stat_en = 0, conf_desc_sz = 0, conf_cmpt_desc_sz = 0, conf_triggermode = 0,
     conf_func_id = 0, conf_cnt_thres = 0, conf_timer_thres = 0, conf_intr_id = 0, conf_intr_aggr = 0,
     conf_ringsz = 0, conf_bufsz = 0, conf_cmpt_ringsz = 0\<rparr>"

definition hw_zero :: hw_ctxt where
  "hw_zero = \<lparr>hw_cidx = 0, hw_crd_use = 0, hw_dsc_pend = 0, hw_idl_stp_b = 0, hw_evt_pnd = 0, hw_fetch_pnd = 0\<rparr>"

definition descq_zero :: descq_ctxt where
  "descq_zero = \<lparr>dq_sw = sw_zero, dq_hw = hw_zero, dq_credit = 0, dq_pfetch = pfetch_zero, dq_cmpt = cmpt_zero\<rparr>"

definition intr_zero :: intr_ctxt where
  "intr_zero = \<lparr>in_baddr_4k = 0, in_vec = 0, in_pidx = 0, in_valid = 0, in_int_st = 0, in_color = 0,
     in_page_size = 0, in_at = 0, in_host_id = 0, in_pasid = 0, in_pasid_en = 0, in_func_id = 0\<rparr>"

definition attrs_zero :: dev_attributes where
  "attrs_zero = \<lparr>num_pfs = 0, num_qs = 0, flr_present = False, st_en = False, mm_en = False,
     mm_cmpt_en = False, mailbox_en = False, debug_mode = False, desc_eng_mode = 0, mm_channel_max = 0,
     hw_features = 0\<rparr>"

definition csr_zero :: csr_info where
  "csr_zero = \<lparr>csr_ringsz = replicate 16 0, csr_bufsz = replicate 16 0, csr_timer_cnt = replicate 16 0,
     csr_cnt_thres = replicate 16 0, csr_wb_intvl = 0\<rparr>"

text \<open>The message after \<^verbatim>\<open>qdma_mbox_memset(raw_data, 0, sizeof(union qdma_mbox_txrx))\<close>.\<close>

definition msg_zero :: mbox_txrx where
  "msg_zero = \<lparr>m_op = 0, m_status = 0, m_src = 0, m_dst = 0, m_qbase = 0, m_qmax = 0, m_dev_cap = attrs_zero,
     m_dev_index = 0, m_qid = 0, m_q_type = TYPE_H2C, m_h2c_queues = 0, m_c2h_queues = 0, m_cmpt_queues = 0,
     m_st = False, m_c2h = False, m_cmpt_type = CMPT_CTXT_ONLY, m_conf = conf_zero, m_ctxt = descq_zero,
     m_num_rings = 0, m_ring_index = (\<lambda>_. 0), m_ictxt = (\<lambda>_. intr_zero), m_csr = csr_zero,
     m_group_num = 0, m_num_regs = 0, m_reg_list = replicate 14 (0, 0)\<rparr>"

definition request :: "u8 \<Rightarrow> u16 \<Rightarrow> mbox_txrx" where
  "request oper f = msg_zero\<lparr>m_op := oper, m_src := f\<rparr>"

definition compose_vf_online :: "u16 \<Rightarrow> u16 \<Rightarrow> u32 \<Rightarrow> mbox_txrx" where
  "compose_vf_online f qmax qb = (request MBOX_OP_HELLO f)\<lparr>m_qbase := qb, m_qmax := ucast qmax\<rparr>"

definition compose_vf_offline :: "u16 \<Rightarrow> mbox_txrx" where
  "compose_vf_offline f = request MBOX_OP_VF_BYE f"

definition compose_vf_reset_offline :: "u16 \<Rightarrow> mbox_txrx" where
  "compose_vf_reset_offline f = request MBOX_OP_PF_RESET_VF_BYE f"

definition compose_vf_qreq :: "u16 \<Rightarrow> u16 \<Rightarrow> u32 \<Rightarrow> mbox_txrx" where
  "compose_vf_qreq f qmax qb = (request MBOX_OP_QREQ f)\<lparr>m_qbase := qb, m_qmax := ucast qmax\<rparr>"

definition compose_vf_notify_qadd :: "u16 \<Rightarrow> u16 \<Rightarrow> q_type \<Rightarrow> mbox_txrx" where
  "compose_vf_notify_qadd f qid t = (request MBOX_OP_QNOTIFY_ADD f)\<lparr>m_qid := qid, m_q_type := t\<rparr>"

definition compose_vf_get_device_active_qcnt :: "u16 \<Rightarrow> mbox_txrx" where
  "compose_vf_get_device_active_qcnt f = request MBOX_OP_GET_QACTIVE_CNT f"

definition compose_vf_notify_qdel :: "u16 \<Rightarrow> u16 \<Rightarrow> q_type \<Rightarrow> mbox_txrx" where
  "compose_vf_notify_qdel f qid t = (request MBOX_OP_QNOTIFY_DEL f)\<lparr>m_qid := qid, m_q_type := t\<rparr>"

definition compose_vf_fmap_prog :: "u16 \<Rightarrow> u16 \<Rightarrow> u32 \<Rightarrow> mbox_txrx" where
  "compose_vf_fmap_prog f qmax qb = (request MBOX_OP_FMAP f)\<lparr>m_qbase := qb, m_qmax := ucast qmax\<rparr>"

definition qctxt_request :: "u8 \<Rightarrow> u16 \<Rightarrow> u16 \<Rightarrow> bool \<Rightarrow> bool \<Rightarrow> cmpt_type \<Rightarrow> mbox_txrx" where
  "qctxt_request oper f qid st c2h ct =
     (request oper f)\<lparr>m_qid := qid, m_c2h := c2h, m_st := st, m_cmpt_type := ct\<rparr>"

definition compose_vf_qctxt_write :: "u16 \<Rightarrow> u16 \<Rightarrow> bool \<Rightarrow> bool \<Rightarrow> cmpt_type \<Rightarrow> mbox_descq_conf \<Rightarrow> mbox_txrx" where
  "compose_vf_qctxt_write f qid st c2h ct conf =
     (qctxt_request MBOX_OP_QCTXT_WRT f qid st c2h ct)\<lparr>m_conf := conf\<rparr>"

definition compose_vf_qctxt_read :: "u16 \<Rightarrow> u16 \<Rightarrow> bool \<Rightarrow> bool \<Rightarrow> cmpt_type \<Rightarrow> mbox_txrx" where
  "compose_vf_qctxt_read = qctxt_request MBOX_OP_QCTXT_RD"

definition compose_vf_qctxt_invalidate :: "u16 \<Rightarrow> u16 \<Rightarrow> bool \<Rightarrow> bool \<Rightarrow> cmpt_type \<Rightarrow> mbox_txrx" where
  "compose_vf_qctxt_invalidate = qctxt_request MBOX_OP_QCTXT_INV"

definition compose_vf_qctxt_clear :: "u16 \<Rightarrow> u16 \<Rightarrow> bool \<Rightarrow> bool \<Rightarrow> cmpt_type \<Rightarrow> mbox_txrx" where
  "compose_vf_qctxt_clear = qctxt_request MBOX_OP_QCTXT_CLR"

definition compose_csr_read :: "u16 \<Rightarrow> mbox_txrx" where
  "compose_csr_read f = request MBOX_OP_CSR f"

definition compose_reg_read :: "u16 \<Rightarrow> u16 \<Rightarrow> mbox_txrx" where
  "compose_reg_read f group_num = (request MBOX_OP_REG_LIST_READ f)\<lparr>m_group_num := group_num\<rparr>"

record intr_list =
  il_num_rings :: u8
  il_ring_index :: "nat \<Rightarrow> u32"
  il_ictxt :: "nat \<Rightarrow> intr_ctxt"

definition intr_request :: "u8 \<Rightarrow> u16 \<Rightarrow> intr_list \<Rightarrow> mbox_txrx" where
  "intr_request oper f l = (request oper f)\<lparr>m_num_rings := il_num_rings l, m_ring_index := il_ring_index l,
     m_ictxt := il_ictxt l\<rparr>"

definition compose_vf_intr_ctxt_write :: "u16 \<Rightarrow> intr_list \<Rightarrow> mbox_txrx" where
  "compose_vf_intr_ctxt_write = intr_request MBOX_OP_INTR_CTXT_WRT"

definition compose_vf_intr_ctxt_read :: "u16 \<Rightarrow> intr_list \<Rightarrow> mbox_txrx" where
  "compose_vf_intr_ctxt_read = intr_request MBOX_OP_INTR_CTXT_RD"

definition compose_vf_intr_ctxt_clear :: "u16 \<Rightarrow> intr_list \<Rightarrow> mbox_txrx" where
  "compose_vf_intr_ctxt_clear = intr_request MBOX_OP_INTR_CTXT_CLR"

definition compose_vf_intr_ctxt_invalidate :: "u16 \<Rightarrow> intr_list \<Rightarrow> mbox_txrx" where
  "compose_vf_intr_ctxt_invalidate = intr_request MBOX_OP_INTR_CTXT_INV"

text \<open>The messages of the PF name source and target by 8-bit numbers.\<close>

definition compose_vf_reset_message :: "u8 \<Rightarrow> u8 \<Rightarrow> mbox_txrx" where
  "compose_vf_reset_message src dst = (request MBOX_OP_RESET_PREPARE (ucast src))\<lparr>m_dst := ucast dst\<rparr>"

definition compose_pf_reset_done_message :: "u8 \<Rightarrow> u8 \<Rightarrow> mbox_txrx" where
  "compose_pf_reset_done_message src dst = (request MBOX_OP_RESET_DONE (ucast src))\<lparr>m_dst := ucast dst\<rparr>"

definition compose_pf_offline :: "u8 \<Rightarrow> u8 \<Rightarrow> mbox_txrx" where
  "compose_pf_offline src dst = (request MBOX_OP_PF_BYE (ucast src))\<lparr>m_dst := ucast dst\<rparr>"

section \<open>Reading responses\<close>

text \<open>The sum is a C \<^verbatim>\<open>int\<close>, it does not wrap.\<close>

definition is_msg_response :: "mbox_txrx \<Rightarrow> mbox_txrx \<Rightarrow> bool" where
  "is_msg_response tx rx \<longleftrightarrow> unat (m_op tx) + unat MBOX_MSG_OP_RSP_OFFSET = unat (m_op rx)"

definition vf_response_status :: "mbox_txrx \<Rightarrow> int" where
  "vf_response_status msg = sint (m_status msg)"

definition vf_func_id_get :: "mbox_txrx \<Rightarrow> bool \<Rightarrow> u8" where
  "vf_func_id_get msg is_vf = ucast (if is_vf then m_dst msg else m_src msg)"

definition vf_active_queues_get :: "mbox_txrx \<Rightarrow> q_type \<Rightarrow> int" where
  "vf_active_queues_get msg t =
     (case t of TYPE_H2C \<Rightarrow> sint (m_h2c_queues msg) | TYPE_C2H \<Rightarrow> sint (m_c2h_queues msg)
      | TYPE_CMPT \<Rightarrow> sint (m_cmpt_queues msg) | TYPE_MAX \<Rightarrow> 0)"

definition vf_parent_func_id_get :: "mbox_txrx \<Rightarrow> u8" where
  "vf_parent_func_id_get msg = ucast (m_src msg)"

definition vf_dev_info_get :: "mbox_txrx \<Rightarrow> int \<times> dev_attributes \<times> u32" where
  "vf_dev_info_get msg = (sint (m_status msg), m_dev_cap msg, m_dev_index msg)"

definition vf_qinfo_get :: "mbox_txrx \<Rightarrow> int \<times> u32 \<times> u16" where
  "vf_qinfo_get msg = (sint (m_status msg), m_qbase msg, ucast (m_qmax msg))"

definition vf_csr_get :: "mbox_txrx \<Rightarrow> int \<times> csr_info" where
  "vf_csr_get msg = (sint (m_status msg), m_csr msg)"

text \<open>
  The number of bytes to copy, 8 for each register, goes through an 8-bit parameter: at most 31
  registers arrive, the rest of \<open>dest\<close> stays.
\<close>

definition vf_reg_list_get :: "mbox_txrx \<Rightarrow> (u32 \<times> u32) list \<Rightarrow> int \<times> u16 \<times> (u32 \<times> u32) list" where
  "vf_reg_list_get msg dest =
     (let k = unat (m_num_regs msg) * 8 mod 256 div 8
      in (sint (m_status msg), m_num_regs msg, take k (m_reg_list msg) @ drop k dest))"

definition vf_context_get :: "mbox_txrx \<Rightarrow> int \<times> descq_ctxt" where
  "vf_context_get msg = (sint (m_status msg), m_ctxt msg)"

definition vf_intr_context_get :: "mbox_txrx \<Rightarrow> int \<times> intr_list" where
  "vf_intr_context_get msg =
     (sint (m_status msg), \<lparr>il_num_rings = m_num_rings msg, il_ring_index = m_ring_index msg, il_ictxt = m_ictxt msg\<rparr>)"

section \<open>The handler of a virtual function\<close>

definition vf_respond :: "mbox_txrx \<Rightarrow> mbox_txrx \<Rightarrow> mbox_txrx" where
  "vf_respond rcv resp = resp\<lparr>m_op := m_op rcv + MBOX_MSG_OP_RSP_OFFSET, m_dst := m_src rcv, m_src := m_dst rcv\<rparr>"

definition qdma_mbox_vf_rcv_msg_handler :: "mbox_txrx \<Rightarrow> mbox_txrx \<Rightarrow> int \<times> mbox_txrx" where
  "qdma_mbox_vf_rcv_msg_handler rcv resp =
     (if m_op rcv = MBOX_OP_RESET_PREPARE then (QDMA_MBOX_VF_RESET, vf_respond rcv resp)
      else if m_op rcv = MBOX_OP_RESET_DONE then (QDMA_MBOX_PF_RESET_DONE, vf_respond rcv resp)
      else if m_op rcv = MBOX_OP_PF_BYE then (QDMA_MBOX_PF_BYE, vf_respond rcv resp)
      else (0, resp))"

section \<open>The registers of the mailbox\<close>

definition MBOX_FN_STATUS :: u32 where "MBOX_FN_STATUS = 0"
definition MBOX_FN_CMD :: u32 where "MBOX_FN_CMD = 4"
definition MBOX_ISR_VEC :: u32 where "MBOX_ISR_VEC = 8"
definition MBOX_FN_TARGET :: u32 where "MBOX_FN_TARGET = 12"
definition MBOX_ISR_EN :: u32 where "MBOX_ISR_EN = 0x10"
definition MBOX_PF_ACK_BASE :: u32 where "MBOX_PF_ACK_BASE = 0x20"
definition MBOX_PF_ACK_STEP :: u32 where "MBOX_PF_ACK_STEP = 4"
definition MBOX_PF_ACK_COUNT :: nat where "MBOX_PF_ACK_COUNT = 8"
definition MBOX_IN_MSG_BASE :: u32 where "MBOX_IN_MSG_BASE = 0x800"
definition MBOX_OUT_MSG_BASE :: u32 where "MBOX_OUT_MSG_BASE = 0xc00"
definition MBOX_MSG_STEP :: u32 where "MBOX_MSG_STEP = 4"
definition MBOX_MSG_REG_MAX :: nat where "MBOX_MSG_REG_MAX = 32"

definition status_in :: "u32 \<Rightarrow> bool" where "status_in v \<longleftrightarrow> bit v 0"
definition status_out :: "u32 \<Rightarrow> bool" where "status_out v \<longleftrightarrow> bit v 1"
definition status_ack :: "u32 \<Rightarrow> bool" where "status_ack v \<longleftrightarrow> bit v 2"
definition G_MBOX_FN_STATUS_SRC :: "u32 \<Rightarrow> u32" where
  "G_MBOX_FN_STATUS_SRC v = and (drop_bit 4 v) 0xFFF"
definition V_MBOX_FN_TARGET_ID :: "u32 \<Rightarrow> u32" where "V_MBOX_FN_TARGET_ID v = and v 0xFFF"

definition F_MBOX_FN_CMD_SND :: u32 where "F_MBOX_FN_CMD_SND = 1"
definition F_MBOX_FN_CMD_RCV :: u32 where "F_MBOX_FN_CMD_RCV = 2"

datatype reg_ev = RegRd u32 | RegWr u32 u32

record mb_dev =
  mbox_base_pf :: u32
  mbox_base_vf :: u32
  reg_val :: "reg_ev list \<Rightarrow> u32 \<Rightarrow> u32"

definition get_mbox_offset :: "mb_dev \<Rightarrow> bool \<Rightarrow> u32" where
  "get_mbox_offset d is_vf = (if is_vf then mbox_base_vf d else mbox_base_pf d)"

definition qdma_reg_read :: "mb_dev \<Rightarrow> u32 \<Rightarrow> reg_ev list \<Rightarrow> u32 \<times> reg_ev list" where
  "qdma_reg_read d reg t = (reg_val d t reg, t @ [RegRd reg])"

definition qdma_reg_write :: "u32 \<Rightarrow> u32 \<Rightarrow> reg_ev list \<Rightarrow> reg_ev list" where
  "qdma_reg_write reg v t = t @ [RegWr reg v]"

text \<open>
  The views of the header in the first two words, which is the layout of \<^verbatim>\<open>struct mbox_msg_hdr\<close> on
  a little-endian host.
\<close>

definition raw_op :: "u32 list \<Rightarrow> u8" where "raw_op raw = ucast (raw ! 0)"
definition raw_src :: "u32 list \<Rightarrow> u16" where "raw_src raw = ucast (drop_bit 16 (raw ! 0))"
definition raw_dst :: "u32 list \<Rightarrow> u16" where "raw_dst raw = ucast (raw ! 1)"

definition set_raw_src :: "u16 \<Rightarrow> u32 list \<Rightarrow> u32 list" where
  "set_raw_src f raw = raw[0 := or (and (raw ! 0) 0xFFFF) (push_bit 16 (ucast f))]"

definition mbox_pf_hw_clear_func_ack :: "mb_dev \<Rightarrow> u16 \<Rightarrow> reg_ev list \<Rightarrow> reg_ev list" where
  "mbox_pf_hw_clear_func_ack d f =
     qdma_reg_write (get_mbox_offset d False + MBOX_PF_ACK_BASE + of_nat (unat f div 32) * MBOX_PF_ACK_STEP)
       (push_bit (unat f mod 32) 1)"

fun clear_acks :: "mb_dev \<Rightarrow> u32 \<Rightarrow> nat \<Rightarrow> reg_ev list \<Rightarrow> reg_ev list" where
  "clear_acks d reg 0 t = t"
| "clear_acks d reg (Suc n) t =
     (case qdma_reg_read d reg t of (v, t1) \<Rightarrow>
        clear_acks d (reg + MBOX_PF_ACK_STEP) n (if v = 0 then t1 else qdma_reg_write reg v t1))"

definition qdma_mbox_pf_hw_clear_ack :: "mb_dev \<Rightarrow> reg_ev list \<Rightarrow> reg_ev list" where
  "qdma_mbox_pf_hw_clear_ack d t =
     (let base = get_mbox_offset d False
      in case qdma_reg_read d (base + MBOX_FN_STATUS) t of (v, t1) \<Rightarrow>
           if \<not> status_ack v then t1 else clear_acks d (base + MBOX_PF_ACK_BASE) MBOX_PF_ACK_COUNT t1)"

fun write_words :: "u32 \<Rightarrow> u32 list \<Rightarrow> reg_ev list \<Rightarrow> reg_ev list" where
  "write_words reg [] t = t"
| "write_words reg (w # ws) t = write_words (reg + MBOX_MSG_STEP) ws (qdma_reg_write reg w t)"

fun read_words :: "mb_dev \<Rightarrow> u32 \<Rightarrow> nat \<Rightarrow> reg_ev list \<Rightarrow> u32 list \<times> reg_ev list" where
  "read_words d reg 0 t = ([], t)"
| "read_words d reg (Suc n) t =
     (case qdma_reg_read d reg t of (w, t1) \<Rightarrow>
        (case read_words d (reg + MBOX_MSG_STEP) n t1 of (ws, t2) \<Rightarrow> (w # ws, t2)))"

definition qdma_mbox_send :: "mb_dev \<Rightarrow> bool \<Rightarrow> u32 list \<Rightarrow> reg_ev list \<Rightarrow> int \<times> reg_ev list" where
  "qdma_mbox_send d is_vf raw t =
     (let base = get_mbox_offset d is_vf; dst = raw_dst raw
      in case qdma_reg_read d (base + MBOX_FN_STATUS) t of (v, t1) \<Rightarrow>
           if status_out v then (- QDMA_ERR_MBOX_SEND_BUSY, t1)
           else (let t2 = (if is_vf then t1
                           else qdma_reg_write (base + MBOX_FN_TARGET) (V_MBOX_FN_TARGET_ID (ucast dst)) t1);
                     t3 = write_words (base + MBOX_OUT_MSG_BASE) (take MBOX_MSG_REG_MAX raw) t2;
                     t4 = (if is_vf then t3 else mbox_pf_hw_clear_func_ack d dst t3)
                 in (QDMA_SUCCESS, qdma_reg_write (base + MBOX_FN_CMD) F_MBOX_FN_CMD_SND t4)))"

definition qdma_mbox_rcv :: "mb_dev \<Rightarrow> bool \<Rightarrow> u32 list \<Rightarrow> reg_ev list \<Rightarrow> int \<times> u32 list \<times> reg_ev list" where
  "qdma_mbox_rcv d is_vf raw t =
     (let base = get_mbox_offset d is_vf
      in case qdma_reg_read d (base + MBOX_FN_STATUS) t of (v, t1) \<Rightarrow>
           if \<not> status_in v then (- QDMA_ERR_MBOX_NO_MSG_IN, raw, t1)
           else (let from_id = G_MBOX_FN_STATUS_SRC v;
                     t2 = (if is_vf then t1 else qdma_reg_write (base + MBOX_FN_TARGET) from_id t1)
                 in case read_words d (base + MBOX_IN_MSG_BASE) MBOX_MSG_REG_MAX t2 of (ws, t3) \<Rightarrow>
                      (let t4 = qdma_reg_write (base + MBOX_FN_CMD) F_MBOX_FN_CMD_RCV t3
                       in if \<forall>w \<in> set ws. w = 0 then (- QDMA_ERR_MBOX_ALL_ZERO_MSG, ws, t4)
                          else (QDMA_SUCCESS,
                                if \<not> is_vf \<and> from_id \<noteq> ucast (raw_src ws) then set_raw_src (ucast from_id) ws
                                else ws, t4))))"

definition qdma_mbox_hw_init :: "mb_dev \<Rightarrow> bool \<Rightarrow> reg_ev list \<Rightarrow> reg_ev list" where
  "qdma_mbox_hw_init d is_vf t =
     (let base = get_mbox_offset d is_vf
      in if is_vf then
           (case qdma_reg_read d (base + MBOX_FN_STATUS) t of (v, t1) \<Rightarrow>
              if status_in v then qdma_reg_write (base + MBOX_FN_CMD) F_MBOX_FN_CMD_RCV t1 else t1)
         else qdma_mbox_pf_hw_clear_ack d t)"

definition qdma_mbox_enable_interrupts :: "mb_dev \<Rightarrow> bool \<Rightarrow> reg_ev list \<Rightarrow> reg_ev list" where
  "qdma_mbox_enable_interrupts d is_vf t =
     (let base = get_mbox_offset d is_vf
      in qdma_reg_write (base + MBOX_ISR_EN) 1 (qdma_reg_write (base + MBOX_ISR_VEC) 0 t))"

definition qdma_mbox_disable_interrupts :: "mb_dev \<Rightarrow> bool \<Rightarrow> reg_ev list \<Rightarrow> reg_ev list" where
  "qdma_mbox_disable_interrupts d is_vf = qdma_reg_write (get_mbox_offset d is_vf + MBOX_ISR_EN) 0"

definition qdma_mbox_out_status :: "mb_dev \<Rightarrow> bool \<Rightarrow> reg_ev list \<Rightarrow> bool \<times> reg_ev list" where
  "qdma_mbox_out_status d is_vf t =
     (case qdma_reg_read d (get_mbox_offset d is_vf + MBOX_FN_STATUS) t of (v, t1) \<Rightarrow> (status_out v, t1))"

end
