(* ===== verification/Mbox_Service.thy ===== *)
theory Mbox_Service
  imports Mbox_Link
begin

text \<open>
  The message service of the driver: \<^verbatim>\<open>xilinx-qdma/driver/src/libqdma/qdma_mbox.c\<close> and the table of
  virtual functions of \<^verbatim>\<open>qdma_sriov.c\<close>.

  Messages are objects of a heap: \<open>msgs\<close> gives the message of an address, None once it has been
  freed. An operation that touches a freed message is None, as is one that takes a message off a
  list it is not on. A message waits on \<open>todo\<close> (\<^verbatim>\<open>tx_todo_list\<close>) to be sent and, when its sender
  waits for an answer, on \<open>pend\<close> (\<^verbatim>\<open>rx_pend_list\<close>). Each definition is one step: what another
  thread does while \<^verbatim>\<open>list_lock\<close> is released inside a work routine is not modelled, what it does
  during the wait of \<^verbatim>\<open>qdma_mbox_msg_send\<close> lies between \<open>msg_send\<close> and \<open>msg_send_end\<close>. How the words of a message lay out the union is the parameter
  \<open>decode\<close>/\<open>encode\<close>; \<open>pci_iov\<close> is the kernel option, \<open>soft_2019\<close> the test of device type and
  release before interrupts are used, \<open>timer_mode\<close> a driver mode without mailbox interrupts. Waking
  the threads on \<^verbatim>\<open>xdev->wq\<close> has no effect on this state and is left out.
\<close>

section \<open>State\<close>

datatype reset_state = RESET_STATE_IDLE | RESET_STATE_RECV_PF_RESET_REQ | RESET_STATE_PF_WAIT_FOR_BYES
  | RESET_STATE_RECV_PF_RESET_DONE | RESET_STATE_RECV_PF_OFFLINE_REQ
  | RESET_STATE_PF_OFFLINE_REQ_PROCESSING | RESET_STATE_INVALID

record mbox_msg =
  wait_resp :: bool
  resp_op_matched :: bool
  retry_cnt :: u16
  raw :: "u32 list"

record vf_info =
  vf_func_id :: u16
  vf_qbase :: u16
  vf_qmax :: u16

text \<open>
  \<open>timer\<close>, \<open>tx_work\<close> and \<open>rx_work\<close> say whether the timer is armed and the work queued; \<open>woken\<close>
  lists the messages whose wait queues were woken up; \<open>allocs\<close> is the number of allocations that
  will still succeed.
\<close>

record mbox_svc =
  msgs :: "nat \<Rightarrow> mbox_msg option"
  allocs :: nat
  next_addr :: nat
  todo :: "nat list"
  pend :: "nat list"
  rx :: "u32 list"
  send_busy :: bool
  rx_poll :: bool
  timer :: bool
  tx_work :: bool
  rx_work :: bool
  woken :: "nat list"
  offline :: bool
  reset :: reset_state
  reset_work :: bool
  func :: u8
  func_parent :: u8
  vfs :: "vf_info list"
  vf_count_online :: u8
  regt :: "reg_ev list"
  mbst :: mb_state

record svc_env =
  dev_regs :: mb_dev
  hw_env :: mb_env
  dma_index :: u8
  decode :: "u32 list \<Rightarrow> mbox_txrx"
  encode :: "mbox_txrx \<Rightarrow> u32 list"
  pci_iov :: bool
  soft_2019 :: bool
  timer_mode :: bool
  workq_ok :: bool

section \<open>Messages\<close>

definition QDMA_MBOX_MSG_TIMEOUT_MS :: nat where "QDMA_MBOX_MSG_TIMEOUT_MS = 10000"

abbreviation zero_raw :: "u32 list" where "zero_raw \<equiv> replicate MBOX_MSG_REG_MAX 0"

definition qdma_mbox_msg_alloc :: "mbox_svc \<Rightarrow> nat option \<times> mbox_svc" where
  "qdma_mbox_msg_alloc s =
     (if allocs s = 0 then (None, s)
      else (Some (next_addr s),
            s\<lparr>msgs := (msgs s)(next_addr s \<mapsto> \<lparr>wait_resp = False, resp_op_matched = False, retry_cnt = 0, raw = zero_raw\<rparr>),
              next_addr := Suc (next_addr s), allocs := allocs s - 1\<rparr>))"

text \<open>The reference count starts at one and is never raised: \<^verbatim>\<open>kref_put\<close> frees.\<close>

definition qdma_mbox_msg_free :: "nat \<Rightarrow> mbox_svc \<Rightarrow> mbox_svc option" where
  "qdma_mbox_msg_free a s = (if msgs s a = None then None else Some (s\<lparr>msgs := (msgs s)(a := None)\<rparr>))"

definition set_raw :: "nat \<Rightarrow> u32 list \<Rightarrow> mbox_svc \<Rightarrow> mbox_svc" where
  "set_raw a r s = s\<lparr>msgs := (msgs s)(a := map_option (\<lambda>m. m\<lparr>raw := r\<rparr>) (msgs s a))\<rparr>"

definition set_matched :: "nat \<Rightarrow> mbox_svc \<Rightarrow> mbox_svc" where
  "set_matched a s = s\<lparr>msgs := (msgs s)(a := map_option (\<lambda>m. m\<lparr>resp_op_matched := True\<rparr>) (msgs s a))\<rparr>"

text \<open>
  \<^verbatim>\<open>qdma_mbox_msg_send\<close> up to the wait: what it returns at once, or Some 0 with the message queued.
  \<open>is_vf\<close> says which of the two drivers is built.
\<close>

definition msg_send :: "bool \<Rightarrow> nat \<Rightarrow> bool \<Rightarrow> nat \<Rightarrow> mbox_svc \<Rightarrow> (int \<times> mbox_svc) option" where
  "msg_send is_vf a wait timeout_ms s =
     (case msgs s a of
        None \<Rightarrow> None
      | Some m \<Rightarrow>
          (let s1 = s\<lparr>msgs := (msgs s)(a \<mapsto> m\<lparr>resp_op_matched := False, wait_resp := wait,
                          retry_cnt := of_nat (timeout_ms div 1000 + 1)\<rparr>)\<rparr>
           in if is_vf \<and> reset s = RESET_STATE_INVALID then Some (- 22, s1)
              else Some (0, s1\<lparr>todo := todo s @ [a], tx_work := True\<rparr>)))"

text \<open>After the wait: answered, or timed out and taken off whichever list it is on.\<close>

definition msg_send_end :: "nat \<Rightarrow> mbox_svc \<Rightarrow> (int \<times> mbox_svc) option" where
  "msg_send_end a s =
     (case msgs s a of
        None \<Rightarrow> None
      | Some m \<Rightarrow>
          if resp_op_matched m then Some (0, s)
          else if a \<in> set (todo s) \<union> set (pend s)
            then Some (- 32, s\<lparr>todo := remove1 a (todo s), pend := remove1 a (pend s)\<rparr>)
            else None)"

section \<open>Sending\<close>

definition mbox_hw_send :: "svc_env \<Rightarrow> bool \<Rightarrow> u32 list \<Rightarrow> mbox_svc \<Rightarrow> int \<times> mbox_svc" where
  "mbox_hw_send env is_vf r s =
     (case qdma_mbox_send (dev_regs env) is_vf r (regt s) of (rv, t) \<Rightarrow> (rv, s\<lparr>regt := t\<rparr>))"

lemma hw_send_todo: "mbox_hw_send env is_vf r s = (rv, s') \<Longrightarrow> todo s' = todo s"
  by (auto simp: mbox_hw_send_def split: prod.splits)

text \<open>The branch of the loop for a busy mailbox.\<close>

definition tx_failed :: "nat \<Rightarrow> mbox_msg \<Rightarrow> mbox_svc \<Rightarrow> mbox_svc option" where
  "tx_failed a m s =
     (if offline s then qdma_mbox_msg_free a s
      else if \<not> wait_resp m \<and> retry_cnt m = 1 then
        qdma_mbox_msg_free a (s\<lparr>todo := tl (todo s)\<rparr>)
      else Some (s\<lparr>msgs := (msgs s)(a \<mapsto> m\<lparr>retry_cnt := retry_cnt m - of_bool (\<not> wait_resp m)\<rparr>),
                   send_busy := True, timer := True\<rparr>))"

text \<open>And for a message that is sent: the loop goes on with the next one.\<close>

definition tx_sent :: "nat \<Rightarrow> mbox_msg \<Rightarrow> mbox_svc \<Rightarrow> mbox_svc option" where
  "tx_sent a m s =
     (let s1 = s\<lparr>send_busy := False, todo := tl (todo s)\<rparr>
      in if wait_resp m then Some (s1\<lparr>pend := pend s1 @ [a]\<rparr>) else qdma_mbox_msg_free a s1)"

lemma msg_free_todo: "qdma_mbox_msg_free a s = Some s' \<Longrightarrow> todo s' = todo s"
  by (auto simp: qdma_mbox_msg_free_def split: if_splits)

lemma tx_sent_todo: "tx_sent a m s = Some s' \<Longrightarrow> todo s' = tl (todo s)"
  by (auto simp: tx_sent_def Let_def dest: msg_free_todo split: if_splits)

function mbox_tx_work :: "svc_env \<Rightarrow> bool \<Rightarrow> mbox_svc \<Rightarrow> mbox_svc option" where
  "mbox_tx_work env is_vf s =
     (case todo s of
        [] \<Rightarrow> Some s
      | a # _ \<Rightarrow>
          (case msgs s a of
             None \<Rightarrow> None
           | Some m \<Rightarrow>
               (case mbox_hw_send env is_vf (raw m) s of (rv, s1) \<Rightarrow>
                  if rv = 0 then
                    (case tx_sent a m s1 of None \<Rightarrow> None | Some s2 \<Rightarrow> mbox_tx_work env is_vf s2)
                  else tx_failed a m s1)))"
  by pat_completeness auto
termination
  by (relation "measure (\<lambda>(env, is_vf, s). length (todo s))")
    (auto dest!: tx_sent_todo dest: hw_send_todo [OF sym])

declare mbox_tx_work.simps [simp del]

section \<open>The table of virtual functions\<close>

definition QDMA_FUNC_ID_INVALID :: u16 where "QDMA_FUNC_ID_INVALID = 0xFFFF"

definition xdev_sriov_vf_offline :: "u8 \<Rightarrow> mbox_svc \<Rightarrow> mbox_svc" where
  "xdev_sriov_vf_offline f s =
     s\<lparr>vf_count_online := vf_count_online s - 1,
       vfs := map (\<lambda>v. if vf_func_id v = ucast f
                        then v\<lparr>vf_func_id := if reset s = RESET_STATE_IDLE then QDMA_FUNC_ID_INVALID else vf_func_id v,
                               vf_qbase := 0, vf_qmax := 0\<rparr>
                        else v) (vfs s)\<rparr>"

fun take_slot :: "u16 \<Rightarrow> vf_info list \<Rightarrow> vf_info list option" where
  "take_slot f [] = None"
| "take_slot f (v # vs) =
     (if vf_func_id v = QDMA_FUNC_ID_INVALID then Some (v\<lparr>vf_func_id := f\<rparr> # vs)
      else map_option ((#) v) (take_slot f vs))"

definition xdev_sriov_vf_online :: "u8 \<Rightarrow> mbox_svc \<Rightarrow> int \<times> mbox_svc" where
  "xdev_sriov_vf_online f s =
     (let s1 = s\<lparr>vf_count_online := vf_count_online s + 1\<rparr>
      in if reset s = RESET_STATE_IDLE then
           (case take_slot (ucast f) (vfs s) of
              Some vs \<Rightarrow> (0, s1\<lparr>vfs := vs\<rparr>) | None \<Rightarrow> (- 22, s1))
         else (0, s1))"

fun set_fmap :: "u16 \<Rightarrow> u16 \<Rightarrow> u16 \<Rightarrow> vf_info list \<Rightarrow> vf_info list option" where
  "set_fmap f qb qmax [] = None"
| "set_fmap f qb qmax (v # vs) =
     (if vf_func_id v = f then Some (v\<lparr>vf_qbase := qb, vf_qmax := qmax\<rparr> # vs)
      else map_option ((#) v) (set_fmap f qb qmax vs))"

definition xdev_sriov_vf_fmap :: "u8 \<Rightarrow> u16 \<Rightarrow> u16 \<Rightarrow> mbox_svc \<Rightarrow> int \<times> mbox_svc" where
  "xdev_sriov_vf_fmap f qb qmax s =
     (case set_fmap (ucast f) qb qmax (vfs s) of Some vs \<Rightarrow> (0, s\<lparr>vfs := vs\<rparr>) | None \<Rightarrow> (- 22, s))"

section \<open>Receiving\<close>

definition mbox_hw_rcv :: "svc_env \<Rightarrow> bool \<Rightarrow> mbox_svc \<Rightarrow> int \<times> mbox_svc" where
  "mbox_hw_rcv env is_vf s =
     (case qdma_mbox_rcv (dev_regs env) is_vf zero_raw (regt s) of (rv, r, t) \<Rightarrow> (rv, s\<lparr>rx := r, regt := t\<rparr>))"

definition raw_is_response :: "u32 list \<Rightarrow> u32 list \<Rightarrow> bool" where
  "raw_is_response tx r \<longleftrightarrow> unat (raw_op tx) + unat MBOX_MSG_OP_RSP_OFFSET = unat (raw_op r)"

text \<open>The walk over \<^verbatim>\<open>rx_pend_list\<close>: the outer None is an access to a freed message.\<close>

fun find_response :: "(nat \<Rightarrow> mbox_msg option) \<Rightarrow> u32 list \<Rightarrow> nat list \<Rightarrow> nat option option" where
  "find_response h r [] = Some None"
| "find_response h r (a # as) =
     (case h a of
        None \<Rightarrow> None
      | Some m \<Rightarrow> if raw_is_response (raw m) r then Some (Some a) else find_response h r as)"

text \<open>The answer of a VF to a request of the PF; a message it does not know is only logged.\<close>

definition vf_answer :: "svc_env \<Rightarrow> mbox_svc \<Rightarrow> (int \<times> mbox_svc) option" where
  "vf_answer env s =
     (case qdma_mbox_msg_alloc s of
        (None, s1) \<Rightarrow> Some (- 12, s1)
      | (Some a, s1) \<Rightarrow>
          (case qdma_mbox_vf_rcv_msg_handler (decode env (rx s)) msg_zero of (rv, resp) \<Rightarrow>
             (let s2 = set_raw a (encode env resp) s1
              in if rv = QDMA_MBOX_VF_RESET then
                   (case msg_send True a False QDMA_MBOX_MSG_TIMEOUT_MS s2 of
                      None \<Rightarrow> None | Some (_, s3) \<Rightarrow>
                        Some (0, s3\<lparr>reset := RESET_STATE_RECV_PF_RESET_REQ, reset_work := True\<rparr>))
                 else if rv = QDMA_MBOX_PF_RESET_DONE then
                   (case msg_send True a False QDMA_MBOX_MSG_TIMEOUT_MS
                           (s2\<lparr>reset := RESET_STATE_RECV_PF_RESET_DONE\<rparr>) of
                      None \<Rightarrow> None | Some (_, s3) \<Rightarrow> Some (0, s3))
                 else if rv = QDMA_MBOX_PF_BYE then
                   (case msg_send True a False QDMA_MBOX_MSG_TIMEOUT_MS s2 of
                      None \<Rightarrow> None | Some (_, s3) \<Rightarrow>
                        Some (0, s3\<lparr>reset := RESET_STATE_RECV_PF_OFFLINE_REQ, reset_work := True\<rparr>))
                 else Some (0, s2))))"

definition learn_ids :: "mbox_svc \<Rightarrow> mbox_svc" where
  "learn_ids s = (if func s = func_parent s
     then s\<lparr>func := ucast (raw_dst (rx s)), func_parent := ucast (raw_src (rx s))\<rparr> else s)"

definition rcv_one_vf :: "svc_env \<Rightarrow> mbox_svc \<Rightarrow> (int \<times> mbox_svc) option" where
  "rcv_one_vf env s =
     (let s1 = learn_ids s
      in case find_response (msgs s1) (rx s1) (pend s1) of
           None \<Rightarrow> None
         | Some None \<Rightarrow> if pend s1 = [] then vf_answer env s1 else Some (0, s1)
         | Some (Some a) \<Rightarrow>
             (let s2 = set_matched a s1
              in Some (0, (set_raw a (rx s2) (s2\<lparr>pend := remove1 a (pend s2)\<rparr>))\<lparr>woken := woken s2 @ [a]\<rparr>)))"

text \<open>
  The PF. A reply to one of its own messages is copied into the waiting message, whose sender is
  woken up; then the message is freed.
\<close>

definition pf_reply :: "nat \<Rightarrow> mbox_svc \<Rightarrow> (int \<times> mbox_svc) option" where
  "pf_reply resp s =
     (case find_response (msgs s) (rx s) (pend s) of
        None \<Rightarrow> None
      | Some None \<Rightarrow> map_option (Pair 0) (qdma_mbox_msg_free resp s)
      | Some (Some a) \<Rightarrow>
          (let s1 = set_raw a (rx s) ((set_matched a s)\<lparr>pend := remove1 a (pend s), woken := woken s @ [a]\<rparr>)
           in case qdma_mbox_msg_free a s1 of
                None \<Rightarrow> None | Some s2 \<Rightarrow> map_option (Pair 0) (qdma_mbox_msg_free resp s2)))"

definition sriov_event :: "svc_env \<Rightarrow> (u8 \<Rightarrow> mbox_svc \<Rightarrow> mbox_svc) \<Rightarrow> mbox_svc \<Rightarrow> mbox_svc" where
  "sriov_event env f s = (if pci_iov env then f (vf_func_id_get (decode env (rx s)) False) s else s)"

definition send_answer :: "nat \<Rightarrow> mbox_svc \<Rightarrow> (int \<times> mbox_svc) option" where
  "send_answer a s = map_option (\<lambda>(_, s1). (0, s1)) (msg_send False a False QDMA_MBOX_MSG_TIMEOUT_MS s)"

definition rcv_one_pf :: "svc_env \<Rightarrow> mbox_svc \<Rightarrow> (int \<times> mbox_svc) option" where
  "rcv_one_pf env s =
     (case qdma_mbox_msg_alloc s of
        (None, s1) \<Rightarrow> Some (- 12, s1)
      | (Some a, s1) \<Rightarrow>
          (case qdma_mbox_pf_rcv_msg_handler (hw_env env) (dma_index env) (ucast (func s)) (decode env (rx s)) msg_zero
                  (mbst s) of (rv, resp, st) \<Rightarrow>
             (let s2 = (set_raw a (encode env resp) s1)\<lparr>mbst := st\<rparr>
              in if rv = QDMA_MBOX_VF_OFFLINE \<or> rv = QDMA_MBOX_VF_RESET_BYE then
                   (let s3 = sriov_event env xdev_sriov_vf_offline s2
                    in if rv = QDMA_MBOX_VF_RESET_BYE then send_answer a s3
                       else map_option (Pair 0) (qdma_mbox_msg_free a s3))
                 else if rv = QDMA_MBOX_VF_ONLINE then
                   send_answer a (sriov_event env (\<lambda>f x. snd (xdev_sriov_vf_online f x)) s2)
                 else if rv = QDMA_MBOX_VF_RESET \<or> rv = QDMA_MBOX_PF_RESET_DONE \<or> rv = QDMA_MBOX_PF_BYE then
                   pf_reply a s2
                 else send_answer a s2)))"

definition mbox_rcv_one_msg :: "svc_env \<Rightarrow> bool \<Rightarrow> mbox_svc \<Rightarrow> (int \<times> mbox_svc) option" where
  "mbox_rcv_one_msg env is_vf = (if is_vf then rcv_one_vf env else rcv_one_pf env)"

text \<open>
  The receive work. The loop goes on as long as the hardware has a message, so it takes fuel: the
  outer None is a loop that still runs, the inner one an access to a freed message.
\<close>

fun rx_loop :: "nat \<Rightarrow> svc_env \<Rightarrow> bool \<Rightarrow> int \<Rightarrow> mbox_svc \<Rightarrow> (int \<times> mbox_svc) option option" where
  "rx_loop 0 env is_vf rv s = (if rv = 0 then None else Some (Some (rv, s)))"
| "rx_loop (Suc n) env is_vf rv s =
     (if rv \<noteq> 0 \<or> offline s then Some (Some (rv, s))
      else (case mbox_rcv_one_msg env is_vf s of
              None \<Rightarrow> Some None
            | Some (r, s1) \<Rightarrow>
                if r = - 22 then Some (Some (rv, s1))
                else (case mbox_hw_rcv env is_vf s1 of (rv2, s2) \<Rightarrow> rx_loop n env is_vf rv2 s2)))"

definition mbox_stop_now :: "bool \<Rightarrow> int \<Rightarrow> mbox_svc \<Rightarrow> bool" where
  "mbox_stop_now is_vf rv s =
     (if rv = - QDMA_ERR_MBOX_ALL_ZERO_MSG then \<not> is_vf \<or> reset s = RESET_STATE_IDLE else offline s)"

definition rx_finish :: "svc_env \<Rightarrow> bool \<Rightarrow> int \<Rightarrow> mbox_svc \<Rightarrow> mbox_svc" where
  "rx_finish env is_vf rv s =
     (let stop = mbox_stop_now is_vf rv s
      in if rx_poll s then s\<lparr>timer := \<not> stop\<rparr>
         else if stop then s\<lparr>regt := qdma_mbox_disable_interrupts (dev_regs env) is_vf (regt s)\<rparr> else s)"

definition mbox_rx_work :: "nat \<Rightarrow> svc_env \<Rightarrow> bool \<Rightarrow> mbox_svc \<Rightarrow> mbox_svc option option" where
  "mbox_rx_work n env is_vf s =
     (case mbox_hw_rcv env is_vf s of (rv, s1) \<Rightarrow>
        map_option (map_option (\<lambda>(rv2, s2). rx_finish env is_vf rv2 s2)) (rx_loop n env is_vf rv s1))"

definition mbox_timer_handler :: "mbox_svc \<Rightarrow> mbox_svc" where
  "mbox_timer_handler s = s\<lparr>timer := False, rx_work := rx_work s \<or> rx_poll s, tx_work := tx_work s \<or> send_busy s\<rparr>"

section \<open>Starting and stopping\<close>

abbreviation no_mailbox :: "svc_env \<Rightarrow> bool \<Rightarrow> bool" where
  "no_mailbox env is_vf \<equiv> \<not> is_vf \<and> \<not> mailbox_en (attrs_of (hw_env env))"

fun out_wait :: "svc_env \<Rightarrow> bool \<Rightarrow> nat \<Rightarrow> reg_ev list \<Rightarrow> reg_ev list" where
  "out_wait env is_vf 0 t = t"
| "out_wait env is_vf (Suc n) t =
     (case qdma_mbox_out_status (dev_regs env) is_vf t of (busy, t1) \<Rightarrow>
        if busy then out_wait env is_vf n t1 else t1)"

text \<open>\<^verbatim>\<open>qdma_mbox_stop\<close>: None while messages wait to be sent, it sleeps and looks again.\<close>

definition qdma_mbox_stop :: "svc_env \<Rightarrow> bool \<Rightarrow> mbox_svc \<Rightarrow> mbox_svc option" where
  "qdma_mbox_stop env is_vf s =
     (if no_mailbox env is_vf then Some s
      else if todo s \<noteq> [] then None
      else (let t = out_wait env is_vf 100 (regt s)
            in Some (s\<lparr>timer := False,
                       regt := if soft_2019 env \<and> \<not> rx_poll s
                               then qdma_mbox_disable_interrupts (dev_regs env) is_vf t else t\<rparr>)))"

definition qdma_mbox_start :: "svc_env \<Rightarrow> bool \<Rightarrow> mbox_svc \<Rightarrow> mbox_svc" where
  "qdma_mbox_start env is_vf s =
     (if no_mailbox env is_vf then s
      else if rx_poll s then s\<lparr>timer := True\<rparr>
      else s\<lparr>regt := qdma_mbox_enable_interrupts (dev_regs env) is_vf (regt s)\<rparr>)"

definition qdma_mbox_poll_start :: "svc_env \<Rightarrow> bool \<Rightarrow> mbox_svc \<Rightarrow> mbox_svc" where
  "qdma_mbox_poll_start env is_vf s =
     (if no_mailbox env is_vf then s
      else s\<lparr>rx_poll := True, timer := True,
             regt := qdma_mbox_disable_interrupts (dev_regs env) is_vf (regt s)\<rparr>)"

text \<open>\<^verbatim>\<open>flush_workqueue\<close> lets the queued work run first; here none is queued.\<close>

definition qdma_mbox_cleanup :: "svc_env \<Rightarrow> bool \<Rightarrow> mbox_svc \<Rightarrow> mbox_svc" where
  "qdma_mbox_cleanup env is_vf s =
     (if workq_ok env
      then s\<lparr>timer := False,
             regt := if rx_poll s then regt s else qdma_mbox_disable_interrupts (dev_regs env) is_vf (regt s)\<rparr>
      else s)"

fun drain :: "svc_env \<Rightarrow> bool \<Rightarrow> nat \<Rightarrow> reg_ev list \<Rightarrow> reg_ev list" where
  "drain env is_vf 0 t = t"
| "drain env is_vf (Suc n) t = drain env is_vf n (snd (snd (qdma_mbox_rcv (dev_regs env) is_vf zero_raw t)))"

definition qdma_mbox_init :: "svc_env \<Rightarrow> bool \<Rightarrow> mbox_svc \<Rightarrow> int \<times> mbox_svc" where
  "qdma_mbox_init env is_vf s =
     (let s1 = s\<lparr>todo := [], pend := []\<rparr>
      in if \<not> workq_ok env then (- 12, qdma_mbox_cleanup env is_vf s1)
         else (let t1 = qdma_mbox_hw_init (dev_regs env) is_vf
                          (drain env is_vf (if is_vf then 1 else 256) (regt s1));
                   poll = \<not> soft_2019 env \<or> timer_mode env
               in (0, s1\<lparr>rx_poll := poll, timer := False,
                         regt := if poll then t1 else qdma_mbox_enable_interrupts (dev_regs env) is_vf t1\<rparr>)))"

end
