(* ===== verification/Qdma_Queues.thy ===== *)
theory Qdma_Queues
  imports Qdma_Resource
begin

text \<open>
  What the queue resource manager guarantees: every hardware queue has at most one owner (one
  device or the free list) in every reachable state, and no queue is lost as long as the host
  does not run out of memory. Also the accounting of active queues.
\<close>

section \<open>One request\<close>

lemma request_spec:
  assumes ap: "apart a b (entry d) fl" and b: "b < 2 ^ 31" and w: "no_wrap qmax qb"
    and r: "request_q_resource d qmax qb fl hm = (d', fl', hm', rv)"
  shows "apart a b (entry d') fl'"
    and "cells (entry d') \<union> all_cells fl' \<subseteq> cells (entry d) \<union> all_cells fl"
    and "hm \<noteq> 0 \<Longrightarrow> cells (entry d') \<union> all_cells fl' = cells (entry d) \<union> all_cells fl"
    and "qmax \<noteq> 0 \<Longrightarrow> rv = None \<Longrightarrow> total_q (entry d') = qmax"
    and "d' = d\<lparr>entry := entry d'\<rparr>"
proof -
  obtain d1 fl1 hm1 where s: "submit_to_free_list d fl hm = (d1, fl1, hm1)"
    by (cases "submit_to_free_list d fl hm")
  note s1 = submit_spec [OF ap b s]
  have sf1: "sorted_free a b fl1" using s1(1) by (simp add: apart_def)
  obtain p2 fl2 hm2 where g: "get_resource_node qmax qb fl1 hm1 = (p2, fl2, hm2)"
    by (cases "get_resource_node qmax qb fl1 hm1")
  note g1 = get_resource_node_spec(1) [OF sf1 b w, of hm1, unfolded g]
  have own: "no_wrap (total_q (entry d)) (qbase (entry d))"
  proof (rule no_wrap_own [OF _ b])
    show "cells (entry d) \<subseteq> {a..<b}" using ap unfolding apart_def by blast
  qed
  have sub: "all_cells fl1 \<subseteq> cells (entry d) \<union> all_cells fl" using s1(2) by blast
  have full: "all_cells fl1 = cells (entry d) \<union> all_cells fl" if "hm \<noteq> 0"
    using s1(2) s1(5) [OF that] by blast
  have upd: "d1 = d\<lparr>entry := entry d1\<rparr>" by (rule s1(6))
  have chain: "d'' = d\<lparr>entry := entry d''\<rparr>" if "d'' = d1\<lparr>entry := entry d''\<rparr>" for d''
    by (subst that, subst upd) simp
  have all: "apart a b (entry d') fl' \<and>
      cells (entry d') \<union> all_cells fl' \<subseteq> cells (entry d) \<union> all_cells fl \<and>
      (hm \<noteq> 0 \<longrightarrow> cells (entry d') \<union> all_cells fl' = cells (entry d) \<union> all_cells fl) \<and>
      (qmax \<noteq> 0 \<longrightarrow> rv = None \<longrightarrow> total_q (entry d') = qmax) \<and> d' = d\<lparr>entry := entry d'\<rparr>"
  proof (cases "qmax = 0")
    case True
    with r s have "d' = d1" "fl' = fl1" by (simp_all add: request_q_resource_def Let_def)
    with s1(1,2) upd True show "apart a b (entry d') fl' \<and>
      cells (entry d') \<union> all_cells fl' \<subseteq> cells (entry d) \<union> all_cells fl \<and>
      (hm \<noteq> 0 \<longrightarrow> cells (entry d') \<union> all_cells fl' = cells (entry d) \<union> all_cells fl) \<and>
      (qmax \<noteq> 0 \<longrightarrow> rv = None \<longrightarrow> total_q (entry d') = qmax) \<and> d' = d\<lparr>entry := entry d'\<rparr>" by blast
  next
    case nz: False
    show "apart a b (entry d') fl' \<and>
      cells (entry d') \<union> all_cells fl' \<subseteq> cells (entry d) \<union> all_cells fl \<and>
      (hm \<noteq> 0 \<longrightarrow> cells (entry d') \<union> all_cells fl' = cells (entry d) \<union> all_cells fl) \<and>
      (qmax \<noteq> 0 \<longrightarrow> rv = None \<longrightarrow> total_q (entry d') = qmax) \<and> d' = d\<lparr>entry := entry d'\<rparr>"
    proof (cases p2)
      case (Some i)
      obtain d2 fl3 where t: "take_node d1 fl2 i = (d2, fl3)" by (cases "take_node d1 fl2 i")
      with r s g nz Some have res: "d' = d2" "fl' = fl3" by (simp_all add: request_q_resource_def Let_def)
      note tn = take_node_spec [OF g1 [unfolded Some] t sf1]
      from tn(1-3) chain [OF tn(4)] sub full show ?thesis unfolding res by blast
    next
      case None
      have sf2: "sorted_free a b fl2" and c2: "all_cells fl2 = all_cells fl1"
        using g1 None by (simp_all add: split_ok_def)
      obtain p3 fl3 hm3 where h: "get_resource_node (total_q (entry d)) (qbase (entry d)) fl2 hm2 = (p3, fl3, hm3)"
        by (cases "get_resource_node (total_q (entry d)) (qbase (entry d)) fl2 hm2")
      note h1 = get_resource_node_spec(1) [OF sf2 b own, of hm2, unfolded h]
      show ?thesis
      proof (cases p3)
        case None': None
        with r s g h nz None have res: "d' = d1\<lparr>entry := no_queues\<rparr>" "fl' = fl3" "rv = Some RM_NO_QUEUES_LEFT"
          by (simp_all add: request_q_resource_def Let_def)
        have "sorted_free a b fl3" "all_cells fl3 = all_cells fl1"
          using h1 None' c2 by (simp_all add: split_ok_def)
        with sub full chain [of d'] show ?thesis unfolding res by (simp add: apart_def)
      next
        case (Some i)
        obtain d2 fl4 where t: "take_node d1 fl3 i = (d2, fl4)" by (cases "take_node d1 fl3 i")
        with r s g h nz None Some have res: "d' = d2" "fl' = fl4" "rv = Some RM_NO_QUEUES_LEFT"
          by (simp_all add: request_q_resource_def Let_def)
        note tn = take_node_spec [OF h1 [unfolded Some] t sf2]
        from tn(1,2) chain [OF tn(4)] sub full c2 show ?thesis unfolding res by blast
      qed
    qed
  qed
  show "apart a b (entry d') fl'"
    "cells (entry d') \<union> all_cells fl' \<subseteq> cells (entry d) \<union> all_cells fl"
    "d' = d\<lparr>entry := entry d'\<rparr>" using all by blast+
  show "cells (entry d') \<union> all_cells fl' = cells (entry d) \<union> all_cells fl" if "hm \<noteq> 0"
    using all that by blast
  show "total_q (entry d') = qmax" if "qmax \<noteq> 0" "rv = None" using all that by blast
qed

section \<open>The invariant of a master entry\<close>

abbreviation q_first :: "resource_master \<Rightarrow> nat" where "q_first m \<equiv> unat (master_qbase m)"
abbreviation q_end :: "resource_master \<Rightarrow> nat" where
  "q_end m \<equiv> unat (master_qbase m) + unat (master_total_q m)"

definition dev_cells :: "dev_entry list \<Rightarrow> nat set" where
  "dev_cells ds = (\<Union>d \<in> set ds. cells (entry d))"

definition active_ok :: "dev_entry \<Rightarrow> bool" where
  "active_ok d \<longleftrightarrow> active_h2c_qcnt d \<le> total_q (entry d) \<and> active_c2h_qcnt d \<le> total_q (entry d)
     \<and> active_cmpt_qcnt d \<le> total_q (entry d)"

definition owners_apart :: "dev_entry list \<Rightarrow> bool" where
  "owners_apart ds \<longleftrightarrow> (\<forall>i < length ds. \<forall>j < length ds. i \<noteq> j \<longrightarrow>
     cells (entry (ds ! i)) \<inter> cells (entry (ds ! j)) = {})"

definition master_ok :: "resource_master \<Rightarrow> bool" where
  "master_ok m \<longleftrightarrow> q_end m < 2 ^ 31 \<and> sorted_free (q_first m) (q_end m) (free_list m)
     \<and> dev_cells (dev_list m) \<subseteq> {q_first m..<q_end m}
     \<and> dev_cells (dev_list m) \<inter> all_cells (free_list m) = {}
     \<and> owners_apart (dev_list m) \<and> (\<forall>d \<in> set (dev_list m). active_ok d)"

definition master_full :: "resource_master \<Rightarrow> bool" where
  "master_full m \<longleftrightarrow> dev_cells (dev_list m) \<union> all_cells (free_list m) = {q_first m..<q_end m}"

lemma master_okD:
  assumes "master_ok m"
  shows "q_end m < 2 ^ 31" "sorted_free (q_first m) (q_end m) (free_list m)"
    "dev_cells (dev_list m) \<subseteq> {q_first m..<q_end m}"
    "dev_cells (dev_list m) \<inter> all_cells (free_list m) = {}" "owners_apart (dev_list m)"
    "d \<in> set (dev_list m) \<Longrightarrow> active_ok d"
  using assms by (auto simp: master_ok_def)

lemma nth_removed:
  "j < length xs \<Longrightarrow> i < length xs - 1 \<Longrightarrow>
    (take j xs @ drop (Suc j) xs) ! i = xs ! (if i < j then i else Suc i)"
  by (auto simp: nth_append min_def)

lemma length_removed: "j < length xs \<Longrightarrow> length (take j xs @ drop (Suc j) xs) = length xs - 1"
  by auto

lemma set_removed:
  assumes "j < length xs"
  shows "set (take j xs @ drop (Suc j) xs) = (!) xs ` {i. i < length xs \<and> i \<noteq> j}"
proof (intro equalityI subsetI)
  fix x assume "x \<in> set (take j xs @ drop (Suc j) xs)"
  then obtain i where i: "i < length xs - 1" "x = xs ! (if i < j then i else Suc i)"
    unfolding in_set_conv_nth length_removed [OF assms] using nth_removed [OF assms] by metis
  then show "x \<in> (!) xs ` {i. i < length xs \<and> i \<noteq> j}"
    by (intro image_eqI [of _ _ "if i < j then i else Suc i"]) auto
next
  fix x assume "x \<in> (!) xs ` {i. i < length xs \<and> i \<noteq> j}"
  then obtain i where i: "i < length xs" "i \<noteq> j" "x = xs ! i" by blast
  let ?k = "if i < j then i else i - 1"
  have k: "?k < length xs - 1" using i assms by auto
  have "(take j xs @ drop (Suc j) xs) ! ?k = x"
    unfolding nth_removed [OF assms k] using i by auto
  then show "x \<in> set (take j xs @ drop (Suc j) xs)"
    unfolding in_set_conv_nth length_removed [OF assms] using k by blast
qed

definition others :: "dev_entry list \<Rightarrow> nat \<Rightarrow> nat set" where
  "others ds j = (\<Union>i \<in> {i. i < length ds \<and> i \<noteq> j}. cells (entry (ds ! i)))"

lemma dev_cells_split: "j < length ds \<Longrightarrow> dev_cells ds = cells (entry (ds ! j)) \<union> others ds j"
  unfolding dev_cells_def others_def set_conv_nth by auto

lemma dev_cells_upd: "j < length ds \<Longrightarrow> dev_cells (ds[j := d']) = cells (entry d') \<union> others ds j"
  using dev_cells_split [of j "ds[j := d']"] by (auto simp: others_def)

lemma dev_cells_remove: "j < length ds \<Longrightarrow> dev_cells (take j ds @ drop (Suc j) ds) = others ds j"
  unfolding dev_cells_def others_def set_removed by blast

lemma owners_apart_others: "owners_apart ds \<Longrightarrow> j < length ds \<Longrightarrow> cells (entry (ds ! j)) \<inter> others ds j = {}"
  unfolding owners_apart_def others_def by blast

lemma owners_apart_upd:
  assumes "owners_apart ds" "j < length ds" "cells (entry d') \<inter> others ds j = {}"
  shows "owners_apart (ds[j := d'])"
proof -
  have other: "cells (entry d') \<inter> cells (entry (ds ! i)) = {}" if "i < length ds" "i \<noteq> j" for i
    using assms(3) that unfolding others_def by blast
  show ?thesis unfolding owners_apart_def length_list_update
  proof (intro allI impI)
    fix i i' assume i: "i < length ds" "i' < length ds" "i \<noteq> i'"
    consider "i = j" | "i' = j" | "i \<noteq> j" "i' \<noteq> j" by blast
    then show "cells (entry (ds[j := d'] ! i)) \<inter> cells (entry (ds[j := d'] ! i')) = {}"
    proof cases
      case 1
      then have "ds[j := d'] ! i = d'" "ds[j := d'] ! i' = ds ! i'" using i assms(2) by simp_all
      with other [OF i(2)] 1 i(3) show ?thesis by metis
    next
      case 2
      then have "ds[j := d'] ! i' = d'" "ds[j := d'] ! i = ds ! i" using i assms(2) by simp_all
      with other [OF i(1)] 2 i(3) show ?thesis by (simp only:) blast
    next
      case 3
      then have "ds[j := d'] ! i' = ds ! i'" "ds[j := d'] ! i = ds ! i" by simp_all
      with assms(1) i show ?thesis unfolding owners_apart_def by (simp only:) blast
    qed
  qed
qed

lemma owners_apart_remove:
  assumes "owners_apart ds" "j < length ds"
  shows "owners_apart (take j ds @ drop (Suc j) ds)"
  unfolding owners_apart_def length_removed [OF assms(2)]
proof (intro allI impI)
  fix i i' assume i: "i < length ds - 1" "i' < length ds - 1" "i \<noteq> i'"
  let ?k = "if i < j then i else Suc i" and ?k' = "if i' < j then i' else Suc i'"
  have "?k < length ds" "?k' < length ds" "?k \<noteq> ?k'" using i by auto
  with assms(1) show "cells (entry ((take j ds @ drop (Suc j) ds) ! i)) \<inter>
      cells (entry ((take j ds @ drop (Suc j) ds) ! i')) = {}"
    unfolding nth_removed [OF assms(2) i(1)] nth_removed [OF assms(2) i(2)] owners_apart_def by blast
qed

section \<open>Reachable states\<close>

datatype rm_op = MasterCreate u32 u32 u32 u32 | MasterDestroy u32 | DevCreate u32 u16
  | DevDestroy u32 u16 | DevUpdate u32 u16 u32 u32 | QueueInc u32 u16 q_type | QueueDec u32 u16 q_type

fun rm_exec :: "rm_state \<Rightarrow> rm_op \<Rightarrow> rm_state" where
  "rm_exec st (MasterCreate bs be qb n) = fst (master_resource_create st bs be qb n)"
| "rm_exec st (MasterDestroy i) = master_resource_destroy st i"
| "rm_exec st (DevCreate i f) = fst (dev_entry_create st i f)"
| "rm_exec st (DevDestroy i f) = dev_entry_destroy st i f"
| "rm_exec st (DevUpdate i f qmax qb) = fst (dev_update st i f qmax qb)"
| "rm_exec st (QueueInc i f t) = fst (dev_increment_active_queue st i f t)"
| "rm_exec st (QueueDec i f t) = fst (dev_decrement_active_queue st i f t)"

text \<open>
  What callers must respect: a master's range is nonempty and below \<open>2 ^ 31\<close> (the hardware has
  2048 queues), and base plus size of a request do not wrap. \<open>strict\<close> adds that an operation that
  returns queues to the free list finds memory for the node.
\<close>

fun op_ok :: "bool \<Rightarrow> rm_state \<Rightarrow> rm_op \<Rightarrow> bool" where
  "op_ok strict st (MasterCreate bs be qb n) \<longleftrightarrow> n \<noteq> 0 \<and> unat qb + unat n < 2 ^ 31"
| "op_ok strict st (DevDestroy i f) \<longleftrightarrow> (strict \<longrightarrow> mem st \<noteq> 0)"
| "op_ok strict st (DevUpdate i f qmax qb) \<longleftrightarrow> no_wrap qmax qb \<and> (strict \<longrightarrow> mem st \<noteq> 0)"
| "op_ok strict st _ \<longleftrightarrow> True"

inductive rm_reach :: "bool \<Rightarrow> rm_state \<Rightarrow> bool" for strict where
  rm_start: "masters st = [] \<Longrightarrow> rm_reach strict st"
| rm_step: "rm_reach strict st \<Longrightarrow> op_ok strict st oper \<Longrightarrow> rm_reach strict (rm_exec st oper)"

definition rm_ok :: "bool \<Rightarrow> rm_state \<Rightarrow> bool" where
  "rm_ok strict st \<longleftrightarrow> (\<forall>m \<in> set (masters st). master_ok m \<and> (strict \<longrightarrow> master_full m))"

lemma get_master_index: "get_master_resource_entry st i = Some k \<Longrightarrow> k < length (masters st)"
  unfolding get_master_resource_entry_def using find_index_Some by blast

lemma get_dev_index: "get_dev_entry m f = Some j \<Longrightarrow> j < length (dev_list m) \<and> func_id (dev_list m ! j) = f"
  unfolding get_dev_entry_def using find_index_Some by blast

lemma rm_okD: "rm_ok strict st \<Longrightarrow> k < length (masters st) \<Longrightarrow>
    master_ok (masters st ! k) \<and> (strict \<longrightarrow> master_full (masters st ! k))"
  by (simp add: rm_ok_def)

lemma rm_ok_update:
  assumes "rm_ok strict st" "masters st' = (masters st)[k := m]" "master_ok m" "strict \<longrightarrow> master_full m"
  shows "rm_ok strict st'"
  using assms set_update_subset_insert [of "masters st" k m] by (auto simp: rm_ok_def)

lemma master_replace_dev:
  assumes ok: "master_ok m" and j: "j < length (dev_list m)"
    and ap: "apart (q_first m) (q_end m) (entry d') fl'"
    and sub: "cells (entry d') \<union> all_cells fl' \<subseteq> cells (entry (dev_list m ! j)) \<union> all_cells (free_list m)"
    and act: "active_ok d'"
  shows "master_ok (m\<lparr>free_list := fl', dev_list := (dev_list m)[j := d']\<rparr>)"
    and "cells (entry d') \<union> all_cells fl' = cells (entry (dev_list m ! j)) \<union> all_cells (free_list m) \<Longrightarrow>
      master_full m \<Longrightarrow> master_full (m\<lparr>free_list := fl', dev_list := (dev_list m)[j := d']\<rparr>)"
proof -
  let ?o = "others (dev_list m) j"
  note o = master_okD [OF ok]
  have split: "dev_cells (dev_list m) = cells (entry (dev_list m ! j)) \<union> ?o" by (rule dev_cells_split [OF j])
  have own: "cells (entry (dev_list m ! j)) \<inter> ?o = {}" by (rule owners_apart_others [OF o(5) j])
  have free: "all_cells (free_list m) \<inter> ?o = {}" using o(4) split by blast
  have new: "(cells (entry d') \<union> all_cells fl') \<inter> ?o = {}" using sub own free by blast
  have "set ((dev_list m)[j := d']) \<subseteq> insert d' (set (dev_list m))" by (rule set_update_subset_insert)
  then have acts: "\<forall>d \<in> set ((dev_list m)[j := d']). active_ok d" using act o(6) by blast
  have "owners_apart ((dev_list m)[j := d'])"
    by (rule owners_apart_upd [OF o(5) j]) (use new in blast)
  moreover have "dev_cells ((dev_list m)[j := d']) \<subseteq> {q_first m..<q_end m}"
    unfolding dev_cells_upd [OF j] using ap o(3) split unfolding apart_def by blast
  moreover have "dev_cells ((dev_list m)[j := d']) \<inter> all_cells fl' = {}"
    unfolding dev_cells_upd [OF j] using ap new unfolding apart_def by blast
  ultimately show "master_ok (m\<lparr>free_list := fl', dev_list := (dev_list m)[j := d']\<rparr>)"
    using o(1) ap acts unfolding master_ok_def apart_def by simp
  show "master_full (m\<lparr>free_list := fl', dev_list := (dev_list m)[j := d']\<rparr>)"
    if "cells (entry d') \<union> all_cells fl' = cells (entry (dev_list m ! j)) \<union> all_cells (free_list m)" "master_full m"
  proof -
    have "cells (entry d') \<union> ?o \<union> all_cells fl' = dev_cells (dev_list m) \<union> all_cells (free_list m)"
      using that(1) split by blast
    then show ?thesis using that(2) unfolding master_full_def by (simp add: dev_cells_upd [OF j])
  qed
qed

lemma master_remove_dev:
  assumes ok: "master_ok m" and j: "j < length (dev_list m)"
    and ap: "apart (q_first m) (q_end m) e fl'"
    and sub: "cells e \<union> all_cells fl' = cells (entry (dev_list m ! j)) \<union> all_cells (free_list m)"
  shows "master_ok (m\<lparr>free_list := fl', dev_list := take j (dev_list m) @ drop (Suc j) (dev_list m)\<rparr>)"
    and "cells e = {} \<Longrightarrow> master_full m \<Longrightarrow>
      master_full (m\<lparr>free_list := fl', dev_list := take j (dev_list m) @ drop (Suc j) (dev_list m)\<rparr>)"
proof -
  let ?o = "others (dev_list m) j" and ?ds = "take j (dev_list m) @ drop (Suc j) (dev_list m)"
  note o = master_okD [OF ok]
  have split: "dev_cells (dev_list m) = cells (entry (dev_list m ! j)) \<union> ?o" by (rule dev_cells_split [OF j])
  have own: "cells (entry (dev_list m ! j)) \<inter> ?o = {}" by (rule owners_apart_others [OF o(5) j])
  have free: "all_cells (free_list m) \<inter> ?o = {}" using o(4) split by blast
  have dc: "dev_cells ?ds = ?o" by (rule dev_cells_remove [OF j])
  have "set ?ds \<subseteq> set (dev_list m)" by (auto dest: in_set_takeD in_set_dropD)
  then have "\<forall>d \<in> set ?ds. active_ok d" using o(6) by blast
  moreover have "?o \<subseteq> {q_first m..<q_end m}" using o(3) split by blast
  moreover have "?o \<inter> all_cells fl' = {}" using sub own free by blast
  ultimately show "master_ok (m\<lparr>free_list := fl', dev_list := ?ds\<rparr>)"
    using o(1) ap owners_apart_remove [OF o(5) j] dc unfolding master_ok_def apart_def by simp
  show "master_full (m\<lparr>free_list := fl', dev_list := ?ds\<rparr>)" if "cells e = {}" "master_full m"
  proof -
    have "?o \<union> all_cells fl' = dev_cells (dev_list m) \<union> all_cells (free_list m)"
      using that(1) sub split by blast
    then show ?thesis using that(2) dc unfolding master_full_def by simp
  qed
qed

lemma apart_of:
  assumes "master_ok m" "j < length (dev_list m)"
  shows "apart (q_first m) (q_end m) (entry (dev_list m ! j)) (free_list m)"
  using master_okD(2-4) [OF assms(1)] dev_cells_split [OF assms(2)] unfolding apart_def by blast

lemma zero_active: "active_h2c_qcnt d = 0 \<Longrightarrow> active_c2h_qcnt d = 0 \<Longrightarrow> active_cmpt_qcnt d = 0 \<Longrightarrow>
    active_ok (d\<lparr>entry := e\<rparr>)"
  by (simp add: active_ok_def)

lemma dev_update_ok:
  assumes "rm_ok strict st" "no_wrap qmax qb" "strict \<longrightarrow> mem st \<noteq> 0"
  shows "rm_ok strict (fst (dev_update st i f qmax qb))"
proof (cases "get_master_resource_entry st i")
  case None
  with assms(1) show ?thesis by (simp add: dev_update_def)
next
  case (Some k)
  let ?m = "masters st ! k"
  note ok = rm_okD [OF assms(1) get_master_index [OF Some]]
  show ?thesis
  proof (cases "get_dev_entry ?m f")
    case None
    with assms(1) Some show ?thesis by (simp add: dev_update_def Let_def)
  next
    case j: (Some j)
    let ?d = "dev_list ?m ! j"
    have jl: "j < length (dev_list ?m)" using get_dev_index [OF j] by blast
    show ?thesis
    proof (cases "active_h2c_qcnt ?d \<noteq> 0 \<or> active_c2h_qcnt ?d \<noteq> 0 \<or> active_cmpt_qcnt ?d \<noteq> 0")
      case True
      with assms(1) Some j show ?thesis by (simp add: dev_update_def Let_def)
    next
      case False
      obtain d' fl' hm' rv where r: "request_q_resource ?d qmax qb (free_list ?m) (mem st) = (d', fl', hm', rv)"
        by (metis prod_cases4)
      have mok: "master_ok ?m" using ok by blast
      have b: "q_end ?m < 2 ^ 31" by (rule master_okD(1) [OF mok])
      note sp = request_spec [OF apart_of [OF mok jl] b assms(2) r]
      have "active_ok (?d\<lparr>entry := entry d'\<rparr>)" using False by (intro zero_active) auto
      then have act: "active_ok d'" using sp(5) by metis
      have full: "strict \<longrightarrow> master_full (?m\<lparr>free_list := fl', dev_list := (dev_list ?m)[j := d']\<rparr>)"
        using master_replace_dev(2) [OF mok jl sp(1,2) act] sp(3) assms(3) ok by blast
      show ?thesis
        by (rule rm_ok_update [OF assms(1) _ master_replace_dev(1) [OF mok jl sp(1,2) act] full])
          (use Some j False r in \<open>simp add: dev_update_def Let_def\<close>)
    qed
  qed
qed

lemma dev_entry_destroy_ok:
  assumes "rm_ok strict st" "strict \<longrightarrow> mem st \<noteq> 0"
  shows "rm_ok strict (dev_entry_destroy st i f)"
proof (cases "get_master_resource_entry st i")
  case None
  with assms(1) show ?thesis by (simp add: dev_entry_destroy_def)
next
  case (Some k)
  let ?m = "masters st ! k"
  note ok = rm_okD [OF assms(1) get_master_index [OF Some]]
  show ?thesis
  proof (cases "get_dev_entry ?m f")
    case None
    with assms(1) Some show ?thesis by (simp add: dev_entry_destroy_def Let_def)
  next
    case j: (Some j)
    have jl: "j < length (dev_list ?m)" using get_dev_index [OF j] by blast
    have mok: "master_ok ?m" using ok by blast
    obtain d' fl' hm' where s: "submit_to_free_list (dev_list ?m ! j) (free_list ?m) (mem st) = (d', fl', hm')"
      by (metis prod_cases3)
    note sp = submit_spec [OF apart_of [OF mok jl] master_okD(1) [OF mok] s]
    let ?m' = "?m\<lparr>free_list := fl', dev_list := take j (dev_list ?m) @ drop (Suc j) (dev_list ?m)\<rparr>"
    have full: "strict \<longrightarrow> master_full ?m'"
      using master_remove_dev(2) [OF mok jl sp(1,2)] sp(5) assms(2) ok by blast
    show ?thesis
      by (rule rm_ok_update [OF assms(1) _ master_remove_dev(1) [OF mok jl sp(1,2)] full])
        (use Some j s in \<open>simp add: dev_entry_destroy_def Let_def\<close>)
  qed
qed

lemma put_dev_ok:
  assumes "rm_ok strict st" "k < length (masters st)" "j < length (dev_list (masters st ! k))"
    and "entry d' = entry (the_dev st k j)" "active_ok d'"
  shows "rm_ok strict (put_dev st k j d' c)"
proof -
  let ?m = "masters st ! k"
  let ?m1 = "?m\<lparr>free_list := free_list ?m, dev_list := (dev_list ?m)[j := d']\<rparr>"
  note ok = rm_okD [OF assms(1,2)]
  then have mok: "master_ok ?m" by blast
  have ap: "apart (q_first ?m) (q_end ?m) (entry d') (free_list ?m)"
    unfolding assms(4) by (rule apart_of [OF mok assms(3)])
  have "master_ok ?m1" by (rule master_replace_dev(1) [OF mok assms(3) ap _ assms(5)]) (simp add: assms(4))
  then have "master_ok (?m1\<lparr>active_qcnt := c\<rparr>)" by (simp add: master_ok_def)
  moreover have "strict \<longrightarrow> master_full ?m1"
    using master_replace_dev(2) [OF mok assms(3) ap _ assms(5)] ok by (simp add: assms(4))
  then have "strict \<longrightarrow> master_full (?m1\<lparr>active_qcnt := c\<rparr>)" by (simp add: master_full_def)
  ultimately show ?thesis
    by (intro rm_ok_update [OF assms(1)]) (simp_all add: put_dev_def Let_def)
qed

lemma find_dev_index:
  "find_dev st i f = Inr (k, j) \<Longrightarrow> k < length (masters st) \<and> j < length (dev_list (masters st ! k))"
  by (auto simp: find_dev_def split: option.splits dest: get_master_index get_dev_index)

lemma active_of_le: "active_ok d \<Longrightarrow> active_of t d = Some c \<Longrightarrow> c \<le> total_q (entry d)"
  by (cases t) (auto simp: active_ok_def)

lemma set_active_ok: "active_ok d \<Longrightarrow> c \<le> total_q (entry d) \<Longrightarrow> active_ok (set_active t c d)"
  by (cases t) (auto simp: active_ok_def)

lemma set_active_entry [simp]: "entry (set_active t c d) = entry d"
  by (cases t) auto

lemma inc_ok:
  assumes "rm_ok strict st" shows "rm_ok strict (fst (dev_increment_active_queue st i f t))"
proof (cases "find_dev st i f")
  case (Inl e)
  with assms show ?thesis by (simp add: dev_increment_active_queue_def)
next
  case (Inr r)
  obtain k j where r: "r = (k, j)" by (cases r)
  note idx = find_dev_index [OF Inr [unfolded r]]
  have act: "active_ok (the_dev st k j)"
    using rm_okD [OF assms, of k] idx master_okD(6) [of "masters st ! k"] by simp
  show ?thesis
  proof (cases "active_of t (the_dev st k j)")
    case None
    with Inr r assms show ?thesis by (simp add: dev_increment_active_queue_def Let_def)
  next
    case (Some c)
    show ?thesis
    proof (cases "total_q (entry (the_dev st k j)) < c + 1")
      case True
      with Inr r Some assms show ?thesis by (simp add: dev_increment_active_queue_def Let_def)
    next
      case False
      then have "active_ok (set_active t (c + 1) (the_dev st k j))"
        by (intro set_active_ok [OF act]) simp
      from put_dev_ok [OF assms conjunct1 [OF idx] conjunct2 [OF idx] _ this] Inr r Some False
      show ?thesis by (simp add: dev_increment_active_queue_def Let_def)
    qed
  qed
qed

lemma dec_ok:
  assumes "rm_ok strict st" shows "rm_ok strict (fst (dev_decrement_active_queue st i f t))"
proof (cases "find_dev st i f")
  case (Inl e)
  with assms show ?thesis by (simp add: dev_decrement_active_queue_def)
next
  case (Inr r)
  obtain k j where r: "r = (k, j)" by (cases r)
  note idx = find_dev_index [OF Inr [unfolded r]]
  let ?d = "the_dev st k j"
  have act: "active_ok ?d"
    using rm_okD [OF assms, of k] idx master_okD(6) [of "masters st ! k"] by simp
  note put = put_dev_ok [OF assms conjunct1 [OF idx] conjunct2 [OF idx]]
  show ?thesis
  proof (cases "active_of t ?d")
    case None
    with put [of ?d] act Inr r show ?thesis by (simp add: dev_decrement_active_queue_def Let_def)
  next
    case (Some c)
    have "c - 1 \<le> total_q (entry ?d)" if "c \<noteq> 0"
    proof -
      have "unat (c - 1) \<le> unat c" using that by (simp add: unat_minus_one)
      with active_of_le [OF act Some] show ?thesis by (simp add: word_le_nat_alt)
    qed
    then have "active_ok (if c \<noteq> 0 then set_active t (c - 1) ?d else ?d)"
      using act by (auto intro: set_active_ok)
    moreover have "entry (if c \<noteq> 0 then set_active t (c - 1) ?d else ?d) = entry ?d" by simp
    ultimately show ?thesis using put Inr r Some
      by (simp add: dev_decrement_active_queue_def Let_def)
  qed
qed

lemma new_dev_simps [simp]: "entry (new_dev f) = no_queues" "active_ok (new_dev f)" "func_id (new_dev f) = f"
  by (simp_all add: new_dev_def active_ok_def)

lemma owners_apart_append:
  assumes "owners_apart ds" "cells (entry d) = {}"
  shows "owners_apart (ds @ [d])"
  unfolding owners_apart_def
proof (intro allI impI)
  fix i j assume i: "i < length (ds @ [d])" "j < length (ds @ [d])" "i \<noteq> j"
  have empty: "cells (entry ((ds @ [d]) ! k)) = {}" if "k = length ds" for k
    using that assms(2) by (simp del: atLeastLessThan_empty_iff)
  show "cells (entry ((ds @ [d]) ! i)) \<inter> cells (entry ((ds @ [d]) ! j)) = {}"
  proof (cases "i = length ds \<or> j = length ds")
    case True
    with empty [of i] empty [of j] show ?thesis by blast
  next
    case False
    with i have "i < length ds" "j < length ds" by auto
    moreover from this have "(ds @ [d]) ! i = ds ! i" "(ds @ [d]) ! j = ds ! j" by (simp_all add: nth_append)
    ultimately show ?thesis using assms(1) i(3) unfolding owners_apart_def by metis
  qed
qed

lemma dev_create_ok:
  assumes "rm_ok strict st" shows "rm_ok strict (fst (dev_entry_create st i f))"
proof (cases "\<exists>k. get_master_resource_entry st i = Some k \<and> get_dev_entry (masters st ! k) f = None \<and> mem st \<noteq> 0")
  case False
  then show ?thesis using assms
    by (auto simp: dev_entry_create_def Let_def split: option.splits)
next
  case True
  then obtain k where k: "get_master_resource_entry st i = Some k" "get_dev_entry (masters st ! k) f = None"
    "mem st \<noteq> 0" by blast
  let ?m = "masters st ! k"
  let ?m' = "?m\<lparr>dev_list := dev_list ?m @ [new_dev f]\<rparr>"
  note ok = rm_okD [OF assms get_master_index [OF k(1)]]
  then have mok: "master_ok ?m" by blast
  have dc: "dev_cells (dev_list ?m @ [new_dev f]) = dev_cells (dev_list ?m)"
    by (auto simp: dev_cells_def)
  have "owners_apart (dev_list ?m @ [new_dev f])"
    by (rule owners_apart_append [OF master_okD(5) [OF mok]]) simp
  then have "master_ok ?m'" using mok by (auto simp: master_ok_def dc)
  moreover have "strict \<longrightarrow> master_full ?m'" using ok by (auto simp: master_full_def dc)
  ultimately show ?thesis using k
    by (intro rm_ok_update [OF assms, of _ k ?m']) (simp_all add: dev_entry_create_def Let_def)
qed

lemma master_create_ok:
  assumes "rm_ok strict st" "n \<noteq> 0" "unat qb + unat n < 2 ^ 31"
  shows "rm_ok strict (fst (master_resource_create st bs be qb n))"
proof -
  let ?m = "\<lparr>dma_device_index = next_index st, pci_bus_start = bs, pci_bus_end = be, master_total_q = n,
    master_qbase = qb, dev_list = [], free_list = [\<lparr>qbase = qb, total_q = n\<rparr>], active_qcnt = 0\<rparr>"
  have "master_ok ?m \<and> master_full ?m"
    using assms(2,3) by (auto simp: master_ok_def master_full_def dev_cells_def owners_apart_def lo_def hi_def unat_gt_0)
  with assms(1) show ?thesis
    by (auto simp: rm_ok_def master_resource_create_def split: option.splits)
qed

lemma master_destroy_ok: "rm_ok strict st \<Longrightarrow> rm_ok strict (master_resource_destroy st i)"
  unfolding master_resource_destroy_def
  by (auto simp: rm_ok_def split: option.splits dest: in_set_takeD in_set_dropD)

lemma rm_reach_ok: "rm_reach strict st \<Longrightarrow> rm_ok strict st"
proof (induction rule: rm_reach.induct)
  case (rm_start st)
  then show ?case by (simp add: rm_ok_def)
next
  case (rm_step st oper)
  then show ?case
    by (cases oper) (auto intro: master_create_ok master_destroy_ok dev_create_ok dev_entry_destroy_ok
        dev_update_ok inc_ok dec_ok)
qed

section \<open>A run\<close>

definition rm0 :: rm_state where
  "rm0 = \<lparr>masters = [], next_index = 0, mem = 100\<rparr>"

text \<open>One bus with 64 queues from 0 on, functions 1 and 2, 8 queues for the first at base 16.\<close>

definition rm1 :: rm_state where
  "rm1 = rm_exec (rm_exec (rm_exec rm0 (MasterCreate 1 2 0 64)) (DevCreate 0 1)) (DevCreate 0 2)"

definition rm2 :: rm_state where
  "rm2 = rm_exec rm1 (DevUpdate 0 1 8 16)"

lemma rm1_eq: "rm1 = \<lparr>masters = [\<lparr>dma_device_index = 0, pci_bus_start = 1, pci_bus_end = 2,
    master_total_q = 64, master_qbase = 0, dev_list = [new_dev 1, new_dev 2],
    free_list = [\<lparr>qbase = 0, total_q = 64\<rparr>], active_qcnt = 0\<rparr>], next_index = 1, mem = 96\<rparr>"
  by (simp add: rm1_def rm0_def master_resource_create_def find_master_resource_entry_def
      dev_entry_create_def get_master_resource_entry_def get_dev_entry_def Let_def new_dev_def)

lemma rm2_eq: "rm2 = \<lparr>masters = [\<lparr>dma_device_index = 0, pci_bus_start = 1, pci_bus_end = 2,
    master_total_q = 64, master_qbase = 0,
    dev_list = [(new_dev 1)\<lparr>entry := \<lparr>qbase = 16, total_q = 8\<rparr>\<rparr>, new_dev 2],
    free_list = [\<lparr>qbase = 0, total_q = 16\<rparr>, \<lparr>qbase = 24, total_q = 40\<rparr>], active_qcnt = 0\<rparr>],
    next_index = 1, mem = 94\<rparr>"
  by (simp add: rm2_def rm1_eq dev_update_def get_master_resource_entry_def get_dev_entry_def Let_def
      new_dev_def no_queues_def request_q_resource_def submit_to_free_list_def get_resource_node_def
      honours_def fragment_def take_node_def)

lemma rm1_reach: "rm_reach strict rm1"
  unfolding rm1_def by (intro rm_step rm_start) (simp_all add: rm0_def)

lemma rm2_reach: "rm_reach strict rm2"
  unfolding rm2_def by (intro rm_step rm1_reach) (simp add: no_wrap_def rm1_eq)

section \<open>Properties of the queue resource manager\<close>





text \<open>
  A function never has more active queues of a kind than queues it owns.
\<close>

theorem active_within_owned:
  assumes "rm_reach False st" "m \<in> set (masters st)" "d \<in> set (dev_list m)"
  shows "active_h2c_qcnt d \<le> total_q (entry d) \<and> active_c2h_qcnt d \<le> total_q (entry d)
    \<and> active_cmpt_qcnt d \<le> total_q (entry d)"
  using rm_reach_ok [OF assms(1)] assms(2,3) by (auto simp: rm_ok_def master_ok_def active_ok_def)

theorem active_within_owned_witness:
  "active_h2c_qcnt (hd (dev_list (hd (masters rm2)))) \<le> total_q (entry (hd (dev_list (hd (masters rm2)))))"
  using active_within_owned [OF rm2_reach, of "hd (masters rm2)" "hd (dev_list (hd (masters rm2)))"]
  by (simp add: rm2_eq)

text \<open>
  Claim C30: a function without queues that asks for \<open>qmax\<close> queues gets exactly that many when
  some free range is large enough, and gets them at the base it asked for when a free range
  contains the requested one; nothing else fails than memory.
\<close>

theorem request_granted:
  assumes "apart a b (entry d) fl" "b < 2 ^ 31" "total_q (entry d) = 0" "no_wrap qmax qb" "qmax \<noteq> 0"
    and "2 \<le> hm" "e \<in> set fl" "qmax \<le> total_q e"
  shows "\<exists>d' fl' hm'. request_q_resource d qmax qb fl hm = (d', fl', hm', None)
    \<and> total_q (entry d') = qmax
    \<and> (0 \<le> sint qb \<and> lo e \<le> unat qb \<and> unat qb + unat qmax \<le> hi e \<longrightarrow> qbase (entry d') = qb)"
proof -
  have sf: "sorted_free a b fl" using assms(1) by (simp add: apart_def)
  have sub: "submit_to_free_list d fl hm = (d, fl, hm)" using assms(3) by (simp add: submit_to_free_list_def)
  obtain p fl2 hm2 where g: "get_resource_node qmax qb fl hm = (p, fl2, hm2)"
    by (cases "get_resource_node qmax qb fl hm")
  note gs = get_resource_node_spec [OF sf assms(2,4)]
  from gs(2) [OF assms(6,7,8)] g obtain i where p: "p = Some i" by auto
  have "total_q (fl2 ! i) = qmax" using gs(1) [of hm] unfolding g p by (simp add: split_ok_def)
  moreover have "qbase (fl2 ! i) = qb" if "0 \<le> sint qb" "lo e \<le> unat qb" "unat qb + unat qmax \<le> hi e"
    using gs(3) [OF assms(6) that(1) assms(7) that(2,3)] unfolding g p by (simp add: word_unat_eq_iff)
  ultimately show ?thesis
    using sub g p assms(5) by (simp add: request_q_resource_def take_node_def Let_def)
qed

theorem request_granted_witness:
  "\<exists>d' fl' hm'. request_q_resource (new_dev 1) 8 16 [\<lparr>qbase = 0, total_q = 64\<rparr>] 9 = (d', fl', hm', None)
    \<and> qbase (entry d') = 16 \<and> total_q (entry d') = 8"
proof -
  have "apart 0 64 (entry (new_dev 1)) [\<lparr>qbase = 0, total_q = 64\<rparr>]"
    by (simp add: apart_def lo_def hi_def)
  from request_granted [OF this _ _ _ _ _ list.set_intros(1), of 8 16 9] show ?thesis
    by (auto simp: no_wrap_def lo_def hi_def)
qed

text \<open>
  Returning a function's queues leaves the free list in order, and merged: no two
  neighbouring free ranges touch.
\<close>

theorem submit_keeps_list_merged:
  assumes "apart a b (entry d) fl" "b < 2 ^ 31" "total_q (entry d) \<noteq> 0" "hm \<noteq> 0"
    and "submit_to_free_list d fl hm = (d', fl', hm')"
  shows "sorted_free a b fl' \<and> coalesced fl' \<and> all_cells fl' = cells (entry d) \<union> all_cells fl
    \<and> entry d' = no_queues"
proof -
  have in_range: "a \<le> lo (entry d) \<and> lo (entry d) < hi (entry d) \<and> hi (entry d) \<le> b"
  proof -
    have "lo (entry d) < hi (entry d)" using assms(3) by (simp add: lo_def hi_def unat_gt_0)
    with assms(1) show ?thesis by (auto simp: apart_def)
  qed
  have "sorted_free a b (insert_free (entry d) fl) \<and> all_cells (insert_free (entry d) fl) = cells (entry d) \<union> all_cells fl"
    using insert_free_sorted [of a b fl "entry d"] assms(1,2) in_range by (simp add: apart_def)
  with defrag_sorted [of a b "insert_free (entry d) fl"] assms(2-5) show ?thesis
    by (auto simp: submit_to_free_list_def)
qed

theorem submit_keeps_list_merged_witness:
  "\<exists>d' fl' hm'. submit_to_free_list (hd (dev_list (hd (masters rm2)))) (free_list (hd (masters rm2))) 5 = (d', fl', hm')
    \<and> coalesced fl' \<and> all_cells fl' = {16..<24} \<union> ({0..<16} \<union> {24..<64})"
proof -
  obtain d' fl' hm' where s: "submit_to_free_list (hd (dev_list (hd (masters rm2)))) (free_list (hd (masters rm2))) 5 = (d', fl', hm')"
    by (metis prod_cases3)
  have "apart 0 64 (entry (hd (dev_list (hd (masters rm2))))) (free_list (hd (masters rm2)))"
    by (auto simp: rm2_eq apart_def lo_def hi_def)
  from submit_keeps_list_merged [OF this _ _ _ s] s show ?thesis by (simp add: rm2_eq lo_def hi_def)
qed

lemma in_range_iff_cells:
  assumes "rm_reach False st" "find_dev st i f = Inr (k, j)"
  shows "dev_is_queue_in_range st i f qid = Q_IN_RANGE \<longleftrightarrow> unat qid \<in> cells (entry (the_dev st k j))"
proof -
  let ?m = "masters st ! k" and ?e = "entry (the_dev st k j)"
  note idx = find_dev_index [OF assms(2)]
  have mok: "master_ok ?m" using rm_okD [OF rm_reach_ok [OF assms(1)]] idx by blast
  have ap: "cells ?e \<subseteq> {q_first ?m..<q_end ?m}" "q_end ?m < 2 ^ 31"
    using apart_of [OF mok conjunct2 [OF idx]] master_okD(1) [OF mok] unfolding apart_def by blast+
  show ?thesis
  proof (cases "total_q ?e = 0")
    case True
    with assms(2) show ?thesis by (simp add: dev_is_queue_in_range_def Let_def lo_def hi_def)
  next
    case False
    then have "unat (total_q ?e) \<noteq> 0" by (simp add: unat_eq_0)
    then have "lo ?e < hi ?e" by (simp add: lo_def hi_def)
    with ap have "hi ?e < 2 ^ 31" by simp
    then have h: "unat (qbase ?e + total_q ?e) = hi ?e" by (simp add: hi_def unat_word_ariths)
    have b: "unat (qbase ?e) < 2 ^ 31" using \<open>hi ?e < 2 ^ 31\<close> by (simp add: hi_def)
    have "(qid < qbase ?e + total_q ?e \<and> sint qid \<ge> sint (qbase ?e)) \<longleftrightarrow> unat qid \<in> cells ?e"
    proof (cases "unat qid < hi ?e")
      case True
      then have q: "unat qid < 2 ^ 31" using \<open>hi ?e < 2 ^ 31\<close> by simp
      have "sint (qbase ?e) \<le> sint qid \<longleftrightarrow> unat (qbase ?e) \<le> unat qid"
        unfolding sint_small [OF q] sint_small [OF b] by (simp only: of_nat_le_iff)
      then show ?thesis using True h by (simp add: word_less_nat_alt) (simp add: lo_def)
    next
      case False
      then show ?thesis using h by (simp add: word_less_nat_alt)
    qed
    with assms(2) False show ?thesis by (simp add: dev_is_queue_in_range_def Let_def)
  qed
qed

text \<open>
  \<^verbatim>\<open>qdma_dev_is_queue_in_range\<close> answers exactly whether the function owns the queue.
\<close>

theorem queue_in_range_iff_owned:
  assumes "rm_reach False st" "find_dev st i f = Inr (k, j)"
  shows "dev_is_queue_in_range st i f qid = Q_IN_RANGE \<longleftrightarrow> unat qid \<in> cells (entry (the_dev st k j))"
  using assms by (rule in_range_iff_cells)

theorem queue_in_range_iff_owned_witness:
  "dev_is_queue_in_range rm2 0 1 17 = Q_IN_RANGE \<and> dev_is_queue_in_range rm2 0 1 24 = Q_OUT_OF_RANGE"
proof -
  have f: "find_dev rm2 0 1 = Inr (0, 0)"
    by (simp add: rm2_eq find_dev_def get_master_resource_entry_def get_dev_entry_def)
  from queue_in_range_iff_owned [OF rm2_reach f, of 17] queue_in_range_iff_owned [OF rm2_reach f, of 24]
  have "dev_is_queue_in_range rm2 0 1 17 = Q_IN_RANGE" "dev_is_queue_in_range rm2 0 1 24 \<noteq> Q_IN_RANGE"
    by (simp_all add: rm2_eq lo_def hi_def)
  then show ?thesis by (cases "dev_is_queue_in_range rm2 0 1 24") auto
qed

text \<open>
  \<^verbatim>\<open>qdma_dev_decrement_active_queue\<close> guards the function's counter against zero
  but not the master's: decrementing a function with no active queue of that kind reports
  success and takes one off the master's count, which wraps to \<open>2 ^ 32 - 1\<close> when it was 0.
\<close>

theorem decrement_wraps_master_count:
  assumes "find_dev st i f = Inr (k, j)" "active_of t (the_dev st k j) = Some 0"
    and "active_qcnt (masters st ! k) = 0"
  shows "snd (dev_decrement_active_queue st i f t) = None
    \<and> active_qcnt (masters (fst (dev_decrement_active_queue st i f t)) ! k) = 2 ^ 32 - 1"
  using assms find_dev_index [OF assms(1)]
  by (simp add: dev_decrement_active_queue_def put_dev_def Let_def)

theorem decrement_wraps_master_count_witness:
  "active_qcnt (masters (fst (dev_decrement_active_queue rm2 0 1 TYPE_H2C)) ! 0) = 2 ^ 32 - 1"
proof -
  have "find_dev rm2 0 1 = Inr (0, 0)"
    by (simp add: rm2_eq find_dev_def get_master_resource_entry_def get_dev_entry_def)
  from decrement_wraps_master_count [OF this, of TYPE_H2C] show ?thesis by (simp add: rm2_eq new_dev_def)
qed

text \<open>
  The size of a request is not checked against wrap-around. With 64 queues free from 0
  on, a function that asks for \<open>2 ^ 32 - 1\<close> queues at base 1 passes the test
  \<^verbatim>\<open>node->qbase + node->total_q >= qbase + qmax\<close>, is told that it succeeded and owns
  \<open>2 ^ 32 - 1\<close> queues, and a free range of 64 queues that overlaps them remains.
\<close>

theorem request_size_wraps:
  "request_q_resource (new_dev 1) 0xFFFFFFFF 1 [\<lparr>qbase = 0, total_q = 64\<rparr>] 9
    = ((new_dev 1)\<lparr>entry := \<lparr>qbase = 1, total_q = 0xFFFFFFFF\<rparr>\<rparr>,
       [\<lparr>qbase = 0, total_q = 1\<rparr>, \<lparr>qbase = 0, total_q = 64\<rparr>], 7, None)"
  by (simp add: request_q_resource_def submit_to_free_list_def new_dev_def no_queues_def
      get_resource_node_def honours_def fragment_def take_node_def Let_def)

end
