(* ===== verification/Mbox_Props.thy ===== *)
theory Mbox_Props
  imports Mbox_Link Qdma_Queues
begin

text \<open>
  What the mailbox protocol guarantees. A message acts on the resource manager as one of its
  operations, so no sequence of messages gives a queue two owners (and one whose request wraps
  around does); it changes the contexts of the sender's own queue only (except for a completion
  context alone); a queue is cleared before it is written; a response answers its request; a
  received message names its true source and arrives word for word.
\<close>

section \<open>What a call does to the state\<close>

text \<open>
  \<open>runs P s s'\<close>: from \<open>s\<close> to \<open>s'\<close> the resource manager did not change and every call to the
  hardware satisfies \<open>P\<close>.
\<close>

definition runs :: "(hw_op \<Rightarrow> bool) \<Rightarrow> mb_state \<Rightarrow> mb_state \<Rightarrow> bool" where
  "runs P s s' \<longleftrightarrow> rmgr s' = rmgr s \<and> (\<exists>t. hwt s' = hwt s @ t \<and> list_all P t)"

named_theorems runs

lemma runs_refl [runs]: "runs P s s" by (simp add: runs_def)

lemma runs_trans: "runs P s s1 \<Longrightarrow> runs P s1 s2 \<Longrightarrow> runs P s s2"
  by (auto simp: runs_def)

lemma runs_mono: "runs P s s' \<Longrightarrow> (\<And>x. P x \<Longrightarrow> Q x) \<Longrightarrow> runs Q s s'"
  by (auto simp: runs_def list_all_iff)

lemma runs_rmgr: "runs P s s' \<Longrightarrow> rmgr s' = rmgr s" by (simp add: runs_def)

lemma hw_do_runs: "hw_do env x s = (rv, s') \<Longrightarrow> P x \<Longrightarrow> runs P s s'"
  by (auto simp: runs_def hw_do_def)

lemma hw_seq_runs: "hw_seq env xs s = (rv, s') \<Longrightarrow> list_all P xs \<Longrightarrow> runs P s s'"
proof (induction xs arbitrary: s)
  case (Cons x xs)
  obtain rv1 s1 where d: "hw_do env x s = (rv1, s1)" by (cases "hw_do env x s")
  with Cons.prems have "runs P s s1" by (auto intro: hw_do_runs)
  with Cons d show ?case by (auto split: if_splits intro: runs_trans)
qed (simp add: runs_refl)

lemma intr_ops_runs: "intr_ops env xs rv0 s = (rv, s') \<Longrightarrow> list_all P xs \<Longrightarrow> runs P s s'"
proof (induction xs arbitrary: s rv0)
  case (Cons x xs)
  obtain rv1 s1 where d: "hw_do env x s = (rv1, s1)" by (cases "hw_do env x s")
  with Cons.prems have "runs P s s1" by (auto intro: hw_do_runs)
  with Cons d show ?case by (auto intro: runs_trans)
qed (simp add: runs_refl)

lemma rd_seq_runs: "rd_seq env xs c s = (rv, c', s') \<Longrightarrow> list_all (P \<circ> fst) xs \<Longrightarrow> runs P s s'"
proof (induction xs arbitrary: s c)
  case (Cons x xs)
  obtain oper put where x: "x = (oper, put)" by (cases x)
  obtain rv1 s1 where d: "hw_do env oper s = (rv1, s1)" by (cases "hw_do env oper s")
  with Cons.prems x have "runs P s s1" by (auto intro: hw_do_runs)
  with Cons d x show ?case by (auto split: if_splits intro: runs_trans)
qed (simp add: runs_refl)

lemma pf_intr_rd_runs:
  "pf_intr_rd env rcv is rv0 resp s = (rv, resp', s') \<Longrightarrow> (\<And>i. P (IntrCtx HW_READ i None)) \<Longrightarrow> runs P s s'"
proof (induction "is" arbitrary: s resp rv0)
  case (Cons i is')
  obtain rv1 s1 where d: "hw_do env (IntrCtx HW_READ (m_ring_index rcv i) None) s = (rv1, s1)"
    by (cases "hw_do env (IntrCtx HW_READ (m_ring_index rcv i) None) s")
  with Cons.prems have "runs P s s1" by (auto intro: hw_do_runs)
  with Cons d show ?case by (auto intro: runs_trans)
qed (simp add: runs_refl)

definition is_csr :: "hw_op \<Rightarrow> bool" where "is_csr x \<longleftrightarrow> (\<exists>ct. x = CsrRd ct)"

lemma get_idx_runs: "get_idx env ct P err s = (rv, i, s') \<Longrightarrow> runs is_csr s s'"
  by (auto simp: get_idx_def is_csr_def split: prod.splits if_splits option.splits dest: hw_do_runs [where P = is_csr])

lemmas idx_defs = get_ring_idx_def get_buf_idx_def get_cntr_idx_def get_tmr_idx_def

lemma compose_sw_runs: "mbox_compose_sw_context env q s = (rv, c, s') \<Longrightarrow> runs is_csr s s'"
  by (auto simp: mbox_compose_sw_context_def idx_defs split: prod.splits if_splits dest: get_idx_runs)

lemma compose_prefetch_runs: "mbox_compose_prefetch_context env q s = (rv, c, s') \<Longrightarrow> runs is_csr s s'"
  by (auto simp: mbox_compose_prefetch_context_def idx_defs split: prod.splits if_splits dest: get_idx_runs)

lemma compose_cmpt_runs: "mbox_compose_cmpt_context env q s = (rv, c, s') \<Longrightarrow> runs is_csr s s'"
  by (auto simp: mbox_compose_cmpt_context_def idx_defs split: prod.splits if_splits
      dest!: get_idx_runs intro: runs_trans)

lemma compose_if_runs:
  "compose_if b f z s = (rv, c, s') \<Longrightarrow> (\<And>s rv c s'. f s = (rv, c, s') \<Longrightarrow> runs P s s') \<Longrightarrow> runs P s s'"
  by (auto simp: compose_if_def runs_refl split: if_splits)

definition calls :: "(hw_op \<Rightarrow> bool) \<Rightarrow> mb_state \<Rightarrow> mb_state \<Rightarrow> bool" where
  "calls P s s' \<longleftrightarrow> (\<exists>t. hwt s' = hwt s @ t \<and> list_all P t)"

lemma runs_calls: "runs P s s' \<Longrightarrow> calls P s s'"
  by (auto simp: runs_def calls_def)

lemma hw_do_calls: "hw_do env x s = (rv, s') \<Longrightarrow> P x \<Longrightarrow> calls P s s'"
  by (auto simp: calls_def hw_do_def)

lemma calls_set_rmgr [simp]: "calls P (s\<lparr>rmgr := r\<rparr>) s' = calls P s s'"
  "calls P s (s'\<lparr>rmgr := r\<rparr>) = calls P s s'"
  by (simp_all add: calls_def)

section \<open>Whose queues a message touches\<close>

text \<open>The queue whose context a call changes, and whether a function owns a queue.\<close>

fun changes_queue :: "hw_op \<Rightarrow> u16 option" where
  "changes_queue (SwCtx acc _ q _) = (if acc = HW_READ then None else Some q)"
| "changes_queue (HwCtx acc _ q) = (if acc = HW_READ then None else Some q)"
| "changes_queue (CreditCtx acc _ q) = (if acc = HW_READ then None else Some q)"
| "changes_queue (PfetchCtx acc q _) = (if acc = HW_READ then None else Some q)"
| "changes_queue (CmptCtx acc q _) = (if acc = HW_READ then None else Some q)"
| "changes_queue _ = None"

abbreviation owns :: "rm_state \<Rightarrow> u8 \<Rightarrow> u16 \<Rightarrow> u16 \<Rightarrow> bool" where
  "owns rm idx f qid \<equiv> dev_is_queue_in_range rm (ucast idx) f (ucast qid) = Q_IN_RANGE"

definition only_queue :: "bool \<Rightarrow> u16 \<Rightarrow> hw_op \<Rightarrow> bool" where
  "only_queue b qid x \<longleftrightarrow> (\<forall>q. changes_queue x = Some q \<longrightarrow> b \<and> q = qid)"

lemma only_queue_csr: "is_csr x \<Longrightarrow> only_queue b qid x"
  by (auto simp: is_csr_def only_queue_def)

lemma only_queue_none [simp]: "changes_queue x = None \<Longrightarrow> only_queue b qid x"
  by (simp add: only_queue_def)

lemma only_queue_cmpt [simp]: "only_queue True qid (CmptCtx acc qid c)"
  by (simp add: only_queue_def)

lemma queue_contexts_only: "list_all (only_queue True qid) (queue_contexts acc qid st c2h ct)"
  by (auto simp: queue_contexts_def only_queue_def split: if_splits)

lemma write_ops_only: "list_all (only_queue True (m_qid q)) (write_ops q sw pf cm)"
  by (auto simp: write_ops_def only_queue_def split: if_splits)

lemma only_queue_mono: "list_all (only_queue True qid) xs \<Longrightarrow> b \<Longrightarrow> list_all (only_queue b qid) xs"
  by (auto simp: list_all_iff only_queue_def)

lemma drop_queue_contexts_runs:
  assumes "drop_queue_contexts acc env idx f qid st c2h ct s = (rv, s')"
  shows "runs (only_queue (ct = CMPT_CTXT_ONLY \<or> owns (rmgr s) idx f qid) qid) s s'"
  using assms unfolding drop_queue_contexts_def
  by (auto simp: runs_refl simp del: hw_seq.simps split: if_splits sum.splits
      elim!: hw_seq_runs intro!: only_queue_mono [OF queue_contexts_only])

lemma write_cmpt_only_runs:
  assumes "write_cmpt_only env q s = (rv, s')" shows "runs (only_queue True (m_qid q)) s s'"
proof -
  obtain rv1 cm s1 where c: "mbox_compose_cmpt_context env q s = (rv1, cm, s1)"
    by (cases "mbox_compose_cmpt_context env q s")
  have "runs (only_queue True (m_qid q)) s s1"
    by (rule runs_mono [OF compose_cmpt_runs [OF c]]) (rule only_queue_csr)
  moreover have "runs (only_queue True (m_qid q)) s1 s'"
    using assms c by (auto simp: write_cmpt_only_def only_queue_def runs_refl simp del: hw_seq.simps
        split: if_splits elim!: hw_seq_runs)
  ultimately show ?thesis by (rule runs_trans)
qed

lemma write_queue_runs:
  assumes w: "write_queue env idx q s = (rv, s')"
    and own: "owns (rmgr s) idx (conf_func_id (m_conf q)) (m_qid q)"
  shows "runs (only_queue True (m_qid q)) s s'"
proof -
  let ?P = "only_queue True (m_qid q)"
  obtain rv1 sw s1 where c1: "mbox_compose_sw_context env q s = (rv1, sw, s1)"
    by (cases "mbox_compose_sw_context env q s")
  obtain rv2 pf s2 where c2: "compose_if (m_st q \<and> m_c2h q) (mbox_compose_prefetch_context env q) pfetch_zero s1
      = (rv2, pf, s2)" by (cases "compose_if (m_st q \<and> m_c2h q) (mbox_compose_prefetch_context env q) pfetch_zero s1")
  obtain rv3 cm s3 where c3: "compose_if (with_cmpt (m_cmpt_type q)) (mbox_compose_cmpt_context env q) cmpt_zero s2
      = (rv3, cm, s3)" by (cases "compose_if (with_cmpt (m_cmpt_type q)) (mbox_compose_cmpt_context env q) cmpt_zero s2")
  obtain rv4 s4 where c4: "mbox_clear_queue_contexts env idx (conf_func_id (m_conf q)) (m_qid q) (m_st q)
      (m_c2h q) (m_cmpt_type q) s3 = (rv4, s4)"
    by (cases "mbox_clear_queue_contexts env idx (conf_func_id (m_conf q)) (m_qid q) (m_st q) (m_c2h q) (m_cmpt_type q) s3")
  have csr: "runs is_csr s s1" "runs is_csr s1 s2" "runs is_csr s2 s3"
    by (rule compose_sw_runs [OF c1], rule compose_if_runs [OF c2], erule compose_prefetch_runs,
        rule compose_if_runs [OF c3], erule compose_cmpt_runs)
  have r: "runs ?P s s1" "runs ?P s1 s2" "runs ?P s2 s3"
    using csr by (auto elim: runs_mono intro: only_queue_csr)
  have r2: "runs ?P s s2" by (rule runs_trans [OF r(1,2)])
  have r3: "runs ?P s s3" by (rule runs_trans [OF r2 r(3)])
  have "rmgr s3 = rmgr s" using csr [THEN runs_rmgr] by simp
  then have r4: "runs ?P s3 s4"
    using drop_queue_contexts_runs [OF c4 [unfolded mbox_clear_queue_contexts_def]] own by simp
  have r5: "runs ?P s4 s5" if "hw_seq env (write_ops q sw pf cm) s4 = (rv5, s5)" for rv5 s5
    by (rule hw_seq_runs [OF that write_ops_only])
  show ?thesis
    using w c1 c2 c3 c4 r r2 r3 runs_trans [OF r3 r4] unfolding write_queue_def
    by (auto split: if_splits intro: runs_trans dest: r5)
qed

lemma write_queue_contexts_runs:
  assumes "mbox_write_queue_contexts env idx q s = (rv, s')"
  shows "runs (only_queue (owns (rmgr s) idx (conf_func_id (m_conf q)) (m_qid q)) (m_qid q)) s s'"
proof (cases "owns (rmgr s) idx (conf_func_id (m_conf q)) (m_qid q)")
  case True
  with assms show ?thesis
    by (auto simp: mbox_write_queue_contexts_def runs_refl split: sum.splits if_splits
        dest!: write_cmpt_only_runs write_queue_runs)
next
  case False
  with assms show ?thesis
    by (auto simp: mbox_write_queue_contexts_def runs_refl split: sum.splits)
qed

section \<open>What a message does\<close>

lemma if_Some_cases:
  assumes "(if b then Some x else y) = Some r"
  obtains "b" "x = r" | "\<not> b" "y = Some r"
  using assms by (cases b) auto

lemma keep_resp_eq [simp]: "keep_resp resp x = (rv, resp', s') \<longleftrightarrow> x = (rv, s') \<and> resp' = resp"
  by (cases x) (auto simp: keep_resp_def)

definition touch_ok :: "u8 \<Rightarrow> mbox_txrx \<Rightarrow> rm_state \<Rightarrow> hw_op \<Rightarrow> bool" where
  "touch_ok idx rcv rm x \<longleftrightarrow> (\<forall>q. changes_queue x = Some q \<longrightarrow> q = m_qid rcv \<and>
     m_op rcv \<in> {MBOX_OP_QCTXT_WRT, MBOX_OP_QCTXT_CLR, MBOX_OP_QCTXT_INV} \<and>
     (owns rm idx (m_src rcv) q \<or> m_op rcv \<noteq> MBOX_OP_QCTXT_WRT \<and> m_cmpt_type rcv = CMPT_CTXT_ONLY))"

lemma touch_ok_none [simp]: "changes_queue x = None \<Longrightarrow> touch_ok idx rcv rm x"
  by (simp add: touch_ok_def)

lemma touch_ok_csr: "is_csr x \<Longrightarrow> touch_ok idx rcv rm x"
  by (auto simp: is_csr_def touch_ok_def)

lemma pf_csr_runs:
  assumes "pf_csr env resp s = (rv, resp', s')" shows "runs is_csr s s'"
proof -
  have rd': "runs is_csr s s'" if "csr_read env b ct (rv, s) = (a, rv', s')" for b ct rv s a rv' s'
    using that by (auto simp: csr_read_def runs_refl is_csr_def split: if_splits elim!: hw_do_runs)
  show ?thesis using assms unfolding pf_csr_def Let_def
    by (auto split: prod.splits if_splits dest!: rd' intro: runs_trans)
qed

lemma pf_intr_drop_runs: "pf_intr_drop acc env rcv s = (rv, s') \<Longrightarrow> runs (\<lambda>x. changes_queue x = None) s s'"
  unfolding pf_intr_drop_def by (erule intr_ops_runs) (simp add: list_all_iff)

lemma pf_intr_wrt_runs: "pf_intr_wrt env rcv s = (rv, s') \<Longrightarrow> runs (\<lambda>x. changes_queue x = None) s s'"
  unfolding pf_intr_wrt_def by (erule intr_ops_runs) (auto simp: list_all_iff)

lemma pf_qctxt_rd_runs: "pf_qctxt_rd env rcv resp s = (rv, resp', s') \<Longrightarrow> runs (\<lambda>x. changes_queue x = None) s s'"
  unfolding pf_qctxt_rd_def mbox_read_queue_contexts_def
  by (auto split: prod.splits elim!: rd_seq_runs simp del: rd_seq.simps)

lemma pf_reg_list_read_runs:
  "pf_reg_list_read env rcv resp s = (rv, resp', s') \<Longrightarrow> runs (\<lambda>x. changes_queue x = None) s s'"
  unfolding pf_reg_list_read_def by (auto simp: Let_def split: prod.splits elim!: hw_do_runs)

lemma pf_fmap_runs: "pf_fmap env rcv s = (rv, s') \<Longrightarrow> runs (\<lambda>x. changes_queue x = None) s s'"
  unfolding pf_fmap_def by (erule hw_do_runs) simp

lemma pf_intr_rd_none:
  "pf_intr_rd env rcv is rv0 resp s = (rv, resp', s') \<Longrightarrow> runs (\<lambda>x. changes_queue x = None) s s'"
  by (erule pf_intr_rd_runs) simp

lemmas harmless = pf_intr_drop_runs pf_intr_wrt_runs pf_qctxt_rd_runs pf_reg_list_read_runs pf_fmap_runs
  pf_intr_rd_none

text \<open>The steps of the resource manager that a message asks for.\<close>

definition rm_ops :: "u8 \<Rightarrow> mbox_txrx \<Rightarrow> rm_state \<Rightarrow> rm_op list" where
  "rm_ops idx rcv rm =
     (let oper = m_op rcv; i = ucast idx; f = m_src rcv
      in if oper = MBOX_OP_VF_BYE \<or> oper = MBOX_OP_PF_RESET_VF_BYE then [DevDestroy i f]
         else if oper = MBOX_OP_HELLO then (case dev_qinfo_get rm i f of Inl _ \<Rightarrow> [DevCreate i f] | Inr _ \<Rightarrow> [])
         else if oper = MBOX_OP_QREQ then [DevUpdate i f (m_qmax rcv) (m_qbase rcv)]
         else if oper = MBOX_OP_QNOTIFY_ADD \<and> owns rm idx f (m_qid rcv) then [QueueInc i f (m_q_type rcv)]
         else if oper = MBOX_OP_QNOTIFY_DEL \<and> owns rm idx f (m_qid rcv) then [QueueDec i f (m_q_type rcv)]
         else [])"

lemma pf_bye_rm: "pf_bye env idx rcv resp s = (rv, resp', s') \<Longrightarrow>
    rmgr s' = rm_exec (rmgr s) (DevDestroy (ucast idx) (m_src rcv)) \<and> calls (\<lambda>x. changes_queue x = None) s s'"
  by (auto simp: pf_bye_def hw_do_def calls_def)

lemma pf_hello_rm: "pf_hello env idx rcv resp s = (rv, resp', s') \<Longrightarrow>
    rmgr s' = foldl rm_exec (rmgr s) (case dev_qinfo_get (rmgr s) (ucast idx) (m_src rcv) of
      Inl _ \<Rightarrow> [DevCreate (ucast idx) (m_src rcv)] | Inr _ \<Rightarrow> []) \<and> calls (\<lambda>x. changes_queue x = None) s s'"
  by (auto simp: pf_hello_def hw_do_def calls_def split: sum.splits prod.splits)

lemma pf_qreq_rm: "pf_qreq env idx rcv resp s = (rv, resp', s') \<Longrightarrow>
    rmgr s' = rm_exec (rmgr s) (DevUpdate (ucast idx) (m_src rcv) (m_qmax rcv) (m_qbase rcv))
    \<and> calls (\<lambda>x. changes_queue x = None) s s'"
  by (auto simp: pf_qreq_def hw_do_def calls_def Let_def split: sum.splits prod.splits)

lemma pf_qnotify_add_rm: "pf_qnotify_add idx rcv s = (rv, s') \<Longrightarrow>
    rmgr s' = foldl rm_exec (rmgr s) (if owns (rmgr s) idx (m_src rcv) (m_qid rcv)
      then [QueueInc (ucast idx) (m_src rcv) (m_q_type rcv)] else []) \<and> hwt s' = hwt s"
  by (auto simp: pf_qnotify_add_def split: if_splits prod.splits)

lemma pf_qnotify_del_rm: "pf_qnotify_del idx rcv s = (rv, s') \<Longrightarrow>
    rmgr s' = foldl rm_exec (rmgr s) (if owns (rmgr s) idx (m_src rcv) (m_qid rcv)
      then [QueueDec (ucast idx) (m_src rcv) (m_q_type rcv)] else []) \<and> hwt s' = hwt s"
  by (auto simp: pf_qnotify_del_def split: if_splits prod.splits)

lemma runs_touch: "runs (\<lambda>x. changes_queue x = None) s s' \<Longrightarrow> runs (touch_ok idx rcv rm) s s'"
  by (erule runs_mono) simp

lemma calls_touch: "calls (\<lambda>x. changes_queue x = None) s s' \<Longrightarrow> calls (touch_ok idx rcv rm) s s'"
  by (auto simp: calls_def list_all_iff)

lemma csr_touch: "runs is_csr s s' \<Longrightarrow> runs (touch_ok idx rcv rm) s s'"
  by (erule runs_mono) (rule touch_ok_csr)

definition effect :: "u8 \<Rightarrow> mbox_txrx \<Rightarrow> mb_state \<Rightarrow> mb_state \<Rightarrow> bool" where
  "effect idx rcv s s' \<longleftrightarrow> rmgr s' = foldl rm_exec (rmgr s) (rm_ops idx rcv (rmgr s))
     \<and> calls (touch_ok idx rcv (rmgr s)) s s'"

lemma effectI_runs:
  "runs (touch_ok idx rcv (rmgr s)) s s' \<Longrightarrow> rm_ops idx rcv (rmgr s) = [] \<Longrightarrow> effect idx rcv s s'"
  by (simp add: effect_def runs_rmgr runs_calls)

lemma pf_request_effect:
  assumes "pf_request env idx rcv resp s = Some (rv, resp', s')"
  shows "effect idx rcv s s'"
  using assms unfolding pf_request_def Let_def
proof (elim if_Some_cases)
  assume "m_op rcv = MBOX_OP_VF_BYE \<or> m_op rcv = MBOX_OP_PF_RESET_VF_BYE"
    and "pf_bye env idx rcv resp s = (rv, resp', s')"
  then show ?thesis using pf_bye_rm [of env idx rcv resp s rv resp' s']
    by (auto simp: effect_def rm_ops_def calls_touch)
next
  assume "m_op rcv = MBOX_OP_HELLO" "pf_hello env idx rcv resp s = (rv, resp', s')"
  then show ?thesis using pf_hello_rm [of env idx rcv resp s rv resp' s']
    by (auto simp: effect_def rm_ops_def calls_touch mbox_ops Let_def)
next
  assume "m_op rcv = MBOX_OP_QREQ" "pf_qreq env idx rcv resp s = (rv, resp', s')"
  then show ?thesis using pf_qreq_rm [of env idx rcv resp s rv resp' s']
    by (auto simp: effect_def rm_ops_def calls_touch mbox_ops)
next
  assume "m_op rcv = MBOX_OP_QNOTIFY_ADD"
    "keep_resp resp (pf_qnotify_add idx rcv s) = (rv, resp', s')"
  then show ?thesis using pf_qnotify_add_rm [of idx rcv s rv s']
    by (auto simp: effect_def rm_ops_def calls_def mbox_ops)
next
  assume "m_op rcv = MBOX_OP_QNOTIFY_DEL"
    "keep_resp resp (pf_qnotify_del idx rcv s) = (rv, resp', s')"
  then show ?thesis using pf_qnotify_del_rm [of idx rcv s rv s']
    by (auto simp: effect_def rm_ops_def calls_def mbox_ops)
next
  assume o: "m_op rcv = MBOX_OP_QCTXT_INV"
    "keep_resp resp (mbox_invalidate_queue_contexts env idx (m_src rcv) (m_qid rcv) (m_st rcv)
       (m_c2h rcv) (m_cmpt_type rcv) s) = (rv, resp', s')"
  then have "runs (only_queue (m_cmpt_type rcv = CMPT_CTXT_ONLY \<or> owns (rmgr s) idx (m_src rcv) (m_qid rcv))
      (m_qid rcv)) s s'"
    by (auto simp: mbox_invalidate_queue_contexts_def dest!: drop_queue_contexts_runs)
  then show ?thesis using o(1)
    by (intro effectI_runs) (auto elim!: runs_mono simp: rm_ops_def only_queue_def touch_ok_def mbox_ops)
next
  assume o: "m_op rcv = MBOX_OP_QCTXT_CLR"
    "keep_resp resp (mbox_clear_queue_contexts env idx (m_src rcv) (m_qid rcv) (m_st rcv)
       (m_c2h rcv) (m_cmpt_type rcv) s) = (rv, resp', s')"
  then have "runs (only_queue (m_cmpt_type rcv = CMPT_CTXT_ONLY \<or> owns (rmgr s) idx (m_src rcv) (m_qid rcv))
      (m_qid rcv)) s s'"
    by (auto simp: mbox_clear_queue_contexts_def dest!: drop_queue_contexts_runs)
  then show ?thesis using o(1)
    by (intro effectI_runs) (auto elim!: runs_mono simp: rm_ops_def only_queue_def touch_ok_def mbox_ops)
next
  assume o: "m_op rcv = MBOX_OP_QCTXT_WRT" "keep_resp resp (pf_qctxt_wrt env idx rcv s) = (rv, resp', s')"
  then have "runs (only_queue (owns (rmgr s) idx (m_src rcv) (m_qid rcv)) (m_qid rcv)) s s'"
    using write_queue_contexts_runs [of env idx "rcv\<lparr>m_conf := (m_conf rcv)\<lparr>conf_func_id := m_src rcv\<rparr>\<rparr>" s rv s']
    by (simp add: pf_qctxt_wrt_def)
  then show ?thesis using o(1)
    by (intro effectI_runs) (auto elim!: runs_mono simp: rm_ops_def only_queue_def touch_ok_def mbox_ops)
next
  assume "m_op rcv = MBOX_OP_GET_QACTIVE_CNT"
    "(case pf_get_qactive_cnt idx rcv resp s of (rv, resp1) \<Rightarrow> (rv, resp1, s)) = (rv, resp', s')"
  then show ?thesis
    by (intro effectI_runs) (auto simp: rm_ops_def mbox_ops runs_refl split: prod.splits)
qed (auto intro!: effectI_runs simp: rm_ops_def mbox_ops
      dest!: harmless [THEN runs_touch] pf_csr_runs [THEN csr_touch])

lemma unat_u16 [simp]: "unat (ucast (q :: u16) :: u32) = unat q"
  using unsigned_less [of q, where 'a = nat] by (simp add: unsigned_ucast_eq unsigned_take_bit_eq take_bit_nat_eq_self)

lemma if_None_cases:
  "(if b then Some x else y) = None \<Longrightarrow> (\<not> b \<Longrightarrow> y = None \<Longrightarrow> R) \<Longrightarrow> R"
  by (cases b) auto

lemma pf_request_None:
  "pf_request env idx rcv resp s = None \<Longrightarrow> rm_ops idx rcv rm = []"
  unfolding pf_request_def Let_def
  by (elim if_None_cases) (auto simp: rm_ops_def Let_def split: prod.splits)

abbreviation pf_state :: "mb_env \<Rightarrow> u8 \<Rightarrow> u16 \<Rightarrow> mbox_txrx \<Rightarrow> mbox_txrx \<Rightarrow> mb_state \<Rightarrow> mb_state" where
  "pf_state env idx f rcv resp s \<equiv> snd (snd (qdma_mbox_pf_rcv_msg_handler env idx f rcv resp s))"

abbreviation pf_resp :: "mb_env \<Rightarrow> u8 \<Rightarrow> u16 \<Rightarrow> mbox_txrx \<Rightarrow> mbox_txrx \<Rightarrow> mb_state \<Rightarrow> mbox_txrx" where
  "pf_resp env idx f rcv resp s \<equiv> fst (snd (qdma_mbox_pf_rcv_msg_handler env idx f rcv resp s))"

lemma handler_effect: "effect idx rcv s (pf_state env idx f rcv resp s)"
proof (cases "pf_request env idx rcv resp s")
  case None
  then have "rm_ops idx rcv (rmgr s) = []" by (rule pf_request_None)
  with None show ?thesis
    by (auto simp: qdma_mbox_pf_rcv_msg_handler_def Let_def intro!: effectI_runs runs_refl)
next
  case (Some r)
  obtain rv resp' s' where r: "r = (rv, resp', s')" by (cases r)
  from pf_request_effect [OF Some [unfolded r]] Some r show ?thesis
    by (simp add: qdma_mbox_pf_rcv_msg_handler_def Let_def respond_def)
qed

lemma handler_request:
  assumes "pf_request env idx rcv resp s = Some (rv, r, s1)" "m_op rcv \<noteq> MBOX_OP_FMAP \<or> 0 \<le> rv"
  shows "qdma_mbox_pf_rcv_msg_handler env idx f rcv resp s = respond f (pf_ret (m_op rcv)) rcv (rv, r, s1)"
  using assms by (auto simp: qdma_mbox_pf_rcv_msg_handler_def Let_def)

section \<open>Messages and the resource manager\<close>

text \<open>
  Claim C17: every message that the PF handles acts on the resource manager as at most one of its
  operations, the one the message stands for with the sender as function, whatever the hardware
  answers; a notification about a queue that the sender does not own does nothing.
\<close>

theorem pf_message_is_one_rm_step:
  "rmgr (pf_state env idx f rcv resp s) = foldl rm_exec (rmgr s) (rm_ops idx rcv (rmgr s))
    \<and> length (rm_ops idx rcv (rmgr s)) \<le> 1"
  using handler_effect [of idx rcv s env f resp]
  by (auto simp: effect_def rm_ops_def Let_def split: sum.splits)

text \<open>The messages of a session, each answered in a fresh buffer.\<close>

fun pf_session :: "mb_env \<Rightarrow> u8 \<Rightarrow> u16 \<Rightarrow> mbox_txrx list \<Rightarrow> mb_state \<Rightarrow> mb_state" where
  "pf_session env idx f [] s = s"
| "pf_session env idx f (rcv # msgs) s = pf_session env idx f msgs (pf_state env idx f rcv msg_zero s)"

definition sane :: "mbox_txrx \<Rightarrow> bool" where
  "sane rcv \<longleftrightarrow> (m_op rcv = MBOX_OP_QREQ \<longrightarrow> no_wrap (m_qmax rcv) (m_qbase rcv))"

lemma pf_state_reach:
  assumes "rm_reach False (rmgr s)" "sane rcv" shows "rm_reach False (rmgr (pf_state env idx f rcv resp s))"
proof -
  let ?ops = "rm_ops idx rcv (rmgr s)"
  have "list_all (op_ok False (rmgr s)) ?ops" and "length ?ops \<le> 1"
    using assms(2) by (auto simp: rm_ops_def Let_def sane_def split: sum.splits)
  moreover have "rmgr (pf_state env idx f rcv resp s) = foldl rm_exec (rmgr s) ?ops"
    using handler_effect [of idx rcv s env f resp] by (simp add: effect_def)
  ultimately show ?thesis using assms(1) by (cases ?ops) (auto intro: rm_step)
qed

lemma pf_session_reach:
  "rm_reach False (rmgr s) \<Longrightarrow> list_all sane msgs \<Longrightarrow> rm_reach False (rmgr (pf_session env idx f msgs s))"
  by (induction msgs arbitrary: s) (auto intro: pf_state_reach)

text \<open>
  Claim C8: whatever the VFs send and the hardware answers, as long as no request for queues
  wraps around, no queue ever has two owners.
\<close>

theorem mailbox_keeps_queues_apart:
  assumes "rm_reach False (rmgr s)" "list_all sane msgs" "m \<in> set (masters (rmgr (pf_session env idx f msgs s)))"
  shows "owners_apart (dev_list m) \<and> dev_cells (dev_list m) \<inter> all_cells (free_list m) = {}
    \<and> (\<forall>d \<in> set (dev_list m). active_ok d)"
  using rm_reach_ok [OF pf_session_reach [OF assms(1,2)]] assms(3) by (auto simp: rm_ok_def master_ok_def)

text \<open>A hardware that accepts every call, with ring sizes 64, 128, and so on.\<close>

definition demo_env :: mb_env where
  "demo_env = \<lparr>hw_rv = \<lambda>_ _. 0, csr_of = \<lambda>_ _ i. 64 * of_nat (Suc i) + 1, sw_of = \<lambda>_. sw_zero,
     hw_of = \<lambda>_. hw_zero, credit_of = \<lambda>_. 0, pfetch_of = \<lambda>_. pfetch_zero, cmpt_of = \<lambda>_. cmpt_zero,
     intr_of = \<lambda>_. intr_zero, regs_of = \<lambda>_. (0, []), attrs_of = attrs_zero\<rparr>"

definition demo_st :: mb_state where "demo_st = \<lparr>rmgr = rm1, hwt = []\<rparr>"

lemma handler_qreq: "m_op rcv = MBOX_OP_QREQ \<Longrightarrow>
    qdma_mbox_pf_rcv_msg_handler env idx f rcv resp s = respond f 0 rcv (pf_qreq env idx rcv resp s)"
  by (simp add: qdma_mbox_pf_rcv_msg_handler_def pf_request_def pf_ret_def mbox_ops split: prod.splits)

lemma qreq_op [simp]: "m_op (compose_vf_qreq f qmax qb) = MBOX_OP_QREQ" "m_src (compose_vf_qreq f qmax qb) = f"
  "m_qmax (compose_vf_qreq f qmax qb) = ucast qmax" "m_qbase (compose_vf_qreq f qmax qb) = qb"
  by (simp_all add: compose_vf_qreq_def request_def)

lemmas rm_eval = dev_update_def get_master_resource_entry_def get_dev_entry_def Let_def new_dev_def
  no_queues_def request_q_resource_def submit_to_free_list_def get_resource_node_def honours_def
  fragment_def take_node_def dev_qinfo_get_def find_dev_def dev_is_queue_in_range_def

lemma demo_session: "masters (rmgr (pf_session demo_env 0 0 [compose_vf_qreq 1 8 16, compose_vf_qreq 2 8 16] demo_st))
  = [\<lparr>dma_device_index = 0, pci_bus_start = 1, pci_bus_end = 2, master_total_q = 64, master_qbase = 0,
      dev_list = [(new_dev 1)\<lparr>entry := \<lparr>qbase = 16, total_q = 8\<rparr>\<rparr>, (new_dev 2)\<lparr>entry := \<lparr>qbase = 0, total_q = 8\<rparr>\<rparr>],
      free_list = [\<lparr>qbase = 8, total_q = 8\<rparr>, \<lparr>qbase = 24, total_q = 40\<rparr>], active_qcnt = 0\<rparr>]"
  by (simp add: demo_st_def demo_env_def handler_qreq respond_def pf_qreq_def rm1_eq hw_do_def rm_eval)

theorem mailbox_keeps_queues_apart_witness: "{16..<24::nat} \<inter> {0..<8} = {}"
proof -
  have r: "rm_reach False (rmgr demo_st)" by (simp add: demo_st_def rm1_reach)
  have "list_all sane [compose_vf_qreq 1 8 16, compose_vf_qreq 2 8 16]"
    by (simp add: sane_def no_wrap_def)
  from mailbox_keeps_queues_apart [OF r this, of _ demo_env 0 0, unfolded demo_session]
  show ?thesis by (simp add: owners_apart_def less_Suc_eq lo_def hi_def)
qed


section \<open>Messages and queue contexts\<close>

text \<open>
  Claim C9: a message changes contexts of no queue but the one it names, and only when its
  sender owns that queue, except for clearing or invalidating a completion context alone.
\<close>

theorem contexts_change_for_owner_only:
  assumes "rm_reach False (rmgr s)" "x \<in> set (drop (length (hwt s)) (hwt (pf_state env idx f rcv resp s)))"
    and "changes_queue x = Some q" "m_op rcv = MBOX_OP_QCTXT_WRT \<or> m_cmpt_type rcv \<noteq> CMPT_CTXT_ONLY"
  shows "q = m_qid rcv \<and> (\<exists>k j. find_dev (rmgr s) (ucast idx) (m_src rcv) = Inr (k, j)
    \<and> unat q \<in> cells (entry (the_dev (rmgr s) k j)))"
proof -
  have "touch_ok idx rcv (rmgr s) x"
    using handler_effect [of idx rcv s env f resp] assms(2) by (auto simp: effect_def calls_def list_all_iff)
  with assms(3,4) have q: "q = m_qid rcv" and o: "owns (rmgr s) idx (m_src rcv) q"
    by (auto simp: touch_ok_def)
  then obtain k j where d: "find_dev (rmgr s) (ucast idx) (m_src rcv) = Inr (k, j)"
    by (auto simp: dev_is_queue_in_range_def split: sum.splits)
  from o in_range_iff_cells [OF assms(1) d, of "ucast q"] have "unat q \<in> cells (entry (the_dev (rmgr s) k j))"
    by (simp add: unat_u16)
  with q d show ?thesis by blast
qed

text \<open>
  Clearing or invalidating a completion context alone is not checked at all: the PF
  does it for any sender and any queue, owned by whoever it may be.
\<close>

theorem completion_context_unprotected:
  "hwt (pf_state env idx pf (compose_vf_qctxt_clear f qid st c2h CMPT_CTXT_ONLY) resp s)
     = hwt s @ [CmptCtx HW_CLEAR qid None]
   \<and> hwt (pf_state env idx pf (compose_vf_qctxt_invalidate f qid st c2h CMPT_CTXT_ONLY) resp s)
     = hwt s @ [CmptCtx HW_INVALIDATE qid None]"
  by (simp add: qdma_mbox_pf_rcv_msg_handler_def pf_request_def compose_vf_qctxt_clear_def
      compose_vf_qctxt_invalidate_def qctxt_request_def request_def mbox_ops keep_resp_def respond_def
      mbox_clear_queue_contexts_def mbox_invalidate_queue_contexts_def drop_queue_contexts_def hw_do_def)

text \<open>
  A VF that asks to set up a queue it does not own is told that it succeeded, and
  nothing was done.
\<close>

theorem foreign_queue_reported_as_success:
  assumes "find_dev (rmgr s) (ucast idx) f = Inr (k, j)" "\<not> owns (rmgr s) idx f qid"
  shows "pf_state env idx pf (compose_vf_qctxt_write f qid st c2h ct conf) resp s = s
    \<and> vf_response_status (pf_resp env idx pf (compose_vf_qctxt_write f qid st c2h ct conf) resp s) = 0"
  using assms
  by (simp add: qdma_mbox_pf_rcv_msg_handler_def pf_request_def compose_vf_qctxt_write_def
      qctxt_request_def request_def mbox_ops keep_resp_def respond_def vf_response_status_def
      pf_qctxt_wrt_def mbox_write_queue_contexts_def dev_qinfo_get_def)

theorem foreign_queue_reported_as_success_witness:
  "pf_state demo_env 0 0 (compose_vf_qctxt_write 2 17 False False CMPT_CTXT_NONE conf_zero) msg_zero
     \<lparr>rmgr = rm2, hwt = []\<rparr> = \<lparr>rmgr = rm2, hwt = []\<rparr>"
  using foreign_queue_reported_as_success [of "\<lparr>rmgr = rm2, hwt = []\<rparr>" 0 2 0 1 17 demo_env 0 False False
      CMPT_CTXT_NONE conf_zero msg_zero]
  by (simp add: rm2_eq rm_eval)

section \<open>Programming a queue\<close>

lemma hw_seq_ok: "hw_seq env xs s = (rv, s') \<Longrightarrow> \<not> rv < 0 \<Longrightarrow> rv = 0 \<and> s' = s\<lparr>hwt := hwt s @ xs\<rparr>"
proof (induction xs arbitrary: s)
  case (Cons x xs)
  then have "hw_seq env xs (s\<lparr>hwt := hwt s @ [x]\<rparr>) = (rv, s')" by (auto simp: hw_do_def split: if_splits)
  from Cons.IH [OF this Cons.prems(2)] show ?case by simp
qed simp

lemma get_idx_ok:
  assumes "get_idx env ct P err s = (rv, i, s')" "\<not> rv < 0" "0 < err" "\<forall>t x. hw_rv env t x \<le> 0"
  shows "rv = 0 \<and> i < QDMA_GLOBAL_CSR_ARRAY_SZ \<and> P (csr_of env (hwt s) ct i)"
proof -
  have "hw_rv env (hwt s) (CsrRd ct) \<le> 0" using assms(4) by blast
  with assms(1-3) have "rv = 0" "find_index P (map (csr_of env (hwt s) ct) [0..<QDMA_GLOBAL_CSR_ARRAY_SZ]) = Some i"
    by (auto simp: get_idx_def hw_do_def split: if_splits option.splits)
  moreover from find_index_Some [OF this(2)] have "i < QDMA_GLOBAL_CSR_ARRAY_SZ" by simp
  ultimately show ?thesis using find_index_Some [of P _ i] by fastforce
qed

lemma get_idx_reads: "get_idx env ct P err s = (rv, i, s') \<Longrightarrow> s' = s\<lparr>hwt := hwt s @ [CsrRd ct]\<rparr>"
  by (auto simp: get_idx_def hw_do_def split: if_splits option.splits)

lemma compose_sw_ok:
  assumes "mbox_compose_sw_context env q s = (rv, sw, s')" "\<not> rv < 0" "\<forall>t x. hw_rv env t x \<le> 0"
  shows "\<exists>i < 16. csr_of env (hwt s) CSR_RING_SZ i = ucast (conf_ringsz (m_conf q)) + 1 \<and> sw = sw_of_conf q i
    \<and> s' = s\<lparr>hwt := hwt s @ [CsrRd CSR_RING_SZ]\<rparr>"
proof -
  obtain rv0 i where i: "get_ring_idx env (conf_ringsz (m_conf q)) s = (rv0, i, s')" "sw = sw_of_conf q i" "\<not> rv0 < 0"
    using assms(1,2) by (auto simp: mbox_compose_sw_context_def split: prod.splits if_splits)
  from get_idx_ok [OF i(1) [unfolded get_ring_idx_def] i(3) _ assms(3)] get_idx_reads [OF i(1) [unfolded get_ring_idx_def]]
  show ?thesis using i(2) by (auto simp: QDMA_GLOBAL_CSR_ARRAY_SZ_def)
qed

lemma compose_prefetch_ok:
  assumes "mbox_compose_prefetch_context env q s = (rv, pf, s')" "\<not> rv < 0" "\<forall>t x. hw_rv env t x \<le> 0"
  shows "\<exists>i < 16. csr_of env (hwt s) CSR_BUF_SZ i = ucast (conf_bufsz (m_conf q))
    \<and> pf = \<lparr>pf_bypass = conf_en_bypass_prefetch (m_conf q), pf_bufsz_idx = of_nat i, pf_pfch_en = conf_pfch_en (m_conf q), pf_valid = 1\<rparr>
    \<and> s' = s\<lparr>hwt := hwt s @ [CsrRd CSR_BUF_SZ]\<rparr>"
proof -
  obtain rv0 i where i: "get_buf_idx env (conf_bufsz (m_conf q)) s = (rv0, i, s')" "\<not> rv0 < 0"
      "pf = \<lparr>pf_bypass = conf_en_bypass_prefetch (m_conf q), pf_bufsz_idx = of_nat i, pf_pfch_en = conf_pfch_en (m_conf q), pf_valid = 1\<rparr>"
    using assms(1,2) by (auto simp: mbox_compose_prefetch_context_def split: prod.splits if_splits)
  from get_idx_ok [OF i(1) [unfolded get_buf_idx_def] i(2) _ assms(3)] get_idx_reads [OF i(1) [unfolded get_buf_idx_def]]
  show ?thesis using i(3) by (auto simp: QDMA_GLOBAL_CSR_ARRAY_SZ_def)
qed

lemma compose_cmpt_ok:
  assumes "mbox_compose_cmpt_context env q s = (rv, cm, s')" "\<not> rv < 0" "\<forall>t x. hw_rv env t x \<le> 0"
  shows "\<exists>c < 16. \<exists>t < 16. \<exists>i < 16. csr_of env (hwt s) CSR_CNT_TH c = ucast (conf_cnt_thres (m_conf q))
    \<and> csr_of env (hwt s @ [CsrRd CSR_CNT_TH]) CSR_TIMER_CNT t = ucast (conf_timer_thres (m_conf q))
    \<and> csr_of env (hwt s @ [CsrRd CSR_CNT_TH, CsrRd CSR_TIMER_CNT]) CSR_RING_SZ i = ucast (conf_cmpt_ringsz (m_conf q)) + 1
    \<and> cm = cmpt_of_conf q c t i
    \<and> s' = s\<lparr>hwt := hwt s @ [CsrRd CSR_CNT_TH, CsrRd CSR_TIMER_CNT, CsrRd CSR_RING_SZ]\<rparr>"
proof -
  obtain rc c s1 rt t s2 rr i where i: "get_cntr_idx env (conf_cnt_thres (m_conf q)) s = (rc, c, s1)" "\<not> rc < 0"
      "get_tmr_idx env (conf_timer_thres (m_conf q)) s1 = (rt, t, s2)" "\<not> rt < 0"
      "get_ring_idx env (conf_cmpt_ringsz (m_conf q)) s2 = (rr, i, s')" "\<not> rr < 0" "cm = cmpt_of_conf q c t i"
    using assms(1,2) by (auto simp: mbox_compose_cmpt_context_def split: prod.splits if_splits)
  note d = get_cntr_idx_def get_tmr_idx_def get_ring_idx_def
  note r = get_idx_reads [OF i(1) [unfolded d]] get_idx_reads [OF i(3) [unfolded d]] get_idx_reads [OF i(5) [unfolded d]]
  from get_idx_ok [OF i(1) [unfolded d] i(2) _ assms(3)] get_idx_ok [OF i(3) [unfolded d] i(4) _ assms(3)]
    get_idx_ok [OF i(5) [unfolded d] i(6) _ assms(3)] r
  show ?thesis using i(7) by (auto simp: QDMA_GLOBAL_CSR_ARRAY_SZ_def)
qed

text \<open>
  Claim C20: when the PF reports that it has set up a queue of its owner, it has done exactly this, in
  this order: read the global tables of sizes; cleared the software, the hardware and the credit context of the queue, and the prefetch
  and the completion context where the kind of queue has one; and written the software, the prefetch and the completion
  context. Their fields are those of the request, the ring, buffer, counter and timer
  sizes as the index at which the global table holds the size that was asked for (ring sizes plus one).
\<close>

theorem queue_setup_order:
  fixes q :: mbox_txrx
  defines "c \<equiv> m_conf q" and "c2h \<equiv> m_c2h q" and "qid \<equiv> m_qid q" and "st_c2h \<equiv> m_st q \<and> m_c2h q"
    and "compl \<equiv> m_cmpt_type q = CMPT_WITH_MM \<or> m_cmpt_type q = CMPT_WITH_ST"
  assumes "mbox_write_queue_contexts env idx q s = (0, s')"
    and "owns (rmgr s) idx (conf_func_id (m_conf q)) (m_qid q)" "m_cmpt_type q \<noteq> CMPT_CTXT_ONLY"
    and ret: "\<forall>t x. hw_rv env t x \<le> 0"
  shows "\<exists>i buf k u j t1 t2. \<exists>sw pf cm. hwt s' = hwt s
      @ [CsrRd CSR_RING_SZ] @ (if st_c2h then [CsrRd CSR_BUF_SZ] else [])
      @ (if compl then [CsrRd CSR_CNT_TH, CsrRd CSR_TIMER_CNT, CsrRd CSR_RING_SZ] else [])
      @ [SwCtx HW_CLEAR c2h qid None, HwCtx HW_CLEAR c2h qid, CreditCtx HW_CLEAR c2h qid]
      @ (if st_c2h then [PfetchCtx HW_CLEAR qid None] else []) @ (if compl then [CmptCtx HW_CLEAR qid None] else [])
      @ [SwCtx HW_WRITE c2h qid (Some sw)]
      @ (if st_c2h then [PfetchCtx HW_WRITE qid (Some pf)] else []) @ (if compl then [CmptCtx HW_WRITE qid (Some cm)] else [])
    \<and> rmgr s' = rmgr s
    \<and> i < 16 \<and> csr_of env (hwt s) CSR_RING_SZ i = ucast (conf_ringsz c) + 1
    \<and> sw = \<lparr>sw_ring_bs_addr = conf_ring_bs_addr c, sw_vec = conf_intr_id c, sw_irq_arm = (if st_c2h then 0 else conf_irq_arm c),
        sw_fnc_id = ucast (conf_func_id c), sw_qen = 1, sw_frcd_en = conf_forced_en c, sw_wbi_chk = (if st_c2h then 0 else conf_wbi_chk c),
        sw_wbi_intvl_en = conf_wbi_intvl_en c, sw_rngsz_idx = of_nat i, sw_desc_sz = conf_desc_sz c, sw_bypass = conf_en_bypass c,
        sw_mm_chn = 0, sw_wbk_en = (if st_c2h then 0 else conf_wbk_en c), sw_irq_en = (if st_c2h then 0 else conf_irq_en c),
        sw_is_mm = (if m_st q then 0xFE else 0xFF), sw_intr_aggr = conf_intr_aggr c\<rparr>
    \<and> (st_c2h \<longrightarrow> buf < 16 \<and> csr_of env (hwt s @ [CsrRd CSR_RING_SZ]) CSR_BUF_SZ buf = ucast (conf_bufsz c)
        \<and> pf = \<lparr>pf_bypass = conf_en_bypass_prefetch c, pf_bufsz_idx = of_nat buf, pf_pfch_en = conf_pfch_en c, pf_valid = 1\<rparr>)
    \<and> (compl \<longrightarrow> k < 16 \<and> u < 16 \<and> j < 16 \<and> t1 = hwt s @ [CsrRd CSR_RING_SZ] @ (if st_c2h then [CsrRd CSR_BUF_SZ] else [])
        \<and> t2 = t1 @ [CsrRd CSR_CNT_TH] \<and> csr_of env t1 CSR_CNT_TH k = ucast (conf_cnt_thres c)
        \<and> csr_of env t2 CSR_TIMER_CNT u = ucast (conf_timer_thres c)
        \<and> csr_of env (t2 @ [CsrRd CSR_TIMER_CNT]) CSR_RING_SZ j = ucast (conf_cmpt_ringsz c) + 1
        \<and> cm = \<lparr>cm_bs_addr = conf_cmpt_ring_bs_addr c, cm_vec = conf_intr_id c, cm_en_stat_desc = conf_cmpl_stat_en c,
            cm_en_int = conf_cmpt_int_en c, cm_trig_mode = conf_triggermode c, cm_fnc_id = ucast (conf_func_id c),
            cm_counter_idx = of_nat k, cm_timer_idx = of_nat u, cm_color = 1, cm_ringsz_idx = of_nat j,
            cm_desc_sz = conf_cmpt_desc_sz c, cm_valid = 1, cm_ovf_chk_dis = conf_dis_overflow_check c,
            cm_int_aggr = conf_intr_aggr c\<rparr>)"
proof -
  note own = assms(7) and ct = assms(8)
  from assms(6-8) obtain e where w: "write_queue env idx q s = (0, s')"
    and qi: "dev_qinfo_get (rmgr s) (ucast idx) (conf_func_id (m_conf q)) = Inr e"
    by (cases "dev_qinfo_get (rmgr s) (ucast idx) (conf_func_id (m_conf q))")
      (auto simp: mbox_write_queue_contexts_def dev_qinfo_get_def dev_is_queue_in_range_def split: sum.splits)
  obtain rv1 sw s1 where c1: "mbox_compose_sw_context env q s = (rv1, sw, s1)"
    by (cases "mbox_compose_sw_context env q s")
  obtain rv2 pf s2 where c2: "compose_if (m_st q \<and> m_c2h q) (mbox_compose_prefetch_context env q) pfetch_zero s1
      = (rv2, pf, s2)" by (cases "compose_if (m_st q \<and> m_c2h q) (mbox_compose_prefetch_context env q) pfetch_zero s1")
  obtain rv3 cm s3 where c3: "compose_if (with_cmpt (m_cmpt_type q)) (mbox_compose_cmpt_context env q) cmpt_zero s2
      = (rv3, cm, s3)" by (cases "compose_if (with_cmpt (m_cmpt_type q)) (mbox_compose_cmpt_context env q) cmpt_zero s2")
  obtain rv4 s4 where c4: "mbox_clear_queue_contexts env idx (conf_func_id (m_conf q)) (m_qid q) (m_st q)
      (m_c2h q) (m_cmpt_type q) s3 = (rv4, s4)"
    by (cases "mbox_clear_queue_contexts env idx (conf_func_id (m_conf q)) (m_qid q) (m_st q) (m_c2h q) (m_cmpt_type q) s3")
  from w c1 c2 c3 c4 have ok: "\<not> rv1 < 0" "\<not> rv2 < 0" "\<not> rv3 < 0" "\<not> rv4 < 0"
    and w5: "hw_seq env (write_ops q sw pf cm) s4 = (0, s')"
    by (auto simp: write_queue_def split: if_splits)
  obtain i where i: "i < 16" "csr_of env (hwt s) CSR_RING_SZ i = ucast (conf_ringsz c) + 1" "sw = sw_of_conf q i"
      "s1 = s\<lparr>hwt := hwt s @ [CsrRd CSR_RING_SZ]\<rparr>" using compose_sw_ok [OF c1 ok(1) ret] by (auto simp: c_def)
  obtain buf where s2: "s2 = s\<lparr>hwt := hwt s @ [CsrRd CSR_RING_SZ] @ (if st_c2h then [CsrRd CSR_BUF_SZ] else [])\<rparr>"
    and pf: "st_c2h \<longrightarrow> buf < 16 \<and> csr_of env (hwt s @ [CsrRd CSR_RING_SZ]) CSR_BUF_SZ buf = ucast (conf_bufsz c)
        \<and> pf = \<lparr>pf_bypass = conf_en_bypass_prefetch c, pf_bufsz_idx = of_nat buf, pf_pfch_en = conf_pfch_en c, pf_valid = 1\<rparr>"
    using c2 compose_prefetch_ok [OF _ ok(2) ret, of q s1 pf s2] i(4)
    by (cases st_c2h) (auto simp: compose_if_def st_c2h_def c_def)
  define t1 where "t1 = hwt s @ [CsrRd CSR_RING_SZ] @ (if st_c2h then [CsrRd CSR_BUF_SZ] else [])"
  obtain k u j where s3: "s3 = s\<lparr>hwt := t1 @ (if compl then [CsrRd CSR_CNT_TH, CsrRd CSR_TIMER_CNT, CsrRd CSR_RING_SZ] else [])\<rparr>"
    and cm: "compl \<longrightarrow> k < 16 \<and> u < 16 \<and> j < 16 \<and> csr_of env t1 CSR_CNT_TH k = ucast (conf_cnt_thres c)
        \<and> csr_of env (t1 @ [CsrRd CSR_CNT_TH]) CSR_TIMER_CNT u = ucast (conf_timer_thres c)
        \<and> csr_of env (t1 @ [CsrRd CSR_CNT_TH, CsrRd CSR_TIMER_CNT]) CSR_RING_SZ j = ucast (conf_cmpt_ringsz c) + 1
        \<and> cm = cmpt_of_conf q k u j"
  proof (cases compl)
    case True
    then have "mbox_compose_cmpt_context env q s2 = (rv3, cm, s3)" using c3 by (simp add: compose_if_def compl_def)
    from compose_cmpt_ok [OF this ok(3) ret] True s2 that show ?thesis by (auto simp: t1_def c_def)
  next
    case False
    then show ?thesis using c3 s2 that by (simp add: compose_if_def compl_def t1_def)
  qed
  have "hw_seq env (queue_contexts HW_CLEAR (m_qid q) (m_st q) (m_c2h q) (m_cmpt_type q)) s3 = (rv4, s4)"
    using c4 qi own ct s3 by (simp add: mbox_clear_queue_contexts_def drop_queue_contexts_def)
  from hw_seq_ok [OF this ok(4)] hw_seq_ok [OF w5]
  have t: "hwt s' = hwt s3 @ queue_contexts HW_CLEAR (m_qid q) (m_st q) (m_c2h q) (m_cmpt_type q) @ write_ops q sw pf cm"
    "rmgr s' = rmgr s3" by simp_all
  have "(not (of_bool (m_st q)) :: u8) = (if m_st q then 0xFE else 0xFF)" by simp
  then have sw: "sw = \<lparr>sw_ring_bs_addr = conf_ring_bs_addr c, sw_vec = conf_intr_id c, sw_irq_arm = (if st_c2h then 0 else conf_irq_arm c),
        sw_fnc_id = ucast (conf_func_id c), sw_qen = 1, sw_frcd_en = conf_forced_en c, sw_wbi_chk = (if st_c2h then 0 else conf_wbi_chk c),
        sw_wbi_intvl_en = conf_wbi_intvl_en c, sw_rngsz_idx = of_nat i, sw_desc_sz = conf_desc_sz c, sw_bypass = conf_en_bypass c,
        sw_mm_chn = 0, sw_wbk_en = (if st_c2h then 0 else conf_wbk_en c), sw_irq_en = (if st_c2h then 0 else conf_irq_en c),
        sw_is_mm = (if m_st q then 0xFE else 0xFF), sw_intr_aggr = conf_intr_aggr c\<rparr>"
    unfolding i(3) sw_of_conf_def Let_def c_def st_c2h_def by (simp only:)
  have trace: "hwt s' = hwt s
      @ [CsrRd CSR_RING_SZ] @ (if st_c2h then [CsrRd CSR_BUF_SZ] else [])
      @ (if compl then [CsrRd CSR_CNT_TH, CsrRd CSR_TIMER_CNT, CsrRd CSR_RING_SZ] else [])
      @ [SwCtx HW_CLEAR c2h qid None, HwCtx HW_CLEAR c2h qid, CreditCtx HW_CLEAR c2h qid]
      @ (if st_c2h then [PfetchCtx HW_CLEAR qid None] else []) @ (if compl then [CmptCtx HW_CLEAR qid None] else [])
      @ [SwCtx HW_WRITE c2h qid (Some sw)]
      @ (if st_c2h then [PfetchCtx HW_WRITE qid (Some pf)] else []) @ (if compl then [CmptCtx HW_WRITE qid (Some cm)] else [])"
    unfolding t(1) s3 queue_contexts_def write_ops_def c2h_def qid_def st_c2h_def compl_def t1_def by simp
  have rm: "rmgr s' = rmgr s" using t(2) s3 by simp
  show ?thesis
    by (rule exI [of _ i], rule exI [of _ buf], rule exI [of _ k], rule exI [of _ u], rule exI [of _ j],
        rule exI [of _ t1], rule exI [of _ "t1 @ [CsrRd CSR_CNT_TH]"], rule exI [of _ sw], rule exI [of _ pf], rule exI [of _ cm],
        intro conjI impI)
      (use trace rm i(1,2) sw pf cm in \<open>simp_all only: t1_def cmpt_of_conf_def Let_def c_def append_assoc append_Cons append_Nil simp_thms\<close>)
qed

definition demo_q :: mbox_txrx where
  "demo_q = compose_vf_qctxt_write 1 17 False False CMPT_CTXT_NONE (conf_zero\<lparr>conf_func_id := 1, conf_ringsz := 64\<rparr>)"

lemmas demo_q_eval = demo_q_def compose_vf_qctxt_write_def qctxt_request_def request_def

lemma demo_q_owned: "owns rm2 0 (conf_func_id (m_conf demo_q)) (m_qid demo_q)"
  by (simp add: demo_q_eval rm2_eq rm_eval)

lemma demo_q_ring: "get_ring_idx demo_env 64 \<lparr>rmgr = rm2, hwt = []\<rparr> = (0, 0, \<lparr>rmgr = rm2, hwt = [CsrRd CSR_RING_SZ]\<rparr>)"
  by (simp add: get_ring_idx_def get_idx_def hw_do_def demo_env_def QDMA_GLOBAL_CSR_ARRAY_SZ_def upt_conv_Cons)

lemma demo_q_fields: "m_st demo_q = False" "m_c2h demo_q = False" "m_cmpt_type demo_q = CMPT_CTXT_NONE"
  "m_qid demo_q = 17" "conf_func_id (m_conf demo_q) = 1" "conf_ringsz (m_conf demo_q) = 64"
  by (simp_all add: demo_q_eval)

lemma demo_q_qinfo: "dev_qinfo_get rm2 0 1 = Inr (16, 8)"
  by (simp add: rm2_eq rm_eval)

lemma demo_hw: "hw_do demo_env x s = (0, s\<lparr>hwt := hwt s @ [x]\<rparr>)"
  by (simp add: hw_do_def demo_env_def)

lemma demo_q_written: "fst (mbox_write_queue_contexts demo_env 0 demo_q \<lparr>rmgr = rm2, hwt = []\<rparr>) = 0"
  using demo_q_owned
  by (simp add: mbox_write_queue_contexts_def demo_q_fields demo_q_qinfo write_queue_def
      mbox_compose_sw_context_def demo_q_ring compose_if_def mbox_clear_queue_contexts_def drop_queue_contexts_def
      queue_contexts_def write_ops_def demo_hw)

lemma demo_q_trace: "hwt (snd (mbox_write_queue_contexts demo_env 0 demo_q \<lparr>rmgr = rm2, hwt = []\<rparr>))
    = [CsrRd CSR_RING_SZ, SwCtx HW_CLEAR False 17 None, HwCtx HW_CLEAR False 17, CreditCtx HW_CLEAR False 17,
       SwCtx HW_WRITE False 17 (Some (sw_of_conf demo_q 0))]"
  using demo_q_owned
  by (simp add: mbox_write_queue_contexts_def demo_q_fields demo_q_qinfo write_queue_def
      mbox_compose_sw_context_def demo_q_ring compose_if_def mbox_clear_queue_contexts_def drop_queue_contexts_def
      queue_contexts_def write_ops_def demo_hw)

lemma demo_q_handled: "pf_state demo_env 0 0 demo_q msg_zero s = snd (mbox_write_queue_contexts demo_env 0 demo_q s)"
proof -
  have "demo_q\<lparr>m_conf := (m_conf demo_q)\<lparr>conf_func_id := m_src demo_q\<rparr>\<rparr> = demo_q" by (simp add: demo_q_eval)
  moreover have "m_op demo_q = MBOX_OP_QCTXT_WRT" by (simp add: demo_q_eval)
  ultimately show ?thesis
    by (simp add: qdma_mbox_pf_rcv_msg_handler_def pf_request_def mbox_ops keep_resp_def respond_def pf_qctxt_wrt_def
        split: prod.splits)
qed

theorem contexts_change_for_owner_only_witness:
  "\<exists>k j. find_dev rm2 0 1 = Inr (k, j) \<and> 17 \<in> cells (entry (the_dev rm2 k j))"
  using contexts_change_for_owner_only [of "\<lparr>rmgr = rm2, hwt = []\<rparr>" "HwCtx HW_CLEAR False 17" demo_env 0 0 demo_q
      msg_zero 17] rm2_reach
  by (simp add: demo_q_handled demo_q_trace demo_q_fields) (simp add: demo_q_eval)

theorem queue_setup_order_witness:
  "\<exists>sw. hwt (snd (mbox_write_queue_contexts demo_env 0 demo_q \<lparr>rmgr = rm2, hwt = []\<rparr>))
     = [CsrRd CSR_RING_SZ, SwCtx HW_CLEAR False 17 None, HwCtx HW_CLEAR False 17, CreditCtx HW_CLEAR False 17,
        SwCtx HW_WRITE False 17 (Some sw)] \<and> sw_qen sw = 1 \<and> sw_is_mm sw = 0xFF"
proof -
  have "mbox_write_queue_contexts demo_env 0 demo_q \<lparr>rmgr = rm2, hwt = []\<rparr>
      = (0, snd (mbox_write_queue_contexts demo_env 0 demo_q \<lparr>rmgr = rm2, hwt = []\<rparr>))"
    using demo_q_written by (simp add: prod_eq_iff)
  from queue_setup_order [OF this] demo_q_owned
  show ?thesis by (auto simp: demo_q_fields demo_env_def)
qed

section \<open>Responses\<close>

lemma if_Some_unat: "(if b then Some x else y) = Some r \<Longrightarrow> (b \<Longrightarrow> R) \<Longrightarrow> (y = Some r \<Longrightarrow> R) \<Longrightarrow> R"
  by (cases b) auto

lemma pf_request_op: "pf_request env idx rcv resp s = Some r \<Longrightarrow> unat (m_op rcv) \<le> 20"
  unfolding pf_request_def Let_def by (elim if_Some_unat) (auto simp: mbox_ops)

text \<open>
  The response to a request that the PF runs is recognised by the sender as the answer
  to it, is addressed to the sender, and carries the return value of the request as its status
  whenever that fits into eight bits.
\<close>

theorem response_answers_request:
  assumes "pf_request env idx rcv resp s = Some (rv, r, s1)" "m_op rcv \<noteq> MBOX_OP_FMAP \<or> 0 \<le> rv"
    and "- 128 \<le> rv" "rv < 128"
  shows "is_msg_response rcv (pf_resp env idx f rcv resp s) \<and> m_dst (pf_resp env idx f rcv resp s) = m_src rcv
    \<and> m_src (pf_resp env idx f rcv resp s) = f \<and> vf_response_status (pf_resp env idx f rcv resp s) = rv"
proof -
  have "unat (m_op rcv) \<le> 20" by (rule pf_request_op [OF assms(1)])
  then have "unat (m_op rcv + 0x80) = unat (m_op rcv) + 128" by (simp add: unat_word_ariths)
  moreover have "sint (word_of_int rv :: u8) = rv"
    using assms(3,4) by (simp add: signed_of_int signed_take_bit_int_eq_self)
  ultimately show ?thesis unfolding handler_request [OF assms(1,2)]
    by (simp add: respond_def is_msg_response_def MBOX_MSG_OP_RSP_OFFSET_def vf_response_status_def)
qed

theorem response_answers_request_witness:
  "vf_response_status (pf_resp demo_env 0 0 (compose_vf_notify_qadd 1 40 TYPE_H2C) msg_zero \<lparr>rmgr = rm2, hwt = []\<rparr>) = - 16"
proof -
  have "pf_request demo_env 0 (compose_vf_notify_qadd 1 40 TYPE_H2C) msg_zero \<lparr>rmgr = rm2, hwt = []\<rparr>
      = Some (- 16, msg_zero, \<lparr>rmgr = rm2, hwt = []\<rparr>)"
    by (simp add: pf_request_def compose_vf_notify_qadd_def request_def mbox_ops keep_resp_def
        pf_qnotify_add_def rm2_eq rm_eval)
  from response_answers_request [OF this, of 0] show ?thesis
    by (simp add: compose_vf_notify_qadd_def request_def mbox_ops)
qed

lemma signed_byte: "128 \<le> n \<Longrightarrow> n < 256 \<Longrightarrow> signed_take_bit 7 n = n - (256 :: int)"
proof -
  assume "128 \<le> n" "n < 256"
  then have "(n - 128) mod 256 = n - 128" by (intro mod_pos_pos_trivial) linarith+
  moreover have "n + 128 = n - 128 + 256" by simp
  ultimately have "(n + 128) mod 256 = n - 128" by (metis mod_add_self2)
  then show ?thesis unfolding signed_take_bit_eq_take_bit_shift take_bit_eq_mod by simp
qed

text \<open>
  The answer to \<^verbatim>\<open>MBOX_OP_GET_QACTIVE_CNT\<close> carries the number of active completion
  queues as its status. A VF with 128 to 255 of them reads an error, although the counts in the
  response are right.
\<close>

theorem busy_function_reads_error:
  assumes "find_dev (rmgr s) (ucast idx) f = Inr (k, j)"
    and "128 \<le> unat (active_cmpt_qcnt (the_dev (rmgr s) k j))" "unat (active_cmpt_qcnt (the_dev (rmgr s) k j)) < 256"
  shows "vf_response_status (pf_resp env idx pf (compose_vf_get_device_active_qcnt f) resp s) < 0
    \<and> vf_active_queues_get (pf_resp env idx pf (compose_vf_get_device_active_qcnt f) resp s) TYPE_CMPT
      = int (unat (active_cmpt_qcnt (the_dev (rmgr s) k j)))"
proof -
  let ?n = "active_cmpt_qcnt (the_dev (rmgr s) k j)"
  have sn: "sint ?n = int (unat ?n)" using assms(3) by (intro sint_small) simp
  have "signed_take_bit 7 (int (unat ?n)) = int (unat ?n) - 256"
    using assms(2,3) by (intro signed_byte) linarith+
  moreover have "int (unat ?n) < 256" using assms(3) by linarith
  ultimately have "sint (word_of_int (int (unat ?n)) :: u8) < 0" unfolding signed_of_int by simp
  then have "sint (word_of_int (sint ?n) :: u8) < 0" unfolding sn .
  moreover have "pf_resp env idx pf (compose_vf_get_device_active_qcnt f) resp s = (resp\<lparr>m_h2c_queues := word_of_int (active_rv (rmgr s) idx f TYPE_H2C),
      m_c2h_queues := word_of_int (active_rv (rmgr s) idx f TYPE_C2H), m_cmpt_queues := word_of_int (sint ?n),
      m_op := MBOX_OP_GET_QACTIVE_CNT + MBOX_MSG_OP_RSP_OFFSET, m_dst := f, m_src := pf,
      m_status := word_of_int (sint ?n)\<rparr>)"
    using assms(1)
    by (simp add: qdma_mbox_pf_rcv_msg_handler_def pf_request_def compose_vf_get_device_active_qcnt_def
        request_def mbox_ops respond_def pf_get_qactive_cnt_def active_rv_def get_device_active_queue_count_def Let_def)
  ultimately show ?thesis by (simp add: vf_response_status_def vf_active_queues_get_def sn)
qed

definition busy_rm :: rm_state where
  "busy_rm = rm2\<lparr>masters := [(hd (masters rm2))\<lparr>master_total_q := 256,
     dev_list := [(new_dev 1)\<lparr>entry := \<lparr>qbase = 0, total_q = 200\<rparr>, active_cmpt_qcnt := 130\<rparr>]\<rparr>]\<rparr>"

theorem busy_function_reads_error_witness:
  "vf_response_status (pf_resp demo_env 0 0 (compose_vf_get_device_active_qcnt 1) msg_zero
     \<lparr>rmgr = busy_rm, hwt = []\<rparr>) < 0"
  using busy_function_reads_error [of "\<lparr>rmgr = busy_rm, hwt = []\<rparr>" 0 1 0 0 demo_env 0 msg_zero]
  by (simp add: busy_rm_def rm2_eq rm_eval)

section \<open>Carrying a message\<close>

text \<open>The value last written to a register.\<close>

definition written :: "reg_ev list \<Rightarrow> u32 \<rightharpoonup> u32" where
  "written t = fold (\<lambda>e m. case e of RegRd _ \<Rightarrow> m | RegWr a v \<Rightarrow> m(a \<mapsto> v)) t Map.empty"

lemma written_wr [simp]: "written (qdma_reg_write reg v t) = (written t)(reg \<mapsto> v)"
  by (simp add: written_def qdma_reg_write_def)

lemma written_write_words_other:
  "(\<And>j. j < length ws \<Longrightarrow> a \<noteq> reg + 4 * of_nat j) \<Longrightarrow> written (write_words reg ws t) a = written t a"
proof (induction ws arbitrary: reg t)
  case (Cons w ws)
  have "a \<noteq> reg" using Cons.prems [of 0] by simp
  moreover have "a \<noteq> reg + 4 + 4 * of_nat j" if "j < length ws" for j
    using Cons.prems [of "Suc j"] that by (simp add: algebra_simps)
  ultimately show ?case using Cons.IH [of "reg + 4" "qdma_reg_write reg w t"]
    by (simp add: MBOX_MSG_STEP_def)
qed simp

lemma four_times_neq: "j < 32 \<Longrightarrow> (reg :: u32) \<noteq> reg + 4 + 4 * of_nat j"
proof
  assume j: "j < 32" and "reg = reg + 4 + 4 * of_nat j"
  then have "of_nat (4 + 4 * j) = (0 :: u32)" by (simp add: add.assoc)
  then have "unat (of_nat (4 + 4 * j) :: u32) = 0" by (simp only: unsigned_0)
  moreover have "unat (of_nat (4 + 4 * j) :: u32) = 4 + 4 * j"
    unfolding unsigned_of_nat of_nat_id by (rule take_bit_nat_eq_self) (use j in simp)
  ultimately show False by simp
qed

lemma written_write_words:
  "length ws \<le> 32 \<Longrightarrow> i < length ws \<Longrightarrow> written (write_words reg ws t) (reg + 4 * of_nat i) = Some (ws ! i)"
proof (induction ws arbitrary: reg t i)
  case (Cons w ws)
  show ?case
  proof (cases i)
    case 0
    have "reg \<noteq> reg + 4 + 4 * of_nat j" if "j < length ws" for j
      using that Cons.prems(1) by (intro four_times_neq) simp
    then have "written (write_words (reg + 4) ws (qdma_reg_write reg w t)) reg = Some w"
      by (subst written_write_words_other) simp_all
    then show ?thesis using 0 by (simp add: MBOX_MSG_STEP_def)
  next
    case (Suc j)
    with Cons.IH [of j "reg + 4" "qdma_reg_write reg w t"] Cons.prems show ?thesis
      by (simp add: MBOX_MSG_STEP_def algebra_simps)
  qed
qed simp

lemma read_words_length: "length (fst (read_words d reg n t)) = n"
  by (induction n arbitrary: reg t) (simp_all split: prod.splits add: prod_eq_iff)

lemma read_words_const:
  "(\<And>i u. i < n \<Longrightarrow> reg_val d u (reg + 4 * of_nat i) = ws ! i) \<Longrightarrow> length ws = n \<Longrightarrow>
    fst (read_words d reg n t) = ws"
proof (induction n arbitrary: reg t ws)
  case (Suc n)
  then obtain w ws' where ws: "ws = w # ws'" by (cases ws) auto
  have "reg_val d u (reg + 4 + 4 * of_nat i) = ws' ! i" if "i < n" for i u
    using Suc.prems(1) [of "Suc i" u] that ws by (simp add: algebra_simps)
  then have "fst (read_words d (reg + 4) n t') = ws'" for t'
    using Suc.IH [of "reg + 4" ws' t'] Suc.prems(2) ws by simp
  moreover have "reg_val d t reg = w" using Suc.prems(1) [of 0 t] ws by simp
  ultimately show ?case using ws
    by (simp add: qdma_reg_read_def MBOX_MSG_STEP_def prod_eq_iff split: prod.splits)
qed simp

lemma read_words_trace: "read_words d reg n t = (ws, t') \<Longrightarrow> \<exists>reads. t' = t @ reads"
  by (induction n arbitrary: reg t ws) (fastforce simp: qdma_reg_read_def split: prod.splits)+

lemma length_set_raw_src [simp]: "length (set_raw_src f raw) = length raw"
  by (simp add: set_raw_src_def)

lemma ucast_u16 [simp]: "ucast (ucast (w :: u16) :: u32) = w"
  by (auto intro!: bit_word_eqI simp: bit_simps)

lemma low_half: "(0xFFFF :: u32) = mask 16" by (simp add: mask_eq_exp_minus_1)

lemma raw_src_set [simp]: "raw \<noteq> [] \<Longrightarrow> raw_src (set_raw_src f raw) = f"
  unfolding raw_src_def set_raw_src_def low_half
  by (cases raw) (auto intro!: bit_word_eqI simp: bit_simps)

lemma raw_op_set [simp]: "raw \<noteq> [] \<Longrightarrow> raw_op (set_raw_src f raw) = raw_op raw"
  unfolding raw_op_def set_raw_src_def low_half
  by (cases raw) (auto intro!: bit_word_eqI simp: bit_simps)

lemma raw_dst_set [simp]: "raw_dst (set_raw_src f raw) = raw_dst raw"
  by (simp add: raw_dst_def set_raw_src_def)

text \<open>
  A message that the PF takes in carries as its source the function that the hardware
  reports, whatever the sender wrote there; the PF selects that sender's mailbox before it reads
  the words, and acknowledges after.
\<close>

theorem received_source_is_authentic:
  assumes "qdma_mbox_rcv d False buf t = (0, raw, t')"
  shows "raw_src raw = ucast (G_MBOX_FN_STATUS_SRC (reg_val d t (mbox_base_pf d + MBOX_FN_STATUS)))
    \<and> length raw = 32
    \<and> (\<exists>reads. t' = t @ [RegRd (mbox_base_pf d + MBOX_FN_STATUS),
          RegWr (mbox_base_pf d + MBOX_FN_TARGET) (G_MBOX_FN_STATUS_SRC (reg_val d t (mbox_base_pf d + MBOX_FN_STATUS)))]
          @ reads @ [RegWr (mbox_base_pf d + MBOX_FN_CMD) F_MBOX_FN_CMD_RCV])"
proof -
  define base where "base = mbox_base_pf d"
  let ?v = "reg_val d t (base + MBOX_FN_STATUS)"
  let ?from = "G_MBOX_FN_STATUS_SRC ?v"
  let ?t2 = "t @ [RegRd (base + MBOX_FN_STATUS), RegWr (base + MBOX_FN_TARGET) ?from]"
  obtain ws t3 where r: "read_words d (base + MBOX_IN_MSG_BASE) 32 ?t2 = (ws, t3)"
    by (cases "read_words d (base + MBOX_IN_MSG_BASE) 32 ?t2")
  from read_words_length [of d _ 32 ?t2] r have l: "length ws = 32" by (metis fst_conv)
  obtain reads where t3: "t3 = ?t2 @ reads" using read_words_trace [OF r] by blast
  from assms(1) r have raw: "raw = (if ?from \<noteq> ucast (raw_src ws) then set_raw_src (ucast ?from) ws else ws)"
    "t' = t3 @ [RegWr (base + MBOX_FN_CMD) F_MBOX_FN_CMD_RCV]"
    by (auto simp: qdma_mbox_rcv_def base_def [symmetric] get_mbox_offset_def qdma_reg_read_def qdma_reg_write_def
        MBOX_MSG_REG_MAX_def Let_def split: if_splits)
  have "ws \<noteq> []" using l by auto
  then have "raw_src raw = ucast ?from" "length raw = 32" using raw(1) l
    by (auto split: if_splits)
  with raw(2) t3 show ?thesis by (auto simp: base_def)
qed

lemma rcv_gives:
  assumes st: "status_in (reg_val d t (get_mbox_offset d is_vf + MBOX_FN_STATUS))" and l: "length ws = 32"
    and rd: "\<And>i u. i < 32 \<Longrightarrow> reg_val d u (get_mbox_offset d is_vf + MBOX_IN_MSG_BASE + 4 * of_nat i) = ws ! i"
    and nz: "\<exists>w \<in> set ws. w \<noteq> 0"
  shows "\<exists>t'. qdma_mbox_rcv d is_vf buf t = (0,
    let from_id = G_MBOX_FN_STATUS_SRC (reg_val d t (get_mbox_offset d is_vf + MBOX_FN_STATUS))
    in if \<not> is_vf \<and> from_id \<noteq> ucast (raw_src ws) then set_raw_src (ucast from_id) ws else ws, t')"
proof -
  have "fst (read_words d (get_mbox_offset d is_vf + MBOX_IN_MSG_BASE) 32 u) = ws" for u
    by (rule read_words_const [OF rd l])
  then have "\<exists>u'. read_words d (get_mbox_offset d is_vf + MBOX_IN_MSG_BASE) 32 u = (ws, u')" for u
    by (metis prod.collapse)
  then obtain g where g: "\<And>u. read_words d (get_mbox_offset d is_vf + MBOX_IN_MSG_BASE) 32 u = (ws, g u)" by metis
  show ?thesis using st nz by (simp add: qdma_mbox_rcv_def qdma_reg_read_def MBOX_MSG_REG_MAX_def g Let_def)
qed

definition demo_dev :: mb_dev where
  "demo_dev = \<lparr>mbox_base_pf = 0x2400, mbox_base_vf = 0x1000, reg_val = \<lambda>_ a. if a = 0x2400 then 0x31 else a\<rparr>"

lemma off_neq:
  assumes "a < 2 ^ 32" "b < 2 ^ 32" "a \<noteq> b" shows "base + (of_nat a :: u32) \<noteq> base + of_nat b"
proof
  assume "base + (of_nat a :: u32) = base + of_nat b"
  then have "unat (of_nat a :: u32) = unat (of_nat b :: u32)" by (simp only: add_left_cancel)
  then show False using assms unfolding unsigned_of_nat of_nat_id by (simp add: take_bit_nat_eq_self)
qed

lemma demo_words: "i < 32 \<Longrightarrow> reg_val demo_dev u (get_mbox_offset demo_dev False + MBOX_IN_MSG_BASE + 4 * of_nat i)
    = map (\<lambda>i. 0x2c00 + 4 * of_nat i) [0..<32] ! i"
  using off_neq [of 0 "0x800 + 4 * i" "0x2400"]
  by (simp add: demo_dev_def get_mbox_offset_def MBOX_IN_MSG_BASE_def)

theorem received_source_is_authentic_witness:
  "raw_src (fst (snd (qdma_mbox_rcv demo_dev False [] []))) = 3"
proof -
  let ?ws = "map (\<lambda>i. 0x2c00 + 4 * of_nat i) [0..<32] :: u32 list"
  have st: "status_in (reg_val demo_dev [] (get_mbox_offset demo_dev False + MBOX_FN_STATUS))"
    by (simp add: demo_dev_def get_mbox_offset_def MBOX_FN_STATUS_def status_in_def bit_0)
  have nz: "\<exists>w \<in> set ?ws. w \<noteq> 0" by (simp add: upt_conv_Cons)
  have "length ?ws = 32" by simp
  from rcv_gives [OF st this demo_words nz, of "[]"]
  have "fst (qdma_mbox_rcv demo_dev False [] []) = 0" by auto
  then have "qdma_mbox_rcv demo_dev False [] [] = (0, fst (snd (qdma_mbox_rcv demo_dev False [] [])),
      snd (snd (qdma_mbox_rcv demo_dev False [] [])))" by (simp add: prod_eq_iff)
  from received_source_is_authentic [OF this] show ?thesis
    by (simp add: demo_dev_def MBOX_FN_STATUS_def G_MBOX_FN_STATUS_SRC_def drop_bit_word_numeral)
qed

lemma send_written:
  assumes s: "qdma_mbox_send d is_vf raw t = (0, t1)" and raw: "length raw = 32" "i < 32"
    and dst: "is_vf \<or> unat (raw_dst raw) < 4096"
  shows "written t1 (get_mbox_offset d is_vf + MBOX_OUT_MSG_BASE + 4 * of_nat i) = Some (raw ! i)"
proof -
  let ?base = "get_mbox_offset d is_vf" and ?k = "unat (raw_dst raw) div 32"
  have out: "?base + MBOX_OUT_MSG_BASE + 4 * of_nat i = ?base + of_nat (0xc00 + 4 * i)"
    by (simp add: MBOX_OUT_MSG_BASE_def)
  have cmd: "?base + of_nat 4 \<noteq> ?base + of_nat (0xc00 + 4 * i)" by (rule off_neq) (use raw(2) in simp_all)
  have ack: "\<not> is_vf \<Longrightarrow> ?base + of_nat (0x20 + ?k * 4) \<noteq> ?base + of_nat (0xc00 + 4 * i)"
    using dst by (intro off_neq) (use raw(2) in simp_all)
  have words: "written (write_words (?base + MBOX_OUT_MSG_BASE) (take 32 raw) t2)
      (?base + MBOX_OUT_MSG_BASE + 4 * of_nat i) = Some (raw ! i)" for t2
    using written_write_words [of raw i "?base + MBOX_OUT_MSG_BASE" t2] raw by simp
  show ?thesis using s cmd ack words
    by (auto simp: qdma_mbox_send_def Let_def MBOX_MSG_REG_MAX_def MBOX_FN_CMD_def mbox_pf_hw_clear_func_ack_def
        get_mbox_offset_def MBOX_PF_ACK_BASE_def MBOX_PF_ACK_STEP_def out [unfolded get_mbox_offset_def]
        split: prod.splits if_splits)
qed

lemma set_raw_src_same: "raw \<noteq> [] \<Longrightarrow> set_raw_src (raw_src raw) raw = raw"
  unfolding raw_src_def set_raw_src_def low_half
  by (cases raw) (auto intro!: bit_word_eqI simp: bit_simps)

text \<open>
  Claim C21: a message that a VF sends arrives at the PF word for word, with the source that the
  hardware reports in place of the sender's, provided the hardware shows the words written to the
  outgoing registers of the one side in the incoming registers of the other.
\<close>

theorem mailbox_delivers_message:
  assumes "qdma_mbox_send d1 True raw t = (0, t1)" "length raw = 32" "\<exists>w \<in> set raw. w \<noteq> 0"
    and hardware: "\<forall>i < 32. \<forall>u. Some (reg_val d2 u (mbox_base_pf d2 + MBOX_IN_MSG_BASE + 4 * of_nat i))
        = written t1 (mbox_base_vf d1 + MBOX_OUT_MSG_BASE + 4 * of_nat i)"
    and st: "status_in (reg_val d2 t2 (mbox_base_pf d2 + MBOX_FN_STATUS))"
  shows "fst (qdma_mbox_rcv d2 False buf t2) = 0
    \<and> fst (snd (qdma_mbox_rcv d2 False buf t2))
      = set_raw_src (ucast (G_MBOX_FN_STATUS_SRC (reg_val d2 t2 (mbox_base_pf d2 + MBOX_FN_STATUS)))) raw"
proof -
  have rd: "reg_val d2 u (get_mbox_offset d2 False + MBOX_IN_MSG_BASE + 4 * of_nat i) = raw ! i" if "i < 32" for i u
  proof -
    from hardware that have "Some (reg_val d2 u (mbox_base_pf d2 + MBOX_IN_MSG_BASE + 4 * of_nat i))
        = written t1 (mbox_base_vf d1 + MBOX_OUT_MSG_BASE + 4 * of_nat i)" by blast
    with send_written [OF assms(1,2) that] show ?thesis by (simp add: get_mbox_offset_def)
  qed
  have st': "status_in (reg_val d2 t2 (get_mbox_offset d2 False + MBOX_FN_STATUS))"
    using st by (simp add: get_mbox_offset_def)
  have ne: "raw \<noteq> []" using assms(2) by auto
  from rcv_gives [OF st' assms(2) rd assms(3), of buf] set_raw_src_same [OF ne]
  show ?thesis by (auto simp: get_mbox_offset_def Let_def split: if_splits)
qed

text \<open>A VF whose mailbox is free, and the PF that sees what this VF wrote.\<close>

definition demo_vf :: mb_dev where
  "demo_vf = \<lparr>mbox_base_pf = 0x2400, mbox_base_vf = 0x1000, reg_val = \<lambda>_ _. 0\<rparr>"

abbreviation demo_raw :: "u32 list" where "demo_raw \<equiv> replicate 32 5"

abbreviation demo_sent :: "reg_ev list" where "demo_sent \<equiv> snd (qdma_mbox_send demo_vf True demo_raw [])"

definition demo_peer :: mb_dev where
  "demo_peer = \<lparr>mbox_base_pf = 0x2400, mbox_base_vf = 0x1000, reg_val = \<lambda>_ a. if a = 0x2400 then 0x31 else 5\<rparr>"

lemma demo_send: "qdma_mbox_send demo_vf True demo_raw [] = (0, demo_sent)"
  by (simp add: qdma_mbox_send_def demo_vf_def Let_def status_out_def qdma_reg_read_def)

theorem mailbox_delivers_message_witness:
  "raw_src (fst (snd (qdma_mbox_rcv demo_peer False [] []))) = 3"
proof -
  have "\<forall>i < 32. \<forall>u. Some (reg_val demo_peer u (mbox_base_pf demo_peer + MBOX_IN_MSG_BASE + 4 * of_nat i))
      = written demo_sent (mbox_base_vf demo_vf + MBOX_OUT_MSG_BASE + 4 * of_nat i)"
    using send_written [OF demo_send] off_neq [of 0 "0x800 + 4 * i" "0x2400" for i]
    by (auto simp: demo_peer_def get_mbox_offset_def MBOX_IN_MSG_BASE_def)
  from mailbox_delivers_message [OF demo_send _ _ this, of "[]" "[]"] show ?thesis
    by (simp add: demo_peer_def MBOX_FN_STATUS_def status_in_def bit_0 G_MBOX_FN_STATUS_SRC_def drop_bit_word_numeral)
qed

end
