(* ===== verification/Service_Props.thy ===== *)
theory Service_Props
  imports Mbox_Service Mbox_Props
begin

text \<open>
  What the message service guarantees while the device is not offline: every listed message is
  alive and on one list, so neither work routine ever touches a freed message; messages leave in
  the order they were queued; an answer reaches its sender. And what goes wrong when the device is
  offline, and when the PF gets a reply to a message of its own.
\<close>

section \<open>The lists\<close>

definition lists_ok :: "mbox_svc \<Rightarrow> bool" where
  "lists_ok s \<longleftrightarrow> distinct (todo s @ pend s) \<and> (\<forall>a \<in> set (todo s @ pend s). msgs s a \<noteq> None)
     \<and> (\<forall>a \<ge> next_addr s. msgs s a = None)"

abbreviation listed :: "mbox_svc \<Rightarrow> nat set" where "listed s \<equiv> set (todo s) \<union> set (pend s)"

named_theorems lists_ok

lemma lists_okD:
  assumes "lists_ok s"
  shows "distinct (todo s)" "distinct (pend s)" "set (todo s) \<inter> set (pend s) = {}"
    "a \<in> listed s \<Longrightarrow> msgs s a \<noteq> None" "next_addr s \<le> a \<Longrightarrow> msgs s a = None" "a \<in> listed s \<Longrightarrow> a < next_addr s"
proof -
  show "a < next_addr s" if "a \<in> listed s"
  proof (rule ccontr)
    assume "\<not> a < next_addr s"
    with assms have "msgs s a = None" by (simp add: lists_ok_def)
    moreover have "msgs s a \<noteq> None" using assms that unfolding lists_ok_def set_append by blast
    ultimately show False by simp
  qed
qed (use assms in \<open>auto simp: lists_ok_def\<close>)

lemma alloc_spec:
  assumes "qdma_mbox_msg_alloc s = (Some a, s')" "lists_ok s"
  shows "lists_ok s'" "a \<notin> listed s'" "msgs s' a \<noteq> None" "todo s' = todo s" "pend s' = pend s" "offline s' = offline s"
    "b \<noteq> a \<Longrightarrow> msgs s' b = msgs s b" "a = next_addr s" "rx s' = rx s"
  using assms lists_okD(6) [OF assms(2), of a]
  by (auto simp: qdma_mbox_msg_alloc_def lists_ok_def split: if_splits)

lemma alloc_None: "qdma_mbox_msg_alloc s = (None, s') \<Longrightarrow> s' = s"
  by (auto simp: qdma_mbox_msg_alloc_def split: if_splits)

lemma free_ok: "a \<notin> listed s \<Longrightarrow> lists_ok s \<Longrightarrow> qdma_mbox_msg_free a s = Some s' \<Longrightarrow> lists_ok s'"
  by (auto simp: qdma_mbox_msg_free_def lists_ok_def split: if_splits)

lemma free_offline: "qdma_mbox_msg_free a s = Some s' \<Longrightarrow> offline s' = offline s"
  by (auto simp: qdma_mbox_msg_free_def split: if_splits)

lemma free_Some: "msgs s a \<noteq> None \<Longrightarrow> \<exists>s'. qdma_mbox_msg_free a s = Some s'"
  by (auto simp: qdma_mbox_msg_free_def)

lemma set_raw_ok [lists_ok]: "lists_ok s \<Longrightarrow> lists_ok (set_raw a r s)"
  by (auto simp: set_raw_def lists_ok_def)

lemma set_matched_ok [lists_ok]: "lists_ok s \<Longrightarrow> lists_ok (set_matched a s)"
  by (auto simp: set_matched_def lists_ok_def)

lemma set_raw_simps [simp]: "todo (set_raw a r s) = todo s" "pend (set_raw a r s) = pend s"
  "offline (set_raw a r s) = offline s" "(msgs (set_raw a r s) b = None) = (msgs s b = None)" "rx (set_raw a r s) = rx s"
  "next_addr (set_raw a r s) = next_addr s"
  by (auto simp: set_raw_def)

lemma set_matched_simps [simp]: "todo (set_matched a s) = todo s" "pend (set_matched a s) = pend s"
  "offline (set_matched a s) = offline s" "(msgs (set_matched a s) b = None) = (msgs s b = None)" "rx (set_matched a s) = rx s"
  by (auto simp: set_matched_def)

lemma msg_send_ok:
  assumes "msg_send is_vf a w t s = Some (rv, s')" "lists_ok s" "a \<notin> listed s"
  shows "lists_ok s'" "offline s' = offline s"
  using assms by (auto simp: msg_send_def lists_ok_def Let_def split: option.splits if_splits)

lemma msg_send_Some: "msgs s a \<noteq> None \<Longrightarrow> \<exists>r. msg_send is_vf a w t s = Some r"
  by (auto simp: msg_send_def Let_def)

lemma set_remove1_listed: "distinct xs \<Longrightarrow> set (remove1 a xs) = set xs - {a}"
  by (rule set_remove1_eq)

lemma unlist_ok:
  assumes "lists_ok s" shows "lists_ok (s\<lparr>todo := remove1 a (todo s), pend := remove1 a (pend s)\<rparr>)"
  using assms lists_okD(1,2) [OF assms] by (auto simp: lists_ok_def set_remove1_eq)

lemma unpend_ok:
  assumes "lists_ok s" shows "lists_ok (s\<lparr>pend := remove1 a (pend s)\<rparr>)"
  using assms lists_okD(1,2) [OF assms] by (auto simp: lists_ok_def set_remove1_eq)

lemma lists_ok_upd [simp]:
  "lists_ok (s\<lparr>mbst := x\<rparr>) = lists_ok s" "lists_ok (s\<lparr>rx := y\<rparr>) = lists_ok s" "lists_ok (s\<lparr>regt := z\<rparr>) = lists_ok s"
  "lists_ok (s\<lparr>reset := u\<rparr>) = lists_ok s" "lists_ok (s\<lparr>reset_work := b\<rparr>) = lists_ok s" "lists_ok (s\<lparr>woken := v\<rparr>) = lists_ok s"
  "lists_ok (s\<lparr>send_busy := b\<rparr>) = lists_ok s" "lists_ok (s\<lparr>timer := b\<rparr>) = lists_ok s" "lists_ok (s\<lparr>func := f\<rparr>) = lists_ok s"
  "lists_ok (s\<lparr>func_parent := f\<rparr>) = lists_ok s" "lists_ok (s\<lparr>vfs := vs\<rparr>) = lists_ok s"
  "lists_ok (s\<lparr>vf_count_online := c\<rparr>) = lists_ok s" "lists_ok (s\<lparr>tx_work := b\<rparr>) = lists_ok s" "lists_ok (s\<lparr>rx_work := b\<rparr>) = lists_ok s"
  by (simp_all add: lists_ok_def)

section \<open>The send work\<close>

lemma tx_sent_ok:
  assumes "todo s = a # as" "msgs s a = Some m" "lists_ok s"
  shows "\<exists>s'. tx_sent a m s = Some s' \<and> lists_ok s' \<and> offline s' = offline s \<and> todo s' = as
    \<and> pend s' = pend s @ (if wait_resp m then [a] else []) \<and> (\<forall>b \<in> set as. msgs s' b = msgs s b)"
  using assms by (auto simp: tx_sent_def Let_def qdma_mbox_msg_free_def lists_ok_def)

lemma tx_failed_ok:
  assumes "todo s = a # as" "msgs s a = Some m" "lists_ok s" "\<not> offline s"
  shows "\<exists>s'. tx_failed a m s = Some s' \<and> lists_ok s' \<and> offline s' = offline s \<and> (todo s' = todo s \<or> todo s' = as) \<and> pend s' = pend s"
  using assms by (auto simp: tx_failed_def qdma_mbox_msg_free_def lists_ok_def)

lemma hw_send_same: "mbox_hw_send env is_vf r s = (rv, s') \<Longrightarrow> s' = s\<lparr>regt := regt s'\<rparr>"
  by (auto simp: mbox_hw_send_def split: prod.splits)

text \<open>
  The register writes in a list of accesses, and those that carry one message: for the PF the target
  first, then the 32 words from offset 0xC00 on, for the PF the acknowledge bit of the target, and at
  last the send command.
\<close>

definition hw_writes :: "reg_ev list \<Rightarrow> (u32 \<times> u32) list" where
  "hw_writes t = concat (map (\<lambda>e. case e of RegRd _ \<Rightarrow> [] | RegWr a v \<Rightarrow> [(a, v)]) t)"

definition message_writes :: "mb_dev \<Rightarrow> bool \<Rightarrow> u32 list \<Rightarrow> (u32 \<times> u32) list" where
  "message_writes d is_vf r =
     (let base = (if is_vf then mbox_base_vf d else mbox_base_pf d); dst = raw_dst r;
          words = map (\<lambda>(i, w). (base + 0xC00 + 4 * of_nat i, w)) (enumerate 0 (take 32 r))
      in (if is_vf then words
          else [(base + 12, and (ucast dst) 0xFFF)] @ words @ [(base + 0x20 + 4 * of_nat (unat dst div 32), push_bit (unat dst mod 32) 1)])
         @ [(base + 4, 1)])"

lemma hw_writes_ev [simp]:
  "hw_writes [] = []" "hw_writes (qdma_reg_write a v t) = hw_writes t @ [(a, v)]" "hw_writes (t @ [RegRd a]) = hw_writes t"
  by (simp_all add: hw_writes_def qdma_reg_write_def)

lemma hw_writes_words:
  "hw_writes (write_words reg ws t) = hw_writes t @ map (\<lambda>(i, w). (reg + 4 * of_nat i, w)) (enumerate 0 ws)"
proof (induction ws arbitrary: reg t)
  case (Cons w ws)
  have "enumerate (Suc 0) ws = map (apfst Suc) (enumerate 0 ws)" by (rule enumerate_Suc_eq)
  with Cons.IH show ?case by (simp add: MBOX_MSG_STEP_def split_beta algebra_simps)
qed simp

lemma hw_writes_send:
  "mbox_hw_send env is_vf r s = (rv, s') \<Longrightarrow>
    hw_writes (regt s') = hw_writes (regt s) @ (if rv = 0 then message_writes (dev_regs env) is_vf r else [])"
  by (auto simp: mbox_hw_send_def qdma_mbox_send_def message_writes_def Let_def qdma_reg_read_def hw_writes_words
      get_mbox_offset_def mbox_pf_hw_clear_func_ack_def MBOX_MSG_REG_MAX_def MBOX_OUT_MSG_BASE_def MBOX_FN_CMD_def
      F_MBOX_FN_CMD_SND_def MBOX_FN_TARGET_def V_MBOX_FN_TARGET_ID_def MBOX_PF_ACK_BASE_def MBOX_PF_ACK_STEP_def
      mult.commute split: prod.splits if_splits)

text \<open>
  What one run of the send work does: to the lists, to the hardware, to the messages it sends or gives
  up, and to the others.
\<close>

definition waits :: "mbox_svc \<Rightarrow> nat \<Rightarrow> bool" where
  "waits s a \<longleftrightarrow> (\<exists>m. msgs s a = Some m \<and> wait_resp m)"

definition tx_did :: "svc_env \<Rightarrow> bool \<Rightarrow> mbox_svc \<Rightarrow> mbox_svc \<Rightarrow> nat list \<Rightarrow> nat list \<Rightarrow> bool" where
  "tx_did env is_vf s s' sent dropped \<longleftrightarrow>
     todo s = sent @ dropped @ todo s' \<and> length dropped \<le> 1 \<and> pend s' = pend s @ filter (waits s) sent
     \<and> hw_writes (regt s') = hw_writes (regt s) @ concat (map (\<lambda>a. message_writes (dev_regs env) is_vf (raw (the (msgs s a)))) sent)
     \<and> (\<forall>a \<in> set sent. msgs s' a = (if waits s a then msgs s a else None))
     \<and> (\<forall>a \<in> set dropped. \<exists>m. msgs s a = Some m \<and> \<not> wait_resp m \<and> retry_cnt m = 1 \<and> msgs s' a = None)
     \<and> (\<forall>a. a \<notin> set (todo s) \<longrightarrow> msgs s' a = msgs s a)
     \<and> (todo s' \<noteq> [] \<and> dropped = [] \<longrightarrow> send_busy s' \<and> timer s')"

lemma tx_did_sent:
  assumes "todo s = a # as" "msgs s a = Some m" "distinct (todo s)" "a \<notin> set (pend s)"
    and "mbox_hw_send env is_vf (raw m) s = (0, s1)" "tx_sent a m s1 = Some s2" "tx_did env is_vf s2 s' sent dropped"
  shows "tx_did env is_vf s s' (a # sent) dropped"
proof -
  note same = hw_send_same [OF assms(5)]
  have s1: "todo s1 = a # as" "msgs s1 = msgs s" "pend s1 = pend s" using assms(1) by (subst same, simp)+
  have s2: "todo s2 = as" "pend s2 = pend s @ (if wait_resp m then [a] else [])"
      "msgs s2 = (if wait_resp m then msgs s else (msgs s)(a := None))" "regt s2 = regt s1"
    using assms(6) s1 by (auto simp: tx_sent_def Let_def qdma_mbox_msg_free_def split: if_splits)
  have as: "as = sent @ dropped @ todo s'" using assms(7) s2(1) by (simp add: tx_did_def)
  have na: "a \<notin> set as" using assms(1,3) by simp
  have old: "msgs s2 b = msgs s b" if "b \<in> set as" for b using that na s2(3) by auto
  have w: "waits s2 b = waits s b" if "b \<in> set as" for b using old [OF that] by (simp add: waits_def)
  have f: "filter (waits s2) sent = filter (waits s) sent" by (rule filter_cong) (use as w in auto)
  have wa: "waits s a = wait_resp m" using assms(2) by (simp add: waits_def)
  have c: "concat (map (\<lambda>a. message_writes (dev_regs env) is_vf (raw (the (msgs s2 a)))) sent)
      = concat (map (\<lambda>a. message_writes (dev_regs env) is_vf (raw (the (msgs s a)))) sent)"
    using as old by (intro arg_cong [where f = concat] map_cong) auto
  have "msgs s' a = (if waits s a then msgs s a else None)"
    using assms(7) na s2(1,3) wa by (auto simp: tx_did_def)
  with assms(1,2,7) as old w f wa c s2 hw_writes_send [OF assms(5)] na show ?thesis
    by (auto simp: tx_did_def)
qed

lemma tx_did_failed:
  assumes "todo s = a # as" "msgs s a = Some m" "\<not> offline s"
    and "mbox_hw_send env is_vf (raw m) s = (rv, s1)" "rv \<noteq> 0" "tx_failed a m s1 = Some s'"
  shows "\<exists>dropped. tx_did env is_vf s s' [] dropped"
proof -
  note same = hw_send_same [OF assms(4)]
  have s1: "todo s1 = a # as" "msgs s1 = msgs s" "pend s1 = pend s" "\<not> offline s1" using assms(1,3) by (subst same, simp)+
  have r: "hw_writes (regt s1) = hw_writes (regt s)" using hw_writes_send [OF assms(4)] assms(5) by simp
  show ?thesis
  proof (cases "\<not> wait_resp m \<and> retry_cnt m = 1")
    case True
    then have "s' = s1\<lparr>todo := as, msgs := (msgs s1)(a := None)\<rparr>"
      using assms(2,6) s1 by (simp add: tx_failed_def qdma_mbox_msg_free_def split: if_splits)
    then have "tx_did env is_vf s s' [] [a]" using True assms(1,2) s1 r by (simp add: tx_did_def)
    then show ?thesis by blast
  next
    case False
    then have "s' = s1\<lparr>msgs := (msgs s1)(a \<mapsto> m\<lparr>retry_cnt := retry_cnt m - of_bool (\<not> wait_resp m)\<rparr>), send_busy := True, timer := True\<rparr>"
      using assms(6) s1(4) by (auto simp: tx_failed_def split: if_splits)
    then have "tx_did env is_vf s s' [] []" using assms(1,2) s1 r by (simp add: tx_did_def)
    then show ?thesis by blast
  qed
qed

lemma tx_work_spec:
  assumes "lists_ok s" "\<not> offline s"
  shows "\<exists>s' sent dropped. mbox_tx_work env is_vf s = Some s' \<and> lists_ok s' \<and> \<not> offline s' \<and> tx_did env is_vf s s' sent dropped"
  using assms
proof (induction "length (todo s)" arbitrary: s rule: less_induct)
  case less
  show ?case
  proof (cases "todo s")
    case Nil
    with less.prems show ?thesis
      by (intro exI [of _ s] exI [of _ "[]"]) (simp add: mbox_tx_work.simps tx_did_def)
  next
    case (Cons a as)
    then obtain m where m: "msgs s a = Some m" using lists_okD(4) [OF less.prems(1), of a] by auto
    have a: "distinct (todo s)" "a \<notin> set (pend s)" using lists_okD(1,3) [OF less.prems(1)] Cons by auto
    obtain rv s1 where h: "mbox_hw_send env is_vf (raw m) s = (rv, s1)" by (cases "mbox_hw_send env is_vf (raw m) s")
    note same = hw_send_same [OF h]
    have s1: "todo s1 = a # as" "msgs s1 = msgs s" "lists_ok s1" "\<not> offline s1"
      using less.prems Cons by (subst same, simp)+
    show ?thesis
    proof (cases "rv = 0")
      case True
      obtain s2 where s2: "tx_sent a m s1 = Some s2" "lists_ok s2" "\<not> offline s2" "todo s2 = as"
        using tx_sent_ok [of s1 a as m] s1 m by auto
      then obtain s' sent dropped where r: "mbox_tx_work env is_vf s2 = Some s'" "lists_ok s'" "\<not> offline s'"
          "tx_did env is_vf s2 s' sent dropped" using less.hyps [of s2] Cons by auto
      have "mbox_tx_work env is_vf s = Some s'"
        using Cons m h True s2(1) r(1) by (subst mbox_tx_work.simps) simp
      then show ?thesis using r tx_did_sent [OF Cons m a h [unfolded True] s2(1) r(4)] by blast
    next
      case False
      obtain s' where s': "tx_failed a m s1 = Some s'" "lists_ok s'" "\<not> offline s'"
        using tx_failed_ok [of s1 a as m] s1 m by auto
      have "mbox_tx_work env is_vf s = Some s'"
        using Cons m h False s'(1) by (subst mbox_tx_work.simps) simp
      then show ?thesis using s' tx_did_failed [OF Cons m less.prems(2) h False s'(1)] by blast
    qed
  qed
qed

section \<open>The receive work\<close>

text \<open>A step that succeeds, keeps the lists in order and does not take the device offline.\<close>

definition fine :: "mbox_svc \<Rightarrow> (int \<times> mbox_svc) option \<Rightarrow> bool" where
  "fine s r \<longleftrightarrow> (\<exists>rv s'. r = Some (rv, s') \<and> lists_ok s' \<and> offline s' = offline s)"

lemma fineI: "r = Some (rv, s') \<Longrightarrow> lists_ok s' \<Longrightarrow> offline s' = offline s \<Longrightarrow> fine s r"
  by (auto simp: fine_def)

lemma find_response_Some:
  assumes "\<forall>a \<in> set as. h a \<noteq> None"
  shows "\<exists>r'. find_response h r as = Some r'"
    and "find_response h r as = Some (Some a) \<Longrightarrow> a \<in> set as \<and> (\<exists>m. h a = Some m \<and> raw_is_response (raw m) r)"
  using assms by (induction as) (auto split: if_splits)

lemma find_pending:
  assumes "lists_ok s" obtains r' where "find_response (msgs s) r (pend s) = Some r'"
  using find_response_Some(1) [of "pend s" "msgs s" r] lists_okD(4) [OF assms] by auto

lemma send_fresh:
  assumes "lists_ok s" "a \<notin> listed s" "msgs s a \<noteq> None" obtains rv s' where
    "msg_send is_vf a w t s = Some (rv, s')" "lists_ok s'" "offline s' = offline s"
  using msg_send_Some [OF assms(3), of is_vf w t] msg_send_ok [OF _ assms(1,2)] by (metis surj_pair)

lemma vf_answer_fine:
  assumes "lists_ok s" shows "fine s (vf_answer env s)"
proof -
  obtain ao s1 where al: "qdma_mbox_msg_alloc s = (ao, s1)" by (cases "qdma_mbox_msg_alloc s")
  show ?thesis
  proof (cases ao)
    case None
    with al alloc_None [of s s1] assms show ?thesis by (auto simp: vf_answer_def intro: fineI)
  next
    case (Some a)
    obtain rv resp where h: "qdma_mbox_vf_rcv_msg_handler (decode env (rx s)) msg_zero = (rv, resp)"
      by (cases "qdma_mbox_vf_rcv_msg_handler (decode env (rx s)) msg_zero")
    note a = alloc_spec [OF al [unfolded Some] assms]
    let ?s2 = "set_raw a (encode env resp) s1"
    have ok: "lists_ok ?s2" "a \<notin> listed ?s2" "msgs ?s2 a \<noteq> None" "offline ?s2 = offline s"
      using a by (simp_all add: lists_ok)
    have ok': "lists_ok (?s2\<lparr>reset := u\<rparr>)" "a \<notin> listed (?s2\<lparr>reset := u\<rparr>)" "msgs (?s2\<lparr>reset := u\<rparr>) a \<noteq> None" for u
      using ok by simp_all
    obtain r3 s3 where s3: "msg_send True a False QDMA_MBOX_MSG_TIMEOUT_MS ?s2 = Some (r3, s3)" "lists_ok s3"
        "offline s3 = offline ?s2" by (rule send_fresh [OF ok(1-3)])
    obtain r4 s4 where s4: "msg_send True a False QDMA_MBOX_MSG_TIMEOUT_MS
          (?s2\<lparr>reset := RESET_STATE_RECV_PF_RESET_DONE\<rparr>) = Some (r4, s4)" "lists_ok s4"
        "offline s4 = offline (?s2\<lparr>reset := RESET_STATE_RECV_PF_RESET_DONE\<rparr>)" by (rule send_fresh [OF ok'])
    show ?thesis using al Some h s3 s4 ok a(6)
      by (auto simp: vf_answer_def Let_def fine_def)
  qed
qed

lemma rcv_one_vf_fine:
  assumes "lists_ok s" shows "fine s (rcv_one_vf env s)"
proof -
  have l: "lists_ok (learn_ids s)" "offline (learn_ids s) = offline s" using assms by (simp_all add: learn_ids_def)
  obtain r where r: "find_response (msgs (learn_ids s)) (rx (learn_ids s)) (pend (learn_ids s)) = Some r"
    by (rule find_pending [OF l(1)])
  show ?thesis
  proof (cases r)
    case None
    with r l vf_answer_fine [OF l(1), of env] show ?thesis by (auto simp: rcv_one_vf_def Let_def fine_def)
  next
    case (Some a)
    let ?s2 = "set_matched a (learn_ids s)"
    have "lists_ok (set_raw a (rx ?s2) (?s2\<lparr>pend := remove1 a (pend ?s2)\<rparr>))"
      by (intro lists_ok unpend_ok l)
    with r Some l(2) show ?thesis by (auto simp: rcv_one_vf_def Let_def intro!: fineI)
  qed
qed

lemma pf_reply_fine:
  assumes ok: "lists_ok s" and resp: "b \<notin> listed s" "msgs s b \<noteq> None"
  shows "fine s (pf_reply b s)"
proof -
  obtain r where r: "find_response (msgs s) (rx s) (pend s) = Some r" by (rule find_pending [OF ok])
  show ?thesis
  proof (cases r)
    case None
    obtain s' where f: "qdma_mbox_msg_free b s = Some s'" using free_Some [of s b] resp by blast
    with r None free_ok [OF resp(1) ok f] free_offline [OF f] show ?thesis
      by (simp add: pf_reply_def fine_def)
  next
    case (Some a)
    have a: "a \<in> set (pend s)" using find_response_Some(2) [of "pend s" "msgs s" "rx s" a] r Some lists_okD(4) [OF ok] by auto
    define s1 where "s1 = set_raw a (rx s) ((set_matched a s)\<lparr>pend := remove1 a (pend s), woken := woken s @ [a]\<rparr>)"
    have "s1 = (set_raw a (rx s) ((set_matched a s)\<lparr>pend := remove1 a (pend (set_matched a s))\<rparr>))\<lparr>woken := woken s @ [a]\<rparr>"
      by (simp add: s1_def set_raw_def)
    moreover have "lists_ok (set_raw a (rx s) ((set_matched a s)\<lparr>pend := remove1 a (pend (set_matched a s))\<rparr>))"
      by (intro lists_ok unpend_ok ok)
    ultimately have s1: "lists_ok s1" by (simp only: lists_ok_upd)
    have l1: "todo s1 = todo s" "pend s1 = remove1 a (pend s)" "offline s1 = offline s"
      "\<And>c. (msgs s1 c = None) = (msgs s c = None)" by (simp_all add: s1_def)
    have na: "a \<notin> listed s1" using a lists_okD(2,3) [OF ok] l1 by (auto simp: set_remove1_eq)
    have ma: "msgs s1 a \<noteq> None" using a lists_okD(4) [OF ok, of a] l1(4) by simp
    then obtain s2 where s2: "qdma_mbox_msg_free a s1 = Some s2" using free_Some by blast
    have ab: "a \<noteq> b" using a resp(1) by auto
    have s2': "lists_ok s2" "b \<notin> listed s2" "msgs s2 b \<noteq> None" "offline s2 = offline s"
      using free_ok [OF na s1 s2] s2 resp l1(1-3) l1(4) [of b] ab lists_okD(2) [OF ok]
      by (auto simp: qdma_mbox_msg_free_def set_remove1_eq split: if_splits)
    obtain s3 where s3: "qdma_mbox_msg_free b s2 = Some s3" using free_Some s2'(3) by blast
    from r Some s2 s3 free_ok [OF s2'(2,1) s3] free_offline [OF s3] s2'(4) show ?thesis
      by (simp add: pf_reply_def s1_def [symmetric] fine_def)
  qed
qed

lemma sriov_simps [simp]:
  "lists_ok (xdev_sriov_vf_offline f s) = lists_ok s" "todo (xdev_sriov_vf_offline f s) = todo s"
  "pend (xdev_sriov_vf_offline f s) = pend s" "msgs (xdev_sriov_vf_offline f s) = msgs s"
  "offline (xdev_sriov_vf_offline f s) = offline s"
  "lists_ok (snd (xdev_sriov_vf_online f s)) = lists_ok s" "todo (snd (xdev_sriov_vf_online f s)) = todo s"
  "pend (snd (xdev_sriov_vf_online f s)) = pend s" "msgs (snd (xdev_sriov_vf_online f s)) = msgs s"
  "offline (snd (xdev_sriov_vf_online f s)) = offline s"
  by (auto simp: xdev_sriov_vf_offline_def xdev_sriov_vf_online_def Let_def split: option.splits)

lemma send_answer_fine:
  assumes "lists_ok s" "a \<notin> listed s" "msgs s a \<noteq> None" shows "fine s (send_answer a s)"
  by (rule send_fresh [OF assms, of False False QDMA_MBOX_MSG_TIMEOUT_MS]) (auto simp: send_answer_def fine_def)

lemma rcv_one_pf_fine:
  assumes "lists_ok s" shows "fine s (rcv_one_pf env s)"
proof -
  obtain ao s1 where al: "qdma_mbox_msg_alloc s = (ao, s1)" by (cases "qdma_mbox_msg_alloc s")
  show ?thesis
  proof (cases ao)
    case None
    with al alloc_None [of s s1] assms show ?thesis by (auto simp: rcv_one_pf_def intro: fineI)
  next
    case (Some a)
    obtain rv resp st where h: "qdma_mbox_pf_rcv_msg_handler (hw_env env) (dma_index env) (ucast (func s))
        (decode env (rx s)) msg_zero (mbst s) = (rv, resp, st)"
      by (cases "qdma_mbox_pf_rcv_msg_handler (hw_env env) (dma_index env) (ucast (func s)) (decode env (rx s)) msg_zero (mbst s)")
    note a = alloc_spec [OF al [unfolded Some] assms]
    define s2 where "s2 = (set_raw a (encode env resp) s1)\<lparr>mbst := st\<rparr>"
    have s2: "lists_ok s2" "a \<notin> listed s2" "msgs s2 a \<noteq> None" "offline s2 = offline s"
      using a by (simp_all add: s2_def lists_ok)
    have ev: "fine s (send_answer a (sriov_event env f s2))" "fine s (map_option (Pair 0) (qdma_mbox_msg_free a (sriov_event env f s2)))"
      if "\<And>g x. lists_ok (f g x) = lists_ok x" "\<And>g x. todo (f g x) = todo x" "\<And>g x. pend (f g x) = pend x"
        "\<And>g x. msgs (f g x) = msgs x" "\<And>g x. offline (f g x) = offline x" for f
    proof -
      let ?x = "sriov_event env f s2"
      have x: "lists_ok ?x" "a \<notin> listed ?x" "msgs ?x a \<noteq> None" "offline ?x = offline s"
        using s2 by (simp_all add: sriov_event_def that)
      from send_answer_fine [OF x(1-3)] x(4) show "fine s (send_answer a ?x)" by (simp add: fine_def)
      obtain y where y: "qdma_mbox_msg_free a ?x = Some y" using free_Some x(3) by blast
      from free_ok [OF x(2,1) y] free_offline [OF y] y x(4)
      show "fine s (map_option (Pair 0) (qdma_mbox_msg_free a ?x))" by (simp add: fine_def)
    qed
    have "fine s (pf_reply a s2)" "fine s (send_answer a s2)"
      using pf_reply_fine [OF s2(1-3)] send_answer_fine [OF s2(1-3)] s2(4) by (simp_all add: fine_def)
    with ev show ?thesis using al Some h by (simp add: rcv_one_pf_def Let_def s2_def [symmetric])
  qed
qed

section \<open>Reachable states\<close>

text \<open>
  The steps of the service and of its callers: a caller allocates a message, hands it over
  while it is on no list, ends its wait, frees a message that is on no list; the work routines run; the device stays
  online. What the hardware delivers into the receive buffer is arbitrary.
\<close>

inductive svc_reach :: "svc_env \<Rightarrow> bool \<Rightarrow> mbox_svc \<Rightarrow> bool" for env is_vf where
  svc_start: "todo s = [] \<Longrightarrow> pend s = [] \<Longrightarrow> \<forall>a. msgs s a = None \<Longrightarrow> \<not> offline s \<Longrightarrow> svc_reach env is_vf s"
| svc_alloc: "svc_reach env is_vf s \<Longrightarrow> qdma_mbox_msg_alloc s = (Some a, s1) \<Longrightarrow> svc_reach env is_vf s1"
| svc_send: "svc_reach env is_vf s \<Longrightarrow> a \<notin> listed s \<Longrightarrow>
    msg_send is_vf a wait ms (set_raw a r s) = Some (rv, s1) \<Longrightarrow> svc_reach env is_vf s1"
| svc_send_end: "svc_reach env is_vf s \<Longrightarrow> msg_send_end a s = Some (rv, s1) \<Longrightarrow> svc_reach env is_vf s1"
| svc_free: "svc_reach env is_vf s \<Longrightarrow> a \<notin> listed s \<Longrightarrow> qdma_mbox_msg_free a s = Some s1 \<Longrightarrow> svc_reach env is_vf s1"
| svc_tx: "svc_reach env is_vf s \<Longrightarrow> mbox_tx_work env is_vf s = Some s1 \<Longrightarrow> svc_reach env is_vf s1"
| svc_hw: "svc_reach env is_vf s \<Longrightarrow> svc_reach env is_vf (s\<lparr>rx := r, regt := t\<rparr>)"
| svc_rcv: "svc_reach env is_vf s \<Longrightarrow> mbox_rcv_one_msg env is_vf s = Some (rv, s1) \<Longrightarrow> svc_reach env is_vf s1"
| svc_timer: "svc_reach env is_vf s \<Longrightarrow> svc_reach env is_vf (mbox_timer_handler s)"

lemma send_end_ok: "msg_send_end a s = Some (rv, s') \<Longrightarrow> lists_ok s \<Longrightarrow> lists_ok s' \<and> offline s' = offline s"
  using unlist_ok [of s a] by (auto simp: msg_send_end_def split: option.splits if_splits)

lemma rcv_fine: "lists_ok s \<Longrightarrow> fine s (mbox_rcv_one_msg env is_vf s)"
  by (simp add: mbox_rcv_one_msg_def rcv_one_vf_fine rcv_one_pf_fine)

lemma svc_reach_ok: "svc_reach env is_vf s \<Longrightarrow> lists_ok s \<and> \<not> offline s"
proof (induction rule: svc_reach.induct)
  case (svc_alloc s a s1)
  from alloc_spec(1,6) [OF svc_alloc.hyps(2) conjunct1 [OF svc_alloc.IH]] svc_alloc.IH show ?case by simp
next
  case (svc_send s a wait ms r rv s1)
  from msg_send_ok [OF svc_send.hyps(3)] svc_send.hyps(2) svc_send.IH show ?case by (simp add: lists_ok)
next
  case (svc_send_end s a rv s1)
  then show ?case using send_end_ok by blast
next
  case (svc_free s a s1)
  then show ?case using free_ok free_offline by metis
next
  case (svc_tx s s1)
  then show ?case using tx_work_spec [of s env is_vf] by auto
next
  case (svc_rcv s rv s1)
  then show ?case using rcv_fine [of s env is_vf] by (auto simp: fine_def)
next
  case (svc_timer s)
  then show ?case by (simp add: mbox_timer_handler_def)
qed (auto simp: lists_ok_def)

text \<open>A VF with a free mailbox: its hello is queued, then sent and waiting for the answer.\<close>

definition demo_sv :: svc_env where
  "demo_sv = \<lparr>dev_regs = demo_vf, hw_env = demo_env, dma_index = 0, decode = \<lambda>_. msg_zero, encode = \<lambda>_. zero_raw,
     pci_iov = True, soft_2019 = True, timer_mode = True, workq_ok = True\<rparr>"

definition demo_idle :: mbox_svc where
  "demo_idle = \<lparr>msgs = \<lambda>_. None, allocs = 9, next_addr = 0, todo = [], pend = [], rx = [], send_busy = False,
     rx_poll = True, timer = True, tx_work = False, rx_work = False, woken = [], offline = False,
     reset = RESET_STATE_IDLE, reset_work = False, func = 1, func_parent = 0, vfs = [], vf_count_online = 0,
     regt = [], mbst = demo_st\<rparr>"

definition demo_msg :: mbox_msg where
  "demo_msg = \<lparr>wait_resp = True, resp_op_matched = False, retry_cnt = 11, raw = 1 # replicate 31 0\<rparr>"

definition demo_queued :: mbox_svc where
  "demo_queued = demo_idle\<lparr>msgs := [0 \<mapsto> demo_msg], allocs := 8, next_addr := 1, todo := [0], tx_work := True\<rparr>"

definition demo_pending :: "u32 list \<Rightarrow> mbox_svc" where
  "demo_pending r = demo_queued\<lparr>todo := [], pend := [0], rx := r\<rparr>"

lemma demo_queued_reach: "svc_reach env is_vf demo_queued"
proof -
  have "svc_reach env is_vf demo_idle" by (rule svc_start) (simp_all add: demo_idle_def)
  moreover have "qdma_mbox_msg_alloc demo_idle = (Some 0, snd (qdma_mbox_msg_alloc demo_idle))"
    by (simp add: qdma_mbox_msg_alloc_def demo_idle_def)
  ultimately have "svc_reach env is_vf (snd (qdma_mbox_msg_alloc demo_idle))" by (rule svc_alloc)
  then show ?thesis
    by (rule svc_send [where a = 0 and wait = True and ms = 10000 and r = "1 # replicate 31 0" and rv = 0])
      (simp_all add: msg_send_def set_raw_def qdma_mbox_msg_alloc_def demo_queued_def demo_idle_def demo_msg_def)
qed

lemma demo_tx: "mbox_tx_work demo_sv is_vf demo_queued
    = Some (demo_queued\<lparr>todo := [], pend := [0], regt := snd (qdma_mbox_send demo_vf is_vf (1 # replicate 31 0) [])\<rparr>)"
proof -
  let ?t = "snd (qdma_mbox_send demo_vf is_vf (1 # replicate 31 0) [])"
  have "mbox_hw_send demo_sv is_vf (raw demo_msg) demo_queued = (0, demo_queued\<lparr>regt := ?t\<rparr>)"
    by (simp add: mbox_hw_send_def demo_sv_def demo_msg_def demo_queued_def demo_idle_def qdma_mbox_send_def
        demo_vf_def Let_def status_out_def qdma_reg_read_def)
  then show ?thesis
    by (subst mbox_tx_work.simps, simp add: demo_queued_def demo_idle_def tx_sent_def demo_msg_def)
      (subst mbox_tx_work.simps, simp)
qed

lemma demo_sends: "\<exists>s'. mbox_tx_work demo_sv is_vf demo_queued = Some s' \<and> todo s' = []"
  by (simp add: demo_tx)

lemma demo_pending_reach: "svc_reach demo_sv is_vf (demo_pending r)"
  using svc_hw [OF svc_tx [OF demo_queued_reach demo_tx], where r = r and t = "[]"]
  by (simp add: demo_pending_def demo_queued_def demo_idle_def)



text \<open>
  Claim C25: one run of the send work sends a prefix of the queue: what it writes to the registers is,
  message by message and in the order of the queue, the words and the send command of each of them. What
  waits for an answer is appended, in the same order, to the pending list; the other sent messages are
  freed. At most one message is given up, one that does not wait and has no retry left. When messages are left and none was given up,
  the mailbox is busy and the timer is armed. No message that was not queued changes.
\<close>

theorem messages_leave_in_order:
  assumes "svc_reach env is_vf s" "mbox_tx_work env is_vf s = Some s'"
  shows "\<exists>sent dropped. todo s = sent @ dropped @ todo s' \<and> length dropped \<le> 1
    \<and> hw_writes (regt s') = hw_writes (regt s) @ concat (map (\<lambda>a. message_writes (dev_regs env) is_vf (raw (the (msgs s a)))) sent)
    \<and> pend s' = pend s @ filter (waits s) sent
    \<and> (\<forall>a \<in> set sent. msgs s' a = (if waits s a then msgs s a else None))
    \<and> (\<forall>a \<in> set dropped. \<exists>m. msgs s a = Some m \<and> \<not> wait_resp m \<and> retry_cnt m = 1 \<and> msgs s' a = None)
    \<and> (\<forall>a. a \<notin> set (todo s) \<longrightarrow> msgs s' a = msgs s a)
    \<and> (todo s' \<noteq> [] \<and> dropped = [] \<longrightarrow> send_busy s' \<and> timer s')"
proof -
  obtain sent dropped where "tx_did env is_vf s s' sent dropped"
    using tx_work_spec [of s env is_vf] svc_reach_ok [OF assms(1)] assms(2) by auto
  then show ?thesis unfolding tx_did_def by (intro exI [of _ sent] exI [of _ dropped]) blast
qed

theorem messages_leave_in_order_witness:
  "\<exists>s'. mbox_tx_work demo_sv True demo_queued = Some s' \<and> todo s' = [] \<and> pend s' = [0]
    \<and> hw_writes (regt s') = message_writes demo_vf True (1 # replicate 31 0)"
proof -
  obtain s' where s': "mbox_tx_work demo_sv True demo_queued = Some s'" "todo s' = []"
    using demo_sends by blast
  have q: "msgs demo_queued 0 = Some demo_msg" "todo demo_queued = [0]" "pend demo_queued = []" "regt demo_queued = []"
    by (simp_all add: demo_queued_def demo_idle_def)
  from messages_leave_in_order [OF demo_queued_reach s'(1)] obtain sent dropped where
    e: "todo demo_queued = sent @ dropped @ todo s'" "pend s' = pend demo_queued @ filter (waits demo_queued) sent"
      "hw_writes (regt s') = hw_writes (regt demo_queued)
        @ concat (map (\<lambda>a. message_writes (dev_regs demo_sv) True (raw (the (msgs demo_queued a)))) sent)"
      "\<forall>a \<in> set dropped. \<exists>m. msgs demo_queued a = Some m \<and> \<not> wait_resp m \<and> retry_cnt m = 1 \<and> msgs s' a = None"
    by blast
  then have d: "[0] = sent @ dropped" "pend s' = filter (waits demo_queued) sent"
      "hw_writes (regt s') = concat (map (\<lambda>a. message_writes demo_vf True (raw (the (msgs demo_queued a)))) sent)"
    using q s'(2) by (simp_all add: demo_sv_def)
  have "0 \<notin> set dropped" using e(4) q(1) by (auto simp: demo_msg_def)
  then have "sent = [0]" using d(1) by (cases sent) auto
  with d s' q(1) show ?thesis by (simp add: waits_def demo_msg_def)
qed




text \<open>
  When the device is offline and the mailbox busy, the send work frees the message at
  the head of the queue but leaves it there; the next run touches freed memory.
\<close>

theorem offline_send_leaves_dangling:
  assumes "offline s" "todo s = a # as" "msgs s a = Some m" "mbox_hw_send env is_vf (raw m) s = (- 22, s1)"
  shows "\<exists>s'. mbox_tx_work env is_vf s = Some s' \<and> hd (todo s') = a \<and> msgs s' a = None
    \<and> mbox_tx_work env is_vf s' = None"
proof -
  note same = hw_send_same [OF assms(4)]
  have s1: "todo s1 = a # as" "msgs s1 = msgs s" "offline s1" using assms by (subst same, simp)+
  let ?s' = "s1\<lparr>msgs := (msgs s1)(a := None)\<rparr>"
  have "mbox_tx_work env is_vf s = Some ?s'"
    using assms s1 by (subst mbox_tx_work.simps) (simp add: tx_failed_def qdma_mbox_msg_free_def)
  moreover have "mbox_tx_work env is_vf ?s' = None" using s1 by (subst mbox_tx_work.simps) simp
  ultimately show ?thesis using s1 by auto
qed

definition busy_sv :: svc_env where
  "busy_sv = demo_sv\<lparr>dev_regs := demo_vf\<lparr>reg_val := \<lambda>_ _. 2\<rparr>\<rparr>"

theorem offline_send_leaves_dangling_witness:
  "\<exists>s'. mbox_tx_work busy_sv True (demo_queued\<lparr>offline := True\<rparr>) = Some s' \<and> mbox_tx_work busy_sv True s' = None"
proof -
  have "fst (mbox_hw_send busy_sv True (raw demo_msg) (demo_queued\<lparr>offline := True\<rparr>)) = - 22"
    by (simp add: mbox_hw_send_def busy_sv_def demo_sv_def demo_vf_def qdma_mbox_send_def qdma_reg_read_def Let_def
        status_out_def)
  then have "mbox_hw_send busy_sv True (raw demo_msg) (demo_queued\<lparr>offline := True\<rparr>)
      = (- 22, snd (mbox_hw_send busy_sv True (raw demo_msg) (demo_queued\<lparr>offline := True\<rparr>)))"
    by (simp add: prod_eq_iff)
  from offline_send_leaves_dangling [OF _ _ _ this, of 0 "[]"] show ?thesis
    by (auto simp: demo_queued_def demo_idle_def)
qed

text \<open>
  Claim C35: when the PF gets the reply to a message it waits for, the receive side frees that
  message right after waking the sender, which then looks at it: the end of
  \<^verbatim>\<open>qdma_mbox_msg_send\<close> reads freed memory.
\<close>

theorem pf_reply_frees_waiting_message:
  assumes "svc_reach env False s" "b \<notin> listed s" "msgs s b \<noteq> None"
    and "find_response (msgs s) (rx s) (pend s) = Some (Some a)"
  shows "\<exists>s'. pf_reply b s = Some (0, s') \<and> a \<in> set (woken s') \<and> msg_send_end a s' = None"
proof -
  have ok: "lists_ok s" using svc_reach_ok [OF assms(1)] by simp
  have "a \<in> set (pend s)" using find_response_Some(2) [of "pend s" "msgs s" "rx s" a] assms(4) lists_okD(4) [OF ok] by auto
  then have "msgs s a \<noteq> None" "a \<noteq> b" using lists_okD(4) [OF ok, of a] assms(2) by auto
  with assms(3,4) show ?thesis
    by (auto simp: pf_reply_def Let_def set_raw_def set_matched_def qdma_mbox_msg_free_def msg_send_end_def)
qed

theorem pf_reply_frees_waiting_message_witness:
  "\<exists>s'. pf_reply 1 (snd (qdma_mbox_msg_alloc (demo_pending (0x81 # replicate 31 0)))) = Some (0, s')
    \<and> msg_send_end 0 s' = None"
proof -
  let ?s = "demo_pending (0x81 # replicate 31 0)"
  have "qdma_mbox_msg_alloc ?s = (Some 1, snd (qdma_mbox_msg_alloc ?s))"
    by (simp add: qdma_mbox_msg_alloc_def demo_pending_def demo_queued_def demo_idle_def)
  from svc_alloc [OF demo_pending_reach [of False] this]
  have "svc_reach demo_sv False (snd (qdma_mbox_msg_alloc ?s))" .
  from pf_reply_frees_waiting_message [OF this, of 1 0] show ?thesis
    by (auto simp: qdma_mbox_msg_alloc_def demo_pending_def demo_queued_def demo_idle_def demo_msg_def
        raw_is_response_def raw_op_def MBOX_MSG_OP_RSP_OFFSET_def)
qed

end
