(* ===== verification/Pl_Dma.thy ===== *)
theory Pl_Dma
  imports Pim_Prelude
begin

text \<open>
  The driver of the DMA engine that runs the PIM instructions
  (\<^verbatim>\<open>src/drv_src/dma_fops_pl.c\<close>, with the constants and register accessors of
  \<^verbatim>\<open>dma_lib_kern.h\<close> and the command numbers of \<^verbatim>\<open>include/pim.h\<close>), as built for x86-64 with
  \<^verbatim>\<open>PMM\<close>; both the polling waits and the interrupt variant (\<^verbatim>\<open>INTR_ENABLE\<close>) are here. The
  state is the sequence of what the driver does to the hardware and to user memory, and a
  clock that ticks with every read of the hardware. What the hardware and the kernel answer at
  each tick is the parameter \<open>pl_env\<close>.
\<close>

section \<open>Constants\<close>

abbreviation (input) SUCCESS :: int where "SUCCESS \<equiv> 0"
abbreviation (input) EDMA_TX :: int where "EDMA_TX \<equiv> 4"
abbreviation (input) EDMA_INTR :: int where "EDMA_INTR \<equiv> 5"
abbreviation (input) EIOCTL :: int where "EIOCTL \<equiv> 6"
abbreviation (input) EFAULT :: int where "EFAULT \<equiv> 14"

definition REG_CR :: u32 where "REG_CR = 0x00"
definition REG_SR :: u32 where "REG_SR = 0x04"
definition CURDESC_L :: u32 where "CURDESC_L = 0x08"
definition CURDESC_H :: u32 where "CURDESC_H = 0x0C"
definition TAILDESC_L :: u32 where "TAILDESC_L = 0x10"
definition TAILDESC_H :: u32 where "TAILDESC_H = 0x14"
definition REG_SA_L :: u32 where "REG_SA_L = 0x18"
definition REG_SA_H :: u32 where "REG_SA_H = 0x1C"
definition REG_DA_L :: u32 where "REG_DA_L = 0x20"
definition REG_DA_H :: u32 where "REG_DA_H = 0x24"
definition REG_BYTETRANS :: u32 where "REG_BYTETRANS = 0x28"

lemmas reg_defs = REG_CR_def REG_SR_def CURDESC_L_def CURDESC_H_def TAILDESC_L_def TAILDESC_H_def
  REG_SA_L_def REG_SA_H_def REG_DA_L_def REG_DA_H_def REG_BYTETRANS_def

definition CR_RESET :: u32 where "CR_RESET = 0x4"
definition CR_SG_EN :: u32 where "CR_SG_EN = 0x8"
definition SR_IOCIRQ :: u32 where "SR_IOCIRQ = 0x1000"
definition SR_ERR_IRQ :: u32 where "SR_ERR_IRQ = 0x4000"
definition SR_DLY_CNT_IRQ :: u32 where "SR_DLY_CNT_IRQ = 0x2000"
definition SR_IDLE :: u32 where "SR_IDLE = 0x2"
definition DESC_TX_COMPL :: u32 where "DESC_TX_COMPL = 0x80000000"
definition SR_TX_COMPL :: u32 where "SR_TX_COMPL = SR_IDLE OR SR_IOCIRQ"
definition CR_ALL_IRQ_MASK :: u32 where "CR_ALL_IRQ_MASK = SR_IOCIRQ OR SR_ERR_IRQ"
definition SR_ERR_RECOVER_MASK :: u32 where "SR_ERR_RECOVER_MASK = 0x800 OR 0x100 OR 0x80 OR 0x10"
definition SR_ALL_ERR_MASK :: u32 where "SR_ALL_ERR_MASK = 0x400 OR 0x200 OR 0x40 OR 0x20 OR 0x10"

abbreviation CDMA_MAX_POLLING :: nat where "CDMA_MAX_POLLING \<equiv> 10000000"
definition CDMA_MAX_COALESCE :: u32 where "CDMA_MAX_COALESCE = 0xff"
definition CDMA_COALESCE_SHIFT :: nat where "CDMA_COALESCE_SHIFT = 0x10"
definition HIGH_ADDR :: u32 where "HIGH_ADDR = 0"
definition AXI_MASK :: u64 where "AXI_MASK = 0x1FFFFFF"
definition AXIBAR :: u64 where "AXIBAR = 0"
definition CPY_CHUNK_SIZE :: u32 where "CPY_CHUNK_SIZE = 0x100000"
definition CONF_OFFSET_CLP_CLR :: u64 where "CONF_OFFSET_CLP_CLR = 0x7f00"
definition CONF_OFFSET_PIU_BASE_REG :: u64 where "CONF_OFFSET_PIU_BASE_REG = 0x6000"
definition AIMX_SPIM_CH_NUM :: nat where "AIMX_SPIM_CH_NUM = 16"

datatype pl_cmd = DMA_START | DESC_MEM_INFO | VA_TO_PA | VA_TO_KA | MEMCPY_PL2PL | MEMCPY_PL2PS
  | MEMCPY_PS2PL | FUSED_ELEW_ADD | FUSED_ELEW_SUB | MEMCPY_PL2RPL | PIU_BASE_ADDR_UPDATE | OTHER_CMD u32

section \<open>State\<close>

datatype pl_event = RegWr u32 u32 | ConfWr u64 u64 | DescFromUser u64 u32 | FromUser u64 u32
  | ToUser u64 u32 | ArgsToUser | FreeCoherent u32

record pl_state =
  clock :: nat
  trace :: "pl_event list"
  opcode :: pl_cmd
  err :: int

record pl_env =
  sr :: "nat \<Rightarrow> u32"
  desc_status :: "nat \<Rightarrow> u32 \<Rightarrow> u32"
  interrupt :: "nat \<Rightarrow> (u32 \<times> nat) option"
  idle_timeout :: "nat \<Rightarrow> bool"
  copy_fails :: "nat \<Rightarrow> bool"
  coherent :: "nat \<Rightarrow> u64 option"
  va_to_pa :: "u64 \<Rightarrow> u64"
  desc_mem_base :: u64
  dram_base :: u64
  hpc_clr_offset :: u64
  aim_working_offset :: u64
  junk_i :: u64

record pim_args =
  desc_host :: u64
  desc_idx :: u32
  desc_last :: u32
  desc_base :: u64
  args_dram_base :: u64
  va :: u64
  pa :: u64
  srcA_va :: u64
  srcA_ptr :: u64
  srcA_size :: u32
  dstC_va :: u64
  dstC_ptr :: u64
  pmm_base_addr :: u64

definition emit :: "pl_event \<Rightarrow> pl_state \<Rightarrow> pl_state" where
  "emit e s = s\<lparr>trace := trace s @ [e]\<rparr>"

definition tick :: "pl_state \<Rightarrow> pl_state" where
  "tick s = s\<lparr>clock := clock s + 1\<rparr>"

definition dma_ctrl_write :: "u32 \<Rightarrow> u32 \<Rightarrow> pl_state \<Rightarrow> pl_state" where
  "dma_ctrl_write offset val s = emit (RegWr offset val) s"

definition dma_ctrl_read_sr :: "pl_env \<Rightarrow> pl_state \<Rightarrow> u32 \<times> pl_state" where
  "dma_ctrl_read_sr env s = (sr env (clock s), tick s)"

definition dma_desc_read_status :: "pl_env \<Rightarrow> u32 \<Rightarrow> pl_state \<Rightarrow> u32 \<times> pl_state" where
  "dma_desc_read_status env idx s = (desc_status env (clock s) idx, tick s)"

section \<open>Polling waits\<close>

text \<open>The \<^verbatim>\<open>for\<close> loops; the first argument is the number of polls left.\<close>

fun wait_sg_loop :: "nat \<Rightarrow> pl_env \<Rightarrow> u32 \<Rightarrow> pl_state \<Rightarrow> int \<times> pl_state" where
  "wait_sg_loop 0 env idx s = (- EDMA_TX, s)"
| "wait_sg_loop (Suc n) env idx s =
     (case dma_ctrl_read_sr env s of (status, s1) \<Rightarrow>
        if status AND SR_ALL_ERR_MASK \<noteq> 0 then
          (let errors = status AND SR_ALL_ERR_MASK
           in (- EDMA_TX, dma_ctrl_write REG_CR CR_RESET
                 (dma_ctrl_write REG_SR (errors AND SR_ERR_RECOVER_MASK) s1)))
        else
          (case dma_desc_read_status env idx s1 of (st, s2) \<Rightarrow>
             if st AND DESC_TX_COMPL = DESC_TX_COMPL then
               (SUCCESS, dma_ctrl_write REG_CR CR_RESET (dma_ctrl_write REG_SR SR_IOCIRQ s2))
             else wait_sg_loop n env idx s2))"

definition wait_sg :: "pl_env \<Rightarrow> u32 \<Rightarrow> pl_state \<Rightarrow> int \<times> pl_state" where
  "wait_sg env idx s = wait_sg_loop CDMA_MAX_POLLING env idx s"

fun wait_simple_loop :: "nat \<Rightarrow> pl_env \<Rightarrow> pl_state \<Rightarrow> int \<times> pl_state" where
  "wait_simple_loop 0 env s = (- EDMA_TX, dma_ctrl_write REG_CR CR_RESET s)"
| "wait_simple_loop (Suc n) env s =
     (case dma_ctrl_read_sr env s of (status, s1) \<Rightarrow>
        if status AND SR_ALL_ERR_MASK \<noteq> 0 then
          (let errors = status AND SR_ALL_ERR_MASK
           in (- EDMA_TX, dma_ctrl_write REG_CR CR_RESET
                 (dma_ctrl_write REG_SR (errors AND SR_ERR_RECOVER_MASK) s1)))
        else if status AND SR_TX_COMPL = SR_TX_COMPL then
          (SUCCESS, dma_ctrl_write REG_CR CR_RESET (dma_ctrl_write REG_SR SR_IOCIRQ s1))
        else wait_simple_loop n env s1)"

definition wait_simple :: "pl_env \<Rightarrow> pl_state \<Rightarrow> int \<times> pl_state" where
  "wait_simple env s = wait_simple_loop CDMA_MAX_POLLING env s"

section \<open>The interrupt handler\<close>

text \<open>The flag says whether the handler reaches \<^verbatim>\<open>complete(&cdma_dev->compl)\<close>.\<close>

definition pl_dma_irq_handler :: "u32 \<Rightarrow> pl_state \<Rightarrow> bool \<times> pl_state" where
  "pl_dma_irq_handler status s =
     (if status AND SR_ERR_IRQ \<noteq> 0 then
        (let errors = status AND SR_ALL_ERR_MASK;
             s1 = dma_ctrl_write REG_SR (errors AND SR_ERR_RECOVER_MASK) s;
             s2 = dma_ctrl_write REG_CR CR_RESET s1
         in (False, s2\<lparr>err := - EDMA_INTR\<rparr>))
      else if status AND SR_DLY_CNT_IRQ \<noteq> 0 then
        (False, dma_ctrl_write REG_SR (SR_IOCIRQ OR SR_DLY_CNT_IRQ OR SR_ERR_IRQ) (s\<lparr>err := - EDMA_INTR\<rparr>))
      else
        (True, dma_ctrl_write REG_CR CR_RESET
           (dma_ctrl_write REG_SR (SR_IOCIRQ OR SR_DLY_CNT_IRQ OR SR_ERR_IRQ) (s\<lparr>err := 0\<rparr>))))"

text \<open>
  \<^verbatim>\<open>wait_for_completion_timeout\<close>: 0 on timeout, else the jiffies left. At most one interrupt
  arrives while the caller waits; it wakes the caller only if the handler completes.
\<close>

definition wait_completion :: "pl_env \<Rightarrow> pl_state \<Rightarrow> int \<times> pl_state" where
  "wait_completion env s =
     (case interrupt env (clock s) of
        None \<Rightarrow> (0, tick s)
      | Some (status, left) \<Rightarrow>
          (case pl_dma_irq_handler status (tick s) of
             (woken, s') \<Rightarrow> (if woken then int (Suc left) else 0, s')))"

section \<open>Transfers\<close>

definition single_setup :: "u32 \<Rightarrow> u32 \<Rightarrow> u32 \<Rightarrow> u32 \<Rightarrow> u32 \<Rightarrow> pl_state \<Rightarrow> pl_state" where
  "single_setup src_low src_high dst_low dst_high copy_len s =
     dma_ctrl_write REG_BYTETRANS copy_len
       (dma_ctrl_write REG_DA_H dst_high (dma_ctrl_write REG_DA_L dst_low
         (dma_ctrl_write REG_SA_H src_high (dma_ctrl_write REG_SA_L src_low
           (dma_ctrl_write REG_SR SR_IOCIRQ s)))))"

definition dma_single_tx :: "pl_env \<Rightarrow> u32 \<Rightarrow> u32 \<Rightarrow> u32 \<Rightarrow> u32 \<Rightarrow> u32 \<Rightarrow> pl_state \<Rightarrow> int \<times> pl_state" where
  "dma_single_tx env src_low src_high dst_low dst_high copy_len s =
     (case wait_simple env (single_setup src_low src_high dst_low dst_high copy_len s) of
        (ret, s1) \<Rightarrow> (if ret < 0 then - EDMA_TX else SUCCESS, s1))"

definition dma_single_tx_intr :: "pl_env \<Rightarrow> u32 \<Rightarrow> u32 \<Rightarrow> u32 \<Rightarrow> u32 \<Rightarrow> u32 \<Rightarrow> pl_state \<Rightarrow> int \<times> pl_state" where
  "dma_single_tx_intr env src_low src_high dst_low dst_high copy_len s =
     (let s1 = dma_ctrl_write REG_CR (CR_ALL_IRQ_MASK OR push_bit CDMA_COALESCE_SHIFT 1)
                 (single_setup src_low src_high dst_low dst_high copy_len s)
      in case wait_completion env s1 of
           (ret, s2) \<Rightarrow>
             if ret = 0 then (- EDMA_TX, s2)
             else if err s2 < 0 then (- EDMA_INTR, s2)
             else (SUCCESS, s2))"

text \<open>One scatter-gather run of the engine over the descriptors from \<open>fdesc\<close> to \<open>ldesc\<close>.\<close>

definition sg_setup :: "u32 \<Rightarrow> u32 \<Rightarrow> u32 \<Rightarrow> pl_state \<Rightarrow> pl_state" where
  "sg_setup cr fdesc ldesc s =
     dma_ctrl_write TAILDESC_H HIGH_ADDR (dma_ctrl_write TAILDESC_L ldesc
       (dma_ctrl_write CURDESC_H HIGH_ADDR (dma_ctrl_write CURDESC_L fdesc
         (dma_ctrl_write REG_SR SR_IOCIRQ (dma_ctrl_write REG_CR cr s)))))"

definition dma_sg_tx :: "pl_env \<Rightarrow> u32 \<Rightarrow> u32 \<Rightarrow> pl_state \<Rightarrow> int \<times> pl_state" where
  "dma_sg_tx env idx last_desc s =
     wait_sg env idx (sg_setup CR_SG_EN (ucast (desc_mem_base env)) (last_desc - 0x40) s)"

definition sg_run_intr :: "pl_env \<Rightarrow> u32 \<Rightarrow> u32 \<Rightarrow> u32 \<Rightarrow> pl_state \<Rightarrow> int \<times> pl_state" where
  "sg_run_intr env count fdesc ldesc s =
     (let num_intr = push_bit CDMA_COALESCE_SHIFT count
      in case wait_completion env (sg_setup (CR_SG_EN OR CR_ALL_IRQ_MASK OR num_intr) fdesc ldesc s) of
           (ret, s1) \<Rightarrow>
             if ret = 0 then (- EDMA_TX, s1)
             else if err s1 < 0 then (- EDMA_INTR, s1) else (ret, s1))"

text \<open>The runs of the interrupt variant: how many descriptors, the first and the last address.\<close>

definition chunk_runs :: "u64 \<Rightarrow> u32 \<Rightarrow> (u32 \<times> u32 \<times> u32) list" where
  "chunk_runs base idx = map (\<lambda>k.
     (let offset = of_nat k * CDMA_MAX_COALESCE * 0x40;
          start = ucast base + offset
      in (CDMA_MAX_COALESCE, start, start + (CDMA_MAX_COALESCE - 1) * 0x40)))
     [0..<unat (idx div CDMA_MAX_COALESCE)]"

definition sg_runs :: "u64 \<Rightarrow> u32 \<Rightarrow> u32 \<Rightarrow> (u32 \<times> u32 \<times> u32) list" where
  "sg_runs base idx last_desc =
     (if idx < CDMA_MAX_COALESCE then [(idx, ucast base, last_desc - 0x40)]
      else chunk_runs base idx @
        (let remain = idx mod CDMA_MAX_COALESCE
         in if remain \<noteq> 0 then
              (case last (chunk_runs base idx) of
                 (_, _, end_desc) \<Rightarrow> [(remain, end_desc + 0x40, last_desc - 0x40)])
            else []))"

fun run_all :: "pl_env \<Rightarrow> (u32 \<times> u32 \<times> u32) list \<Rightarrow> int \<Rightarrow> pl_state \<Rightarrow> int \<times> pl_state" where
  "run_all env [] ret s = (ret, s)"
| "run_all env ((count, fdesc, ldesc) # runs) ret s =
     (case sg_run_intr env count fdesc ldesc s of
        (r, s1) \<Rightarrow> if r < 0 then (r, s1) else run_all env runs r s1)"

definition dma_sg_tx_intr :: "pl_env \<Rightarrow> u32 \<Rightarrow> u32 \<Rightarrow> pl_state \<Rightarrow> int \<times> pl_state" where
  "dma_sg_tx_intr env idx last_desc s = run_all env (sg_runs (desc_mem_base env) idx last_desc) 0 s"

section \<open>The ioctl\<close>

definition user_copy :: "pl_env \<Rightarrow> pl_event \<Rightarrow> pl_state \<Rightarrow> bool \<times> pl_state" where
  "user_copy env e s = (copy_fails env (clock s), tick (emit e s))"

definition conf_write :: "u64 \<Rightarrow> u64 \<Rightarrow> pl_state \<Rightarrow> pl_state" where
  "conf_write offset val s = emit (ConfWr offset val) s"

text \<open>
  \<^verbatim>\<open>DMA_START\<close>. The local \<^verbatim>\<open>i\<close> that indexes the clear and start signals is never
  assigned: its value is \<open>junk_i\<close>. The offsets of these two signals are not defined in the
  repository's headers and are fields of \<open>pl_env\<close>.
\<close>

definition clear_signals :: "pl_env \<Rightarrow> pl_state \<Rightarrow> pl_state" where
  "clear_signals env s =
     conf_write (aim_working_offset env + 4 * junk_i env) 0
       (conf_write (hpc_clr_offset env + 4 * junk_i env) 0 s)"

definition ioctl_dma_start :: "pl_env \<Rightarrow> pim_args \<Rightarrow> pl_state \<Rightarrow> int \<times> pl_state" where
  "ioctl_dma_start env args s =
     (if idle_timeout env (clock s) then (- EIOCTL, tick s)
      else
        (case user_copy env (DescFromUser (desc_host args) ((desc_idx args + 1) * 0x40)) (tick s) of
           (failed, s1) \<Rightarrow>
             if failed then (- EIOCTL, s1)
             else
               (case dma_sg_tx env (desc_idx args) (desc_last args) (clear_signals env s1) of
                  (ret, s2) \<Rightarrow>
                    if ret < 0 then (- EDMA_TX, s2)
                    else (SUCCESS, conf_write CONF_OFFSET_CLP_CLR 0 (clear_signals env s2)))))"

definition ioctl_pl2pl :: "pl_env \<Rightarrow> pim_args \<Rightarrow> pl_state \<Rightarrow> int \<times> pl_state" where
  "ioctl_pl2pl env args s =
     (let src_pa = va_to_pa env (srcA_va args) - dram_base env;
          dst_pa = va_to_pa env (dstC_va args) - dram_base env
      in case dma_single_tx env (ucast src_pa) HIGH_ADDR (ucast dst_pa) HIGH_ADDR (srcA_size args) s of
           (ret, s1) \<Rightarrow> (if ret < 0 then - EDMA_TX else SUCCESS, s1))"

definition copy_len_of :: "u32 \<Rightarrow> u32" where
  "copy_len_of sz = (if sz > CPY_CHUNK_SIZE then CPY_CHUNK_SIZE else sz)"

definition num_chunk_of :: "u32 \<Rightarrow> u32" where
  "num_chunk_of sz = (if sz mod CPY_CHUNK_SIZE \<noteq> 0 then sz div CPY_CHUNK_SIZE + 1
     else sz div CPY_CHUNK_SIZE)"

text \<open>The two chunk loops: \<open>n\<close> iterations left, \<open>i\<close> done.\<close>

fun pl2ps_loop :: "nat \<Rightarrow> u32 \<Rightarrow> pl_env \<Rightarrow> pim_args \<Rightarrow> u32 \<Rightarrow> u64 \<Rightarrow> pl_state \<Rightarrow> int \<times> pl_state" where
  "pl2ps_loop 0 i env args copy_len handle s = (SUCCESS, s)"
| "pl2ps_loop (Suc n) i env args copy_len handle s =
     (let src_pa = (va_to_pa env (srcA_va args + ucast (i * CPY_CHUNK_SIZE)) AND AXI_MASK) + AXIBAR
      in case dma_single_tx env (ucast src_pa) HIGH_ADDR (ucast handle) 0x80 copy_len s of
           (ret, s1) \<Rightarrow>
             if ret < 0 then (- EDMA_TX, s1)
             else
               (case user_copy env (ToUser (dstC_ptr args + ucast (i * CPY_CHUNK_SIZE)) copy_len) s1 of
                  (failed, s2) \<Rightarrow>
                    if failed then (- EFAULT, s2)
                    else pl2ps_loop n (i + 1) env args copy_len handle s2))"

fun ps2pl_loop :: "nat \<Rightarrow> u32 \<Rightarrow> pl_env \<Rightarrow> pim_args \<Rightarrow> u32 \<Rightarrow> u64 \<Rightarrow> pl_state \<Rightarrow> int \<times> pl_state" where
  "ps2pl_loop 0 i env args copy_len handle s = (SUCCESS, s)"
| "ps2pl_loop (Suc n) i env args copy_len handle s =
     (case user_copy env (FromUser (srcA_ptr args + ucast (i * CPY_CHUNK_SIZE)) copy_len) s of
        (failed, s1) \<Rightarrow>
          if failed then (- EFAULT, s1)
          else
            (let dst_pa = (va_to_pa env (dstC_va args) AND AXI_MASK) + AXIBAR
             in case dma_single_tx env (ucast handle) 0x80 (ucast dst_pa) HIGH_ADDR copy_len s1 of
                  (ret, s2) \<Rightarrow>
                    if ret < 0 then (- EDMA_TX, s2)
                    else ps2pl_loop n (i + 1) env args copy_len handle s2))"

definition ioctl_pl2ps :: "pl_env \<Rightarrow> pim_args \<Rightarrow> pl_state \<Rightarrow> int \<times> pl_state" where
  "ioctl_pl2ps env args s =
     (case coherent env (clock s) of
        None \<Rightarrow> (- EFAULT, tick s)
      | Some handle \<Rightarrow>
          (case pl2ps_loop (unat (num_chunk_of (srcA_size args))) 0 env args
                  (copy_len_of (srcA_size args)) handle (tick s) of
             (ret, s1) \<Rightarrow> if ret < 0 then (ret, s1)
                         else (SUCCESS, emit (FreeCoherent (srcA_size args)) s1)))"

definition ioctl_ps2pl :: "pl_env \<Rightarrow> pim_args \<Rightarrow> pl_state \<Rightarrow> int \<times> pl_state" where
  "ioctl_ps2pl env args s =
     (case coherent env (clock s) of
        None \<Rightarrow> (- EFAULT, tick s)
      | Some handle \<Rightarrow>
          (case ps2pl_loop (unat (num_chunk_of (srcA_size args))) 0 env args
                  (copy_len_of (srcA_size args)) handle (tick s) of
             (ret, s1) \<Rightarrow> if ret < 0 then (ret, s1)
                         else (SUCCESS, emit (FreeCoherent (srcA_size args)) s1)))"

definition ioctl_piu_base :: "pim_args \<Rightarrow> pl_state \<Rightarrow> pl_state" where
  "ioctl_piu_base args s =
     fold (\<lambda>k. conf_write (CONF_OFFSET_PIU_BASE_REG + of_nat (k * 0x20)) (ucast (ucast (pmm_base_addr args) :: u32)))
       [0..<AIMX_SPIM_CH_NUM] s"

definition args_back :: "pl_env \<Rightarrow> pim_args \<Rightarrow> pim_args \<Rightarrow> pl_state \<Rightarrow> int \<times> pim_args \<times> pl_state" where
  "args_back env old new s =
     (case user_copy env ArgsToUser s of
        (failed, s1) \<Rightarrow> if failed then (- EFAULT, old, s1) else (SUCCESS, new, s1))"

text \<open>The result, the user's \<^verbatim>\<open>pim_args\<close> afterwards, and the state.\<close>

definition pl_dma_ioctl :: "pl_env \<Rightarrow> pl_cmd \<Rightarrow> pim_args \<Rightarrow> pl_state \<Rightarrow> int \<times> pim_args \<times> pl_state" where
  "pl_dma_ioctl env cmd args s0 =
     (if copy_fails env (clock s0) then (- EIOCTL, args, tick s0)
      else
        (let s = dma_ctrl_write REG_CR CR_RESET ((tick s0)\<lparr>opcode := cmd\<rparr>);
             keep = (\<lambda>r. case r of (ret, s') \<Rightarrow> (ret, args, s'))
         in case cmd of
              DMA_START \<Rightarrow> keep (ioctl_dma_start env args s)
            | DESC_MEM_INFO \<Rightarrow>
                args_back env args (args\<lparr>desc_base := desc_mem_base env, args_dram_base := dram_base env\<rparr>) s
            | VA_TO_PA \<Rightarrow>
                args_back env args (args\<lparr>pa := va_to_pa env (va args) - dram_base env\<rparr>) s
            | MEMCPY_PL2PL \<Rightarrow> keep (ioctl_pl2pl env args s)
            | MEMCPY_PL2PS \<Rightarrow> keep (ioctl_pl2ps env args s)
            | MEMCPY_PS2PL \<Rightarrow> keep (ioctl_ps2pl env args s)
            | PIU_BASE_ADDR_UPDATE \<Rightarrow> (SUCCESS, args, ioctl_piu_base args s)
            | _ \<Rightarrow> (SUCCESS, args, s)))"

section \<open>What the waits report\<close>

definition sr_error :: "pl_env \<Rightarrow> nat \<Rightarrow> bool" where
  "sr_error env t \<longleftrightarrow> sr env t AND SR_ALL_ERR_MASK \<noteq> 0"

definition desc_done :: "pl_env \<Rightarrow> u32 \<Rightarrow> nat \<Rightarrow> bool" where
  "desc_done env idx t \<longleftrightarrow> desc_status env t idx AND DESC_TX_COMPL = DESC_TX_COMPL"

definition simple_done :: "pl_env \<Rightarrow> nat \<Rightarrow> bool" where
  "simple_done env t \<longleftrightarrow> sr env t AND SR_TX_COMPL = SR_TX_COMPL"

lemma emit_simps [simp]:
  "clock (emit e s) = clock s" "trace (emit e s) = trace s @ [e]" "err (emit e s) = err s"
  "opcode (emit e s) = opcode s" "clock (tick s) = Suc (clock s)" "trace (tick s) = trace s"
  "err (tick s) = err s" "opcode (tick s) = opcode s"
  by (simp_all add: emit_def tick_def)

lemma wait_sg_step:
  "wait_sg_loop (Suc n) env idx s =
     (if sr_error env (clock s) then
        (- EDMA_TX, dma_ctrl_write REG_CR CR_RESET
           (dma_ctrl_write REG_SR (sr env (clock s) AND SR_ALL_ERR_MASK AND SR_ERR_RECOVER_MASK) (tick s)))
      else if desc_done env idx (Suc (clock s)) then
        (SUCCESS, dma_ctrl_write REG_CR CR_RESET (dma_ctrl_write REG_SR SR_IOCIRQ (tick (tick s))))
      else wait_sg_loop n env idx (tick (tick s)))"
  by (simp add: dma_ctrl_read_sr_def dma_desc_read_status_def sr_error_def desc_done_def Let_def and.assoc)

lemma wait_simple_step:
  "wait_simple_loop (Suc n) env s =
     (if sr_error env (clock s) then
        (- EDMA_TX, dma_ctrl_write REG_CR CR_RESET
           (dma_ctrl_write REG_SR (sr env (clock s) AND SR_ALL_ERR_MASK AND SR_ERR_RECOVER_MASK) (tick s)))
      else if simple_done env (clock s) then
        (SUCCESS, dma_ctrl_write REG_CR CR_RESET (dma_ctrl_write REG_SR SR_IOCIRQ (tick s)))
      else wait_simple_loop n env (tick s))"
  by (simp add: dma_ctrl_read_sr_def sr_error_def simple_done_def Let_def and.assoc)

lemmas wait_loops_del = wait_sg_loop.simps(2) wait_simple_loop.simps(2)

lemma ex_less_Suc: "(\<exists>j < Suc n. P j) \<longleftrightarrow> P 0 \<or> (\<exists>j < n. P (Suc j))"
  by (auto simp: less_Suc_eq_0_disj)

lemma all_le_Suc: "(\<forall>i \<le> Suc j. P i) \<longleftrightarrow> P 0 \<and> (\<forall>i \<le> j. P (Suc i))"
  by (metis Suc_le_mono bot_nat_0.extremum not0_implies_Suc)

lemma wait_sg_loop_success:
  "fst (wait_sg_loop n env idx s) = SUCCESS \<longleftrightarrow>
     (\<exists>j < n. desc_done env idx (clock s + 2 * j + 1) \<and> (\<forall>i \<le> j. \<not> sr_error env (clock s + 2 * i)))"
proof (induction n arbitrary: s)
  case (Suc n)
  let ?P = "\<lambda>j. desc_done env idx (clock s + 2 * j + 1) \<and> (\<forall>i \<le> j. \<not> sr_error env (clock s + 2 * i))"
  have shift: "?P (Suc j) \<longleftrightarrow> \<not> sr_error env (clock s) \<and>
      desc_done env idx (clock (tick (tick s)) + 2 * j + 1) \<and>
      (\<forall>i \<le> j. \<not> sr_error env (clock (tick (tick s)) + 2 * i))" for j
    unfolding all_le_Suc by auto
  show ?case
    unfolding ex_less_Suc shift
    using Suc.IH [of "tick (tick s)"] by (auto simp: wait_sg_step simp del: wait_loops_del)
qed simp

lemma wait_simple_loop_success:
  "fst (wait_simple_loop n env s) = SUCCESS \<longleftrightarrow>
     (\<exists>j < n. simple_done env (clock s + j) \<and> (\<forall>i \<le> j. \<not> sr_error env (clock s + i)))"
proof (induction n arbitrary: s)
  case (Suc n)
  let ?P = "\<lambda>j. simple_done env (clock s + j) \<and> (\<forall>i \<le> j. \<not> sr_error env (clock s + i))"
  have shift: "?P (Suc j) \<longleftrightarrow> \<not> sr_error env (clock s) \<and>
      simple_done env (clock (tick s) + j) \<and> (\<forall>i \<le> j. \<not> sr_error env (clock (tick s) + i))" for j
    unfolding all_le_Suc by auto
  show ?case
    unfolding ex_less_Suc shift
    using Suc.IH [of "tick s"] by (auto simp: wait_simple_step simp del: wait_loops_del)
qed simp

lemma dma_ctrl_write_trace [simp]:
  "trace (dma_ctrl_write r v s) = trace s @ [RegWr r v]" "clock (dma_ctrl_write r v s) = clock s"
  "err (dma_ctrl_write r v s) = err s"
  by (simp_all add: dma_ctrl_write_def)

lemma wait_simple_loop_resets:
  "\<exists>xs. trace (snd (wait_simple_loop n env s)) = trace s @ xs @ [RegWr REG_CR CR_RESET]"
proof (induction n arbitrary: s)
  case (Suc n)
  from Suc.IH [of "tick s"] show ?case by (auto simp: wait_simple_step simp del: wait_loops_del)
qed simp

lemma wait_result_range:
  "fst (wait_sg_loop n env idx s) \<in> {SUCCESS, - EDMA_TX}"
  "fst (wait_simple_loop n env s) \<in> {SUCCESS, - EDMA_TX}"
  by (induction n arbitrary: s) (auto simp: wait_sg_step wait_simple_step simp del: wait_loops_del)

lemma wait_sg_loop_timeout:
  assumes "\<forall>j < n. \<not> sr_error env (clock s + 2 * j) \<and> \<not> desc_done env idx (clock s + 2 * j + 1)"
  shows "wait_sg_loop n env idx s = (- EDMA_TX, s\<lparr>clock := clock s + 2 * n\<rparr>)"
  using assms
proof (induction n arbitrary: s)
  case (Suc n)
  have "\<forall>j < n. \<not> sr_error env (clock (tick (tick s)) + 2 * j) \<and> \<not> desc_done env idx (clock (tick (tick s)) + 2 * j + 1)"
  proof (intro allI impI)
    fix j assume "j < n"
    with Suc.prems have "\<not> sr_error env (clock s + 2 * Suc j) \<and> \<not> desc_done env idx (clock s + 2 * Suc j + 1)"
      by blast
    then show "\<not> sr_error env (clock (tick (tick s)) + 2 * j) \<and> \<not> desc_done env idx (clock (tick (tick s)) + 2 * j + 1)"
      by simp
  qed
  moreover have "\<not> sr_error env (clock s)" "\<not> desc_done env idx (Suc (clock s))"
    using Suc.prems by (auto dest: spec [of _ 0])
  ultimately show ?case using Suc.IH [of "tick (tick s)"]
    by (simp add: wait_sg_step tick_def del: wait_loops_del)
qed simp


section \<open>Descriptor runs\<close>

definition run_descs :: "u32 \<times> u32 \<times> u32 \<Rightarrow> u32 list" where
  "run_descs r = (case r of (count, fdesc, ldesc) \<Rightarrow> map (\<lambda>j. fdesc + 0x40 * of_nat j) [0..<unat count])"

definition run_ok :: "u32 \<times> u32 \<times> u32 \<Rightarrow> bool" where
  "run_ok r \<longleftrightarrow> (case r of (count, fdesc, ldesc) \<Rightarrow>
     0 < count \<and> count \<le> CDMA_MAX_COALESCE \<and> ldesc = fdesc + 0x40 * (count - 1))"

lemma chunk_runs_eq:
  "chunk_runs base idx = map (\<lambda>k. (255, ucast base + 0x40 * of_nat (k * 255),
     ucast base + 0x40 * of_nat (k * 255) + 0x40 * 254)) [0..<unat (idx div CDMA_MAX_COALESCE)]"
  unfolding chunk_runs_def Let_def CDMA_MAX_COALESCE_def
  by (rule map_cong) (simp_all add: algebra_simps)

lemma concat_blocks:
  "concat (map (\<lambda>k. map (\<lambda>j. f (k * m + j)) [0..<m]) [0..<n]) = map f [0..<n * m]"
proof (induction n)
  case (Suc n)
  have "map f [n * m..<m + n * m] = map (\<lambda>j. f (n * m + j)) [0..<m]"
    unfolding map_add_upt [of "n * m" m, symmetric] by (simp add: comp_def add.commute)
  moreover have "[0..<m + n * m] = [0..<n * m] @ [n * m..<m + n * m]"
    using upt_add_eq_append [of 0 "n * m" m] by (simp add: add.commute)
  ultimately show ?case using Suc by simp
qed simp

lemma chunk_runs_descs:
  "concat (map run_descs (chunk_runs base idx)) =
    map (\<lambda>j. ucast base + 0x40 * of_nat j) [0..<unat (idx div CDMA_MAX_COALESCE) * 255]"
proof -
  have "run_descs (255, ucast base + 0x40 * of_nat (k * 255), l) =
      map (\<lambda>j. (\<lambda>i. ucast base + 0x40 * of_nat i) (k * 255 + j)) [0..<255]" for k l
  proof -
    have "unat (255 :: u32) = 255" by simp
    then show ?thesis unfolding run_descs_def prod.case
      by (simp only:) (rule map_cong, simp_all only: of_nat_add algebra_simps)
  qed
  then show ?thesis
    unfolding chunk_runs_eq map_map comp_def
    using concat_blocks [of "\<lambda>i. ucast base + 0x40 * of_nat i" 255] by (simp only:)
qed

lemma chunk_runs_ok: "list_all run_ok (chunk_runs base idx)"
  unfolding chunk_runs_eq by (auto simp: list_all_iff run_ok_def CDMA_MAX_COALESCE_def)

lemma sg_runs_props:
  assumes "idx \<noteq> 0" "last_desc = ucast base + 0x40 * idx"
  shows "concat (map run_descs (sg_runs base idx last_desc)) =
      map (\<lambda>j. ucast base + 0x40 * of_nat j) [0..<unat idx]"
    and "list_all run_ok (sg_runs base idx last_desc)"
proof -
  let ?a = "unat (idx div CDMA_MAX_COALESCE)" and ?r = "idx mod CDMA_MAX_COALESCE"
  have a: "?a = unat idx div 255" "unat ?r = unat idx mod 255"
    by (simp_all add: CDMA_MAX_COALESCE_def unat_div unat_mod)
  have un: "unat idx = ?a * 255 + unat ?r" unfolding a by simp
  then have "(of_nat (unat idx) :: u32) = of_nat (?a * 255 + unat ?r)" by (rule arg_cong)
  then have idxr: "idx = of_nat (?a * 255) + ?r" by (simp del: of_nat_mult)
  have r255: "?r < 255" by (simp add: word_less_nat_alt a(2))
  have small: "idx < CDMA_MAX_COALESCE \<longleftrightarrow> ?a = 0"
    unfolding a(1) by (simp add: word_less_nat_alt CDMA_MAX_COALESCE_def div_eq_0_iff)
  let ?stop = "ucast base + 0x40 * of_nat (?a * 255)"
  have lastc: "last (chunk_runs base idx) = (255, ?stop - 0x40 * 255, ?stop - 0x40)" if "?a \<noteq> 0"
  proof -
    have "last (chunk_runs base idx) = (255, ucast base + 0x40 * of_nat ((?a - 1) * 255),
        ucast base + 0x40 * of_nat ((?a - 1) * 255) + 0x40 * 254)"
      unfolding chunk_runs_eq using that by (simp add: last_map del: of_nat_mult)
    moreover define E :: u32 where "E = of_nat (?a * 255)"
    have "(of_nat ((?a - 1) * 255) :: u32) = E - 255"
      unfolding E_def using that by (cases ?a) (simp_all add: algebra_simps)
    ultimately show ?thesis unfolding E_def [symmetric] by (simp only:) (simp add: algebra_simps)
  qed
  have runs: "sg_runs base idx last_desc = (if ?a = 0 then [(idx, ucast base, last_desc - 0x40)]
      else chunk_runs base idx @ (if ?r \<noteq> 0 then [(?r, ?stop, last_desc - 0x40)] else []))"
    unfolding sg_runs_def small Let_def using lastc by simp
  have ldesc: "last_desc - 0x40 = ?stop + 0x40 * (?r - 1)"
  proof -
    have "last_desc = ucast base + 0x40 * (of_nat (?a * 255) + ?r)" using assms(2) idxr by metis
    then show ?thesis by (simp add: algebra_simps del: of_nat_mult)
  qed
  have rest: "run_descs (?r, ?stop, l) = map (\<lambda>j. ucast base + 0x40 * of_nat j) [?a * 255..<unat idx]" for l
  proof -
    have "[?a * 255..<unat idx] = map (\<lambda>i. i + ?a * 255) [0..<unat ?r]"
      unfolding map_add_upt using un by (simp add: add.commute)
    then show ?thesis unfolding run_descs_def prod.case by (simp add: comp_def algebra_simps)
  qed
  show "concat (map run_descs (sg_runs base idx last_desc)) =
      map (\<lambda>j. ucast base + 0x40 * of_nat j) [0..<unat idx]"
  proof (cases "?a = 0")
    case True
    then show ?thesis by (simp add: runs run_descs_def)
  next
    case False
    have "concat (map run_descs (sg_runs base idx last_desc)) =
        map (\<lambda>j. ucast base + 0x40 * of_nat j) [0..<?a * 255] @
        (if ?r \<noteq> 0 then map (\<lambda>j. ucast base + 0x40 * of_nat j) [?a * 255..<unat idx] else [])"
      using False by (simp add: runs chunk_runs_descs rest del: of_nat_mult)
    also have "\<dots> = map (\<lambda>j. ucast base + 0x40 * of_nat j) ([0..<?a * 255] @ [?a * 255..<unat idx])"
      using un by (auto simp: unat_eq_0)
    also have "[0..<?a * 255] @ [?a * 255..<unat idx] = [0..<unat idx]"
      using upt_add_eq_append [of 0 "?a * 255" "unat ?r"] un by simp
    finally show ?thesis .
  qed
  show "list_all run_ok (sg_runs base idx last_desc)"
  proof (cases "?a = 0")
    case True
    with small have "idx < CDMA_MAX_COALESCE" by blast
    then have "run_ok (idx, ucast base, last_desc - 0x40)"
      unfolding run_ok_def prod.case assms(2) using assms(1)
      by (simp add: word_neq_0_conv algebra_simps less_imp_le)
    moreover have "sg_runs base idx last_desc = [(idx, ucast base, last_desc - 0x40)]"
      using runs True by simp
    ultimately show ?thesis by simp
  next
    case False
    have "run_ok (?r, ?stop, last_desc - 0x40)" if "?r \<noteq> 0"
      unfolding run_ok_def prod.case ldesc using that r255
      by (simp add: word_neq_0_conv CDMA_MAX_COALESCE_def)
    with False chunk_runs_ok show ?thesis by (simp add: runs)
  qed
qed


section \<open>What a transfer and an ioctl do\<close>

definition user_writes :: "pl_event list \<Rightarrow> (u64 \<times> u32) list" where
  "user_writes tr = concat (map (\<lambda>e. case e of ToUser p l \<Rightarrow> [(p, l)] | _ \<Rightarrow> []) tr)"

definition dst_writes :: "pl_event list \<Rightarrow> u32 list" where
  "dst_writes tr = concat (map (\<lambda>e. case e of RegWr r v \<Rightarrow> if r = REG_DA_L then [v] else [] | _ \<Rightarrow> []) tr)"

lemma writes_simps [simp]:
  "user_writes [] = []" "user_writes (xs @ ys) = user_writes xs @ user_writes ys"
  "user_writes (e # xs) = (case e of ToUser p l \<Rightarrow> [(p, l)] | _ \<Rightarrow> []) @ user_writes xs"
  "dst_writes [] = []" "dst_writes (xs @ ys) = dst_writes xs @ dst_writes ys"
  "dst_writes (e # xs) = (case e of RegWr r v \<Rightarrow> if r = REG_DA_L then [v] else [] | _ \<Rightarrow> []) @ dst_writes xs"
  by (simp_all add: user_writes_def dst_writes_def)

lemma reg_distinct [simp]: "REG_SR \<noteq> REG_DA_L" "REG_CR \<noteq> REG_DA_L" "REG_SA_L \<noteq> REG_DA_L"
  "REG_SA_H \<noteq> REG_DA_L" "REG_DA_H \<noteq> REG_DA_L" "REG_BYTETRANS \<noteq> REG_DA_L"
  by (simp_all add: reg_defs)

lemma wait_simple_loop_quiet:
  "\<exists>xs. trace (snd (wait_simple_loop n env s)) = trace s @ xs \<and> user_writes xs = [] \<and> dst_writes xs = []"
proof (induction n arbitrary: s)
  case (Suc n)
  from Suc.IH [of "tick s"] show ?case by (auto simp: wait_simple_step simp del: wait_loops_del)
qed simp

lemma single_tx_quiet:
  "\<exists>xs. trace (snd (dma_single_tx env sl sh dl dh len s)) = trace s @ xs \<and> user_writes xs = []
     \<and> dst_writes xs = [dl]"
proof -
  from wait_simple_loop_quiet [of CDMA_MAX_POLLING env "single_setup sl sh dl dh len s"]
  obtain xs where "trace (snd (wait_simple env (single_setup sl sh dl dh len s)))
      = trace (single_setup sl sh dl dh len s) @ xs" "user_writes xs = []" "dst_writes xs = []"
    unfolding wait_simple_def by blast
  then show ?thesis by (auto simp: dma_single_tx_def single_setup_def split: prod.splits)
qed

lemma single_tx_quiet_simps [simp]:
  "user_writes (trace (snd (dma_single_tx env sl sh dl dh len s))) = user_writes (trace s)"
  "dst_writes (trace (snd (dma_single_tx env sl sh dl dh len s))) = dst_writes (trace s) @ [dl]"
  using single_tx_quiet [of env sl sh dl dh len s] by auto

lemma single_tx_range: "fst (dma_single_tx env sl sh dl dh len s) \<in> {SUCCESS, - EDMA_TX}"
  by (auto simp: dma_single_tx_def split: prod.splits)

lemma pl2ps_loop_nonpos: "fst (pl2ps_loop n i env args len h s) \<le> 0"
  by (induction n arbitrary: i s) (auto simp: Let_def user_copy_def split: prod.splits)

lemma ps2pl_loop_nonpos: "fst (ps2pl_loop n i env args len h s) \<le> 0"
  by (induction n arbitrary: i s) (auto simp: Let_def user_copy_def split: prod.splits)

lemma pl2ps_loop_writes:
  assumes "fst (pl2ps_loop n i env args len h s) = SUCCESS"
  shows "user_writes (trace (snd (pl2ps_loop n i env args len h s))) = user_writes (trace s) @
    map (\<lambda>k. (dstC_ptr args + ucast ((i + of_nat k) * CPY_CHUNK_SIZE), len)) [0..<n]"
  using assms
proof (induction n arbitrary: i s)
  case (Suc n)
  let ?src = "(va_to_pa env (srcA_va args + ucast (i * CPY_CHUNK_SIZE)) AND AXI_MASK) + AXIBAR"
  obtain r s1 where d: "dma_single_tx env (ucast ?src) HIGH_ADDR (ucast h) 0x80 len s = (r, s1)"
    by (cases "dma_single_tx env (ucast ?src) HIGH_ADDR (ucast h) 0x80 len s")
  let ?e = "ToUser (dstC_ptr args + ucast (i * CPY_CHUNK_SIZE)) len"
  have r: "\<not> r < 0" using Suc.prems d by (auto simp: Let_def)
  have c: "\<not> copy_fails env (clock s1)" using Suc.prems d r by (auto simp: Let_def user_copy_def)
  have step: "pl2ps_loop (Suc n) i env args len h s = pl2ps_loop n (i + 1) env args len h (tick (emit ?e s1))"
    using d r c by (simp add: Let_def user_copy_def)
  have s1: "user_writes (trace s1) = user_writes (trace s)"
    using single_tx_quiet_simps(1) [of env "ucast ?src" HIGH_ADDR "ucast h" "0x80" len s] d by simp
  have upt: "[0..<Suc n] = 0 # map Suc [0..<n]" by (simp add: upt_conv_Cons map_Suc_upt)
  have "fst (pl2ps_loop n (i + 1) env args len h (tick (emit ?e s1))) = SUCCESS"
    using Suc.prems unfolding step .
  from Suc.IH [OF this] show ?case unfolding step upt
    by (simp add: s1 comp_def add.assoc del: upt_Suc)
qed simp

lemma ps2pl_loop_writes:
  assumes "fst (ps2pl_loop n i env args len h s) = SUCCESS"
  shows "dst_writes (trace (snd (ps2pl_loop n i env args len h s))) = dst_writes (trace s) @
    replicate n (ucast ((va_to_pa env (dstC_va args) AND AXI_MASK) + AXIBAR))"
  using assms
proof (induction n arbitrary: i s)
  case (Suc n)
  let ?dst = "(va_to_pa env (dstC_va args) AND AXI_MASK) + AXIBAR"
  let ?s1 = "tick (emit (FromUser (srcA_ptr args + ucast (i * CPY_CHUNK_SIZE)) len) s)"
  have c: "\<not> copy_fails env (clock s)" using Suc.prems by (auto simp: user_copy_def)
  obtain r s2 where d: "dma_single_tx env (ucast h) 0x80 (ucast ?dst) HIGH_ADDR len ?s1 = (r, s2)"
    by (cases "dma_single_tx env (ucast h) 0x80 (ucast ?dst) HIGH_ADDR len ?s1")
  have r: "\<not> r < 0" using Suc.prems d c by (auto simp: Let_def user_copy_def)
  have step: "ps2pl_loop (Suc n) i env args len h s = ps2pl_loop n (i + 1) env args len h s2"
    using d r c by (simp add: Let_def user_copy_def)
  have s2: "dst_writes (trace s2) = dst_writes (trace s) @ [ucast ?dst]"
    using single_tx_quiet_simps(2) [of env "ucast h" "0x80" "ucast ?dst" HIGH_ADDR len ?s1] d by simp
  have "fst (ps2pl_loop n (i + 1) env args len h s2) = SUCCESS" using Suc.prems unfolding step .
  from Suc.IH [OF this] show ?case unfolding step by (simp add: s2)
qed simp

lemma wait_sg_success_trace:
  "fst (wait_sg_loop n env idx s) = SUCCESS \<Longrightarrow>
    trace (snd (wait_sg_loop n env idx s)) = trace s @ [RegWr REG_SR SR_IOCIRQ, RegWr REG_CR CR_RESET]"
proof (induction n arbitrary: s)
  case (Suc n)
  show ?case
  proof (cases "sr_error env (clock s) \<or> desc_done env idx (Suc (clock s))")
    case True
    with Suc.prems show ?thesis by (auto simp: wait_sg_step simp del: wait_loops_del split: if_splits)
  next
    case False
    then have "wait_sg_loop (Suc n) env idx s = wait_sg_loop n env idx (tick (tick s))"
      by (simp add: wait_sg_step del: wait_loops_del)
    with Suc.IH [of "tick (tick s)"] Suc.prems show ?thesis by simp
  qed
qed simp

lemma dma_start_trace:
  assumes "pl_dma_ioctl env DMA_START args s = (SUCCESS, args', s')"
  shows "trace s' = trace s @
      [RegWr REG_CR CR_RESET, DescFromUser (desc_host args) ((desc_idx args + 1) * 0x40)]
      @ [ConfWr (hpc_clr_offset env + 4 * junk_i env) 0, ConfWr (aim_working_offset env + 4 * junk_i env) 0]
      @ [RegWr REG_CR CR_SG_EN, RegWr REG_SR SR_IOCIRQ, RegWr CURDESC_L (ucast (desc_mem_base env)),
         RegWr CURDESC_H HIGH_ADDR, RegWr TAILDESC_L (desc_last args - 0x40), RegWr TAILDESC_H HIGH_ADDR]
      @ [RegWr REG_SR SR_IOCIRQ, RegWr REG_CR CR_RESET]
      @ [ConfWr (hpc_clr_offset env + 4 * junk_i env) 0, ConfWr (aim_working_offset env + 4 * junk_i env) 0]
      @ [ConfWr CONF_OFFSET_CLP_CLR 0]
    \<and> args' = args"
proof -
  let ?s = "dma_ctrl_write REG_CR CR_RESET ((tick s)\<lparr>opcode := DMA_START\<rparr>)"
  let ?s1 = "tick (emit (DescFromUser (desc_host args) ((desc_idx args + 1) * 0x40)) (tick ?s))"
  let ?s2 = "sg_setup CR_SG_EN (ucast (desc_mem_base env)) (desc_last args - 0x40) (clear_signals env ?s1)"
  obtain r s3 where w: "wait_sg env (desc_idx args) ?s2 = (r, s3)" by (cases "wait_sg env (desc_idx args) ?s2")
  have ok: "\<not> copy_fails env (clock s)"
    using assms by (auto simp: pl_dma_ioctl_def split: if_splits)
  then have st: "ioctl_dma_start env args ?s = (SUCCESS, s')" and a: "args' = args"
    using assms by (auto simp: pl_dma_ioctl_def Let_def split: prod.splits)
  then have s': "\<not> r < 0" "s' = conf_write CONF_OFFSET_CLP_CLR 0 (clear_signals env s3)"
    using w by (auto simp: ioctl_dma_start_def user_copy_def dma_sg_tx_def Let_def split: if_splits)
  with wait_result_range(1) [of CDMA_MAX_POLLING env "desc_idx args" ?s2] w
  have "fst (wait_sg_loop CDMA_MAX_POLLING env (desc_idx args) ?s2) = SUCCESS" by (auto simp: wait_sg_def)
  from wait_sg_success_trace [OF this] w have "trace s3 = trace ?s2 @ [RegWr REG_SR SR_IOCIRQ, RegWr REG_CR CR_RESET]"
    by (simp add: wait_sg_def)
  then show ?thesis
    unfolding s'(2) a by (simp add: conf_write_def clear_signals_def sg_setup_def)
qed

text \<open>
  A wait from a given time on has polled descriptor \<open>idx\<close> as complete within its bound, with no error
  before.
\<close>

definition polled_done :: "pl_env \<Rightarrow> u32 \<Rightarrow> nat \<Rightarrow> bool" where
  "polled_done env idx t \<longleftrightarrow> (\<exists>j < CDMA_MAX_POLLING. desc_done env idx (t + 2 * j + 1) \<and> (\<forall>i \<le> j. \<not> sr_error env (t + 2 * i)))"

lemma dma_start_polls:
  assumes "pl_dma_ioctl env DMA_START args s = (SUCCESS, args', s')"
  shows "polled_done env (desc_idx args) (clock s + 3)"
proof -
  let ?s = "dma_ctrl_write REG_CR CR_RESET ((tick s)\<lparr>opcode := DMA_START\<rparr>)"
  let ?s1 = "tick (emit (DescFromUser (desc_host args) ((desc_idx args + 1) * 0x40)) (tick ?s))"
  let ?s2 = "sg_setup CR_SG_EN (ucast (desc_mem_base env)) (desc_last args - 0x40) (clear_signals env ?s1)"
  obtain r s3 where w: "wait_sg env (desc_idx args) ?s2 = (r, s3)" by (cases "wait_sg env (desc_idx args) ?s2")
  have ok: "\<not> copy_fails env (clock s)"
    using assms by (auto simp: pl_dma_ioctl_def split: if_splits)
  then have st: "ioctl_dma_start env args ?s = (SUCCESS, s')"
    using assms by (auto simp: pl_dma_ioctl_def Let_def split: prod.splits)
  then have "\<not> r < 0"
    using w by (auto simp: ioctl_dma_start_def user_copy_def dma_sg_tx_def Let_def split: if_splits)
  with wait_result_range(1) [of CDMA_MAX_POLLING env "desc_idx args" ?s2] w
  have "fst (wait_sg_loop CDMA_MAX_POLLING env (desc_idx args) ?s2) = SUCCESS" by (auto simp: wait_sg_def)
  moreover have "clock ?s2 = clock s + 3" by (simp add: sg_setup_def clear_signals_def conf_write_def)
  ultimately show ?thesis unfolding wait_sg_loop_success polled_done_def by simp
qed

lemma dma_start_result: "fst (pl_dma_ioctl env DMA_START args s) \<le> 0"
  by (auto simp: pl_dma_ioctl_def ioctl_dma_start_def user_copy_def Let_def split: prod.splits)

section \<open>A working engine\<close>

definition demo_pl_env :: pl_env where
  "demo_pl_env = \<lparr>sr = \<lambda>_. 0x1002, desc_status = \<lambda>_ _. 0x80000000, interrupt = \<lambda>_. Some (0x1002, 5),
     idle_timeout = \<lambda>_. False, copy_fails = \<lambda>_. False, coherent = \<lambda>_. Some 0x4000, va_to_pa = \<lambda>a. a,
     desc_mem_base = 0x800000, dram_base = 0, hpc_clr_offset = 0x5000, aim_working_offset = 0x4000,
     junk_i = 0\<rparr>"

definition demo_pl :: pl_state where
  "demo_pl = \<lparr>clock = 0, trace = [], opcode = VA_TO_PA, err = 0\<rparr>"

definition demo_args :: pim_args where
  "demo_args = \<lparr>desc_host = 0x1000, desc_idx = 3, desc_last = 0x8000C0, desc_base = 0x800000,
     args_dram_base = 0, va = 0, pa = 0, srcA_va = 0x2000, srcA_ptr = 0x3000, srcA_size = 0x100001,
     dstC_va = 0x9000, dstC_ptr = 0x7000, pmm_base_addr = 0\<rparr>"

lemma demo_answers [simp]:
  "\<not> sr_error demo_pl_env t" "desc_done demo_pl_env i t" "simple_done demo_pl_env t"
  by (simp_all add: sr_error_def desc_done_def simple_done_def demo_pl_env_def SR_ALL_ERR_MASK_def
      DESC_TX_COMPL_def SR_TX_COMPL_def SR_IDLE_def SR_IOCIRQ_def)

lemma demo_wait_simple: "fst (wait_simple demo_pl_env s) = SUCCESS"
  unfolding wait_simple_def wait_simple_loop_success by (intro exI [of _ 0]) simp

lemma demo_single: "fst (dma_single_tx demo_pl_env sl sh dl dh len s) = SUCCESS"
  using demo_wait_simple [of "single_setup sl sh dl dh len s"]
  by (auto simp: dma_single_tx_def split: prod.splits)

lemma demo_dma_start: "\<exists>s'. pl_dma_ioctl demo_pl_env DMA_START args s = (SUCCESS, args, s')"
proof -
  have no: "\<not> copy_fails demo_pl_env t" "\<not> idle_timeout demo_pl_env t" for t by (simp_all add: demo_pl_env_def)
  have w: "fst (wait_sg demo_pl_env i s) = SUCCESS" for i s
    unfolding wait_sg_def wait_sg_loop_success by (intro exI [of _ 0]) simp
  show ?thesis
    by (simp add: pl_dma_ioctl_def ioctl_dma_start_def dma_sg_tx_def user_copy_def no Let_def
        case_prod_unfold w)
qed

lemma demo_loops:
  "fst (pl2ps_loop n i demo_pl_env args len h s) = SUCCESS"
  "fst (ps2pl_loop n i demo_pl_env args len h s) = SUCCESS"
proof (induction n arbitrary: i s)
  case (Suc n)
  have no: "\<not> copy_fails demo_pl_env t" for t by (simp add: demo_pl_env_def)
  have one: "\<exists>s'. dma_single_tx demo_pl_env sl sh dl dh len s = (SUCCESS, s')" for sl sh dl dh s
    using demo_single [of sl sh dl dh len s] by (cases "dma_single_tx demo_pl_env sl sh dl dh len s") auto
  case 1
  from one [of "ucast ((va_to_pa demo_pl_env (srcA_va args + ucast (i * CPY_CHUNK_SIZE)) AND AXI_MASK) + AXIBAR)"
      HIGH_ADDR "ucast h" "0x80" s]
  show ?case using Suc(1) by (auto simp: Let_def user_copy_def no)
  case 2
  from one [of "ucast h" "0x80" "ucast ((va_to_pa demo_pl_env (dstC_va args) AND AXI_MASK) + AXIBAR)" HIGH_ADDR
      "tick (emit (FromUser (srcA_ptr args + ucast (i * CPY_CHUNK_SIZE)) len) s)"]
  show ?case using Suc(2) by (auto simp: Let_def user_copy_def no)
qed simp_all


section \<open>Properties of the DMA driver\<close>

text \<open>
  Claim C32: the scatter-gather wait reports success exactly when some poll within the bound sees
  the last descriptor complete before any poll has seen an error, whatever the hardware does.
\<close>

theorem wait_sg_succeeds_iff:
  "fst (wait_sg env idx s) = SUCCESS \<longleftrightarrow>
     (\<exists>j < CDMA_MAX_POLLING. desc_done env idx (clock s + 2 * j + 1)
        \<and> (\<forall>i \<le> j. \<not> sr_error env (clock s + 2 * i)))"
  unfolding wait_sg_def by (rule wait_sg_loop_success)

theorem wait_sg_succeeds_iff_witness: "fst (wait_sg demo_pl_env 3 demo_pl) = SUCCESS"
  unfolding wait_sg_succeeds_iff by (intro exI [of _ 0]) simp

text \<open>
  \<^verbatim>\<open>wait_simple\<close> always terminates with the engine reset, on success, on error and
  on timeout, and returns one of the two codes.
\<close>

theorem wait_simple_always_resets:
  "\<exists>xs. trace (snd (wait_simple env s)) = trace s @ xs @ [RegWr REG_CR CR_RESET]
    \<and> fst (wait_simple env s) \<in> {SUCCESS, - EDMA_TX}"
  using wait_simple_loop_resets wait_result_range(2) unfolding wait_simple_def by blast

text \<open>
  \<^verbatim>\<open>wait_sg\<close> does not: when the polls run out it returns an error and has
  written nothing, so the engine keeps running over the descriptors (its counterpart for single
  transfers resets it).
\<close>

theorem wait_sg_timeout_leaves_engine:
  assumes "\<forall>j < CDMA_MAX_POLLING. \<not> sr_error env (clock s + 2 * j) \<and> \<not> desc_done env idx (clock s + 2 * j + 1)"
  shows "fst (wait_sg env idx s) = - EDMA_TX \<and> trace (snd (wait_sg env idx s)) = trace s"
  using wait_sg_loop_timeout [OF assms] by (simp add: wait_sg_def)

theorem wait_sg_timeout_leaves_engine_witness:
  "trace (snd (wait_sg (demo_pl_env\<lparr>sr := \<lambda>_. 0, desc_status := \<lambda>_ _. 0\<rparr>) 3 demo_pl)) = []"
proof -
  have "\<forall>j < CDMA_MAX_POLLING. \<not> sr_error (demo_pl_env\<lparr>sr := \<lambda>_. 0, desc_status := \<lambda>_ _. 0\<rparr>) (clock demo_pl + 2 * j)
      \<and> \<not> desc_done (demo_pl_env\<lparr>sr := \<lambda>_. 0, desc_status := \<lambda>_ _. 0\<rparr>) 3 (clock demo_pl + 2 * j + 1)"
    by (simp add: sr_error_def desc_done_def DESC_TX_COMPL_def)
  from wait_sg_timeout_leaves_engine [OF this] show ?thesis by (simp add: demo_pl_def)
qed

text \<open>
  With interrupts, a transfer never reports the error code the handler records
  (\<^verbatim>\<open>-EDMA_INTR\<close>): the handler's error paths do not complete the wait, so an error the
  hardware signals at once is reported as a timeout, and the test of \<^verbatim>\<open>cdma_dev->err\<close> after the
  wait never fires.
\<close>

theorem intr_error_never_reported:
  "fst (dma_single_tx_intr env sl sh dl dh len s) \<in> {SUCCESS, - EDMA_TX}
    \<and> fst (sg_run_intr env count fdesc ldesc s) \<noteq> - EDMA_INTR"
  by (auto simp: dma_single_tx_intr_def sg_run_intr_def wait_completion_def pl_dma_irq_handler_def Let_def
      split: option.splits prod.splits if_splits)

text \<open>
  With interrupts, a chain of \<open>idx\<close> descriptors is cut into runs of at most 255 (the
  engine's coalescing limit) that follow one another: together they are the whole chain, each
  descriptor once and in order, and each run ends at its last descriptor.
\<close>

theorem sg_runs_cover_chain:
  assumes "idx \<noteq> 0" "last_desc = ucast base + 0x40 * idx"
  shows "concat (map run_descs (sg_runs base idx last_desc)) =
      map (\<lambda>j. ucast base + 0x40 * of_nat j) [0..<unat idx]
    \<and> list_all run_ok (sg_runs base idx last_desc)"
  using sg_runs_props [OF assms] by blast

theorem sg_runs_cover_chain_witness:
  "list_all run_ok (sg_runs 0x800000 300 0x804B00)"
  using sg_runs_cover_chain [of 300 "0x804B00" "0x800000"] by simp

text \<open>
  A successful \<^verbatim>\<open>DMA_START\<close> does, in this order: reset, copy the descriptors from
  the user (one more than \<open>desc_idx\<close>), clear the signals, program the engine with the tail
  pointer last, acknowledge and reset it, clear the signals again.
\<close>

theorem dma_start_sequence:
  assumes "pl_dma_ioctl env DMA_START args s = (SUCCESS, args', s')"
  shows "trace s' = trace s @
      [RegWr REG_CR CR_RESET, DescFromUser (desc_host args) ((desc_idx args + 1) * 0x40)]
      @ [ConfWr (hpc_clr_offset env + 4 * junk_i env) 0, ConfWr (aim_working_offset env + 4 * junk_i env) 0]
      @ [RegWr REG_CR CR_SG_EN, RegWr REG_SR SR_IOCIRQ, RegWr CURDESC_L (ucast (desc_mem_base env)),
         RegWr CURDESC_H HIGH_ADDR, RegWr TAILDESC_L (desc_last args - 0x40), RegWr TAILDESC_H HIGH_ADDR]
      @ [RegWr REG_SR SR_IOCIRQ, RegWr REG_CR CR_RESET]
      @ [ConfWr (hpc_clr_offset env + 4 * junk_i env) 0, ConfWr (aim_working_offset env + 4 * junk_i env) 0]
      @ [ConfWr CONF_OFFSET_CLP_CLR 0]
    \<and> args' = args"
  using assms by (rule dma_start_trace)

theorem dma_start_sequence_witness:
  "\<exists>s'. pl_dma_ioctl demo_pl_env DMA_START demo_args demo_pl = (SUCCESS, demo_args, s')
    \<and> hd (trace s') = RegWr REG_CR CR_RESET \<and> length (trace s') = 15"
proof -
  obtain s' where r: "pl_dma_ioctl demo_pl_env DMA_START demo_args demo_pl = (SUCCESS, demo_args, s')"
    using demo_dma_start by blast
  from dma_start_sequence [OF r] r show ?thesis by (simp add: demo_pl_def)
qed

text \<open>
  A successful device-to-host copy writes, for every chunk, a whole chunk to user
  memory: the last chunk too, although only the rest is due. When the size is above 1 MiB and not a
  multiple of it, the copy writes past the end of the user's buffer.
\<close>

theorem pl2ps_overruns:
  assumes "fst (ioctl_pl2ps env args s) = SUCCESS" "trace s = []" "coherent env (clock s) = Some h"
  shows "user_writes (trace (snd (ioctl_pl2ps env args s))) =
      map (\<lambda>k. (dstC_ptr args + ucast (of_nat k * CPY_CHUNK_SIZE), copy_len_of (srcA_size args)))
        [0..<unat (num_chunk_of (srcA_size args))]
    \<and> (srcA_size args > CPY_CHUNK_SIZE \<and> srcA_size args mod CPY_CHUNK_SIZE \<noteq> 0 \<longrightarrow>
        unat (srcA_size args) < sum_list (map (unat \<circ> snd) (user_writes (trace (snd (ioctl_pl2ps env args s))))))"
proof -
  let ?n = "unat (num_chunk_of (srcA_size args))" and ?len = "copy_len_of (srcA_size args)"
  obtain r s1 where l: "pl2ps_loop ?n 0 env args ?len h (tick s) = (r, s1)"
    by (cases "pl2ps_loop ?n 0 env args ?len h (tick s)")
  have res: "r = SUCCESS" "snd (ioctl_pl2ps env args s) = emit (FreeCoherent (srcA_size args)) s1"
    using assms l by (auto simp: ioctl_pl2ps_def split: if_splits)
      (metis pl2ps_loop_nonpos fst_conv order_antisym_conv not_le)
  have w: "user_writes (trace (snd (ioctl_pl2ps env args s))) =
      map (\<lambda>k. (dstC_ptr args + ucast (of_nat k * CPY_CHUNK_SIZE), ?len)) [0..<?n]"
    using pl2ps_loop_writes [of ?n 0 env args ?len h "tick s"] l res assms(2) by simp
  have "unat (srcA_size args) < ?n * unat ?len"
    if big: "srcA_size args > CPY_CHUNK_SIZE" "srcA_size args mod CPY_CHUNK_SIZE \<noteq> 0"
  proof -
    let ?sz = "unat (srcA_size args)"
    have "unat (srcA_size args div CPY_CHUNK_SIZE) = ?sz div 0x100000"
      by (simp add: CPY_CHUNK_SIZE_def unat_div)
    moreover have "?sz div 0x100000 < 4096" using u32_bound [of "srcA_size args"] by (simp add: div_less_iff_less_mult)
    ultimately have "?n = ?sz div 0x100000 + 1"
      using big(2) by (simp add: num_chunk_of_def unat_word_ariths)
    moreover have "unat ?len = 0x100000" using big(1) by (simp add: copy_len_of_def CPY_CHUNK_SIZE_def)
    moreover have "?sz < (?sz div 0x100000 + 1) * 0x100000" using dividend_less_times_div [of "0x100000" ?sz] by simp
    ultimately show ?thesis by simp
  qed
  then show ?thesis unfolding w by (simp add: comp_def sum_list_triv)
qed

theorem pl2ps_overruns_witness:
  "user_writes (trace (snd (ioctl_pl2ps demo_pl_env demo_args demo_pl))) =
    [(0x7000, 0x100000), (0x107000, 0x100000)]"
proof -
  have c: "coherent demo_pl_env (clock demo_pl) = Some 0x4000" by (simp add: demo_pl_env_def)
  have t: "trace demo_pl = []" by (simp add: demo_pl_def)
  have "fst (ioctl_pl2ps demo_pl_env demo_args demo_pl) = SUCCESS"
    by (simp add: ioctl_pl2ps_def c case_prod_unfold demo_loops(1))
  from pl2ps_overruns [OF this t c] show ?thesis
    by (simp add: demo_args_def num_chunk_of_def copy_len_of_def CPY_CHUNK_SIZE_def upt_conv_Cons)
qed

text \<open>
  A successful host-to-device copy sends every chunk to the same device address: the
  destination does not advance with the chunk, so of a copy above 1 MiB only the last chunk
  remains, at the start of the destination.
\<close>

theorem ps2pl_overwrites:
  assumes "fst (ioctl_ps2pl env args s) = SUCCESS" "coherent env (clock s) = Some h"
  shows "dst_writes (trace (snd (ioctl_ps2pl env args s))) = dst_writes (trace s) @
    replicate (unat (num_chunk_of (srcA_size args)))
      (ucast ((va_to_pa env (dstC_va args) AND AXI_MASK) + AXIBAR))"
proof -
  let ?n = "unat (num_chunk_of (srcA_size args))" and ?len = "copy_len_of (srcA_size args)"
  obtain r s1 where l: "ps2pl_loop ?n 0 env args ?len h (tick s) = (r, s1)"
    by (cases "ps2pl_loop ?n 0 env args ?len h (tick s)")
  have res: "r = SUCCESS" "snd (ioctl_ps2pl env args s) = emit (FreeCoherent (srcA_size args)) s1"
    using assms l by (auto simp: ioctl_ps2pl_def split: if_splits)
      (metis ps2pl_loop_nonpos fst_conv order_antisym_conv not_le)
  then show ?thesis
    using ps2pl_loop_writes [of ?n 0 env args ?len h "tick s"] l by simp
qed

theorem ps2pl_overwrites_witness:
  "dst_writes (trace (snd (ioctl_ps2pl demo_pl_env demo_args demo_pl))) = [0x9000, 0x9000]"
proof -
  have c: "coherent demo_pl_env (clock demo_pl) = Some 0x4000" by (simp add: demo_pl_env_def)
  have "fst (ioctl_ps2pl demo_pl_env demo_args demo_pl) = SUCCESS"
    by (simp add: ioctl_ps2pl_def c case_prod_unfold demo_loops(2))
  moreover have "unat (num_chunk_of (srcA_size demo_args)) = Suc (Suc 0)"
    by (simp add: demo_args_def num_chunk_of_def CPY_CHUNK_SIZE_def)
  moreover have "(ucast ((va_to_pa demo_pl_env (dstC_va demo_args) AND AXI_MASK) + AXIBAR) :: u32) = 0x9000"
    by (simp add: demo_args_def demo_pl_env_def AXI_MASK_def AXIBAR_def)
  ultimately show ?thesis
    using ps2pl_overwrites [OF _ c, of demo_args] by (simp add: demo_pl_def)
qed

end
