(* ===== verification/Host_Dma.thy ===== *)
theory Host_Dma
  imports Pl_Dma
begin

text \<open>
  The host DMA device of the driver, \<^verbatim>\<open>src/drv_src/dma_fops_host_x86.c\<close>, with its part of
  \<^verbatim>\<open>remove_pim_dma\<close> in \<^verbatim>\<open>dma_probe.c\<close>.

  The memory is in the state, byte by byte: \<open>user\<close> is the memory of the calling process, \<open>bus\<close> the
  memory the DMA engine sees. A coherent buffer has a kernel pointer and a bus address; its contents
  are the bytes of \<open>bus\<close> at that address. \<open>live\<close> lists the buffers that are allocated, \<open>held\<close> the
  DMA channels the driver has requested and not released. What the kernel answers is the record
  \<open>host_env\<close>, asked at the time \<open>now\<close>: whether a buffer is allocated, whether a copy from or to the
  process fails, which channel is granted, how a transfer ends. A transfer or copy that fails may
  leave anything in its memory (\<open>spoil\<close>).

  An operation ends with a value or with a fault: \<open>Undef\<close> is a null pointer or an address that was
  never set, \<open>Hang\<close> a wait that nobody ends, \<open>Bad_Free\<close> a free of what is not allocated.
\<close>

section \<open>State\<close>

datatype fault = Undef | Hang | Bad_Free

abbreviation (input) WC :: int where "WC \<equiv> 1"
abbreviation (input) UC :: int where "UC \<equiv> 2"
abbreviation (input) EMEM_FAULT :: int where "EMEM_FAULT \<equiv> 1"
abbreviation (input) EDMA_PROBE :: int where "EDMA_PROBE \<equiv> 3"

record host_dma =
  alloc_ptr0 :: u64
  alloc_ptr1 :: u64
  alloc_len0 :: u64
  alloc_len1 :: u64
  dma_handle0 :: u64
  dma_handle1 :: u64
  alloc_cnt :: int
  mempolicy :: int

record buffer =
  kind :: int
  buf_len :: u64
  buf_ptr :: u64
  buf_bus :: u64

datatype mem_event = SetMemory int u64 u64 | SetMemoryWb u64 u64 | PageProt int

type_synonym mem = "u64 \<Rightarrow> u8"

record host_state =
  now :: nat
  host_dma_t :: host_dma
  live :: "buffer list"
  held :: "string list"
  unmaps :: nat
  bus :: mem
  user :: mem
  attrs :: "mem_event list"

record host_env =
  new_buffer :: "nat \<Rightarrow> u64 \<Rightarrow> (u64 \<times> u64) option"
  user_fails :: "nat \<Rightarrow> bool"
  channel :: "nat \<Rightarrow> (string \<Rightarrow> bool) \<Rightarrow> string list \<Rightarrow> string option"
  prepared :: "nat \<Rightarrow> bool"
  completed :: "nat \<Rightarrow> bool"
  tx_ok :: "nat \<Rightarrow> bool"
  mmap_result :: "nat \<Rightarrow> int"
  translate :: "u64 \<Rightarrow> u64"
  spoil :: "nat \<Rightarrow> mem \<Rightarrow> mem"
  got_unmap :: "nat \<Rightarrow> bool"
  copy_aligned :: "u32 \<Rightarrow> u32 \<Rightarrow> u64 \<Rightarrow> bool"
  map_page :: "nat \<Rightarrow> u64 \<Rightarrow> u32 \<Rightarrow> u64"

record host_args = pim_args +
  xfer_length :: u32

datatype host_cmd = HOST2HOST | HOST2FPGA | FPGA2HOST | FPGA2FPGA | H2H_ZCPY | HOST_OTHER u32

type_synonym 'a outcome = "fault + 'a \<times> host_state"

section \<open>Memory\<close>

definition copy_mem :: "mem \<Rightarrow> u64 \<Rightarrow> u64 \<Rightarrow> nat \<Rightarrow> mem \<Rightarrow> mem" where
  "copy_mem m src dst n m' = (\<lambda>a. if unat (a - dst) < n then m (src + (a - dst)) else m' a)"

definition step :: "host_state \<Rightarrow> host_state" where
  "step s = s\<lparr>now := now s + 1\<rparr>"

text \<open>\<^verbatim>\<open>dma_alloc_coherent\<close> and \<^verbatim>\<open>dma_alloc_wc\<close>: a new buffer of the kind, or NULL.\<close>

definition dma_alloc :: "host_env \<Rightarrow> int \<Rightarrow> u64 \<Rightarrow> host_state \<Rightarrow> (u64 \<times> u64) option \<times> host_state" where
  "dma_alloc env k len s =
     (case new_buffer env (now s) len of
        None \<Rightarrow> (None, step s)
      | Some (p, b) \<Rightarrow>
          (Some (p, b), step (s\<lparr>live := \<lparr>kind = k, buf_len = len, buf_ptr = p, buf_bus = b\<rparr> # live s\<rparr>)))"

definition dma_free :: "int \<Rightarrow> u64 \<Rightarrow> u64 \<Rightarrow> u64 \<Rightarrow> host_state \<Rightarrow> fault + host_state" where
  "dma_free k len p b s =
     (let x = \<lparr>kind = k, buf_len = len, buf_ptr = p, buf_bus = b\<rparr>
      in if p = 0 then Inr s
         else if x \<in> set (live s) then Inr (s\<lparr>live := remove1 x (live s)\<rparr>)
         else Inl Bad_Free)"

text \<open>Copies between a buffer and the process; True is a failed copy.\<close>

definition copy_from_user :: "host_env \<Rightarrow> (u64 \<times> u64) option \<Rightarrow> u64 \<Rightarrow> u32 \<Rightarrow> host_state \<Rightarrow> bool outcome" where
  "copy_from_user env buf from n s =
     (case buf of
        None \<Rightarrow> Inl Undef
      | Some (p, b) \<Rightarrow>
          if user_fails env (now s) then Inr (True, step (s\<lparr>bus := spoil env (now s) (bus s)\<rparr>))
          else Inr (False, step (s\<lparr>bus := copy_mem (user s) from b (unat n) (bus s)\<rparr>)))"

definition copy_to_user :: "host_env \<Rightarrow> u64 \<Rightarrow> (u64 \<times> u64) option \<Rightarrow> u32 \<Rightarrow> host_state \<Rightarrow> bool outcome" where
  "copy_to_user env to buf n s =
     (case buf of
        None \<Rightarrow> Inl Undef
      | Some (p, b) \<Rightarrow>
          if user_fails env (now s) then Inr (True, step (s\<lparr>user := spoil env (now s) (user s)\<rparr>))
          else Inr (False, step (s\<lparr>user := copy_mem (bus s) b to (unat n) (user s)\<rparr>)))"

section \<open>One transfer\<close>

definition chan_filter :: "string \<Rightarrow> bool" where
  "chan_filter name \<longleftrightarrow> name = ''dma0chan0'' \<or> name = ''dma0chan1'' \<or> name = ''dma0chan2''
     \<or> name = ''dma0chan3'' \<or> name = ''dma0chan4'' \<or> name = ''dma0chan5''"

text \<open>
  From \<^verbatim>\<open>tx_submit\<close> on: a failed submission is only logged, the wait follows in any case. The
  channel is released when the transfer is complete, and only then.
\<close>

definition run_tx :: "host_env \<Rightarrow> u64 \<Rightarrow> u64 \<Rightarrow> u64 \<Rightarrow> string \<Rightarrow> host_state \<Rightarrow> int outcome" where
  "run_tx env dst src len c s =
     (if \<not> completed env (now s) then Inl Hang
      else if tx_ok env (now s)
        then Inr (0, step (s\<lparr>held := remove1 c (held s), bus := copy_mem (bus s) src dst (unat len) (bus s)\<rparr>))
        else Inr (- EDMA_TX, step (s\<lparr>bus := spoil env (now s) (bus s)\<rparr>)))"

text \<open>The callback is stored in the descriptor before the descriptor is tested.\<close>

definition dma_memcpy :: "host_env \<Rightarrow> u64 \<Rightarrow> u64 \<Rightarrow> u64 \<Rightarrow> host_state \<Rightarrow> int outcome" where
  "dma_memcpy env dst_pa src_pa len s =
     (case channel env (now s) chan_filter (held s) of
        None \<Rightarrow> Inr (- EDMA_PROBE, step s)
      | Some c \<Rightarrow>
          (let s1 = step (s\<lparr>held := c # held s\<rparr>)
           in if prepared env (now s) then run_tx env dst_pa src_pa len c s1 else Inl Undef))"

definition memcpy_dma :: "host_env \<Rightarrow> u64 \<Rightarrow> u64 \<Rightarrow> u32 \<Rightarrow> u32 \<Rightarrow> u64 \<Rightarrow> host_state \<Rightarrow> int outcome" where
  "memcpy_dma env dest src dest_offset src_offset len s =
     (case channel env (now s) chan_filter (held s) of
        None \<Rightarrow> Inr (- EDMA_PROBE, step s)
      | Some c \<Rightarrow>
          (let s1 = step (s\<lparr>held := c # held s, unmaps := unmaps s + of_bool (got_unmap env (now s))\<rparr>)
           in if got_unmap env (now s) \<and> copy_aligned env src_offset dest_offset len then
                if prepared env (now s) then
                  (case run_tx env (map_page env (now s) dest dest_offset) (map_page env (now s) src src_offset) len c s1 of
                     Inl f \<Rightarrow> Inl f
                   | Inr (rv, s2) \<Rightarrow> if rv = 0 then Inr (SUCCESS, s2\<lparr>unmaps := unmaps s2 - 1\<rparr>) else Inr (rv, s2))
                else Inl Undef
              else Inr (- EDMA_TX, s1)))"

section \<open>The ioctl\<close>

definition chunk_at :: "u64 \<Rightarrow> u32 \<Rightarrow> u64" where
  "chunk_at a i = a + ucast (i * CPY_CHUNK_SIZE)"

text \<open>The loops: \<open>n\<close> chunks left, \<open>i\<close> done; the value is 0 or the code that goes to the label error.\<close>

fun h2h_loop :: "nat \<Rightarrow> u32 \<Rightarrow> host_env \<Rightarrow> u64 \<Rightarrow> u64 \<Rightarrow> u32 \<Rightarrow> (u64 \<times> u64) option \<Rightarrow> (u64 \<times> u64) option
    \<Rightarrow> host_state \<Rightarrow> int outcome" where
  "h2h_loop 0 i env src dst len buf dbuf s = Inr (SUCCESS, s)"
| "h2h_loop (Suc n) i env src dst len buf dbuf s =
     (case copy_from_user env buf (chunk_at src i) len s of
        Inl f \<Rightarrow> Inl f
      | Inr (True, s1) \<Rightarrow> Inr (- EFAULT, s1)
      | Inr (False, s1) \<Rightarrow>
          (case (buf, dbuf) of
             (Some (p, b), Some (dp, db)) \<Rightarrow>
               (case dma_memcpy env db b (ucast len) s1 of
                  Inl f \<Rightarrow> Inl f
                | Inr (rv, s2) \<Rightarrow>
                    if rv \<noteq> 0 then Inr (- EDMA_TX, s2)
                    else (case copy_to_user env (chunk_at dst i) dbuf len s2 of
                            Inl f \<Rightarrow> Inl f
                          | Inr (True, s3) \<Rightarrow> Inr (- EFAULT, s3)
                          | Inr (False, s3) \<Rightarrow> h2h_loop n (i + 1) env src dst len buf dbuf s3))
           | _ \<Rightarrow> Inl Undef))"

fun h2f_loop :: "nat \<Rightarrow> u32 \<Rightarrow> host_env \<Rightarrow> u64 \<Rightarrow> u64 \<Rightarrow> u32 \<Rightarrow> (u64 \<times> u64) option \<Rightarrow> host_state \<Rightarrow> int outcome" where
  "h2f_loop 0 i env src dst_pa len buf s = Inr (SUCCESS, s)"
| "h2f_loop (Suc n) i env src dst_pa len buf s =
     (case copy_from_user env buf (chunk_at src i) len s of
        Inl f \<Rightarrow> Inl f
      | Inr (True, s1) \<Rightarrow> Inr (- EFAULT, s1)
      | Inr (False, s1) \<Rightarrow>
          (case buf of
             None \<Rightarrow> Inl Undef
           | Some (p, b) \<Rightarrow>
               (case dma_memcpy env (chunk_at dst_pa i) b (ucast len) s1 of
                  Inl f \<Rightarrow> Inl f
                | Inr (rv, s2) \<Rightarrow>
                    if rv \<noteq> 0 then Inr (- EDMA_TX, s2)
                    else h2f_loop n (i + 1) env src dst_pa len buf s2)))"

fun f2h_loop :: "nat \<Rightarrow> u32 \<Rightarrow> host_env \<Rightarrow> u64 \<Rightarrow> u64 \<Rightarrow> u32 \<Rightarrow> (u64 \<times> u64) option \<Rightarrow> host_state \<Rightarrow> int outcome" where
  "f2h_loop 0 i env src_pa dst len buf s = Inr (SUCCESS, s)"
| "f2h_loop (Suc n) i env src_pa dst len buf s =
     (case buf of
        None \<Rightarrow> Inl Undef
      | Some (p, b) \<Rightarrow>
          (case dma_memcpy env b (chunk_at src_pa i) (ucast len) s of
             Inl f \<Rightarrow> Inl f
           | Inr (rv, s1) \<Rightarrow>
               if rv \<noteq> 0 then Inr (- EDMA_TX, s1)
               else (case copy_to_user env (chunk_at dst i) buf len s1 of
                       Inl f \<Rightarrow> Inl f
                     | Inr (True, s2) \<Rightarrow> Inr (- EFAULT, s2)
                     | Inr (False, s2) \<Rightarrow> f2h_loop n (i + 1) env src_pa dst len buf s2)))"

fun f2f_loop :: "nat \<Rightarrow> u32 \<Rightarrow> host_env \<Rightarrow> u64 \<Rightarrow> u64 \<Rightarrow> u32 \<Rightarrow> host_state \<Rightarrow> int outcome" where
  "f2f_loop 0 i env src_pa dst_pa len s = Inr (SUCCESS, s)"
| "f2f_loop (Suc n) i env src_pa dst_pa len s =
     (case dma_memcpy env (chunk_at dst_pa i) (chunk_at src_pa i) (ucast len) s of
        Inl f \<Rightarrow> Inl f
      | Inr (rv, s1) \<Rightarrow>
          if rv \<noteq> 0 then Inr (- EDMA_TX, s1) else f2f_loop n (i + 1) env src_pa dst_pa len s1)"

definition bad_args :: "host_args \<Rightarrow> bool" where
  "bad_args a \<longleftrightarrow> xfer_length a = 0 \<or> dstC_ptr a = 0 \<or> srcA_ptr a = 0"

text \<open>HOST2HOST allocates a second buffer and frees it only when every chunk went through.\<close>

definition ioctl_h2h :: "host_env \<Rightarrow> host_args \<Rightarrow> (u64 \<times> u64) option \<Rightarrow> host_state \<Rightarrow> int outcome" where
  "ioctl_h2h env a buf s =
     (if bad_args a then Inr (- EIOCTL, s)
      else (case dma_alloc env UC (ucast (copy_len_of (xfer_length a))) s of (dbuf, s1) \<Rightarrow>
        (case h2h_loop (unat (num_chunk_of (xfer_length a))) 0 env (srcA_ptr a) (dstC_ptr a)
                (copy_len_of (xfer_length a)) buf dbuf s1 of
           Inl f \<Rightarrow> Inl f
         | Inr (rv, s2) \<Rightarrow>
             if rv \<noteq> 0 then Inr (rv, s2)
             else (case dbuf of
                     None \<Rightarrow> Inr (SUCCESS, s2)
                   | Some (dp, db) \<Rightarrow>
                       (case dma_free UC (ucast (copy_len_of (xfer_length a))) dp db s2 of
                          Inl f \<Rightarrow> Inl f | Inr s3 \<Rightarrow> Inr (SUCCESS, s3))))))"

definition ioctl_h2f :: "host_env \<Rightarrow> host_args \<Rightarrow> (u64 \<times> u64) option \<Rightarrow> host_state \<Rightarrow> int outcome" where
  "ioctl_h2f env a buf s =
     (if bad_args a then Inr (- EIOCTL, s)
      else h2f_loop (unat (num_chunk_of (xfer_length a))) 0 env (srcA_ptr a) (translate env (dstC_ptr a))
             (copy_len_of (xfer_length a)) buf s)"

definition ioctl_f2h :: "host_env \<Rightarrow> host_args \<Rightarrow> (u64 \<times> u64) option \<Rightarrow> host_state \<Rightarrow> int outcome" where
  "ioctl_f2h env a buf s =
     (if bad_args a then Inr (- EIOCTL, s)
      else f2h_loop (unat (num_chunk_of (xfer_length a))) 0 env (translate env (srcA_ptr a)) (dstC_ptr a)
             (copy_len_of (xfer_length a)) buf s)"

definition ioctl_f2f :: "host_env \<Rightarrow> host_args \<Rightarrow> host_state \<Rightarrow> int outcome" where
  "ioctl_f2f env a s =
     (if bad_args a then Inr (- EIOCTL, s)
      else f2f_loop (unat (num_chunk_of (xfer_length a))) 0 env (translate env (srcA_ptr a))
             (translate env (dstC_ptr a)) (copy_len_of (xfer_length a)) s)"

text \<open>The two exits of the switch: the buffer is freed, and every error becomes EFAULT.\<close>

definition host_exit :: "u32 \<Rightarrow> (u64 \<times> u64) option \<Rightarrow> int outcome \<Rightarrow> int outcome" where
  "host_exit len buf r =
     (case r of
        Inl f \<Rightarrow> Inl f
      | Inr (rv, s) \<Rightarrow>
          (case buf of
             None \<Rightarrow> Inr (if rv = 0 then SUCCESS else - EFAULT, s)
           | Some (p, b) \<Rightarrow>
               (case dma_free UC (ucast len) p b s of
                  Inl f \<Rightarrow> Inl f | Inr s1 \<Rightarrow> Inr (if rv = 0 then SUCCESS else - EFAULT, s1))))"

definition host_dma_ioctl :: "host_env \<Rightarrow> host_cmd \<Rightarrow> host_args \<Rightarrow> host_state \<Rightarrow> int outcome" where
  "host_dma_ioctl env cmd a s =
     (if user_fails env (now s) then Inr (- EFAULT, step s)
      else
        (let copy_len = copy_len_of (xfer_length a)
         in case dma_alloc env UC (ucast copy_len) (step s) of (buf, s1) \<Rightarrow>
              (case cmd of
                 HOST2HOST \<Rightarrow> host_exit copy_len buf (ioctl_h2h env a buf s1)
               | HOST2FPGA \<Rightarrow> host_exit copy_len buf (ioctl_h2f env a buf s1)
               | FPGA2HOST \<Rightarrow> host_exit copy_len buf (ioctl_f2h env a buf s1)
               | FPGA2FPGA \<Rightarrow> host_exit copy_len buf (ioctl_f2f env a s1)
               | H2H_ZCPY \<Rightarrow>
                   if xfer_length a = 0 then Inr (- EIOCTL, s1)
                   else (case dma_memcpy env (dma_handle1 (host_dma_t s1)) (dma_handle0 (host_dma_t s1))
                                (ucast (xfer_length a)) s1 of
                           Inl f \<Rightarrow> Inl f
                         | Inr (rv, s2) \<Rightarrow>
                             if rv \<noteq> 0 then Inr (- EDMA_TX, s2)
                             else host_exit copy_len buf (Inr (SUCCESS, s2)))
               | HOST_OTHER c \<Rightarrow> host_exit copy_len buf (Inr (SUCCESS, s1)))))"

section \<open>Mapping and releasing\<close>

definition set_attrs :: "mem_event list \<Rightarrow> host_state \<Rightarrow> host_state" where
  "set_attrs es s = s\<lparr>attrs := attrs s @ es\<rparr>"

definition pages :: "u64 \<Rightarrow> u64" where
  "pages len = len div 4096"

text \<open>From the allocation to \<^verbatim>\<open>dma_mmap_coherent\<close>; \<open>put\<close> stores pointer and bus address.\<close>

definition map_buffer :: "host_env \<Rightarrow> u64 \<Rightarrow> (u64 \<Rightarrow> u64 \<Rightarrow> host_dma \<Rightarrow> host_dma) \<Rightarrow> host_state \<Rightarrow> int \<times> host_state" where
  "map_buffer env len put s =
     (let pol = mempolicy (host_dma_t s)
      in if pol \<noteq> WC \<and> pol \<noteq> UC then (- EMEM_FAULT, s)
         else (case dma_alloc env pol len s of
                 (None, s1) \<Rightarrow> (- EMEM_FAULT, s1\<lparr>host_dma_t := put 0 0 (host_dma_t s1)\<rparr>)
               | (Some (p, b), s1) \<Rightarrow>
                   (let s2 = set_attrs [PageProt pol, SetMemory pol p (pages len)] (s1\<lparr>host_dma_t := put p b (host_dma_t s1)\<rparr>);
                        ret = mmap_result env (now s2)
                    in if ret < 0 then (ret, step s2)
                       else (SUCCESS, step (s2\<lparr>host_dma_t := (host_dma_t s2)\<lparr>alloc_cnt := alloc_cnt (host_dma_t s2) + 1\<rparr>\<rparr>)))))"

definition host_dma_mmap :: "host_env \<Rightarrow> u64 \<Rightarrow> host_state \<Rightarrow> int \<times> host_state" where
  "host_dma_mmap env len s =
     (if alloc_cnt (host_dma_t s) = 0 then
        (let s1 = s\<lparr>host_dma_t := (host_dma_t s)\<lparr>alloc_len0 := len\<rparr>\<rparr>
         in if sint len \<ge> 0x400000 then (- EMEM_FAULT, s1)
            else map_buffer env len (\<lambda>p b d. d\<lparr>alloc_ptr0 := p, dma_handle0 := if p = 0 then dma_handle0 d else b\<rparr>) s1)
      else if alloc_cnt (host_dma_t s) = 1 then
        map_buffer env len (\<lambda>p b d. d\<lparr>alloc_ptr1 := p, dma_handle1 := if p = 0 then dma_handle1 d else b\<rparr>)
          (s\<lparr>host_dma_t := (host_dma_t s)\<lparr>alloc_len1 := len\<rparr>\<rparr>)
      else (- EMEM_FAULT, s))"

text \<open>One half of \<^verbatim>\<open>host_dma_release\<close>; \<open>clear\<close> resets the pointer.\<close>

definition release_buffer :: "u64 \<Rightarrow> u64 \<Rightarrow> u64 \<Rightarrow> (host_dma \<Rightarrow> host_dma) \<Rightarrow> host_state \<Rightarrow> int outcome" where
  "release_buffer p len b clear s =
     (if p = 0 then Inr (SUCCESS, s)
      else
        (let s1 = set_attrs [SetMemoryWb p (pages len)] s; pol = mempolicy (host_dma_t s)
         in if pol \<noteq> WC \<and> pol \<noteq> UC then Inr (- EMEM_FAULT, s1)
            else (case dma_free pol len p b s1 of
                    Inl f \<Rightarrow> Inl f
                  | Inr s2 \<Rightarrow> Inr (SUCCESS, s2\<lparr>host_dma_t := clear (host_dma_t s2)\<rparr>))))"

definition host_dma_release :: "host_state \<Rightarrow> int outcome" where
  "host_dma_release s =
     (let s1 = s\<lparr>host_dma_t := (host_dma_t s)\<lparr>alloc_cnt := 0\<rparr>\<rparr>; d = host_dma_t s1
      in case release_buffer (alloc_ptr0 d) (alloc_len0 d) (dma_handle0 d) (\<lambda>d. d\<lparr>alloc_ptr0 := 0\<rparr>) s1 of
           Inl f \<Rightarrow> Inl f
         | Inr (rv, s2) \<Rightarrow>
             if rv \<noteq> 0 then Inr (rv, s2)
             else release_buffer (alloc_ptr1 d) (alloc_len1 d) (dma_handle1 d) (\<lambda>d. d\<lparr>alloc_ptr1 := 0\<rparr>) s2)"

text \<open>
  The part of \<^verbatim>\<open>remove_pim_dma\<close> that frees the buffers, as it is written: with write-combining it
  frees the first buffer in both halves.
\<close>

definition remove_buffers :: "host_state \<Rightarrow> fault + host_state" where
  "remove_buffers s =
     (let d = host_dma_t s; pol = mempolicy d;
          r0 = (if alloc_ptr0 d = 0 then Inr s
                else (let s1 = set_attrs [SetMemoryWb (alloc_ptr0 d) (pages (alloc_len0 d))] s
                      in if pol = WC \<or> pol = UC then dma_free pol (alloc_len0 d) (alloc_ptr0 d) (dma_handle0 d) s1
                         else Inr s1));
          r1 = (case r0 of
                  Inl f \<Rightarrow> Inl f
                | Inr s0 \<Rightarrow>
                    if alloc_ptr1 d = 0 then Inr s0
                    else (let s1 = set_attrs [SetMemoryWb (alloc_ptr1 d) (pages (alloc_len1 d))] s0
                          in if pol = WC then dma_free WC (alloc_len0 d) (alloc_ptr0 d) (dma_handle0 d) s1
                             else if pol = UC then dma_free UC (alloc_len1 d) (alloc_ptr1 d) (dma_handle1 d) s1
                             else Inr s1))
      in case r1 of Inl f \<Rightarrow> Inl f | Inr s2 \<Rightarrow> Inr (s2\<lparr>host_dma_t := d\<lparr>alloc_cnt := 0\<rparr>\<rparr>))"

end
