(* ===== verification/Host_Props.thy ===== *)
theory Host_Props
  imports Host_Dma
begin

text \<open>
  What the host DMA device guarantees: a transfer that reports success has moved every byte, data
  written to the device can be read back. And what it does not: it writes past a buffer whose length
  is no multiple of the chunk, forgets its second buffer on errors, loses a channel with every failed
  transfer, and frees the first mapping twice when the driver is removed.
\<close>

section \<open>Copying\<close>

text \<open>Two ranges that do not meet, with addresses that wrap around.\<close>

definition apart :: "u64 \<Rightarrow> nat \<Rightarrow> u64 \<Rightarrow> nat \<Rightarrow> bool" where
  "apart a n b m \<longleftrightarrow> n \<le> unat (b - a) \<and> m \<le> unat (a - b)"

lemma copy_mem_at:
  assumes "k < n" "n \<le> 2 ^ 64"
  shows "copy_mem m src dst n m' (dst + of_nat k) = m (src + of_nat k)"
proof -
  have "unat (of_nat k :: u64) = k" using assms by (intro unat_of_nat_u64) simp
  then show ?thesis using assms by (simp add: copy_mem_def)
qed

lemma copy_mem_other: "n \<le> unat (a - dst) \<Longrightarrow> copy_mem m src dst n m' a = m' a"
  by (simp add: copy_mem_def)

lemma copy_mem_cong:
  assumes "\<And>k. k < n \<Longrightarrow> m1 (src + of_nat k) = m2 (src' + of_nat k)"
  shows "copy_mem m1 src dst n m' = copy_mem m2 src' dst n m'"
proof
  fix a
  have "m1 (src + (a - dst)) = m2 (src' + (a - dst))" if "unat (a - dst) < n"
    using assms [OF that] by simp
  then show "copy_mem m1 src dst n m' a = copy_mem m2 src' dst n m' a" by (simp add: copy_mem_def)
qed

text \<open>Through a buffer, and one copy after the other.\<close>

lemma copy_mem_via:
  assumes "n \<le> 2 ^ 64"
  shows "copy_mem (copy_mem m src b n m1) b dst n m2 = copy_mem m src dst n m2"
  by (rule copy_mem_cong) (rule copy_mem_at [OF _ assms])

lemma u64_less: "unat (x :: u64) < 2 ^ 64"
  by simp

lemma unat_neg_u64:
  assumes "(x :: u64) \<noteq> 0" shows "unat (- x) = 2 ^ 64 - unat x"
proof -
  have "(unat x + unat (- x)) mod 2 ^ 64 = unat (x + - x)" by (simp only: unat_word_ariths) simp
  then have "2 ^ 64 dvd unat x + unat (- x)" by (simp add: dvd_eq_mod_eq_0)
  then obtain k where k: "unat x + unat (- x) = 2 ^ 64 * k" by (elim dvdE)
  have "0 < unat x" using assms by (simp add: unat_gt_0)
  moreover have "unat x + unat (- x) < 2 ^ 64 * 2" using u64_less [of x] u64_less [of "- x"] by (simp del: u64_bound)
  ultimately have "0 < k" "k < 2" using k by (auto intro: gr0I)
  then have "k = 1" by simp
  with k show ?thesis by simp
qed

lemma apart_off:
  assumes "apart a n b m" "k < m"
  shows "n \<le> unat (b + of_nat k - a)"
proof -
  have m: "m < 2 ^ 64" by (rule le_less_trans [of _ "unat (a - b)"]) (use assms(1) in \<open>simp_all add: apart_def\<close>)
  have k: "unat (of_nat k :: u64) = k" using assms(2) m by (intro unat_of_nat_u64) simp
  show ?thesis
  proof (cases "a = b")
    case True with assms show ?thesis by (simp add: apart_def)
  next
    case False
    then have "unat (a - b) = 2 ^ 64 - unat (b - a)"
      using unat_neg_u64 [of "b - a"] by simp
    then have "unat (b - a) + k < 2 ^ 64" using assms u64_less [of "b - a"] by (auto simp: apart_def simp del: u64_bound)
    then have "unat (b - a + of_nat k) = unat (b - a) + k" using unat_add_u64 [of "b - a" "of_nat k"] k by simp
    then show ?thesis using assms(1) by (simp add: apart_def algebra_simps)
  qed
qed

lemma copy_mem_apart:
  "apart dst n a m \<Longrightarrow> k < m \<Longrightarrow> copy_mem m1 src dst n m2 (a + of_nat k) = m2 (a + of_nat k)"
  by (rule copy_mem_other) (rule apart_off)

lemma copy_mem_append:
  assumes "n + k \<le> 2 ^ 64"
    and "\<And>j. j < k \<Longrightarrow> m1 (src + of_nat n + of_nat j) = m (src + of_nat n + of_nat j)"
  shows "copy_mem m1 (src + of_nat n) (dst + of_nat n) k (copy_mem m src dst n m') = copy_mem m src dst (n + k) m'"
proof
  fix a
  show "copy_mem m1 (src + of_nat n) (dst + of_nat n) k (copy_mem m src dst n m') a = copy_mem m src dst (n + k) m' a"
  proof (cases "n = 2 ^ 64")
    case True
    with assms(1) have "k = 0" by simp
    with True show ?thesis by (simp add: copy_mem_def)
  next
    case False
    then have n: "unat (of_nat n :: u64) = n" using assms(1) by (intro unat_of_nat_u64) simp
    let ?d = "a - dst"
    have e: "a - (dst + of_nat n) = ?d - of_nat n" by simp
    show ?thesis
    proof (cases "unat ?d < n")
      case True
      have "unat (of_nat n - ?d) = n - unat ?d" using True n unat_sub [of ?d "of_nat n"] by (simp add: word_le_nat_alt)
      moreover have "of_nat n - ?d \<noteq> 0" using calculation True by auto
      ultimately have "unat (?d - of_nat n) = 2 ^ 64 + unat ?d - n"
        using True unat_neg_u64 [of "of_nat n - ?d"] by simp
      then have "\<not> unat (?d - of_nat n) < k" using assms(1) True by simp
      then show ?thesis using True by (simp add: copy_mem_def e)
    next
      case False
      then have u: "unat (?d - of_nat n) = unat ?d - n"
        using False n unat_sub [of "of_nat n" ?d] by (simp add: word_le_nat_alt)
      have w: "of_nat (unat ?d - n) = ?d - of_nat n" by (simp only: u [symmetric] of_nat_unat ucast_id)
      have x: "src + of_nat n + (?d - of_nat n) = src + ?d" by simp
      have "m1 (src + of_nat n + (?d - of_nat n)) = m (src + ?d)" if "unat ?d - n < k"
        using assms(2) [OF that] unfolding w x .
      moreover have "unat ?d - n < k \<longleftrightarrow> unat ?d < n + k" using False by arith
      ultimately show ?thesis using False unfolding copy_mem_def e u by simp
    qed
  qed
qed

lemma apart_less: "apart a n b m \<Longrightarrow> n' \<le> n \<Longrightarrow> m' \<le> m \<Longrightarrow> apart a n' b m'"
  by (auto simp: apart_def)

lemma apart_sym: "apart a n b m = apart b m a n"
  by (auto simp: apart_def)

lemma copy_next_chunk:
  assumes "apart src (n + k) dst (n + k)"
  shows "copy_mem (copy_mem u src dst n u) (src + of_nat n) (dst + of_nat n) k (copy_mem u src dst n u)
    = copy_mem u src dst (n + k) u"
proof (rule copy_mem_append)
  show "n + k \<le> 2 ^ 64" using assms u64_less [of "dst - src"] by (auto simp: apart_def simp del: u64_bound)
  fix j assume "j < k"
  then have "n + j < n + k" by simp
  moreover have "apart dst n src (n + k)" using assms by (auto simp: apart_def)
  ultimately have "copy_mem u src dst n u (src + of_nat (n + j)) = u (src + of_nat (n + j))"
    using copy_mem_apart by blast
  then show "copy_mem u src dst n u (src + of_nat n + of_nat j) = u (src + of_nat n + of_nat j)"
    by (simp add: add.assoc)
qed

section \<open>Chunks\<close>

definition moved :: "u32 \<Rightarrow> nat" where
  "moved l = unat (num_chunk_of l) * unat (copy_len_of l)"

lemma ceil_div:
  "(if n mod 0x100000 = 0 then n div 0x100000 else n div 0x100000 + 1) = (n + 0xFFFFF) div (0x100000 :: nat)"
proof -
  define q r where qr: "q = n div 0x100000" "r = n mod 0x100000"
  have n: "n = q * 0x100000 + r" and r: "r < 0x100000"
    unfolding qr by (simp_all add: div_mult_mod_eq)
  have "(n + 0xFFFFF) div 0x100000 = (if r = 0 then q else q + 1)"
    by (rule div_nat_eqI) (use n r in \<open>auto split: if_splits\<close>)
  then show ?thesis by (simp add: qr)
qed

lemma ceil_div_ge: "n \<le> (n + 0xFFFFF) div 0x100000 * (0x100000 :: nat)"
proof -
  have "n + 0xFFFFF = (n + 0xFFFFF) div 0x100000 * 0x100000 + (n + 0xFFFFF) mod 0x100000"
    by (simp only: div_mult_mod_eq)
  moreover have "(n + 0xFFFFF) mod 0x100000 < 0x100000" by (rule mod_less_divisor) simp
  ultimately show ?thesis by linarith
qed

lemma chunk_facts:
  assumes "l \<noteq> 0"
  shows "unat l \<le> moved l" "unat (num_chunk_of l) \<le> 4096"
    "unat (copy_len_of l) = 0x100000 \<or> unat (num_chunk_of l) = 1"
    "moved l = (if unat l \<le> 0x100000 then unat l else (unat l + 0xFFFFF) div 0x100000 * 0x100000)"
proof -
  have c: "unat CPY_CHUNK_SIZE = 0x100000" by (simp add: CPY_CHUNK_SIZE_def)
  have L: "unat (copy_len_of l) = min 0x100000 (unat l)"
    by (simp add: copy_len_of_def c word_less_nat_alt min_def)
  have d: "unat l div 0x100000 < 4096" using u32_bound [of l] by (simp add: div_less_iff_less_mult)
  have N: "unat (num_chunk_of l) = (if unat l mod 0x100000 = 0 then unat l div 0x100000 else unat l div 0x100000 + 1)"
    using d by (simp add: num_chunk_of_def unat_eq_0 [symmetric] unat_mod c unat_div unat_word_ariths)
  have p: "0 < unat l" using assms by (simp add: unat_gt_0)
  show "unat (num_chunk_of l) \<le> 4096" using N d by simp
  show "unat (copy_len_of l) = 0x100000 \<or> unat (num_chunk_of l) = 1" using L N p by (auto simp: min_def)
  show "moved l = (if unat l \<le> 0x100000 then unat l else (unat l + 0xFFFFF) div 0x100000 * 0x100000)"
    using p unfolding moved_def L N ceil_div by (auto simp: min_def)
  then show "unat l \<le> moved l"
    using ceil_div_ge [of "unat l"] by (auto split: if_splits)
qed

lemma chunk_at_nat: "i < 4096 \<Longrightarrow> chunk_at a (of_nat i) = a + of_nat (i * 0x100000)"
proof -
  assume i: "i < 4096"
  have "unat (of_nat i * CPY_CHUNK_SIZE :: u32) = i * 0x100000"
    using i by (simp add: CPY_CHUNK_SIZE_def unat_word_ariths)
  then have "(ucast (of_nat i * CPY_CHUNK_SIZE :: u32) :: u64) = of_nat (i * 0x100000)"
    by (metis of_nat_unat)
  then show ?thesis by (simp add: chunk_at_def)
qed

lemma chunk_at_off: "i < 4096 \<Longrightarrow> n = 0x100000 \<or> i = 0 \<Longrightarrow> chunk_at a (of_nat i) = a + of_nat (i * n)"
  by (elim disjE) (simp_all only: chunk_at_nat, simp add: chunk_at_def)

section \<open>What the steps do\<close>

text \<open>Everything but the memory, the clock and the channels.\<close>

definition same_dev :: "host_state \<Rightarrow> host_state \<Rightarrow> bool" where
  "same_dev s s' \<longleftrightarrow> live s' = live s \<and> host_dma_t s' = host_dma_t s \<and> attrs s' = attrs s"

lemma same_dev_refl [simp]: "same_dev s s"
  by (simp add: same_dev_def)

lemma same_dev_trans [trans]: "same_dev s t \<Longrightarrow> same_dev t u \<Longrightarrow> same_dev s u"
  by (simp add: same_dev_def)

lemmas copy_defs = copy_from_user_def copy_to_user_def step_def

lemma memcpy_done:
  assumes "dma_memcpy env dst src len s = Inr (0, s')"
  shows "bus s' = copy_mem (bus s) src dst (unat len) (bus s)" "user s' = user s" "held s' = held s" "same_dev s s'"
  using assms by (auto simp: dma_memcpy_def run_tx_def step_def Let_def same_dev_def split: option.splits if_splits)

lemma memcpy_same: "dma_memcpy env dst src len s = Inr (rv, s') \<Longrightarrow> same_dev s s' \<and> user s' = user s"
  by (auto simp: dma_memcpy_def run_tx_def step_def Let_def same_dev_def split: option.splits if_splits)

lemma copy_same:
  "copy_from_user env buf from n s = Inr (r, s') \<Longrightarrow> same_dev s s' \<and> held s' = held s"
  "copy_to_user env to buf n s = Inr (r, s') \<Longrightarrow> same_dev s s' \<and> held s' = held s"
  by (auto simp: copy_defs same_dev_def split: option.splits if_splits)

lemma ucast_chunk [simp]: "unat (ucast (len :: u32) :: u64) = unat len"
  by (simp add: unsigned_ucast_eq take_bit_nat_eq_self order.strict_trans [OF u32_bound])

lemma h2h_step:
  assumes "h2h_loop (Suc n) i env src dst len (Some (p, b)) (Some (dp, db)) s = Inr (SUCCESS, s')"
  obtains s1 where "h2h_loop n (i + 1) env src dst len (Some (p, b)) (Some (dp, db)) s1 = Inr (SUCCESS, s')"
    "user s1 = copy_mem (user s) (chunk_at src i) (chunk_at dst i) (unat len) (user s)"
    "held s1 = held s" "same_dev s s1"
proof -
  have n: "unat len \<le> 2 ^ 64" using u32_bound [of len] by (simp del: u32_bound)
  from assms obtain s1 where c: "copy_from_user env (Some (p, b)) (chunk_at src i) len s = Inr (False, s1)"
    by (auto split: sum.splits prod.splits bool.splits)
  with assms obtain s2 where d: "dma_memcpy env db b (ucast len) s1 = Inr (0, s2)"
    by (auto split: sum.splits prod.splits bool.splits if_splits)
  with assms c obtain s3 where t: "copy_to_user env (chunk_at dst i) (Some (dp, db)) len s2 = Inr (False, s3)"
    by (auto split: sum.splits prod.splits bool.splits if_splits)
  have b1: "bus s1 = copy_mem (user s) (chunk_at src i) b (unat len) (bus s)" "user s1 = user s"
    using c by (auto simp: copy_defs split: if_splits)
  have b3: "user s3 = copy_mem (bus s2) db (chunk_at dst i) (unat len) (user s2)"
    using t by (auto simp: copy_defs split: if_splits)
  have "user s3 = copy_mem (user s) (chunk_at src i) (chunk_at dst i) (unat len) (user s)"
    using memcpy_done [OF d] b1 b3 by (simp add: copy_mem_via [OF n])
  moreover have "same_dev s s3" "held s3 = held s"
    using copy_same(1) [OF c] memcpy_done [OF d] copy_same(2) [OF t] by (auto simp: same_dev_def)
  ultimately show ?thesis using that [of s3] assms c d t by simp
qed

lemma h2h_loop_moves:
  assumes "h2h_loop n (of_nat i) env src dst len (Some (p, b)) (Some (dp, db)) s = Inr (SUCCESS, s')"
    and "user s = copy_mem u src dst (i * unat len) u" "i + n \<le> 4096" "unat len = 0x100000 \<or> i + n = 1"
    and "apart src ((i + n) * unat len) dst ((i + n) * unat len)"
  shows "user s' = copy_mem u src dst ((i + n) * unat len) u \<and> held s' = held s \<and> same_dev s s'"
  using assms
proof (induction n arbitrary: i s)
  case (Suc n)
  from Suc.prems(1) obtain s1 where
    s1: "h2h_loop n (of_nat i + 1) env src dst len (Some (p, b)) (Some (dp, db)) s1 = Inr (SUCCESS, s')"
      "user s1 = copy_mem (user s) (chunk_at src (of_nat i)) (chunk_at dst (of_nat i)) (unat len) (user s)"
      "held s1 = held s" "same_dev s s1" by (rule h2h_step)
  have at: "chunk_at a (of_nat i) = a + of_nat (i * unat len)" for a
    using Suc.prems(3,4) by (intro chunk_at_off) auto
  have "apart src (i * unat len + unat len) dst (i * unat len + unat len)"
    by (rule apart_less [OF Suc.prems(5)]) (simp_all add: algebra_simps)
  from copy_next_chunk [OF this, of u]
  have "user s1 = copy_mem u src dst (Suc i * unat len) u"
    unfolding s1(2) Suc.prems(2) at by (simp add: algebra_simps)
  moreover have "h2h_loop n (of_nat (Suc i)) env src dst len (Some (p, b)) (Some (dp, db)) s1 = Inr (SUCCESS, s')"
    using s1(1) by (simp add: add.commute)
  ultimately have "user s' = copy_mem u src dst ((Suc i + n) * unat len) u \<and> held s' = held s1 \<and> same_dev s1 s'"
    using Suc.prems(3-5) by (intro Suc.IH) simp_all
  then show ?case using s1(3,4) same_dev_trans by auto
qed simp

text \<open>The device memory after a write, and the process's memory after a read.\<close>

lemma copy_mem_swap:
  assumes "apart b n d k"
  shows "copy_mem m1 s1 b n (copy_mem m2 s2 d k B) = copy_mem m2 s2 d k (copy_mem m1 s1 b n B)"
proof
  fix a
  have "\<not> (unat (a - b) < n \<and> unat (a - d) < k)"
    using apart_off [OF assms, of "unat (a - d)"] by auto
  then show "copy_mem m1 s1 b n (copy_mem m2 s2 d k B) a = copy_mem m2 s2 d k (copy_mem m1 s1 b n B) a"
    by (auto simp: copy_mem_def)
qed

lemma h2f_step:
  assumes "h2f_loop (Suc n) i env src q len (Some (p, b)) s = Inr (SUCCESS, s')"
  obtains s1 where "h2f_loop n (i + 1) env src q len (Some (p, b)) s1 = Inr (SUCCESS, s')"
    "bus s1 = copy_mem (user s) (chunk_at src i) (chunk_at q i) (unat len)
        (copy_mem (user s) (chunk_at src i) b (unat len) (bus s))" "user s1 = user s" "held s1 = held s"
proof -
  have n: "unat len \<le> 2 ^ 64" using u32_bound [of len] by (simp del: u32_bound)
  from assms obtain s1 where c: "copy_from_user env (Some (p, b)) (chunk_at src i) len s = Inr (False, s1)"
    by (auto split: sum.splits prod.splits bool.splits)
  with assms obtain s2 where d: "dma_memcpy env (chunk_at q i) b (ucast len) s1 = Inr (0, s2)"
    by (auto split: sum.splits prod.splits bool.splits if_splits)
  have b1: "bus s1 = copy_mem (user s) (chunk_at src i) b (unat len) (bus s)" "user s1 = user s"
    using c by (auto simp: copy_defs split: if_splits)
  with memcpy_done [OF d] copy_same(1) [OF c] show ?thesis using that [of s2] assms c d by (simp add: copy_mem_via [OF n])
qed

lemma h2f_loop_moves:
  assumes "h2f_loop n (of_nat i) env src q len (Some (p, b)) s = Inr (SUCCESS, s')"
    and "\<exists>B. bus s = copy_mem (user s) src q (i * unat len) B" "i + n \<le> 4096" "unat len = 0x100000 \<or> i + n = 1"
    and "apart b (unat len) q ((i + n) * unat len)"
  shows "(\<exists>B. bus s' = copy_mem (user s) src q ((i + n) * unat len) B) \<and> user s' = user s \<and> held s' = held s"
  using assms
proof (induction n arbitrary: i s)
  case (Suc n)
  from Suc.prems(1) obtain s1 where
    s1: "h2f_loop n (of_nat i + 1) env src q len (Some (p, b)) s1 = Inr (SUCCESS, s')"
      "bus s1 = copy_mem (user s) (chunk_at src (of_nat i)) (chunk_at q (of_nat i)) (unat len)
        (copy_mem (user s) (chunk_at src (of_nat i)) b (unat len) (bus s))" "user s1 = user s" "held s1 = held s" by (rule h2f_step)
  have at: "chunk_at a (of_nat i) = a + of_nat (i * unat len)" for a
    using Suc.prems(3,4) by (intro chunk_at_off) auto
  from Suc.prems(2) obtain B where B: "bus s = copy_mem (user s) src q (i * unat len) B" by blast
  have ap: "apart b (unat len) q (i * unat len)"
    by (rule apart_less [OF Suc.prems(5)]) (simp_all add: algebra_simps)
  have "(i + Suc n) * unat len < 2 ^ 64" using Suc.prems(5) u64_less [of "b - q"] by (auto simp: apart_def simp del: u64_bound)
  then have le: "i * unat len + unat len \<le> 2 ^ 64" by (simp add: algebra_simps)
  have "bus s1 = copy_mem (user s) src q (i * unat len + unat len)
      (copy_mem (user s) (src + of_nat (i * unat len)) b (unat len) B)"
    unfolding s1(2) B at copy_mem_swap [OF ap] by (rule copy_mem_append [OF le]) simp
  then have "\<exists>B. bus s1 = copy_mem (user s1) src q (Suc i * unat len) B"
    using s1(3) by (auto simp: add.commute)
  moreover have "h2f_loop n (of_nat (Suc i)) env src q len (Some (p, b)) s1 = Inr (SUCCESS, s')"
    using s1(1) by (simp add: add.commute)
  ultimately have "(\<exists>B. bus s' = copy_mem (user s1) src q ((Suc i + n) * unat len) B) \<and> user s' = user s1 \<and> held s' = held s1"
    using Suc.prems(3-5) by (intro Suc.IH) simp_all
  then show ?case using s1(3,4) by simp
qed simp

lemma f2h_step:
  assumes "f2h_loop (Suc n) i env q dst len (Some (p, b)) s = Inr (SUCCESS, s')"
  obtains s1 where "f2h_loop n (i + 1) env q dst len (Some (p, b)) s1 = Inr (SUCCESS, s')"
    "bus s1 = copy_mem (bus s) (chunk_at q i) b (unat len) (bus s)"
    "user s1 = copy_mem (bus s) (chunk_at q i) (chunk_at dst i) (unat len) (user s)"
proof -
  have n: "unat len \<le> 2 ^ 64" using u32_bound [of len] by (simp del: u32_bound)
  from assms obtain s1 where d: "dma_memcpy env b (chunk_at q i) (ucast len) s = Inr (0, s1)"
    by (auto split: sum.splits prod.splits if_splits)
  with assms obtain s2 where t: "copy_to_user env (chunk_at dst i) (Some (p, b)) len s1 = Inr (False, s2)"
    by (auto split: sum.splits prod.splits bool.splits if_splits)
  have b3: "user s2 = copy_mem (bus s1) b (chunk_at dst i) (unat len) (user s1)" "bus s2 = bus s1"
    using t by (auto simp: copy_defs split: if_splits)
  with memcpy_done [OF d] show ?thesis using that [of s2] assms d t by (simp add: copy_mem_via [OF n])
qed

lemma f2h_loop_moves:
  assumes "f2h_loop n (of_nat i) env q dst len (Some (p, b)) s = Inr (SUCCESS, s')"
    and "user s = copy_mem D q dst (i * unat len) u" "\<forall>k < (i + n) * unat len. bus s (q + of_nat k) = D (q + of_nat k)"
    and "i + n \<le> 4096" "unat len = 0x100000 \<or> i + n = 1" "apart b (unat len) q ((i + n) * unat len)"
  shows "user s' = copy_mem D q dst ((i + n) * unat len) u"
  using assms
proof (induction n arbitrary: i s)
  case (Suc n)
  from Suc.prems(1) obtain s1 where
    s1: "f2h_loop n (of_nat i + 1) env q dst len (Some (p, b)) s1 = Inr (SUCCESS, s')"
      "bus s1 = copy_mem (bus s) (chunk_at q (of_nat i)) b (unat len) (bus s)"
      "user s1 = copy_mem (bus s) (chunk_at q (of_nat i)) (chunk_at dst (of_nat i)) (unat len) (user s)" by (rule f2h_step)
  have at: "chunk_at a (of_nat i) = a + of_nat (i * unat len)" for a
    using Suc.prems(4,5) by (intro chunk_at_off) auto
  have "(i + Suc n) * unat len < 2 ^ 64" using Suc.prems(6) u64_less [of "b - q"] by (auto simp: apart_def simp del: u64_bound)
  then have le: "i * unat len + unat len \<le> 2 ^ 64" by (simp add: algebra_simps)
  have "bus s (q + of_nat (i * unat len + j)) = D (q + of_nat (i * unat len + j))" if "j < unat len" for j
    using that by (intro Suc.prems(3) [rule_format]) (simp add: algebra_simps)
  then have src: "bus s (q + of_nat (i * unat len) + of_nat j) = D (q + of_nat (i * unat len) + of_nat j)" if "j < unat len" for j
    using that by (simp add: add.assoc)
  have "user s1 = copy_mem D q dst (i * unat len + unat len) u"
    unfolding s1(3) Suc.prems(2) at by (rule copy_mem_append [OF le]) (rule src)
  then have "user s1 = copy_mem D q dst (Suc i * unat len) u" by (simp add: add.commute)
  moreover have "\<forall>k < (Suc i + n) * unat len. bus s1 (q + of_nat k) = D (q + of_nat k)"
    using Suc.prems(3) copy_mem_apart [OF Suc.prems(6)] unfolding s1(2) by simp
  moreover have "f2h_loop n (of_nat (Suc i)) env q dst len (Some (p, b)) s1 = Inr (SUCCESS, s')"
    using s1(1) by (simp add: add.commute)
  ultimately have "user s' = copy_mem D q dst ((Suc i + n) * unat len) u"
    using Suc.prems(4-6) by (intro Suc.IH) simp_all
  then show ?case by simp
qed simp

section \<open>Transfers\<close>

text \<open>What the kernel promises of its buffers and channels.\<close>

definition buffers_ok :: "host_env \<Rightarrow> bool" where
  "buffers_ok env \<longleftrightarrow> (\<forall>t n p b. new_buffer env t n = Some (p, b) \<longrightarrow> p \<noteq> 0)"

definition channels_ok :: "host_env \<Rightarrow> bool" where
  "channels_ok env \<longleftrightarrow> (\<forall>t f h c. channel env t f h = Some c \<longrightarrow> f c \<and> c \<notin> set h)"

lemma alloc_cases:
  assumes "dma_alloc env k len s = (buf, s')"
  shows "(buf = None \<and> s' = step s) \<or> (\<exists>p b. buf = Some (p, b) \<and> new_buffer env (now s) len = Some (p, b)
    \<and> s' = step (s\<lparr>live := \<lparr>kind = k, buf_len = len, buf_ptr = p, buf_bus = b\<rparr> # live s\<rparr>))"
  using assms by (auto simp: dma_alloc_def split: option.splits)

lemma h2h_loop_buffers:
  "h2h_loop (Suc n) i env src dst len buf dbuf s = Inr (SUCCESS, s') \<Longrightarrow> (\<exists>p b. buf = Some (p, b)) \<and> (\<exists>p b. dbuf = Some (p, b))"
  by (auto simp: copy_from_user_def split: option.splits sum.splits prod.splits bool.splits if_splits)

lemma chunks_pos: "l \<noteq> 0 \<Longrightarrow> \<exists>n. unat (num_chunk_of l) = Suc n"
  using chunk_facts(1) [of l] by (cases "unat (num_chunk_of l)") (auto simp: moved_def unat_eq_0)

lemma ioctl_h2h_done:
  assumes "ioctl_h2h env a buf s = Inr (SUCCESS, s')" "buffers_ok env"
    and "apart (srcA_ptr a) (moved (xfer_length a)) (dstC_ptr a) (moved (xfer_length a))"
  shows "user s' = copy_mem (user s) (srcA_ptr a) (dstC_ptr a) (moved (xfer_length a)) (user s)" (is ?u)
    and "live s' = live s" "held s' = held s" "xfer_length a \<noteq> 0"
proof -
  let ?l = "xfer_length a" and ?len = "copy_len_of (xfer_length a)"
  have ok: "\<not> bad_args a" using assms(1) by (auto simp: ioctl_h2h_def)
  then show l: "?l \<noteq> 0" by (auto simp: bad_args_def)
  obtain dbuf s1 where al: "dma_alloc env UC (ucast ?len) s = (dbuf, s1)" by (cases "dma_alloc env UC (ucast ?len) s")
  obtain s2 where r: "h2h_loop (unat (num_chunk_of ?l)) 0 env (srcA_ptr a) (dstC_ptr a) ?len buf dbuf s1 = Inr (SUCCESS, s2)"
    using assms(1) ok al by (auto simp: ioctl_h2h_def split: sum.splits if_splits)
  from chunks_pos [OF l] r obtain p b dp db where bufs: "buf = Some (p, b)" "dbuf = Some (dp, db)"
    using h2h_loop_buffers by metis
  from alloc_cases [OF al] bufs have s1: "user s1 = user s" "held s1 = held s"
      "live s1 = \<lparr>kind = UC, buf_len = ucast ?len, buf_ptr = dp, buf_bus = db\<rparr> # live s" "dp \<noteq> 0"
    using assms(2) by (auto simp: step_def buffers_ok_def)
  have "user s2 = copy_mem (user s) (srcA_ptr a) (dstC_ptr a) ((0 + unat (num_chunk_of ?l)) * unat ?len) (user s)
      \<and> held s2 = held s1 \<and> same_dev s1 s2"
    using r bufs s1 chunk_facts(2,3) [OF l] assms(3)
    by (intro h2h_loop_moves [where i = 0]) (simp_all add: copy_mem_def moved_def)
  then have m: "user s2 = copy_mem (user s) (srcA_ptr a) (dstC_ptr a) (moved ?l) (user s)" "held s2 = held s" "live s2 = live s1"
    using s1 by (simp_all add: moved_def same_dev_def)
  have "s' = s2\<lparr>live := live s\<rparr>"
    using assms(1) ok al r bufs m s1 by (auto simp: ioctl_h2h_def dma_free_def Let_def)
  then show ?u "live s' = live s" "held s' = held s" using m by simp_all
qed

lemma exit_done:
  assumes "host_exit len buf (Inr (rv, s)) = Inr (r, s')"
  shows "user s' = user s" "bus s' = bus s" "held s' = held s" "r = SUCCESS \<longleftrightarrow> rv = 0"
  using assms by (auto simp: host_exit_def dma_free_def Let_def split: option.splits if_splits)

lemma exit_live:
  assumes "host_exit len (Some (p, b)) (Inr (rv, s)) = Inr (r, s')" "p \<noteq> 0"
  shows "live s' = remove1 \<lparr>kind = UC, buf_len = ucast len, buf_ptr = p, buf_bus = b\<rparr> (live s)"
  using assms by (auto simp: host_exit_def dma_free_def Let_def split: if_splits)

lemma exit_Inl [simp]: "host_exit len buf (Inl f) = Inl f"
  by (simp add: host_exit_def)

lemma exit_Inr: "host_exit len buf x = Inr (r, s') \<Longrightarrow> \<exists>rv s. x = Inr (rv, s)"
  by (cases x) auto

lemma exit_success:
  assumes "host_exit len buf x = Inr (SUCCESS, s')"
  obtains s2 where "x = Inr (SUCCESS, s2)" "user s' = user s2" "bus s' = bus s2" "held s' = held s2"
proof -
  from exit_Inr [OF assms] obtain rv s2 where x: "x = Inr (rv, s2)" by blast
  with exit_done [OF assms [unfolded x]] show ?thesis using that [of s2] by simp
qed

lemma h2f_loop_buffers: "h2f_loop (Suc n) i env src d len buf s = Inr (SUCCESS, s') \<Longrightarrow> \<exists>p b. buf = Some (p, b)"
  by (auto simp: copy_from_user_def split: option.splits)

lemma f2h_loop_buffers: "f2h_loop (Suc n) i env d dst len buf s = Inr (SUCCESS, s') \<Longrightarrow> \<exists>p b. buf = Some (p, b)"
  by (auto split: option.splits)

text \<open>HOST2HOST, the two exits of the switch included.\<close>

lemma host2host_done:
  assumes "host_dma_ioctl env HOST2HOST a s = Inr (SUCCESS, s')" "buffers_ok env"
    and "apart (srcA_ptr a) (moved (xfer_length a)) (dstC_ptr a) (moved (xfer_length a))"
  shows "user s' = copy_mem (user s) (srcA_ptr a) (dstC_ptr a) (moved (xfer_length a)) (user s)"
    and "live s' = live s" "held s' = held s" "xfer_length a \<noteq> 0"
proof -
  have h: "\<not> user_fails env (now s)" using assms(1) by (auto simp: host_dma_ioctl_def)
  let ?len = "copy_len_of (xfer_length a)"
  obtain buf s1 where al: "dma_alloc env UC (ucast ?len) (step s) = (buf, s1)" by (cases "dma_alloc env UC (ucast ?len) (step s)")
  have x: "host_exit ?len buf (ioctl_h2h env a buf s1) = Inr (SUCCESS, s')"
    using assms(1) h al by (simp add: host_dma_ioctl_def Let_def)
  obtain s2 where s2: "ioctl_h2h env a buf s1 = Inr (SUCCESS, s2)" "user s' = user s2" "held s' = held s2"
    by (rule exit_success [OF x])
  note d = ioctl_h2h_done [OF s2(1) assms(2,3)]
  have u: "user s1 = user s" "held s1 = held s" using alloc_cases [OF al] by (auto simp: step_def)
  show "user s' = copy_mem (user s) (srcA_ptr a) (dstC_ptr a) (moved (xfer_length a)) (user s)" "held s' = held s"
    "xfer_length a \<noteq> 0" using d s2 u by simp_all
  show "live s' = live s"
  proof (cases buf)
    case None
    with x s2(1) have "live s' = live s2" by (auto simp: host_exit_def)
    with None alloc_cases [OF al] d(2) show ?thesis by (auto simp: step_def)
  next
    case (Some pb)
    obtain p b where pb: "pb = (p, b)" by fastforce
    with Some alloc_cases [OF al] assms(2) have "p \<noteq> 0"
      "live s1 = \<lparr>kind = UC, buf_len = ucast ?len, buf_ptr = p, buf_bus = b\<rparr> # live s" by (auto simp: buffers_ok_def step_def)
    with exit_live [OF x [unfolded s2(1), unfolded Some pb]] d(2) show ?thesis by simp
  qed
qed

lemma moved_bound: "l \<noteq> 0 \<Longrightarrow> moved l \<le> 2 ^ 64"
  using chunk_facts(2,3) [of l] u32_bound [of "copy_len_of l"] mult_le_mono [of "unat (num_chunk_of l)" 4096 "unat (copy_len_of l)" "2 ^ 32"]
  unfolding moved_def by (simp del: u32_bound)

text \<open>
  Claim C26: a HOST2HOST transfer that reports success, between ranges that do not meet, has copied
  every byte asked for, and every buffer and channel it took is given back.
\<close>

theorem host2host_copies:
  assumes "host_dma_ioctl env HOST2HOST a s = Inr (SUCCESS, s')" "buffers_ok env"
    and "apart (srcA_ptr a) (moved (xfer_length a)) (dstC_ptr a) (moved (xfer_length a))"
  shows "(\<forall>k < unat (xfer_length a). user s' (dstC_ptr a + of_nat k) = user s (srcA_ptr a + of_nat k))
    \<and> live s' = live s \<and> held s' = held s"
  using host2host_done [OF assms] chunk_facts(1) [of "xfer_length a"] moved_bound [of "xfer_length a"]
  by (auto intro!: copy_mem_at)

text \<open>
  The last chunk is copied whole. A successful HOST2HOST transfer of more than one chunk
  whose length is no multiple of the chunk writes to the process past the end of the destination.
\<close>

theorem host2host_overruns:
  assumes "host_dma_ioctl env HOST2HOST a s = Inr (SUCCESS, s')" "buffers_ok env"
    and "apart (srcA_ptr a) (moved (xfer_length a)) (dstC_ptr a) (moved (xfer_length a))"
    and "xfer_length a > CPY_CHUNK_SIZE" "xfer_length a mod CPY_CHUNK_SIZE \<noteq> 0"
  shows "unat (xfer_length a) < moved (xfer_length a) \<and> (\<forall>k < moved (xfer_length a) - unat (xfer_length a).
    user s' (dstC_ptr a + ucast (xfer_length a) + of_nat k) = user s (srcA_ptr a + ucast (xfer_length a) + of_nat k))"
proof (intro conjI allI impI)
  let ?l = "xfer_length a"
  note d = host2host_done [OF assms(1-3)]
  have "moved ?l mod 0x100000 = 0" "unat ?l mod 0x100000 \<noteq> 0"
    using assms(4,5) chunk_facts(4) [OF d(4)]
    by (simp_all add: word_less_nat_alt CPY_CHUNK_SIZE_def unat_eq_0 [symmetric] unat_mod)
  then have "moved ?l \<noteq> unat ?l" by auto
  with chunk_facts(1) [OF d(4)] show "unat ?l < moved ?l" by simp
  fix k assume k: "k < moved ?l - unat ?l"
  have "user s' (dstC_ptr a + of_nat (unat ?l + k)) = user s (srcA_ptr a + of_nat (unat ?l + k))"
    unfolding d(1) using k moved_bound [OF d(4)] by (intro copy_mem_at) simp_all
  then show "user s' (dstC_ptr a + ucast ?l + of_nat k) = user s (srcA_ptr a + ucast ?l + of_nat k)"
    by (simp add: add.assoc)
qed

text \<open>A write puts the bytes at the translated address, a read fetches them from there.\<close>

lemma write_done:
  assumes "host_dma_ioctl env HOST2FPGA a s = Inr (SUCCESS, s')" "q = translate env (dstC_ptr a)"
    and "\<forall>t n p b. new_buffer env t n = Some (p, b) \<longrightarrow> apart b (unat n) q (moved (xfer_length a))"
  shows "(\<exists>B. bus s' = copy_mem (user s) (srcA_ptr a) q (moved (xfer_length a)) B) \<and> user s' = user s \<and> held s' = held s"
proof -
  let ?l = "xfer_length a" and ?len = "copy_len_of (xfer_length a)"
  have h: "\<not> user_fails env (now s)" using assms(1) by (auto simp: host_dma_ioctl_def)
  obtain buf s1 where al: "dma_alloc env UC (ucast ?len) (step s) = (buf, s1)" by (cases "dma_alloc env UC (ucast ?len) (step s)")
  have x: "host_exit ?len buf (ioctl_h2f env a buf s1) = Inr (SUCCESS, s')"
    using assms(1) h al by (simp add: host_dma_ioctl_def Let_def)
  obtain s2 where s2: "ioctl_h2f env a buf s1 = Inr (SUCCESS, s2)" "user s' = user s2" "bus s' = bus s2" "held s' = held s2"
    by (rule exit_success [OF x])
  then have ok: "?l \<noteq> 0" and r: "h2f_loop (unat (num_chunk_of ?l)) 0 env (srcA_ptr a) q ?len buf s1 = Inr (SUCCESS, s2)"
    using assms(2) by (auto simp: ioctl_h2f_def bad_args_def split: if_splits)
  from chunks_pos [OF ok] r obtain p b where b: "buf = Some (p, b)" using h2f_loop_buffers by metis
  from alloc_cases [OF al] b have u: "user s1 = user s" "held s1 = held s" and n: "new_buffer env (now (step s)) (ucast ?len) = Some (p, b)"
    by (auto simp: step_def)
  from assms(3) n have ap: "apart b (unat ?len) q (moved ?l)" by fastforce
  have "(\<exists>B. bus s2 = copy_mem (user s1) (srcA_ptr a) q ((0 + unat (num_chunk_of ?l)) * unat ?len) B) \<and> user s2 = user s1 \<and> held s2 = held s1"
    using r b chunk_facts(2,3) [OF ok] ap
    by (intro h2f_loop_moves [where i = 0]) (auto simp: copy_mem_def moved_def)
  then show ?thesis using s2 u by (simp add: moved_def)
qed

lemma read_done:
  assumes "host_dma_ioctl env FPGA2HOST a s = Inr (SUCCESS, s')" "q = translate env (srcA_ptr a)"
    and "\<forall>t n p b. new_buffer env t n = Some (p, b) \<longrightarrow> apart b (unat n) q (moved (xfer_length a))"
  shows "user s' = copy_mem (bus s) q (dstC_ptr a) (moved (xfer_length a)) (user s)" "xfer_length a \<noteq> 0"
proof -
  let ?l = "xfer_length a" and ?len = "copy_len_of (xfer_length a)"
  have h: "\<not> user_fails env (now s)" using assms(1) by (auto simp: host_dma_ioctl_def)
  obtain buf s1 where al: "dma_alloc env UC (ucast ?len) (step s) = (buf, s1)" by (cases "dma_alloc env UC (ucast ?len) (step s)")
  have x: "host_exit ?len buf (ioctl_f2h env a buf s1) = Inr (SUCCESS, s')"
    using assms(1) h al by (simp add: host_dma_ioctl_def Let_def)
  obtain s2 where s2: "ioctl_f2h env a buf s1 = Inr (SUCCESS, s2)" "user s' = user s2"
    by (rule exit_success [OF x])
  then show ok: "?l \<noteq> 0" by (auto simp: ioctl_f2h_def bad_args_def split: if_splits)
  have r: "f2h_loop (unat (num_chunk_of ?l)) 0 env q (dstC_ptr a) ?len buf s1 = Inr (SUCCESS, s2)"
    using assms(2) s2 by (auto simp: ioctl_f2h_def bad_args_def split: if_splits)
  from chunks_pos [OF ok] r obtain p b where b: "buf = Some (p, b)" using f2h_loop_buffers by metis
  from alloc_cases [OF al] b have u: "user s1 = user s" "bus s1 = bus s"
    and n: "new_buffer env (now (step s)) (ucast ?len) = Some (p, b)" by (auto simp: step_def)
  from assms(3) n have ap: "apart b (unat ?len) q (moved ?l)" by fastforce
  have "user s2 = copy_mem (bus s) q (dstC_ptr a) ((0 + unat (num_chunk_of ?l)) * unat ?len) (user s)"
    using r b chunk_facts(2,3) [OF ok] ap u
    by (intro f2h_loop_moves [where i = 0 and s = s1]) (auto simp: copy_mem_def moved_def)
  then show "user s' = copy_mem (bus s) q (dstC_ptr a) (moved ?l) (user s)" using s2 by (simp add: moved_def)
qed

text \<open>
  What HOST2FPGA writes, FPGA2HOST reads back: when both report success, the bytes the
  process gets are those it wrote, provided the kernel's bounce buffers lie outside the device range.
\<close>

theorem device_roundtrip:
  assumes "host_dma_ioctl env HOST2FPGA a s = Inr (SUCCESS, s1)" "host_dma_ioctl env FPGA2HOST c s1 = Inr (SUCCESS, s2)"
    and "srcA_ptr c = dstC_ptr a" "xfer_length c = xfer_length a"
    and "\<forall>t n p b. new_buffer env t n = Some (p, b)
      \<longrightarrow> apart b (unat n) (translate env (dstC_ptr a)) (moved (xfer_length a))"
  shows "\<forall>k < unat (xfer_length a). user s2 (dstC_ptr c + of_nat k) = user s (srcA_ptr a + of_nat k)"
proof (intro allI impI)
  fix k assume k: "k < unat (xfer_length a)"
  let ?q = "translate env (dstC_ptr a)" and ?n = "moved (xfer_length a)"
  obtain B where w: "bus s1 = copy_mem (user s) (srcA_ptr a) ?q ?n B"
    using write_done [OF assms(1) refl assms(5)] by blast
  have r: "user s2 = copy_mem (bus s1) ?q (dstC_ptr c) ?n (user s1)" and l: "xfer_length a \<noteq> 0"
    using read_done [OF assms(2) refl] assms(3-5) by simp_all
  have "?n \<le> 2 ^ 64" by (rule moved_bound [OF l])
  with k chunk_facts(1) [OF l] show "user s2 (dstC_ptr c + of_nat k) = user s (srcA_ptr a + of_nat k)"
    unfolding r w by (subst copy_mem_at, simp, simp)+ simp
qed

section \<open>What errors leave behind\<close>

lemma h2h_loop_same: "h2h_loop n i env src dst len buf dbuf s = Inr (rv, s') \<Longrightarrow> same_dev s s'"
proof (induction n arbitrary: i s)
  case (Suc n)
  then show ?case
    by (auto split: sum.splits prod.splits bool.splits option.splits if_splits
        dest!: copy_same memcpy_same intro: same_dev_trans) (blast intro: same_dev_trans)+
qed simp

text \<open>
  An error of HOST2HOST after its second buffer has been allocated leaks that buffer.
\<close>

theorem host2host_error_leaks:
  assumes "host_dma_ioctl env HOST2HOST a s = Inr (rv, s')" "rv \<noteq> SUCCESS" "buffers_ok env"
    and "\<not> user_fails env (now s)" "\<not> bad_args a"
    and "new_buffer env (now s + 1) (ucast (copy_len_of (xfer_length a))) = Some (p, b)"
    and "new_buffer env (now s + 2) (ucast (copy_len_of (xfer_length a))) = Some (dp, db)"
  shows "rv = - EFAULT
    \<and> live s' = \<lparr>kind = UC, buf_len = ucast (copy_len_of (xfer_length a)), buf_ptr = dp, buf_bus = db\<rparr> # live s"
proof -
  let ?l = "xfer_length a" and ?len = "copy_len_of (xfer_length a)"
  define x y where "x = \<lparr>kind = UC, buf_len = ucast ?len, buf_ptr = dp, buf_bus = db\<rparr>"
    and "y = \<lparr>kind = UC, buf_len = ucast ?len, buf_ptr = p, buf_bus = b\<rparr>"
  have nz: "p \<noteq> 0" "dp \<noteq> 0" using assms(3,6,7) unfolding buffers_ok_def by blast+
  define s1 s2 where "s1 = step (step s\<lparr>live := y # live s\<rparr>)" and "s2 = step (s1\<lparr>live := x # live s1\<rparr>)"
  have al: "dma_alloc env UC (ucast ?len) (step s) = (Some (p, b), s1)" "dma_alloc env UC (ucast ?len) s1 = (Some (dp, db), s2)"
    using assms(6,7) by (simp_all add: dma_alloc_def s1_def s2_def step_def x_def y_def)
  have e: "host_exit ?len (Some (p, b)) (ioctl_h2h env a (Some (p, b)) s1) = Inr (rv, s')"
    using assms(1,4) al(1) by (simp add: host_dma_ioctl_def Let_def)
  obtain r s3 where lp: "h2h_loop (unat (num_chunk_of ?l)) 0 env (srcA_ptr a) (dstC_ptr a) ?len (Some (p, b)) (Some (dp, db)) s2
      = Inr (r, s3)" using exit_Inr [OF e] assms(5) al(2) by (auto simp: ioctl_h2h_def split: sum.splits if_splits)
  have l3: "live s3 = x # y # live s" using h2h_loop_same [OF lp] by (simp add: same_dev_def s2_def s1_def step_def)
  have "r \<noteq> 0"
  proof
    assume "r = 0"
    with e lp assms(5) al(2) l3 nz have "rv = SUCCESS"
      by (auto simp: ioctl_h2h_def host_exit_def dma_free_def Let_def x_def y_def split: if_splits)
    with assms(2) show False by simp
  qed
  with assms(5) al(2) lp have i: "ioctl_h2h env a (Some (p, b)) s1 = Inr (r, s3)" by (simp add: ioctl_h2h_def)
  from e [unfolded i] have "rv = - EFAULT" using \<open>r \<noteq> 0\<close> by (auto simp: host_exit_def split: sum.splits)
  moreover have "live s' = remove1 y (x # y # live s)"
    using exit_live [OF e [unfolded i] nz(1)] l3 by (simp add: y_def)
  ultimately show ?thesis by (auto simp: x_def)
qed

text \<open>Channels: the driver knows six, and every failed transfer keeps the one it got.\<close>

definition known_channels :: "string list" where
  "known_channels = [''dma0chan0'', ''dma0chan1'', ''dma0chan2'', ''dma0chan3'', ''dma0chan4'', ''dma0chan5'']"

lemma chan_filter_known: "chan_filter c \<longleftrightarrow> c \<in> set known_channels"
  by (auto simp: chan_filter_def known_channels_def)

definition all_held :: "host_env \<Rightarrow> string list \<Rightarrow> bool" where
  "all_held env h \<longleftrightarrow> (\<forall>t. channel env t chan_filter h = None)"

lemma all_heldI:
  assumes "channels_ok env" "distinct h" "set h \<subseteq> set known_channels" "length h = 6"
  shows "all_held env h"
proof -
  have "card (set h) = card (set known_channels)"
    using assms(2,4) by (simp add: distinct_card) (simp add: known_channels_def)
  then have "set h = set known_channels" using assms(3) by (intro card_subset_eq) simp_all
  with assms(1) chan_filter_known show ?thesis
    unfolding all_held_def channels_ok_def by (metis not_None_eq)
qed

text \<open>Transfers that all fail, whoever asks for them.\<close>

fun failures :: "host_env \<Rightarrow> (u64 \<times> u64 \<times> u64) list \<Rightarrow> host_state \<Rightarrow> host_state option" where
  "failures env [] s = Some s"
| "failures env ((dst, src, len) # xs) s =
     (case dma_memcpy env dst src len s of
        Inr (rv, s1) \<Rightarrow> if rv = - EDMA_TX then failures env xs s1 else None
      | Inl f \<Rightarrow> None)"

lemma memcpy_failed:
  assumes "dma_memcpy env dst src len s = Inr (- EDMA_TX, s1)"
  shows "\<exists>c. channel env (now s) chan_filter (held s) = Some c \<and> held s1 = c # held s"
  using assms by (auto simp: dma_memcpy_def run_tx_def step_def Let_def split: option.splits if_splits)

lemma failures_held:
  assumes "failures env xs s = Some s'" "channels_ok env" "distinct (held s)" "set (held s) \<subseteq> set known_channels"
  shows "distinct (held s') \<and> set (held s') \<subseteq> set known_channels \<and> length (held s') = length (held s) + length xs"
  using assms
proof (induction xs arbitrary: s)
  case (Cons x xs)
  obtain dst src len where x: "x = (dst, src, len)" by (metis prod_cases3)
  from Cons.prems(1) obtain s1 where s1: "dma_memcpy env dst src len s = Inr (- EDMA_TX, s1)" "failures env xs s1 = Some s'"
    by (auto simp: x split: sum.splits if_splits)
  obtain c where c: "channel env (now s) chan_filter (held s) = Some c" "held s1 = c # held s"
    using memcpy_failed [OF s1(1)] by blast
  have "chan_filter c" "c \<notin> set (held s)" using Cons.prems(2) c(1) unfolding channels_ok_def by blast+
  with Cons.IH [OF s1(2) Cons.prems(2)] c(2) Cons.prems(3,4) chan_filter_known show ?case by simp
qed simp

lemma no_channel: "all_held env (held s) \<Longrightarrow> dma_memcpy env dst src len s = Inr (- EDMA_PROBE, step s)"
  by (simp add: dma_memcpy_def all_held_def)

lemma no_loop:
  assumes "all_held env (held s)"
  shows "h2h_loop (Suc n) i env src dst len buf dbuf s \<noteq> Inr (SUCCESS, s')"
    "h2f_loop (Suc n) i env src dst len buf s \<noteq> Inr (SUCCESS, s')"
    "f2h_loop (Suc n) i env src dst len buf s \<noteq> Inr (SUCCESS, s')"
    "f2f_loop (Suc n) i env src dst len s \<noteq> Inr (SUCCESS, s')"
  using assms by (auto simp: no_channel dest!: copy_same split: option.splits sum.splits prod.splits bool.splits)

lemma no_ioctl:
  assumes "all_held env (held s)"
  shows "ioctl_h2h env a buf s \<noteq> Inr (SUCCESS, s')" "ioctl_h2f env a buf s \<noteq> Inr (SUCCESS, s')"
    "ioctl_f2h env a buf s \<noteq> Inr (SUCCESS, s')" "ioctl_f2f env a s \<noteq> Inr (SUCCESS, s')"
proof -
  obtain n where n: "xfer_length a \<noteq> 0 \<Longrightarrow> unat (num_chunk_of (xfer_length a)) = Suc n"
    using chunks_pos by blast
  note simps = ioctl_h2f_def ioctl_f2h_def ioctl_f2f_def bad_args_def
  show "ioctl_h2f env a buf s \<noteq> Inr (SUCCESS, s')" "ioctl_f2h env a buf s \<noteq> Inr (SUCCESS, s')"
    "ioctl_f2f env a s \<noteq> Inr (SUCCESS, s')"
    using no_loop [OF assms, of n] by (auto simp: simps n simp del: h2f_loop.simps f2h_loop.simps f2f_loop.simps)
  obtain dbuf s1 where al: "dma_alloc env UC (ucast (copy_len_of (xfer_length a))) s = (dbuf, s1)"
    by (cases "dma_alloc env UC (ucast (copy_len_of (xfer_length a))) s")
  have "all_held env (held s1)" using alloc_cases [OF al] assms by (auto simp: step_def)
  from no_loop(1) [OF this, of n] al show "ioctl_h2h env a buf s \<noteq> Inr (SUCCESS, s')"
    by (auto simp: ioctl_h2h_def bad_args_def n simp del: h2h_loop.simps split: sum.splits if_splits)
qed

text \<open>
  A failed transfer keeps its channel for good. After six of them no transfer of the
  driver succeeds any more: none gets a channel.
\<close>

theorem failed_transfers_exhaust_channels:
  assumes "channels_ok env" "held s = []" "failures env xs s = Some s'" "length xs = 6"
    and "cmd \<in> {HOST2HOST, HOST2FPGA, FPGA2HOST, FPGA2FPGA, H2H_ZCPY}"
  shows "dma_memcpy env dst src len s' = Inr (- EDMA_PROBE, step s')
    \<and> host_dma_ioctl env cmd a s' \<noteq> Inr (SUCCESS, s'')"
proof -
  have h: "all_held env (held s')"
    using failures_held [OF assms(3,1)] assms(1,2,4) by (intro all_heldI) simp_all
  obtain buf s1 where al: "dma_alloc env UC (ucast (copy_len_of (xfer_length a))) (step s') = (buf, s1)"
    by (cases "dma_alloc env UC (ucast (copy_len_of (xfer_length a))) (step s')")
  have h1: "all_held env (held s1)" using alloc_cases [OF al] h by (auto simp: step_def)
  have "host_exit len buf x \<noteq> Inr (SUCCESS, s'')" if "\<And>t. x \<noteq> Inr (SUCCESS, t)" for len x
    using that by (auto elim: exit_success)
  with no_ioctl [OF h1] no_channel [OF h1] assms(5) al
  have "host_dma_ioctl env cmd a s' \<noteq> Inr (SUCCESS, s'')"
    by (auto simp: host_dma_ioctl_def Let_def)
  with no_channel [OF h] show ?thesis by simp
qed

section \<open>Mapping\<close>

definition buffer0 :: "host_state \<Rightarrow> buffer" where
  "buffer0 s = \<lparr>kind = mempolicy (host_dma_t s), buf_len = alloc_len0 (host_dma_t s),
     buf_ptr = alloc_ptr0 (host_dma_t s), buf_bus = dma_handle0 (host_dma_t s)\<rparr>"

definition buffer1 :: "host_state \<Rightarrow> buffer" where
  "buffer1 s = \<lparr>kind = mempolicy (host_dma_t s), buf_len = alloc_len1 (host_dma_t s),
     buf_ptr = alloc_ptr1 (host_dma_t s), buf_bus = dma_handle1 (host_dma_t s)\<rparr>"

text \<open>The device from its probe on, as long as the kernel maps the buffers it allocates.\<close>

inductive host_reach :: "host_env \<Rightarrow> host_state \<Rightarrow> bool" for env where
  host_probed: "mempolicy (host_dma_t s) = WC \<or> mempolicy (host_dma_t s) = UC \<Longrightarrow> alloc_cnt (host_dma_t s) = 0 \<Longrightarrow>
    alloc_ptr0 (host_dma_t s) = 0 \<Longrightarrow> alloc_ptr1 (host_dma_t s) = 0 \<Longrightarrow> live s = [] \<Longrightarrow> host_reach env s"
| host_mapped: "host_reach env s \<Longrightarrow> host_dma_mmap env len s = (rv, s1) \<Longrightarrow> host_reach env s1"
| host_released: "host_reach env s \<Longrightarrow> host_dma_release s = Inr (rv, s1) \<Longrightarrow> host_reach env s1"

definition maps_ok :: "host_state \<Rightarrow> bool" where
  "maps_ok s \<longleftrightarrow> (mempolicy (host_dma_t s) = WC \<or> mempolicy (host_dma_t s) = UC) \<and>
     (case alloc_cnt (host_dma_t s) of n \<Rightarrow>
       (n = 0 \<and> alloc_ptr0 (host_dma_t s) = 0 \<and> alloc_ptr1 (host_dma_t s) = 0 \<and> live s = []) \<or>
       (n = 1 \<and> alloc_ptr0 (host_dma_t s) \<noteq> 0 \<and> alloc_ptr1 (host_dma_t s) = 0 \<and> live s = [buffer0 s]) \<or>
       (n = 2 \<and> alloc_ptr0 (host_dma_t s) \<noteq> 0 \<and> alloc_ptr1 (host_dma_t s) \<noteq> 0 \<and> live s = [buffer1 s, buffer0 s]))"

lemma map_buffer_spec:
  assumes "map_buffer env len put s = (rv, s')" "buffers_ok env" "\<forall>t. mmap_result env t \<ge> 0"
    and "mempolicy (host_dma_t s) = WC \<or> mempolicy (host_dma_t s) = UC"
  obtains "host_dma_t s' = put 0 0 (host_dma_t s)" "live s' = live s"
  | x b where "x \<noteq> 0" "host_dma_t s' = (put x b (host_dma_t s))\<lparr>alloc_cnt := alloc_cnt (put x b (host_dma_t s)) + 1\<rparr>"
      "live s' = \<lparr>kind = mempolicy (host_dma_t s), buf_len = len, buf_ptr = x, buf_bus = b\<rparr> # live s"
proof (cases "new_buffer env (now s) len")
  case None
  with assms(1,4) that(1) show ?thesis by (auto simp: map_buffer_def dma_alloc_def step_def)
next
  case (Some xb)
  obtain x b where xb: "xb = (x, b)" by fastforce
  with Some assms(2) have "x \<noteq> 0" unfolding buffers_ok_def by blast
  moreover have "\<not> mmap_result env t < 0" for t using assms(3) by (simp add: not_less)
  ultimately show ?thesis using Some assms(1,4) that(2) [of x b]
    by (auto simp: xb map_buffer_def dma_alloc_def step_def set_attrs_def Let_def)
qed

lemma mmap_ok:
  assumes "host_dma_mmap env len s = (rv, s')" "maps_ok s" "buffers_ok env" "\<forall>t. mmap_result env t \<ge> 0"
  shows "maps_ok s'"
proof -
  have pol: "mempolicy (host_dma_t s) = WC \<or> mempolicy (host_dma_t s) = UC" using assms(2) by (simp add: maps_ok_def)
  consider "alloc_cnt (host_dma_t s) = 0" | "alloc_cnt (host_dma_t s) = 1" | "alloc_cnt (host_dma_t s) = 2"
    using assms(2) by (auto simp: maps_ok_def)
  then show ?thesis
  proof cases
    case 1
    let ?s = "s\<lparr>host_dma_t := (host_dma_t s)\<lparr>alloc_len0 := len\<rparr>\<rparr>"
    show ?thesis
    proof (cases "sint len \<ge> 0x400000")
      case True
      with 1 assms(1,2) show ?thesis by (auto simp: host_dma_mmap_def maps_ok_def)
    next
      case False
      with 1 assms(1) have "map_buffer env len (\<lambda>p b d. d\<lparr>alloc_ptr0 := p, dma_handle0 := if p = 0 then dma_handle0 d else b\<rparr>) ?s
          = (rv, s')" by (simp add: host_dma_mmap_def)
      from this assms(3,4) show ?thesis
        by (rule map_buffer_spec) (use pol 1 assms(2) in \<open>auto simp: maps_ok_def buffer0_def\<close>)
    qed
  next
    case 2
    let ?s = "s\<lparr>host_dma_t := (host_dma_t s)\<lparr>alloc_len1 := len\<rparr>\<rparr>"
    from 2 assms(1) have "map_buffer env len (\<lambda>p b d. d\<lparr>alloc_ptr1 := p, dma_handle1 := if p = 0 then dma_handle1 d else b\<rparr>) ?s
        = (rv, s')" by (simp add: host_dma_mmap_def)
    from this assms(3,4) show ?thesis
      by (rule map_buffer_spec) (use pol 2 assms(2) in \<open>auto simp: maps_ok_def buffer0_def buffer1_def\<close>)
  next
    case 3
    with assms(1,2) show ?thesis by (auto simp: host_dma_mmap_def)
  qed
qed

lemma release_ok:
  assumes "maps_ok s"
  shows "\<exists>s'. host_dma_release s = Inr (SUCCESS, s') \<and> live s' = [] \<and> maps_ok s'"
  using assms
  by (auto simp: maps_ok_def host_dma_release_def release_buffer_def dma_free_def set_attrs_def buffer0_def buffer1_def Let_def
      split: if_splits)

lemma reach_maps_ok:
  assumes "host_reach env s" "buffers_ok env" "\<forall>t. mmap_result env t \<ge> 0"
  shows "maps_ok s"
  using assms(1)
proof (induction rule: host_reach.induct)
  case (host_probed s)
  then show ?case by (simp add: maps_ok_def)
next
  case (host_mapped s len rv s1)
  then show ?case using mmap_ok assms(2,3) by blast
next
  case (host_released s rv s1)
  then show ?case using release_ok [of s] by auto
qed

text \<open>
  As long as the kernel maps what it allocates, closing the device gives every mapped
  buffer back, whatever was mapped and closed before.
\<close>

theorem release_frees_mappings:
  assumes "host_reach env s" "buffers_ok env" "\<forall>t. mmap_result env t \<ge> 0"
  shows "\<exists>s'. host_dma_release s = Inr (SUCCESS, s') \<and> live s' = []"
  using release_ok [OF reach_maps_ok [OF assms]] by blast

text \<open>
  Removing the driver while two write-combined buffers are mapped frees the first one
  twice, and the second one never.
\<close>

theorem remove_frees_twice:
  assumes "host_reach env s" "buffers_ok env" "\<forall>t. mmap_result env t \<ge> 0"
    and "alloc_cnt (host_dma_t s) = 2" "mempolicy (host_dma_t s) = WC"
    and "alloc_ptr0 (host_dma_t s) \<noteq> alloc_ptr1 (host_dma_t s)"
  shows "remove_buffers s = Inl Bad_Free"
  using reach_maps_ok [OF assms(1-3)] assms(4-6)
  by (auto simp: maps_ok_def remove_buffers_def dma_free_def set_attrs_def buffer0_def buffer1_def Let_def)

section \<open>A kernel that grants everything\<close>

definition cooperative :: "host_env \<Rightarrow> bool" where
  "cooperative env \<longleftrightarrow> (\<forall>t. \<not> user_fails env t \<and> prepared env t \<and> completed env t \<and> tx_ok env t
      \<and> channel env t chan_filter [] \<noteq> None)
    \<and> (\<forall>t n. unat n \<le> 0x100000 \<longrightarrow> (\<exists>p b. p \<noteq> 0 \<and> new_buffer env t n = Some (p, b)))"

lemma coop_memcpy:
  assumes "cooperative env" "held s = []"
  shows "\<exists>s'. dma_memcpy env dst src len s = Inr (0, s') \<and> held s' = [] \<and> same_dev s s'"
proof -
  obtain c where "channel env (now s) chan_filter [] = Some c" using assms(1) unfolding cooperative_def by blast
  with assms show ?thesis
    by (auto simp: dma_memcpy_def run_tx_def cooperative_def step_def Let_def same_dev_def)
qed

lemma coop_copy:
  assumes "cooperative env"
  shows "\<exists>s'. copy_from_user env (Some (p, b)) from n s = Inr (False, s') \<and> held s' = held s \<and> same_dev s s'"
    "\<exists>s'. copy_to_user env to (Some (p, b)) n s = Inr (False, s') \<and> held s' = held s \<and> same_dev s s'"
  using assms by (auto simp: copy_defs cooperative_def same_dev_def)

lemma coop_loops:
  assumes "cooperative env" "held s = []"
  shows "\<exists>s'. h2h_loop n i env src dst len (Some (p, b)) (Some (dp, db)) s = Inr (SUCCESS, s') \<and> same_dev s s'"
    "\<exists>s'. h2f_loop n i env src dst len (Some (p, b)) s = Inr (SUCCESS, s') \<and> same_dev s s'"
    "\<exists>s'. f2h_loop n i env src dst len (Some (p, b)) s = Inr (SUCCESS, s') \<and> same_dev s s'"
    "\<exists>s'. f2f_loop n i env src dst len s = Inr (SUCCESS, s') \<and> same_dev s s'"
  using assms(2)
proof (induction n arbitrary: i s)
  case (Suc n)
  note coop = assms(1)
  {
    case 1
    obtain s1 where s1: "copy_from_user env (Some (p, b)) (chunk_at src i) len s = Inr (False, s1)" "held s1 = []" "same_dev s s1"
      using coop_copy(1) [OF coop] 1 by metis
    obtain s2 where s2: "dma_memcpy env db b (ucast len) s1 = Inr (0, s2)" "held s2 = []" "same_dev s1 s2"
      using coop_memcpy [OF coop s1(2)] by blast
    obtain s3 where s3: "copy_to_user env (chunk_at dst i) (Some (dp, db)) len s2 = Inr (False, s3)" "held s3 = []" "same_dev s2 s3"
      using coop_copy(2) [OF coop] s2(2) by metis
    from Suc.IH(1) [OF s3(2), of "i + 1"] s1 s2 s3 show ?case by (auto simp: same_dev_def)
  next
    case 2
    obtain s1 where s1: "copy_from_user env (Some (p, b)) (chunk_at src i) len s = Inr (False, s1)" "held s1 = []" "same_dev s s1"
      using coop_copy(1) [OF coop] 2 by metis
    obtain s2 where s2: "dma_memcpy env (chunk_at dst i) b (ucast len) s1 = Inr (0, s2)" "held s2 = []" "same_dev s1 s2"
      using coop_memcpy [OF coop s1(2)] by blast
    from Suc.IH(2) [OF s2(2), of "i + 1"] s1 s2 show ?case by (auto simp: same_dev_def)
  next
    case 3
    obtain s1 where s1: "dma_memcpy env b (chunk_at src i) (ucast len) s = Inr (0, s1)" "held s1 = []" "same_dev s s1"
      using coop_memcpy [OF coop 3] by blast
    obtain s2 where s2: "copy_to_user env (chunk_at dst i) (Some (p, b)) len s1 = Inr (False, s2)" "held s2 = []" "same_dev s1 s2"
      using coop_copy(2) [OF coop] s1(2) by metis
    from Suc.IH(3) [OF s2(2), of "i + 1"] s1 s2 show ?case by (auto simp: same_dev_def)
  next
    case 4
    obtain s1 where s1: "dma_memcpy env (chunk_at dst i) (chunk_at src i) (ucast len) s = Inr (0, s1)" "held s1 = []" "same_dev s s1"
      using coop_memcpy [OF coop 4] by blast
    from Suc.IH(4) [OF s1(2), of "i + 1"] s1 show ?case by (auto simp: same_dev_def)
  }
qed auto

lemma coop_alloc:
  assumes "cooperative env" "unat n \<le> 0x100000"
  obtains p b where "p \<noteq> 0" "dma_alloc env k n s
    = (Some (p, b), step (s\<lparr>live := \<lparr>kind = k, buf_len = n, buf_ptr = p, buf_bus = b\<rparr> # live s\<rparr>))"
proof -
  from assms obtain p b where "p \<noteq> 0" "new_buffer env (now s) n = Some (p, b)" unfolding cooperative_def by blast
  with that [of p b] show ?thesis by (simp add: dma_alloc_def)
qed

lemma coop_exit:
  assumes "p \<noteq> 0" "\<lparr>kind = UC, buf_len = ucast len, buf_ptr = p, buf_bus = b\<rparr> \<in> set (live s)"
  shows "\<exists>s'. host_exit len (Some (p, b)) (Inr (SUCCESS, s)) = Inr (SUCCESS, s')"
  using assms by (simp add: host_exit_def dma_free_def)

lemma coop_h2h:
  assumes "cooperative env" "held s = []" "\<not> bad_args a"
  shows "\<exists>s'. ioctl_h2h env a (Some (p, b)) s = Inr (SUCCESS, s') \<and> set (live s) \<subseteq> set (live s')"
proof -
  let ?len = "copy_len_of (xfer_length a)"
  have "unat (ucast ?len :: u64) \<le> 0x100000"
    by (simp add: copy_len_of_def CPY_CHUNK_SIZE_def word_le_nat_alt not_less)
  from coop_alloc [OF assms(1) this, of UC s] obtain dp db s1 where nz: "dp \<noteq> 0"
    and al: "dma_alloc env UC (ucast ?len) s = (Some (dp, db), s1)" and l: "held s1 = held s"
      "live s1 = \<lparr>kind = UC, buf_len = ucast ?len, buf_ptr = dp, buf_bus = db\<rparr> # live s"
    by (metis (no_types, lifting) host_state.select_convs(3,4) host_state.surjective host_state.update_convs(1,3) step_def)
  obtain s2 where "h2h_loop (unat (num_chunk_of (xfer_length a))) 0 env (srcA_ptr a) (dstC_ptr a) ?len (Some (p, b)) (Some (dp, db)) s1
      = Inr (SUCCESS, s2)" "live s2 = live s1"
    using coop_loops(1) [OF assms(1), of s1] l(1) assms(2) unfolding same_dev_def by metis
  with al nz l assms(3) show ?thesis by (auto simp: ioctl_h2h_def dma_free_def Let_def)
qed

lemma copies_run:
  assumes "cooperative env" "held s = []" "\<not> bad_args a" "cmd \<in> {HOST2HOST, HOST2FPGA, FPGA2HOST, FPGA2FPGA}"
  shows "\<exists>s'. host_dma_ioctl env cmd a s = Inr (SUCCESS, s')"
proof -
  let ?len = "copy_len_of (xfer_length a)"
  have "unat (ucast ?len :: u64) \<le> 0x100000"
    by (simp add: copy_len_of_def CPY_CHUNK_SIZE_def word_le_nat_alt not_less)
  from coop_alloc [OF assms(1) this, of UC "step s"] obtain p b where nz: "p \<noteq> 0"
    and al: "dma_alloc env UC (ucast ?len) (step s) = (Some (p, b),
        step ((step s)\<lparr>live := \<lparr>kind = UC, buf_len = ucast ?len, buf_ptr = p, buf_bus = b\<rparr> # live (step s)\<rparr>))" by blast
  define s1 where "s1 = step ((step s)\<lparr>live := \<lparr>kind = UC, buf_len = ucast ?len, buf_ptr = p, buf_bus = b\<rparr> # live (step s)\<rparr>)"
  have s1: "held s1 = []" "\<lparr>kind = UC, buf_len = ucast ?len, buf_ptr = p, buf_bus = b\<rparr> \<in> set (live s1)"
    using assms(2) by (simp_all add: s1_def step_def)
  have u: "\<not> user_fails env (now s)" using assms(1) by (simp add: cooperative_def)
  have run: "\<exists>s2. x = Inr (SUCCESS, s2) \<and> set (live s1) \<subseteq> set (live s2) \<Longrightarrow>
      \<exists>s'. host_exit ?len (Some (p, b)) x = Inr (SUCCESS, s')" for x :: "int outcome"
    using coop_exit [OF nz] s1(2) by blast
  have "\<exists>s2. ioctl_h2f env a (Some (p, b)) s1 = Inr (SUCCESS, s2) \<and> set (live s1) \<subseteq> set (live s2)"
    "\<exists>s2. ioctl_f2h env a (Some (p, b)) s1 = Inr (SUCCESS, s2) \<and> set (live s1) \<subseteq> set (live s2)"
    "\<exists>s2. ioctl_f2f env a s1 = Inr (SUCCESS, s2) \<and> set (live s1) \<subseteq> set (live s2)"
    unfolding ioctl_h2f_def ioctl_f2h_def ioctl_f2f_def
    using coop_loops(2-4) [OF assms(1) s1(1)] assms(3) unfolding same_dev_def by (metis (no_types, lifting) order_refl)+
  with coop_h2h [OF assms(1) s1(1) assms(3)] run assms(4) al u show ?thesis
    unfolding s1_def [symmetric] by (auto simp: host_dma_ioctl_def Let_def s1_def [symmetric])
qed

text \<open>
  With a kernel that grants what the driver asks for, each of the four copies returns
  success on arguments it accepts; the only faults and errors are those the kernel's answers cause.
\<close>

theorem copies_succeed:
  assumes "cooperative env" "held s = []" "\<not> bad_args a" "cmd \<in> {HOST2HOST, HOST2FPGA, FPGA2HOST, FPGA2FPGA}"
  shows "\<exists>s'. host_dma_ioctl env cmd a s = Inr (SUCCESS, s')"
  using assms by (rule copies_run)

section \<open>Concrete runs\<close>

text \<open>A kernel with room for buffers at three places; \<open>ok\<close> says whether transfers complete well.\<close>

definition demo_kernel :: "bool \<Rightarrow> host_env" where
  "demo_kernel ok = \<lparr>
     new_buffer = (\<lambda>t n. if unat n > 0x100000 then None
       else if t = 0 then Some (0x1000, 0x7000000000000000)
       else if t = 1 then Some (0x2000, 0x7000000100000000) else Some (0x3000, 0x7000000200000000)),
     user_fails = (\<lambda>_. False), channel = (\<lambda>t f h. List.find (\<lambda>c. f c \<and> c \<notin> set h) known_channels),
     prepared = (\<lambda>_. True), completed = (\<lambda>_. True), tx_ok = (\<lambda>_. ok), mmap_result = (\<lambda>_. 0),
     translate = (\<lambda>a. a), spoil = (\<lambda>_ m. m), got_unmap = (\<lambda>_. True), copy_aligned = (\<lambda>_ _ _. True),
     map_page = (\<lambda>_ a off. a + ucast off)\<rparr>"

definition demo_host :: host_state where
  "demo_host = \<lparr>now = 0,
     host_dma_t = \<lparr>alloc_ptr0 = 0, alloc_ptr1 = 0, alloc_len0 = 0, alloc_len1 = 0, dma_handle0 = 0,
       dma_handle1 = 0, alloc_cnt = 0, mempolicy = WC\<rparr>,
     live = [], held = [], unmaps = 0, bus = (\<lambda>_. 0), user = (\<lambda>a. ucast a), attrs = []\<rparr>"

definition demo_copy :: "u64 \<Rightarrow> u64 \<Rightarrow> u32 \<Rightarrow> host_args" where
  "demo_copy src dst l = \<lparr>desc_host = 0, desc_idx = 0, desc_last = 0, desc_base = 0, args_dram_base = 0, va = 0, pa = 0,
     srcA_va = 0, srcA_ptr = src, srcA_size = 0, dstC_va = 0, dstC_ptr = dst, pmm_base_addr = 0, xfer_length = l\<rparr>"

lemma demo_copy_simps [simp]: "srcA_ptr (demo_copy src dst l) = src" "dstC_ptr (demo_copy src dst l) = dst"
  "xfer_length (demo_copy src dst l) = l"
  by (simp_all add: demo_copy_def)

lemma demo_kernel_ok: "buffers_ok (demo_kernel ok)" "channels_ok (demo_kernel ok)" "cooperative (demo_kernel True)"
  "mmap_result (demo_kernel ok) t = 0"
  by (auto simp: buffers_ok_def channels_ok_def cooperative_def demo_kernel_def find_Some_iff chan_filter_def known_channels_def
      split: if_splits)

lemma demo_held [simp]: "held demo_host = []" "user demo_host a = ucast a" "live demo_host = []" "now demo_host = 0"
  by (simp_all add: demo_host_def)

lemma demo_moved: "moved 3 = 3" "moved 0x100001 = 0x200000"
  using chunk_facts(4) [of 3] chunk_facts(4) [of "0x100001"] by simp_all

lemma demo_apart: "n \<le> 0x1000000 \<Longrightarrow> apart 0x10000000 n 0x20000000 n"
  by (simp add: apart_def)

lemma demo_success:
  assumes "l \<noteq> 0" "cmd \<in> {HOST2HOST, HOST2FPGA, FPGA2HOST, FPGA2FPGA}" "held s = []" "src \<noteq> 0" "dst \<noteq> 0"
  obtains s' where "host_dma_ioctl (demo_kernel True) cmd (demo_copy src dst l) s = Inr (SUCCESS, s')"
proof -
  from assms have "\<not> bad_args (demo_copy src dst l)" by (simp add: bad_args_def)
  with copies_run [OF demo_kernel_ok(3) assms(3) this assms(2)] that show ?thesis by blast
qed

theorem copies_succeed_witness:
  "\<exists>s'. host_dma_ioctl (demo_kernel True) FPGA2FPGA (demo_copy 1 2 5) demo_host = Inr (SUCCESS, s')"
  using copies_succeed [OF demo_kernel_ok(3) demo_held(1), of "demo_copy 1 2 5" FPGA2FPGA] by (simp add: bad_args_def)

theorem host2host_copies_witness:
  "\<exists>s'. host_dma_ioctl (demo_kernel True) HOST2HOST (demo_copy 0x10000000 0x20000000 3) demo_host = Inr (SUCCESS, s')
    \<and> user s' 0x20000002 = 2 \<and> live s' = []"
proof -
  obtain s' where s': "host_dma_ioctl (demo_kernel True) HOST2HOST (demo_copy 0x10000000 0x20000000 3) demo_host = Inr (SUCCESS, s')"
    by (rule demo_success [of 3 HOST2HOST demo_host "0x10000000" "0x20000000"]) simp_all
  from host2host_copies [OF s' demo_kernel_ok(1)] have
    "\<forall>k < 3. user s' (0x20000000 + of_nat k) = user demo_host (0x10000000 + of_nat k)" "live s' = []"
    by (simp_all add: demo_moved demo_apart)
  with s' show ?thesis by (auto dest: spec [of _ 2])
qed

theorem host2host_overruns_witness:
  "\<exists>s'. host_dma_ioctl (demo_kernel True) HOST2HOST (demo_copy 0x10000000 0x20000000 0x100001) demo_host = Inr (SUCCESS, s')
    \<and> user s' 0x20100009 = 9"
proof -
  obtain s' where s': "host_dma_ioctl (demo_kernel True) HOST2HOST (demo_copy 0x10000000 0x20000000 0x100001) demo_host = Inr (SUCCESS, s')"
    by (rule demo_success [of "0x100001" HOST2HOST demo_host "0x10000000" "0x20000000"]) simp_all
  from host2host_overruns [OF s' demo_kernel_ok(1)] have
    "\<forall>k < 0xFFFFF. user s' (0x20100001 + of_nat k) = user demo_host (0x10100001 + of_nat k)"
    by (simp add: demo_moved demo_apart CPY_CHUNK_SIZE_def)
  with s' show ?thesis by (auto dest: spec [of _ 8])
qed

theorem device_roundtrip_witness:
  "\<exists>s1 s2. host_dma_ioctl (demo_kernel True) HOST2FPGA (demo_copy 0x10000000 0x20000000 3) demo_host = Inr (SUCCESS, s1)
    \<and> host_dma_ioctl (demo_kernel True) FPGA2HOST (demo_copy 0x20000000 0x5000 3) s1 = Inr (SUCCESS, s2)
    \<and> user s2 0x5002 = 2"
proof -
  obtain s1 where s1: "host_dma_ioctl (demo_kernel True) HOST2FPGA (demo_copy 0x10000000 0x20000000 3) demo_host = Inr (SUCCESS, s1)"
    by (rule demo_success [of 3 HOST2FPGA demo_host "0x10000000" "0x20000000"]) simp_all
  have apart: "\<forall>t n p b. new_buffer (demo_kernel True) t n = Some (p, b) \<longrightarrow> apart b (unat n) 0x20000000 3"
    by (auto simp: demo_kernel_def apart_def split: if_splits)
  then have "held s1 = []" using write_done [OF s1 refl] by (simp add: demo_moved demo_kernel_def)
  then obtain s2 where s2: "host_dma_ioctl (demo_kernel True) FPGA2HOST (demo_copy 0x20000000 0x5000 3) s1 = Inr (SUCCESS, s2)"
    by (rule demo_success [of 3 FPGA2HOST s1 "0x20000000" "0x5000", rotated 2]) simp_all
  from device_roundtrip [OF s1 s2] apart have "\<forall>k < 3. user s2 (0x5000 + of_nat k) = user demo_host (0x10000000 + of_nat k)"
    by (simp add: demo_moved demo_kernel_def)
  with s1 s2 show ?thesis by (auto dest: spec [of _ 2])
qed

lemma demo_args_ok: "\<not> bad_args (demo_copy 1 2 3)" "copy_len_of 3 = 3"
  by (simp_all add: bad_args_def copy_len_of_def CPY_CHUNK_SIZE_def)

theorem host2host_error_leaks_witness:
  "\<exists>s'. host_dma_ioctl (demo_kernel False) HOST2HOST (demo_copy 1 2 3) demo_host = Inr (- EFAULT, s')
    \<and> live s' = [\<lparr>kind = UC, buf_len = 3, buf_ptr = 0x3000, buf_bus = 0x7000000200000000\<rparr>]"
proof -
  have "\<exists>rv s'. host_dma_ioctl (demo_kernel False) HOST2HOST (demo_copy 1 2 3) demo_host = Inr (rv, s') \<and> rv \<noteq> 0"
    by (simp add: host_dma_ioctl_def demo_host_def demo_kernel_def dma_alloc_def step_def demo_args_ok Let_def ioctl_h2h_def
        num_chunk_of_def CPY_CHUNK_SIZE_def copy_from_user_def dma_memcpy_def run_tx_def host_exit_def dma_free_def
        known_channels_def chan_filter_def)
  then obtain rv s' where r: "host_dma_ioctl (demo_kernel False) HOST2HOST (demo_copy 1 2 3) demo_host = Inr (rv, s')" "rv \<noteq> 0"
    by blast
  from host2host_error_leaks [OF r demo_kernel_ok(1)] r show ?thesis
    by (simp add: demo_args_ok demo_kernel_def)
qed

definition demo_failing :: "(u64 \<times> u64 \<times> u64) list" where
  "demo_failing = [(1, 2, 3), (1, 2, 3), (1, 2, 3), (1, 2, 3), (1, 2, 3), (1, 2, 3)]"

lemma demo_memcpy: "dma_memcpy (demo_kernel False) dst src len s =
    (case List.find (\<lambda>c. chan_filter c \<and> c \<notin> set (held s)) known_channels of
       None \<Rightarrow> Inr (- EDMA_PROBE, step s) | Some c \<Rightarrow> Inr (- EDMA_TX, step (step s\<lparr>held := c # held s\<rparr>)))"
  by (simp add: dma_memcpy_def run_tx_def demo_kernel_def step_def Let_def split: option.splits)

lemma held_step [simp]: "held (step s) = held s"
  by (simp add: step_def)

theorem failed_transfers_exhaust_channels_witness:
  "\<exists>s'. failures (demo_kernel False) (demo_failing) demo_host = Some s'
    \<and> dma_memcpy (demo_kernel False) 1 2 3 s' = Inr (- EDMA_PROBE, step s')"
proof -
  have "\<exists>s'. failures (demo_kernel False) (demo_failing) demo_host = Some s'"
    by (simp add: demo_failing_def demo_memcpy known_channels_def chan_filter_def)
  then obtain s' where s': "failures (demo_kernel False) (demo_failing) demo_host = Some s'" by blast
  from failed_transfers_exhaust_channels [OF demo_kernel_ok(2) demo_held(1) s', of HOST2HOST 1 2 3] s'
  show ?thesis by (simp add: demo_failing_def)
qed

definition demo_mapped :: host_state where
  "demo_mapped = snd (host_dma_mmap (demo_kernel True) 0x2000 (snd (host_dma_mmap (demo_kernel True) 0x1000 demo_host)))"

lemma demo_mapped_reach: "host_reach (demo_kernel True) demo_mapped"
proof -
  have "host_reach (demo_kernel True) demo_host" by (rule host_probed) (simp_all add: demo_host_def)
  then show ?thesis unfolding demo_mapped_def by (intro host_mapped [OF _ prod.collapse [symmetric]])
qed

theorem release_frees_mappings_witness: "\<exists>s'. host_dma_release demo_mapped = Inr (SUCCESS, s') \<and> live s' = []"
  using release_frees_mappings [OF demo_mapped_reach demo_kernel_ok(1)] demo_kernel_ok(4) by simp

theorem remove_frees_twice_witness: "remove_buffers demo_mapped = Inl Bad_Free"
proof (rule remove_frees_twice [OF demo_mapped_reach demo_kernel_ok(1)])
  show "alloc_cnt (host_dma_t demo_mapped) = 2" "mempolicy (host_dma_t demo_mapped) = WC"
    "alloc_ptr0 (host_dma_t demo_mapped) \<noteq> alloc_ptr1 (host_dma_t demo_mapped)"
    by (simp_all add: demo_mapped_def host_dma_mmap_def map_buffer_def dma_alloc_def demo_kernel_def demo_host_def
        set_attrs_def step_def Let_def)
qed (simp add: demo_kernel_ok(4))

end
