(* ===== verification/Pim_Isa.thy ===== *)
theory Pim_Isa
  imports Pl_Dma "HOL-Library.Monad_Syntax"
begin

text \<open>
  The descriptor builder of the math library (\<^verbatim>\<open>src/pim_math_src/pim_math.h\<close>) and the library's
  side of the driver (\<^verbatim>\<open>src/pim_math_src/mdrv_interface.c\<close>). A kernel fills the host copy of the
  descriptor list, \<^verbatim>\<open>pim_isa\<close>, entry after entry, and hands it to the driver of theory \<open>Pl_Dma\<close>.
  The macros take the values of \<^verbatim>\<open>pim_math.h\<close>; \<^verbatim>\<open>TYPE_SIZE\<close> and what contains it is a
  \<^verbatim>\<open>size_t\<close>, so that quotients by it are taken on 64 bits.
\<close>

section \<open>Constants\<close>

definition OPCODE_MAT_MUL :: u32 where "OPCODE_MAT_MUL = 0x851F"
definition OPCODE_MAT_MUL_DECOUPLED_8x4 :: u32 where "OPCODE_MAT_MUL_DECOUPLED_8x4 = 0x1051F"
definition OPCODE_ELE_ADD :: u32 where "OPCODE_ELE_ADD = 0x42F"
definition OPCODE_ELE_SUB :: u32 where "OPCODE_ELE_SUB = 0x44F"
definition OPCODE_ELE_MUL :: u32 where "OPCODE_ELE_MUL = 0x48F"

definition RD_A_ATTR :: u32 where "RD_A_ATTR = 0x2"
definition WR_A_ATTR :: u32 where "WR_A_ATTR = 0x3"
definition RD_B_ATTR :: u32 where "RD_B_ATTR = 0x4"
definition RD_C_ATTR :: u32 where "RD_C_ATTR = 0x8"
definition WR_C_ATTR :: u32 where "WR_C_ATTR = 0x9"
definition BATCH8 :: u32 where "BATCH8 = 0x60000"

definition BURST_SIZE :: u32 where "BURST_SIZE = 32"
definition TYPE_SIZE :: u32 where "TYPE_SIZE = 2"
definition REG_SIZE :: u32 where "REG_SIZE = 256"
definition NUM_BANKS :: u32 where "NUM_BANKS = 16"
definition PIM_WIDTH :: u32 where "PIM_WIDTH = 512"
definition BRAM_DUMMY :: u32 where "BRAM_DUMMY = 0"
definition CODE_WR_ADDR :: u32 where "CODE_WR_ADDR = 0x7000"
definition OP_ATTR_ADDR :: u32 where "OP_ATTR_ADDR = 0x6F00"
definition VECA_OFFSET :: u64 where "VECA_OFFSET = 0"
definition VACC_OFFSET :: u64 where "VACC_OFFSET = 0x10000"
definition HUGE_PAGE :: u32 where "HUGE_PAGE = 0x200000"
definition ISA_ENTRIES :: nat where "ISA_ENTRIES = 1024 * 1024"

lemmas isa_consts = BURST_SIZE_def TYPE_SIZE_def REG_SIZE_def NUM_BANKS_def PIM_WIDTH_def BRAM_DUMMY_def

section \<open>Descriptors\<close>

record pim_isa_t =
  next_l :: u32
  next_h :: u32
  src_l :: u32
  src_h :: u32
  dst_l :: u32
  dst_h :: u32
  len :: u32
  status :: u32

text \<open>
  The list under construction: the array of \<open>ISA_ENTRIES\<close> entries (one never written is \<open>None\<close>), the two
  cursors \<^verbatim>\<open>desc_idx\<close> and \<^verbatim>\<open>next_desc\<close>, and whether a write went past the array, which the code does not
  check: such a write does not reach the array, and a kernel that has made one has no result.
\<close>

record isa_state =
  isa :: "u32 \<Rightarrow> pim_isa_t option"
  idx :: u32
  nxt :: u32
  past_end :: bool

definition put_desc :: "u32 \<Rightarrow> u32 \<Rightarrow> u32 \<Rightarrow> u32 \<Rightarrow> 'a isa_state_scheme \<Rightarrow> 'a isa_state_scheme" where
  "put_desc src dst n op s =
     s\<lparr>isa := (if unat (idx s) < ISA_ENTRIES
                 then (isa s)(idx s \<mapsto> \<lparr>next_l = nxt s, next_h = HIGH_ADDR, src_l = src, src_h = HIGH_ADDR,
                                        dst_l = dst, dst_h = HIGH_ADDR, len = n, status = 0 OR op\<rparr>)
                 else isa s),
       past_end := past_end s \<or> ISA_ENTRIES \<le> unat (idx s),
       idx := idx s + 1, nxt := nxt s + 0x40\<rparr>"

definition PIM_RD_INSTR :: "u32 \<Rightarrow> u32 \<Rightarrow> u32 \<Rightarrow> u32 \<Rightarrow> 'a isa_state_scheme \<Rightarrow> 'a isa_state_scheme" where
  "PIM_RD_INSTR src dst n op s = put_desc src dst n op s"

definition PIM_WR_INSTR :: "u32 \<Rightarrow> u32 \<Rightarrow> u32 \<Rightarrow> u32 \<Rightarrow> 'a isa_state_scheme \<Rightarrow> 'a isa_state_scheme" where
  "PIM_WR_INSTR src dst n op s = put_desc src dst n op s"

definition RdPimCode :: "u32 \<Rightarrow> u32 \<Rightarrow> u32 \<Rightarrow> u32 \<Rightarrow> 'a isa_state_scheme \<Rightarrow> 'a isa_state_scheme" where
  "RdPimCode src dst n op s = put_desc src dst n op s"

definition RdPimReg :: "u32 \<Rightarrow> u32 \<Rightarrow> u32 \<Rightarrow> u32 \<Rightarrow> 'a isa_state_scheme \<Rightarrow> 'a isa_state_scheme" where
  "RdPimReg src dst n op s = put_desc src dst n op s"

definition WrPimReg :: "u32 \<Rightarrow> u32 \<Rightarrow> u32 \<Rightarrow> u32 \<Rightarrow> 'a isa_state_scheme \<Rightarrow> 'a isa_state_scheme" where
  "WrPimReg src dst n op s = put_desc src dst n op s"

lemmas put_defs = PIM_RD_INSTR_def PIM_WR_INSTR_def RdPimCode_def RdPimReg_def WrPimReg_def

text \<open>
  The code list: instructions for the channels, not linked, in a buffer of their own that has room for
  \<open>code_cap\<close> of them; whether one was written past it, which the code does not check either.
\<close>

record code_state =
  code :: "u32 \<Rightarrow> pim_isa_t option"
  code_idx :: u32
  code_cap :: nat
  code_over :: bool

definition put_code :: "u32 \<Rightarrow> u32 \<Rightarrow> u32 \<Rightarrow> u32 \<Rightarrow> 'a code_state_scheme \<Rightarrow> 'a code_state_scheme" where
  "put_code src dst n op c =
     c\<lparr>code := (if unat (code_idx c) < code_cap c
                 then (code c)(code_idx c \<mapsto> \<lparr>next_l = 0, next_h = 0, src_l = src, src_h = HIGH_ADDR,
                                            dst_l = dst, dst_h = HIGH_ADDR, len = n, status = 0 OR op\<rparr>)
                 else code c),
       code_over := code_over c \<or> code_cap c \<le> unat (code_idx c),
       code_idx := code_idx c + 1\<rparr>"

definition ConfigPimRdInstr :: "u32 \<Rightarrow> u32 \<Rightarrow> u32 \<Rightarrow> u32 \<Rightarrow> 'a code_state_scheme \<Rightarrow> 'a code_state_scheme" where
  "ConfigPimRdInstr src dst n op c = put_code src dst n op c"

definition ConfigPimWrInstr :: "u32 \<Rightarrow> u32 \<Rightarrow> u32 \<Rightarrow> u32 \<Rightarrow> 'a code_state_scheme \<Rightarrow> 'a code_state_scheme" where
  "ConfigPimWrInstr src dst n op c = put_code src dst n op c"

section \<open>Operand attributes\<close>

record cl_data_t =
  srcA_addr_size :: u64
  attrA :: u16
  srcB_addr_size :: u64
  attrB :: u16
  dstC_addr_size :: u64
  attrC :: u16

text \<open>\<open>(size, total, mode)\<close> of the operands A, B and C, chosen by the opcode.\<close>

type_synonym cl_conf = "u64 \<times> u32 \<times> u32"

definition cl_conf_of :: "u32 \<Rightarrow> u32 \<Rightarrow> u32 \<Rightarrow> u32 \<Rightarrow> u32 \<Rightarrow> u32 \<Rightarrow> cl_conf \<times> cl_conf \<times> cl_conf" where
  "cl_conf_of batch_col batch_size p_size q_loop_var r_loop_var op =
     (if op = OPCODE_MAT_MUL then
        ((1, NUM_BANKS * batch_size, 0x3),
         (ucast (batch_col * 256 * 256) * 2 div 32, q_loop_var * r_loop_var, 0x2),
         (0, 0, 0x0))
      else if op \<in> {OPCODE_ELE_ADD, OPCODE_ELE_SUB, OPCODE_ELE_MUL} then
        ((ucast NUM_BANKS, p_size * r_loop_var, 0x2),
         (ucast (batch_size div (32 * 16)), batch_col, 0x2),
         (ucast NUM_BANKS, p_size * r_loop_var, 0x2))
      else ((0, 0, 0), (0, 0, 0), (0, 0, 0)))"

definition cl_addr_size :: "u32 \<Rightarrow> cl_conf \<Rightarrow> u64" where
  "cl_addr_size a conf = (case conf of (sz, _, _) \<Rightarrow> ucast a OR push_bit 33 sz)"

definition cl_attr :: "cl_conf \<Rightarrow> u16" where
  "cl_attr conf = (case conf of (_, tot, mode) \<Rightarrow> ucast ((push_bit 13 (ucast mode) :: u64) OR ucast tot))"

definition ConfigOpAttr :: "u32 \<Rightarrow> u32 \<Rightarrow> u32 \<Rightarrow> u32 \<Rightarrow> u32 \<Rightarrow> u32 \<Rightarrow> u32 \<Rightarrow> u32 \<Rightarrow> u32 \<Rightarrow> u32
    \<Rightarrow> 'a isa_state_scheme \<Rightarrow> cl_data_t \<times> 'a isa_state_scheme" where
  "ConfigOpAttr attr_pa srcA_pa srcB_pa dstC_pa batch_col batch_size p_size q_loop_var r_loop_var op s =
     (case cl_conf_of batch_col batch_size p_size q_loop_var r_loop_var op of (a, b, c) \<Rightarrow>
        (\<lparr>srcA_addr_size = cl_addr_size srcA_pa a, attrA = cl_attr a,
          srcB_addr_size = cl_addr_size srcB_pa b, attrB = cl_attr b,
          dstC_addr_size = cl_addr_size dstC_pa c, attrC = cl_attr c\<rparr>,
         put_desc attr_pa OP_ATTR_ADDR BURST_SIZE op s))"

section \<open>Devices, translation and execution\<close>

text \<open>
  \<open>pl_dma\<close> is the array of opened devices, \<open>None\<close> before \<^verbatim>\<open>init_mpim_drv\<close>. Each device has the
  base of its descriptor memory, its DRAM base, the address of its host descriptor list, and the
  driver behind its file. \<open>addr_trans\<close> is the answer of \<^verbatim>\<open>ADDR_TRANS\<close> to an address and a DRAM base.
\<close>

record pl_dma_t =
  dev_fd :: int
  dev_desc_base :: u64
  dev_dram_base :: u64
  dev_isa :: u64
  dev_drv :: pl_env

record math_env =
  pl_dma :: "pl_dma_t list option"
  addr_trans :: "u64 \<Rightarrow> u64 \<Rightarrow> u64"

record math_args = pim_args +
  srcB_va :: u64
  bias_va :: u64
  p_size :: u32
  q_size :: u32
  r_size :: u32
  fused_op :: u32
  vecA_buf :: u64

text \<open>
  The device of a number. The code indexes the array unchecked; a number outside it, undefined in
  C, has no device here.
\<close>

definition pl_dev :: "math_env \<Rightarrow> nat \<Rightarrow> pl_dma_t option" where
  "pl_dev env fpga_id = (case pl_dma env of None \<Rightarrow> None
     | Some devs \<Rightarrow> if fpga_id < length devs then Some (devs ! fpga_id) else None)"

text \<open>\<^verbatim>\<open>mVA2PA\<close> on x86-64 keeps the low 32 bits; with no driver it asserts (\<open>None\<close>).\<close>

definition VA2PA :: "math_env \<Rightarrow> nat \<Rightarrow> u64 \<Rightarrow> u64 option" where
  "VA2PA env fpga_id a = (case pl_dev env fpga_id of None \<Rightarrow> None
     | Some dev \<Rightarrow> Some (ucast (ucast (addr_trans env a (dev_dram_base dev)) :: u32)))"

definition mpim_exec :: "math_env \<Rightarrow> nat \<Rightarrow> math_args \<Rightarrow> pl_state \<Rightarrow> int \<times> math_args \<times> pl_state" where
  "mpim_exec env fpga_id args st =
     (case pl_dev env fpga_id of
        None \<Rightarrow> (- 1, args, st)
      | Some dev \<Rightarrow>
          (let args1 = args\<lparr>desc_host := dev_isa dev\<rparr>
           in case pl_dma_ioctl (dev_drv dev) DMA_START (pim_args.truncate args1) st of
                (ret, _, st1) \<Rightarrow> (if ret < 0 then - 1 else 0, args1, st1)))"

definition internalMemcpy :: "math_env \<Rightarrow> nat \<Rightarrow> u64 \<Rightarrow> u64 \<Rightarrow> int \<Rightarrow> math_args \<Rightarrow> pl_state \<Rightarrow> int \<times> pl_state" where
  "internalMemcpy env fpga_id pim_dst pim_src sz junk st =
     (case pl_dev env fpga_id of
        None \<Rightarrow> (- 1, st)
      | Some dev \<Rightarrow>
          (let copy_code = junk\<lparr>srcA_va := pim_src, dstC_va := pim_dst, srcA_size := of_int sz\<rparr>
           in case pl_dma_ioctl (dev_drv dev) MEMCPY_PL2PL (pim_args.truncate copy_code) st of
                (ret, _, st1) \<Rightarrow> (if ret < 0 then - 1 else 0, st1)))"

definition set_piu_base_addr :: "math_env \<Rightarrow> u64 \<Rightarrow> math_args \<Rightarrow> pl_state \<Rightarrow> int \<times> pl_state" where
  "set_piu_base_addr env addr junk st =
     (case pl_dev env 0 of
        None \<Rightarrow> (- 1, st)
      | Some dev \<Rightarrow>
          (case pl_dma_ioctl (dev_drv dev) PIU_BASE_ADDR_UPDATE (pim_args.truncate (junk\<lparr>pmm_base_addr := addr\<rparr>)) st of
             (ret, _, st1) \<Rightarrow> (if ret < 0 then - 1 else 0, st1)))"

text \<open>
  \<^verbatim>\<open>init_mpim_drv\<close>. The array is allocated only the first time; what \<^verbatim>\<open>malloc\<close> leaves in it is
  \<open>junk\<close>. \<open>opens i\<close> is the descriptor \<^verbatim>\<open>open\<close> gives for device \<open>i\<close>, \<open>isa_ptr i\<close> the list
  allocated for it and \<open>info i\<close> what \<^verbatim>\<open>DESC_MEM_INFO\<close> answers.
\<close>

record init_env =
  total_devs :: nat
  opens :: "nat \<Rightarrow> int"
  isa_ptr :: "nat \<Rightarrow> u64"
  info :: "nat \<Rightarrow> u64 \<times> u64"

fun init_loop :: "init_env \<Rightarrow> nat \<Rightarrow> nat \<Rightarrow> pl_dma_t list \<Rightarrow> bool \<times> pl_dma_t list" where
  "init_loop ie 0 i devs = (True, devs)"
| "init_loop ie (Suc n) i devs =
     (let devs1 = devs[i := (devs ! i)\<lparr>dev_fd := opens ie i\<rparr>]
      in if opens ie i < 0 then (False, devs1)
         else init_loop ie n (Suc i)
           (devs1[i := (devs1 ! i)\<lparr>dev_isa := isa_ptr ie i,
              dev_desc_base := fst (info ie i), dev_dram_base := snd (info ie i)\<rparr>]))"

definition init_mpim_drv :: "init_env \<Rightarrow> pl_dma_t list \<Rightarrow> pl_dma_t list option \<Rightarrow> int \<times> pl_dma_t list option" where
  "init_mpim_drv ie junk devs =
     (case devs of
        Some ds \<Rightarrow> (int (total_devs ie), Some ds)
      | None \<Rightarrow>
          (case init_loop ie (total_devs ie) 0 junk of
             (ok, ds) \<Rightarrow> (if ok then int (total_devs ie) else - 1, Some ds)))"

section \<open>Loops on 32-bit counters\<close>

text \<open>
  \<^verbatim>\<open>for (i = ...; i < bound; i += step)\<close> on a 32-bit counter. The value \<open>None\<close> is a loop that does
  not return, because its counter wraps around or because its body does not return.
\<close>

partial_function (option) u32_for :: "u32 \<Rightarrow> u32 \<Rightarrow> u32 \<Rightarrow> (u32 \<Rightarrow> 's \<Rightarrow> 's option) \<Rightarrow> 's \<Rightarrow> 's option" where
  "u32_for step i bound body s =
     (if i < bound then Option.bind (body i s) (u32_for step (i + step) bound body) else Some s)"

lemma u32_for_done: "\<not> i < bound \<Longrightarrow> u32_for step i bound body s = Some s"
  by (subst u32_for.simps) simp

lemma u32_for_step:
  "i < bound \<Longrightarrow> u32_for step i bound body s = Option.bind (body i s) (u32_for step (i + step) bound body)"
  by (subst u32_for.simps) simp

text \<open>How often the loop runs, and the invariant rule: it returns when the counter does not wrap.\<close>

definition trips :: "u32 \<Rightarrow> u32 \<Rightarrow> nat" where
  "trips step bound = (unat bound + unat step - 1) div unat step"

lemma trips_less_iff:
  "0 < step \<Longrightarrow> k < trips step bound \<longleftrightarrow> k * unat step < unat bound"
proof -
  assume "0 < step"
  then have p: "0 < unat step" by (simp add: unat_gt_0 word_neq_0_conv)
  have "k < trips step bound \<longleftrightarrow> Suc k \<le> trips step bound" by auto
  also have "\<dots> \<longleftrightarrow> Suc k * unat step \<le> unat bound + unat step - 1"
    unfolding trips_def using p by (simp only: less_eq_div_iff_mult_less_eq)
  also have "\<dots> \<longleftrightarrow> k * unat step < unat bound" using p by auto
  finally show ?thesis .
qed

lemma u32_for_invariant:
  assumes step: "0 < step" and bound: "unat bound + unat step \<le> 2 ^ 32"
    and body: "\<And>k s. k < trips step bound \<Longrightarrow> I k s \<Longrightarrow>
      \<exists>s'. body (of_nat (k * unat step)) s = Some s' \<and> I (Suc k) s'"
    and init: "I 0 s"
  shows "\<exists>s'. u32_for step 0 bound body s = Some s' \<and> I (trips step bound) s'"
proof -
  have "\<exists>s'. u32_for step (of_nat (k * unat step)) bound body s = Some s' \<and> I (trips step bound) s'"
    if "k + d = trips step bound" "I k s" for k d s
    using that
  proof (induction d arbitrary: k s)
    case 0
    then have "\<not> k * unat step < unat bound" using trips_less_iff [OF step, of k bound] by simp
    moreover have "k * unat step < 2 ^ 32"
    proof (cases k)
      case (Suc j)
      then have "j < trips step bound" using 0 by simp
      then have "j * unat step < unat bound" using trips_less_iff [OF step] by simp
      then show ?thesis using Suc bound by simp
    qed simp
    ultimately have "\<not> (of_nat (k * unat step) :: u32) < bound"
      by (simp add: word_less_nat_alt del: of_nat_mult)
    then show ?case using 0 by (simp add: u32_for_done)
  next
    case (Suc d)
    then have k: "k < trips step bound" by simp
    then have "k * unat step < unat bound" using trips_less_iff [OF step] by simp
    then have lt: "(of_nat (k * unat step) :: u32) < bound"
      using bound u32_bound [of bound] by (simp add: word_less_nat_alt del: of_nat_mult)
    from body [OF k Suc.prems(2)] obtain s' where
      s': "body (of_nat (k * unat step)) s = Some s'" "I (Suc k) s'" by blast
    have nxt: "of_nat (k * unat step) + step = (of_nat (Suc k * unat step) :: u32)" by simp
    have "\<exists>t. u32_for step (of_nat (Suc k * unat step)) bound body s' = Some t \<and> I (trips step bound) t"
      using Suc.prems(1) s'(2) by (intro Suc.IH) simp_all
    then show ?case unfolding u32_for_step [OF lt] s'(1) nxt by simp
  qed
  from this [of 0 "trips step bound" s] init show ?thesis by simp
qed

text \<open>What every body keeps, a loop that returns keeps.\<close>

lemma u32_for_preserves:
  assumes "u32_for step i bound body s = Some s'"
    and "\<And>i s s'. body i s = Some s' \<Longrightarrow> P s \<Longrightarrow> P s'" and "P s"
  shows "P s'"
proof -
  have "(\<forall>i s s'. body i s = Some s' \<longrightarrow> P s \<longrightarrow> P s') \<longrightarrow> P s \<longrightarrow> P s'"
  proof (rule u32_for.raw_induct [where P = "\<lambda>step i bound body s s'.
      (\<forall>i s s'. body i s = Some s' \<longrightarrow> P s \<longrightarrow> P s') \<longrightarrow> P s \<longrightarrow> P s'", OF _ assms(1)], goal_cases)
    case (1 loop step i bound body s y)
    then show ?case by (auto simp: Option.bind_eq_Some_conv split: if_splits)
  qed
  then show ?thesis using assms(2,3) by blast
qed

text \<open>A counter that wraps before it reaches the bound never leaves the loop.\<close>

lemma u32_for_wraps:
  assumes "u32_for 256 i bound body s = Some s'" "0xFFFFFF00 < bound" "unat i mod 256 = 0"
  shows False
proof -
  have keep: "unat (j + 256) mod 256 = 0" if "unat j mod 256 = 0" for j :: u32
  proof -
    have "unat (j + 256) = (unat j + 256) mod 4294967296" by (simp add: unat_word_ariths)
    also have "\<dots> mod 256 = (unat j + 256) mod 256" by (rule mod_mod_cancel) simp
    also have "\<dots> = 0" using that by presburger
    finally show ?thesis .
  qed
  have last: "\<not> 0xFFFFFF00 < j" if "unat j mod 256 = 0" for j :: u32
  proof -
    have "unat j < 4294967296" by (rule u32_bound)
    with that have "unat j \<le> 4294967040" by presburger
    then show ?thesis by (simp add: word_less_nat_alt)
  qed
  have "256 = (256 :: u32) \<longrightarrow> 0xFFFFFF00 < bound \<longrightarrow> unat i mod 256 = 0 \<longrightarrow> False"
  proof (rule u32_for.raw_induct [where P = "\<lambda>step i bound body s y.
      256 = step \<longrightarrow> 0xFFFFFF00 < bound \<longrightarrow> unat i mod 256 = 0 \<longrightarrow> False", OF _ assms(1)], goal_cases)
    case (1 loop step i bound body s y)
    show ?case
    proof (intro impI)
      assume h: "256 = step" "0xFFFFFF00 < bound" "unat i mod 256 = 0"
      from last [OF h(3)] h(2) have "i < bound" by simp
      with 1(2) obtain t where "loop step (i + step) bound body t = Some y"
        by (auto simp: Option.bind_eq_Some_conv)
      from 1(1) [OF this] h(1,2) have "unat (i + step) mod 256 \<noteq> 0" by blast
      moreover have "i + step = i + 256" using h(1) by (rule arg_cong [OF sym])
      ultimately show False using keep [OF h(3)] by argo
    qed
  qed
  with assms(2,3) show False by simp
qed

section \<open>Linked lists of descriptors\<close>

text \<open>
  What a kernel asks for is a list of instructions: source, destination, length, opcode. A builder
  state holds them as a linked list from \<open>base\<close> on: entry \<open>k\<close> links to the address of entry
  \<open>k + 1\<close>, the cursors are behind the last entry.
\<close>

type_synonym instr = "u32 \<times> u32 \<times> u32 \<times> u32"

definition mk_desc :: "u32 \<Rightarrow> nat \<Rightarrow> instr \<Rightarrow> pim_isa_t" where
  "mk_desc base k i = (case i of (src, dst, n, op) \<Rightarrow>
     \<lparr>next_l = base + 0x40 * of_nat (Suc k), next_h = 0, src_l = src, src_h = 0,
      dst_l = dst, dst_h = 0, len = n, status = op\<rparr>)"

definition chained :: "u32 \<Rightarrow> instr list \<Rightarrow> 'a isa_state_scheme \<Rightarrow> bool" where
  "chained base ds s \<longleftrightarrow> length ds < 2 ^ 32 \<and> idx s = of_nat (length ds)
     \<and> nxt s = base + 0x40 * of_nat (Suc (length ds))
     \<and> (\<forall>k < length ds. k < ISA_ENTRIES \<longrightarrow> isa s (of_nat k) = Some (mk_desc base k (ds ! k)))
     \<and> (past_end s \<longleftrightarrow> ISA_ENTRIES < length ds)"

lemma chained_put:
  assumes "chained base ds s" "Suc (length ds) < 2 ^ 32"
  shows "chained base (ds @ [(src, dst, n, op)]) (put_desc src dst n op s)"
proof -
  have len: "length ds < 2 ^ 32" using assms by simp
  have cur: "idx s = of_nat (length ds)" "unat (of_nat (length ds) :: u32) = length ds"
    using assms(1) len by (simp_all add: chained_def)
  have "isa (put_desc src dst n op s) (of_nat k)
      = Some (mk_desc base k ((ds @ [(src, dst, n, op)]) ! k))" if "k < Suc (length ds)" "k < ISA_ENTRIES" for k
  proof (cases "k = length ds")
    case True
    then show ?thesis using assms(1) that(2) cur by (simp add: chained_def put_desc_def mk_desc_def HIGH_ADDR_def)
  next
    case False
    then have k: "k < length ds" using that by simp
    then have "unat (of_nat k :: u32) \<noteq> unat (of_nat (length ds) :: u32)" using len by simp
    then have "(of_nat k :: u32) \<noteq> of_nat (length ds)" by metis
    then show ?thesis using k that(2) assms(1) by (simp add: chained_def put_desc_def nth_append)
  qed
  then have entries: "\<forall>k < length (ds @ [(src, dst, n, op)]). k < ISA_ENTRIES \<longrightarrow> isa (put_desc src dst n op s) (of_nat k)
      = Some (mk_desc base k ((ds @ [(src, dst, n, op)]) ! k))" by simp
  have "unat (idx s) = length ds" using assms(1) len by (simp add: chained_def)
  then have "past_end (put_desc src dst n op s) \<longleftrightarrow> ISA_ENTRIES < Suc (length ds)"
    using assms(1) by (auto simp: chained_def put_desc_def)
  moreover have "idx (put_desc src dst n op s) = of_nat (Suc (length ds))"
    "nxt (put_desc src dst n op s) = base + 0x40 * of_nat (Suc (Suc (length ds)))"
    using assms(1) by (simp_all add: chained_def put_desc_def algebra_simps)
  ultimately show ?thesis unfolding chained_def using entries assms(2) by simp
qed

lemma chained_start:
  "idx s = 0 \<Longrightarrow> nxt s = base + 0x40 \<Longrightarrow> \<not> past_end s \<Longrightarrow> chained base [] s"
  by (simp add: chained_def)

section \<open>Sinks of instructions\<close>

text \<open>
  Both the descriptor list and the code list are sinks: something that holds a list of
  instructions and to which one more can be appended until the counter is exhausted. The loops of
  the kernels are reasoned about once, over any sink.
\<close>

locale instr_sink =
  fixes emit_to :: "instr \<Rightarrow> 's \<Rightarrow> 's" and holds :: "instr list \<Rightarrow> 's \<Rightarrow> bool"
  assumes emit_holds: "holds ds s \<Longrightarrow> Suc (length ds) < 2 ^ 32 \<Longrightarrow> holds (ds @ [i]) (emit_to i s)"
begin

lemma emits_hold:
  "holds ds s \<Longrightarrow> length ds + length es < 2 ^ 32 \<Longrightarrow> holds (ds @ es) (fold emit_to es s)"
proof (induction es arbitrary: ds s)
  case (Cons e es)
  then have "holds (ds @ [e]) (emit_to e s)" by (intro emit_holds) simp_all
  then have "holds ((ds @ [e]) @ es) (fold emit_to es (emit_to e s))"
    using Cons.prems(2) by (intro Cons.IH) simp_all
  then show ?case by simp
qed simp

text \<open>A loop whose bodies append the blocks \<open>blk 0\<close>, \<open>blk 1\<close>, \dots appends them all, in order.\<close>

lemma loop_emits:
  assumes step: "0 < step" "unat bound + unat step \<le> 2 ^ 32"
    and body: "\<And>k ds s. k < trips step bound \<Longrightarrow> holds ds s \<Longrightarrow> J k s \<Longrightarrow>
      length ds + length (blk k) < 2 ^ 32 \<Longrightarrow>
      \<exists>s'. body (of_nat (k * unat step)) s = Some s' \<and> holds (ds @ blk k) s' \<and> J (Suc k) s'"
    and init: "holds ds s" "J 0 s"
    and room: "length ds + length (concat (map blk [0..<trips step bound])) < 2 ^ 32"
  shows "\<exists>s'. u32_for step 0 bound body s = Some s'
    \<and> holds (ds @ concat (map blk [0..<trips step bound])) s' \<and> J (trips step bound) s'"
proof (rule u32_for_invariant [OF step,
    where I = "\<lambda>k s. holds (ds @ concat (map blk [0..<k])) s \<and> J k s"], goal_cases)
  case (1 k s)
  then have "k + (trips step bound - k) = trips step bound" by simp
  then have "[0..<trips step bound] = [0..<Suc k] @ [Suc k..<trips step bound]"
    using 1(1) upt_add_eq_append [of 0 "Suc k" "trips step bound - Suc k"] by simp
  then have "length (ds @ concat (map blk [0..<k])) + length (blk k) < 2 ^ 32" using room by simp
  from body [OF 1(1) _ _ this] 1(2) show ?case by simp
next
  case 2
  then show ?case using init by simp
qed

text \<open>A loop whose bodies append \<open>c\<close> instructions each, whatever they are.\<close>

lemma loop_count:
  assumes step: "0 < step" "unat bound + unat step \<le> 2 ^ 32"
    and body: "\<And>k ds s. k < trips step bound \<Longrightarrow> holds ds s \<Longrightarrow> length ds + c < 2 ^ 32 \<Longrightarrow>
      \<exists>s' es. body (of_nat (k * unat step)) s = Some s' \<and> holds (ds @ es) s' \<and> length es = c"
    and init: "holds ds s" and room: "length ds + trips step bound * c < 2 ^ 32"
  shows "\<exists>s' es. u32_for step 0 bound body s = Some s' \<and> holds (ds @ es) s'
    \<and> length es = trips step bound * c"
proof -
  have "\<exists>s'. u32_for step 0 bound body s = Some s'
      \<and> (\<exists>es. holds (ds @ es) s' \<and> length es = trips step bound * c)"
  proof (rule u32_for_invariant [OF step,
      where I = "\<lambda>k s. \<exists>es. holds (ds @ es) s \<and> length es = k * c"], goal_cases)
    case (1 k s)
    then obtain es where es: "holds (ds @ es) s" "length es = k * c" by blast
    have "Suc k * c \<le> trips step bound * c" using 1(1) by (intro mult_le_mono1) simp
    then have "length (ds @ es) + c < 2 ^ 32" using es(2) room by simp
    from body [OF 1(1) es(1) this] obtain s' fs where
      "body (of_nat (k * unat step)) s = Some s'" "holds (ds @ (es @ fs)) s'" "length (es @ fs) = Suc k * c"
      using es(2) by auto
    then show ?case by blast
  next
    case 2
    then show ?case using init by (intro exI [of _ "[]"]) simp
  qed
  then show ?thesis by blast
qed

end

text \<open>The descriptor list and the code list as sinks.\<close>

definition put_instr :: "instr \<Rightarrow> 'a isa_state_scheme \<Rightarrow> 'a isa_state_scheme" where
  "put_instr i s = (case i of (src, dst, n, op) \<Rightarrow> put_desc src dst n op s)"

definition coded :: "instr list \<Rightarrow> 'a code_state_scheme \<Rightarrow> bool" where
  "coded ds c \<longleftrightarrow> length ds < 2 ^ 32 \<and> code_idx c = of_nat (length ds)
     \<and> (\<forall>k < length ds. k < code_cap c \<longrightarrow>
          (\<exists>d. code c (of_nat k) = Some d \<and> (src_l d, dst_l d, len d, status d) = ds ! k))
     \<and> (code_over c \<longleftrightarrow> code_cap c < length ds)"

interpretation dl: instr_sink put_instr "chained base" for base
  by unfold_locales (auto simp: put_instr_def chained_put)

lemma coded_put:
  assumes "coded ds c" "Suc (length ds) < 2 ^ 32"
  shows "coded (ds @ [(src, dst, n, op)]) (put_code src dst n op c)"
proof -
  have "(of_nat k :: u32) = of_nat (length ds) \<longleftrightarrow> k = length ds" if "k < Suc (length ds)" for k
  proof -
    have "unat (of_nat k :: u32) = k" "unat (of_nat (length ds) :: u32) = length ds" using that assms(2) by simp_all
    then show ?thesis by metis
  qed
  moreover have "unat (code_idx c) = length ds" using assms by (simp add: coded_def)
  ultimately show ?thesis using assms by (auto simp: coded_def put_code_def nth_append less_Suc_eq)
qed

interpretation cl: instr_sink "\<lambda>(src, dst, n, op). put_code src dst n op" coded
  by unfold_locales (auto simp: coded_put)

end
