(* ===== verification/Data_Copy.thy ===== *)
theory Data_Copy
  imports Host_Dma Pim_Isa
begin

text \<open>
  Copies between the process and the cards, through the character devices of the QDMA queues:
  \<^verbatim>\<open>src/qdma_src/mdrv_interface.c\<close> and the loops of \<^verbatim>\<open>src/qdma_src/dma_xfer_utils.c\<close>, as built
  (\<^verbatim>\<open>PRD_PWR\<close> set, \<^verbatim>\<open>QDMA_SPLIT\<close> not).

  \<open>cpu\<close> is the memory of the process, \<open>cards i\<close> that of card \<open>i\<close>, both byte by byte. \<open>fds i\<close> is
  the file of card \<open>i\<close>: None where the array \<^verbatim>\<open>qdma\<close> has no entry, else whether it is still open.
  \<open>rw_result\<close> is the answer of \<^verbatim>\<open>pread\<close> and \<^verbatim>\<open>pwrite\<close> on an open file, \<open>mmap_at\<close> the address an
  anonymous mapping gets. The translation of addresses is \<open>VA2PA\<close> of theory \<open>Pim_Isa\<close>. File
  offsets are addresses on the card, and are not checked for their sign.
\<close>

section \<open>State\<close>

type_synonym i32 = "32 word"

datatype crash = Loops | Aborts | Undefined | Invalid_Free

record copy_state =
  ticks :: nat
  cpu :: mem
  cards :: "nat \<Rightarrow> mem"
  fds :: "nat \<Rightarrow> bool option"

record copy_env =
  math :: math_env
  rw_result :: "nat \<Rightarrow> u64 \<Rightarrow> int"
  mmap_at :: "nat \<Rightarrow> u64"

definition RW_MAX_SIZE :: u64 where "RW_MAX_SIZE = 0x7ffff000"
abbreviation (input) EIO :: int where "EIO \<equiv> 5"

definition tick_copy :: "copy_state \<Rightarrow> copy_state" where
  "tick_copy s = s\<lparr>ticks := ticks s + 1\<rparr>"

text \<open>The system calls. A file that has been closed answers with an error.\<close>

definition pread :: "copy_env \<Rightarrow> nat \<Rightarrow> u64 \<Rightarrow> u64 \<Rightarrow> u64 \<Rightarrow> copy_state \<Rightarrow> int \<times> copy_state" where
  "pread env i buf bytes offset s =
     (let rc = rw_result env (ticks s) bytes
      in if fds s i \<noteq> Some True \<or> rc < 0 then (- 1, tick_copy s)
         else (rc, tick_copy (s\<lparr>cpu := copy_mem (cards s i) offset buf (nat rc) (cpu s)\<rparr>)))"

definition pwrite :: "copy_env \<Rightarrow> nat \<Rightarrow> u64 \<Rightarrow> u64 \<Rightarrow> u64 \<Rightarrow> copy_state \<Rightarrow> int \<times> copy_state" where
  "pwrite env i buf bytes offset s =
     (let rc = rw_result env (ticks s) bytes
      in if fds s i \<noteq> Some True \<or> rc < 0 then (- 1, tick_copy s)
         else (rc, tick_copy (s\<lparr>cards := (cards s)(i := copy_mem (cpu s) buf offset (nat rc) (cards s i))\<rparr>)))"

definition close_fd :: "nat \<Rightarrow> copy_state \<Rightarrow> copy_state" where
  "close_fd i s = s\<lparr>fds := (fds s)(i := Some False)\<rparr>"

section \<open>The transfer loops\<close>

text \<open>
  \<^verbatim>\<open>do ... while (count < size)\<close>: None is a loop that does not end. The number of bytes the system
  call moved is only tested for its sign.
\<close>

definition chunk_bytes :: "u64 \<Rightarrow> u64 \<Rightarrow> u64" where
  "chunk_bytes sz count = (if sz - count > RW_MAX_SIZE then RW_MAX_SIZE else sz - count)"

definition loop_result :: "u64 \<Rightarrow> u64 \<Rightarrow> int" where
  "loop_result sz count = (if count \<noteq> sz then - EIO else sint count)"

partial_function (option) read_loop ::
    "copy_env \<Rightarrow> nat \<Rightarrow> u64 \<Rightarrow> u64 \<Rightarrow> u64 \<Rightarrow> u64 \<Rightarrow> copy_state \<Rightarrow> (int \<times> copy_state) option" where
  "read_loop env i sz count buf offset s =
     (case pread env i buf (chunk_bytes sz count) offset s of (rc, s1) \<Rightarrow>
        if rc < 0 then Some (- EIO, s1)
        else if count + chunk_bytes sz count < sz
          then read_loop env i sz (count + chunk_bytes sz count) (buf + chunk_bytes sz count)
                 (offset + chunk_bytes sz count) s1
          else Some (loop_result sz (count + chunk_bytes sz count), s1))"

partial_function (option) write_loop ::
    "copy_env \<Rightarrow> nat \<Rightarrow> u64 \<Rightarrow> u64 \<Rightarrow> u64 \<Rightarrow> u64 \<Rightarrow> copy_state \<Rightarrow> (int \<times> copy_state) option" where
  "write_loop env i sz count buf offset s =
     (case pwrite env i buf (chunk_bytes sz count) offset s of (rc, s1) \<Rightarrow>
        if rc < 0 then Some (- EIO, s1)
        else if count + chunk_bytes sz count < sz
          then write_loop env i sz (count + chunk_bytes sz count) (buf + chunk_bytes sz count)
                 (offset + chunk_bytes sz count) s1
          else Some (loop_result sz (count + chunk_bytes sz count), s1))"

definition read_to_buffer :: "copy_env \<Rightarrow> nat \<Rightarrow> u64 \<Rightarrow> u64 \<Rightarrow> u64 \<Rightarrow> copy_state \<Rightarrow> (int \<times> copy_state) option" where
  "read_to_buffer env i buffer sz base s = read_loop env i sz 0 buffer base s"

definition write_from_buffer :: "copy_env \<Rightarrow> nat \<Rightarrow> u64 \<Rightarrow> u64 \<Rightarrow> u64 \<Rightarrow> copy_state \<Rightarrow> (int \<times> copy_state) option" where
  "write_from_buffer env i buffer sz base s = write_loop env i sz 0 buffer base s"

section \<open>The copies\<close>

text \<open>
  A transfer on a card at a virtual address: the array is indexed, the address translated, and the
  loop run. The size of the interface is an \<^verbatim>\<open>int\<close>, which becomes a \<^verbatim>\<open>uint64_t\<close>.
\<close>

definition on_card :: "copy_env \<Rightarrow> nat \<Rightarrow> u64 \<Rightarrow> (u64 \<Rightarrow> (int \<times> copy_state) option) \<Rightarrow> copy_state \<Rightarrow> crash + int \<times> copy_state" where
  "on_card env i a run s =
     (case fds s i of
        None \<Rightarrow> Inl Undefined
      | Some _ \<Rightarrow>
          (case VA2PA (math env) i a of
             None \<Rightarrow> Inl Aborts
           | Some q \<Rightarrow> (case run q of None \<Rightarrow> Inl Loops | Some r \<Rightarrow> Inr r)))"

definition int_of_ssize :: "int \<Rightarrow> int" where
  "int_of_ssize r = sint (word_of_int r :: i32)"

definition close_on_error :: "nat \<Rightarrow> crash + int \<times> copy_state \<Rightarrow> crash + int \<times> copy_state" where
  "close_on_error i r =
     (case r of
        Inl c \<Rightarrow> Inl c
      | Inr (ret, s) \<Rightarrow> Inr (int_of_ssize ret, if ret < 0 then close_fd i s else s))"

definition datacopy_cpu2pim :: "copy_env \<Rightarrow> u64 \<Rightarrow> u64 \<Rightarrow> i32 \<Rightarrow> nat \<Rightarrow> copy_state \<Rightarrow> crash + int \<times> copy_state" where
  "datacopy_cpu2pim env pim_dst cpu_src sz fpga_id s =
     close_on_error fpga_id
       (on_card env fpga_id pim_dst (\<lambda>q. write_from_buffer env fpga_id cpu_src (scast sz) q s) s)"

definition datacopy_pim2cpu :: "copy_env \<Rightarrow> u64 \<Rightarrow> u64 \<Rightarrow> i32 \<Rightarrow> nat \<Rightarrow> copy_state \<Rightarrow> crash + int \<times> copy_state" where
  "datacopy_pim2cpu env cpu_dst pim_src sz fpga_id s =
     close_on_error fpga_id
       (on_card env fpga_id pim_src (\<lambda>q. read_to_buffer env fpga_id cpu_dst (scast sz) q s) s)"

text \<open>Through a mapping that a failed read hands to \<^verbatim>\<open>free\<close>.\<close>

definition datacopy_pim2pim :: "copy_env \<Rightarrow> u64 \<Rightarrow> u64 \<Rightarrow> i32 \<Rightarrow> nat \<Rightarrow> nat \<Rightarrow> copy_state \<Rightarrow> crash + int \<times> copy_state" where
  "datacopy_pim2pim env pim_dst pim_src sz dst_id src_id s =
     (let buf = mmap_at env (ticks s); s0 = tick_copy s
      in case on_card env src_id pim_src (\<lambda>q. read_to_buffer env src_id buf (scast sz) q s0) s0 of
           Inl c \<Rightarrow> Inl c
         | Inr (ret, s1) \<Rightarrow>
             if ret < 0 then Inl Invalid_Free
             else close_on_error dst_id
                    (on_card env dst_id pim_dst (\<lambda>q. write_from_buffer env dst_id buf (scast sz) q s1) s1))"

end
