(* ===== verification/Copy_Props.thy ===== *)
theory Copy_Props
  imports Data_Copy Host_Props
begin

text \<open>
  The copies of the library between process and cards: they always return; when the system calls
  move what they are asked to, every byte arrives, on one card and from card to card. A short
  transfer is reported as complete, a failed read of a card-to-card copy frees memory that \<^verbatim>\<open>malloc\<close>
  never gave out, and one failed copy closes the card for good.
\<close>

section \<open>The loops\<close>

lemma chunk_progress:
  assumes "count \<le> n"
  shows "unat (count + chunk_bytes n count) = unat count + unat (chunk_bytes n count)"
    "count + chunk_bytes n count \<le> n" "chunk_bytes n count \<le> RW_MAX_SIZE"
    "\<not> count + chunk_bytes n count < n \<Longrightarrow> count + chunk_bytes n count = n"
    "count + chunk_bytes n count < n \<Longrightarrow> unat (n - (count + chunk_bytes n count)) < unat (n - count)"
proof -
  let ?b = "chunk_bytes n count"
  have b: "?b \<le> n - count" by (simp add: chunk_bytes_def less_imp_le)
  have d: "unat (n - count) = unat n - unat count" by (rule unat_sub [OF assms])
  have le: "unat count + unat ?b \<le> unat n" using b d assms by (simp add: word_le_nat_alt)
  then show u: "unat (count + ?b) = unat count + unat ?b"
    by (intro unat_add_u64) (rule le_less_trans [OF _ u64_less [of n]])
  show c: "count + ?b \<le> n" using le by (simp add: word_le_nat_alt u)
  show "?b \<le> RW_MAX_SIZE" by (simp add: chunk_bytes_def not_less)
  show "\<not> count + ?b < n \<Longrightarrow> count + ?b = n" using c by simp
  assume lt: "count + ?b < n"
  then have "0 < unat ?b" by (auto simp: chunk_bytes_def RW_MAX_SIZE_def word_less_nat_alt unat_gt_0 split: if_splits)
  with unat_sub [OF c] d u lt show "unat (n - (count + ?b)) < unat (n - count)" by (simp add: word_less_nat_alt)
qed

text \<open>Every loop from a count within the size returns, whatever the system calls answer.\<close>

lemma pread_fds: "pread env i buf n offset s = (rc, s') \<Longrightarrow> fds s' = fds s \<and> cards s' = cards s \<and> (fds s i \<noteq> Some True \<longrightarrow> rc < 0)"
  by (auto simp: pread_def tick_copy_def Let_def split: if_splits)

lemma pwrite_fds: "pwrite env i buf n offset s = (rc, s') \<Longrightarrow> fds s' = fds s \<and> cpu s' = cpu s \<and> (fds s i \<noteq> Some True \<longrightarrow> rc < 0)"
  by (auto simp: pwrite_def tick_copy_def Let_def split: if_splits)

lemma read_loop_returns:
  "count \<le> n \<Longrightarrow> \<exists>rv s'. read_loop env i n count buf offset s = Some (rv, s') \<and> rv \<in> {- EIO, sint n} \<and> fds s' = fds s
    \<and> (fds s i \<noteq> Some True \<longrightarrow> rv = - EIO)"
proof (induction "unat (n - count)" arbitrary: count buf offset s rule: less_induct)
  case less
  note p = chunk_progress [OF less.prems]
  obtain rc s1 where r: "pread env i buf (chunk_bytes n count) offset s = (rc, s1)"
    by (cases "pread env i buf (chunk_bytes n count) offset s")
  note f = pread_fds [OF r]
  show ?case
  proof (cases "count + chunk_bytes n count < n")
    case True
    with less.hyps [OF p(5) p(2), of "buf + chunk_bytes n count" "offset + chunk_bytes n count" s1] r f show ?thesis
      by (subst read_loop.simps) auto
  next
    case False
    with r f p(4) show ?thesis by (subst read_loop.simps) (auto simp: loop_result_def)
  qed
qed

lemma write_loop_returns:
  "count \<le> n \<Longrightarrow> \<exists>rv s'. write_loop env i n count buf offset s = Some (rv, s') \<and> rv \<in> {- EIO, sint n} \<and> fds s' = fds s
    \<and> (fds s i \<noteq> Some True \<longrightarrow> rv = - EIO)"
proof (induction "unat (n - count)" arbitrary: count buf offset s rule: less_induct)
  case less
  note p = chunk_progress [OF less.prems]
  obtain rc s1 where r: "pwrite env i buf (chunk_bytes n count) offset s = (rc, s1)"
    by (cases "pwrite env i buf (chunk_bytes n count) offset s")
  note f = pwrite_fds [OF r]
  show ?case
  proof (cases "count + chunk_bytes n count < n")
    case True
    with less.hyps [OF p(5) p(2), of "buf + chunk_bytes n count" "offset + chunk_bytes n count" s1] r f show ?thesis
      by (subst write_loop.simps) auto
  next
    case False
    with r f p(4) show ?thesis by (subst write_loop.simps) (auto simp: loop_result_def)
  qed
qed

text \<open>System calls that move everything they are asked to.\<close>

definition full_io :: "copy_env \<Rightarrow> bool" where
  "full_io env \<longleftrightarrow> (\<forall>t n. n \<le> RW_MAX_SIZE \<longrightarrow> rw_result env t n = int (unat n))"

lemma of_unat [simp]: "of_nat (unat (w :: u64)) = w"
  by simp

lemma copy_next:
  assumes "count \<le> n"
  shows "copy_mem m (src + count) (dst + count) (unat (chunk_bytes n count)) (copy_mem m src dst (unat count) m')
    = copy_mem m src dst (unat (count + chunk_bytes n count)) m'"
proof -
  note p = chunk_progress [OF assms]
  have "unat count + unat (chunk_bytes n count) \<le> 2 ^ 64"
    unfolding p(1) [symmetric] by (rule less_imp_le [OF u64_less])
  from copy_mem_append [OF this, of m src m dst m'] show ?thesis by (simp add: p(1))
qed

lemma write_loop_moves:
  assumes "full_io env" "fds s i = Some True" "count \<le> n" "cards s i = copy_mem (cpu s) src dst (unat count) C"
  shows "\<exists>s'. write_loop env i n count (src + count) (dst + count) s = Some (sint n, s')
    \<and> cards s' = (cards s)(i := copy_mem (cpu s) src dst (unat n) C) \<and> cpu s' = cpu s \<and> fds s' = fds s"
  using assms(2-)
proof (induction "unat (n - count)" arbitrary: count s rule: less_induct)
  case less
  note p = chunk_progress [OF less.prems(2)]
  let ?b = "chunk_bytes n count"
  define s1 where "s1 = tick_copy (s\<lparr>cards := (cards s)(i := copy_mem (cpu s) (src + count) (dst + count) (unat ?b) (cards s i))\<rparr>)"
  have w: "pwrite env i (src + count) ?b (dst + count) s = (int (unat ?b), s1)"
    using assms(1) less.prems(1) p(3) by (simp add: pwrite_def full_io_def s1_def Let_def)
  have s1: "fds s1 = fds s" "cpu s1 = cpu s" "cards s1 = (cards s)(i := copy_mem (cpu s) src dst (unat (count + ?b)) C)"
    using copy_next [OF less.prems(2)] less.prems(3) by (simp_all add: s1_def tick_copy_def)
  show ?case
  proof (cases "count + ?b < n")
    case True
    from less.hyps [OF p(5) [OF True], of s1] less.prems(1) p(2) s1
    have "\<exists>s'. write_loop env i n (count + ?b) (src + (count + ?b)) (dst + (count + ?b)) s1 = Some (sint n, s')
        \<and> cards s' = (cards s)(i := copy_mem (cpu s) src dst (unat n) C) \<and> cpu s' = cpu s \<and> fds s' = fds s" by simp
    with w True show ?thesis by (subst write_loop.simps) (simp add: add.assoc)
  next
    case False
    with w s1 p(4) show ?thesis by (subst write_loop.simps) (simp add: loop_result_def)
  qed
qed

lemma read_loop_moves:
  assumes "full_io env" "fds s i = Some True" "count \<le> n" "cpu s = copy_mem (cards s i) src dst (unat count) C"
  shows "\<exists>s'. read_loop env i n count (dst + count) (src + count) s = Some (sint n, s')
    \<and> cpu s' = copy_mem (cards s i) src dst (unat n) C \<and> cards s' = cards s \<and> fds s' = fds s"
  using assms(2-)
proof (induction "unat (n - count)" arbitrary: count s rule: less_induct)
  case less
  note p = chunk_progress [OF less.prems(2)]
  let ?b = "chunk_bytes n count"
  define s1 where "s1 = tick_copy (s\<lparr>cpu := copy_mem (cards s i) (src + count) (dst + count) (unat ?b) (cpu s)\<rparr>)"
  have w: "pread env i (dst + count) ?b (src + count) s = (int (unat ?b), s1)"
    using assms(1) less.prems(1) p(3) by (simp add: pread_def full_io_def s1_def Let_def)
  have s1: "fds s1 = fds s" "cards s1 = cards s" "cpu s1 = copy_mem (cards s i) src dst (unat (count + ?b)) C"
    using copy_next [OF less.prems(2)] less.prems(3) by (simp_all add: s1_def tick_copy_def)
  show ?case
  proof (cases "count + ?b < n")
    case True
    from less.hyps [OF p(5) [OF True], of s1] less.prems(1) p(2) s1
    have "\<exists>s'. read_loop env i n (count + ?b) (dst + (count + ?b)) (src + (count + ?b)) s1 = Some (sint n, s')
        \<and> cpu s' = copy_mem (cards s i) src dst (unat n) C \<and> cards s' = cards s \<and> fds s' = fds s" by simp
    with w True show ?thesis by (subst read_loop.simps) (simp add: add.assoc)
  next
    case False
    with w s1 p(4) show ?thesis by (subst read_loop.simps) (simp add: loop_result_def)
  qed
qed

section \<open>The copies\<close>

lemma sint_range: "- (2 ^ 31) \<le> sint (sz :: i32)" "sint (sz :: i32) < 2 ^ 31"
  using sint_greater_eq [of sz] sint_less [of sz] by simp_all

lemma sint_scast [simp]: "sint (scast (sz :: i32) :: u64) = sint sz"
  using sint_range [of sz] by (simp add: signed_scast_eq signed_take_bit_int_eq_self)

lemma unat_scast: "0 \<le> sint (sz :: i32) \<Longrightarrow> unat (scast sz :: u64) = nat (sint sz)"
proof -
  assume n: "0 \<le> sint sz"
  have "(scast sz :: u64) = of_nat (nat (sint sz))" by (metis scast_eq n of_int_of_nat_eq nat_0_le)
  moreover have "nat (sint sz) < 2 ^ 64" using sint_range(2) [of sz] by simp
  ultimately show ?thesis by (simp only: unat_of_nat_u64)
qed

lemma int_of_ssize_sint [simp]: "int_of_ssize (sint (sz :: i32)) = sint sz" "int_of_ssize (- EIO) = - EIO"
  by (simp_all add: int_of_ssize_def)

lemma on_card_open:
  "fds s i = Some True \<Longrightarrow> VA2PA (math env) i a = Some q \<Longrightarrow> on_card env i a run s = (case run q of None \<Rightarrow> Inl Loops | Some r \<Rightarrow> Inr r)"
  by (simp add: on_card_def)

lemma write_full:
  assumes "full_io env" "fds s i = Some True"
  obtains s' where "write_from_buffer env i src n q s = Some (sint n, s')" "cpu s' = cpu s" "fds s' = fds s"
    "cards s' = (cards s)(i := copy_mem (cpu s) src q (unat n) (cards s i))"
  using write_loop_moves [OF assms, of 0 n src q "cards s i"] that
  by (auto simp: write_from_buffer_def copy_mem_def)

lemma read_full:
  assumes "full_io env" "fds s i = Some True"
  obtains s' where "read_to_buffer env i dst n q s = Some (sint n, s')" "cards s' = cards s" "fds s' = fds s"
    "cpu s' = copy_mem (cards s i) q dst (unat n) (cpu s)"
  using read_loop_moves [OF assms, of 0 n q dst "cpu s"] that
  by (auto simp: read_to_buffer_def copy_mem_def)

lemma close_on_error_ok: "0 \<le> sint (sz :: i32) \<Longrightarrow> close_on_error i (Inr (sint sz, s)) = Inr (sint sz, s)"
  by (simp add: close_on_error_def)

text \<open>
  Every copy returns, whatever the system calls answer and whatever size is asked for: the
  loops end.
\<close>

theorem copies_return:
  "datacopy_cpu2pim env p c sz i s \<noteq> Inl Loops \<and> datacopy_pim2cpu env c p sz i s \<noteq> Inl Loops
    \<and> datacopy_pim2pim env p p' sz i j s \<noteq> Inl Loops"
proof -
  have io: "(read_to_buffer env i b n q s = None) = False" "(write_from_buffer env i b n q s = None) = False" for i b n q s
    using read_loop_returns [of 0 n env i b q s] write_loop_returns [of 0 n env i b q s]
    by (auto simp: read_to_buffer_def write_from_buffer_def)
  have "on_card env i a (\<lambda>q. read_to_buffer env i b n q s') s' \<noteq> Inl Loops"
    "on_card env i a (\<lambda>q. write_from_buffer env i b n q s') s' \<noteq> Inl Loops" for i a b n s'
    by (auto simp: on_card_def io split: option.splits)
  then show ?thesis
    by (auto simp: datacopy_cpu2pim_def datacopy_pim2cpu_def datacopy_pim2pim_def close_on_error_def Let_def split: sum.splits)
qed

text \<open>
  Claim C24: bytes written to a card come back: with system calls that move what they are asked to,
  both copies return the size and the process reads what it wrote.
\<close>

theorem card_roundtrip:
  assumes "full_io env" "fds s i = Some True" "VA2PA (math env) i p = Some q" "0 \<le> sint sz"
  shows "\<exists>s1 s2. datacopy_cpu2pim env p src sz i s = Inr (sint sz, s1) \<and> datacopy_pim2cpu env dst p sz i s1 = Inr (sint sz, s2)
    \<and> (\<forall>k < nat (sint sz). cpu s2 (dst + of_nat k) = cpu s (src + of_nat k))
    \<and> (\<forall>j. j \<noteq> i \<longrightarrow> cards s2 j = cards s j)"
proof -
  let ?n = "scast sz :: u64"
  obtain s1 where s1: "write_from_buffer env i src ?n q s = Some (sint ?n, s1)" "cpu s1 = cpu s" "fds s1 = fds s"
      "cards s1 = (cards s)(i := copy_mem (cpu s) src q (unat ?n) (cards s i))"
    by (rule write_full [OF assms(1,2)])
  have "fds s1 i = Some True" using s1(3) assms(2) by simp
  then obtain s2 where s2: "read_to_buffer env i dst ?n q s1 = Some (sint ?n, s2)" "cards s2 = cards s1"
      "cpu s2 = copy_mem (cards s1 i) q dst (unat ?n) (cpu s1)" using read_full [OF assms(1)] by metis
  have w: "datacopy_cpu2pim env p src sz i s = Inr (sint sz, s1)" "datacopy_pim2cpu env dst p sz i s1 = Inr (sint sz, s2)"
    using s1 s2 assms(2-4) by (simp_all add: datacopy_cpu2pim_def datacopy_pim2cpu_def on_card_open close_on_error_ok)
  have "nat (sint sz) \<le> 2 ^ 64" using sint_range(2) [of sz] by simp
  then have "\<forall>k < nat (sint sz). cpu s2 (dst + of_nat k) = cpu s (src + of_nat k)"
    using s1(4) s2(3) unat_scast [OF assms(4)] by (simp add: copy_mem_at)
  with w s1(4) s2(2) show ?thesis by auto
qed

text \<open>
  A copy from one card to another puts the source's bytes on the destination and changes no
  other card.
\<close>

theorem card_to_card:
  assumes "full_io env" "fds s i = Some True" "fds s j = Some True" "0 \<le> sint sz"
    and "VA2PA (math env) i p = Some q" "VA2PA (math env) j p' = Some q'"
  shows "\<exists>s'. datacopy_pim2pim env p' p sz j i s = Inr (sint sz, s')
    \<and> (\<forall>k < nat (sint sz). cards s' j (q' + of_nat k) = cards s i (q + of_nat k))
    \<and> (\<forall>l. l \<noteq> j \<longrightarrow> cards s' l = cards s l)"
proof -
  let ?n = "scast sz :: u64" and ?buf = "mmap_at env (ticks s)" and ?s0 = "tick_copy s"
  have s0: "fds ?s0 = fds s" "cards ?s0 = cards s" by (simp_all add: tick_copy_def)
  then have "fds ?s0 i = Some True" using assms(2) by simp
  then obtain s1 where s1: "read_to_buffer env i ?buf ?n q ?s0 = Some (sint ?n, s1)" "cards s1 = cards s" "fds s1 = fds s"
      "cpu s1 = copy_mem (cards s i) q ?buf (unat ?n) (cpu ?s0)" using read_full [OF assms(1)] s0 by metis
  then have "fds s1 j = Some True" using assms(3) by simp
  then obtain s2 where s2: "write_from_buffer env j ?buf ?n q' s1 = Some (sint ?n, s2)"
      "cards s2 = (cards s1)(j := copy_mem (cpu s1) ?buf q' (unat ?n) (cards s1 j))" using write_full [OF assms(1)] by metis
  have w: "datacopy_pim2pim env p' p sz j i s = Inr (sint sz, s2)"
    using s0 s1 s2 assms(2-6) by (simp add: datacopy_pim2pim_def Let_def on_card_open close_on_error_ok sint_scast)
  have "nat (sint sz) \<le> 2 ^ 64" using sint_range(2) [of sz] by simp
  then have "\<forall>k < nat (sint sz). cards s2 j (q' + of_nat k) = cards s i (q + of_nat k)"
    using s1(4) s2(2) unat_scast [OF assms(4)] by (simp add: copy_mem_at)
  with w s1(2) s2(2) show ?thesis by auto
qed

text \<open>
  A read of which the system call moves only a part, even none, is reported as complete;
  the rest of the buffer keeps what it had.
\<close>

theorem short_read_reported_complete:
  assumes "fds s i = Some True" "VA2PA (math env) i p = Some q" "0 \<le> sint sz" "scast sz \<le> RW_MAX_SIZE"
    and "rw_result env (ticks s) (scast sz) = rc" "0 \<le> rc" "rc < sint sz"
  shows "\<exists>s'. datacopy_pim2cpu env dst p sz i s = Inr (sint sz, s')
    \<and> (\<forall>k. nat rc \<le> k \<and> k < nat (sint sz) \<longrightarrow> cpu s' (dst + of_nat k) = cpu s (dst + of_nat k))"
proof -
  let ?n = "scast sz :: u64"
  have c: "chunk_bytes ?n 0 = ?n" using assms(4) by (auto simp: chunk_bytes_def)
  define s' where "s' = tick_copy (s\<lparr>cpu := copy_mem (cards s i) q dst (nat rc) (cpu s)\<rparr>)"
  have "read_to_buffer env i dst ?n q s = Some (sint ?n, s')"
    using assms(1,5,6) by (simp add: read_to_buffer_def read_loop.simps c pread_def Let_def loop_result_def s'_def)
  then have "datacopy_pim2cpu env dst p sz i s = Inr (sint sz, s')"
    using assms(1-3) by (simp add: datacopy_pim2cpu_def on_card_open close_on_error_ok)
  moreover have "cpu s' (dst + of_nat k) = cpu s (dst + of_nat k)" if k: "nat rc \<le> k" "k < nat (sint sz)" for k
  proof -
    have "unat (of_nat k :: u64) = k" using k(2) sint_range(2) [of sz] by (intro unat_of_nat_u64) simp
    with k(1) show ?thesis by (simp add: s'_def tick_copy_def copy_mem_other)
  qed
  ultimately show ?thesis by blast
qed

lemma io_cases:
  assumes "read_to_buffer env i b n q s = Some (rv, t) \<or> write_from_buffer env i b n q s = Some (rv, t)"
  shows "rv \<in> {- EIO, sint n} \<and> fds t = fds s \<and> (fds s i \<noteq> Some True \<longrightarrow> rv = - EIO)"
  using assms read_loop_returns [of 0 n env i b q s] write_loop_returns [of 0 n env i b q s]
  by (auto simp: read_to_buffer_def write_from_buffer_def)

text \<open>A copy that returns, on its card: what it returns, and what is left of the card's file.\<close>

lemma on_card_returns:
  assumes "close_on_error i (on_card env i a run s) = Inr (r, s')"
    and "\<And>q rv t. run q = Some (rv, t) \<Longrightarrow> rv \<in> {- EIO, sint (scast (sz :: i32) :: u64)} \<and> fds t = fds s
      \<and> (fds s i \<noteq> Some True \<longrightarrow> rv = - EIO)"
  shows "(fds s i \<noteq> Some True \<longrightarrow> r < 0) \<and> (r < 0 \<longrightarrow> fds s' i = Some False)"
proof -
  from assms(1) obtain q rv t where q: "run q = Some (rv, t)" "r = int_of_ssize rv" "s' = (if rv < 0 then close_fd i t else t)"
    by (auto simp: close_on_error_def on_card_def split: sum.splits option.splits)
  with assms(2) [OF q(1)] show ?thesis by (auto simp: close_fd_def)
qed

lemma copy_returns:
  assumes "datacopy_cpu2pim env p c sz i s = Inr (r, s') \<or> datacopy_pim2cpu env c p sz i s = Inr (r, s')"
  shows "(fds s i \<noteq> Some True \<longrightarrow> r < 0) \<and> (r < 0 \<longrightarrow> fds s' i = Some False)"
  using assms unfolding datacopy_cpu2pim_def datacopy_pim2cpu_def
  by (elim disjE on_card_returns [where sz = sz]) (use io_cases in blast)+

text \<open>
  One failed copy closes the card: every later copy to or from it fails too.
\<close>

theorem failed_copy_closes_card:
  assumes "datacopy_cpu2pim env p c sz i s = Inr (r, s1) \<or> datacopy_pim2cpu env c p sz i s = Inr (r, s1)" "r < 0"
    and "datacopy_cpu2pim env p' c' sz' i s1 = Inr (r', s2) \<or> datacopy_pim2cpu env c' p' sz' i s1 = Inr (r', s2)"
  shows "r' < 0"
  using copy_returns [OF assms(1)] copy_returns [OF assms(3)] assms(2) by simp

text \<open>
  When the read of a card-to-card copy fails, the copy passes its mapping to \<^verbatim>\<open>free\<close>.
\<close>

theorem card_to_card_read_error:
  assumes "fds s i = Some True" "VA2PA (math env) i p = Some q" "rw_result env (ticks s + 1) (chunk_bytes (scast sz) 0) < 0"
  shows "datacopy_pim2pim env p' p sz j i s = Inl Invalid_Free"
proof -
  let ?s = "tick_copy s"
  have "read_to_buffer env i (mmap_at env (ticks s)) (scast sz) q ?s = Some (- EIO, tick_copy ?s)"
    using assms(3) by (simp add: read_to_buffer_def read_loop.simps pread_def tick_copy_def Let_def)
  then show ?thesis using assms(1,2) by (simp add: datacopy_pim2pim_def Let_def on_card_def tick_copy_def)
qed

section \<open>Concrete runs\<close>

definition demo_node :: pl_dma_t where
  "demo_node = \<lparr>dev_fd = 3, dev_desc_base = 0, dev_dram_base = 0, dev_isa = 0, dev_drv = demo_pl_env\<rparr>"

definition demo_io :: "(nat \<Rightarrow> u64 \<Rightarrow> int) \<Rightarrow> copy_env" where
  "demo_io f = \<lparr>math = \<lparr>pl_dma = Some [demo_node, demo_node], addr_trans = (\<lambda>a b. a)\<rparr>, rw_result = f, mmap_at = (\<lambda>_. 0x9000)\<rparr>"

definition demo_cards :: copy_state where
  "demo_cards = \<lparr>ticks = 0, cpu = (\<lambda>a. ucast a), cards = (\<lambda>i a. of_nat i), fds = (\<lambda>i. if i < 2 then Some True else None)\<rparr>"

lemma demo_translate: "VA2PA (math (demo_io f)) 0 0x1000 = Some 0x1000" "VA2PA (math (demo_io f)) 1 0x1000 = Some 0x1000"
  by (simp_all add: VA2PA_def pl_dev_def demo_io_def)

lemma demo_cards_simps [simp]: "fds demo_cards 0 = Some True" "fds demo_cards 1 = Some True" "cpu demo_cards a = ucast a"
  "cards demo_cards i a = of_nat i" "ticks demo_cards = 0"
  by (simp_all add: demo_cards_def)

lemma demo_full: "full_io (demo_io (\<lambda>_ n. int (unat n)))"
  by (simp add: full_io_def demo_io_def)

lemma demo_rw [simp]: "rw_result (demo_io f) = f"
  by (simp add: demo_io_def)

theorem card_roundtrip_witness:
  "\<exists>s1 s2. datacopy_cpu2pim (demo_io (\<lambda>_ n. int (unat n))) 0x1000 0x2000 3 0 demo_cards = Inr (3, s1)
    \<and> datacopy_pim2cpu (demo_io (\<lambda>_ n. int (unat n))) 0x5000 0x1000 3 0 s1 = Inr (3, s2) \<and> cpu s2 0x5002 = 2"
proof -
  from card_roundtrip [OF demo_full demo_cards_simps(1) demo_translate(1), of 3 "0x2000" "0x5000"]
  obtain s1 s2 where "datacopy_cpu2pim (demo_io (\<lambda>_ n. int (unat n))) 0x1000 0x2000 3 0 demo_cards = Inr (3, s1)"
      "datacopy_pim2cpu (demo_io (\<lambda>_ n. int (unat n))) 0x5000 0x1000 3 0 s1 = Inr (3, s2)"
      "\<forall>k < 3. cpu s2 (0x5000 + of_nat k) = cpu demo_cards (0x2000 + of_nat k)" by auto
  then show ?thesis by (auto dest: spec [of _ 2])
qed

theorem card_to_card_witness:
  "\<exists>s'. datacopy_pim2pim (demo_io (\<lambda>_ n. int (unat n))) 0x1000 0x1000 3 0 1 demo_cards = Inr (3, s') \<and> cards s' 0 0x1002 = 1"
proof -
  from card_to_card [OF demo_full demo_cards_simps(2,1) _ demo_translate(2,1), of 3]
  obtain s' where "datacopy_pim2pim (demo_io (\<lambda>_ n. int (unat n))) 0x1000 0x1000 3 0 1 demo_cards = Inr (3, s')"
      "\<forall>k < 3. cards s' 0 (0x1000 + of_nat k) = cards demo_cards 1 (0x1000 + of_nat k)" by auto
  then show ?thesis by (auto dest: spec [of _ 2])
qed

theorem short_read_reported_complete_witness:
  "\<exists>s'. datacopy_pim2cpu (demo_io (\<lambda>_ _. 1)) 0x5000 0x1000 3 0 demo_cards = Inr (3, s') \<and> cpu s' 0x5002 = 2"
proof -
  from short_read_reported_complete [OF demo_cards_simps(1) demo_translate(1), of 3 "\<lambda>_ _. 1" 1 "0x5000"]
  obtain s' where "datacopy_pim2cpu (demo_io (\<lambda>_ _. 1)) 0x5000 0x1000 3 0 demo_cards = Inr (3, s')"
      "\<forall>k. nat 1 \<le> k \<and> k < nat 3 \<longrightarrow> cpu s' (0x5000 + of_nat k) = cpu demo_cards (0x5000 + of_nat k)"
    by (auto simp: RW_MAX_SIZE_def)
  then show ?thesis by (auto dest: spec [of _ 2])
qed

lemma demo_failed: "\<exists>s1. datacopy_cpu2pim (demo_io (\<lambda>t _. if t = 0 then - 1 else 3)) 0x1000 0x2000 3 0 demo_cards = Inr (- 5, s1)
    \<and> fds s1 0 \<noteq> None"
  by (auto simp: datacopy_cpu2pim_def on_card_def demo_translate close_on_error_def write_from_buffer_def write_loop.simps
      pwrite_def Let_def close_fd_def)

theorem failed_copy_closes_card_witness:
  "\<exists>s1 r' s2. datacopy_cpu2pim (demo_io (\<lambda>t _. if t = 0 then - 1 else 3)) 0x1000 0x2000 3 0 demo_cards = Inr (- 5, s1)
    \<and> datacopy_pim2cpu (demo_io (\<lambda>t _. if t = 0 then - 1 else 3)) 0x2000 0x1000 3 0 s1 = Inr (r', s2) \<and> r' < 0"
proof -
  let ?env = "demo_io (\<lambda>t _. if t = 0 then - 1 else 3)"
  obtain s1 where s1: "datacopy_cpu2pim ?env 0x1000 0x2000 3 0 demo_cards = Inr (- 5, s1)" "fds s1 0 \<noteq> None"
    using demo_failed by blast
  have "\<exists>r' s2. datacopy_pim2cpu ?env 0x2000 0x1000 3 0 s1 = Inr (r', s2)"
    using s1(2) read_loop_returns [of 0 "scast (3 :: i32)" ?env 0 "0x2000" "0x1000" s1]
    by (auto simp: datacopy_pim2cpu_def on_card_def demo_translate close_on_error_def read_to_buffer_def)
  then obtain r' s2 where r: "datacopy_pim2cpu ?env 0x2000 0x1000 3 0 s1 = Inr (r', s2)" by blast
  from failed_copy_closes_card [OF disjI1 [OF s1(1)] _ disjI2 [OF r]] s1(1) r show ?thesis by auto
qed

theorem card_to_card_read_error_witness:
  "datacopy_pim2pim (demo_io (\<lambda>_ _. - 1)) 0x1000 0x1000 3 1 0 demo_cards = Inl Invalid_Free"
  by (rule card_to_card_read_error [OF demo_cards_simps(1) demo_translate(1)]) simp

end
