(* ===== verification/Mem_Region.thy ===== *)
theory Mem_Region
  imports Pim_Prelude
begin

text \<open>
  The memory-driver side of the PIM library (\<^verbatim>\<open>src/mem_src/mdrv_interface.c\<close>): one node per
  FPGA device with its mapped window of device memory, from which \<^verbatim>\<open>multi_mmap_drv\<close> hands out
  consecutive regions. What the kernel answers (\<^verbatim>\<open>open\<close>, \<^verbatim>\<open>ioctl(PIM_MEM_INFO)\<close>,
  \<^verbatim>\<open>mmap\<close>) is a parameter, the record \<open>drv_env\<close>. \<^verbatim>\<open>assert(0)\<close> is the result \<open>None\<close>.
\<close>

record pim_mem_t =
  base :: u64
  fd :: int
  pim_mem_size :: u64
  total_size :: u64

record pim_mem_info =
  info_size :: u64
  info_addr :: u64

record drv_env =
  open_dev :: "nat \<Rightarrow> int"
  ioctl_info :: "nat \<Rightarrow> pim_mem_info option"
  mmap_dev :: "nat \<Rightarrow> u64 \<Rightarrow> u64 \<Rightarrow> u64"

section \<open>Operations\<close>

text \<open>
  \<open>sz\<close> (the parameter \<^verbatim>\<open>size\<close>) is a C \<^verbatim>\<open>int\<close>, sign-extended to 64 bits when it is added to \<open>total_size\<close>.
\<close>

definition multi_mmap_drv :: "u32 \<Rightarrow> pim_mem_t \<Rightarrow> (u64 \<times> pim_mem_t) option" where
  "multi_mmap_drv sz node =
     (let ptr = base node + total_size node;
          node' = node\<lparr>total_size := total_size node + scast sz\<rparr>
      in if total_size node' > pim_mem_size node' then None else Some (ptr, node'))"

text \<open>
  The loop of \<^verbatim>\<open>__init_mpim_drv\<close>. \<open>info\<close> is the local variable \<^verbatim>\<open>pim_info\<close>, declared
  before the loop: a failing \<^verbatim>\<open>ioctl\<close> leaves it as it was.
\<close>

fun init_mpim_drv_loop ::
  "drv_env \<Rightarrow> nat \<Rightarrow> nat \<Rightarrow> pim_mem_info \<Rightarrow> pim_mem_t list option" where
  "init_mpim_drv_loop env 0 i info = Some []"
| "init_mpim_drv_loop env (Suc n) i info =
     (let f = open_dev env i;
          info' = (case ioctl_info env i of None \<Rightarrow> info | Some r \<Rightarrow> r)
      in if f < 0 then None
         else if info_addr info' = 0 \<or> info_size info' = 0 then None
         else map_option
           (Cons \<lparr>base = mmap_dev env i (info_size info') (info_addr info'), fd = f,
                  pim_mem_size = info_size info', total_size = 0\<rparr>)
           (init_mpim_drv_loop env n (Suc i) info'))"

definition init_mpim_drv :: "drv_env \<Rightarrow> nat \<Rightarrow> pim_mem_t list option" where
  "init_mpim_drv env totalDevNum =
     init_mpim_drv_loop env totalDevNum 0 \<lparr>info_size = 0, info_addr = 0\<rparr>"

definition release_node :: "pim_mem_t \<Rightarrow> pim_mem_t" where
  "release_node node =
     (let node1 = (if fd node > 0 then node\<lparr>fd := -1\<rparr> else node)
      in if base node1 \<noteq> 0 then node1\<lparr>base := 0\<rparr> else node1)"

definition release_mpim_drv :: "pim_mem_t list \<Rightarrow> pim_mem_t list" where
  "release_mpim_drv nodes = map release_node nodes"

section \<open>The window\<close>

text \<open>
  User-space addresses are below \<open>2 ^ 63\<close> and a PCIe BAR is smaller than \<open>2 ^ 52\<close>
  bytes (the physical address width), so the window never wraps around.
\<close>

definition window_ok :: "pim_mem_t \<Rightarrow> bool" where
  "window_ok node \<longleftrightarrow> base node \<noteq> 0 \<and> unat (base node) + unat (pim_mem_size node) < 2 ^ 63
     \<and> unat (pim_mem_size node) < 2 ^ 52 \<and> total_size node \<le> pim_mem_size node"

lemma scast_small_u32:
  assumes "n < 2 ^ 31" shows "scast (of_nat n :: u32) = (of_nat n :: u64)"
proof -
  have "sint (of_nat n :: u32) = signed_take_bit 31 (int n)"
    by (simp add: signed_of_nat)
  also have "\<dots> = int n"
    by (rule signed_take_bit_int_eq_self) (use assms in simp_all)
  finally show ?thesis by (simp add: scast_eq)
qed

lemma multi_mmap_drv_Some:
  assumes "multi_mmap_drv (of_nat n) node = Some (ptr, node')"
    and "window_ok node" and "n < 2 ^ 31"
  shows "unat ptr = unat (base node) + unat (total_size node)"
    and "unat (total_size node') = unat (total_size node) + n"
    and "base node' = base node" and "pim_mem_size node' = pim_mem_size node"
    and "window_ok node'"
proof -
  have sz: "scast (of_nat n :: u32) = (of_nat n :: u64)" by (rule scast_small_u32 [OF assms(3)])
  have node': "node' = node\<lparr>total_size := total_size node + of_nat n\<rparr>"
    and ptr: "ptr = base node + total_size node"
    and le: "total_size node + of_nat n \<le> pim_mem_size node"
    using assms(1) by (auto simp: multi_mmap_drv_def Let_def sz not_less split: if_splits)
  have w: "unat (base node) + unat (pim_mem_size node) < 2 ^ 63"
    "unat (total_size node) \<le> unat (pim_mem_size node)"
    using assms(2) by (auto simp: window_ok_def word_le_nat_alt)
  have n: "unat (of_nat n :: u64) = n" using assms(3) by simp
  show "unat ptr = unat (base node) + unat (total_size node)"
    unfolding ptr using w by (intro unat_add_u64) simp
  have "unat (total_size node) + unat (of_nat n :: u64) < 2 ^ 64"
    using w n assms(3) by simp
  from unat_add_u64 [OF this] show "unat (total_size node') = unat (total_size node) + n"
    by (simp add: node' n)
  show "base node' = base node" "pim_mem_size node' = pim_mem_size node"
    by (simp_all add: node')
  show "window_ok node'" using assms(2) le by (simp add: node' window_ok_def)
qed

lemma multi_mmap_drv_enough:
  assumes "window_ok node" and "n < 2 ^ 31"
    and "unat (total_size node) + n \<le> unat (pim_mem_size node)"
  shows "\<exists>ptr node'. multi_mmap_drv (of_nat n) node = Some (ptr, node')"
proof -
  have sz: "scast (of_nat n :: u32) = (of_nat n :: u64)" by (rule scast_small_u32 [OF assms(2)])
  have n: "unat (of_nat n :: u64) = n" using assms(2) by simp
  have "unat (total_size node) + unat (of_nat n :: u64) < 2 ^ 64"
    unfolding n by (rule order.strict_trans1 [OF assms(3)]) simp
  from unat_add_u64 [OF this] have "total_size node + of_nat n \<le> pim_mem_size node"
    using assms(3) by (simp add: word_le_nat_alt n)
  then show ?thesis by (simp add: multi_mmap_drv_def Let_def sz not_less)
qed

section \<open>Properties of the region source\<close>

text \<open>
  Two regions taken one after the other are adjacent and stay inside the window, as
  long as each request is below 2 GiB.
\<close>

theorem mmap_regions_adjacent:
  assumes "window_ok node" "n1 < 2 ^ 31" "n2 < 2 ^ 31"
    and "multi_mmap_drv (of_nat n1) node = Some (p1, node1)"
    and "multi_mmap_drv (of_nat n2) node1 = Some (p2, node2)"
  shows "unat p2 = unat p1 + n1
    \<and> unat p2 + n2 \<le> unat (base node) + unat (pim_mem_size node)"
proof -
  note a = multi_mmap_drv_Some [OF assms(4,1,2)]
  note b = multi_mmap_drv_Some [OF assms(5) a(5) assms(3)]
  show ?thesis using a b(1,2,4,5) by (simp add: window_ok_def word_le_nat_alt)
qed

definition demo_window :: pim_mem_t where
  "demo_window = \<lparr>base = 0x100000000, fd = 3, pim_mem_size = 0x40000000, total_size = 0\<rparr>"

lemma demo_window_ok: "window_ok demo_window"
  by (simp add: window_ok_def demo_window_def)

theorem mmap_regions_adjacent_witness: "unat (0x100200000 :: u64) = unat (0x100000000 :: u64) + 0x200000"
proof -
  have "multi_mmap_drv (of_nat 0x200000) demo_window = Some (0x100000000, demo_window\<lparr>total_size := 0x200000\<rparr>)"
    "multi_mmap_drv (of_nat 0x1000) (demo_window\<lparr>total_size := 0x200000\<rparr>)
      = Some (0x100200000, demo_window\<lparr>total_size := 0x201000\<rparr>)"
    by (simp_all add: multi_mmap_drv_def demo_window_def)
  from mmap_regions_adjacent [OF demo_window_ok _ _ this] show ?thesis by simp
qed

text \<open>
  The size parameter is a C \<^verbatim>\<open>int\<close>. A request for 2048 huge pages (4 GiB)
  truncates to size 0: it succeeds on any window, whatever its size, and does not advance
  \<open>total_size\<close>, so the next region starts at the same address.
\<close>

theorem mmap_4gib_aliases:
  assumes "total_size node \<le> pim_mem_size node"
  shows "multi_mmap_drv (of_nat HUGE_PAGE_SIZE * 2048) node = Some (base node + total_size node, node)"
  using assms by (simp add: multi_mmap_drv_def Let_def not_less)

theorem mmap_4gib_aliases_witness:
  "multi_mmap_drv (of_nat HUGE_PAGE_SIZE * 2048) demo_window = Some (0x100000000, demo_window)"
  using mmap_4gib_aliases [of demo_window] by (simp add: demo_window_def)

end
