(* ===== verification/Dev_Window.thy ===== *)
theory Dev_Window
  imports Host_Dma Mem_Region
begin

text \<open>
  The devices and their memory windows in the kernel: the list of cards
  (\<^verbatim>\<open>src/drv_src/multi_dev_drv.c\<close>), the search of the PCI tree, the probe and the character device
  of a window (\<^verbatim>\<open>pim_mem_probe.c\<close>), and the translation of addresses (\<^verbatim>\<open>addr_probe.c\<close>, and
  \<^verbatim>\<open>va_to_pa\<close> of \<^verbatim>\<open>pim_drv_main.c\<close>, which is the same function).

  The page tables are the kernel's: a tree of four levels whose entries are absent, point to the
  next level, or map a huge page. A page-table entry that is zero is absent. When the walk takes a
  huge page for a table it reads the memory \<open>phys\<close>, and \<open>as_pmd\<close> is what the processor's format makes
  of a word of it as an entry. The outer \<open>None\<close> is a null pointer.
\<close>

section \<open>The list of cards\<close>

record dev_node_t =
  pdev :: nat
  fpga_id :: nat
  mem_start :: u64
  mem_len :: u64
  pim_mem_reg :: u64

text \<open>
  \<open>nodes\<close> is the number of list nodes \<^verbatim>\<open>kmalloc\<close> will still give; it is not checked for NULL. A new
  node's other fields are not set: \<open>blank\<close> is what \<^verbatim>\<open>kmalloc\<close> leaves.
\<close>

record dev_state =
  dev_list :: "dev_node_t list"
  totalDev :: nat
  nodes :: nat

definition dev_insert :: "dev_node_t \<Rightarrow> nat \<Rightarrow> nat \<Rightarrow> dev_state \<Rightarrow> dev_state option" where
  "dev_insert blank d i s =
     (if nodes s = 0 then None
      else Some (s\<lparr>dev_list := blank\<lparr>pdev := d, fpga_id := i\<rparr> # dev_list s, nodes := nodes s - 1\<rparr>))"

definition find_dev :: "nat \<Rightarrow> dev_state \<Rightarrow> nat option" where
  "find_dev num s = map_option pdev (List.find (\<lambda>n. fpga_id n = num) (dev_list s))"

text \<open>The PCI tree: the devices of a bus with their vendors, and the buses below it.\<close>

datatype pci_bus = Bus "(nat \<times> u16) list" "pci_bus list"

definition XILINX :: u16 where "XILINX = 0x10ee"

fun scan_devices :: "dev_node_t \<Rightarrow> (nat \<times> u16) list \<Rightarrow> dev_state \<Rightarrow> dev_state option" where
  "scan_devices blank [] s = Some s"
| "scan_devices blank ((d, vendor) # ds) s =
     (if vendor = XILINX
      then (case dev_insert blank d (totalDev s) s of
              None \<Rightarrow> None
            | Some s1 \<Rightarrow> scan_devices blank ds (s1\<lparr>totalDev := totalDev s1 + 1\<rparr>))
      else scan_devices blank ds s)"

fun pciem_find_device_recur :: "dev_node_t \<Rightarrow> pci_bus \<Rightarrow> dev_state \<Rightarrow> dev_state option"
  and scan_buses :: "dev_node_t \<Rightarrow> pci_bus list \<Rightarrow> dev_state \<Rightarrow> dev_state option" where
  "pciem_find_device_recur blank (Bus ds bs) s =
     (case scan_devices blank ds s of None \<Rightarrow> None | Some s1 \<Rightarrow> scan_buses blank bs s1)"
| "scan_buses blank [] s = Some s"
| "scan_buses blank (b # bs) s =
     (case pciem_find_device_recur blank b s of None \<Rightarrow> None | Some s1 \<Rightarrow> scan_buses blank bs s1)"

text \<open>\<^verbatim>\<open>pciem_find_device\<close> after \<^verbatim>\<open>init_list\<close>; a machine without the root device is a null pointer.\<close>

definition pciem_find_device :: "dev_node_t \<Rightarrow> pci_bus option \<Rightarrow> dev_state \<Rightarrow> dev_state option" where
  "pciem_find_device blank root s =
     (case root of
        None \<Rightarrow> None
      | Some b \<Rightarrow> pciem_find_device_recur blank b (s\<lparr>dev_list := [], totalDev := 0\<rparr>))"

section \<open>The windows\<close>

definition RESERVED :: u64 where "RESERVED = 0x1000000"

text \<open>What the PCI core answers for a device: enabling it, its memory BAR, and the mapping of it.\<close>

record bar_env =
  enable_fails :: "nat \<Rightarrow> bool"
  bar_start :: "nat \<Rightarrow> u64"
  bar_len :: "nat \<Rightarrow> u64"
  remapped :: "u64 \<Rightarrow> u64 \<Rightarrow> u64"

definition probe_node :: "bar_env \<Rightarrow> dev_node_t \<Rightarrow> dev_node_t option" where
  "probe_node env n =
     (let start = bar_start env (pdev n) + RESERVED; len = bar_len env (pdev n) - RESERVED
      in if enable_fails env (pdev n) \<or> remapped env start len = 0 then None
         else Some (n\<lparr>mem_start := start, mem_len := len, pim_mem_reg := remapped env start len\<rparr>))"

text \<open>The probe stops at the first device that fails; those before it keep their windows.\<close>

fun probe_nodes :: "bar_env \<Rightarrow> dev_node_t list \<Rightarrow> bool \<times> dev_node_t list" where
  "probe_nodes env [] = (True, [])"
| "probe_nodes env (n # ns) =
     (case probe_node env n of
        None \<Rightarrow> (False, n # ns)
      | Some n' \<Rightarrow> (case probe_nodes env ns of (ok, ns') \<Rightarrow> (ok, n' # ns')))"

definition probe_pim_mem_x86 :: "bar_env \<Rightarrow> dev_node_t \<Rightarrow> pci_bus option \<Rightarrow> dev_state \<Rightarrow> (int \<times> dev_state) option" where
  "probe_pim_mem_x86 env blank root s =
     (case pciem_find_device blank root s of
        None \<Rightarrow> None
      | Some s1 \<Rightarrow>
          (case probe_nodes env (dev_list s1) of
             (ok, ns) \<Rightarrow> Some (if ok then 0 else - 1, s1\<lparr>dev_list := ns\<rparr>)))"

text \<open>
  The character device. \<^verbatim>\<open>PIM_MEM_INFO\<close> answers with the window, \<^verbatim>\<open>DEV_COUNT\<close> with the number of
  cards; the two booleans are the results of the copies from and to the caller.
\<close>

datatype mem_cmd = PIM_MEM_INFO | DEV_COUNT | OTHER_MEM_CMD u32

datatype mem_answer = Window u64 u64 u32 | Count nat | Unchanged

definition fops_ioctl :: "bool \<Rightarrow> bool \<Rightarrow> mem_cmd \<Rightarrow> dev_node_t \<Rightarrow> dev_state \<Rightarrow> int \<times> mem_answer" where
  "fops_ioctl from_fails to_fails cmd n s =
     (case cmd of
        OTHER_MEM_CMD c \<Rightarrow> (0, Unchanged)
      | PIM_MEM_INFO \<Rightarrow>
          if from_fails \<or> to_fails then (- EFAULT, Unchanged)
          else (0, Window (mem_start n) (mem_len n) (ucast (pim_mem_reg n)))
      | DEV_COUNT \<Rightarrow>
          if from_fails \<or> to_fails then (- EFAULT, Unchanged) else (0, Count (totalDev s)))"

text \<open>
  \<^verbatim>\<open>fops_mmap\<close>: the request it makes of \<^verbatim>\<open>io_remap_pfn_range\<close> (address, frame, length), which
  is refused or granted. Neither frame nor length is compared with the window.
\<close>

definition EAGAIN :: int where "EAGAIN = 11"

definition fops_mmap :: "(u64 \<Rightarrow> u64 \<Rightarrow> u64 \<Rightarrow> bool) \<Rightarrow> u64 \<Rightarrow> u64 \<Rightarrow> u64 \<Rightarrow> int \<times> (u64 \<times> u64 \<times> u64)" where
  "fops_mmap refused vm_start vm_end vm_pgoff =
     (if refused vm_start vm_pgoff (vm_end - vm_start) then - EAGAIN else 0, (vm_start, vm_pgoff, vm_end - vm_start))"

section \<open>Translation\<close>

datatype pmd_entry = Pmd_none | Pmd_table "nat \<Rightarrow> u64" | Pmd_huge u64
datatype pud_entry = Pud_none | Pud_table "nat \<Rightarrow> pmd_entry" | Pud_huge u64
datatype pgd_entry = Pgd_none | Pgd_table "nat \<Rightarrow> pud_entry"

record mm_struct =
  pgd :: "nat \<Rightarrow> pgd_entry"
  in_vma :: "u64 \<Rightarrow> bool"
  as_pmd :: "u64 \<Rightarrow> pmd_entry"

definition PAGE_MASK :: u64 where "PAGE_MASK = NOT 0xFFF"

definition pt_index :: "nat \<Rightarrow> u64 \<Rightarrow> nat" where
  "pt_index sh a = unat (drop_bit sh a AND 0x1FF)"

text \<open>The page-table entry the walk ends at, or None where a level above is absent.\<close>

definition pte_of :: "(u64 \<Rightarrow> u64) \<Rightarrow> pmd_entry \<Rightarrow> u64 \<Rightarrow> u64 option" where
  "pte_of phys e a =
     (case e of
        Pmd_none \<Rightarrow> None
      | Pmd_table t \<Rightarrow> Some (t (pt_index 12 a))
      | Pmd_huge f \<Rightarrow> Some (phys (f + of_nat (8 * pt_index 12 a))))"

definition walk :: "mm_struct \<Rightarrow> (u64 \<Rightarrow> u64) \<Rightarrow> u64 \<Rightarrow> u64 option" where
  "walk mm phys a =
     (case pgd mm (pt_index 39 a) of
        Pgd_none \<Rightarrow> None
      | Pgd_table puds \<Rightarrow>
          (case puds (pt_index 30 a) of
             Pud_none \<Rightarrow> None
           | Pud_huge f \<Rightarrow> pte_of phys (as_pmd mm (phys (f + of_nat (8 * pt_index 21 a)))) a
           | Pud_table pmds \<Rightarrow> pte_of phys (pmds (pt_index 21 a)) a))"

text \<open>An absent entry prints the flags of the area of the address, if there is one.\<close>

definition va_to_pa :: "mm_struct \<Rightarrow> (u64 \<Rightarrow> u64) \<Rightarrow> u64 \<Rightarrow> u64 option" where
  "va_to_pa mm phys vaddr =
     (case walk mm phys vaddr of
        None \<Rightarrow> Some (- 1)
      | Some pte \<Rightarrow>
          if pte = 0 then (if in_vma mm vaddr then Some (- 1) else None)
          else Some ((pte AND PAGE_MASK) OR (vaddr AND NOT PAGE_MASK)))"

text \<open>\<^verbatim>\<open>ADDR_TRANS\<close>: the difference is cut to 32 bits before it is stored in the answer.\<close>

datatype addr_cmd = ADDR_TRANS | OTHER_ADDR_CMD u32

definition addr_ioctl :: "mm_struct \<Rightarrow> (u64 \<Rightarrow> u64) \<Rightarrow> bool \<Rightarrow> bool \<Rightarrow> addr_cmd \<Rightarrow> pim_args \<Rightarrow> (int \<times> pim_args) option" where
  "addr_ioctl mm phys from_fails to_fails cmd args =
     (case cmd of
        OTHER_ADDR_CMD c \<Rightarrow> Some (0, args)
      | ADDR_TRANS \<Rightarrow>
          if from_fails then Some (- EFAULT, args)
          else (case va_to_pa mm phys (va args) of
                  None \<Rightarrow> None
                | Some x \<Rightarrow>
                    if to_fails then Some (- EFAULT, args)
                    else Some (0, args\<lparr>pa := ucast (ucast (x - args_dram_base args) :: u32)\<rparr>)))"

end
