(* ===== verification/Window_Props.thy ===== *)
theory Window_Props
  imports Dev_Window
begin

text \<open>
  The search of the PCI tree gives every card a number of its own; a region the library hands out
  translates, byte for byte, to consecutive addresses on its card. And two things the translation
  does not do: tell an address that is not mapped, and strip the flags of a page-table entry.
\<close>

section \<open>The cards\<close>

text \<open>The cards of a tree in the order of the search.\<close>

fun cards_of :: "(nat \<times> u16) list \<Rightarrow> nat list" where
  "cards_of [] = []"
| "cards_of ((d, vendor) # ds) = (if vendor = XILINX then d # cards_of ds else cards_of ds)"

fun cards_below :: "pci_bus \<Rightarrow> nat list" where
  "cards_below (Bus ds bs) = cards_of ds @ concat (map cards_below bs)"

text \<open>What a search that appends the cards \<open>cs\<close> does to the list.\<close>

definition numbered :: "dev_node_t \<Rightarrow> nat list \<Rightarrow> dev_state \<Rightarrow> dev_state" where
  "numbered blank cs s = s\<lparr>
     dev_list := rev (map (\<lambda>(i, d). blank\<lparr>pdev := d, fpga_id := i\<rparr>) (zip [totalDev s..<totalDev s + length cs] cs)) @ dev_list s,
     totalDev := totalDev s + length cs, nodes := nodes s - length cs\<rparr>"

lemma numbered_Nil [simp]: "numbered blank [] s = s"
  by (simp add: numbered_def)

lemma numbered_append: "numbered blank (xs @ ys) s = numbered blank ys (numbered blank xs s)"
proof -
  have u: "[a..<a + (n + m)] = [a..<a + n] @ [a + n..<a + n + m]" for a n m :: nat
    using upt_add_eq_append [of a "a + n" m] by (simp add: add.assoc)
  show ?thesis by (simp add: numbered_def u zip_append add.assoc)
qed

lemma numbered_left: "totalDev (numbered blank cs s) = totalDev s + length cs" "nodes (numbered blank cs s) = nodes s - length cs"
  by (simp_all add: numbered_def)

lemma scan_devices_spec:
  "scan_devices blank ds s = (if length (cards_of ds) \<le> nodes s then Some (numbered blank (cards_of ds) s) else None)"
proof (induction ds arbitrary: s)
  case (Cons dv ds)
  obtain d vendor where dv: "dv = (d, vendor)" by fastforce
  show ?case
  proof (cases "vendor = XILINX \<and> nodes s \<noteq> 0")
    case True
    then obtain s1 where s1: "dev_insert blank d (totalDev s) s = Some s1"
        "s1\<lparr>totalDev := totalDev s1 + 1\<rparr> = numbered blank [d] s"
      by (auto simp: dev_insert_def numbered_def)
    then have "scan_devices blank (dv # ds) s = scan_devices blank ds (numbered blank [d] s)"
      using True by (simp add: dv)
    with Cons.IH [of "numbered blank [d] s"] True numbered_append [of blank "[d]" "cards_of ds" s] show ?thesis
      by (auto simp: numbered_left dv)
  next
    case False
    with Cons.IH [of s] show ?thesis by (auto simp: dev_insert_def dv)
  qed
qed simp

lemma search_spec:
  "pciem_find_device_recur blank b s
    = (if length (cards_below b) \<le> nodes s then Some (numbered blank (cards_below b) s) else None)"
  "scan_buses blank bs s = (if length (concat (map cards_below bs)) \<le> nodes s
    then Some (numbered blank (concat (map cards_below bs)) s) else None)"
proof (induction blank b s and blank bs s rule: pciem_find_device_recur_scan_buses.induct)
  case (1 blank ds bs s)
  then show ?case by (auto simp: scan_devices_spec numbered_append numbered_left)
next
  case (3 blank b bs s)
  then show ?case by (auto simp: numbered_append numbered_left)
qed simp

lemma find_numbered:
  assumes "dev_list s = []" "totalDev s = 0"
  shows "find_dev i (numbered blank cs s) = (if i < length cs then Some (cs ! i) else None)"
proof -
  let ?ns = "map (\<lambda>(i, d). blank\<lparr>pdev := d, fpga_id := i\<rparr>) (zip [0..<length cs] cs)"
  have l: "dev_list (numbered blank cs s) = rev ?ns" using assms by (simp add: numbered_def)
  have id: "fpga_id (?ns ! k) = k" "pdev (?ns ! k) = cs ! k" if "k < length cs" for k using that by simp_all
  show ?thesis
  proof (cases "i < length cs")
    case True
    let ?j = "length cs - Suc i"
    have "List.find (\<lambda>n. fpga_id n = i) (rev ?ns) = Some (?ns ! i)"
      unfolding find_Some_iff
    proof (intro exI [of _ ?j] conjI allI impI)
      show "?j < length (rev ?ns)" "?ns ! i = rev ?ns ! ?j" "fpga_id (rev ?ns ! ?j) = i"
        using True by (simp_all add: rev_nth)
      fix k assume "k < ?j" then show "fpga_id (rev ?ns ! k) \<noteq> i" using True by (simp add: rev_nth)
    qed
    then show ?thesis using True id(2) l by (simp add: find_dev_def)
  next
    case False
    then have "List.find (\<lambda>n. fpga_id n = i) (rev ?ns) = None"
      by (auto simp: find_None_iff set_zip)
    with False l show ?thesis by (simp add: find_dev_def)
  qed
qed

text \<open>
  The probe numbers the Xilinx cards of the whole tree from 0 in the order of the search,
  and \<^verbatim>\<open>find_dev\<close> finds exactly those numbers.
\<close>

theorem cards_numbered:
  assumes "length (cards_below b) \<le> nodes s"
  shows "\<exists>s'. pciem_find_device blank (Some b) s = Some s' \<and> totalDev s' = length (cards_below b)
    \<and> find_dev i s' = (if i < length (cards_below b) then Some (cards_below b ! i) else None)"
  using assms by (simp add: pciem_find_device_def search_spec numbered_left find_numbered)

section \<open>Translation\<close>

text \<open>
  A mapping the kernel has set up, in the tables the processor walks: \<open>n\<close> bytes of virtual addresses from \<open>vm\<close>. Bits 39 to 47 of
  an address select the entry of the top table, bits 30 to 38, 21 to 29 and 12 to 20 those of the next three,
  and the entry of the last table holds the frame of the physical address, counted from \<open>q\<close>, with the
  flags \<open>flags\<close>.
\<close>

definition maps :: "mm_struct \<Rightarrow> u64 \<Rightarrow> u64 \<Rightarrow> nat \<Rightarrow> u64 \<Rightarrow> bool" where
  "maps mm vm q n flags \<longleftrightarrow> vm AND 0xFFF = q AND 0xFFF \<and> flags \<noteq> 0
     \<and> (\<forall>k < n. \<exists>puds pmds ptes.
          pgd mm (unat (vm + of_nat k) div 2 ^ 39 mod 512) = Pgd_table puds
          \<and> puds (unat (vm + of_nat k) div 2 ^ 30 mod 512) = Pud_table pmds
          \<and> pmds (unat (vm + of_nat k) div 2 ^ 21 mod 512) = Pmd_table ptes
          \<and> ptes (unat (vm + of_nat k) div 2 ^ 12 mod 512) = (((q + of_nat k) AND NOT 0xFFF) OR flags))"

lemma pt_index_eq: "pt_index sh a = unat a div 2 ^ sh mod 512"
proof -
  have "drop_bit sh a AND 0x1FF = take_bit 9 (drop_bit sh a)" by (simp add: take_bit_eq_mask mask_eq_exp_minus_1)
  then have "unat (drop_bit sh a AND 0x1FF) = take_bit 9 (unat (drop_bit sh a))" by (simp only: unsigned_take_bit_eq)
  also have "\<dots> = unat a div 2 ^ sh mod 2 ^ 9" 
    by (simp only: unat_drop_bit_eq) (simp only: drop_bit_eq_div take_bit_eq_mod)
  finally show ?thesis by (simp add: pt_index_def)
qed

lemma maps_walk:
  assumes "maps mm vm q n flags" "k < n"
  shows "walk mm phys (vm + of_nat k) = Some (((q + of_nat k) AND PAGE_MASK) OR flags)"
proof -
  from assms obtain puds pmds ptes where
    "pgd mm (unat (vm + of_nat k) div 2 ^ 39 mod 512) = Pgd_table puds"
    "puds (unat (vm + of_nat k) div 2 ^ 30 mod 512) = Pud_table pmds"
    "pmds (unat (vm + of_nat k) div 2 ^ 21 mod 512) = Pmd_table ptes"
    "ptes (unat (vm + of_nat k) div 2 ^ 12 mod 512) = (((q + of_nat k) AND NOT 0xFFF) OR flags)"
    unfolding maps_def by blast
  then show ?thesis
    by (simp only: walk_def pte_of_def pt_index_eq PAGE_MASK_def pgd_entry.case pud_entry.case pmd_entry.case)
qed

lemma page_offset: "x AND NOT PAGE_MASK = x AND 0xFFF"
  by (simp add: PAGE_MASK_def)

lemma page_part: "unat ((x :: u64) AND 0xFFF) = unat x mod 4096"
proof -
  have "x AND 0xFFF = take_bit 12 x" by (simp add: take_bit_eq_mask mask_eq_exp_minus_1)
  then have "unat (x AND 0xFFF) = take_bit 12 (unat x)" by (simp only: unsigned_take_bit_eq)
  then show ?thesis by (simp add: take_bit_eq_mod)
qed

lemma same_offset:
  assumes "(a :: u64) AND 0xFFF = b AND 0xFFF" shows "(a + k) AND 0xFFF = (b + k) AND 0xFFF"
proof -
  have m: "unat ((x + y) AND 0xFFF) = (unat (x AND 0xFFF) + unat y) mod 4096" for x y :: u64
    by (simp add: page_part unat_word_ariths mod_mod_cancel mod_add_left_eq)
  from assms show ?thesis by (simp only: word_unat_eq_iff m)
qed

lemma page_parts: "((((x :: u64) AND PAGE_MASK) OR f) AND PAGE_MASK) OR (x AND 0xFFF) = x OR (f AND PAGE_MASK)"
  unfolding PAGE_MASK_def by (rule bit_eqI) (auto simp: bit_simps)

lemma or_nonzero: "(f :: u64) \<noteq> 0 \<Longrightarrow> x OR f \<noteq> 0"
  by (metis or_eq_0_iff)

lemma mapped_translates:
  assumes "maps mm vm q n flags" "k < n"
  shows "va_to_pa mm phys (vm + of_nat k) = Some ((q + of_nat k) OR (flags AND PAGE_MASK))"
proof -
  have "(vm + of_nat k) AND 0xFFF = (q + of_nat k) AND 0xFFF" using assms(1) by (intro same_offset) (simp add: maps_def)
  moreover have "flags \<noteq> 0" using assms(1) by (simp add: maps_def)
  ultimately show ?thesis using maps_walk [OF assms, of phys] or_nonzero [of flags] page_parts [of "q + of_nat k" flags]
    by (simp add: va_to_pa_def page_offset)
qed

lemma ucast_sub: "(ucast (a - b :: u64) :: u32) = ucast a - ucast b"
proof -
  have add: "(ucast (x + y :: u64) :: u32) = ucast x + ucast y" for x y
  proof -
    have "unat (ucast (x + y) :: u32) = unat (ucast x + ucast y :: u32)"
      by (simp add: unat_word_ariths unsigned_ucast_eq take_bit_eq_mod mod_mod_cancel mod_add_eq)
    then show ?thesis by (simp only: word_unat_eq_iff)
  qed
  from add [of "a - b" b] show ?thesis by simp
qed

lemma ucast_or: "(ucast (a OR b :: u64) :: u32) = ucast a OR ucast b"
  by (rule bit_eqI) (simp add: bit_simps)

text \<open>
  Claim C18: a region of less than \<open>2 ^ 31\<close> bytes that the library hands out translates to the card. When the page tables map the
  whole window, page for page, to the physical addresses from \<open>start\<close>, every
  byte of the region gets the low 32 bits of its distance from the card's DRAM base, the regions one
  after the other from the start of the window. The flags of the page-table entries do not show, as
  long as those outside the page offset lie above bit 31.
\<close>

theorem regions_translate:
  assumes "multi_mmap_drv (of_nat n) node = Some (ptr, node')" "window_ok node" "n < 2 ^ 31" "k < n"
    and "maps mm (base node) start (unat (pim_mem_size node)) flags" "(ucast (flags AND PAGE_MASK) :: u32) = 0"
  shows "addr_ioctl mm phys False False ADDR_TRANS (args\<lparr>va := ptr + of_nat k, args_dram_base := db\<rparr>)
    = Some (0, args\<lparr>va := ptr + of_nat k, args_dram_base := db,
        pa := ucast (ucast (start + total_size node + of_nat k - db) :: u32)\<rparr>)"
proof -
  note r = multi_mmap_drv_Some [OF assms(1-3)]
  let ?t = "unat (total_size node)"
  have "?t + n \<le> unat (pim_mem_size node)" using r(2,4,5) by (simp add: window_ok_def word_le_nat_alt)
  then have k: "?t + k < unat (pim_mem_size node)" using assms(4) by simp
  have ptr: "ptr = base node + of_nat ?t" using assms(1) by (auto simp: multi_mmap_drv_def Let_def split: if_splits)
  have "va_to_pa mm phys (ptr + of_nat k) = Some ((start + total_size node + of_nat k) OR (flags AND PAGE_MASK))"
    using mapped_translates [OF assms(5) k] by (simp add: ptr add.assoc)
  then show ?thesis
    by (simp add: addr_ioctl_def ucast_sub ucast_or assms(6))
qed

text \<open>
  An address that is not mapped is translated all the same: the call reports success, with
  the low bits of an address just below the DRAM base.
\<close>

theorem unmapped_address_reported:
  assumes "walk mm phys (va args) = None"
  shows "addr_ioctl mm phys False False ADDR_TRANS args
    = Some (0, args\<lparr>pa := ucast (ucast (- 1 - args_dram_base args) :: u32)\<rparr>)"
  using assms by (simp add: addr_ioctl_def va_to_pa_def)

text \<open>
  \<^verbatim>\<open>va_to_pa\<close> keeps the flags of the entry that lie above the page offset. On memory mapped
  without execution, whose entries have bit 63 set, the address it gives is never the physical one,
  and the host DMA sends the data elsewhere.
\<close>

theorem translation_keeps_flags:
  assumes "maps mm vm q n flags" "k < n" "bit flags 63" "\<not> bit (q + of_nat k) 63"
  shows "\<exists>x. va_to_pa mm phys (vm + of_nat k) = Some x \<and> x \<noteq> q + of_nat k
    \<and> x AND NOT (flags AND PAGE_MASK) = (q + of_nat k) AND NOT (flags AND PAGE_MASK)"
proof -
  have "bit ((q + of_nat k) OR (flags AND PAGE_MASK)) 63" using assms(3) by (simp add: bit_simps PAGE_MASK_def)
  with assms(4) have "(q + of_nat k) OR (flags AND PAGE_MASK) \<noteq> q + of_nat k" by metis
  moreover have "(x OR y) AND NOT y = x AND NOT y" for x y :: u64 by (rule bit_eqI) (auto simp: bit_simps)
  ultimately show ?thesis using mapped_translates [OF assms(1,2)] by blast
qed

section \<open>The hypotheses hold\<close>

theorem cards_numbered_witness:
  "\<exists>s'. pciem_find_device \<lparr>pdev = 0, fpga_id = 0, mem_start = 0, mem_len = 0, pim_mem_reg = 0\<rparr>
      (Some (Bus [(4, 0x8086), (5, XILINX)] [Bus [] [], Bus [(9, XILINX)] []])) \<lparr>dev_list = [], totalDev = 7, nodes = 3\<rparr> = Some s'
    \<and> find_dev 1 s' = Some 9 \<and> find_dev 2 s' = None"
  using cards_numbered [of "Bus [(4, 0x8086), (5, XILINX)] [Bus [] [], Bus [(9, XILINX)] []]"
      "\<lparr>dev_list = [], totalDev = 7, nodes = 3\<rparr>" "\<lparr>pdev = 0, fpga_id = 0, mem_start = 0, mem_len = 0, pim_mem_reg = 0\<rparr>" 1]
    cards_numbered [of "Bus [(4, 0x8086), (5, XILINX)] [Bus [] [], Bus [(9, XILINX)] []]"
      "\<lparr>dev_list = [], totalDev = 7, nodes = 3\<rparr>" "\<lparr>pdev = 0, fpga_id = 0, mem_start = 0, mem_len = 0, pim_mem_reg = 0\<rparr>" 2]
  by (auto simp: XILINX_def)

text \<open>
  A process that has every address below \<open>2 ^ 48\<close> mapped, to the frame \<open>shift\<close> above it, with the
  flags \<open>flags\<close>.
\<close>

definition linear_mm :: "u64 \<Rightarrow> u64 \<Rightarrow> mm_struct" where
  "linear_mm shift flags = \<lparr>
     pgd = (\<lambda>i. Pgd_table (\<lambda>j. Pud_table (\<lambda>k. Pmd_table (\<lambda>l.
       (of_nat (i * 2 ^ 39 + j * 2 ^ 30 + k * 2 ^ 21 + l * 2 ^ 12) + shift) OR flags)))),
     in_vma = (\<lambda>_. True), as_pmd = (\<lambda>_. Pmd_none)\<rparr>"

lemma four_digits:
  assumes "y = 512 * z1 + r0" "z1 = 512 * z2 + r1" "z2 = 512 * z3 + (r2 :: nat)"
  shows "z3 * 2 ^ 39 + r2 * 2 ^ 30 + r1 * 2 ^ 21 + r0 * 2 ^ 12 = 4096 * y"
  using assms by simp

lemma indices_of_page:
  assumes "x < 2 ^ 48"
  shows "x div 2 ^ 39 mod 512 * 2 ^ 39 + x div 2 ^ 30 mod 512 * 2 ^ 30 + x div 2 ^ 21 mod 512 * 2 ^ 21
    + x div 2 ^ 12 mod 512 * 2 ^ 12 = x - x mod (4096 :: nat)"
proof -
  define y where "y = x div 4096"
  have y: "x div 2 ^ 12 = y" "x div 2 ^ 21 = y div 512" "x div 2 ^ 30 = y div 512 div 512"
      "x div 2 ^ 39 = y div 512 div 512 div 512"
    by (simp_all add: y_def div_mult2_eq [symmetric])
  have "y < 512 * (512 * (512 * 512))" using assms by (simp add: y_def less_mult_imp_div_less)
  then have "y div 512 div 512 div 512 mod 512 = y div 512 div 512 div 512"
    by (simp add: div_mult2_eq [symmetric] less_mult_imp_div_less)
  moreover have "x - x mod 4096 = 4096 * y" by (simp add: y_def minus_mod_eq_mult_div)
  moreover have "m = 512 * (m div 512) + m mod 512" for m :: nat by simp
  ultimately show ?thesis unfolding y by (simp only: four_digits)
qed

lemma page_start: "(x :: u64) AND PAGE_MASK = x - (x AND 0xFFF)"
proof -
  have "x = (x AND PAGE_MASK) + (x AND 0xFFF)"
    unfolding PAGE_MASK_def by (subst disjunctive_add) (auto simp: bit_simps intro: bit_eqI)
  then show ?thesis by (simp only: eq_diff_eq)
qed

lemma page_mask_eq: "(x :: u64) AND PAGE_MASK = of_nat (unat x - unat x mod 4096)"
proof -
  have "x AND PAGE_MASK = x - (x AND 0xFFF)" by (rule page_start)
  also have "\<dots> = of_nat (unat x) - of_nat (unat x mod 4096)" by (simp add: page_part [symmetric])
  also have "\<dots> = of_nat (unat x - unat x mod 4096)" by (simp add: of_nat_diff)
  finally show ?thesis .
qed

lemma linear_maps:
  assumes "unat vm + n \<le> 2 ^ 48" "shift AND 0xFFF = 0" "flags \<noteq> 0"
  shows "maps (linear_mm shift flags) vm (vm + shift) n flags"
proof -
  have page: "(x AND PAGE_MASK) + shift = (x + shift) AND PAGE_MASK" for x
  proof -
    have "(x + shift) AND 0xFFF = x AND 0xFFF" using same_offset [of shift 0 x] assms(2) by (simp add: add.commute)
    then show ?thesis by (simp only: page_start) simp
  qed
  have entry: "of_nat (unat a div 2 ^ 39 mod 512 * 2 ^ 39 + unat a div 2 ^ 30 mod 512 * 2 ^ 30 + unat a div 2 ^ 21 mod 512 * 2 ^ 21
      + unat a div 2 ^ 12 mod 512 * 2 ^ 12) + shift = (a + shift) AND NOT 0xFFF" if "unat a < 2 ^ 48" for a
    using page [of a] by (simp only: indices_of_page [OF that] page_mask_eq [symmetric]) (simp only: PAGE_MASK_def)
  have "unat (vm + of_nat k) < 2 ^ 48" if "k < n" for k
    using assms(1) that by (simp add: unat_word_ariths)
  from entry [OF this] have e: "of_nat (unat (vm + of_nat k) div 2 ^ 39 mod 512 * 2 ^ 39 + unat (vm + of_nat k) div 2 ^ 30 mod 512 * 2 ^ 30
      + unat (vm + of_nat k) div 2 ^ 21 mod 512 * 2 ^ 21 + unat (vm + of_nat k) div 2 ^ 12 mod 512 * 2 ^ 12) + shift
      = (vm + shift + of_nat k) AND NOT 0xFFF" if "k < n" for k
    using that by (simp only: add_ac)
  have "\<exists>puds pmds ptes.
          pgd (linear_mm shift flags) (unat (vm + of_nat k) div 2 ^ 39 mod 512) = Pgd_table puds
          \<and> puds (unat (vm + of_nat k) div 2 ^ 30 mod 512) = Pud_table pmds
          \<and> pmds (unat (vm + of_nat k) div 2 ^ 21 mod 512) = Pmd_table ptes
          \<and> ptes (unat (vm + of_nat k) div 2 ^ 12 mod 512) = (((vm + shift + of_nat k) AND NOT 0xFFF) OR flags)" if "k < n" for k
    unfolding linear_mm_def mm_struct.simps
    by (intro exI conjI, rule refl, rule refl, rule refl, simp only: e [OF that])
  then show ?thesis
    using same_offset [of shift 0 vm] assms(2,3) unfolding maps_def by (simp only: add.commute) simp
qed

theorem regions_translate_witness:
  "\<exists>ptr node' phys. multi_mmap_drv (of_nat 0x2000) demo_window = Some (ptr, node')
    \<and> (\<forall>args. addr_ioctl (linear_mm 0x3F00000000 0x67) phys False False ADDR_TRANS
          (args\<lparr>va := ptr + 0x1234, args_dram_base := 0x4000000000\<rparr>)
        = Some (0, args\<lparr>va := ptr + 0x1234, args_dram_base := 0x4000000000, pa := 0x1234\<rparr>))"
proof -
  let ?node = "demo_window\<lparr>total_size := 0x2000\<rparr>"
  have m: "multi_mmap_drv (of_nat 0x2000) demo_window = Some (0x100000000, ?node)"
    by (simp add: multi_mmap_drv_def demo_window_def)
  have "maps (linear_mm 0x3F00000000 0x67) (base demo_window) 0x4000000000 (unat (pim_mem_size demo_window)) 0x67"
    using linear_maps [of "0x100000000" "0x40000000" "0x3F00000000" "0x67"] by (simp add: demo_window_def)
  from regions_translate [OF m demo_window_ok _ _ this, where k = "0x1234" and db = "0x4000000000"]
  have "addr_ioctl (linear_mm 0x3F00000000 0x67) (\<lambda>_. 0) False False ADDR_TRANS
      (args\<lparr>va := 0x100000000 + 0x1234, args_dram_base := 0x4000000000\<rparr>)
    = Some (0, args\<lparr>va := 0x100000000 + 0x1234, args_dram_base := 0x4000000000, pa := 0x1234\<rparr>)" for args
    by (simp add: PAGE_MASK_def demo_window_def)
  with m show ?thesis by blast
qed

theorem unmapped_address_reported_witness:
  "\<exists>mm phys. \<forall>args. addr_ioctl mm phys False False ADDR_TRANS (args\<lparr>args_dram_base := 0x80000000\<rparr>)
    = Some (0, args\<lparr>args_dram_base := 0x80000000, pa := 0x7FFFFFFF\<rparr>)"
proof -
  let ?mm = "\<lparr>pgd = (\<lambda>_. Pgd_none), in_vma = (\<lambda>_. False), as_pmd = (\<lambda>_. Pmd_none)\<rparr>"
  have "walk ?mm phys a = None" for phys a by (simp add: walk_def)
  from unmapped_address_reported [OF this] show ?thesis
    by (intro exI [of _ ?mm] exI [of _ "\<lambda>_. 0"]) simp
qed

theorem translation_keeps_flags_witness:
  "\<exists>x. va_to_pa (linear_mm 0x3F00000000 0x8000000000000067) (\<lambda>_. 0) 0x100000123 = Some x \<and> x \<noteq> 0x4000000123"
proof -
  have "maps (linear_mm 0x3F00000000 0x8000000000000067) 0x100000000 0x4000000000 0x1000 0x8000000000000067"
    using linear_maps [of "0x100000000" "0x1000" "0x3F00000000" "0x8000000000000067"] by simp
  from translation_keeps_flags [OF this, of "0x123"] show ?thesis by auto
qed

end
