(* ===== verification/Pim_Math.thy ===== *)
theory Pim_Math
  imports Pim_Isa
begin

text \<open>
  The matrix kernels of \<^verbatim>\<open>src/pim_math_src/matmul.c\<close>. Each translates its operands' addresses as
  it walks the matrices, builds the linked list of instructions and starts the engine. A kernel
  is a nest of loops on 32-bit counters; its locals are the fields of \<open>mm_state\<close> behind the
  builder state. Offsets are sums of products reduced modulo \<open>2 ^ 32\<close> when they are stored, hence
  are computed on 32 bits here. The value \<open>None\<close>: the call does not return (a loop whose counter
  wraps, a division by zero, no driver) or has written past the descriptor array.
\<close>

section \<open>State and common parts\<close>

text \<open>
  \<open>A_base\<close>, \<open>B_base\<close>, \<open>C_base\<close> stand for \<^verbatim>\<open>src0_base\<close>, \<^verbatim>\<open>src1_base\<close>, \<^verbatim>\<open>dst_base\<close> in the kernels
  that use these names, \<open>D_base\<close> for \<^verbatim>\<open>src2_base\<close>.
\<close>

record mm_state = isa_state +
  A_base :: u32
  B_base :: u32
  C_base :: u32
  D_base :: u32
  cnt_A :: u64
  cnt_B :: u32
  cnt_C :: u32

type_synonym mm_result = "(int \<times> math_args \<times> mm_state \<times> pl_state) option"

definition mm_start :: "pl_dma_t \<Rightarrow> (u32 \<Rightarrow> pim_isa_t option) \<Rightarrow> mm_state" where
  "mm_start dev isa0 = \<lparr>isa = isa0, idx = 0, nxt = ucast (dev_desc_base dev + 0x40), past_end = False,
     A_base = 0, B_base = 0, C_base = 0, D_base = 0, cnt_A = 0, cnt_B = 0, cnt_C = 0\<rparr>"

text \<open>The end of every kernel. One that has written past the descriptor array has no result.\<close>

definition mm_exec :: "math_env \<Rightarrow> nat \<Rightarrow> math_args \<Rightarrow> mm_state \<Rightarrow> pl_state \<Rightarrow> mm_result" where
  "mm_exec env fpga_id args s st =
     (if past_end s then None
      else let args1 = args\<lparr>desc_idx := idx s - 1, desc_last := nxt s - 0x40\<rparr>
           in case mpim_exec env fpga_id args1 st of
                (ret, args2, st1) \<Rightarrow> Some (if ret < 0 then - 1 else 0, args2, s, st1))"

text \<open>
  The two ways the kernels find the address of an offset: at a multiple of the huge page size
  translate anew, else add to the last base the offset within the page (\<open>seek_mod\<close>) or the whole
  offset (\<open>seek_abs\<close>). The result is the base and the address.
\<close>

definition seek_mod :: "math_env \<Rightarrow> nat \<Rightarrow> u64 \<Rightarrow> u32 \<Rightarrow> u32 \<Rightarrow> (u32 \<times> u32) option" where
  "seek_mod env fpga_id a off base =
     (if off mod HUGE_PAGE = 0 then
        do { b \<leftarrow> VA2PA env fpga_id (a + ucast off); Some (ucast b, ucast b) }
      else Some (base, base + off mod HUGE_PAGE))"

definition seek_abs :: "math_env \<Rightarrow> nat \<Rightarrow> u64 \<Rightarrow> u32 \<Rightarrow> u32 \<Rightarrow> (u32 \<times> u32) option" where
  "seek_abs env fpga_id a off base =
     (if off mod HUGE_PAGE = 0 then
        do { b \<leftarrow> VA2PA env fpga_id (a + ucast off); Some (ucast b, ucast b) }
      else Some (base, base + off))"

definition fused_opcode :: "u32 \<Rightarrow> u32 option" where
  "fused_opcode f = (if f = 10 then Some OPCODE_ELE_ADD
     else if f = 11 then Some OPCODE_ELE_SUB else None)"

section \<open>Silent kernels\<close>

definition r_loop_var :: "u32 \<Rightarrow> u32" where
  "r_loop_var r = ucast (ucast r * 2 div 512 :: u64)"

definition gemm_silent_q :: "math_env \<Rightarrow> nat \<Rightarrow> math_args \<Rightarrow> u32 \<Rightarrow> u32 \<Rightarrow> u32 \<Rightarrow> mm_state \<Rightarrow> mm_state option" where
  "gemm_silent_q env fpga_id args p r q s = do {
     let src0_off = q * TYPE_SIZE + q_size args * TYPE_SIZE * p;
     (b0, src0_pa) \<leftarrow> seek_mod env fpga_id (srcA_va args) src0_off (A_base s);
     let src1_off = q_size args * PIM_WIDTH * r + q * PIM_WIDTH;
     (b1, src1_pa) \<leftarrow> seek_mod env fpga_id (srcB_va args) src1_off (B_base s);
     Some (PIM_RD_INSTR src1_pa (BRAM_DUMMY + src1_off mod 0x40) (REG_SIZE * PIM_WIDTH)
             (RD_B_ATTR OR push_bit 4 OPCODE_MAT_MUL)
          (PIM_RD_INSTR src0_pa (BRAM_DUMMY + src0_off mod 0x40) BURST_SIZE
             (RD_A_ATTR OR push_bit 4 OPCODE_MAT_MUL)
            (s\<lparr>A_base := b0, B_base := b1\<rparr>)))
   }"

definition gemm_silent_r :: "math_env \<Rightarrow> nat \<Rightarrow> math_args \<Rightarrow> u32 \<Rightarrow> u32 \<Rightarrow> mm_state \<Rightarrow> mm_state option" where
  "gemm_silent_r env fpga_id args p r s = do {
     let offset = r * PIM_WIDTH + p * r_size args * TYPE_SIZE;
     (b2, src2_pa) \<leftarrow> seek_abs env fpga_id (bias_va args) offset (D_base s);
     (bd, dst_pa) \<leftarrow> seek_abs env fpga_id (dstC_va args) offset (C_base s);
     s1 \<leftarrow> u32_for REG_SIZE 0 (q_size args) (gemm_silent_q env fpga_id args p r)
       (PIM_RD_INSTR src2_pa (BRAM_DUMMY + offset mod 0x40) PIM_WIDTH (RD_B_ATTR OR push_bit 4 OPCODE_ELE_ADD)
         (s\<lparr>D_base := b2, C_base := bd\<rparr>));
     Some (PIM_WR_INSTR (BRAM_DUMMY + offset mod 0x40) dst_pa PIM_WIDTH (WR_C_ATTR OR push_bit 4 OPCODE_MAT_MUL) s1)
   }"

definition gemm_silent :: "math_env \<Rightarrow> nat \<Rightarrow> math_args \<Rightarrow> (u32 \<Rightarrow> pim_isa_t option) \<Rightarrow> pl_state \<Rightarrow> mm_result" where
  "gemm_silent env fpga_id args isa0 st = do {
     dev \<leftarrow> pl_dev env fpga_id;
     s \<leftarrow> u32_for 1 0 (p_size args)
       (\<lambda>p. u32_for 1 0 (r_loop_var (r_size args)) (gemm_silent_r env fpga_id args p)) (mm_start dev isa0);
     mm_exec env fpga_id args s st
   }"

definition fusion_silent_q :: "math_env \<Rightarrow> nat \<Rightarrow> math_args \<Rightarrow> u32 \<Rightarrow> u32 \<Rightarrow> u32 \<Rightarrow> mm_state \<Rightarrow> mm_state option" where
  "fusion_silent_q env fpga_id args p r q s = do {
     let src0_off = q * TYPE_SIZE + q_size args * TYPE_SIZE * p;
     (b0, src0_pa) \<leftarrow> seek_abs env fpga_id (srcA_va args) src0_off (A_base s);
     let src1_off = q_size args * PIM_WIDTH * r + q * PIM_WIDTH;
     (b1, src1_pa) \<leftarrow> seek_abs env fpga_id (srcB_va args) src1_off (B_base s);
     Some (PIM_RD_INSTR src1_pa (BRAM_DUMMY + src1_off mod 0x40) (REG_SIZE * PIM_WIDTH)
             (RD_B_ATTR OR push_bit 4 OPCODE_MAT_MUL)
          (PIM_RD_INSTR src0_pa (BRAM_DUMMY + src0_off mod 0x40) BURST_SIZE
             (RD_A_ATTR OR push_bit 4 OPCODE_MAT_MUL)
            (s\<lparr>A_base := b0, B_base := b1\<rparr>)))
   }"

definition fusion_silent_r :: "math_env \<Rightarrow> nat \<Rightarrow> math_args \<Rightarrow> u32 \<Rightarrow> u32 \<Rightarrow> u32 \<Rightarrow> mm_state \<Rightarrow> mm_state option" where
  "fusion_silent_r env fpga_id args op p r s = do {
     let offset = r * PIM_WIDTH + p * r_size args * TYPE_SIZE;
     (b2, src2_pa) \<leftarrow> seek_abs env fpga_id (bias_va args) offset (D_base s);
     (bd, dst_pa) \<leftarrow> seek_abs env fpga_id (dstC_va args) offset (C_base s);
     s1 \<leftarrow> u32_for REG_SIZE 0 (q_size args) (fusion_silent_q env fpga_id args p r)
       (PIM_RD_INSTR src2_pa (BRAM_DUMMY + offset mod 0x40) PIM_WIDTH (RD_B_ATTR OR push_bit 4 op)
         (s\<lparr>D_base := b2, C_base := bd\<rparr>));
     Some (PIM_WR_INSTR (BRAM_DUMMY + offset mod 0x40) dst_pa PIM_WIDTH (WR_C_ATTR OR push_bit 4 OPCODE_MAT_MUL) s1)
   }"

text \<open>A fused operation other than addition or subtraction is refused before anything is built.\<close>

definition matmul_fusion_silent :: "math_env \<Rightarrow> nat \<Rightarrow> math_args \<Rightarrow> (u32 \<Rightarrow> pim_isa_t option) \<Rightarrow> mm_state \<Rightarrow> pl_state \<Rightarrow> mm_result" where
  "matmul_fusion_silent env fpga_id args isa0 junk st =
     (case fused_opcode (fused_op args) of
        None \<Rightarrow> Some (- 1, args, junk\<lparr>isa := isa0\<rparr>, st)
      | Some op \<Rightarrow> do {
          dev \<leftarrow> pl_dev env fpga_id;
          s \<leftarrow> u32_for 1 0 (p_size args)
            (\<lambda>p. u32_for 1 0 (r_loop_var (r_size args)) (fusion_silent_r env fpga_id args op p)) (mm_start dev isa0);
          mm_exec env fpga_id args s st
        })"

section \<open>Decoupled kernels\<close>

text \<open>\<^verbatim>\<open>x % y\<close> traps when \<open>y\<close> is 0.\<close>

definition u32_rem :: "u32 \<Rightarrow> u32 \<Rightarrow> u32 option" where
  "u32_rem a b = (if b = 0 then None else Some (a mod b))"

definition u64_rem :: "u64 \<Rightarrow> u64 \<Rightarrow> u64 option" where
  "u64_rem a b = (if b = 0 then None else Some (a mod b))"

definition TILE_LEN :: u32 where "TILE_LEN = REG_SIZE * REG_SIZE * TYPE_SIZE"
definition VEC_LEN :: u32 where "VEC_LEN = REG_SIZE * NUM_BANKS * TYPE_SIZE"

definition rd_dec :: "u32 \<Rightarrow> u32" where "rd_dec attr = attr OR push_bit 4 OPCODE_MAT_MUL_DECOUPLED_8x4"

definition matmul_decoupled_q :: "math_env \<Rightarrow> nat \<Rightarrow> math_args \<Rightarrow> u32 \<Rightarrow> u32 \<Rightarrow> mm_state \<Rightarrow> mm_state option" where
  "matmul_decoupled_q env fpga_id args p q s = do {
     a_rem \<leftarrow> u32_rem (cnt_B s) (q_size args * r_size args);
     b_rem \<leftarrow> u64_rem (ucast (p * q_size args) + cnt_A s) (ucast (p_size args * q_size args));
     let A_off = a_rem * TYPE_SIZE;
     let B_off = ucast b_rem * TYPE_SIZE;
     (bb, B_pa) \<leftarrow> seek_mod env fpga_id (srcB_va args) B_off (B_base s);
     (ba, A_pa) \<leftarrow> seek_mod env fpga_id (srcA_va args) A_off (A_base s);
     Some (PIM_RD_INSTR B_pa (BRAM_DUMMY + B_off mod 0x40) VEC_LEN (rd_dec RD_B_ATTR)
          (PIM_RD_INSTR A_pa (BRAM_DUMMY + A_off mod 0x40) TILE_LEN (rd_dec RD_A_ATTR)
            (s\<lparr>B_base := bb, A_base := ba, cnt_B := cnt_B s + 256, cnt_A := cnt_A s + 65536\<rparr>)))
   }"

text \<open>The end of a tile: its result goes to the next \<^verbatim>\<open>REG_SIZE * NUM_BANKS\<close> elements of C.\<close>

definition tile_out :: "math_env \<Rightarrow> nat \<Rightarrow> math_args \<Rightarrow> mm_state \<Rightarrow> mm_state option" where
  "tile_out env fpga_id args s1 = do {
     let C_off = cnt_C s1 * TYPE_SIZE;
     (bc, C_pa) \<leftarrow> seek_mod env fpga_id (dstC_va args) C_off (C_base s1);
     Some (PIM_WR_INSTR (BRAM_DUMMY + C_off mod 0x40) C_pa VEC_LEN (rd_dec WR_C_ATTR)
            (s1\<lparr>C_base := bc, cnt_C := cnt_C s1 + REG_SIZE * NUM_BANKS\<rparr>))
   }"

definition matmul_decoupled_r :: "math_env \<Rightarrow> nat \<Rightarrow> math_args \<Rightarrow> u32 \<Rightarrow> u32 \<Rightarrow> mm_state \<Rightarrow> mm_state option" where
  "matmul_decoupled_r env fpga_id args p r s = do {
     s1 \<leftarrow> u32_for REG_SIZE 0 (q_size args) (matmul_decoupled_q env fpga_id args p) (s\<lparr>cnt_A := 0\<rparr>);
     tile_out env fpga_id args s1
   }"

definition matmul_decoupled :: "math_env \<Rightarrow> nat \<Rightarrow> math_args \<Rightarrow> (u32 \<Rightarrow> pim_isa_t option) \<Rightarrow> pl_state \<Rightarrow> mm_result" where
  "matmul_decoupled env fpga_id args isa0 st = do {
     dev \<leftarrow> pl_dev env fpga_id;
     s \<leftarrow> u32_for REG_SIZE 0 (p_size args)
       (\<lambda>p. u32_for NUM_BANKS 0 (r_size args) (matmul_decoupled_r env fpga_id args p)) (mm_start dev isa0);
     mm_exec env fpga_id args s st
   }"

definition gemm_decoupled_q :: "math_env \<Rightarrow> nat \<Rightarrow> math_args \<Rightarrow> u32 \<Rightarrow> u32 \<Rightarrow> mm_state \<Rightarrow> mm_state option" where
  "gemm_decoupled_q env fpga_id args p q s = do {
     b_rem \<leftarrow> u32_rem (cnt_B s) (q_size args * r_size args);
     let B_off = b_rem * TYPE_SIZE;
     (bb, B_pa) \<leftarrow> seek_mod env fpga_id (srcB_va args) B_off (B_base s);
     a_rem \<leftarrow> u64_rem (ucast (p * q_size args) + cnt_A s) (ucast (p_size args * q_size args));
     let A_off = ucast a_rem * TYPE_SIZE;
     (ba, A_pa) \<leftarrow> seek_mod env fpga_id (srcA_va args) A_off (A_base s);
     Some (PIM_RD_INSTR A_pa (BRAM_DUMMY + A_off mod 0x40) TILE_LEN (rd_dec RD_A_ATTR)
          (PIM_RD_INSTR B_pa (BRAM_DUMMY + B_off mod 0x40) VEC_LEN (rd_dec RD_B_ATTR)
            (s\<lparr>B_base := bb, A_base := ba, cnt_B := cnt_B s + 256, cnt_A := cnt_A s + 65536\<rparr>)))
   }"

definition gemm_decoupled_r :: "math_env \<Rightarrow> nat \<Rightarrow> math_args \<Rightarrow> u32 \<Rightarrow> u32 \<Rightarrow> mm_state \<Rightarrow> mm_state option" where
  "gemm_decoupled_r env fpga_id args p r s = do {
     s1 \<leftarrow> u32_for REG_SIZE 0 (q_size args) (gemm_decoupled_q env fpga_id args p) (s\<lparr>cnt_A := 0\<rparr>);
     tile_out env fpga_id args s1
   }"

text \<open>The second phase of \<^verbatim>\<open>_gemm_decoupled\<close> adds the bias to the result, 512 elements at a time.\<close>

definition r_aligned :: "u32 \<Rightarrow> u32" where
  "r_aligned r = (if r AND 0x1F \<noteq> 0 then (r div 32 + 1) * 32 else r)"

definition gemm_add_r :: "math_env \<Rightarrow> nat \<Rightarrow> math_args \<Rightarrow> u32 \<Rightarrow> u32 \<Rightarrow> mm_state \<Rightarrow> mm_state option" where
  "gemm_add_r env fpga_id args p r s = do {
     let offset = p * r_aligned (r_size args) * TYPE_SIZE + r * TYPE_SIZE;
     (ba, A_pa) \<leftarrow> seek_abs env fpga_id (bias_va args) offset (A_base s);
     (bb, B_pa) \<leftarrow> seek_abs env fpga_id (dstC_va args) offset (B_base s);
     (bc, C_pa) \<leftarrow> seek_abs env fpga_id (dstC_va args) offset (C_base s);
     Some (PIM_WR_INSTR BRAM_DUMMY C_pa VEC_LEN (WR_C_ATTR OR push_bit 4 OPCODE_ELE_ADD)
          (PIM_RD_INSTR B_pa BRAM_DUMMY VEC_LEN (RD_B_ATTR OR push_bit 4 OPCODE_ELE_ADD)
          (PIM_RD_INSTR A_pa BRAM_DUMMY VEC_LEN (RD_A_ATTR OR push_bit 4 OPCODE_ELE_ADD)
            (s\<lparr>A_base := ba, B_base := bb, C_base := bc\<rparr>))))
   }"

definition gemm_decoupled :: "math_env \<Rightarrow> nat \<Rightarrow> math_args \<Rightarrow> (u32 \<Rightarrow> pim_isa_t option) \<Rightarrow> pl_state \<Rightarrow> mm_result" where
  "gemm_decoupled env fpga_id args isa0 st = do {
     dev \<leftarrow> pl_dev env fpga_id;
     s1 \<leftarrow> u32_for REG_SIZE 0 (p_size args)
       (\<lambda>p. u32_for NUM_BANKS 0 (r_size args) (gemm_decoupled_r env fpga_id args p)) (mm_start dev isa0);
     s2 \<leftarrow> u32_for 1 0 (p_size args)
       (\<lambda>p. u32_for 512 0 (r_size args) (gemm_add_r env fpga_id args p)) s1;
     mm_exec env fpga_id args s2 st
   }"

definition fusion_decoupled_q :: "math_env \<Rightarrow> nat \<Rightarrow> math_args \<Rightarrow> u32 \<Rightarrow> u32 \<Rightarrow> mm_state \<Rightarrow> mm_state option" where
  "fusion_decoupled_q env fpga_id args p q s = do {
     b_rem \<leftarrow> u32_rem (cnt_B s) (q_size args * r_size args);
     let src1_off = b_rem * TYPE_SIZE;
     (b1, src1_pa) \<leftarrow> seek_abs env fpga_id (srcB_va args) src1_off (B_base s);
     a_rem \<leftarrow> u64_rem (ucast (p * q_size args) + cnt_A s) (ucast (p_size args * q_size args));
     let src0_off = ucast a_rem * TYPE_SIZE;
     (b0, src0_pa) \<leftarrow> seek_abs env fpga_id (srcA_va args) src0_off (A_base s);
     Some (PIM_RD_INSTR src0_pa (BRAM_DUMMY + src0_off mod 0x40) TILE_LEN (rd_dec RD_A_ATTR)
          (PIM_RD_INSTR src1_pa (BRAM_DUMMY + src1_off mod 0x40) VEC_LEN (rd_dec RD_B_ATTR)
            (s\<lparr>B_base := b1, A_base := b0, cnt_B := cnt_B s + 512, cnt_A := cnt_A s + 65536\<rparr>)))
   }"

definition fusion_decoupled_r :: "math_env \<Rightarrow> nat \<Rightarrow> math_args \<Rightarrow> u32 \<Rightarrow> u32 \<Rightarrow> u32 \<Rightarrow> mm_state \<Rightarrow> mm_state option" where
  "fusion_decoupled_r env fpga_id args op p r s = do {
     let offset = cnt_C s * TYPE_SIZE;
     (b2, src2_pa) \<leftarrow> seek_abs env fpga_id (bias_va args) offset (D_base s);
     (bd, dst_pa) \<leftarrow> seek_abs env fpga_id (dstC_va args) offset (C_base s);
     s1 \<leftarrow> u32_for REG_SIZE 0 (q_size args) (fusion_decoupled_q env fpga_id args p)
       (PIM_RD_INSTR src2_pa BRAM_DUMMY VEC_LEN (RD_B_ATTR OR push_bit 4 op)
         (s\<lparr>cnt_A := 0, D_base := b2, C_base := bd, cnt_C := cnt_C s + REG_SIZE * NUM_BANKS\<rparr>));
     Some (PIM_WR_INSTR (BRAM_DUMMY + offset mod 0x40) dst_pa VEC_LEN (rd_dec WR_C_ATTR) s1)
   }"

definition matmul_fusion_decoupled :: "math_env \<Rightarrow> nat \<Rightarrow> math_args \<Rightarrow> (u32 \<Rightarrow> pim_isa_t option) \<Rightarrow> mm_state \<Rightarrow> pl_state \<Rightarrow> mm_result" where
  "matmul_fusion_decoupled env fpga_id args isa0 junk st =
     (case fused_opcode (fused_op args) of
        None \<Rightarrow> Some (- 1, args, junk\<lparr>isa := isa0\<rparr>, st)
      | Some op \<Rightarrow> do {
          dev \<leftarrow> pl_dev env fpga_id;
          s \<leftarrow> u32_for REG_SIZE 0 (p_size args)
            (\<lambda>p. u32_for NUM_BANKS 0 (r_size args) (fusion_decoupled_r env fpga_id args op p)) (mm_start dev isa0);
          mm_exec env fpga_id args s st
        })"

text \<open>The library's entries; a fused product of up to 16 rows takes the decoupled kernel.\<close>

definition matmul_tiled :: "math_env \<Rightarrow> nat \<Rightarrow> math_args \<Rightarrow> (u32 \<Rightarrow> pim_isa_t option) \<Rightarrow> pl_state \<Rightarrow> mm_result" where
  "matmul_tiled env fpga_id args isa0 st = matmul_decoupled env fpga_id args isa0 st"

definition gemm :: "math_env \<Rightarrow> nat \<Rightarrow> math_args \<Rightarrow> (u32 \<Rightarrow> pim_isa_t option) \<Rightarrow> pl_state \<Rightarrow> mm_result" where
  "gemm env fpga_id args isa0 st = gemm_silent env fpga_id args isa0 st"

definition matmul_fusion :: "math_env \<Rightarrow> nat \<Rightarrow> math_args \<Rightarrow> (u32 \<Rightarrow> pim_isa_t option) \<Rightarrow> mm_state \<Rightarrow> pl_state \<Rightarrow> mm_result" where
  "matmul_fusion env fpga_id args isa0 junk st =
     (if p_size args > 32 div 2 then matmul_fusion_silent env fpga_id args isa0 junk st
      else matmul_fusion_decoupled env fpga_id args isa0 junk st)"

end
