(* ===== verification/Pim_Kernels.thy ===== *)
theory Pim_Kernels
  imports Pim_Math
begin

text \<open>
  What the matrix kernels build: how many instructions, that they are linked and handed to the
  engine, and, for the silent \<^verbatim>\<open>gemm\<close>, exactly which.
\<close>

section \<open>Counting\<close>

lemma instr_puts:
  "PIM_RD_INSTR src dst n op s = put_instr (src, dst, n, op) s"
  "PIM_WR_INSTR src dst n op s = put_instr (src, dst, n, op) s"
  "RdPimCode src dst n op s = put_instr (src, dst, n, op) s"
  "RdPimReg src dst n op s = put_instr (src, dst, n, op) s"
  "WrPimReg src dst n op s = put_instr (src, dst, n, op) s"
  by (simp_all add: put_defs put_instr_def)

lemma chained_locals [simp]:
  "chained base ds (s\<lparr>A_base := a\<rparr>) = chained base ds s"
  "chained base ds (s\<lparr>B_base := a\<rparr>) = chained base ds s"
  "chained base ds (s\<lparr>C_base := a\<rparr>) = chained base ds s"
  "chained base ds (s\<lparr>D_base := a\<rparr>) = chained base ds s"
  "chained base ds (s\<lparr>cnt_A := w\<rparr>) = chained base ds s"
  "chained base ds (s\<lparr>cnt_B := a\<rparr>) = chained base ds s"
  "chained base ds (s\<lparr>cnt_C := a\<rparr>) = chained base ds s"
  by (simp_all add: chained_def)

lemma locals_put [simp]:
  "A_base (put_instr i s) = A_base s" "B_base (put_instr i s) = B_base s"
  "C_base (put_instr i s) = C_base s" "D_base (put_instr i s) = D_base s"
  "cnt_A (put_instr i s) = cnt_A s" "cnt_B (put_instr i s) = cnt_B s" "cnt_C (put_instr i s) = cnt_C s"
  by (simp_all add: put_instr_def put_desc_def split: prod.splits)


lemma seek_mod_some: "pl_dev env d = Some dev \<Longrightarrow> \<exists>b pa. seek_mod env d a off base = Some (b, pa)"
  by (auto simp: seek_mod_def VA2PA_def)

lemma seek_abs_some: "pl_dev env d = Some dev \<Longrightarrow> \<exists>b pa. seek_abs env d a off base = Some (b, pa)"
  by (auto simp: seek_abs_def VA2PA_def)

lemma ucast_add_down: "(ucast (a + b :: u64) :: u32) = ucast a + ucast b"
proof -
  have "unat (ucast (a + b) :: u32) = unat (ucast a + ucast b :: u32)"
    by (simp add: unat_word_ariths unsigned_ucast_eq take_bit_eq_mod mod_mod_cancel mod_add_eq)
  then show ?thesis by (simp only: word_unat_eq_iff)
qed

lemma chained_mm_start: "chained (ucast (dev_desc_base dev)) [] (mm_start dev isa0)"
  by (rule chained_start) (simp_all add: mm_start_def ucast_add_down)

text \<open>A computation is \<open>grown\<close> if it returns with \<open>n\<close> more instructions behind \<open>ds\<close>.\<close>

definition grown :: "u32 \<Rightarrow> instr list \<Rightarrow> nat \<Rightarrow> mm_state option \<Rightarrow> bool" where
  "grown base ds n res \<longleftrightarrow> (\<exists>s' es. res = Some s' \<and> chained base (ds @ es) s' \<and> length es = n)"

lemma grown_puts:
  assumes "chained base ds s" "length ds + length is < 2 ^ 32"
  shows "grown base ds (length is) (Some (fold put_instr is s))"
  using dl.emits_hold [OF assms] by (auto simp: grown_def)

lemma grown_put1:
  "chained base ds s \<Longrightarrow> length ds + 1 < 2 ^ 32 \<Longrightarrow> grown base ds 1 (Some (put_instr i s))"
  using grown_puts [of base ds s "[i]"] by simp

lemma grown_put2:
  "chained base ds s \<Longrightarrow> length ds + 2 < 2 ^ 32 \<Longrightarrow> grown base ds 2 (Some (put_instr j (put_instr i s)))"
  using grown_puts [of base ds s "[i, j]"] by (simp add: numeral_2_eq_2)

lemma grown_put3:
  "chained base ds s \<Longrightarrow> length ds + 3 < 2 ^ 32 \<Longrightarrow>
    grown base ds 3 (Some (put_instr k (put_instr j (put_instr i s))))"
  using grown_puts [of base ds s "[i, j, k]"] by (simp add: numeral_3_eq_3)

lemma grown_loop:
  assumes "0 < step" "unat bound + unat step \<le> 2 ^ 32"
    and "\<And>k ds s. k < trips step bound \<Longrightarrow> chained base ds s \<Longrightarrow> length ds + c < 2 ^ 32 \<Longrightarrow>
      grown base ds c (body (of_nat (k * unat step)) s)"
    and "chained base ds s" "length ds + trips step bound * c < 2 ^ 32"
  shows "grown base ds (trips step bound * c) (u32_for step 0 bound body s)"
  using dl.loop_count [OF assms(1,2), of base c body ds s] assms(3-5) unfolding grown_def by blast

lemma grown_bind:
  assumes "grown base ds n res" and "\<And>s es. chained base (ds @ es) s \<Longrightarrow> length es = n \<Longrightarrow> grown base (ds @ es) k (f s)"
    and "m = n + k"
  shows "grown base ds m (Option.bind res f)"
proof -
  from assms(1) obtain s es where s: "res = Some s" "chained base (ds @ es) s" "length es = n"
    by (auto simp: grown_def)
  from assms(2) [OF s(2,3)] obtain t fs where "f s = Some t" "chained base (ds @ (es @ fs)) t" "length fs = k"
    by (auto simp: grown_def)
  then show ?thesis using s assms(3) unfolding grown_def
    by (intro exI [of _ t] exI [of _ "es @ fs"]) simp
qed

lemma grown_put_last:
  assumes "grown base ds n res" and "length ds + Suc n < 2 ^ 32" and "m = Suc n"
  shows "grown base ds m (Option.bind res (\<lambda>s. Some (put_instr (i s) s)))"
  by (rule grown_bind [OF assms(1), where k = 1]) (use assms(2,3) in \<open>auto intro!: grown_put1 [simplified]\<close>)

lemma grown_after:
  assumes "grown base (ds @ [i]) n res" "m = Suc n"
  shows "grown base ds m res"
  using assms by (fastforce simp: grown_def)

lemma step_sizes [simp]: "0 < REG_SIZE" "0 < NUM_BANKS" "unat REG_SIZE = 256" "unat NUM_BANKS = 16"
  by (simp_all add: isa_consts)

lemma step1: "unat (n :: u32) + unat (1 :: u32) \<le> 2 ^ 32"
proof -
  have "unat n < 2 ^ 32" by simp
  then show ?thesis unfolding unat_1 by linarith
qed

lemma trips1 [simp]: "trips 1 n = unat n"
  by (simp add: trips_def)

subsection \<open>Silent kernels\<close>

lemma gemm_silent_q_grown:
  assumes "pl_dev env d = Some dev" "chained base ds s" "length ds + 2 < 2 ^ 32"
  shows "grown base ds 2 (gemm_silent_q env d args p r q s)"
proof -
  obtain b0 pa0 where "seek_mod env d (srcA_va args) (q * TYPE_SIZE + q_size args * TYPE_SIZE * p) (A_base s) = Some (b0, pa0)"
    using seek_mod_some [OF assms(1)] by blast
  moreover obtain b1 pa1 where "seek_mod env d (srcB_va args) (q_size args * PIM_WIDTH * r + q * PIM_WIDTH) (B_base s) = Some (b1, pa1)"
    using seek_mod_some [OF assms(1)] by blast
  ultimately show ?thesis
    unfolding gemm_silent_q_def instr_puts Let_def using assms(2,3) by (simp add: grown_put2)
qed

lemma gemm_silent_r_first:
  assumes "pl_dev env d = Some dev" "chained base ds s" "unat (q_size args) + 256 \<le> 2 ^ 32"
    and "length ds + (2 + 2 * trips REG_SIZE (q_size args)) < 2 ^ 32"
    and s2: "seek_abs env d (bias_va args) (r * PIM_WIDTH + p * r_size args * TYPE_SIZE) (D_base s) = Some (b2, pa2)"
  shows "grown base (ds @ [(pa2, BRAM_DUMMY + (r * PIM_WIDTH + p * r_size args * TYPE_SIZE) mod 0x40, PIM_WIDTH,
      RD_B_ATTR OR push_bit 4 OPCODE_ELE_ADD)]) (1 + 2 * trips REG_SIZE (q_size args)) (gemm_silent_r env d args p r s)"
proof -
  let ?off = "r * PIM_WIDTH + p * r_size args * TYPE_SIZE"
  obtain bd pad where sd: "seek_abs env d (dstC_va args) ?off (C_base s) = Some (bd, pad)"
    using seek_abs_some [OF assms(1)] by blast
  let ?i = "(pa2, BRAM_DUMMY + ?off mod 0x40, PIM_WIDTH, RD_B_ATTR OR push_bit 4 OPCODE_ELE_ADD)"
  let ?s = "put_instr ?i (s\<lparr>D_base := b2, C_base := bd\<rparr>)"
  have eq: "gemm_silent_r env d args p r s =
      Option.bind (u32_for REG_SIZE 0 (q_size args) (gemm_silent_q env d args p r) ?s)
        (\<lambda>s1. Some (put_instr (BRAM_DUMMY + ?off mod 0x40, pad, PIM_WIDTH,
           WR_C_ATTR OR push_bit 4 OPCODE_MAT_MUL) s1))"
    unfolding gemm_silent_r_def Let_def s2 sd instr_puts by simp
  have "chained base (ds @ [?i]) ?s"
    using assms(2,4) by (intro dl.emit_holds) simp_all
  then have "grown base (ds @ [?i]) (trips REG_SIZE (q_size args) * 2)
      (u32_for REG_SIZE 0 (q_size args) (gemm_silent_q env d args p r) ?s)"
    using assms(3,4) by (intro grown_loop gemm_silent_q_grown [OF assms(1)]) simp_all
  then show ?thesis unfolding eq by (rule grown_put_last) (use assms(4) in simp_all)
qed

lemma gemm_silent_r_grown:
  assumes "pl_dev env d = Some dev" "chained base ds s" "unat (q_size args) + 256 \<le> 2 ^ 32"
    and "length ds + (2 + 2 * trips REG_SIZE (q_size args)) < 2 ^ 32"
  shows "grown base ds (2 + 2 * trips REG_SIZE (q_size args)) (gemm_silent_r env d args p r s)"
proof -
  obtain b2 pa2 where
    "seek_abs env d (bias_va args) (r * PIM_WIDTH + p * r_size args * TYPE_SIZE) (D_base s) = Some (b2, pa2)"
    using seek_abs_some [OF assms(1)] by blast
  from gemm_silent_r_first [OF assms this] show ?thesis by (rule grown_after) simp
qed

lemma gemm_silent_r_bases:
  assumes "gemm_silent_r env d args p r s = Some s'"
    and "seek_abs env d (bias_va args) (r * PIM_WIDTH + p * r_size args * TYPE_SIZE) (D_base s) = Some (b2, pa2)"
  shows "D_base s' = b2"
proof -
  let ?off = "r * PIM_WIDTH + p * r_size args * TYPE_SIZE"
  from assms obtain bd pad t where
    t: "u32_for REG_SIZE 0 (q_size args) (gemm_silent_q env d args p r)
        (put_instr (pa2, BRAM_DUMMY + ?off mod 0x40, PIM_WIDTH, RD_B_ATTR OR push_bit 4 OPCODE_ELE_ADD)
          (s\<lparr>D_base := b2, C_base := bd\<rparr>)) = Some t"
    and s': "s' = put_instr (BRAM_DUMMY + ?off mod 0x40, pad, PIM_WIDTH, WR_C_ATTR OR push_bit 4 OPCODE_MAT_MUL) t"
    unfolding gemm_silent_r_def Let_def instr_puts by (auto simp: Option.bind_eq_Some_conv)
  have "D_base t = b2"
    by (rule u32_for_preserves [OF t])
      (auto simp: gemm_silent_q_def Let_def instr_puts Option.bind_eq_Some_conv)
  then show ?thesis using s' by simp
qed

lemma p_loop_grown:
  assumes body: "\<And>p r ds s. chained base ds s \<Longrightarrow> length ds + c < 2 ^ 32 \<Longrightarrow> grown base ds c (body p r s)"
    and step: "0 < ps" "0 < rs" "unat P + unat ps \<le> 2 ^ 32" "unat R + unat rs \<le> 2 ^ 32"
    and s: "chained base ds s" and room: "length ds + trips ps P * (trips rs R * c) < 2 ^ 32"
  shows "grown base ds (trips ps P * (trips rs R * c)) (u32_for ps 0 P (\<lambda>p. u32_for rs 0 R (body p)) s)"
proof (rule grown_loop [OF step(1,3) _ s room])
  fix k ds' and s' :: mm_state assume "chained base ds' s'" "length ds' + trips rs R * c < 2 ^ 32"
  then show "grown base ds' (trips rs R * c) (u32_for rs 0 R (body (of_nat (k * unat ps))) s')"
    using body by (intro grown_loop [OF step(2,4)])
qed

lemma fusion_silent_q_grown:
  assumes "pl_dev env d = Some dev" "chained base ds s" "length ds + 2 < 2 ^ 32"
  shows "grown base ds 2 (fusion_silent_q env d args p r q s)"
proof -
  obtain b0 pa0 where "seek_abs env d (srcA_va args) (q * TYPE_SIZE + q_size args * TYPE_SIZE * p) (A_base s) = Some (b0, pa0)"
    using seek_abs_some [OF assms(1)] by blast
  moreover obtain b1 pa1 where "seek_abs env d (srcB_va args) (q_size args * PIM_WIDTH * r + q * PIM_WIDTH) (B_base s) = Some (b1, pa1)"
    using seek_abs_some [OF assms(1)] by blast
  ultimately show ?thesis
    unfolding fusion_silent_q_def instr_puts Let_def using assms(2,3) by (simp add: grown_put2)
qed

lemma fusion_silent_r_grown:
  assumes "pl_dev env d = Some dev" "chained base ds s" "unat (q_size args) + 256 \<le> 2 ^ 32"
    and "length ds + (2 + 2 * trips REG_SIZE (q_size args)) < 2 ^ 32"
  shows "grown base ds (2 + 2 * trips REG_SIZE (q_size args)) (fusion_silent_r env d args op p r s)"
proof -
  let ?off = "r * PIM_WIDTH + p * r_size args * TYPE_SIZE"
  obtain b2 pa2 where s2: "seek_abs env d (bias_va args) ?off (D_base s) = Some (b2, pa2)"
    using seek_abs_some [OF assms(1)] by blast
  obtain bd pad where sd: "seek_abs env d (dstC_va args) ?off (C_base s) = Some (bd, pad)"
    using seek_abs_some [OF assms(1)] by blast
  let ?i = "(pa2, BRAM_DUMMY + ?off mod 0x40, PIM_WIDTH, RD_B_ATTR OR push_bit 4 op)"
  let ?s = "put_instr ?i (s\<lparr>D_base := b2, C_base := bd\<rparr>)"
  have eq: "fusion_silent_r env d args op p r s =
      Option.bind (u32_for REG_SIZE 0 (q_size args) (fusion_silent_q env d args p r) ?s)
        (\<lambda>s1. Some (put_instr (BRAM_DUMMY + ?off mod 0x40, pad, PIM_WIDTH,
           WR_C_ATTR OR push_bit 4 OPCODE_MAT_MUL) s1))"
    unfolding fusion_silent_r_def Let_def s2 sd instr_puts by simp
  have "chained base (ds @ [?i]) ?s"
    using assms(2,4) by (intro dl.emit_holds) simp_all
  then have "grown base (ds @ [?i]) (trips REG_SIZE (q_size args) * 2)
      (u32_for REG_SIZE 0 (q_size args) (fusion_silent_q env d args p r) ?s)"
    using assms(3,4) by (intro grown_loop fusion_silent_q_grown [OF assms(1)]) simp_all
  then have "grown base (ds @ [?i]) (1 + 2 * trips REG_SIZE (q_size args)) (fusion_silent_r env d args op p r s)"
    unfolding eq by (rule grown_put_last) (use assms(4) in simp_all)
  then show ?thesis by (rule grown_after) simp
qed

subsection \<open>Decoupled kernels\<close>

lemma unat_ucast_up [simp]: "unat (ucast (e :: u32) :: u64) = unat e"
proof -
  have "unat e < 2 ^ 64" using u32_bound [of e] by (rule less_trans) simp
  then show ?thesis by (simp add: unsigned_ucast_eq take_bit_nat_eq_self)
qed

lemma ucast_down_up [simp]: "(ucast (ucast (w :: u32) :: u64) :: u32) = w"
proof -
  have "unat (ucast x :: u32) = take_bit 32 (unat x)" for x :: u64 by (simp add: unsigned_ucast_eq)
  then have "unat (ucast (ucast w :: u64) :: u32) = take_bit 32 (unat w)" by (simp only: unat_ucast_up)
  also have "\<dots> = unat w" by (simp add: take_bit_nat_eq_self)
  finally show ?thesis by (simp only: word_unat_eq_iff)
qed

lemma ucast_up_0: "(ucast (e :: u32) :: u64) = 0 \<longleftrightarrow> e = 0"
  by (metis unat_ucast_up unat_eq_zero unsigned_0)

lemma rem_some:
  "b \<noteq> 0 \<Longrightarrow> \<exists>x. u32_rem a b = Some x" "e \<noteq> 0 \<Longrightarrow> \<exists>x. u64_rem c (ucast (e :: u32)) = Some x"
  by (simp_all add: u32_rem_def u64_rem_def ucast_up_0)

lemma matmul_decoupled_q_grown:
  assumes "pl_dev env d = Some dev" "q_size args * r_size args \<noteq> 0" "p_size args * q_size args \<noteq> 0"
    and "chained base ds s" "length ds + 2 < 2 ^ 32"
  shows "grown base ds 2 (matmul_decoupled_q env d args p q s)"
proof -
  obtain a where a: "u32_rem (cnt_B s) (q_size args * r_size args) = Some a"
    using rem_some(1) [OF assms(2)] by blast
  obtain b where b: "u64_rem (ucast (p * q_size args) + cnt_A s) (ucast (p_size args * q_size args)) = Some b"
    using rem_some(2) [OF assms(3)] by blast
  obtain b0 pa0 where "seek_mod env d (srcB_va args) (ucast b * TYPE_SIZE) (B_base s) = Some (b0, pa0)"
    using seek_mod_some [OF assms(1)] by blast
  moreover obtain b1 pa1 where "seek_mod env d (srcA_va args) (a * TYPE_SIZE) (A_base s) = Some (b1, pa1)"
    using seek_mod_some [OF assms(1)] by blast
  ultimately show ?thesis
    unfolding matmul_decoupled_q_def instr_puts Let_def a b using assms(4,5) by (simp add: grown_put2)
qed

lemma gemm_decoupled_q_grown:
  assumes "pl_dev env d = Some dev" "q_size args * r_size args \<noteq> 0" "p_size args * q_size args \<noteq> 0"
    and "chained base ds s" "length ds + 2 < 2 ^ 32"
  shows "grown base ds 2 (gemm_decoupled_q env d args p q s)"
proof -
  obtain b where b: "u32_rem (cnt_B s) (q_size args * r_size args) = Some b"
    using rem_some(1) [OF assms(2)] by blast
  obtain a where a: "u64_rem (ucast (p * q_size args) + cnt_A s) (ucast (p_size args * q_size args)) = Some a"
    using rem_some(2) [OF assms(3)] by blast
  obtain b0 pa0 where "seek_mod env d (srcB_va args) (b * TYPE_SIZE) (B_base s) = Some (b0, pa0)"
    using seek_mod_some [OF assms(1)] by blast
  moreover obtain b1 pa1 where "seek_mod env d (srcA_va args) (ucast a * TYPE_SIZE) (A_base s) = Some (b1, pa1)"
    using seek_mod_some [OF assms(1)] by blast
  ultimately show ?thesis
    unfolding gemm_decoupled_q_def instr_puts Let_def a b using assms(4,5) by (simp add: grown_put2)
qed

lemma tile_out_grown:
  assumes "pl_dev env d = Some dev" "chained base es t" "length es + 1 < 2 ^ 32"
  shows "grown base es 1 (tile_out env d args t)"
proof -
  obtain b pa where "seek_mod env d (dstC_va args) (cnt_C t * TYPE_SIZE) (C_base t) = Some (b, pa)"
    using seek_mod_some [OF assms(1)] by blast
  then show ?thesis using grown_put1 [OF _ assms(3)] assms(2) by (simp add: tile_out_def Let_def instr_puts)
qed

lemma matmul_decoupled_r_grown:
  assumes "pl_dev env d = Some dev" "q_size args * r_size args \<noteq> 0" "p_size args * q_size args \<noteq> 0"
    and "chained base ds s" "unat (q_size args) + 256 \<le> 2 ^ 32"
    and "length ds + (1 + 2 * trips REG_SIZE (q_size args)) < 2 ^ 32"
  shows "grown base ds (1 + 2 * trips REG_SIZE (q_size args)) (matmul_decoupled_r env d args p r s)"
proof -
  have "grown base ds (trips REG_SIZE (q_size args) * 2)
      (u32_for REG_SIZE 0 (q_size args) (matmul_decoupled_q env d args p) (s\<lparr>cnt_A := 0\<rparr>))"
    using assms(4-6) by (intro grown_loop matmul_decoupled_q_grown [OF assms(1-3)]) simp_all
  then show ?thesis unfolding matmul_decoupled_r_def
    by (rule grown_bind [where k = 1]) (use assms(6) in \<open>auto intro!: tile_out_grown [OF assms(1), simplified]\<close>)
qed

lemma gemm_decoupled_r_grown:
  assumes "pl_dev env d = Some dev" "q_size args * r_size args \<noteq> 0" "p_size args * q_size args \<noteq> 0"
    and "chained base ds s" "unat (q_size args) + 256 \<le> 2 ^ 32"
    and "length ds + (1 + 2 * trips REG_SIZE (q_size args)) < 2 ^ 32"
  shows "grown base ds (1 + 2 * trips REG_SIZE (q_size args)) (gemm_decoupled_r env d args p r s)"
proof -
  have "grown base ds (trips REG_SIZE (q_size args) * 2)
      (u32_for REG_SIZE 0 (q_size args) (gemm_decoupled_q env d args p) (s\<lparr>cnt_A := 0\<rparr>))"
    using assms(4-6) by (intro grown_loop gemm_decoupled_q_grown [OF assms(1-3)]) simp_all
  then show ?thesis unfolding gemm_decoupled_r_def
    by (rule grown_bind [where k = 1]) (use assms(6) in \<open>auto intro!: tile_out_grown [OF assms(1), simplified]\<close>)
qed

lemma gemm_add_r_grown:
  assumes "pl_dev env d = Some dev" "chained base ds s" "length ds + 3 < 2 ^ 32"
  shows "grown base ds 3 (gemm_add_r env d args p r s)"
proof -
  let ?off = "p * r_aligned (r_size args) * TYPE_SIZE + r * TYPE_SIZE"
  obtain b0 pa0 where "seek_abs env d (bias_va args) ?off (A_base s) = Some (b0, pa0)"
    using seek_abs_some [OF assms(1)] by blast
  moreover obtain b1 pa1 where "seek_abs env d (dstC_va args) ?off (B_base s) = Some (b1, pa1)"
    using seek_abs_some [OF assms(1)] by blast
  moreover obtain b2 pa2 where "seek_abs env d (dstC_va args) ?off (C_base s) = Some (b2, pa2)"
    using seek_abs_some [OF assms(1)] by blast
  ultimately show ?thesis
    unfolding gemm_add_r_def instr_puts Let_def using assms(2,3) by (simp add: grown_put3)
qed

lemma fusion_decoupled_q_grown:
  assumes "pl_dev env d = Some dev" "q_size args * r_size args \<noteq> 0" "p_size args * q_size args \<noteq> 0"
    and "chained base ds s" "length ds + 2 < 2 ^ 32"
  shows "grown base ds 2 (fusion_decoupled_q env d args p q s)"
proof -
  obtain b where b: "u32_rem (cnt_B s) (q_size args * r_size args) = Some b"
    using rem_some(1) [OF assms(2)] by blast
  obtain a where a: "u64_rem (ucast (p * q_size args) + cnt_A s) (ucast (p_size args * q_size args)) = Some a"
    using rem_some(2) [OF assms(3)] by blast
  obtain b0 pa0 where "seek_abs env d (srcB_va args) (b * TYPE_SIZE) (B_base s) = Some (b0, pa0)"
    using seek_abs_some [OF assms(1)] by blast
  moreover obtain b1 pa1 where "seek_abs env d (srcA_va args) (ucast a * TYPE_SIZE) (A_base s) = Some (b1, pa1)"
    using seek_abs_some [OF assms(1)] by blast
  ultimately show ?thesis
    unfolding fusion_decoupled_q_def instr_puts Let_def a b using assms(4,5) by (simp add: grown_put2)
qed

lemma fusion_decoupled_r_grown:
  assumes "pl_dev env d = Some dev" "q_size args * r_size args \<noteq> 0" "p_size args * q_size args \<noteq> 0"
    and "chained base ds s" "unat (q_size args) + 256 \<le> 2 ^ 32"
    and "length ds + (2 + 2 * trips REG_SIZE (q_size args)) < 2 ^ 32"
  shows "grown base ds (2 + 2 * trips REG_SIZE (q_size args)) (fusion_decoupled_r env d args op p r s)"
proof -
  let ?off = "cnt_C s * TYPE_SIZE"
  obtain b2 pa2 where s2: "seek_abs env d (bias_va args) ?off (D_base s) = Some (b2, pa2)"
    using seek_abs_some [OF assms(1)] by blast
  obtain bd pad where sd: "seek_abs env d (dstC_va args) ?off (C_base s) = Some (bd, pad)"
    using seek_abs_some [OF assms(1)] by blast
  let ?i = "(pa2, BRAM_DUMMY, VEC_LEN, RD_B_ATTR OR push_bit 4 op)"
  let ?s = "put_instr ?i (s\<lparr>cnt_A := 0, D_base := b2, C_base := bd, cnt_C := cnt_C s + REG_SIZE * NUM_BANKS\<rparr>)"
  have eq: "fusion_decoupled_r env d args op p r s =
      Option.bind (u32_for REG_SIZE 0 (q_size args) (fusion_decoupled_q env d args p) ?s)
        (\<lambda>s1. Some (put_instr (BRAM_DUMMY + ?off mod 0x40, pad, VEC_LEN, rd_dec WR_C_ATTR) s1))"
    unfolding fusion_decoupled_r_def Let_def s2 sd instr_puts by simp
  have "chained base (ds @ [?i]) ?s"
    using assms(4,6) by (intro dl.emit_holds) simp_all
  then have "grown base (ds @ [?i]) (trips REG_SIZE (q_size args) * 2)
      (u32_for REG_SIZE 0 (q_size args) (fusion_decoupled_q env d args p) ?s)"
    using assms(5,6) by (intro grown_loop fusion_decoupled_q_grown [OF assms(1-3)]) simp_all
  then have "grown base (ds @ [?i]) (1 + 2 * trips REG_SIZE (q_size args)) (fusion_decoupled_r env d args op p r s)"
    unfolding eq by (rule grown_put_last) (use assms(6) in simp_all)
  then show ?thesis by (rule grown_after) simp
qed

section \<open>Handing the list to the engine\<close>

text \<open>
  A kernel's call is \<open>handed_over\<close> with \<open>n\<close> instructions if it ends in the driver call, with a
  linked list of that length that fits the array.
\<close>

definition handed_over :: "math_env \<Rightarrow> nat \<Rightarrow> math_args \<Rightarrow> nat \<Rightarrow> pl_state \<Rightarrow> mm_result \<Rightarrow> bool" where
  "handed_over env d args n st res \<longleftrightarrow> (\<exists>dev s ds. pl_dev env d = Some dev
     \<and> chained (ucast (dev_desc_base dev)) ds s \<and> length ds = n \<and> n \<le> ISA_ENTRIES \<and> res = mm_exec env d args s st)"

lemma grown_handed_over:
  assumes "pl_dev env d = Some dev" "grown (ucast (dev_desc_base dev)) [] n res" "n \<le> ISA_ENTRIES"
  shows "handed_over env d args n st (Option.bind res (\<lambda>s. mm_exec env d args s st))"
  using assms by (fastforce simp: handed_over_def grown_def)

text \<open>
  The call of the driver: the position of the last entry and its address go into the arguments, with the
  host's list, and \<^verbatim>\<open>DMA_START\<close> is issued with them.
\<close>

definition started :: "pl_dma_t \<Rightarrow> math_args \<Rightarrow> nat \<Rightarrow> pl_state \<Rightarrow> int \<Rightarrow> math_args \<Rightarrow> pl_state \<Rightarrow> bool" where
  "started dev args n st ret args' st' \<longleftrightarrow>
     args' = args\<lparr>desc_idx := of_nat n - 1, desc_last := ucast (dev_desc_base dev) + 0x40 * of_nat n, desc_host := dev_isa dev\<rparr>
     \<and> (\<exists>r out. pl_dma_ioctl (dev_drv dev) DMA_START (pim_args.truncate args') st = (r, out, st')
          \<and> ret = (if r < 0 then - 1 else 0))"

lemma mpim_exec_started:
  assumes "pl_dev env d = Some dev"
  shows "case mpim_exec env d (args\<lparr>desc_idx := of_nat n - 1, desc_last := ucast (dev_desc_base dev) + 0x40 * of_nat n\<rparr>) st of
    (ret, args', st') \<Rightarrow> started dev args n st ret args' st'"
proof -
  let ?a = "args\<lparr>desc_idx := of_nat n - 1, desc_last := ucast (dev_desc_base dev) + 0x40 * of_nat n, desc_host := dev_isa dev\<rparr>"
  obtain r out st' where "pl_dma_ioctl (dev_drv dev) DMA_START (pim_args.truncate ?a) st = (r, out, st')" by (metis prod_cases3)
  then show ?thesis using assms by (auto simp: mpim_exec_def started_def Let_def)
qed

lemma mm_exec_started:
  assumes "pl_dev env d = Some dev" "chained (ucast (dev_desc_base dev)) ds s" "length ds \<le> ISA_ENTRIES"
  shows "\<exists>ret args' st'. mm_exec env d args s st = Some (ret, args', s, st') \<and> started dev args (length ds) st ret args' st'"
proof -
  obtain r a t where e: "mpim_exec env d (args\<lparr>desc_idx := of_nat (length ds) - 1,
      desc_last := ucast (dev_desc_base dev) + 0x40 * of_nat (length ds)\<rparr>) st = (r, a, t)"
    by (metis prod_cases3)
  have "started dev args (length ds) st r a t" using mpim_exec_started [OF assms(1), of args "length ds" st] e by simp
  moreover from this have "(if r < 0 then - 1 else 0) = r" by (auto simp: started_def split: if_splits)
  moreover have "idx s - 1 = of_nat (length ds) - 1" "nxt s - 0x40 = ucast (dev_desc_base dev) + 0x40 * of_nat (length ds)" "\<not> past_end s"
    using assms(2,3) by (simp_all add: chained_def algebra_simps)
  ultimately show ?thesis using e by (simp add: mm_exec_def Let_def)
qed

text \<open>The registers and copies of a successful start, for a list of \<open>n\<close> entries from \<open>base\<close>.\<close>

definition start_trace :: "pl_dma_t \<Rightarrow> nat \<Rightarrow> pl_event list" where
  "start_trace dev n =
     (let drv = dev_drv dev; base = ucast (dev_desc_base dev) :: u32;
          clear = [ConfWr (hpc_clr_offset drv + 4 * junk_i drv) 0, ConfWr (aim_working_offset drv + 4 * junk_i drv) 0]
      in [RegWr REG_CR CR_RESET, DescFromUser (dev_isa dev) (of_nat n * 0x40)] @ clear
         @ [RegWr REG_CR CR_SG_EN, RegWr REG_SR SR_IOCIRQ, RegWr CURDESC_L base, RegWr CURDESC_H HIGH_ADDR,
            RegWr TAILDESC_L (base + 0x40 * of_nat n - 0x40), RegWr TAILDESC_H HIGH_ADDR]
         @ [RegWr REG_SR SR_IOCIRQ, RegWr REG_CR CR_RESET] @ clear @ [ConfWr CONF_OFFSET_CLP_CLR 0])"

lemma started_trace:
  assumes "dev_desc_base dev = desc_mem_base (dev_drv dev)" "started dev args n st 0 args' st'"
  shows "trace st' = trace st @ start_trace dev n" "polled_done (dev_drv dev) (of_nat n - 1) (clock st + 3)"
proof -
  obtain r out where io: "pl_dma_ioctl (dev_drv dev) DMA_START (pim_args.truncate args') st = (r, out, st')" "\<not> r < 0"
    and a: "args' = args\<lparr>desc_idx := of_nat n - 1, desc_last := ucast (dev_desc_base dev) + 0x40 * of_nat n, desc_host := dev_isa dev\<rparr>"
    using assms(2) by (auto simp: started_def split: if_splits)
  moreover have "r \<le> 0" using dma_start_result [of "dev_drv dev" "pim_args.truncate args'" st] io(1) by simp
  ultimately have ok: "pl_dma_ioctl (dev_drv dev) DMA_START (pim_args.truncate args') st = (SUCCESS, out, st')" by simp
  show "trace st' = trace st @ start_trace dev n"
    using dma_start_trace [OF ok] unfolding a
    by (simp add: start_trace_def Let_def assms(1) pim_args.truncate_def algebra_simps)
  show "polled_done (dev_drv dev) (of_nat n - 1) (clock st + 3)"
    using dma_start_polls [OF ok] unfolding a by (simp add: pim_args.truncate_def)
qed

section \<open>The program of the silent gemm\<close>

definition PA :: "math_env \<Rightarrow> nat \<Rightarrow> u64 \<Rightarrow> u32" where
  "PA env d a = (case VA2PA env d a of None \<Rightarrow> 0 | Some b \<Rightarrow> ucast b)"

definition page_start :: "u32 \<Rightarrow> u32" where
  "page_start off = off - off mod HUGE_PAGE"

text \<open>A buffer is physically contiguous within each huge page counted from its start.\<close>

definition huge_contig :: "math_env \<Rightarrow> nat \<Rightarrow> u64 \<Rightarrow> bool" where
  "huge_contig env d a \<longleftrightarrow>
     (\<forall>off. PA env d (a + ucast off) = PA env d (a + ucast (page_start off)) + off mod HUGE_PAGE)"

text \<open>The program the kernel means to build: every operand at the translation of its own address.\<close>

definition bias_off :: "math_args \<Rightarrow> u32 \<Rightarrow> u32 \<Rightarrow> u32" where
  "bias_off args p r = r * PIM_WIDTH + p * r_size args * TYPE_SIZE"

definition a_off :: "math_args \<Rightarrow> u32 \<Rightarrow> u32 \<Rightarrow> u32" where
  "a_off args p q = q * TYPE_SIZE + q_size args * TYPE_SIZE * p"

definition b_off :: "math_args \<Rightarrow> u32 \<Rightarrow> u32 \<Rightarrow> u32" where
  "b_off args r q = q_size args * PIM_WIDTH * r + q * PIM_WIDTH"

definition ab_instrs :: "math_env \<Rightarrow> nat \<Rightarrow> math_args \<Rightarrow> u32 \<Rightarrow> u32 \<Rightarrow> u32 \<Rightarrow> instr list" where
  "ab_instrs env d args p r q =
     [(PA env d (srcA_va args + ucast (a_off args p q)), BRAM_DUMMY + a_off args p q mod 0x40, BURST_SIZE,
        RD_A_ATTR OR push_bit 4 OPCODE_MAT_MUL),
      (PA env d (srcB_va args + ucast (b_off args r q)), BRAM_DUMMY + b_off args r q mod 0x40, REG_SIZE * PIM_WIDTH,
        RD_B_ATTR OR push_bit 4 OPCODE_MAT_MUL)]"

definition gemm_block :: "math_env \<Rightarrow> nat \<Rightarrow> math_args \<Rightarrow> u32 \<Rightarrow> u32 \<Rightarrow> instr list" where
  "gemm_block env d args p r =
     (PA env d (bias_va args + ucast (bias_off args p r)), BRAM_DUMMY + bias_off args p r mod 0x40, PIM_WIDTH,
        RD_B_ATTR OR push_bit 4 OPCODE_ELE_ADD)
     # concat (map (\<lambda>k. ab_instrs env d args p r (of_nat (k * 256))) [0..<trips REG_SIZE (q_size args)])
     @ [(BRAM_DUMMY + bias_off args p r mod 0x40, PA env d (dstC_va args + ucast (bias_off args p r)), PIM_WIDTH,
        WR_C_ATTR OR push_bit 4 OPCODE_MAT_MUL)]"

definition gemm_program :: "math_env \<Rightarrow> nat \<Rightarrow> math_args \<Rightarrow> instr list" where
  "gemm_program env d args = concat (map (\<lambda>p. concat (map (\<lambda>r. gemm_block env d args (of_nat p) (of_nat r))
     [0..<unat (r_loop_var (r_size args))])) [0..<unat (p_size args)])"

definition page_ok :: "math_env \<Rightarrow> nat \<Rightarrow> u64 \<Rightarrow> u32 \<Rightarrow> u32 \<Rightarrow> bool" where
  "page_ok env d a base off \<longleftrightarrow> off mod HUGE_PAGE = 0 \<or> base = PA env d (a + ucast (page_start off))"

lemma seek_mod_ok:
  assumes "pl_dev env d = Some dev" "huge_contig env d a" "page_ok env d a base off"
  shows "seek_mod env d a off base = Some (PA env d (a + ucast (page_start off)), PA env d (a + ucast off))"
proof (cases "off mod HUGE_PAGE = 0")
  case True
  then show ?thesis using assms(1) by (simp add: seek_mod_def VA2PA_def PA_def page_start_def)
next
  case False
  then have "base = PA env d (a + ucast (page_start off))" using assms(3) by (simp add: page_ok_def)
  moreover have "PA env d (a + ucast off) = PA env d (a + ucast (page_start off)) + off mod HUGE_PAGE"
    using assms(2) unfolding huge_contig_def by blast
  ultimately show ?thesis using False by (simp add: seek_mod_def)
qed

lemma seek_abs_ok:
  assumes "pl_dev env d = Some dev" "huge_contig env d a" "off < HUGE_PAGE" "off = 0 \<or> base = PA env d a"
  shows "seek_abs env d a off base = Some (PA env d a, PA env d (a + ucast off))"
proof (cases "off = 0")
  case True
  then show ?thesis using assms(1) by (simp add: seek_abs_def VA2PA_def PA_def)
next
  case False
  have m: "off mod HUGE_PAGE = off" using assms(3) by (simp add: mod_word_less)
  moreover have "PA env d (a + ucast off) = PA env d (a + ucast (page_start off)) + off mod HUGE_PAGE"
    using assms(2) unfolding huge_contig_def by blast
  moreover have "page_start off = 0" using m by (simp add: page_start_def)
  ultimately show ?thesis using False assms(4) by (simp add: seek_abs_def)
qed

lemma page_ok_step:
  assumes "131072 * Suc j < 2 ^ 32"
  shows "page_ok env d a (PA env d (a + ucast (page_start (of_nat (131072 * j))))) (of_nat (131072 * Suc j))"
proof -
  have "131072 * j < 2 ^ 32" using assms by simp
  note u = unat_of_nat_u32 [OF this] unat_of_nat_u32 [OF assms]
  have mods: "unat (w mod HUGE_PAGE) = unat w mod 2097152" for w :: u32
    by (simp add: unat_mod HUGE_PAGE_def)
  have "page_start (of_nat (131072 * j)) = page_start (of_nat (131072 * Suc j))"
    if "(of_nat (131072 * Suc j) :: u32) mod HUGE_PAGE \<noteq> 0"
  proof -
    have "131072 * Suc j mod 2097152 \<noteq> 0"
      using that mods [of "of_nat (131072 * Suc j)"] unfolding u by (metis unat_eq_zero)
    moreover have m: "131072 * i mod 2097152 = 131072 * (i mod 16)" for i :: nat
      using mult_mod_right [of 131072 i 16] by simp
    ultimately have "Suc j mod 16 = Suc (j mod 16)" by (auto simp only: mod_Suc split: if_splits)
    then have e: "131072 * j - 131072 * j mod 2097152 = 131072 * Suc j - 131072 * Suc j mod 2097152"
      unfolding m by simp
    have ps: "unat (page_start w) = unat w - unat w mod 2097152" for w :: u32
      unfolding page_start_def using mods [of w]
      by (subst unat_sub) (simp_all add: word_le_nat_alt)
    have "unat (page_start (of_nat (131072 * j))) = unat (page_start (of_nat (131072 * Suc j)))"
      unfolding ps u using e .
    then show ?thesis by (simp only: word_unat_eq_iff)
  qed
  then show ?thesis unfolding page_ok_def by metis
qed

subsection \<open>The silent gemm builds its program\<close>

text \<open>
  Sizes under which the program is the intended one: the row length is a multiple of the register
  size, A, the bias and the result fit in one huge page each, and B in 4 GiB.
\<close>

definition gemm_sizes :: "math_args \<Rightarrow> bool" where
  "gemm_sizes args \<longleftrightarrow> 256 dvd unat (q_size args) \<and> unat (q_size args) + 256 \<le> 2 ^ 32
     \<and> 2 * (unat (q_size args) * unat (p_size args)) \<le> 2097152
     \<and> 2 * (unat (r_size args) * unat (p_size args)) \<le> 2097152
     \<and> 512 * (unat (q_size args) * unat (r_loop_var (r_size args))) < 2 ^ 32"

lemma r_loop_var_unat: "unat (r_loop_var r) = unat r div 256"
proof -
  have r: "unat r < 4294967296" by (rule u32_bound)
  then have "unat r * 2 < 18446744073709551616" by linarith
  then have "unat (ucast r * 2 :: u64) = 2 * unat r"
    by (simp add: unat_word_ariths mod_less)
  then have "unat (ucast r * 2 div 512 :: u64) = unat r div 256" by (simp add: unat_div)
  moreover have "unat r div 256 < 2 ^ 32" using r by (rule less_mult_imp_div_less [OF less_trans]) simp
  ultimately show ?thesis
    by (simp only: r_loop_var_def unsigned_ucast_eq) (simp add: take_bit_nat_eq_self)
qed

text \<open>The offsets as natural numbers.\<close>

lemma a_off_nat: "a_off args (of_nat p) (of_nat (k * 256)) = of_nat (512 * k + 2 * unat (q_size args) * p)"
  by (simp add: a_off_def TYPE_SIZE_def algebra_simps)

lemma b_off_nat:
  "unat (q_size args) = 256 * m \<Longrightarrow> b_off args (of_nat r) (of_nat (k * 256)) = of_nat (131072 * (m * r + k))"
proof -
  assume m: "unat (q_size args) = 256 * m"
  have "q_size args = of_nat (unat (q_size args))" by simp
  then have "q_size args = 256 * of_nat m" unfolding m by simp
  then show ?thesis by (simp add: b_off_def PIM_WIDTH_def algebra_simps)
qed

lemma bias_off_nat: "bias_off args (of_nat p) (of_nat r) = of_nat (512 * r + 2 * unat (r_size args) * p)"
  by (simp add: bias_off_def TYPE_SIZE_def PIM_WIDTH_def algebra_simps)

lemma low_off:
  assumes "n < 2097152"
  shows "(of_nat n :: u32) < HUGE_PAGE" "(of_nat n :: u32) = 0 \<longleftrightarrow> n = 0" "page_start (of_nat n) = 0"
proof -
  have u: "unat (of_nat n :: u32) = n" using assms by simp
  show "(of_nat n :: u32) < HUGE_PAGE" using assms by (simp add: word_less_nat_alt u HUGE_PAGE_def)
  then show "page_start (of_nat n) = 0" by (simp add: page_start_def mod_word_less)
  show "(of_nat n :: u32) = 0 \<longleftrightarrow> n = 0"
    using unat_eq_zero [of "of_nat n :: u32"] unfolding u by blast
qed

text \<open>The operands are contiguous, and what the bases are before instruction pair \<open>k\<close> of block \<open>(p, r)\<close>.\<close>

definition operands_contig :: "math_env \<Rightarrow> nat \<Rightarrow> math_args \<Rightarrow> bool" where
  "operands_contig env d args \<longleftrightarrow> huge_contig env d (srcA_va args) \<and> huge_contig env d (srcB_va args)
     \<and> huge_contig env d (bias_va args) \<and> huge_contig env d (dstC_va args)"

definition ab_inv :: "math_env \<Rightarrow> nat \<Rightarrow> math_args \<Rightarrow> nat \<Rightarrow> nat \<Rightarrow> nat \<Rightarrow> mm_state \<Rightarrow> bool" where
  "ab_inv env d args p r k s \<longleftrightarrow>
     (512 * k + 2 * unat (q_size args) * p = 0 \<or> A_base s = PA env d (srcA_va args))
     \<and> page_ok env d (srcB_va args) (B_base s) (of_nat (131072 * (unat (q_size args) div 256 * r + k)))"

definition dc_inv :: "math_env \<Rightarrow> nat \<Rightarrow> math_args \<Rightarrow> nat \<Rightarrow> mm_state \<Rightarrow> bool" where
  "dc_inv env d args n s \<longleftrightarrow>
     (n = 0 \<or> D_base s = PA env d (bias_va args) \<and> C_base s = PA env d (dstC_va args))"

lemma inv_put [simp]:
  "ab_inv env d args p r k (put_instr i s) = ab_inv env d args p r k s"
  "dc_inv env d args n (put_instr i s) = dc_inv env d args n s"
  by (simp_all add: ab_inv_def dc_inv_def)

lemma gemm_silent_q_step:
  assumes dev: "pl_dev env d = Some dev" and cont: "operands_contig env d args" and sz: "gemm_sizes args"
    and lt: "p < unat (p_size args)" "r < unat (r_loop_var (r_size args))" "k < unat (q_size args) div 256"
    and inv: "ab_inv env d args p r k s"
  shows "\<exists>t. gemm_silent_q env d args (of_nat p) (of_nat r) (of_nat (k * 256)) s
      = Some (fold put_instr (ab_instrs env d args (of_nat p) (of_nat r) (of_nat (k * 256))) t)
    \<and> (\<forall>base ds. chained base ds t = chained base ds s) \<and> ab_inv env d args p r (Suc k) t
    \<and> D_base t = D_base s \<and> C_base t = C_base s"
proof -
  define m where "m = unat (q_size args) div 256"
  have q: "unat (q_size args) = 256 * m" using sz by (auto simp: gemm_sizes_def m_def)
  let ?qs = "unat (q_size args)" and ?ao = "512 * k + 2 * unat (q_size args) * p" and ?j = "m * r + k"
  have "256 * k < ?qs" using lt(3) unfolding q m_def [symmetric] by simp
  then have "256 * k + ?qs * p < ?qs * Suc p" unfolding mult_Suc_right by (rule add_strict_right_mono)
  then have "2 * (256 * k + ?qs * p) < 2 * (?qs * Suc p)" by (simp only: mult_less_cancel1) simp
  moreover have "512 * k + 2 * x * p = 2 * (256 * k + x * p)" for x by (simp add: algebra_simps)
  ultimately have "?ao < 2 * (?qs * Suc p)" by (simp only:)
  also have "\<dots> \<le> 2 * (?qs * unat (p_size args))" using lt(1) by (intro mult_le_mono) simp_all
  also have "\<dots> \<le> 2097152" using sz by (simp add: gemm_sizes_def)
  finally have ao: "?ao < 2097152" .
  have "Suc ?j \<le> m * Suc r" using lt(3) by (simp add: m_def)
  also have "\<dots> \<le> m * unat (r_loop_var (r_size args))" using lt(2) by (intro mult_le_mono) simp_all
  finally have "131072 * Suc ?j \<le> 512 * (?qs * unat (r_loop_var (r_size args)))" unfolding q by simp
  then have j: "131072 * Suc ?j < 2 ^ 32" using sz unfolding gemm_sizes_def by linarith
  let ?a = "a_off args (of_nat p) (of_nat (k * 256))" and ?b = "b_off args (of_nat r) (of_nat (k * 256))"
  have a: "?a = of_nat ?ao" by (rule a_off_nat)
  have b: "?b = of_nat (131072 * ?j)" by (rule b_off_nat [OF q])
  have A0: "page_start ?a = 0" unfolding a by (rule low_off(3) [OF ao])
  have "page_ok env d (srcA_va args) (A_base s) ?a"
  proof (cases "?ao = 0")
    case True
    then show ?thesis unfolding page_ok_def a True by simp
  next
    case False
    then have "A_base s = PA env d (srcA_va args)" using inv [unfolded ab_inv_def] by argo
    then show ?thesis unfolding page_ok_def A0 by simp
  qed
  then have A: "seek_mod env d (srcA_va args) ?a (A_base s)
      = Some (PA env d (srcA_va args), PA env d (srcA_va args + ucast ?a))"
    using seek_mod_ok [OF dev, of "srcA_va args" "A_base s" ?a] cont unfolding A0 operands_contig_def by simp
  have "page_ok env d (srcB_va args) (B_base s) ?b" using inv unfolding ab_inv_def b m_def by blast
  then have B: "seek_mod env d (srcB_va args) ?b (B_base s)
      = Some (PA env d (srcB_va args + ucast (page_start ?b)), PA env d (srcB_va args + ucast ?b))"
    using seek_mod_ok [OF dev, of "srcB_va args" "B_base s" ?b] cont unfolding operands_contig_def by blast
  let ?t = "s\<lparr>A_base := PA env d (srcA_va args), B_base := PA env d (srcB_va args + ucast (page_start ?b))\<rparr>"
  have "gemm_silent_q env d args (of_nat p) (of_nat r) (of_nat (k * 256)) s
      = Some (fold put_instr (ab_instrs env d args (of_nat p) (of_nat r) (of_nat (k * 256))) ?t)"
    using A B unfolding gemm_silent_q_def Let_def instr_puts ab_instrs_def a_off_def b_off_def by simp
  moreover have "page_ok env d (srcB_va args) (B_base ?t) (of_nat (131072 * (m * r + Suc k)))"
    using page_ok_step [OF j, of env d "srcB_va args"] unfolding b add_Suc_right by simp
  then have "ab_inv env d args p r (Suc k) ?t"
    unfolding ab_inv_def m_def [symmetric] by simp
  ultimately show ?thesis by (intro exI [of _ ?t]) simp
qed

lemma trips_REG: "unat n = 256 * m \<Longrightarrow> trips REG_SIZE n = m"
  by (simp add: trips_def)

lemma gemm_silent_r_step:
  assumes dev: "pl_dev env d = Some dev" and cont: "operands_contig env d args" and sz: "gemm_sizes args"
    and lt: "p < unat (p_size args)" "r < unat (r_loop_var (r_size args))"
    and inv: "ab_inv env d args p r 0 s" "dc_inv env d args (512 * r + 2 * unat (r_size args) * p) s"
    and s: "chained base ds s" and room: "length ds + length (gemm_block env d args (of_nat p) (of_nat r)) < 2 ^ 32"
  shows "\<exists>s'. gemm_silent_r env d args (of_nat p) (of_nat r) s = Some s'
    \<and> chained base (ds @ gemm_block env d args (of_nat p) (of_nat r)) s'
    \<and> ab_inv env d args p (Suc r) 0 s' \<and> (\<forall>n. dc_inv env d args n s')
    \<and> (unat (q_size args) = 0 \<or> A_base s' = PA env d (srcA_va args))"
proof -
  define m where "m = unat (q_size args) div 256"
  have q: "unat (q_size args) = 256 * m" using sz by (auto simp: gemm_sizes_def m_def)
  have tr: "trips REG_SIZE (q_size args) = m" by (rule trips_REG [OF q])
  let ?n = "512 * r + 2 * unat (r_size args) * p"
  have "256 * Suc r \<le> 256 * (unat (r_size args) div 256)" using lt(2) unfolding r_loop_var_unat by simp
  also have "\<dots> \<le> unat (r_size args)" by simp
  finally have "256 * r + unat (r_size args) * p < unat (r_size args) * Suc p" by simp
  also have "\<dots> \<le> unat (r_size args) * unat (p_size args)" using lt(1) by (intro mult_le_mono) simp_all
  finally have "2 * (256 * r + unat (r_size args) * p) < 2 * (unat (r_size args) * unat (p_size args))"
    by (simp only: mult_less_cancel1) simp
  also have "\<dots> \<le> 2097152" using sz unfolding gemm_sizes_def by blast
  finally have "2 * (256 * r + unat (r_size args) * p) < 2097152" .
  moreover have "512 * r + 2 * x * p = 2 * (256 * r + x * p)" for x by (simp add: algebra_simps)
  ultimately have n: "?n < 2097152" by (simp only:)
  let ?off = "bias_off args (of_nat p) (of_nat r)"
  have off: "?off = of_nat ?n" by (rule bias_off_nat)
  have ok: "?off = 0 \<or> D_base s = PA env d (bias_va args)" "?off = 0 \<or> C_base s = PA env d (dstC_va args)"
    using inv(2) low_off(2) [OF n] unfolding off dc_inv_def by argo+
  have D: "seek_abs env d (bias_va args) ?off (D_base s) = Some (PA env d (bias_va args), PA env d (bias_va args + ucast ?off))"
    using cont ok(1) low_off(1) [OF n] unfolding off [symmetric] operands_contig_def
    by (intro seek_abs_ok [OF dev]) simp_all
  have C: "seek_abs env d (dstC_va args) ?off (C_base s) = Some (PA env d (dstC_va args), PA env d (dstC_va args + ucast ?off))"
    using cont ok(2) low_off(1) [OF n] unfolding off [symmetric] operands_contig_def
    by (intro seek_abs_ok [OF dev]) simp_all
  let ?i = "(PA env d (bias_va args + ucast ?off), BRAM_DUMMY + ?off mod 0x40, PIM_WIDTH, RD_B_ATTR OR push_bit 4 OPCODE_ELE_ADD)"
  let ?o = "(BRAM_DUMMY + ?off mod 0x40, PA env d (dstC_va args + ucast ?off), PIM_WIDTH, WR_C_ATTR OR push_bit 4 OPCODE_MAT_MUL)"
  let ?s = "put_instr ?i (s\<lparr>D_base := PA env d (bias_va args), C_base := PA env d (dstC_va args)\<rparr>)"
  let ?blk = "\<lambda>k. ab_instrs env d args (of_nat p) (of_nat r) (of_nat (k * 256))"
  let ?J = "\<lambda>k t. ab_inv env d args p r k t \<and> D_base t = PA env d (bias_va args) \<and> C_base t = PA env d (dstC_va args)"
  have len: "length ds + 2 + length (concat (map ?blk [0..<m])) < 2 ^ 32"
    using room by (simp add: gemm_block_def tr)
  have s0: "chained base (ds @ [?i]) ?s" using s len by (intro dl.emit_holds) simp_all
  have J0: "?J 0 ?s" using inv(1) by (simp add: ab_inv_def)
  have body: "\<exists>t'. gemm_silent_q env d args (of_nat p) (of_nat r) (of_nat (k * unat REG_SIZE)) t = Some t'
      \<and> chained base (es @ ?blk k) t' \<and> ?J (Suc k) t'"
    if "k < trips REG_SIZE (q_size args)" "chained base es t" "?J k t" "length es + length (?blk k) < 2 ^ 32" for k es t
  proof -
    note h = that
    have "k < unat (q_size args) div 256" using h(1) unfolding tr m_def .
    from gemm_silent_q_step [OF dev cont sz lt this, of t] h(3)
    obtain u where u: "gemm_silent_q env d args (of_nat p) (of_nat r) (of_nat (k * 256)) t = Some (fold put_instr (?blk k) u)"
      "chained base es u" "ab_inv env d args p r (Suc k) u" "D_base u = D_base t" "C_base u = C_base t"
      using h(2) by blast
    have "?J (Suc k) (fold put_instr (?blk k) u)" using u(3-5) h(3) by (simp add: ab_instrs_def)
    then show ?thesis using u(1) dl.emits_hold [OF u(2) h(4)] by simp
  qed
  have room': "length (ds @ [?i]) + length (concat (map ?blk [0..<trips REG_SIZE (q_size args)])) < 2 ^ 32"
    using len unfolding tr by simp
  have q32: "unat (q_size args) + unat REG_SIZE \<le> 2 ^ 32" using sz by (simp add: gemm_sizes_def)
  have "\<exists>t. u32_for REG_SIZE 0 (q_size args) (gemm_silent_q env d args (of_nat p) (of_nat r)) ?s = Some t
      \<and> chained base ((ds @ [?i]) @ concat (map ?blk [0..<trips REG_SIZE (q_size args)])) t
      \<and> ?J (trips REG_SIZE (q_size args)) t"
    by (rule dl.loop_emits [where J = ?J and blk = ?blk, OF step_sizes(1) q32 _ s0 J0 room']) (rule body)
  then obtain t where t: "u32_for REG_SIZE 0 (q_size args) (gemm_silent_q env d args (of_nat p) (of_nat r)) ?s = Some t"
    "chained base ((ds @ [?i]) @ concat (map ?blk [0..<m])) t" "?J m t"
    unfolding tr by blast
  have "gemm_silent_r env d args (of_nat p) (of_nat r) s = Some (put_instr ?o t)"
    using D C t(1) unfolding gemm_silent_r_def Let_def instr_puts bias_off_def by simp
  moreover have "chained base (ds @ gemm_block env d args (of_nat p) (of_nat r)) (put_instr ?o t)"
    using dl.emit_holds [OF t(2), of ?o] len by (simp add: gemm_block_def tr)
  moreover have "ab_inv env d args p (Suc r) 0 (put_instr ?o t)"
    using t(3) by (auto simp: ab_inv_def m_def add.commute)
  moreover have "unat (q_size args) = 0 \<or> A_base t = PA env d (srcA_va args)"
    using t(3) by (auto simp: ab_inv_def q)
  ultimately show ?thesis using t(3) by (simp add: dc_inv_def)
qed

lemma gemm_silent_p_step:
  assumes dev: "pl_dev env d = Some dev" and cont: "operands_contig env d args" and sz: "gemm_sizes args"
    and lt: "p < unat (p_size args)" and s: "chained base ds s"
    and inv: "unat (r_loop_var (r_size args)) = 0
      \<or> ab_inv env d args p 0 0 s \<and> dc_inv env d args (2 * unat (r_size args) * p) s"
    and room: "length ds + length (concat (map (\<lambda>r. gemm_block env d args (of_nat p) (of_nat r))
      [0..<unat (r_loop_var (r_size args))])) < 2 ^ 32"
  shows "\<exists>s'. u32_for 1 0 (r_loop_var (r_size args)) (gemm_silent_r env d args (of_nat p)) s = Some s'
    \<and> chained base (ds @ concat (map (\<lambda>r. gemm_block env d args (of_nat p) (of_nat r))
        [0..<unat (r_loop_var (r_size args))])) s'
    \<and> (unat (r_loop_var (r_size args)) = 0
      \<or> ab_inv env d args (Suc p) 0 0 s' \<and> dc_inv env d args (2 * unat (r_size args) * Suc p) s')"
proof -
  let ?R = "unat (r_loop_var (r_size args))" and ?blk = "\<lambda>r. gemm_block env d args (of_nat p) (of_nat r)"
  let ?J = "\<lambda>r t. ?R = 0 \<or> ab_inv env d args p r 0 t \<and> dc_inv env d args (512 * r + 2 * unat (r_size args) * p) t
    \<and> (r = 0 \<or> (\<forall>n. dc_inv env d args n t) \<and> (unat (q_size args) = 0 \<or> A_base t = PA env d (srcA_va args)))"
  have J0: "?J 0 s" using inv by simp
  have body: "\<exists>t'. gemm_silent_r env d args (of_nat p) (of_nat (r * unat (1 :: u32))) t = Some t'
      \<and> chained base (es @ ?blk r) t' \<and> ?J (Suc r) t'"
    if "r < trips 1 (r_loop_var (r_size args))" "chained base es t" "?J r t" "length es + length (?blk r) < 2 ^ 32" for r es t
  proof -
    note h = that
    have r: "r < ?R" using h(1) by simp
    then have j: "ab_inv env d args p r 0 t" "dc_inv env d args (512 * r + 2 * unat (r_size args) * p) t"
      using h(3) by auto
    from gemm_silent_r_step [OF dev cont sz lt r j h(2,4)] show ?thesis by auto
  qed
  have room': "length ds + length (concat (map ?blk [0..<trips 1 (r_loop_var (r_size args))])) < 2 ^ 32"
    using room by simp
  have "\<exists>t. u32_for 1 0 (r_loop_var (r_size args)) (gemm_silent_r env d args (of_nat p)) s = Some t
      \<and> chained base (ds @ concat (map ?blk [0..<trips 1 (r_loop_var (r_size args))])) t
      \<and> ?J (trips 1 (r_loop_var (r_size args))) t"
    by (rule dl.loop_emits [where J = ?J and blk = ?blk, OF _ step1 _ s J0 room']) (simp, rule body)
  then obtain t where t: "u32_for 1 0 (r_loop_var (r_size args)) (gemm_silent_r env d args (of_nat p)) s = Some t"
    "chained base (ds @ concat (map ?blk [0..<?R])) t" "?J ?R t" unfolding trips1 by blast
  have "ab_inv env d args (Suc p) 0 0 t" if "?R \<noteq> 0"
    using t(3) that by (auto simp: ab_inv_def page_ok_def)
  then show ?thesis using t by auto
qed

lemma gemm_silent_emits:
  assumes dev: "pl_dev env d = Some dev" and cont: "operands_contig env d args" and sz: "gemm_sizes args"
    and room: "length (gemm_program env d args) < 2 ^ 32"
  shows "\<exists>s. gemm_silent env d args isa0 st = mm_exec env d args s st
    \<and> chained (ucast (dev_desc_base dev)) (gemm_program env d args) s"
proof -
  let ?R = "unat (r_loop_var (r_size args))"
  let ?blk = "\<lambda>p. concat (map (\<lambda>r. gemm_block env d args (of_nat p) (of_nat r)) [0..<?R])"
  let ?J = "\<lambda>p t. ?R = 0 \<or> ab_inv env d args p 0 0 t \<and> dc_inv env d args (2 * unat (r_size args) * p) t"
  let ?body = "\<lambda>p. u32_for 1 0 (r_loop_var (r_size args)) (gemm_silent_r env d args p)"
  let ?base = "ucast (dev_desc_base dev)"
  have J0: "?J 0 (mm_start dev isa0)" by (simp add: ab_inv_def dc_inv_def page_ok_def)
  have body: "\<exists>t'. ?body (of_nat (p * unat (1 :: u32))) t = Some t' \<and> chained ?base (es @ ?blk p) t' \<and> ?J (Suc p) t'"
    if "p < trips 1 (p_size args)" "chained ?base es t" "?J p t" "length es + length (?blk p) < 2 ^ 32" for p es t
    using gemm_silent_p_step [OF dev cont sz _ that(2,3,4)] that(1) by simp
  have room': "length [] + length (concat (map ?blk [0..<trips 1 (p_size args)])) < 2 ^ 32"
    using room by (simp add: gemm_program_def)
  have "\<exists>t. u32_for 1 0 (p_size args) ?body (mm_start dev isa0) = Some t
      \<and> chained ?base ([] @ concat (map ?blk [0..<trips 1 (p_size args)])) t \<and> ?J (trips 1 (p_size args)) t"
    by (rule dl.loop_emits [where J = ?J and blk = ?blk, OF _ step1 _ chained_mm_start J0 room']) (simp, rule body)
  then obtain t where "u32_for 1 0 (p_size args) ?body (mm_start dev isa0) = Some t"
    "chained ?base (gemm_program env d args) t" by (auto simp: gemm_program_def)
  then show ?thesis by (auto simp: gemm_silent_def dev)
qed

end
