(* ===== verification/Page_Bitmap.thy ===== *)
theory Page_Bitmap
  imports Pim_Prelude
begin

text \<open>
  The page bitmap of a memory pool (\<^verbatim>\<open>src/mem_src/mpim_mem.c\<close>: \<^verbatim>\<open>_strnstr\<close>,
  \<^verbatim>\<open>_set_bit_vector\<close>, \<^verbatim>\<open>_clr_bit_vector\<close>). The C code keeps one character per page,
  \<open>0\<close> for free and \<open>1\<close> for used, in a NUL-terminated array and searches it
  with string functions; \<open>bit_vector\<close> below is the text before the NUL. The three fields the
  two operations touch form the record \<open>pool_bits\<close>, which the pool record of the allocator
  extends.
\<close>

record pool_bits =
  curr_idx :: u32
  nfree_pages :: u32
  bit_vector :: string

section \<open>The string searches\<close>

text \<open>\<^verbatim>\<open>strstr\<close> of the C library: the offset of the first occurrence.\<close>

fun strstr :: "string \<Rightarrow> string \<Rightarrow> nat option" where
  "strstr [] needle = (if needle = [] then Some 0 else None)"
| "strstr (c # cs) needle =
     (if take (length needle) (c # cs) = needle then Some 0
      else map_option Suc (strstr cs needle))"

text \<open>
  \<^verbatim>\<open>_strnstr\<close>: the two nested \<^verbatim>\<open>do\<close> loops. \<open>i\<close> is how far \<^verbatim>\<open>s\<close> has advanced; the empty
  list is the terminating NUL, on which (as on \<open>slen < 1\<close>) the code returns NULL.
\<close>

fun strnstr_loop :: "char \<Rightarrow> string \<Rightarrow> string \<Rightarrow> nat \<Rightarrow> nat \<Rightarrow> nat option" where
  "strnstr_loop c pat [] slen i = None"
| "strnstr_loop c pat (sc # s) slen i =
     (if slen < 1 then None
      else if sc \<noteq> c then strnstr_loop c pat s (slen - 1) (Suc i)
      else if length pat > slen - 1 then None
      else if take (length pat) s \<noteq> pat then strnstr_loop c pat s (slen - 1) (Suc i)
      else Some i)"

definition strnstr :: "string \<Rightarrow> string \<Rightarrow> nat \<Rightarrow> nat option" where
  "strnstr s pat slen =
     (case pat of [] \<Rightarrow> Some 0 | c # rest \<Rightarrow> strnstr_loop c rest s slen 0)"

section \<open>The bitmap operations\<close>

definition free_flag :: "nat \<Rightarrow> string" where
  "free_flag n = replicate n (CHR ''0'')"

definition used_flag :: "nat \<Rightarrow> string" where
  "used_flag n = replicate n (CHR ''1'')"

text \<open>The common tail of the two rounds: \<^verbatim>\<open>strncpy\<close> of the used flags at \<open>idx\<close>.\<close>

definition mark_used :: "'a pool_bits_scheme \<Rightarrow> nat \<Rightarrow> nat \<Rightarrow> 'a pool_bits_scheme" where
  "mark_used p idx n = p\<lparr>
     bit_vector := blit idx (used_flag n) (bit_vector p),
     nfree_pages := nfree_pages p - of_nat n,
     curr_idx := of_nat (idx + n)\<rparr>"

definition set_bit_vector :: "'a pool_bits_scheme \<Rightarrow> nat \<Rightarrow> 'a pool_bits_scheme \<times> int" where
  "set_bit_vector p n =
     (case strstr (drop (unat (curr_idx p)) (bit_vector p)) (free_flag n) of
        Some off \<Rightarrow>
          (let idx = unat (curr_idx p) + off in (mark_used p idx n, int idx))
      | None \<Rightarrow>
          (case strnstr (bit_vector p) (free_flag n) (unat (curr_idx p - 1)) of
             Some idx \<Rightarrow> (mark_used p idx n, int idx)
           | None \<Rightarrow> (p, -1)))"

definition clr_bit_vector :: "'a pool_bits_scheme \<Rightarrow> nat \<Rightarrow> nat \<Rightarrow> 'a pool_bits_scheme" where
  "clr_bit_vector p idx n = p\<lparr>
     bit_vector := blit idx (free_flag n) (bit_vector p),
     curr_idx := of_nat idx,
     nfree_pages := nfree_pages p + of_nat n\<rparr>"

section \<open>What the searches find\<close>

definition free_run :: "string \<Rightarrow> nat \<Rightarrow> nat \<Rightarrow> bool" where
  "free_run bv i n \<longleftrightarrow> i + n \<le> length bv \<and> (\<forall>k. i \<le> k \<longrightarrow> k < i + n \<longrightarrow> bv ! k = CHR ''0'')"

lemma free_run_take_drop: "n > 0 \<Longrightarrow> free_run bv i n \<longleftrightarrow> take n (drop i bv) = free_flag n"
proof
  assume n: "n > 0" and fr: "free_run bv i n"
  then show "take n (drop i bv) = free_flag n"
    unfolding free_flag_def free_run_def by (intro take_drop_eq_replicateI) auto
next
  assume n: "n > 0" and eq: "take n (drop i bv) = free_flag n"
  then have "length (take n (drop i bv)) = n" by (simp add: free_flag_def)
  then have "i + n \<le> length bv" using n by simp
  with take_drop_eq_replicateD [OF eq [unfolded free_flag_def]]
  show "free_run bv i n" by (auto simp: free_run_def)
qed

lemma strstr_Some: "strstr hay needle = Some i \<Longrightarrow> take (length needle) (drop i hay) = needle"
  by (induction hay needle arbitrary: i rule: strstr.induct) (auto split: if_splits)

lemma strstr_None: "strstr hay needle = None \<Longrightarrow> take (length needle) (drop i hay) \<noteq> needle"
proof (induction hay needle arbitrary: i rule: strstr.induct)
  case (2 c cs needle)
  then show ?case by (cases i) (auto split: if_splits)
qed (auto split: if_splits)

lemma strnstr_loop_Some:
  "strnstr_loop c pat s slen i = Some j \<Longrightarrow>
    i \<le> j \<and> take (Suc (length pat)) (drop (j - i) s) = c # pat \<and> j - i + Suc (length pat) \<le> slen"
proof (induction c pat s slen i arbitrary: j rule: strnstr_loop.induct)
  case (2 c pat sc s slen i)
  show ?case
  proof (cases "slen < 1 \<or> sc = c \<and> (length pat > slen - 1 \<or> take (length pat) s = pat)")
    case True
    with "2.prems" show ?thesis by (auto split: if_splits)
  next
    case False
    with "2.prems" have rec: "strnstr_loop c pat s (slen - 1) (Suc i) = Some j"
      by (auto split: if_splits)
    from False "2.IH" rec have *: "Suc i \<le> j \<and>
        take (Suc (length pat)) (drop (j - Suc i) s) = c # pat \<and>
        j - Suc i + Suc (length pat) \<le> slen - 1"
      by (auto split: if_splits)
    from * have "Suc i \<le> j" by blast
    then have "j - i = Suc (j - Suc i)" by arith
    with * False show ?thesis by auto
  qed
qed simp

lemma strstr_first: "strstr hay needle = Some i \<Longrightarrow> j < i \<Longrightarrow> take (length needle) (drop j hay) \<noteq> needle"
proof (induction hay needle arbitrary: i j rule: strstr.induct)
  case (2 c cs needle)
  then show ?case by (cases j) (auto split: if_splits)
qed (auto split: if_splits)

lemma strnstr_loop_first:
  "strnstr_loop c pat s slen i = Some j \<Longrightarrow> k < j - i \<Longrightarrow> take (Suc (length pat)) (drop k s) \<noteq> c # pat"
proof (induction c pat s slen i arbitrary: j k rule: strnstr_loop.induct)
  case (2 c pat sc s slen i)
  have "strnstr_loop c pat s (slen - 1) (Suc i) = Some j" "sc \<noteq> c \<or> take (length pat) s \<noteq> pat"
      "\<not> slen < 1" "sc = c \<Longrightarrow> \<not> length pat > slen - 1"
    using "2.prems" by (auto split: if_splits)
  with 2(1,2) have ih: "take (Suc (length pat)) (drop m s) \<noteq> c # pat" if "m < j - Suc i" for m
    using that by (cases "sc = c") auto
  show ?case
  proof (cases k)
    case (Suc m)
    then have "m < j - Suc i" using "2.prems"(2) by arith
    from ih [OF this] Suc show ?thesis by simp
  qed (use \<open>sc \<noteq> c \<or> take (length pat) s \<noteq> pat\<close> in auto)
qed simp

lemma strnstr_loop_None:
  "strnstr_loop c pat s slen i = None \<Longrightarrow> k + Suc (length pat) \<le> slen \<Longrightarrow>
    take (Suc (length pat)) (drop k s) \<noteq> c # pat"
proof (induction c pat s slen i arbitrary: k rule: strnstr_loop.induct)
  case (2 c pat sc s slen i)
  show ?case
  proof (cases k)
    case 0
    with "2.prems" show ?thesis by (auto split: if_splits)
  next
    case (Suc k')
    with "2.prems" have "strnstr_loop c pat s (slen - 1) (Suc i) = None"
      and "k' + Suc (length pat) \<le> slen - 1" and "\<not> slen < 1"
      by (auto split: if_splits)
    with 2(1,2) "2.prems" Suc show ?thesis by (auto split: if_splits)
  qed
qed simp

lemma strnstr_Some:
  assumes "strnstr s (free_flag n) slen = Some i" and "n > 0"
  shows "free_run s i n \<and> i + n \<le> slen"
proof -
  obtain m where m: "n = Suc m" using assms(2) by (cases n) auto
  with assms(1) have "strnstr_loop (CHR ''0'') (free_flag m) s slen 0 = Some i"
    by (simp add: strnstr_def free_flag_def)
  from strnstr_loop_Some [OF this] m assms(2) show ?thesis
    by (simp add: free_run_take_drop free_flag_def)
qed

lemma strnstr_None:
  assumes "strnstr s (free_flag n) slen = None" and "n > 0"
  shows "\<not> (\<exists>i. free_run s i n \<and> i + n \<le> slen)"
proof
  assume "\<exists>i. free_run s i n \<and> i + n \<le> slen"
  then obtain i where i: "free_run s i n" "i + n \<le> slen" by blast
  obtain m where m: "n = Suc m" using assms(2) by (cases n) auto
  with assms(1) have "strnstr_loop (CHR ''0'') (free_flag m) s slen 0 = None"
    by (simp add: strnstr_def free_flag_def)
  from strnstr_loop_None [OF this, of i] i m show False
    by (simp add: free_run_take_drop free_flag_def)
qed

lemma strstr_drop_Some:
  assumes "strstr (drop c bv) (free_flag n) = Some off" and "n > 0"
  shows "free_run bv (c + off) n"
  using strstr_Some [OF assms(1)] assms(2)
  by (simp add: free_run_take_drop free_flag_def add.commute)

lemma strstr_drop_None:
  assumes "strstr (drop c bv) (free_flag n) = None" and "n > 0" and "c \<le> i"
  shows "\<not> free_run bv i n"
  using strstr_None [OF assms(1), of "i - c"] assms(2,3)
  by (simp add: free_run_take_drop free_flag_def)

lemma strstr_drop_first:
  assumes "strstr (drop c bv) (free_flag n) = Some off" "n > 0" "c \<le> j" "j < c + off"
  shows "\<not> free_run bv j n"
proof -
  have "j - c < off" using assms(3,4) by arith
  from strstr_first [OF assms(1) this] show ?thesis
    using assms(2,3) by (simp add: free_run_take_drop free_flag_def)
qed

lemma strnstr_first:
  assumes "strnstr s (free_flag n) slen = Some i" "n > 0" "j < i"
  shows "\<not> free_run s j n"
proof -
  obtain m where m: "n = Suc m" using assms(2) by (cases n) auto
  with assms(1) have "strnstr_loop (CHR ''0'') (free_flag m) s slen 0 = Some i"
    by (simp add: strnstr_def free_flag_def)
  from strnstr_loop_first [OF this, of j] m assms(3) show ?thesis
    by (simp add: free_run_take_drop free_flag_def)
qed

section \<open>The well-formed bitmap and the two operations\<close>

definition bits_ok :: "'a pool_bits_scheme \<Rightarrow> bool" where
  "bits_ok p \<longleftrightarrow> length (bit_vector p) = NUM_PAGES
     \<and> set (bit_vector p) \<subseteq> {CHR ''0'', CHR ''1''}
     \<and> unat (curr_idx p) \<le> NUM_PAGES"

definition page_used :: "'a pool_bits_scheme \<Rightarrow> nat \<Rightarrow> bool" where
  "page_used p k \<longleftrightarrow> k < NUM_PAGES \<and> bit_vector p ! k = CHR ''1''"

definition n_free :: "'a pool_bits_scheme \<Rightarrow> nat" where
  "n_free p = count_list (bit_vector p) (CHR ''0'')"

lemma n_free_le: "bits_ok p \<Longrightarrow> n_free p \<le> NUM_PAGES"
  using count_list_le_length [of "bit_vector p" "CHR ''0''"] by (simp add: n_free_def bits_ok_def)

lemma bits_cases: "bits_ok p \<Longrightarrow> k < NUM_PAGES \<Longrightarrow> \<not> page_used p k \<Longrightarrow> bit_vector p ! k = CHR ''0''"
proof -
  assume ok: "bits_ok p" "k < NUM_PAGES" and nu: "\<not> page_used p k"
  then have "bit_vector p ! k \<in> set (bit_vector p)" by (simp add: bits_ok_def)
  with ok nu show ?thesis unfolding bits_ok_def page_used_def by blast
qed

lemma free_run_page_used:
  "bits_ok p \<Longrightarrow> free_run (bit_vector p) i n \<longleftrightarrow>
     i + n \<le> NUM_PAGES \<and> (\<forall>k. i \<le> k \<longrightarrow> k < i + n \<longrightarrow> \<not> page_used p k)"
  using bits_cases [of p] by (auto simp: free_run_def bits_ok_def page_used_def)

lemma n_free_all_iff: "bits_ok p \<Longrightarrow> n_free p = NUM_PAGES \<longleftrightarrow> (\<forall>k. \<not> page_used p k)"
proof -
  assume ok: "bits_ok p"
  then have len: "length (bit_vector p) = NUM_PAGES" by (simp add: bits_ok_def)
  have "n_free p = NUM_PAGES \<longleftrightarrow> (\<forall>k < NUM_PAGES. bit_vector p ! k = CHR ''0'')"
    using count_list_all_iff [of "bit_vector p" "CHR ''0''"]
    unfolding n_free_def len by (simp add: all_set_conv_all_nth len)
  also have "\<dots> \<longleftrightarrow> (\<forall>k. \<not> page_used p k)"
    using bits_cases [OF ok] by (auto simp: page_used_def)
  finally show ?thesis .
qed

lemma set_blit_subset: "set (blit i ys xs) \<subseteq> set xs \<union> set ys"
  by (auto simp: blit_def dest: in_set_takeD in_set_dropD)

lemma mark_used_ok:
  assumes "bits_ok p" and "idx + n \<le> NUM_PAGES"
  shows "bits_ok (mark_used p idx n)"
  using assms set_blit_subset [of idx "used_flag n" "bit_vector p"]
  by (auto simp: bits_ok_def mark_used_def used_flag_def simp del: of_nat_add split: if_splits)

lemma mark_used_page_used:
  assumes "bits_ok p" and "idx + n \<le> NUM_PAGES"
  shows "page_used (mark_used p idx n) k \<longleftrightarrow> page_used p k \<or> idx \<le> k \<and> k < idx + n"
  using assms by (auto simp: page_used_def mark_used_def used_flag_def bits_ok_def list_upd_simps)

lemma mark_used_n_free:
  assumes "bits_ok p" and "free_run (bit_vector p) idx n"
  shows "n_free (mark_used p idx n) + n = n_free p"
proof (cases "n = 0")
  case False
  with assms have "take n (drop idx (bit_vector p)) = free_flag n"
    by (simp add: free_run_take_drop)
  with assms count_list_blit [of idx "used_flag n" "bit_vector p" "CHR ''0''"] show ?thesis
    by (simp add: n_free_def mark_used_def used_flag_def free_flag_def count_list_replicate
        free_run_def)
qed (simp add: n_free_def mark_used_def used_flag_def blit_def)

lemma clr_ok:
  assumes "bits_ok p" and "idx + n \<le> NUM_PAGES"
  shows "bits_ok (clr_bit_vector p idx n)"
  using assms set_blit_subset [of idx "free_flag n" "bit_vector p"]
  by (auto simp: bits_ok_def clr_bit_vector_def free_flag_def split: if_splits)

lemma clr_page_used:
  assumes "bits_ok p" and "idx + n \<le> NUM_PAGES"
  shows "page_used (clr_bit_vector p idx n) k \<longleftrightarrow> page_used p k \<and> \<not> (idx \<le> k \<and> k < idx + n)"
  using assms by (auto simp: page_used_def clr_bit_vector_def free_flag_def bits_ok_def
      list_upd_simps split: if_splits)

lemma clr_n_free:
  assumes "bits_ok p" and "idx + n \<le> NUM_PAGES"
    and "\<And>k. idx \<le> k \<Longrightarrow> k < idx + n \<Longrightarrow> page_used p k"
  shows "n_free (clr_bit_vector p idx n) = n_free p + n"
proof -
  have "take n (drop idx (bit_vector p)) = replicate n (CHR ''1'')"
    using assms by (intro take_drop_eq_replicateI) (auto simp: bits_ok_def page_used_def)
  with assms count_list_blit [of idx "free_flag n" "bit_vector p" "CHR ''0''"] show ?thesis
    by (simp add: n_free_def clr_bit_vector_def free_flag_def count_list_replicate bits_ok_def)
qed

lemma set_bit_vector_cases:
  obtains (first) idx where "unat (curr_idx p) \<le> idx"
      "strstr (drop (unat (curr_idx p)) (bit_vector p)) (free_flag n) = Some (idx - unat (curr_idx p))"
      "set_bit_vector p n = (mark_used p idx n, int idx)"
  | (second) idx where
      "strstr (drop (unat (curr_idx p)) (bit_vector p)) (free_flag n) = None"
      "strnstr (bit_vector p) (free_flag n) (unat (curr_idx p - 1)) = Some idx"
      "set_bit_vector p n = (mark_used p idx n, int idx)"
  | (miss)
      "strstr (drop (unat (curr_idx p)) (bit_vector p)) (free_flag n) = None"
      "strnstr (bit_vector p) (free_flag n) (unat (curr_idx p - 1)) = None"
      "set_bit_vector p n = (p, -1)"
proof (cases "strstr (drop (unat (curr_idx p)) (bit_vector p)) (free_flag n)")
  case None
  then show thesis
    by (cases "strnstr (bit_vector p) (free_flag n) (unat (curr_idx p - 1))")
      (auto simp: set_bit_vector_def intro: second miss)
next
  case (Some off)
  then show thesis by (intro first [of "unat (curr_idx p) + off"]) (auto simp: set_bit_vector_def Let_def)
qed

lemma set_bit_vector_found:
  assumes "set_bit_vector p n = (p', r)" and "r \<ge> 0" and "n > 0"
  obtains idx where "r = int idx" and "p' = mark_used p idx n" and "free_run (bit_vector p) idx n"
proof (cases rule: set_bit_vector_cases [of p n])
  case (first idx)
  with assms strstr_drop_Some [OF first(2)] show thesis by (auto intro: that)
next
  case (second idx)
  with assms strnstr_Some [OF second(2)] show thesis by (auto intro: that)
next
  case miss
  with assms show thesis by simp
qed

lemma set_bit_vector_not_found:
  assumes "set_bit_vector p n = (p', r)" and "r < 0"
  shows "p' = p"
  using assms by (cases rule: set_bit_vector_cases [of p n]) auto

lemma set_bit_vector_miss:
  assumes "n > 0"
  shows "snd (set_bit_vector p n) < 0 \<longleftrightarrow>
    \<not> (\<exists>i. free_run (bit_vector p) i n \<and>
         (unat (curr_idx p) \<le> i \<or> i + n \<le> unat (curr_idx p - 1)))"
proof (cases rule: set_bit_vector_cases [of p n])
  case (first idx)
  with strstr_drop_Some [OF first(2) assms] show ?thesis by auto
next
  case (second idx)
  with strnstr_Some [OF second(2) assms] show ?thesis by auto
next
  case miss
  with strstr_drop_None [OF miss(1) assms] strnstr_None [OF miss(2) assms] show ?thesis by auto
qed

section \<open>Properties of the page bitmap\<close>

definition demo_bits :: "unit pool_bits_scheme" where
  "demo_bits = \<lparr>curr_idx = 2, nfree_pages = 511,
     bit_vector = ''1'' @ replicate 511 (CHR ''0'')\<rparr>"

lemma demo_bits_ok: "bits_ok demo_bits"
  by (auto simp: bits_ok_def demo_bits_def)

text \<open>
  The pages \<open>i\<close> to \<open>i + n - 1\<close> are handed out: they are used now and no other page changes, the rover stands behind them
  and there are \<open>n\<close> free pages less.
\<close>

definition hands_out :: "'a pool_bits_scheme \<Rightarrow> nat \<Rightarrow> nat \<Rightarrow> 'a pool_bits_scheme \<Rightarrow> bool" where
  "hands_out p i n p' \<longleftrightarrow> bits_ok p' \<and> curr_idx p' = of_nat (i + n) \<and> nfree_pages p' = nfree_pages p - of_nat n
     \<and> n_free p' + n = n_free p \<and> pool_bits.more p' = pool_bits.more p
     \<and> (\<forall>k. page_used p' k \<longleftrightarrow> page_used p k \<or> i \<le> k \<and> k < i + n)"

lemma mark_hands_out:
  assumes "bits_ok p" "free_run (bit_vector p) i n"
  shows "hands_out p i n (mark_used p i n)"
proof -
  have le: "i + n \<le> NUM_PAGES" using assms by (simp add: free_run_page_used)
  show ?thesis
    using mark_used_ok [OF assms(1) le] mark_used_n_free [OF assms] mark_used_page_used [OF assms(1) le]
    unfolding hands_out_def by (simp add: mark_used_def)
qed

text \<open>
  Claim C31: \<^verbatim>\<open>_set_bit_vector\<close> hands out the first run of \<open>n\<close> free pages at or after the rover
  \<open>curr_idx\<close>, if there is one; if there is none, the first run that ends at \<open>curr_idx - 1\<close> or before, if there is
  one; and otherwise, and only then, it returns \<open>-1\<close> and changes nothing. A run that straddles
  \<open>curr_idx\<close> is not found, although the comment promises a search of the whole first part.
\<close>

theorem set_bit_vector_correct:
  assumes "bits_ok p" "0 < n" "set_bit_vector p n = (p', r)"
  shows "(\<exists>i. unat (curr_idx p) \<le> i \<and> free_run (bit_vector p) i n
        \<and> (\<forall>j. unat (curr_idx p) \<le> j \<and> j < i \<longrightarrow> \<not> free_run (bit_vector p) j n) \<and> r = int i \<and> hands_out p i n p')
    \<or> (\<forall>i. unat (curr_idx p) \<le> i \<longrightarrow> \<not> free_run (bit_vector p) i n)
      \<and> (\<exists>i. i + n \<le> unat (curr_idx p - 1) \<and> free_run (bit_vector p) i n
        \<and> (\<forall>j. j < i \<longrightarrow> \<not> free_run (bit_vector p) j n) \<and> r = int i \<and> hands_out p i n p')
    \<or> (\<forall>i. unat (curr_idx p) \<le> i \<or> i + n \<le> unat (curr_idx p - 1) \<longrightarrow> \<not> free_run (bit_vector p) i n)
      \<and> r = - 1 \<and> p' = p"
proof (cases rule: set_bit_vector_cases [of p n])
  case (first i)
  have run: "free_run (bit_vector p) i n" using strstr_drop_Some [OF first(2) assms(2)] first(1) by simp
  have "\<not> free_run (bit_vector p) j n" if "unat (curr_idx p) \<le> j" "j < i" for j
    using strstr_drop_first [OF first(2) assms(2) that(1)] that(2) first(1) by simp
  then show ?thesis using first(1,3) run mark_hands_out [OF assms(1) run] assms(3) by auto
next
  case (second i)
  have run: "free_run (bit_vector p) i n" "i + n \<le> unat (curr_idx p - 1)" using strnstr_Some [OF second(2) assms(2)] by simp_all
  show ?thesis
    using strstr_drop_None [OF second(1) assms(2)] run strnstr_first [OF second(2) assms(2)] second(3)
      mark_hands_out [OF assms(1) run(1)] assms(3) by auto
next
  case miss
  then show ?thesis using strstr_drop_None [OF miss(1) assms(2)] strnstr_None [OF miss(2) assms(2)] assms(3) by auto
qed

text \<open>
  Four free pages are found behind the rover; 511 of them start at 1 and straddle the rover 2, so they are not found.
\<close>

lemma demo_run: "free_run (bit_vector demo_bits) i n \<longleftrightarrow> i + n \<le> 512 \<and> (n = 0 \<or> 0 < i)"
  by (auto simp: free_run_def demo_bits_def nth_Cons split: nat.splits)

theorem set_bit_vector_correct_witness:
  "fst (set_bit_vector demo_bits 511) = demo_bits \<and> snd (set_bit_vector demo_bits 511) = - 1
    \<and> snd (set_bit_vector demo_bits 4) = 2 \<and> hands_out demo_bits 2 4 (fst (set_bit_vector demo_bits 4))"
proof -
  have c: "unat (curr_idx demo_bits) = 2" "unat (curr_idx demo_bits - 1) = 1" by (simp_all add: demo_bits_def)
  have "fst (set_bit_vector demo_bits 511) = demo_bits \<and> snd (set_bit_vector demo_bits 511) = - 1"
    using set_bit_vector_correct [OF demo_bits_ok, of 511 "fst (set_bit_vector demo_bits 511)" "snd (set_bit_vector demo_bits 511)"]
    by (auto simp: c demo_run)
  moreover have "snd (set_bit_vector demo_bits 4) = 2 \<and> hands_out demo_bits 2 4 (fst (set_bit_vector demo_bits 4))"
  proof -
    have "\<exists>i \<ge> 2. (\<forall>j. 2 \<le> j \<and> j < i \<longrightarrow> \<not> free_run (bit_vector demo_bits) j 4)
        \<and> snd (set_bit_vector demo_bits 4) = int i \<and> hands_out demo_bits i 4 (fst (set_bit_vector demo_bits 4))"
      using set_bit_vector_correct [OF demo_bits_ok, of 4 "fst (set_bit_vector demo_bits 4)" "snd (set_bit_vector demo_bits 4)"]
      by (auto simp: c demo_run)
    then obtain i where i: "2 \<le> i" "\<forall>j. 2 \<le> j \<and> j < i \<longrightarrow> \<not> free_run (bit_vector demo_bits) j 4"
        "snd (set_bit_vector demo_bits 4) = int i" "hands_out demo_bits i 4 (fst (set_bit_vector demo_bits 4))" by blast
    have "i = 2" using i(1,2) by (auto simp: demo_run dest: spec [of _ 2])
    with i show ?thesis by simp
  qed
  ultimately show ?thesis by blast
qed

text \<open>
  Clearing the run that \<^verbatim>\<open>_set_bit_vector\<close> has just handed out restores the bitmap
  and the free-page counter: the two operations are inverse up to the rover \<open>curr_idx\<close>.
\<close>

theorem set_clr_roundtrip:
  assumes "bits_ok p" "0 < n" "set_bit_vector p n = (p', r)" "0 \<le> r"
  shows "bit_vector (clr_bit_vector p' (nat r) n) = bit_vector p
    \<and> nfree_pages (clr_bit_vector p' (nat r) n) = nfree_pages p
    \<and> curr_idx (clr_bit_vector p' (nat r) n) = of_nat (nat r)"
proof -
  from set_bit_vector_found [OF assms(3,4,2)] obtain i where
    i: "r = int i" "p' = mark_used p i n" "free_run (bit_vector p) i n" by blast
  have le: "i + n \<le> length (bit_vector p)" using i(3) by (simp add: free_run_def)
  have "blit i (free_flag n) (blit i (used_flag n) (bit_vector p)) = bit_vector p"
    using le i(3) by (intro nth_equalityI)
      (auto simp: free_flag_def used_flag_def list_upd_simps free_run_def)
  then show ?thesis using i by (simp add: clr_bit_vector_def mark_used_def)
qed

theorem set_clr_roundtrip_witness:
  "bit_vector (clr_bit_vector (mark_used demo_bits 2 4) 2 4) = bit_vector demo_bits"
proof -
  have "take 4 (drop 2 (bit_vector demo_bits)) = free_flag 4"
    by (simp add: demo_bits_def free_flag_def)
  then have "strstr (drop 2 (bit_vector demo_bits)) (free_flag 4) = Some 0"
    by (cases "drop 2 (bit_vector demo_bits)") (auto simp: free_flag_def)
  then have "set_bit_vector demo_bits 4 = (mark_used demo_bits 2 4, 2)"
    by (simp add: set_bit_vector_def demo_bits_def)
  from set_clr_roundtrip [OF demo_bits_ok _ this] show ?thesis by simp
qed

end
