(* ===== verification/Mem_Pool.thy ===== *)
theory Mem_Pool
  imports Page_Bitmap Mem_Region
begin

text \<open>
  The pool allocator \<^verbatim>\<open>pim_malloc\<close> / \<^verbatim>\<open>pim_free\<close> (\<^verbatim>\<open>src/mem_src/mpim_mem.c\<close>,
  \<^verbatim>\<open>pim_mem.h\<close>). A device's pools are objects on the C heap, linked by \<^verbatim>\<open>next\<close> and
  \<^verbatim>\<open>prev\<close>: \<open>pool_heap\<close> holds the objects in the order they were allocated and a pointer is an
  index into it (\<open>None\<close> is NULL). Failures the code turns into \<^verbatim>\<open>assert(0)\<close> or into a
  NULL dereference are values of \<open>mem_fault\<close>; \<open>host_mem\<close> is the number of calls of
  the C library's \<^verbatim>\<open>malloc\<close> that will still succeed. Fields that \<^verbatim>\<open>malloc\<close> leaves
  uninitialised are \<open>None\<close>. Loops that chase pointers carry fuel; \<open>OutOfFuel\<close> never
  happens on a well-formed list (theory \<open>Pool_Inv\<close>).
\<close>

datatype mem_fault = OutOfMemory | HostMalloc | NullDeref | FreeSizeZero | FreeNotFound
  | Uninitialised | BadDevice | DriverInit | OutOfFuel

record page =
  addr :: u64
  alloc_size :: "u32 option"

record mem_pool = pool_bits +
  start_va :: u64
  large_mem_pool :: bool
  head_page :: "page list"
  next_pool :: "nat option"
  prev_pool :: "nat option"

record pim_mem =
  ntotal_mem_pools :: u32
  curr_mem_pool :: "nat option"
  head_mem_pool :: "nat option"
  tail_mem_pool :: "nat option"
  pool_heap :: "mem_pool list"
  drv :: pim_mem_t
  host_mem :: nat

abbreviation pool :: "pim_mem \<Rightarrow> nat \<Rightarrow> mem_pool" where
  "pool d k \<equiv> pool_heap d ! k"

definition upd_pool :: "nat \<Rightarrow> (mem_pool \<Rightarrow> mem_pool) \<Rightarrow> pim_mem \<Rightarrow> pim_mem" where
  "upd_pool k f d = d\<lparr>pool_heap := (pool_heap d)[k := f (pool d k)]\<rparr>"

definition fresh_pages :: "u64 \<Rightarrow> page list" where
  "fresh_pages va = map (\<lambda>i. \<lparr>addr = va + of_nat (i * PAGE_SIZE), alloc_size = None\<rparr>) [0..<NUM_PAGES]"

definition new_pool :: "u64 \<Rightarrow> u32 \<Rightarrow> bool \<Rightarrow> nat option \<Rightarrow> mem_pool" where
  "new_pool va nfree large prv =
     \<lparr>curr_idx = 0, nfree_pages = nfree, bit_vector = free_flag NUM_PAGES, start_va = va,
      large_mem_pool = large, head_page = fresh_pages va, next_pool = None, prev_pool = prv\<rparr>"

section \<open>Growing the list\<close>

definition multi_mem_pool_allocation :: "pim_mem \<Rightarrow> mem_fault + (pim_mem \<times> nat option)" where
  "multi_mem_pool_allocation d =
     (if host_mem d = 0 then Inl HostMalloc
      else case multi_mmap_drv (of_nat HUGE_PAGE_SIZE) (drv d) of
        None \<Rightarrow> Inl OutOfMemory
      | Some (va, drv') \<Rightarrow>
          (let d1 = d\<lparr>host_mem := host_mem d - 1, drv := drv'\<rparr>
           in if va = 0 then Inl OutOfMemory
              else if host_mem d1 = 0 then Inr (d1, None)
              else Inr (d1\<lparr>host_mem := host_mem d1 - 1,
                           pool_heap := pool_heap d1 @ [new_pool va (of_nat NUM_PAGES) False None],
                           ntotal_mem_pools := ntotal_mem_pools d1 + 1\<rparr>,
                        Some (length (pool_heap d1)))))"

text \<open>The macro \<^verbatim>\<open>list_add_tail\<close> followed by the update of \<open>tail_mem_pool\<close>.\<close>

definition list_add_tail :: "nat \<Rightarrow> pim_mem \<Rightarrow> mem_fault + pim_mem" where
  "list_add_tail new d =
     (case tail_mem_pool d of
        None \<Rightarrow> Inl NullDeref
      | Some t \<Rightarrow>
          (let d1 = upd_pool new (\<lambda>p. p\<lparr>prev_pool := Some t\<rparr>) d;
               d2 = upd_pool t (\<lambda>p. p\<lparr>next_pool := Some new\<rparr>) d1
           in Inr (d2\<lparr>tail_mem_pool := Some new\<rparr>)))"

text \<open>
  The loop of \<^verbatim>\<open>_multi_large_mem_pool_allocation\<close>, \<open>r\<close> iterations left, \<open>i\<close> done.
\<close>

fun large_alloc_loop :: "nat \<Rightarrow> nat \<Rightarrow> u64 \<Rightarrow> pim_mem \<Rightarrow> mem_fault + pim_mem" where
  "large_alloc_loop 0 i large d = Inr d"
| "large_alloc_loop (Suc r) i large d =
     (if host_mem d < 2 then Inl HostMalloc
      else
        (let va = large + of_nat (i * HUGE_PAGE_SIZE);
             new = length (pool_heap d);
             d1 = d\<lparr>host_mem := host_mem d - 2,
                    pool_heap := pool_heap d @ [new_pool va 0 True None],
                    ntotal_mem_pools := ntotal_mem_pools d + 1\<rparr>
         in case list_add_tail new d1 of
              Inl e \<Rightarrow> Inl e
            | Inr d2 \<Rightarrow> large_alloc_loop r (Suc i) large d2))"

definition set_alloc_size :: "nat \<Rightarrow> u32 \<Rightarrow> mem_pool \<Rightarrow> mem_pool" where
  "set_alloc_size i n p = p\<lparr>head_page := (head_page p)[i := (head_page p ! i)\<lparr>alloc_size := Some n\<rparr>]\<rparr>"

definition multi_large_mem_pool_allocation :: "pim_mem \<Rightarrow> u32 \<Rightarrow> mem_fault + (pim_mem \<times> nat)" where
  "multi_large_mem_pool_allocation d num =
     (case multi_mmap_drv (of_nat HUGE_PAGE_SIZE * num) (drv d) of
        None \<Rightarrow> Inl OutOfMemory
      | Some (large, drv') \<Rightarrow>
          if large = 0 then Inl OutOfMemory
          else if num = 0 then Inl NullDeref
          else
            (let first = length (pool_heap d)
             in case large_alloc_loop (unat num) 0 large (d\<lparr>drv := drv'\<rparr>) of
                  Inl e \<Rightarrow> Inl e
                | Inr d1 \<Rightarrow>
                    (let d2 = upd_pool (first + unat num - 1) (\<lambda>p. p\<lparr>large_mem_pool := False\<rparr>) d1;
                         d3 = upd_pool first (set_alloc_size 0 (of_nat NUM_PAGES)) d2
                     in Inr (d3, first))))"

section \<open>The large-pool path of \<^verbatim>\<open>mpim_malloc\<close>\<close>

text \<open>
  The backward search. The result is \<open>(find_mem_pool, tail_mem_pool, need_more,
  need_more_mem_pool)\<close> when the loop has ended.
\<close>

definition both_free :: "pim_mem \<Rightarrow> nat \<Rightarrow> bool" where
  "both_free d t \<longleftrightarrow> nfree_pages (pool d t) = of_nat NUM_PAGES \<and>
     (case prev_pool (pool d t) of None \<Rightarrow> False
      | Some q \<Rightarrow> nfree_pages (pool d q) = of_nat NUM_PAGES)"

fun search_back ::
  "nat \<Rightarrow> pim_mem \<Rightarrow> u32 \<Rightarrow> nat option \<Rightarrow> u32 \<Rightarrow> u32 \<Rightarrow> u32 \<Rightarrow> nat option \<Rightarrow>
     (bool \<times> nat option \<times> u32 \<times> nat option) option" where
  "search_back 0 d num pos cnt iter need more_pool = None"
| "search_back (Suc fuel) d num None cnt iter need more_pool = Some (False, None, need, more_pool)"
| "search_back (Suc fuel) d num (Some t) cnt iter need more_pool =
     (if both_free d t then
        (if cnt + 1 = num - 1 then Some (True, prev_pool (pool d t), need, more_pool)
         else search_back fuel d num (prev_pool (pool d t)) (cnt + 1) iter need more_pool)
      else
        (let hit = iter = 0 \<and> nfree_pages (pool d t) = of_nat NUM_PAGES;
             need' = (if hit then num - cnt - 1 else need);
             more_pool' = (if hit then Some t else more_pool)
         in if 0 = num - 1 then Some (True, prev_pool (pool d t), need', more_pool')
            else search_back fuel d num (prev_pool (pool d t)) 0 (iter + 1) need' more_pool'))"

text \<open>The marking loop \<^verbatim>\<open>list_for_next_value\<close>, the same in three branches.\<close>

fun mark_large :: "nat \<Rightarrow> u32 \<Rightarrow> u32 \<Rightarrow> nat option \<Rightarrow> pim_mem \<Rightarrow> mem_fault + pim_mem" where
  "mark_large 0 i num pos d = Inr d"
| "mark_large (Suc r) i num None d = Inl NullDeref"
| "mark_large (Suc r) i num (Some k) d =
     mark_large r (i + 1) num (next_pool (pool d k))
       (upd_pool k (\<lambda>p. p\<lparr>large_mem_pool := (i \<noteq> num - 1), nfree_pages := 0\<rparr>) d)"

definition num_pools_for :: "u64 \<Rightarrow> u32" where
  "num_pools_for sz =
     (let tmp = sz div of_nat HUGE_PAGE_SIZE
      in ucast (if sz mod of_nat HUGE_PAGE_SIZE \<noteq> 0 then tmp + 1 else tmp))"

definition large_found :: "pim_mem \<Rightarrow> u32 \<Rightarrow> nat option \<Rightarrow> mem_fault + (pim_mem \<times> u64)" where
  "large_found d num pos =
     (case pos of None \<Rightarrow> Inl NullDeref
      | Some t \<Rightarrow>
          (case mark_large (unat num) 0 num (Some t) (d\<lparr>curr_mem_pool := Some t\<rparr>) of
             Inl e \<Rightarrow> Inl e
           | Inr d' \<Rightarrow> Inr (d', addr (head_page (pool d t) ! 0))))"

definition large_extend_one :: "pim_mem \<Rightarrow> u32 \<Rightarrow> nat \<Rightarrow> mem_fault + (pim_mem \<times> u64)" where
  "large_extend_one d num q =
     (let ret = addr (head_page (pool d q) ! 0)
      in case multi_mem_pool_allocation d of
           Inl e \<Rightarrow> Inl e
         | Inr (d1, tmp) \<Rightarrow>
             (case (tail_mem_pool d, tmp) of
                (Some t, Some new) \<Rightarrow>
                  (let d2 = d1\<lparr>tail_mem_pool := Some new, curr_mem_pool := Some q\<rparr>;
                       d3 = upd_pool t (\<lambda>p. p\<lparr>next_pool := Some new\<rparr>) d2;
                       d4 = upd_pool new (\<lambda>p. p\<lparr>prev_pool := Some t\<rparr>) d3
                   in case mark_large (unat num) 0 num (Some q) d4 of
                        Inl e \<Rightarrow> Inl e | Inr d5 \<Rightarrow> Inr (d5, ret))
              | _ \<Rightarrow> Inl NullDeref))"

definition large_extend_many :: "pim_mem \<Rightarrow> u32 \<Rightarrow> u32 \<Rightarrow> nat \<Rightarrow> mem_fault + (pim_mem \<times> u64)" where
  "large_extend_many d num need q =
     (let ret = addr (head_page (pool d q) ! 0)
      in case multi_large_mem_pool_allocation d need of
           Inl e \<Rightarrow> Inl e
         | Inr (d1, new) \<Rightarrow>
             (case tail_mem_pool d of
                None \<Rightarrow> Inl NullDeref
              | Some t \<Rightarrow>
                  (let d2 = d1\<lparr>curr_mem_pool := Some q\<rparr>;
                       d3 = upd_pool t (\<lambda>p. p\<lparr>next_pool := Some new\<rparr>) d2;
                       d4 = upd_pool new (\<lambda>p. p\<lparr>prev_pool := Some t\<rparr>) d3
                   in case mark_large (unat num) 0 num (Some q) d4 of
                        Inl e \<Rightarrow> Inl e | Inr d5 \<Rightarrow> Inr (d5, ret))))"

definition large_fresh :: "pim_mem \<Rightarrow> u32 \<Rightarrow> mem_fault + (pim_mem \<times> u64)" where
  "large_fresh d num =
     (case multi_large_mem_pool_allocation d num of
        Inl e \<Rightarrow> Inl e
      | Inr (d1, new) \<Rightarrow> Inr (d1\<lparr>curr_mem_pool := Some new\<rparr>, addr (head_page (pool d1 new) ! 0)))"

definition malloc_large :: "pim_mem \<Rightarrow> u64 \<Rightarrow> mem_fault + (pim_mem \<times> u64)" where
  "malloc_large d sz =
     (let num = num_pools_for sz
      in case search_back (Suc (length (pool_heap d))) d num (tail_mem_pool d) 0 0 0 None of
           None \<Rightarrow> Inl OutOfFuel
         | Some (True, pos, need, more_pool) \<Rightarrow> large_found d num pos
         | Some (False, pos, need, more_pool) \<Rightarrow>
             (case more_pool of
                Some q \<Rightarrow>
                  if need = 1 then large_extend_one d num q
                  else if need > 1 then large_extend_many d num need q
                  else large_fresh d num
              | None \<Rightarrow> large_fresh d num))"

section \<open>The page path of \<^verbatim>\<open>mpim_malloc\<close>\<close>

definition nalloc_pages_for :: "u64 \<Rightarrow> u32" where
  "nalloc_pages_for sz =
     (let q = sz div of_nat PAGE_SIZE;
          n = ucast (if q \<noteq> 0 then q else 1)
      in if sz mod of_nat PAGE_SIZE \<noteq> 0 then n + 1 else n)"

fun find_fit :: "nat \<Rightarrow> pim_mem \<Rightarrow> u32 \<Rightarrow> nat option \<Rightarrow> nat option option" where
  "find_fit 0 d n pos = None"
| "find_fit (Suc fuel) d n None = Some None"
| "find_fit (Suc fuel) d n (Some k) =
     (if n \<le> nfree_pages (pool d k) then Some (Some k)
      else find_fit fuel d n (next_pool (pool d k)))"

text \<open>The body after the label \<^verbatim>\<open>find_mem_pool\<close>: the pool to try, a new one if there is none.\<close>

definition pick_pool :: "pim_mem \<Rightarrow> u32 \<Rightarrow> nat option \<Rightarrow> mem_fault + (pim_mem \<times> nat)" where
  "pick_pool d n pos =
     (case find_fit (Suc (length (pool_heap d))) d n pos of
        None \<Rightarrow> Inl OutOfFuel
      | Some (Some k) \<Rightarrow> Inr (d, k)
      | Some None \<Rightarrow>
          (case multi_mem_pool_allocation d of
             Inl e \<Rightarrow> Inl e
           | Inr (d1, None) \<Rightarrow> Inl NullDeref
           | Inr (d1, Some new) \<Rightarrow>
               (case list_add_tail new d1 of
                  Inl e \<Rightarrow> Inl e
                | Inr d2 \<Rightarrow> Inr (d2, new))))"

fun find_mem_pool :: "nat \<Rightarrow> pim_mem \<Rightarrow> u32 \<Rightarrow> nat option \<Rightarrow> mem_fault + (pim_mem \<times> nat \<times> nat)" where
  "find_mem_pool 0 d n pos = Inl OutOfFuel"
| "find_mem_pool (Suc fuel) d n pos =
     (case pick_pool d n pos of
        Inl e \<Rightarrow> Inl e
      | Inr (d1, k) \<Rightarrow>
          (case set_bit_vector (pool d1 k) (unat n) of
             (p, idx) \<Rightarrow>
               (let d2 = upd_pool k (\<lambda>_. p) d1
                in if idx < 0 then find_mem_pool fuel d2 n (next_pool p)
                   else Inr (d2, k, nat idx))))"

definition malloc_pages :: "pim_mem \<Rightarrow> u32 \<Rightarrow> mem_fault + (pim_mem \<times> u64)" where
  "malloc_pages d n =
     (case curr_mem_pool d of
        None \<Rightarrow> Inl NullDeref
      | Some c \<Rightarrow>
          (let start = (if n > nfree_pages (pool d c) then head_mem_pool d else Some c)
           in case find_mem_pool (length (pool_heap d) + 2) d n start of
                Inl e \<Rightarrow> Inl e
              | Inr (d1, k, idx) \<Rightarrow>
                  (let d2 = upd_pool k (set_alloc_size idx n) d1
                   in Inr (d2\<lparr>curr_mem_pool := Some k\<rparr>, addr (head_page (pool d1 k) ! idx)))))"

definition malloc_dev :: "pim_mem \<Rightarrow> u64 \<Rightarrow> mem_fault + (pim_mem \<times> u64)" where
  "malloc_dev d sz =
     (if sz > of_nat HUGE_PAGE_SIZE then malloc_large d sz
      else malloc_pages d (nalloc_pages_for sz))"

section \<open>\<^verbatim>\<open>mpim_free\<close>\<close>

fun find_addr :: "nat \<Rightarrow> pim_mem \<Rightarrow> u64 \<Rightarrow> nat option \<Rightarrow> nat option option" where
  "find_addr 0 d a pos = None"
| "find_addr (Suc fuel) d a None = Some None"
| "find_addr (Suc fuel) d a (Some k) =
     (if start_va (pool d k) \<le> a \<and> start_va (pool d k) + of_nat HUGE_PAGE_SIZE - 1 \<ge> a
      then Some (Some k)
      else find_addr fuel d a (next_pool (pool d k)))"

text \<open>The loop at \<^verbatim>\<open>need_free\<close>.\<close>

fun free_large :: "nat \<Rightarrow> nat option \<Rightarrow> pim_mem \<Rightarrow> pim_mem option" where
  "free_large 0 pos d = None"
| "free_large (Suc fuel) None d = Some d"
| "free_large (Suc fuel) (Some k) d =
     (let d1 = upd_pool k (\<lambda>p. p\<lparr>nfree_pages := of_nat NUM_PAGES\<rparr>) d
      in if \<not> large_mem_pool (pool d1 k) then Some d1
         else free_large fuel (next_pool (pool d1 k))
                (upd_pool k (\<lambda>p. p\<lparr>large_mem_pool := False\<rparr>) d1))"

definition free_page :: "pim_mem \<Rightarrow> nat \<Rightarrow> u64 \<Rightarrow> mem_fault + pim_mem" where
  "free_page d k a =
     (let page_idx = unat (drop_bit PAGE_SHIFT (a - start_va (pool d k)))
      in case alloc_size (head_page (pool d k) ! page_idx) of
           None \<Rightarrow> Inl Uninitialised
         | Some free_size \<Rightarrow>
             if free_size = 0 then Inl FreeSizeZero
             else Inr (upd_pool k (\<lambda>p. clr_bit_vector p page_idx (unat free_size)) d))"

definition free_dev :: "pim_mem \<Rightarrow> u64 \<Rightarrow> mem_fault + pim_mem" where
  "free_dev d a =
     (case find_addr (Suc (length (pool_heap d))) d a (head_mem_pool d) of
        None \<Rightarrow> Inl OutOfFuel
      | Some None \<Rightarrow> Inl FreeNotFound
      | Some (Some k) \<Rightarrow>
          if large_mem_pool (pool d k) then
            (case free_large (Suc (length (pool_heap d))) (Some k) d of
               None \<Rightarrow> Inl OutOfFuel | Some d' \<Rightarrow> Inr d')
          else free_page d k a)"

section \<open>The library calls over all devices\<close>

record pim_lib =
  mem_pool_list :: "pim_mem list option"

text \<open>
  First use: every device gets its driver node and a first pool. \<open>junk\<close> is the content of
  the freshly \<^verbatim>\<open>malloc\<close>ed array, of which only \<open>ntotal_mem_pools\<close> is read before
  it is written.
\<close>

definition init_device :: "pim_mem_t \<Rightarrow> u32 \<Rightarrow> nat \<Rightarrow> mem_fault + pim_mem" where
  "init_device node junk hm =
     (case multi_mem_pool_allocation
         \<lparr>ntotal_mem_pools = junk, curr_mem_pool = None, head_mem_pool = None,
          tail_mem_pool = None, pool_heap = [], drv = node, host_mem = hm\<rparr> of
        Inl e \<Rightarrow> Inl e
      | Inr (d, new) \<Rightarrow>
          Inr (d\<lparr>curr_mem_pool := new, head_mem_pool := new, tail_mem_pool := new\<rparr>))"

fun init_devices :: "pim_mem_t list \<Rightarrow> (nat \<Rightarrow> u32) \<Rightarrow> nat \<Rightarrow> nat \<Rightarrow> mem_fault + pim_mem list" where
  "init_devices [] junk hm i = Inr []"
| "init_devices (node # nodes) junk hm i =
     (case init_device node (junk i) hm of
        Inl e \<Rightarrow> Inl e
      | Inr d \<Rightarrow> (case init_devices nodes junk hm (Suc i) of
                   Inl e \<Rightarrow> Inl e | Inr ds \<Rightarrow> Inr (d # ds)))"

definition mpim_init :: "drv_env \<Rightarrow> nat \<Rightarrow> (nat \<Rightarrow> u32) \<Rightarrow> nat \<Rightarrow> pim_lib \<Rightarrow> mem_fault + pim_mem list" where
  "mpim_init env totalDevNum junk hm st =
     (case mem_pool_list st of
        Some ds \<Rightarrow> Inr ds
      | None \<Rightarrow>
          (case init_mpim_drv env totalDevNum of
             None \<Rightarrow> Inl DriverInit
           | Some nodes \<Rightarrow> init_devices nodes junk hm 0))"

definition mpim_malloc ::
  "drv_env \<Rightarrow> nat \<Rightarrow> (nat \<Rightarrow> u32) \<Rightarrow> nat \<Rightarrow> pim_lib \<Rightarrow> u64 \<Rightarrow> nat \<Rightarrow> mem_fault + (pim_lib \<times> u64)" where
  "mpim_malloc env totalDevNum junk hm st sz fpga_id =
     (case mpim_init env totalDevNum junk hm st of
        Inl e \<Rightarrow> Inl e
      | Inr ds \<Rightarrow>
          if fpga_id \<ge> length ds then Inl BadDevice
          else (case malloc_dev (ds ! fpga_id) sz of
                  Inl e \<Rightarrow> Inl e
                | Inr (d, a) \<Rightarrow> Inr (st\<lparr>mem_pool_list := Some (ds[fpga_id := d])\<rparr>, a)))"

definition mpim_free :: "pim_lib \<Rightarrow> u64 \<Rightarrow> nat \<Rightarrow> mem_fault + pim_lib" where
  "mpim_free st a fpga_id =
     (case mem_pool_list st of
        None \<Rightarrow> Inl NullDeref
      | Some ds \<Rightarrow>
          if fpga_id \<ge> length ds then Inl BadDevice
          else (case free_dev (ds ! fpga_id) a of
                  Inl e \<Rightarrow> Inl e
                | Inr d \<Rightarrow> Inr (st\<lparr>mem_pool_list := Some (ds[fpga_id := d])\<rparr>)))"

text \<open>
  \<^verbatim>\<open>_multi_real_free\<close>, run at exit: the pools each device's list releases, in order, and the
  device after \<^verbatim>\<open>init_mpim_mem\<close> and \<^verbatim>\<open>__release_mpim_drv\<close>.
\<close>

fun real_free_walk :: "nat \<Rightarrow> pim_mem \<Rightarrow> nat option \<Rightarrow> nat list option" where
  "real_free_walk 0 d pos = None"
| "real_free_walk (Suc fuel) d None = Some []"
| "real_free_walk (Suc fuel) d (Some k) =
     map_option (Cons k) (real_free_walk fuel d (next_pool (pool d k)))"

definition init_mpim_mem :: "pim_mem \<Rightarrow> pim_mem" where
  "init_mpim_mem d = d\<lparr>ntotal_mem_pools := 0, curr_mem_pool := None, head_mem_pool := None,
     tail_mem_pool := None\<rparr>"

definition multi_real_free_dev :: "pim_mem \<Rightarrow> (nat list \<times> pim_mem) option" where
  "multi_real_free_dev d =
     map_option (\<lambda>ks. (ks, init_mpim_mem (d\<lparr>drv := release_node (drv d)\<rparr>)))
       (real_free_walk (Suc (length (pool_heap d))) d (head_mem_pool d))"

end
