(* ===== verification/Pim_Vec.thy ===== *)
theory Pim_Vec
  imports Pim_Kernels Mem_Pool
begin

text \<open>
  The element-wise kernels of \<^verbatim>\<open>src/pim_math_src/elewise.c\<close>, the test access to the PIM units'
  memory of \<^verbatim>\<open>pmm_access.c\<close> and the rest of \<^verbatim>\<open>mdrv_interface.c\<close>, as built (\<^verbatim>\<open>CLP\<close> and \<^verbatim>\<open>PMM\<close>
  defined, \<^verbatim>\<open>QDMA\<close> not). These kernels keep a list of instructions for the channels in a buffer
  taken from the PIM allocator (theory \<open>Mem_Pool\<close>) and write descriptors into the lists of two
  devices: some calls pass the number of the device, others the number 0. The value \<open>None\<close>: the
  call does not return (an \<^verbatim>\<open>assert\<close>, a division by zero), or it has written past the descriptor array or
  past the pages of its code buffer.
\<close>

section \<open>Constants\<close>

definition CH_NUM :: u32 where "CH_NUM = 16"
definition MAX_BATCH :: u32 where "MAX_BATCH = 1"
definition B_DUMMY :: u32 where "B_DUMMY = 0xd0000000"
definition ISA_BYTES :: u64 where "ISA_BYTES = 64"
definition ISA_32_BYTES :: u64 where "ISA_32_BYTES = 32"
definition CL_DATA_BYTES :: u64 where "CL_DATA_BYTES = 32"

lemmas vec_consts = CH_NUM_def MAX_BATCH_def ISA_BYTES_def ISA_32_BYTES_def CL_DATA_BYTES_def

section \<open>State\<close>

text \<open>
  The lists of all devices share the two cursors, which are locals of the kernel. \<open>on_dev d f\<close>
  runs a builder on the list of device \<open>d\<close>.
\<close>

record vec_state = code_state +
  lists :: "nat \<Rightarrow> u32 \<Rightarrow> pim_isa_t option"
  vec_idx :: u32
  vec_nxt :: u32
  vec_past :: bool

definition overrun :: "vec_state \<Rightarrow> bool" where
  "overrun s \<longleftrightarrow> vec_past s \<or> code_over s"

definition view :: "nat \<Rightarrow> vec_state \<Rightarrow> isa_state" where
  "view d s = \<lparr>isa = lists s d, idx = vec_idx s, nxt = vec_nxt s, past_end = vec_past s\<rparr>"

definition on_dev :: "nat \<Rightarrow> (isa_state \<Rightarrow> isa_state) \<Rightarrow> vec_state \<Rightarrow> vec_state" where
  "on_dev d f s =
     (let t = f (view d s)
      in s\<lparr>lists := (lists s)(d := isa t), vec_idx := idx t, vec_nxt := nxt t, vec_past := past_end t\<rparr>)"

text \<open>
  The room of a buffer: the pages, or the huge pages, the allocator takes for a request. The code buffer of
  a request of \<open>sz\<close> bytes holds as many instructions of 32 bytes as fit there.
\<close>

definition alloc_room :: "u64 \<Rightarrow> nat" where
  "alloc_room sz = (if sz > of_nat HUGE_PAGE_SIZE then HUGE_PAGE_SIZE * unat (num_pools_for sz)
     else PAGE_SIZE * unat (nalloc_pages_for sz))"

definition vec_start :: "pl_dma_t \<Rightarrow> u64 \<Rightarrow> (nat \<Rightarrow> u32 \<Rightarrow> pim_isa_t option) \<Rightarrow> (u32 \<Rightarrow> pim_isa_t option) \<Rightarrow> vec_state" where
  "vec_start dev code_bytes isas junk = \<lparr>code = junk, code_idx = 0, code_cap = alloc_room code_bytes div 32,
     code_over = False, lists = isas, vec_idx = 0, vec_nxt = ucast (dev_desc_base dev + 0x40), vec_past = False\<rparr>"

text \<open>The allocator as the kernels call it: \<^verbatim>\<open>pim_malloc(n)\<close> and \<^verbatim>\<open>pim_free(p)\<close> mean device 0.\<close>

record alloc_env =
  alloc_drv :: drv_env
  alloc_devs :: nat
  alloc_junk :: "nat \<Rightarrow> u32"
  alloc_host :: nat

definition pim_malloc0 :: "alloc_env \<Rightarrow> u64 \<Rightarrow> pim_lib \<Rightarrow> (pim_lib \<times> u64) option" where
  "pim_malloc0 ae n lib =
     (case mpim_malloc (alloc_drv ae) (alloc_devs ae) (alloc_junk ae) (alloc_host ae) lib n 0 of
        Inl e \<Rightarrow> None | Inr r \<Rightarrow> Some r)"

definition pim_free0 :: "u64 \<Rightarrow> pim_lib \<Rightarrow> pim_lib option" where
  "pim_free0 a lib = (case mpim_free lib a 0 of Inl e \<Rightarrow> None | Inr r \<Rightarrow> Some r)"

section \<open>\<^verbatim>\<open>_elewise\<close>\<close>

definition vec_r_loop_var :: "u32 \<Rightarrow> u32" where
  "vec_r_loop_var r = ucast (ucast r * 2 div 8192 :: u64)"

definition srcA_reg_offset :: "u32 \<Rightarrow> u64" where
  "srcA_reg_offset op = (if op = OPCODE_ELE_MUL then VECA_OFFSET else VACC_OFFSET)"

definition srcA_attr :: "u32 \<Rightarrow> u32" where
  "srcA_attr op = (if op = OPCODE_ELE_MUL then WR_A_ATTR else WR_C_ATTR)"

text \<open>The sizes of the buffers: an \<^verbatim>\<open>int\<close> number of entries, converted to \<^verbatim>\<open>size_t\<close>.\<close>

definition n_code_of :: "u32 \<Rightarrow> u32 \<Rightarrow> u32" where
  "n_code_of p r = (p * vec_r_loop_var r) * (CH_NUM + CH_NUM + CH_NUM)"

definition n_desc_of :: "u32 \<Rightarrow> u32 \<Rightarrow> u32" where
  "n_desc_of p r = (p * vec_r_loop_var r) * (2 + 2 + 2)"

definition total_bytes :: "u32 \<Rightarrow> u32 \<Rightarrow> u64" where
  "total_bytes p r = ucast (p * r) * 2"

definition batch_chunk_of :: "u64 \<Rightarrow> u64" where
  "batch_chunk_of tot = (if tot < ucast (32 * 16 * CH_NUM * MAX_BATCH) then tot
     else ucast (32 * 16 * CH_NUM * MAX_BATCH))"

text \<open>\<^verbatim>\<open>code_list_pa + code_idx * 0x20\<close>, as the descriptor holds it.\<close>

definition code_src :: "u64 \<Rightarrow> 'a code_state_scheme \<Rightarrow> u32" where
  "code_src code_list_pa s = ucast (code_list_pa + ucast (code_idx s * 0x20))"

text \<open>One pass of the main loop. Only the three calls of the middle part pass the device.\<close>

definition elewise_step :: "nat \<Rightarrow> u32 \<Rightarrow> u64 \<Rightarrow> u64 \<Rightarrow> u64 \<Rightarrow> u64 \<Rightarrow> u64 \<Rightarrow> u64 \<Rightarrow> u64 \<Rightarrow> vec_state \<Rightarrow> vec_state" where
  "elewise_step fpga_id op code_list_pa pmm_pa srcA_pa srcB_pa dstC_pa batch_chunk i s0 =
     (let A_pa = ucast (srcA_pa + i * batch_chunk); B_pa = ucast (srcB_pa + i * batch_chunk);
          C_pa = ucast (dstC_pa + i * batch_chunk); n = ucast batch_chunk;
          A_reg = ucast (pmm_pa + srcA_reg_offset op); acc = ucast (pmm_pa + VACC_OFFSET);
          s1 = on_dev 0 (RdPimCode (code_src code_list_pa s0) CODE_WR_ADDR (32 * CH_NUM) op) s0;
          s2 = (ConfigPimWrInstr A_pa A_reg n (BATCH8 OR srcA_attr op OR push_bit 4 op) ^^ unat CH_NUM) s1;
          s3 = on_dev 0 (WrPimReg A_pa A_reg n op) s2;
          s4 = on_dev fpga_id (RdPimCode (code_src code_list_pa s3) CODE_WR_ADDR (32 * CH_NUM) op) s3;
          s5 = (ConfigPimRdInstr B_pa B_DUMMY n (RD_B_ATTR OR push_bit 4 op) ^^ unat CH_NUM) s4;
          s6 = on_dev fpga_id (PIM_RD_INSTR B_pa B_DUMMY (32 * CH_NUM) op) s5;
          s7 = on_dev 0 (RdPimCode (code_src code_list_pa s6) CODE_WR_ADDR (32 * CH_NUM) op) s6;
          s8 = (ConfigPimRdInstr acc C_pa n (RD_C_ATTR OR push_bit 4 op) ^^ unat CH_NUM) s7
      in on_dev 0 (RdPimReg acc C_pa n op) s8)"

fun elewise_loop :: "nat \<Rightarrow> nat \<Rightarrow> (u64 \<Rightarrow> vec_state \<Rightarrow> vec_state) \<Rightarrow> vec_state \<Rightarrow> vec_state" where
  "elewise_loop 0 i body s = s"
| "elewise_loop (Suc n) i body s = elewise_loop n (Suc i) body (body (of_nat i) s)"

record elewise_result =
  ew_ret :: int
  ew_args :: math_args
  ew_state :: vec_state
  ew_lib :: pim_lib
  ew_pl :: pl_state
  ew_attr :: cl_data_t
  ew_code :: u64

definition vec_exec :: "math_env \<Rightarrow> nat \<Rightarrow> math_args \<Rightarrow> vec_state \<Rightarrow> pl_state \<Rightarrow> int \<times> math_args \<times> pl_state" where
  "vec_exec env fpga_id args s st =
     mpim_exec env fpga_id (args\<lparr>desc_idx := vec_idx s - 1, desc_last := vec_nxt s - 0x40\<rparr>) st"

definition elewise :: "math_env \<Rightarrow> alloc_env \<Rightarrow> nat \<Rightarrow> u32 \<Rightarrow> math_args \<Rightarrow> (nat \<Rightarrow> u32 \<Rightarrow> pim_isa_t option)
    \<Rightarrow> (u32 \<Rightarrow> pim_isa_t option) \<Rightarrow> pim_lib \<Rightarrow> pl_state \<Rightarrow> elewise_result option" where
  "elewise env ae fpga_id op args isas junk lib st = do {
     _ \<leftarrow> VA2PA env 0 (srcA_va args);
     _ \<leftarrow> VA2PA env 0 (srcB_va args);
     _ \<leftarrow> VA2PA env 0 (dstC_va args);
     let p = p_size args; let r = r_size args;
     let code_bytes = ISA_32_BYTES * scast (n_code_of p r);
     (lib1, code_list) \<leftarrow> pim_malloc0 ae code_bytes lib;
     code_list_pa \<leftarrow> VA2PA env 0 code_list;
     (lib2, desc_list) \<leftarrow> pim_malloc0 ae (ISA_BYTES * scast (n_desc_of p r)) lib1;
     dev \<leftarrow> pl_dev env fpga_id;
     pmm_pa \<leftarrow> VA2PA env 0 (pmm_base_addr args);
     let batch_chunk = batch_chunk_of (total_bytes p r);
     if batch_chunk = 0 then None else do {
       let iter = total_bytes p r div batch_chunk;
       srcA_pa \<leftarrow> VA2PA env fpga_id (srcA_va args);
       srcB_pa \<leftarrow> VA2PA env fpga_id (srcB_va args);
       dstC_pa \<leftarrow> VA2PA env fpga_id (dstC_va args);
       (lib3, op_attr_data) \<leftarrow> pim_malloc0 ae CL_DATA_BYTES lib2;
       attr_pa \<leftarrow> VA2PA env fpga_id op_attr_data;
       let (attr, t) = ConfigOpAttr (ucast attr_pa) 0 (ucast srcB_pa) 0 (ucast iter) (ucast batch_chunk)
             p r r op (view fpga_id (vec_start dev code_bytes isas junk));
       let s0 = on_dev fpga_id (\<lambda>_. t) (vec_start dev code_bytes isas junk);
       let s = elewise_loop (unat iter) 0
             (elewise_step fpga_id op code_list_pa pmm_pa srcA_pa srcB_pa dstC_pa batch_chunk) s0;
       if overrun s then None else do {
         let (ret, args1, st1) = vec_exec env fpga_id args s st;
         lib4 \<leftarrow> pim_free0 code_list lib3;
         lib5 \<leftarrow> pim_free0 desc_list lib4;
         lib6 \<leftarrow> pim_free0 op_attr_data lib5;
         Some \<lparr>ew_ret = 0, ew_args = args1, ew_state = s, ew_lib = lib6, ew_pl = st1, ew_attr = attr,
               ew_code = code_list\<rparr>
       }
     }
   }"

text \<open>The entry points; \<^verbatim>\<open>in.fpga_id ? in.fpga_id : 0\<close> is \<^verbatim>\<open>in.fpga_id\<close>.\<close>

definition elewise_add where "elewise_add env ae fpga_id = elewise env ae fpga_id OPCODE_ELE_ADD"
definition elewise_sub where "elewise_sub env ae fpga_id = elewise env ae fpga_id OPCODE_ELE_SUB"
definition elewise_mul where "elewise_mul env ae fpga_id = elewise env ae fpga_id OPCODE_ELE_MUL"

section \<open>\<^verbatim>\<open>_bias_op\<close>\<close>

definition bias_q :: "math_env \<Rightarrow> nat \<Rightarrow> u32 \<Rightarrow> math_args \<Rightarrow> u32 \<Rightarrow> u32 \<Rightarrow> mm_state \<Rightarrow> mm_state option" where
  "bias_q env fpga_id op args r q s = do {
     let A_off = r * TYPE_SIZE;
     (a, A_pa) \<leftarrow> seek_abs env fpga_id (srcA_va args) A_off (A_base s);
     let offset = q * r_size args * TYPE_SIZE + r * TYPE_SIZE;
     (b, B_pa) \<leftarrow> seek_abs env fpga_id (srcB_va args) offset (B_base s);
     (c, C_pa) \<leftarrow> seek_abs env fpga_id (dstC_va args) offset (C_base s);
     Some (PIM_WR_INSTR BRAM_DUMMY C_pa PIM_WIDTH (WR_C_ATTR OR push_bit 4 op)
          (PIM_RD_INSTR B_pa BRAM_DUMMY PIM_WIDTH (RD_B_ATTR OR push_bit 4 op)
            (PIM_RD_INSTR A_pa BRAM_DUMMY PIM_WIDTH (RD_A_ATTR OR push_bit 4 op)
              (s\<lparr>A_base := a, B_base := b, C_base := c\<rparr>))))
   }"

definition bias_op :: "math_env \<Rightarrow> nat \<Rightarrow> u32 \<Rightarrow> math_args \<Rightarrow> (u32 \<Rightarrow> pim_isa_t option) \<Rightarrow> pl_state \<Rightarrow> mm_result" where
  "bias_op env fpga_id op args isa0 st = do {
     dev \<leftarrow> pl_dev env fpga_id;
     s \<leftarrow> u32_for (REG_SIZE * NUM_BANKS) 0 (r_size args)
       (\<lambda>r. u32_for 1 0 (q_size args) (bias_q env fpga_id op args r)) (mm_start dev isa0);
     mm_exec env fpga_id args s st
   }"

definition bias_add where "bias_add env fpga_id = bias_op env fpga_id OPCODE_ELE_ADD"
definition bias_sub where "bias_sub env fpga_id = bias_op env fpga_id OPCODE_ELE_SUB"
definition bias_mul where "bias_mul env fpga_id = bias_op env fpga_id OPCODE_ELE_MUL"

section \<open>\<^verbatim>\<open>pmm_access\<close>\<close>

definition PMM_LEN :: u32 where "PMM_LEN = 32 * 16 * CH_NUM * 8"

text \<open>Writes operand A into every unit's accumulator and reads it back into \<^verbatim>\<open>vecA_buf\<close>; device 0 only.\<close>

definition pmm_instrs :: "u64 \<Rightarrow> u64 \<Rightarrow> u64 \<Rightarrow> u64 \<Rightarrow> vec_state \<Rightarrow> vec_state" where
  "pmm_instrs code_list_pa pmm_pa A_pa vecA_buf_pa s0 =
     (let op = OPCODE_ELE_ADD; acc = ucast (pmm_pa + VACC_OFFSET);
          s1 = on_dev 0 (RdPimCode (code_src code_list_pa s0) CODE_WR_ADDR (32 * CH_NUM) op) s0;
          s2 = (ConfigPimWrInstr (ucast A_pa) acc PMM_LEN (WR_C_ATTR OR push_bit 4 op OR 0x1) ^^ unat CH_NUM) s1;
          s3 = on_dev 0 (WrPimReg (ucast A_pa) acc PMM_LEN op) s2;
          s4 = on_dev 0 (RdPimCode (code_src code_list_pa s3) CODE_WR_ADDR (32 * CH_NUM) op) s3;
          s5 = (ConfigPimRdInstr acc (ucast vecA_buf_pa) PMM_LEN (WR_C_ATTR OR push_bit 4 op) ^^ unat CH_NUM) s4
      in on_dev 0 (RdPimReg acc (ucast vecA_buf_pa) PMM_LEN op) s5)"

definition pmm_access :: "math_env \<Rightarrow> alloc_env \<Rightarrow> math_args \<Rightarrow> u64 \<Rightarrow> (nat \<Rightarrow> u32 \<Rightarrow> pim_isa_t option)
    \<Rightarrow> (u32 \<Rightarrow> pim_isa_t option) \<Rightarrow> pim_lib \<Rightarrow> pl_state \<Rightarrow> (int \<times> math_args \<times> vec_state \<times> pim_lib \<times> pl_state) option" where
  "pmm_access env ae args vACC_buf isas junk lib st = do {
     _ \<leftarrow> VA2PA env 0 (srcA_va args);
     _ \<leftarrow> VA2PA env 0 (srcB_va args);
     _ \<leftarrow> VA2PA env 0 (dstC_va args);
     vecA_buf_pa \<leftarrow> VA2PA env 0 (vecA_buf args);
     _ \<leftarrow> VA2PA env 0 vACC_buf;
     let p = p_size args; let r = r_size args;
     let code_bytes = ISA_32_BYTES * scast (n_code_of p r * 10);
     (lib1, code_list) \<leftarrow> pim_malloc0 ae code_bytes lib;
     code_list_pa \<leftarrow> VA2PA env 0 code_list;
     dev \<leftarrow> pl_dev env 0;
     (lib2, op_attr_data) \<leftarrow> pim_malloc0 ae CL_DATA_BYTES lib1;
     _ \<leftarrow> VA2PA env 0 op_attr_data;
     pmm_pa \<leftarrow> VA2PA env 0 (pmm_base_addr args);
     A_pa \<leftarrow> VA2PA env 0 (srcA_va args);
     _ \<leftarrow> VA2PA env 0 (srcB_va args);
     let s = pmm_instrs code_list_pa pmm_pa A_pa vecA_buf_pa (vec_start dev code_bytes isas junk);
     if overrun s then None else do {
       let (ret, args1, st1) = vec_exec env 0 args s st;
       lib3 \<leftarrow> pim_free0 code_list lib2;
       lib4 \<leftarrow> pim_free0 op_attr_data lib3;
       Some (0, args1, s, lib4, st1)
     }
   }"

section \<open>The rest of the driver interface\<close>

text \<open>
  \<^verbatim>\<open>CLinternalMemcpy\<close>: the additional argument is stored in \<^verbatim>\<open>cl_size\<close>, a field of \<^verbatim>\<open>pim_args\<close> that
  the driver does not read.
\<close>

definition CLinternalMemcpy :: "math_env \<Rightarrow> nat \<Rightarrow> u64 \<Rightarrow> u64 \<Rightarrow> int \<Rightarrow> u32 \<Rightarrow> math_args \<Rightarrow> pl_state \<Rightarrow> int \<times> pl_state" where
  "CLinternalMemcpy env fpga_id pim_dst pim_src sz cl_size junk st =
     (case pl_dev env fpga_id of
        None \<Rightarrow> (- 1, st)
      | Some dev \<Rightarrow>
          (let copy_code = junk\<lparr>srcA_va := pim_src, dstC_va := pim_dst, srcA_size := of_int sz\<rparr>
           in case pl_dma_ioctl (dev_drv dev) MEMCPY_PL2PL (pim_args.truncate copy_code) st of
                (ret, _, st1) \<Rightarrow> (if ret < 0 then - 1 else 0, st1)))"

text \<open>\<^verbatim>\<open>close_mpim_drv\<close>: the file descriptors it closes, the lists it frees, and the devices left.\<close>

fun close_loop :: "nat \<Rightarrow> nat \<Rightarrow> pl_dma_t list \<Rightarrow> int list \<times> u64 list \<times> pl_dma_t list" where
  "close_loop 0 i devs = ([], [], devs)"
| "close_loop (Suc n) i devs =
     (if dev_fd (devs ! i) \<noteq> 0 then
        (case close_loop n (Suc i) (devs[i := (devs ! i)\<lparr>dev_fd := 0\<rparr>]) of
           (fds, ps, devs') \<Rightarrow> (dev_fd (devs ! i) # fds, dev_isa (devs ! i) # ps, devs'))
      else close_loop n (Suc i) devs)"

definition close_mpim_drv :: "int \<Rightarrow> nat \<Rightarrow> pl_dma_t list option \<Rightarrow> int list \<times> u64 list \<times> pl_dma_t list option" where
  "close_mpim_drv addr_fd n devs =
     (case devs of
        None \<Rightarrow> ([addr_fd], [], None)
      | Some ds \<Rightarrow> (case close_loop n 0 ds of (fds, ps, ds') \<Rightarrow> (addr_fd # fds, ps, Some ds')))"

end
