(* ===== verification/Pool_Links.thy ===== *)
theory Pool_Links
  imports Mem_Pool
begin

text \<open>
  The shape of a device's pool list: the doubly linked list visits the pools in the order
  they were allocated, and the pools tile the device's window without gaps, which is what
  lets the large path hand out a run of neighbours as one contiguous block. Every loop that
  chases a pointer is shown to agree with a search over positions, with the fuel it is
  given.
\<close>

named_theorems pool_frame \<open>fields an update leaves alone\<close>

section \<open>The list\<close>

abbreviation n_pools :: "pim_mem \<Rightarrow> nat" where
  "n_pools d \<equiv> length (pool_heap d)"

definition links_ok :: "pim_mem \<Rightarrow> bool" where
  "links_ok d \<longleftrightarrow> 0 < n_pools d \<and> head_mem_pool d = Some 0
     \<and> tail_mem_pool d = Some (n_pools d - 1)
     \<and> (\<exists>c < n_pools d. curr_mem_pool d = Some c)
     \<and> (\<forall>k < n_pools d. next_pool (pool d k) = (if Suc k < n_pools d then Some (Suc k) else None)
          \<and> prev_pool (pool d k) = (if k = 0 then None else Some (k - 1)))"

definition tiles_ok :: "pim_mem \<Rightarrow> bool" where
  "tiles_ok d \<longleftrightarrow> (\<forall>k < n_pools d.
          unat (start_va (pool d k)) = unat (base (drv d)) + k * HUGE_PAGE_SIZE
          \<and> bits_ok (pool d k)
          \<and> length (head_page (pool d k)) = NUM_PAGES
          \<and> (\<forall>i < NUM_PAGES. addr (head_page (pool d k) ! i)
                 = start_va (pool d k) + of_nat (i * PAGE_SIZE)))"

definition layout_ok :: "pim_mem \<Rightarrow> bool" where
  "layout_ok d \<longleftrightarrow> window_ok (drv d) \<and> unat (total_size (drv d)) = n_pools d * HUGE_PAGE_SIZE
     \<and> tiles_ok d"

lemma upd_pool_simps [pool_frame, simp]:
  "curr_mem_pool (upd_pool k f d) = curr_mem_pool d"
  "head_mem_pool (upd_pool k f d) = head_mem_pool d"
  "tail_mem_pool (upd_pool k f d) = tail_mem_pool d"
  "ntotal_mem_pools (upd_pool k f d) = ntotal_mem_pools d"
  "drv (upd_pool k f d) = drv d"
  "host_mem (upd_pool k f d) = host_mem d"
  "n_pools (upd_pool k f d) = n_pools d"
  by (simp_all add: upd_pool_def)

lemma pool_upd [simp]:
  "j < n_pools d \<Longrightarrow> pool (upd_pool k f d) j = (if j = k then f (pool d k) else pool d j)"
  by (auto simp: upd_pool_def nth_list_update)

lemma bits_frame [pool_frame, simp]:
  "bits_ok (p\<lparr>next_pool := x\<rparr>) = bits_ok p" "bits_ok (p\<lparr>prev_pool := x\<rparr>) = bits_ok p"
  "bits_ok (p\<lparr>large_mem_pool := b\<rparr>) = bits_ok p" "bits_ok (p\<lparr>head_page := h\<rparr>) = bits_ok p"
  "bits_ok (p\<lparr>nfree_pages := n\<rparr>) = bits_ok p"
  "page_used (p\<lparr>next_pool := x\<rparr>) = page_used p" "page_used (p\<lparr>prev_pool := x\<rparr>) = page_used p"
  "page_used (p\<lparr>large_mem_pool := b\<rparr>) = page_used p" "page_used (p\<lparr>head_page := h\<rparr>) = page_used p"
  "page_used (p\<lparr>nfree_pages := n\<rparr>) = page_used p"
  "n_free (p\<lparr>next_pool := x\<rparr>) = n_free p" "n_free (p\<lparr>prev_pool := x\<rparr>) = n_free p"
  "n_free (p\<lparr>large_mem_pool := b\<rparr>) = n_free p" "n_free (p\<lparr>head_page := h\<rparr>) = n_free p"
  "n_free (p\<lparr>nfree_pages := n\<rparr>) = n_free p"
  by (simp_all add: bits_ok_def page_used_def n_free_def fun_eq_iff)

definition same_shape :: "mem_pool \<Rightarrow> mem_pool \<Rightarrow> bool" where
  "same_shape p q \<longleftrightarrow> start_va p = start_va q \<and> next_pool p = next_pool q \<and> prev_pool p = prev_pool q
     \<and> map addr (head_page p) = map addr (head_page q)"

lemma same_shape_refl [simp]: "same_shape p p"
  by (simp add: same_shape_def)

lemma same_shape_pages:
  assumes "same_shape p q"
  shows "length (head_page p) = length (head_page q)"
    and "i < length (head_page q) \<Longrightarrow> addr (head_page p ! i) = addr (head_page q ! i)"
proof -
  from assms have eq: "map addr (head_page p) = map addr (head_page q)"
    by (simp add: same_shape_def)
  then show len: "length (head_page p) = length (head_page q)" by (rule map_eq_imp_length_eq)
  assume "i < length (head_page q)"
  with len have "map addr (head_page p) ! i = addr (head_page p ! i)"
    "map addr (head_page q) ! i = addr (head_page q ! i)" by simp_all
  with eq show "addr (head_page p ! i) = addr (head_page q ! i)" by simp
qed

text \<open>An update that keeps every pool's shape and the list's ends keeps the list.\<close>

definition same_list :: "pim_mem \<Rightarrow> pim_mem \<Rightarrow> bool" where
  "same_list d d' \<longleftrightarrow> n_pools d' = n_pools d \<and> drv d' = drv d \<and> head_mem_pool d' = head_mem_pool d
     \<and> tail_mem_pool d' = tail_mem_pool d
     \<and> (\<forall>k < n_pools d. same_shape (pool d' k) (pool d k) \<and> (bits_ok (pool d k) \<longrightarrow> bits_ok (pool d' k)))"

lemma same_list_tiles:
  assumes "same_list d d'" and "tiles_ok d"
  shows "tiles_ok d'"
  unfolding tiles_ok_def
proof (intro allI impI)
  fix k assume k: "k < n_pools d'"
  with assms(1) have k': "k < n_pools d" and sh: "same_shape (pool d' k) (pool d k)"
    and b: "bits_ok (pool d k) \<longrightarrow> bits_ok (pool d' k)" and "drv d' = drv d"
    by (auto simp: same_list_def)
  moreover from sh have "start_va (pool d' k) = start_va (pool d k)" by (simp add: same_shape_def)
  ultimately show "unat (start_va (pool d' k)) = unat (base (drv d')) + k * HUGE_PAGE_SIZE
      \<and> bits_ok (pool d' k) \<and> length (head_page (pool d' k)) = NUM_PAGES
      \<and> (\<forall>i < NUM_PAGES. addr (head_page (pool d' k) ! i)
            = start_va (pool d' k) + of_nat (i * PAGE_SIZE))"
    using assms(2) same_shape_pages [OF sh] by (simp add: tiles_ok_def)
qed

lemma same_list_layout: "same_list d d' \<Longrightarrow> layout_ok d \<Longrightarrow> layout_ok d'"
  using same_list_tiles [of d d'] by (simp add: same_list_def layout_ok_def)

lemma same_list_links:
  "same_list d d' \<Longrightarrow> links_ok d \<Longrightarrow> (\<exists>c < n_pools d. curr_mem_pool d' = Some c) \<Longrightarrow> links_ok d'"
  by (auto simp: same_list_def links_ok_def same_shape_def)

lemma links_next:
  "links_ok d \<Longrightarrow> k < n_pools d \<Longrightarrow> next_pool (pool d k) = (if Suc k < n_pools d then Some (Suc k) else None)"
  by (simp add: links_ok_def)

lemma links_prev:
  "links_ok d \<Longrightarrow> k < n_pools d \<Longrightarrow> prev_pool (pool d k) = (if k = 0 then None else Some (k - 1))"
  by (simp add: links_ok_def)

lemma n_pools_bound: "layout_ok d \<Longrightarrow> n_pools d < 2 ^ 31"
  by (auto simp: layout_ok_def window_ok_def word_le_nat_alt)

lemma layout_start:
  "layout_ok d \<Longrightarrow> k < n_pools d \<Longrightarrow> unat (start_va (pool d k)) = unat (base (drv d)) + k * HUGE_PAGE_SIZE"
  by (simp add: layout_ok_def tiles_ok_def)

lemma layout_bits: "layout_ok d \<Longrightarrow> k < n_pools d \<Longrightarrow> bits_ok (pool d k)"
  by (simp add: layout_ok_def tiles_ok_def)

lemma layout_end: "layout_ok d \<Longrightarrow> unat (base (drv d)) + n_pools d * HUGE_PAGE_SIZE < 2 ^ 63"
  by (auto simp: layout_ok_def window_ok_def word_le_nat_alt)

lemma layout_page_addr:
  assumes "layout_ok d" "k < n_pools d" "i < NUM_PAGES"
  shows "unat (addr (head_page (pool d k) ! i)) = unat (base (drv d)) + k * HUGE_PAGE_SIZE + i * PAGE_SIZE"
proof -
  from assms have "addr (head_page (pool d k) ! i) = start_va (pool d k) + of_nat (i * PAGE_SIZE)"
    by (simp add: layout_ok_def tiles_ok_def)
  moreover have "unat (of_nat (i * PAGE_SIZE) :: u64) = i * PAGE_SIZE"
    using assms(3) by (intro unat_of_nat_u64) simp
  moreover have "k * HUGE_PAGE_SIZE + HUGE_PAGE_SIZE \<le> n_pools d * HUGE_PAGE_SIZE"
    using assms(2) by simp
  ultimately show ?thesis
    using layout_start [OF assms(1,2)] layout_end [OF assms(1)] assms(3)
    by (simp add: unat_add_u64 del: of_nat_mult)
qed

section \<open>Appending a pool\<close>

definition grow :: "u64 \<Rightarrow> u32 \<Rightarrow> bool \<Rightarrow> pim_mem \<Rightarrow> pim_mem" where
  "grow va nf lg d =
     (let n = n_pools d; t = n - 1
      in d\<lparr>pool_heap := (pool_heap d)[t := (pool d t)\<lparr>next_pool := Some n\<rparr>] @ [new_pool va nf lg (Some t)],
           tail_mem_pool := Some n\<rparr>)"

lemma grow_simps [simp]:
  "n_pools (grow va nf lg d) = Suc (n_pools d)"
  "drv (grow va nf lg d) = drv d" "host_mem (grow va nf lg d) = host_mem d"
  "curr_mem_pool (grow va nf lg d) = curr_mem_pool d"
  "head_mem_pool (grow va nf lg d) = head_mem_pool d"
  "tail_mem_pool (grow va nf lg d) = Some (n_pools d)"
  by (simp_all add: grow_def Let_def)

lemma pool_grow:
  "k < Suc (n_pools d) \<Longrightarrow> pool (grow va nf lg d) k =
     (if k = n_pools d then new_pool va nf lg (Some (n_pools d - 1))
      else if Suc k = n_pools d then (pool d k)\<lparr>next_pool := Some (n_pools d)\<rparr>
      else pool d k)"
  by (auto simp: grow_def Let_def nth_append nth_list_update)

lemma list_add_tail_grow:
  assumes "links_ok d"
  shows "list_add_tail (n_pools d) (d\<lparr>pool_heap := pool_heap d @ [new_pool va nf lg None],
      host_mem := h, drv := w, ntotal_mem_pools := nt\<rparr>)
    = Inr (grow va nf lg (d\<lparr>host_mem := h, drv := w, ntotal_mem_pools := nt\<rparr>))"
proof -
  from assms have "tail_mem_pool d = Some (n_pools d - 1)" "0 < n_pools d"
    by (auto simp: links_ok_def)
  then show ?thesis
    by (simp add: list_add_tail_def grow_def upd_pool_def Let_def new_pool_def nth_append
        list_update_append)
qed

lemma grow_links: "links_ok d \<Longrightarrow> links_ok (grow va nf lg d)"
  unfolding links_ok_def by (auto simp: pool_grow new_pool_def less_Suc_eq)

lemma fresh_pages_props [simp]:
  "length (fresh_pages va) = NUM_PAGES"
  "i < NUM_PAGES \<Longrightarrow> addr (fresh_pages va ! i) = va + of_nat (i * PAGE_SIZE)"
  "i < NUM_PAGES \<Longrightarrow> alloc_size (fresh_pages va ! i) = None"
  by (simp_all add: fresh_pages_def del: upt_rec_numeral)

lemma new_pool_bits [simp]:
  "bits_ok (new_pool va nf lg prv)" "\<not> page_used (new_pool va nf lg prv) i"
  "n_free (new_pool va nf lg prv) = NUM_PAGES"
  by (auto simp: bits_ok_def page_used_def n_free_def new_pool_def free_flag_def count_list_replicate)

lemma new_pool_simps [simp]:
  "start_va (new_pool va nf lg prv) = va" "nfree_pages (new_pool va nf lg prv) = nf"
  "large_mem_pool (new_pool va nf lg prv) = lg" "head_page (new_pool va nf lg prv) = fresh_pages va"
  "prev_pool (new_pool va nf lg prv) = prv" "next_pool (new_pool va nf lg prv) = None"
  "curr_idx (new_pool va nf lg prv) = 0"
  by (simp_all add: new_pool_def)

lemma grow_tiles:
  assumes "tiles_ok d" and "unat va = unat (base (drv d)) + n_pools d * HUGE_PAGE_SIZE"
  shows "tiles_ok (grow va nf lg d)"
  using assms by (auto simp: tiles_ok_def pool_grow less_Suc_eq)

section \<open>The searches\<close>

text \<open>\<open>find_fit\<close> is the first position from \<open>k\<close> on with enough free pages.\<close>

lemma find_fit_enough:
  assumes "links_ok d" and "k < n_pools d" and "n_pools d - k < fuel"
  shows "\<exists>r. find_fit fuel d n (Some k) = Some r \<and>
    (case r of Some j \<Rightarrow> k \<le> j \<and> j < n_pools d \<and> n \<le> nfree_pages (pool d j) \<and>
         (\<forall>i. k \<le> i \<longrightarrow> i < j \<longrightarrow> \<not> n \<le> nfree_pages (pool d i))
     | None \<Rightarrow> \<forall>i. k \<le> i \<longrightarrow> i < n_pools d \<longrightarrow> \<not> n \<le> nfree_pages (pool d i))"
  using assms(2,3)
proof (induction fuel arbitrary: k)
  case (Suc fuel)
  show ?case
  proof (cases "n \<le> nfree_pages (pool d k)")
    case True
    then show ?thesis using Suc.prems by simp
  next
    case False
    show ?thesis
    proof (cases "Suc k < n_pools d")
      case True
      with Suc obtain r where "find_fit fuel d n (Some (Suc k)) = Some r"
        and "case r of Some j \<Rightarrow> Suc k \<le> j \<and> j < n_pools d \<and> n \<le> nfree_pages (pool d j) \<and>
            (\<forall>i. Suc k \<le> i \<longrightarrow> i < j \<longrightarrow> \<not> n \<le> nfree_pages (pool d i))
          | None \<Rightarrow> \<forall>i. Suc k \<le> i \<longrightarrow> i < n_pools d \<longrightarrow> \<not> n \<le> nfree_pages (pool d i)"
        by fastforce
      with False True Suc.prems(1) links_next [OF assms(1) Suc.prems(1)] show ?thesis
        by (auto split: option.splits simp: le_eq_less_or_eq [of k] Suc_le_eq)
    next
      case last: False
      with Suc.prems obtain f where "fuel = Suc f" by (cases fuel) auto
      with False last links_next [OF assms(1) Suc.prems(1)] show ?thesis
        by (auto simp: not_less le_less_Suc_eq dest: le_antisym less_antisym)
    qed
  qed
qed simp

section \<open>The backward search for a run of free pools\<close>

definition free_pools :: "pim_mem \<Rightarrow> nat \<Rightarrow> nat \<Rightarrow> bool" where
  "free_pools d a b \<longleftrightarrow> b \<le> n_pools d \<and>
     (\<forall>j. a \<le> j \<longrightarrow> j < b \<longrightarrow> nfree_pages (pool d j) = of_nat NUM_PAGES)"

lemma both_free_iff:
  assumes "links_ok d" "t < n_pools d"
  shows "both_free d t \<longleftrightarrow> 0 < t \<and> free_pools d (t - 1) (t + 1)"
proof (cases t)
  case 0
  then show ?thesis using assms by (simp add: both_free_def links_prev)
next
  case (Suc s)
  have "s \<le> j \<and> j < Suc (Suc s) \<longleftrightarrow> j = s \<or> j = Suc s" for j by auto
  then have "(\<forall>j. s \<le> j \<longrightarrow> j < Suc (Suc s) \<longrightarrow> P j) \<longleftrightarrow> P s \<and> P (Suc s)" for P
    by metis
  then show ?thesis using assms Suc by (auto simp: both_free_def links_prev free_pools_def)
qed

text \<open>What \<open>need_more_mem_pool\<close> stands for: a run of free pools up to the tail, \<open>need\<close> short.\<close>

definition tail_run :: "pim_mem \<Rightarrow> u32 \<Rightarrow> u32 \<Rightarrow> nat option \<Rightarrow> bool" where
  "tail_run d num need mp \<longleftrightarrow> (\<forall>q. mp = Some q \<longrightarrow> q < n_pools d \<and> free_pools d q (n_pools d)
     \<and> 1 \<le> unat need \<and> unat need + (n_pools d - q) = unat num)"

definition back_inv :: "pim_mem \<Rightarrow> u32 \<Rightarrow> nat option \<Rightarrow> u32 \<Rightarrow> u32 \<Rightarrow> u32 \<Rightarrow> nat option \<Rightarrow> bool" where
  "back_inv d num pos cnt iter need mp \<longleftrightarrow> unat cnt + 1 < unat num \<and> tail_run d num need mp \<and>
     (case pos of None \<Rightarrow> True
      | Some t \<Rightarrow> t + unat cnt < n_pools d \<and> (0 < unat cnt \<longrightarrow> free_pools d t (t + unat cnt + 1))
          \<and> unat iter + t < n_pools d
          \<and> (iter = 0 \<longrightarrow> t + unat cnt + 1 = n_pools d \<and> mp = None))"

lemma word_suc_less: "unat (w :: u32) + 1 < 2 ^ 32 \<Longrightarrow> unat (w + 1) = unat w + 1"
  by (simp add: unat_word_ariths)

lemma word_pred: "w \<noteq> 0 \<Longrightarrow> unat (w - 1 :: u32) = unat w - 1"
  by (rule unat_minus_one)

lemma back_step_free:
  assumes "links_ok d" "back_inv d num (Some t) cnt iter need mp" "both_free d t"
  shows "cnt + 1 = num - 1 \<longleftrightarrow> unat cnt + 2 = unat num"
    and "free_pools d (t - 1) (t - 1 + (unat cnt + 2))" and "0 < t"
    and "cnt + 1 \<noteq> num - 1 \<Longrightarrow> back_inv d num (Some (t - 1)) (cnt + 1) iter need mp"
proof -
  from assms(2) have c: "unat cnt + 1 < unat num" "t + unat cnt < n_pools d"
    and run: "0 < unat cnt \<longrightarrow> free_pools d t (t + unat cnt + 1)"
    by (auto simp: back_inv_def)
  have nz: "num \<noteq> 0" using c(1) by auto
  have cs: "unat (cnt + 1) = unat cnt + 1"
    using order.strict_trans [OF c(1) u32_bound] by (intro word_suc_less) simp
  show iff: "cnt + 1 = num - 1 \<longleftrightarrow> unat cnt + 2 = unat num"
    using c(1) by (subst word_unat_eq_iff) (auto simp: cs word_pred [OF nz])
  from both_free_iff [OF assms(1)] assms(3) c(2) show t0: "0 < t" by auto
  from both_free_iff [OF assms(1)] assms(3) c(2) have "free_pools d (t - 1) (t + 1)" by auto
  with run t0 c(2) show fr: "free_pools d (t - 1) (t - 1 + (unat cnt + 2))"
    by (cases "unat cnt") (auto simp: free_pools_def not_less_eq_eq Suc_le_eq not_less)
  assume "cnt + 1 \<noteq> num - 1"
  with iff assms(2) fr t0 c show "back_inv d num (Some (t - 1)) (cnt + 1) iter need mp"
    by (auto simp: back_inv_def cs)
qed

lemma back_step_used:
  assumes "links_ok d" "layout_ok d" "back_inv d num (Some t) cnt iter need mp" "\<not> both_free d t"
    and "hit \<longleftrightarrow> iter = 0 \<and> nfree_pages (pool d t) = of_nat NUM_PAGES"
  shows "0 \<noteq> num - 1"
    and "back_inv d num (prev_pool (pool d t)) 0 (iter + 1)
           (if hit then num - cnt - 1 else need) (if hit then Some t else mp)"
proof -
  from assms(3) have c: "unat cnt + 1 < unat num" "t + unat cnt < n_pools d"
    and run: "0 < unat cnt \<longrightarrow> free_pools d t (t + unat cnt + 1)" and it: "unat iter + t < n_pools d"
    and tr: "tail_run d num need mp"
    and i0: "iter = 0 \<longrightarrow> t + unat cnt + 1 = n_pools d \<and> mp = None"
    by (auto simp: back_inv_def)
  have nz: "num \<noteq> 0" using c(1) by auto
  show "0 \<noteq> num - 1" using c(1) word_pred [OF nz] by auto
  have its: "unat (iter + 1) = unat iter + 1"
    using it n_pools_bound [OF assms(2)] by (intro word_suc_less) simp
  then have "iter + 1 \<noteq> 0" by (metis add_is_0 one_neq_zero unat_0)
  have "tail_run d num (if hit then num - cnt - 1 else need) (if hit then Some t else mp)"
  proof (cases hit)
    case True
    have "unat (num - cnt) = unat num - unat cnt"
      using c(1) by (intro unat_sub) (simp add: word_le_nat_alt)
    moreover from this have "num - cnt \<noteq> 0" using c(1) by auto
    ultimately have "unat (num - cnt - 1) = unat num - unat cnt - 1" by (simp add: word_pred)
    moreover have "free_pools d t (n_pools d)"
    proof (cases "unat cnt")
      case 0
      with True assms(5) i0 have "n_pools d = Suc t" by simp
      with True assms(5) show ?thesis by (auto simp: free_pools_def less_Suc_eq_le dest: le_antisym)
    next
      case (Suc c')
      with True assms(5) i0 run show ?thesis by simp
    qed
    ultimately show ?thesis using True assms(5) i0 c by (auto simp: tail_run_def)
  next
    case False
    with tr show ?thesis by simp
  qed
  with c its \<open>iter + 1 \<noteq> 0\<close> it show "back_inv d num (prev_pool (pool d t)) 0 (iter + 1)
           (if hit then num - cnt - 1 else need) (if hit then Some t else mp)"
    by (auto simp: back_inv_def links_prev [OF assms(1)])
qed

lemma search_back_spec:
  assumes "links_ok d" "layout_ok d" "back_inv d num pos cnt iter need mp"
    and "case pos of None \<Rightarrow> 0 < fuel | Some t \<Rightarrow> t + 1 < fuel"
  shows "\<exists>found p need' mp'. search_back fuel d num pos cnt iter need mp = Some (found, p, need', mp')
    \<and> (found \<longrightarrow> (\<exists>k. p = Some k \<and> free_pools d k (k + unat num)))
    \<and> (\<not> found \<longrightarrow> tail_run d num need' mp')"
  using assms(3,4)
proof (induction fuel arbitrary: pos cnt iter need mp)
  case (Suc fuel)
  show ?case
  proof (cases pos)
    case None
    with Suc.prems(1) have "tail_run d num need mp" by (simp add: back_inv_def)
    with None show ?thesis by (intro exI [of _ False]) simp
  next
    case (Some t)
    note inv = Suc.prems(1) [unfolded Some]
    from inv have tn: "t < n_pools d" by (simp add: back_inv_def)
    show ?thesis
    proof (cases "both_free d t")
      case True
      note st = back_step_free [OF assms(1) inv True]
      have prv: "prev_pool (pool d t) = Some (t - 1)" using st(3) tn by (simp add: links_prev [OF assms(1)])
      show ?thesis
      proof (cases "cnt + 1 = num - 1")
        case eq: True
        with st(1,2) Some True prv show ?thesis by auto
      next
        case False
        with Suc.IH [OF st(4) [OF False]] Suc.prems(2) Some st(3) True prv show ?thesis by simp
      qed
    next
      case False
      define hit where "hit \<longleftrightarrow> iter = 0 \<and> nfree_pages (pool d t) = of_nat NUM_PAGES"
      note st = back_step_used [OF assms(1,2) inv False hit_def]
      have "case prev_pool (pool d t) of None \<Rightarrow> 0 < fuel | Some t \<Rightarrow> t + 1 < fuel"
        using Suc.prems(2) Some tn by (auto simp: links_prev [OF assms(1)])
      from Suc.IH [OF st(2) this] st(1) show ?thesis
        unfolding Some search_back.simps(3) Let_def hit_def [symmetric] by (simp only: False if_False)
    qed
  qed
qed (auto split: option.splits)

lemma search_back_start:
  assumes "links_ok d" "layout_ok d" "2 \<le> unat num"
  obtains p need mp where
    "search_back (Suc (n_pools d)) d num (tail_mem_pool d) 0 0 0 None = Some (True, p, need, mp)"
    "\<exists>k. p = Some k \<and> free_pools d k (k + unat num)"
  | p need mp where
    "search_back (Suc (n_pools d)) d num (tail_mem_pool d) 0 0 0 None = Some (False, p, need, mp)"
    "tail_run d num need mp"
proof -
  have tl: "tail_mem_pool d = Some (n_pools d - 1)" "0 < n_pools d"
    using assms(1) by (auto simp: links_ok_def)
  have "back_inv d num (tail_mem_pool d) 0 0 0 None"
    using assms(3) tl by (auto simp: back_inv_def tail_run_def)
  from search_back_spec [OF assms(1,2) this, of "Suc (n_pools d)"] tl that show thesis by fastforce
qed

section \<open>The marking and freeing loops\<close>

lemma mark_large_spec:
  assumes "links_ok d" and "k + r \<le> n_pools d" and "k < n_pools d"
  shows "\<exists>d'. mark_large r i num (Some k) d = Inr d' \<and> d' = d\<lparr>pool_heap := pool_heap d'\<rparr>
    \<and> n_pools d' = n_pools d \<and> (\<forall>j < n_pools d. pool d' j =
       (if k \<le> j \<and> j < k + r
        then (pool d j)\<lparr>large_mem_pool := (i + of_nat (j - k) \<noteq> num - 1), nfree_pages := 0\<rparr>
        else pool d j))"
  using assms
proof (induction r arbitrary: d i k)
  case (Suc r)
  let ?d1 = "upd_pool k (\<lambda>p. p\<lparr>large_mem_pool := (i \<noteq> num - 1), nfree_pages := 0\<rparr>) d"
  have same: "d\<lparr>pool_heap := h\<rparr> = ?d1\<lparr>pool_heap := h\<rparr>" for h by (simp add: upd_pool_def)
  have links1: "links_ok ?d1"
    using Suc.prems(1) by (auto simp: links_ok_def)
  show ?case
  proof (cases "r = 0")
    case True
    with Suc.prems show ?thesis by (auto simp: upd_pool_def nth_list_update)
  next
    case False
    with Suc.prems have k1: "Suc k + r \<le> n_pools ?d1" "Suc k < n_pools ?d1" by auto
    from Suc.IH [OF links1 k1, of "i + 1"] obtain d' where d':
      "mark_large r (i + 1) num (Some (Suc k)) ?d1 = Inr d'" "d' = ?d1\<lparr>pool_heap := pool_heap d'\<rparr>"
      "n_pools d' = n_pools d" "\<forall>j < n_pools d. pool d' j =
       (if Suc k \<le> j \<and> j < Suc k + r
        then (pool ?d1 j)\<lparr>large_mem_pool := (i + 1 + of_nat (j - Suc k) \<noteq> num - 1), nfree_pages := 0\<rparr>
        else pool ?d1 j)" by auto
    have shift: "i + 1 + of_nat (j - Suc k) = i + of_nat (j - k)" if "Suc k \<le> j" for j
    proof -
      from that have "j - k = Suc (j - Suc k)" by simp
      then show ?thesis by simp
    qed
    have "mark_large (Suc r) i num (Some k) d = Inr d'"
      using d'(1) k1(2) Suc.prems(3) by (simp add: links_next [OF Suc.prems(1)])
    moreover have "pool d' j = (if k \<le> j \<and> j < k + Suc r
        then (pool d j)\<lparr>large_mem_pool := (i + of_nat (j - k) \<noteq> num - 1), nfree_pages := 0\<rparr>
        else pool d j)" if "j < n_pools d" for j
      using d'(4) that Suc.prems(3) by (cases "j = k") (auto simp: shift)
    moreover have "d' = d\<lparr>pool_heap := pool_heap d'\<rparr>" by (rule d'(2) [folded same])
    ultimately show ?thesis using d'(3) by (intro exI [of _ d']) blast
  qed
qed auto

lemma free_large_spec:
  assumes "links_ok d" and "k + m \<le> n_pools d" and "0 < m" and "m < fuel"
    and "\<And>j. k \<le> j \<Longrightarrow> j < k + m \<Longrightarrow> large_mem_pool (pool d j) \<longleftrightarrow> Suc j \<noteq> k + m"
  shows "\<exists>d'. free_large fuel (Some k) d = Some d' \<and> d' = d\<lparr>pool_heap := pool_heap d'\<rparr>
    \<and> n_pools d' = n_pools d \<and> (\<forall>j < n_pools d. pool d' j =
       (if k \<le> j \<and> j < k + m
        then (pool d j)\<lparr>large_mem_pool := False, nfree_pages := of_nat NUM_PAGES\<rparr> else pool d j))"
  using assms
proof (induction fuel arbitrary: d k m)
  case (Suc fuel)
  from Suc.prems have kn: "k < n_pools d" by simp
  let ?d1 = "upd_pool k (\<lambda>p. p\<lparr>nfree_pages := of_nat NUM_PAGES\<rparr>) d"
  let ?d2 = "upd_pool k (\<lambda>p. p\<lparr>large_mem_pool := False\<rparr>) ?d1"
  show ?case
  proof (cases "m = 1")
    case True
    have unl: "\<not> large_mem_pool (pool d k)" using Suc.prems(5) [of k] True by simp
    have "free_large (Suc fuel) (Some k) d = Some ?d1" using unl kn by (simp add: Let_def)
    moreover have "pool ?d1 j = (if k \<le> j \<and> j < k + m
        then (pool d j)\<lparr>large_mem_pool := False, nfree_pages := of_nat NUM_PAGES\<rparr> else pool d j)"
      if "j < n_pools d" for j
      using that True unl by (auto intro!: mem_pool.equality pool_bits.equality)
    ultimately show ?thesis
      by (intro exI [of _ ?d1]) (auto simp: upd_pool_def)
  next
    case False
    with Suc.prems have m: "Suc k + (m - 1) \<le> n_pools ?d2" "0 < m - 1" "m - 1 < fuel"
      and k1: "Suc k < n_pools d" by auto
    have links2: "links_ok ?d2" using Suc.prems(1) by (auto simp: links_ok_def)
    have lg: "large_mem_pool (pool ?d2 j) \<longleftrightarrow> Suc j \<noteq> Suc k + (m - 1)"
      if "Suc k \<le> j" "j < Suc k + (m - 1)" for j
      using Suc.prems(5) [of j] that m(1) by auto
    from Suc.IH [OF links2 m lg] obtain d' where d': "free_large fuel (Some (Suc k)) ?d2 = Some d'"
      "d' = ?d2\<lparr>pool_heap := pool_heap d'\<rparr>" "n_pools d' = n_pools ?d2"
      "\<forall>j < n_pools ?d2. pool d' j = (if Suc k \<le> j \<and> j < Suc k + (m - 1)
        then (pool ?d2 j)\<lparr>large_mem_pool := False, nfree_pages := of_nat NUM_PAGES\<rparr> else pool ?d2 j)"
      by blast
    have lk: "large_mem_pool (pool d k)" using Suc.prems(5) [of k] m(2) False by auto
    have "free_large (Suc fuel) (Some k) d = Some d'"
      using d'(1) lk kn k1 by (simp add: Let_def links_next [OF Suc.prems(1)])
    moreover have "pool d' j = (if k \<le> j \<and> j < k + m
        then (pool d j)\<lparr>large_mem_pool := False, nfree_pages := of_nat NUM_PAGES\<rparr> else pool d j)"
      if "j < n_pools d" for j
      using d'(4) that kn m(2) by (cases "j = k") auto
    ultimately show ?thesis using d'(2,3) by (intro exI [of _ d']) (auto simp: upd_pool_def)
  qed
qed simp

lemma find_addr_spec:
  assumes "links_ok d" "layout_ok d" "k \<le> j" "j < n_pools d" "j - k + 1 < fuel"
    and "unat a = unat (base (drv d)) + j * HUGE_PAGE_SIZE + off" "off < HUGE_PAGE_SIZE"
  shows "find_addr fuel d a (Some k) = Some (Some j)"
  using assms(3,5)
proof (induction fuel arbitrary: k)
  case (Suc fuel)
  have st: "unat (start_va (pool d i)) = unat (base (drv d)) + i * HUGE_PAGE_SIZE"
    and en: "unat (start_va (pool d i) + of_nat HUGE_PAGE_SIZE - 1)
      = unat (base (drv d)) + i * HUGE_PAGE_SIZE + (HUGE_PAGE_SIZE - 1)" if "i < n_pools d" for i
  proof -
    show st: "unat (start_va (pool d i)) = unat (base (drv d)) + i * HUGE_PAGE_SIZE"
      by (rule layout_start [OF assms(2) that])
    have "i * HUGE_PAGE_SIZE < n_pools d * HUGE_PAGE_SIZE" using that by simp
    then have lt: "unat (start_va (pool d i)) < 2 ^ 63" using layout_end [OF assms(2)] st by linarith
    have "start_va (pool d i) + of_nat HUGE_PAGE_SIZE - 1 = start_va (pool d i) + of_nat (HUGE_PAGE_SIZE - 1)"
      by simp
    also have "unat \<dots> = unat (start_va (pool d i)) + (HUGE_PAGE_SIZE - 1)"
      using lt unat_add_u64 [of "start_va (pool d i)" "of_nat (HUGE_PAGE_SIZE - 1)"] by simp
    finally show "unat (start_va (pool d i) + of_nat HUGE_PAGE_SIZE - 1)
      = unat (base (drv d)) + i * HUGE_PAGE_SIZE + (HUGE_PAGE_SIZE - 1)" by (simp only: st)
  qed
  have kn: "k < n_pools d" using Suc.prems(1) assms(4) by simp
  show ?case
  proof (cases "k = j")
    case True
    with assms(6,7) st [OF kn] en [OF kn] show ?thesis by (simp add: word_le_nat_alt)
  next
    case False
    with Suc.prems(1) have "Suc k \<le> j" by simp
    then have "Suc k * HUGE_PAGE_SIZE \<le> j * HUGE_PAGE_SIZE" by (rule mult_le_mono1)
    with en [OF kn] assms(6) have "\<not> start_va (pool d k) + of_nat HUGE_PAGE_SIZE - 1 \<ge> a"
      by (simp add: word_le_nat_alt)
    moreover have "find_addr fuel d a (Some (Suc k)) = Some (Some j)"
      using Suc \<open>Suc k \<le> j\<close> by simp
    ultimately show ?thesis
      using \<open>Suc k \<le> j\<close> assms(4) by (simp add: links_next [OF assms(1) kn])
  qed
qed simp

end
