(* ===== verification/Pool_Inv.thy ===== *)
theory Pool_Inv
  imports Pool_Links
begin

text \<open>
  What the allocator owes its clients. A live allocation is a \<open>block\<close>: a run of pages of
  one pool, or a run of whole pools. \<open>pool_inv d L\<close> says that the device's pools are linked and
  tiled, and that their bitmaps, counters and flags record exactly the live blocks \<open>L\<close>, which
  do not overlap. \<^verbatim>\<open>pim_malloc\<close> adds a block that is large enough, \<^verbatim>\<open>pim_free\<close> removes
  the block whose address it gets.
\<close>

datatype block = Small nat nat nat | Large nat nat

fun blk_pages :: "block \<Rightarrow> (nat \<times> nat) set" where
  "blk_pages (Small k i n) = {k} \<times> {i..<i + n}"
| "blk_pages (Large k m) = {k..<k + m} \<times> {0..<NUM_PAGES}"

fun blk_offset :: "block \<Rightarrow> nat" where
  "blk_offset (Small k i n) = k * HUGE_PAGE_SIZE + i * PAGE_SIZE"
| "blk_offset (Large k m) = k * HUGE_PAGE_SIZE"

fun blk_bytes :: "block \<Rightarrow> nat" where
  "blk_bytes (Small k i n) = n * PAGE_SIZE"
| "blk_bytes (Large k m) = m * HUGE_PAGE_SIZE"

fun blk_ok :: "pim_mem \<Rightarrow> block \<Rightarrow> bool" where
  "blk_ok d (Small k i n) \<longleftrightarrow> k < n_pools d \<and> 0 < n \<and> i + n \<le> NUM_PAGES
     \<and> alloc_size (head_page (pool d k) ! i) = Some (of_nat n)"
| "blk_ok d (Large k m) \<longleftrightarrow> 2 \<le> m \<and> k + m \<le> n_pools d"

definition in_large :: "block set \<Rightarrow> nat \<Rightarrow> bool" where
  "in_large L k \<longleftrightarrow> (\<exists>k0 m. Large k0 m \<in> L \<and> k0 \<le> k \<and> k < k0 + m)"

definition last_large :: "block set \<Rightarrow> nat \<Rightarrow> bool" where
  "last_large L k \<longleftrightarrow> (\<exists>k0 m. Large k0 m \<in> L \<and> Suc k = k0 + m)"

definition in_small :: "block set \<Rightarrow> nat \<Rightarrow> nat \<Rightarrow> bool" where
  "in_small L k i \<longleftrightarrow> (\<exists>i0 n. Small k i0 n \<in> L \<and> i0 \<le> i \<and> i < i0 + n)"

definition pool_ok :: "block set \<Rightarrow> nat \<Rightarrow> mem_pool \<Rightarrow> bool" where
  "pool_ok L k p \<longleftrightarrow>
     (if in_large L k then nfree_pages p = 0 \<and> (\<forall>i. \<not> page_used p i)
        \<and> (large_mem_pool p \<longleftrightarrow> \<not> last_large L k)
      else \<not> large_mem_pool p \<and> unat (nfree_pages p) = n_free p
        \<and> (\<forall>i. page_used p i \<longleftrightarrow> in_small L k i))"

definition blocks_ok :: "pim_mem \<Rightarrow> block set \<Rightarrow> bool" where
  "blocks_ok d L \<longleftrightarrow> (\<forall>b \<in> L. blk_ok d b)
     \<and> (\<forall>b \<in> L. \<forall>b' \<in> L. b \<noteq> b' \<longrightarrow> blk_pages b \<inter> blk_pages b' = {})"

definition pool_inv :: "pim_mem \<Rightarrow> block set \<Rightarrow> bool" where
  "pool_inv d L \<longleftrightarrow> links_ok d \<and> layout_ok d \<and> blocks_ok d L
     \<and> (\<forall>k < n_pools d. pool_ok L k (pool d k))"

definition blk_addr :: "pim_mem \<Rightarrow> block \<Rightarrow> nat" where
  "blk_addr d b = unat (base (drv d)) + blk_offset b"

section \<open>Blocks\<close>

lemma pool_invD:
  assumes "pool_inv d L"
  shows "links_ok d" "layout_ok d" "blocks_ok d L" "k < n_pools d \<Longrightarrow> pool_ok L k (pool d k)"
  using assms by (auto simp: pool_inv_def)

lemma blocks_okD:
  assumes "blocks_ok d L" "b \<in> L"
  shows "blk_ok d b" "b' \<in> L \<Longrightarrow> b \<noteq> b' \<Longrightarrow> blk_pages b \<inter> blk_pages b' = {}"
  using assms unfolding blocks_ok_def by blast+

lemma blk_pages_inside:
  "blk_ok d b \<Longrightarrow> blk_pages b \<subseteq> {0..<n_pools d} \<times> {0..<NUM_PAGES}"
  by (cases b) auto

lemma blk_pages_nonempty: "blk_ok d b \<Longrightarrow> blk_pages b \<noteq> {}"
  by (cases b) auto

lemma in_small_large:
  assumes "blocks_ok d L" "in_small L k i" shows "\<not> in_large L k"
proof
  assume "in_large L k"
  then obtain k0 m where l: "Large k0 m \<in> L" "k0 \<le> k" "k < k0 + m" by (auto simp: in_large_def)
  from assms(2) obtain i0 n where s: "Small k i0 n \<in> L" "i0 \<le> i" "i < i0 + n"
    by (auto simp: in_small_def)
  have "i < NUM_PAGES" using blocks_okD(1) [OF assms(1) s(1)] s(3) by simp
  then have "(k, i) \<in> blk_pages (Large k0 m) \<inter> blk_pages (Small k i0 n)" using l s by auto
  with blocks_okD(2) [OF assms(1) l(1) s(1)] show False by blast
qed

lemma last_large_in: "blocks_ok d L \<Longrightarrow> last_large L k \<Longrightarrow> in_large L k"
proof -
  assume ok: "blocks_ok d L" and "last_large L k"
  then obtain k0 m where "Large k0 m \<in> L" "Suc k = k0 + m" by (auto simp: last_large_def)
  moreover from this blocks_okD(1) [OF ok] have "2 \<le> m" by force
  ultimately show "in_large L k" unfolding in_large_def by (intro exI [of _ k0] exI [of _ m]) auto
qed

text \<open>A pool the searches call free holds no block.\<close>

lemma free_pool_empty:
  assumes "pool_inv d L" "k < n_pools d" "nfree_pages (pool d k) = of_nat NUM_PAGES"
  shows "\<not> in_large L k" "\<not> in_small L k i" "\<not> page_used (pool d k) i"
proof -
  have ok: "pool_ok L k (pool d k)" using pool_invD(4) [OF assms(1,2)] .
  show nl: "\<not> in_large L k" using ok assms(3) by (auto simp: pool_ok_def)
  have "unat (nfree_pages (pool d k)) = NUM_PAGES" using assms(3) by simp
  then have "n_free (pool d k) = NUM_PAGES" using ok nl by (simp add: pool_ok_def)
  then show nu: "\<not> page_used (pool d k) i" for i
    using n_free_all_iff [OF layout_bits [OF pool_invD(2) [OF assms(1)] assms(2)]] by simp
  then show "\<not> in_small L k i" using ok nl by (simp add: pool_ok_def)
qed

lemma blk_free_pool:
  assumes "pool_inv d L" "k < n_pools d" "nfree_pages (pool d k) = of_nat NUM_PAGES" "b \<in> L"
  shows "(k, i) \<notin> blk_pages b"
proof (cases b)
  case (Small k' i0 n)
  with assms(4) free_pool_empty(2) [OF assms(1-3), of i] show ?thesis by (auto simp: in_small_def)
next
  case (Large k0 m)
  with assms(4) free_pool_empty(1) [OF assms(1-3)] show ?thesis by (auto simp: in_large_def)
qed

lemma blk_range_disjoint:
  assumes "blk_pages b \<inter> blk_pages b' = {}" "blk_ok d b" "blk_ok d b'"
  shows "blk_offset b + blk_bytes b \<le> blk_offset b' \<or> blk_offset b' + blk_bytes b' \<le> blk_offset b"
proof (cases b; cases b')
  fix k i n k' i' n' assume b: "b = Small k i n" "b' = Small k' i' n'"
  show ?thesis
  proof (cases "k = k'")
    case True
    have "i + n \<le> i' \<or> i' + n' \<le> i"
    proof (rule ccontr)
      assume "\<not> ?thesis"
      then have "(k, max i i') \<in> blk_pages b \<inter> blk_pages b'"
        using b True assms(2,3) by auto
      with assms(1) show False by blast
    qed
    with True b show ?thesis by auto
  next
    case False
    then have "k + 1 \<le> k' \<or> k' + 1 \<le> k" by auto
    then show ?thesis using assms(2,3) b by auto
  qed
next
  fix k i n k' m' assume b: "b = Small k i n" "b' = Large k' m'"
  have "k + 1 \<le> k' \<or> k' + m' \<le> k"
  proof (rule ccontr)
    assume "\<not> ?thesis"
    then have "(k, i) \<in> blk_pages b \<inter> blk_pages b'" using b assms(2,3) by auto
    with assms(1) show False by blast
  qed
  then show ?thesis using assms(2,3) b by auto
next
  fix k m k' i' n' assume b: "b = Large k m" "b' = Small k' i' n'"
  have "k' + 1 \<le> k \<or> k + m \<le> k'"
  proof (rule ccontr)
    assume "\<not> ?thesis"
    then have "(k', i') \<in> blk_pages b \<inter> blk_pages b'" using b assms(2,3) by auto
    with assms(1) show False by blast
  qed
  then show ?thesis using assms(2,3) b by auto
next
  fix k m k' m' assume b: "b = Large k m" "b' = Large k' m'"
  have "k + m \<le> k' \<or> k' + m' \<le> k"
  proof (rule ccontr)
    assume "\<not> ?thesis"
    then have "(max k k', 0) \<in> blk_pages b \<inter> blk_pages b'" using b assms(2,3) by auto
    with assms(1) show False by blast
  qed
  then show ?thesis using b by auto
qed

lemma blk_in_window:
  assumes "layout_ok d" "blk_ok d b"
  shows "blk_offset b + blk_bytes b \<le> unat (pim_mem_size (drv d))"
proof -
  have "n_pools d * HUGE_PAGE_SIZE \<le> unat (pim_mem_size (drv d))"
    using assms(1) by (auto simp: layout_ok_def window_ok_def word_le_nat_alt)
  moreover have "blk_offset b + blk_bytes b \<le> n_pools d * HUGE_PAGE_SIZE"
  proof (cases b)
    case (Small k i n)
    then have "(k + 1) * HUGE_PAGE_SIZE \<le> n_pools d * HUGE_PAGE_SIZE"
      using assms(2) by (intro mult_le_mono1) simp
    with Small assms(2) show ?thesis by simp
  next
    case (Large k m)
    then have "(k + m) * HUGE_PAGE_SIZE \<le> n_pools d * HUGE_PAGE_SIZE"
      using assms(2) by (intro mult_le_mono1) simp
    with Large show ?thesis by simp
  qed
  ultimately show ?thesis by simp
qed

section \<open>Growing by one free pool\<close>

lemma pool_ok_frame [pool_frame, simp]:
  "pool_ok L k (p\<lparr>next_pool := x\<rparr>) = pool_ok L k p"
  "pool_ok L k (p\<lparr>prev_pool := x\<rparr>) = pool_ok L k p"
  by (simp_all add: pool_ok_def)

lemma links_frame [pool_frame, simp]:
  "links_ok (d\<lparr>host_mem := h\<rparr>) = links_ok d" "links_ok (d\<lparr>drv := w\<rparr>) = links_ok d"
  "links_ok (d\<lparr>ntotal_mem_pools := nt\<rparr>) = links_ok d"
  by (simp_all add: links_ok_def)

definition room :: "pim_mem \<Rightarrow> nat \<Rightarrow> bool" where
  "room d m \<longleftrightarrow> 2 * m \<le> host_mem d
     \<and> unat (total_size (drv d)) + m * HUGE_PAGE_SIZE \<le> unat (pim_mem_size (drv d))"

text \<open>The state after one more pool has been mapped, allocated and linked.\<close>

definition one_more :: "u64 \<Rightarrow> pim_mem_t \<Rightarrow> pim_mem \<Rightarrow> pim_mem" where
  "one_more va w d = grow va (of_nat NUM_PAGES) False
     (d\<lparr>host_mem := host_mem d - 1 - 1, drv := w, ntotal_mem_pools := ntotal_mem_pools d + 1\<rparr>)"

lemma multi_mem_pool_allocation_cases:
  assumes "layout_ok d" "links_ok d"
  obtains (fail) e where "multi_mem_pool_allocation d = Inl e" "\<not> room d 1"
    "e \<in> {HostMalloc, OutOfMemory}"
  | (null) d1 where "multi_mem_pool_allocation d = Inr (d1, None)" "\<not> room d 1"
  | (pool) va w where "multi_mmap_drv (of_nat HUGE_PAGE_SIZE) (drv d) = Some (va, w)"
    "multi_mem_pool_allocation d = Inr (d\<lparr>pool_heap := pool_heap d @ [new_pool va (of_nat NUM_PAGES) False None],
        host_mem := host_mem d - 1 - 1, drv := w, ntotal_mem_pools := ntotal_mem_pools d + 1\<rparr>,
        Some (n_pools d))"
proof (cases "multi_mmap_drv (of_nat HUGE_PAGE_SIZE) (drv d)")
  case None
  have "\<not> unat (total_size (drv d)) + HUGE_PAGE_SIZE \<le> unat (pim_mem_size (drv d))"
    using None assms(1) multi_mmap_drv_enough [of "drv d" HUGE_PAGE_SIZE] by (auto simp: layout_ok_def)
  with None show thesis
    by (intro fail [of "if host_mem d = 0 then HostMalloc else OutOfMemory"])
      (auto simp: multi_mem_pool_allocation_def room_def)
next
  case (Some r)
  obtain va w where r: "r = (va, w)" by (cases r)
  have "unat va = unat (base (drv d)) + unat (total_size (drv d))"
    using multi_mmap_drv_Some(1) [OF Some [unfolded r]] assms(1) by (simp add: layout_ok_def)
  moreover have "base (drv d) \<noteq> 0" using assms(1) by (simp add: layout_ok_def window_ok_def)
  ultimately have va: "va \<noteq> 0" by (auto simp: unat_eq_0)
  consider "host_mem d = 0" | "host_mem d = 1" | "host_mem d \<ge> 2" by linarith
  then show thesis
  proof cases
    case 1 then show thesis by (intro fail) (auto simp: multi_mem_pool_allocation_def room_def)
  next
    case 2 then show thesis using Some r va
      by (intro null) (auto simp: multi_mem_pool_allocation_def room_def)
  next
    case 3 then show thesis using Some r va
      by (intro pool) (auto simp: multi_mem_pool_allocation_def Let_def)
  qed
qed

lemma layout_one_more:
  assumes "layout_ok d" "multi_mmap_drv (of_nat HUGE_PAGE_SIZE) (drv d) = Some (va, w)"
  shows "layout_ok (one_more va w d)"
    and "unat va = unat (base (drv d)) + n_pools d * HUGE_PAGE_SIZE" and "base w = base (drv d)"
proof -
  have wo: "window_ok (drv d)" and ts: "unat (total_size (drv d)) = n_pools d * HUGE_PAGE_SIZE"
    and t: "tiles_ok d"
    using assms(1) by (auto simp: layout_ok_def)
  note m = multi_mmap_drv_Some [OF assms(2) wo, simplified]
  show va: "unat va = unat (base (drv d)) + n_pools d * HUGE_PAGE_SIZE" using m(1) ts by simp
  show bs: "base w = base (drv d)" by (rule m(3))
  have "tiles_ok (one_more va w d)"
    unfolding one_more_def by (rule grow_tiles) (use t va bs in \<open>auto simp: tiles_ok_def\<close>)
  then show "layout_ok (one_more va w d)" using m(2,5) ts by (simp add: layout_ok_def one_more_def)
qed

lemma blk_ok_mono:
  assumes "blk_ok d b" "n_pools d \<le> n_pools d'"
    and "\<And>k i n. b = Small k i n \<Longrightarrow>
      alloc_size (head_page (pool d' k) ! i) = alloc_size (head_page (pool d k) ! i)"
  shows "blk_ok d' b"
  using assms by (cases b) auto

lemma not_in_beyond:
  assumes "blocks_ok d L" "n_pools d \<le> k"
  shows "\<not> in_large L k" "\<not> in_small L k i"
  using blocks_okD(1) [OF assms(1)] assms(2) unfolding in_large_def in_small_def by fastforce+

lemma one_more_pool:
  "links_ok d \<Longrightarrow> k < Suc (n_pools d) \<Longrightarrow> pool (one_more va w d) k =
     (if k = n_pools d then new_pool va (of_nat NUM_PAGES) False (Some (n_pools d - 1))
      else if Suc k = n_pools d then (pool d k)\<lparr>next_pool := Some (n_pools d)\<rparr> else pool d k)"
  by (simp add: one_more_def pool_grow)

lemma one_more_inv:
  assumes "pool_inv d L" "multi_mmap_drv (of_nat HUGE_PAGE_SIZE) (drv d) = Some (va, w)"
  shows "pool_inv (one_more va w d) L"
proof -
  note inv = pool_invD [OF assms(1)]
  have np: "n_pools (one_more va w d) = Suc (n_pools d)" by (simp add: one_more_def)
  have "links_ok (one_more va w d)" using inv(1) by (simp add: one_more_def grow_links)
  moreover have "layout_ok (one_more va w d)" by (rule layout_one_more(1) [OF inv(2) assms(2)])
  moreover have "blk_ok (one_more va w d) b" if "b \<in> L" for b
    by (rule blk_ok_mono [OF blocks_okD(1) [OF inv(3) that]])
      (use blocks_okD(1) [OF inv(3) that] in \<open>auto simp: one_more_pool [OF inv(1)] np\<close>)
  moreover have "pool_ok L k (pool (one_more va w d) k)" if "k < n_pools (one_more va w d)" for k
    using that not_in_beyond [OF inv(3), of k] inv(4)
    by (auto simp: one_more_pool [OF inv(1)] np pool_ok_def)
  ultimately show ?thesis
    using inv(3) by (simp add: pool_inv_def blocks_ok_def)
qed

section \<open>The page path\<close>

lemma pool_inv_curr [simp]:
  "k < n_pools d \<Longrightarrow> pool_inv d L \<Longrightarrow> pool_inv (d\<lparr>curr_mem_pool := Some k\<rparr>) L"
proof -
  assume k: "k < n_pools d" and inv: "pool_inv d L"
  have "blk_ok (d\<lparr>curr_mem_pool := Some k\<rparr>) b = blk_ok d b" for b by (cases b) auto
  with inv k show ?thesis
    by (auto simp: pool_inv_def links_ok_def layout_ok_def tiles_ok_def blocks_ok_def)
qed

text \<open>Same list, with at most one more pool than before: what a successful search may change.\<close>

definition extends :: "pim_mem \<Rightarrow> pim_mem \<Rightarrow> nat \<Rightarrow> bool" where
  "extends d d' m \<longleftrightarrow> n_pools d \<le> n_pools d' \<and> n_pools d' \<le> n_pools d + m
     \<and> base (drv d') = base (drv d) \<and> pim_mem_size (drv d') = pim_mem_size (drv d)"

lemma pick_pool_spec:
  assumes "pool_inv d L" "case pos of None \<Rightarrow> True | Some k \<Rightarrow> k < n_pools d" "unat n \<le> NUM_PAGES"
  obtains (fail) e where "pick_pool d n pos = Inl e" "\<not> room d 1" "e \<noteq> OutOfFuel"
  | (old) k where "pick_pool d n pos = Inr (d, k)" "k < n_pools d" "n \<le> nfree_pages (pool d k)"
      "case pos of None \<Rightarrow> False | Some k0 \<Rightarrow> k0 \<le> k"
  | (new) d' where "pick_pool d n pos = Inr (d', n_pools d)" "pool_inv d' L"
      "n_pools d' = Suc (n_pools d)" "base (drv d') = base (drv d)"
      "pim_mem_size (drv d') = pim_mem_size (drv d)"
      "bit_vector (pool d' (n_pools d)) = free_flag NUM_PAGES" "curr_idx (pool d' (n_pools d)) = 0"
      "nfree_pages (pool d' (n_pools d)) = of_nat NUM_PAGES"
proof -
  note inv = pool_invD [OF assms(1)]
  note pick = that
  have alloc: thesis if none: "find_fit (Suc (n_pools d)) d n pos = Some None"
  proof (rule multi_mem_pool_allocation_cases [OF inv(2,1)], goal_cases fail null pool)
    case (fail e)
    then show thesis using none by (intro pick(1)) (auto simp: pick_pool_def)
  next
    case (null d1)
    then show thesis using none by (intro pick(1)) (auto simp: pick_pool_def)
  next
    case (pool va w)
    note m = multi_mmap_drv_Some(3,4) [OF pool(1)]
    have wo: "window_ok (drv d)" using inv(2) by (simp add: layout_ok_def)
    have "pick_pool d n pos = Inr (one_more va w d, n_pools d)"
      using none pool(2) by (simp add: pick_pool_def list_add_tail_grow [OF inv(1)] one_more_def)
    then show thesis
      by (rule pick(3))
        (use one_more_inv [OF assms(1) pool(1)] m wo in
          \<open>auto simp: one_more_pool [OF inv(1)] new_pool_def\<close>, auto simp: one_more_def)
  qed
  show thesis
  proof (cases pos)
    case None
    then show thesis by (intro alloc) simp
  next
    case (Some k)
    with assms(2) have kn: "k < n_pools d" and fu: "n_pools d - k < Suc (n_pools d)" by simp_all
    from find_fit_enough [OF inv(1) kn fu, of n] obtain r where
      r: "find_fit (Suc (n_pools d)) d n (Some k) = Some r"
      "case r of Some j \<Rightarrow> k \<le> j \<and> j < n_pools d \<and> n \<le> nfree_pages (pool d j) \<and>
           (\<forall>i. k \<le> i \<longrightarrow> i < j \<longrightarrow> \<not> n \<le> nfree_pages (pool d i))
       | None \<Rightarrow> \<forall>i. k \<le> i \<longrightarrow> i < n_pools d \<longrightarrow> \<not> n \<le> nfree_pages (pool d i)" by blast
    show thesis
    proof (cases r)
      case None
      with r Some show thesis by (intro alloc) simp
    next
      case j: (Some j)
      with r Some show thesis by (intro pick(2) [of j]) (auto simp: pick_pool_def)
    qed
  qed
qed

lemma upd_pool_same: "upd_pool k (\<lambda>_. pool d k) d = d"
  by (simp add: upd_pool_def list_update_id)

lemma fresh_bitmap_hit:
  assumes "bit_vector p = free_flag NUM_PAGES" "curr_idx p = 0" "0 < n" "n \<le> NUM_PAGES"
  shows "\<not> snd (set_bit_vector p n) < 0"
proof -
  have "free_run (bit_vector p) 0 n" using assms by (simp add: free_run_def free_flag_def)
  with assms(2) show ?thesis unfolding set_bit_vector_miss [OF assms(3)] by auto
qed

lemma extends_refl [simp]: "extends d d m"
  by (simp add: extends_def)

lemma find_mem_pool_spec:
  assumes "pool_inv d L" "0 < unat n" "unat n \<le> NUM_PAGES"
    and "case pos of None \<Rightarrow> 0 < fuel | Some k \<Rightarrow> k < n_pools d \<and> n_pools d - k < fuel"
  obtains (fail) e where "find_mem_pool fuel d n pos = Inl e" "\<not> room d 1" "e \<noteq> OutOfFuel"
  | (found) d' k idx where
    "find_mem_pool fuel d n pos = Inr (upd_pool k (\<lambda>_. mark_used (pool d' k) idx (unat n)) d', k, idx)"
    "pool_inv d' L" "k < n_pools d'" "free_run (bit_vector (pool d' k)) idx (unat n)"
    "nfree_pages (pool d' k) \<noteq> 0" "extends d d' 1"
  using assms(4)
proof (induction fuel arbitrary: pos thesis)
  case (Suc fuel)
  note inv = pool_invD [OF assms(1)]
  have pos: "case pos of None \<Rightarrow> True | Some k \<Rightarrow> k < n_pools d"
    using Suc.prems(3) by (auto split: option.splits)
  have hit: thesis
    if "pick_pool d n pos = Inr (d1, k)" "set_bit_vector (pool d1 k) (unat n) = (p, idx)" "\<not> idx < 0"
      "pool_inv d1 L" "k < n_pools d1" "nfree_pages (pool d1 k) \<noteq> 0" "extends d d1 1" for d1 k p idx
  proof -
    have "0 \<le> idx" using that(3) by simp
    from set_bit_vector_found [OF that(2) this assms(2)] obtain i where
      i: "idx = int i" "p = mark_used (pool d1 k) i (unat n)" "free_run (bit_vector (pool d1 k)) i (unat n)"
      by blast
    show thesis
      by (rule Suc.prems(2) [of k d1 i]) (use that i in simp_all)
  qed
  show ?case
  proof (rule pick_pool_spec [OF assms(1) pos assms(3)], goal_cases fail old new)
    case (fail e)
    then show thesis by (intro Suc.prems(1)) simp_all
  next
    case (old k)
    have nz: "nfree_pages (pool d k) \<noteq> 0" using old(3) assms(2) by (auto simp: word_le_nat_alt)
    obtain p idx where s: "set_bit_vector (pool d k) (unat n) = (p, idx)" by (cases "set_bit_vector (pool d k) (unat n)")
    show thesis
    proof (cases "idx < 0")
      case False
      from hit [OF old(1) s False assms(1) old(2) nz] show thesis by simp
    next
      case True
      then have p: "p = pool d k" by (rule set_bit_vector_not_found [OF s])
      have step: "find_mem_pool (Suc fuel) d n pos = find_mem_pool fuel d n (next_pool (pool d k))"
        using old(1) s True p by (simp add: upd_pool_same)
      have fuel: "case next_pool (pool d k) of None \<Rightarrow> 0 < fuel
          | Some k \<Rightarrow> k < n_pools d \<and> n_pools d - k < fuel"
        using Suc.prems(3) old(2,4) by (auto simp: links_next [OF inv(1) old(2)] split: option.splits)
      show thesis
        by (rule Suc.IH [OF _ _ fuel]) (use step Suc.prems(1,2) in auto)
    qed
  next
    case (new d')
    obtain p idx where s: "set_bit_vector (pool d' (n_pools d)) (unat n) = (p, idx)"
      by (cases "set_bit_vector (pool d' (n_pools d)) (unat n)")
    with fresh_bitmap_hit [OF new(6,7) assms(2,3)] have "\<not> idx < 0" by simp
    from hit [OF new(1) s this new(2)] new(3-5,8) show thesis by (simp add: extends_def)
  qed
qed (auto split: option.splits)

section \<open>A block of pages\<close>

definition small_alloc :: "nat \<Rightarrow> nat \<Rightarrow> u32 \<Rightarrow> pim_mem \<Rightarrow> pim_mem" where
  "small_alloc k idx n d = upd_pool k (\<lambda>p. set_alloc_size idx n (mark_used p idx (unat n))) d"

lemma set_alloc_size_frame [pool_frame, simp]:
  "bits_ok (set_alloc_size i n p) = bits_ok p" "page_used (set_alloc_size i n p) = page_used p"
  "n_free (set_alloc_size i n p) = n_free p" "nfree_pages (set_alloc_size i n p) = nfree_pages p"
  "large_mem_pool (set_alloc_size i n p) = large_mem_pool p"
  "start_va (set_alloc_size i n p) = start_va p" "next_pool (set_alloc_size i n p) = next_pool p"
  "prev_pool (set_alloc_size i n p) = prev_pool p"
  by (simp_all add: set_alloc_size_def)

lemma mark_used_frame [pool_frame, simp]:
  "large_mem_pool (mark_used p i n) = large_mem_pool p" "head_page (mark_used p i n) = head_page p"
  "start_va (mark_used p i n) = start_va p" "next_pool (mark_used p i n) = next_pool p"
  "prev_pool (mark_used p i n) = prev_pool p"
  "nfree_pages (mark_used p i n) = nfree_pages p - of_nat n"
  by (simp_all add: mark_used_def)

lemma clr_frame [pool_frame, simp]:
  "large_mem_pool (clr_bit_vector p i n) = large_mem_pool p" "head_page (clr_bit_vector p i n) = head_page p"
  "start_va (clr_bit_vector p i n) = start_va p" "next_pool (clr_bit_vector p i n) = next_pool p"
  "prev_pool (clr_bit_vector p i n) = prev_pool p"
  "nfree_pages (clr_bit_vector p i n) = nfree_pages p + of_nat n"
  by (simp_all add: clr_bit_vector_def)

lemma map_addr_set_alloc [simp]:
  "map addr (head_page (set_alloc_size i n p)) = map addr (head_page p)"
  unfolding set_alloc_size_def by (simp add: map_update list_update_same_conv nth_map [symmetric] del: nth_map)
    (metis list_update_id map_update)

lemma alloc_size_set [simp]:
  "alloc_size (head_page (set_alloc_size i n p) ! j) =
    (if j = i \<and> i < length (head_page p) then Some n else alloc_size (head_page p ! j))"
  by (cases "i < length (head_page p)") (auto simp: set_alloc_size_def nth_list_update list_update_beyond)

lemma insert_small [simp]:
  "in_large (insert (Small k i n) L) = in_large L" "last_large (insert (Small k i n) L) = last_large L"
  "in_small (insert (Small k i n) L) k' j \<longleftrightarrow> k' = k \<and> i \<le> j \<and> j < i + n \<or> in_small L k' j"
  by (auto simp: in_large_def last_large_def in_small_def fun_eq_iff)

lemma insert_large [simp]:
  "in_large (insert (Large k m) L) k' \<longleftrightarrow> k \<le> k' \<and> k' < k + m \<or> in_large L k'"
  "last_large (insert (Large k m) L) k' \<longleftrightarrow> Suc k' = k + m \<or> last_large L k'"
  "in_small (insert (Large k m) L) = in_small L"
  by (auto simp: in_large_def last_large_def in_small_def fun_eq_iff)

lemma same_list_upd:
  assumes "\<And>p. p = pool d k \<Longrightarrow> same_shape (f p) p" "\<And>p. p = pool d k \<Longrightarrow> bits_ok p \<Longrightarrow> bits_ok (f p)"
  shows "same_list d (upd_pool k f d)"
  using assms by (auto simp: same_list_def)

lemma upd_pool_links: "same_list d (upd_pool k f d) \<Longrightarrow> links_ok d \<Longrightarrow> links_ok (upd_pool k f d)"
  by (rule same_list_links) (auto simp: links_ok_def)

lemma blocks_ok_insert:
  assumes "blocks_ok d L" "blk_ok d' b" "\<And>b'. b' \<in> L \<Longrightarrow> blk_ok d' b'"
    and "\<And>b'. b' \<in> L \<Longrightarrow> blk_pages b \<inter> blk_pages b' = {}"
  shows "blocks_ok d' (insert b L)"
  unfolding blocks_ok_def
proof (intro conjI ballI impI)
  fix x assume "x \<in> insert b L"
  then show "blk_ok d' x" using assms(2,3) by auto
next
  fix x y assume "x \<in> insert b L" "y \<in> insert b L" "x \<noteq> y"
  then show "blk_pages x \<inter> blk_pages y = {}"
    using assms(4) [of x] assms(4) [of y] blocks_okD(2) [OF assms(1), of x y] by (auto simp: Int_commute)
qed

lemma small_alloc_inv:
  assumes "pool_inv d L" "k < n_pools d" "free_run (bit_vector (pool d k)) idx (unat n)" "0 < unat n"
    and "nfree_pages (pool d k) \<noteq> 0"
  shows "pool_inv (small_alloc k idx n d) (insert (Small k idx (unat n)) L)"
    and "\<And>b. b \<in> L \<Longrightarrow> blk_pages (Small k idx (unat n)) \<inter> blk_pages b = {}"
proof -
  let ?d = "small_alloc k idx n d" and ?b = "Small k idx (unat n)" and ?p = "pool d k"
  note inv = pool_invD [OF assms(1)]
  have bits: "bits_ok ?p" by (rule layout_bits [OF inv(2) assms(2)])
  with assms(3) have run: "idx + unat n \<le> NUM_PAGES"
    "\<And>j. idx \<le> j \<Longrightarrow> j < idx + unat n \<Longrightarrow> \<not> page_used ?p j"
    by (auto simp: free_run_page_used)
  have ok: "pool_ok L k ?p" by (rule inv(4) [OF assms(2)])
  with assms(5) have nl: "\<not> in_large L k" by (auto simp: pool_ok_def)
  with ok have used: "page_used ?p i \<longleftrightarrow> in_small L k i" for i by (simp add: pool_ok_def)
  show disj: "blk_pages ?b \<inter> blk_pages b = {}" if "b \<in> L" for b
  proof (cases b)
    case (Small k' i0 n0)
    then have "in_small L k' j" if "i0 \<le> j" "j < i0 + n0" for j
      using that \<open>b \<in> L\<close> by (auto simp: in_small_def)
    with Small run(2) used show ?thesis by fastforce
  next
    case (Large k0 m)
    with nl that show ?thesis by (auto simp: in_large_def)
  qed
  have frees: "n_free (mark_used ?p idx (unat n)) + unat n = n_free ?p"
    by (rule mark_used_n_free [OF bits assms(3)])
  have nf: "unat (nfree_pages ?p) = n_free ?p" using ok nl by (simp add: pool_ok_def)
  with frees have le: "n \<le> nfree_pages ?p" by (simp add: word_le_nat_alt)
  have same: "same_list d ?d"
    unfolding small_alloc_def
    by (rule same_list_upd) (use run(1) in \<open>auto simp: same_shape_def mark_used_ok\<close>)
  have links: "links_ok ?d" using same inv(1) unfolding small_alloc_def by (rule upd_pool_links)
  have pl: "pool ?d j = (if j = k then set_alloc_size idx n (mark_used ?p idx (unat n)) else pool d j)"
    if "j < n_pools d" for j using that by (simp add: small_alloc_def)
  have np: "n_pools ?d = n_pools d" by (simp add: small_alloc_def)
  have len: "length (head_page ?p) = NUM_PAGES"
    using inv(2) assms(2) by (simp add: layout_ok_def tiles_ok_def)
  have "blk_ok ?d b" if b: "b \<in> L" for b
  proof (rule blk_ok_mono [OF blocks_okD(1) [OF inv(3) b]])
    fix k' i0 n0 assume s: "b = Small k' i0 n0"
    then have v: "k' < n_pools d" "0 < n0" using blocks_okD(1) [OF inv(3) b] by auto
    have "k' = k \<longrightarrow> i0 \<noteq> idx"
    proof (intro impI notI)
      assume "k' = k" "i0 = idx"
      then have "(k, idx) \<in> blk_pages ?b \<inter> blk_pages b" using s v(2) assms(4) by simp
      with disj [OF b] show False by blast
    qed
    then show "alloc_size (head_page (pool ?d k') ! i0) = alloc_size (head_page (pool d k') ! i0)"
      using v(1) pl by auto
  qed (simp add: np)
  moreover have "blk_ok ?d ?b" using assms(2,4) run(1) len np by (simp add: pl)
  ultimately have blocks: "blocks_ok ?d (insert ?b L)"
    using disj by (intro blocks_ok_insert [OF inv(3)]) auto
  have "pool_ok (insert ?b L) j (pool ?d j)" if j: "j < n_pools ?d" for j
  proof (cases "j = k")
    case False
    with inv(4) [of j] j np show ?thesis by (auto simp: pool_ok_def pl)
  next
    case True
    then show ?thesis using nl frees nf used le ok assms(2)
      by (auto simp: pool_ok_def pl mark_used_page_used [OF bits run(1)] unat_sub)
  qed
  with links same_list_layout [OF same inv(2)] blocks show "pool_inv ?d (insert ?b L)"
    by (simp add: pool_inv_def)
qed

section \<open>The page path as a whole\<close>

lemma nalloc_pages_bounds:
  assumes "sz \<le> of_nat HUGE_PAGE_SIZE"
  shows "0 < unat (nalloc_pages_for sz)" "unat (nalloc_pages_for sz) \<le> NUM_PAGES"
    "unat sz \<le> unat (nalloc_pages_for sz) * PAGE_SIZE"
proof -
  define q where "q = sz div of_nat PAGE_SIZE"
  have s: "unat sz \<le> HUGE_PAGE_SIZE" using assms by (simp add: word_le_nat_alt)
  have qn: "unat q = unat sz div PAGE_SIZE" by (simp add: q_def unat_div)
  have q512: "unat q \<le> 512" unfolding qn using div_le_mono [OF s, of PAGE_SIZE] by simp
  have r: "sz mod of_nat PAGE_SIZE = 0 \<longleftrightarrow> unat sz mod PAGE_SIZE = 0"
    by (simp add: word_unat_eq_iff unat_mod)
  define n :: u32 where "n = ucast (if q \<noteq> 0 then q else 1)"
  have n: "unat n = (if unat sz div PAGE_SIZE = 0 then 1 else unat sz div PAGE_SIZE)"
    using q512 unfolding qn [symmetric] n_def
    by (auto simp: unsigned_ucast_eq take_bit_nat_eq_self unat_eq_0)
  then have "unat n \<le> 512" using q512 qn by auto
  then have n1: "unat (n + 1) = unat n + 1" by (intro word_suc_less) simp
  have "nalloc_pages_for sz = (if sz mod of_nat PAGE_SIZE \<noteq> 0 then n + 1 else n)"
    unfolding nalloc_pages_for_def Let_def q_def [symmetric] n_def [symmetric] ..
  then have eq: "unat (nalloc_pages_for sz) = (if unat sz div PAGE_SIZE = 0 then 1 else unat sz div PAGE_SIZE)
      + (if unat sz mod PAGE_SIZE = 0 then 0 else 1)"
    using r n n1 by auto
  obtain a b where ab: "unat sz div PAGE_SIZE = a" "unat sz mod PAGE_SIZE = b" by blast
  have sz: "unat sz = a * PAGE_SIZE + b" "b < PAGE_SIZE"
    using div_mult_mod_eq [of "unat sz" PAGE_SIZE] mod_less_divisor [of PAGE_SIZE "unat sz"]
    unfolding ab by simp_all
  show "0 < unat (nalloc_pages_for sz)" unfolding eq by simp
  show "unat (nalloc_pages_for sz) \<le> NUM_PAGES"
    unfolding eq ab using s unfolding sz(1) by (cases "a = 0"; cases "b = 0") simp_all
  show "unat sz \<le> unat (nalloc_pages_for sz) * PAGE_SIZE"
    unfolding eq ab unfolding sz(1) using sz(2) by (cases "a = 0"; cases "b = 0") simp_all
qed

definition alloc_ok :: "pim_mem \<Rightarrow> block set \<Rightarrow> u64 \<Rightarrow> pim_mem \<Rightarrow> u64 \<Rightarrow> bool" where
  "alloc_ok d L sz d' a \<longleftrightarrow> (\<exists>b. b \<notin> L \<and> pool_inv d' (insert b L) \<and> unat a = blk_addr d' b
     \<and> unat sz \<le> blk_bytes b) \<and> base (drv d') = base (drv d)
     \<and> pim_mem_size (drv d') = pim_mem_size (drv d)"

lemma upd_pool_upd_pool:
  "k < n_pools d \<Longrightarrow> upd_pool k f (upd_pool k g d) = upd_pool k (\<lambda>p. f (g p)) d"
  by (simp add: upd_pool_def)

lemma small_alloc_eq:
  "k < n_pools d \<Longrightarrow> upd_pool k (set_alloc_size idx n) (upd_pool k (\<lambda>_. mark_used (pool d k) idx (unat n)) d)
    = small_alloc k idx n d"
  by (simp add: upd_pool_def small_alloc_def)

lemma links_curr: "links_ok d \<Longrightarrow> \<exists>c < n_pools d. curr_mem_pool d = Some c"
  by (simp add: links_ok_def)

lemma malloc_pages_spec:
  assumes "pool_inv d L" "0 < unat n" "unat n \<le> NUM_PAGES" "unat sz \<le> unat n * PAGE_SIZE"
  shows "case malloc_pages d n of Inl e \<Rightarrow> \<not> room d 1 \<and> e \<noteq> OutOfFuel
    | Inr (d', a) \<Rightarrow> alloc_ok d L sz d' a"
proof -
  note inv = pool_invD [OF assms(1)]
  obtain c where c: "c < n_pools d" "curr_mem_pool d = Some c" using links_curr [OF inv(1)] by blast
  define start where "start = (if n > nfree_pages (pool d c) then head_mem_pool d else Some c)"
  have "case start of None \<Rightarrow> 0 < n_pools d + 2
      | Some k \<Rightarrow> k < n_pools d \<and> n_pools d - k < n_pools d + 2"
    using c inv(1) by (auto simp: start_def links_ok_def)
  then show ?thesis
  proof (rule find_mem_pool_spec [OF assms(1-3)], goal_cases fail found)
    case (fail e)
    then show ?case using c by (simp add: malloc_pages_def start_def)
  next
    case (found d' k idx)
    let ?b = "Small k idx (unat n)" and ?d = "small_alloc k idx n d'"
    note sm = small_alloc_inv [OF found(2,3,4) assms(2) found(5)]
    have kn: "k < n_pools ?d" using found(3) by (simp add: small_alloc_def)
    have res: "malloc_pages d n = Inr (?d\<lparr>curr_mem_pool := Some k\<rparr>, addr (head_page (pool d' k) ! idx))"
      using c found(1,3) by (simp add: malloc_pages_def start_def [symmetric] small_alloc_eq)
    have "blk_pages ?b \<noteq> {}" using assms(2) by simp
    then have new: "?b \<notin> L" using sm(2) [of ?b] by blast
    have "idx < NUM_PAGES"
      using found(4) assms(2) layout_bits [OF pool_invD(2) [OF found(2)] found(3)]
      by (simp add: free_run_page_used)
    from layout_page_addr [OF pool_invD(2) [OF found(2)] found(3) this]
    have a: "unat (addr (head_page (pool d' k) ! idx)) = blk_addr (?d\<lparr>curr_mem_pool := Some k\<rparr>) ?b"
      by (simp add: blk_addr_def small_alloc_def)
    have "drv ?d = drv d'" by (simp add: small_alloc_def)
    with found(6) have "base (drv ?d) = base (drv d)" "pim_mem_size (drv ?d) = pim_mem_size (drv d)"
      by (simp_all add: extends_def)
    then have "alloc_ok d L sz (?d\<lparr>curr_mem_pool := Some k\<rparr>) (addr (head_page (pool d' k) ! idx))"
      using new a assms(4) pool_inv_curr [OF kn sm(1)] unfolding alloc_ok_def
      by (intro conjI exI [of _ ?b]) simp_all
    then show ?case by (simp add: res)
  qed
qed

section \<open>A block of whole pools\<close>

lemma large_add_inv:
  assumes inv: "pool_inv d L" and links: "links_ok d'" and layout: "layout_ok d'"
    and np: "n_pools d \<le> n_pools d'" and m: "2 \<le> m" "k + m \<le> n_pools d'" "n_pools d' \<le> max (n_pools d) (k + m)" "k \<le> n_pools d"
    and free: "free_pools d k (min (k + m) (n_pools d))"
    and run: "\<And>j. k \<le> j \<Longrightarrow> j < k + m \<Longrightarrow> nfree_pages (pool d' j) = 0 \<and> (\<forall>i. \<not> page_used (pool d' j) i)
        \<and> (large_mem_pool (pool d' j) \<longleftrightarrow> Suc j \<noteq> k + m)"
    and keep: "\<And>j. j < n_pools d \<Longrightarrow> j < k \<or> k + m \<le> j \<Longrightarrow>
        \<exists>x. pool d' j = (pool d j)\<lparr>next_pool := x\<rparr>"
  shows "pool_inv d' (insert (Large k m) L)" and "Large k m \<notin> L"
proof -
  note i = pool_invD [OF inv]
  have notin: "(j, x) \<notin> blk_pages b" if "k \<le> j" "j < k + m" "b \<in> L" for j x b
  proof (cases "j < n_pools d")
    case True
    with that free have "nfree_pages (pool d j) = of_nat NUM_PAGES" by (auto simp: free_pools_def)
    from blk_free_pool [OF inv True this that(3)] show ?thesis .
  next
    case False
    with blk_pages_inside [OF blocks_okD(1) [OF i(3) that(3)]] show ?thesis by auto
  qed
  have disj: "blk_pages (Large k m) \<inter> blk_pages b = {}" if "b \<in> L" for b
    using notin that by auto
  have "(k, 0) \<in> blk_pages (Large k m)" using m(1) by simp
  then show "Large k m \<notin> L" using disj [of "Large k m"] by blast
  have outside: "\<not> in_large L j \<and> \<not> last_large L j \<and> \<not> in_small L j x" if "k \<le> j" "j < k + m" for j x
  proof -
    have il: "\<not> in_large L j"
    proof
      assume "in_large L j"
      then obtain k0 m0 where "Large k0 m0 \<in> L" "k0 \<le> j" "j < k0 + m0" by (auto simp: in_large_def)
      with notin [OF that, of "Large k0 m0" 0] show False by simp
    qed
    moreover have "\<not> in_small L j x"
    proof
      assume "in_small L j x"
      then obtain i0 n where "Small j i0 n \<in> L" "i0 \<le> x" "x < i0 + n" by (auto simp: in_small_def)
      with notin [OF that, of "Small j i0 n" x] show False by simp
    qed
    ultimately show ?thesis using last_large_in [OF i(3), of j] by blast
  qed
  have keep': "pool_ok L j (pool d' j)" if "j < n_pools d" "j < k \<or> k + m \<le> j" for j
    using keep [OF that] i(4) [OF that(1)] by auto
  have lastk: "Suc j \<noteq> k + m" if "j < k \<or> k + m \<le> j" for j using that m(1) by auto
  have pools: "pool_ok (insert (Large k m) L) j (pool d' j)" if "j < n_pools d'" for j
  proof (cases "k \<le> j \<and> j < k + m")
    case True
    with run [of j] outside [of j] show ?thesis by (simp add: pool_ok_def)
  next
    case False
    with that m have "j < n_pools d" "j < k \<or> k + m \<le> j" by auto
    with lastk [of j] False have "\<not> (k \<le> j \<and> j < k + m)" "Suc j \<noteq> k + m" by blast+
    then have "pool_ok (insert (Large k m) L) j p = pool_ok L j p" for p
      unfolding pool_ok_def insert_large by (simp only: simp_thms)
    with keep' \<open>j < n_pools d\<close> \<open>j < k \<or> k + m \<le> j\<close> show ?thesis by simp
  qed
  have "blk_ok d' b" if b: "b \<in> L" for b
  proof (rule blk_ok_mono [OF blocks_okD(1) [OF i(3) b] np])
    fix k' i0 n assume s: "b = Small k' i0 n"
    then have v: "k' < n_pools d" "0 < n" using blocks_okD(1) [OF i(3) b] by auto
    have "k' < k \<or> k + m \<le> k'"
      using notin [of k' b i0] b s v(2) by (cases "k \<le> k'"; cases "k' < k + m") auto
    from keep [OF v(1) this] show "alloc_size (head_page (pool d' k') ! i0)
        = alloc_size (head_page (pool d k') ! i0)" by auto
  qed
  moreover have "blk_ok d' (Large k m)" using m by simp
  ultimately have "blocks_ok d' (insert (Large k m) L)"
    using disj by (intro blocks_ok_insert [OF i(3)]) auto
  with links layout pools show "pool_inv d' (insert (Large k m) L)" by (simp add: pool_inv_def)
qed

lemma mark_large_state:
  assumes "links_ok d" "layout_ok d" "k + unat num \<le> n_pools d" "0 < unat num"
  obtains d' where "mark_large (unat num) 0 num (Some k) d = Inr d'" "links_ok d'" "layout_ok d'"
    "n_pools d' = n_pools d" "drv d' = drv d"
    "\<And>j. k \<le> j \<Longrightarrow> j < k + unat num \<Longrightarrow>
       pool d' j = (pool d j)\<lparr>large_mem_pool := (Suc j \<noteq> k + unat num), nfree_pages := 0\<rparr>"
    "\<And>j. j < n_pools d \<Longrightarrow> j < k \<or> k + unat num \<le> j \<Longrightarrow> pool d' j = pool d j"
proof -
  have kn: "k < n_pools d" using assms(3,4) by simp
  from mark_large_spec [OF assms(1,3) kn, of 0 num] obtain d' where d':
    "mark_large (unat num) 0 num (Some k) d = Inr d'" "d' = d\<lparr>pool_heap := pool_heap d'\<rparr>"
    "n_pools d' = n_pools d" "\<forall>j < n_pools d. pool d' j = (if k \<le> j \<and> j < k + unat num
        then (pool d j)\<lparr>large_mem_pool := (0 + of_nat (j - k) \<noteq> num - 1), nfree_pages := 0\<rparr>
        else pool d j)" by blast
  have idx: "(0 :: u32) + of_nat (j - k) \<noteq> num - 1 \<longleftrightarrow> Suc j \<noteq> k + unat num"
    if "k \<le> j" "j < k + unat num" for j
  proof -
    have "j - k < unat num" using that by simp
    then have "unat (of_nat (j - k) :: u32) = j - k"
      using order.strict_trans [OF _ u32_bound] by (intro unat_of_nat_u32) simp
    moreover have "num \<noteq> 0" using assms(4) by auto
    ultimately show ?thesis using that assms(4) by (auto simp: word_unat_eq_iff word_pred)
  qed
  have proj: "drv d' = drv d" "head_mem_pool d' = head_mem_pool d" "tail_mem_pool d' = tail_mem_pool d"
    "curr_mem_pool d' = curr_mem_pool d"
    by (subst d'(2), simp)+
  have same: "same_list d d'"
    using d'(3,4) proj by (auto simp: same_list_def same_shape_def)
  show thesis
  proof (rule that [OF d'(1)])
    show "links_ok d'" by (rule same_list_links [OF same assms(1)]) (simp add: proj links_curr [OF assms(1)])
    show "layout_ok d'" by (rule same_list_layout [OF same assms(2)])
    show "n_pools d' = n_pools d" "drv d' = drv d" using d'(3) proj by simp_all
    show "pool d' j = (pool d j)\<lparr>large_mem_pool := (Suc j \<noteq> k + unat num), nfree_pages := 0\<rparr>"
      if "k \<le> j" "j < k + unat num" for j
      using d'(4) idx [OF that] that assms(3) by auto
    show "pool d' j = pool d j" if "j < n_pools d" "j < k \<or> k + unat num \<le> j" for j
      using d'(4) that by auto
  qed
qed

definition fresh_large :: "mem_pool \<Rightarrow> bool" where
  "fresh_large p \<longleftrightarrow> nfree_pages p = 0 \<and> (\<forall>i. \<not> page_used p i)"

lemma fresh_large_simps [simp]:
  "fresh_large (new_pool va 0 b x)" "fresh_large (p\<lparr>next_pool := y\<rparr>) = fresh_large p"
  "fresh_large (p\<lparr>large_mem_pool := c\<rparr>) = fresh_large p" "fresh_large (set_alloc_size i n p) = fresh_large p"
  by (simp_all add: fresh_large_def)

lemma large_alloc_loop_spec:
  assumes "links_ok d" "tiles_ok d" "n_pools d = n0 + i" "unat large = unat (base (drv d)) + n0 * HUGE_PAGE_SIZE"
    and "unat (base (drv d)) + (n0 + i + r) * HUGE_PAGE_SIZE < 2 ^ 63"
  shows "case large_alloc_loop r i large d of
      Inl e \<Rightarrow> e = HostMalloc \<and> host_mem d < 2 * r
    | Inr d' \<Rightarrow> links_ok d' \<and> tiles_ok d' \<and> n_pools d' = n_pools d + r \<and> drv d' = drv d
        \<and> (\<forall>j < n_pools d. \<exists>x. pool d' j = (pool d j)\<lparr>next_pool := x\<rparr>)
        \<and> (\<forall>j. n_pools d \<le> j \<longrightarrow> j < n_pools d + r \<longrightarrow>
             fresh_large (pool d' j) \<and> large_mem_pool (pool d' j))"
  using assms
proof (induction r arbitrary: i d)
  case 0
  have "\<exists>x. pool d j = (pool d j)\<lparr>next_pool := x\<rparr>" for j
    by (rule exI [of _ "next_pool (pool d j)"]) simp
  with 0 show ?case by simp
next
  case (Suc r)
  show ?case
  proof (cases "host_mem d < 2")
    case True
    then show ?thesis by simp
  next
    case False
    define va where "va = large + of_nat (i * HUGE_PAGE_SIZE)"
    define d2 where "d2 = grow va 0 True (d\<lparr>host_mem := host_mem d - 2, drv := drv d,
        ntotal_mem_pools := ntotal_mem_pools d + 1\<rparr>)"
    have small: "unat (base (drv d)) + n0 * HUGE_PAGE_SIZE + i * HUGE_PAGE_SIZE < 2 ^ 63"
      using Suc.prems(5) by (simp add: add_mult_distrib)
    have "unat (of_nat (i * HUGE_PAGE_SIZE) :: u64) = i * HUGE_PAGE_SIZE"
      using small by (intro unat_of_nat_u64) simp
    then have va: "unat va = unat (base (drv d)) + (n0 + i) * HUGE_PAGE_SIZE"
      unfolding va_def using small Suc.prems(4)
      by (subst unat_add_u64) (simp_all add: add_mult_distrib del: of_nat_mult)
    have eq: "d\<lparr>host_mem := host_mem d - 2, pool_heap := pool_heap d @ [new_pool va 0 True None],
        ntotal_mem_pools := ntotal_mem_pools d + 1\<rparr> = d\<lparr>pool_heap := pool_heap d @ [new_pool va 0 True None],
        host_mem := host_mem d - 2, drv := drv d, ntotal_mem_pools := ntotal_mem_pools d + 1\<rparr>"
      by simp
    have step: "large_alloc_loop (Suc r) i large d = large_alloc_loop r (Suc i) large d2"
      unfolding large_alloc_loop.simps Let_def va_def [symmetric] eq
        list_add_tail_grow [OF Suc.prems(1)] d2_def using False by simp
    have l2: "links_ok d2" unfolding d2_def using Suc.prems(1) by (intro grow_links) simp
    have t2: "tiles_ok d2" unfolding d2_def
      by (rule grow_tiles) (use Suc.prems(2,3) va in \<open>auto simp: tiles_ok_def\<close>)
    have n2: "n_pools d2 = n0 + Suc i" and dr2: "drv d2 = drv d"
      and h2: "host_mem d2 = host_mem d - 2"
      by (simp_all add: d2_def Suc.prems(3))
    have p2: "pool d2 j = (if j = n_pools d then new_pool va 0 True (Some (n_pools d - 1))
      else if Suc j = n_pools d then (pool d j)\<lparr>next_pool := Some (n_pools d)\<rparr> else pool d j)"
      if "j < Suc (n_pools d)" for j using that by (simp add: d2_def pool_grow)
    have ih: "case large_alloc_loop r (Suc i) large d2 of
      Inl e \<Rightarrow> e = HostMalloc \<and> host_mem d2 < 2 * r
    | Inr d' \<Rightarrow> links_ok d' \<and> tiles_ok d' \<and> n_pools d' = n_pools d2 + r \<and> drv d' = drv d2
        \<and> (\<forall>j < n_pools d2. \<exists>x. pool d' j = (pool d2 j)\<lparr>next_pool := x\<rparr>)
        \<and> (\<forall>j. n_pools d2 \<le> j \<longrightarrow> j < n_pools d2 + r \<longrightarrow>
             fresh_large (pool d' j) \<and> large_mem_pool (pool d' j))"
      by (rule Suc.IH [OF l2 t2 n2]) (use Suc.prems(4,5) in \<open>simp_all add: dr2\<close>)
    show ?thesis
    proof (cases "large_alloc_loop r (Suc i) large d2")
      case (Inl e)
      with ih step h2 False show ?thesis by auto
    next
      case (Inr d')
      with ih have d': "links_ok d'" "tiles_ok d'" "n_pools d' = n_pools d2 + r" "drv d' = drv d2"
        "\<And>j. j < n_pools d2 \<Longrightarrow> \<exists>x. pool d' j = (pool d2 j)\<lparr>next_pool := x\<rparr>"
        "\<And>j. n_pools d2 \<le> j \<Longrightarrow> j < n_pools d2 + r \<Longrightarrow> fresh_large (pool d' j) \<and> large_mem_pool (pool d' j)"
        by auto
      have n2': "n_pools d2 = Suc (n_pools d)" using n2 Suc.prems(3) by simp
      have old: "\<exists>x. pool d' j = (pool d j)\<lparr>next_pool := x\<rparr>" if "j < n_pools d" for j
        using d'(5) [of j] that n2' by (auto simp: p2 split: if_splits)
      have new: "fresh_large (pool d' j) \<and> large_mem_pool (pool d' j)"
        if "n_pools d \<le> j" "j < n_pools d + Suc r" for j
      proof (cases "j = n_pools d")
        case True
        with d'(5) [of j] n2' show ?thesis by (auto simp: p2)
      next
        case False
        with that n2' show ?thesis by (intro d'(6)) auto
      qed
      from Inr step d'(1-4) old new n2' dr2 show ?thesis by simp
    qed
  qed
qed

definition large_grown :: "pim_mem \<Rightarrow> nat \<Rightarrow> pim_mem \<Rightarrow> bool" where
  "large_grown d m d' \<longleftrightarrow> links_ok d' \<and> layout_ok d' \<and> n_pools d' = n_pools d + m
     \<and> base (drv d') = base (drv d) \<and> pim_mem_size (drv d') = pim_mem_size (drv d)
     \<and> (\<forall>j < n_pools d. \<exists>x. pool d' j = (pool d j)\<lparr>next_pool := x\<rparr>)
     \<and> (\<forall>j. n_pools d \<le> j \<longrightarrow> j < n_pools d + m \<longrightarrow> fresh_large (pool d' j)
          \<and> (large_mem_pool (pool d' j) \<longleftrightarrow> Suc j \<noteq> n_pools d + m))"

lemma multi_large_spec:
  assumes "links_ok d" "layout_ok d" "0 < unat num" "unat num < 1024"
  shows "case multi_large_mem_pool_allocation d num of
      Inl e \<Rightarrow> \<not> room d (unat num) \<and> e \<noteq> OutOfFuel
    | Inr (d', k) \<Rightarrow> k = n_pools d \<and> large_grown d (unat num) d'"
proof -
  let ?m = "unat num"
  have w: "window_ok (drv d)" and ts: "unat (total_size (drv d)) = n_pools d * HUGE_PAGE_SIZE"
    and tiles: "tiles_ok d" using assms(2) by (auto simp: layout_ok_def)
  have small: "HUGE_PAGE_SIZE * ?m < 2 ^ 31" using assms(4) by simp
  have arg: "of_nat HUGE_PAGE_SIZE * num = (of_nat (HUGE_PAGE_SIZE * ?m) :: u32)" by simp
  show ?thesis
  proof (cases "multi_mmap_drv (of_nat HUGE_PAGE_SIZE * num) (drv d)")
    case None
    then have "\<not> unat (total_size (drv d)) + HUGE_PAGE_SIZE * ?m \<le> unat (pim_mem_size (drv d))"
      using multi_mmap_drv_enough [OF w small] unfolding arg by auto
    then have "\<not> room d ?m" by (simp add: room_def mult.commute)
    with None show ?thesis by (simp add: multi_large_mem_pool_allocation_def)
  next
    case (Some r)
    obtain large drv' where r: "r = (large, drv')" by (cases r)
    note mm = multi_mmap_drv_Some [OF Some [unfolded r arg] w small]
    have "base (drv d) \<noteq> 0" using w by (simp add: window_ok_def)
    then have l0: "large \<noteq> 0" using mm(1) by (auto simp: unat_eq_0)
    have n0: "num \<noteq> 0" using assms(3) by auto
    let ?d = "d\<lparr>drv := drv'\<rparr>"
    have endok: "unat (base (drv d)) + (n_pools d + ?m) * HUGE_PAGE_SIZE < 2 ^ 63"
      using mm(2,3,4,5) ts by (simp add: window_ok_def word_le_nat_alt)
    have loop: "case large_alloc_loop ?m 0 large ?d of
      Inl e \<Rightarrow> e = HostMalloc \<and> host_mem ?d < 2 * ?m
    | Inr d' \<Rightarrow> links_ok d' \<and> tiles_ok d' \<and> n_pools d' = n_pools ?d + ?m \<and> drv d' = drv ?d
        \<and> (\<forall>j < n_pools ?d. \<exists>x. pool d' j = (pool ?d j)\<lparr>next_pool := x\<rparr>)
        \<and> (\<forall>j. n_pools ?d \<le> j \<longrightarrow> j < n_pools ?d + ?m \<longrightarrow> fresh_large (pool d' j) \<and> large_mem_pool (pool d' j))"
      by (rule large_alloc_loop_spec [where ?n0.0 = "n_pools d"])
        (use assms(1) tiles mm(1,3) ts endok in \<open>simp_all add: tiles_ok_def\<close>)
    show ?thesis
    proof (cases "large_alloc_loop ?m 0 large ?d")
      case (Inl e)
      with loop Some r l0 n0 show ?thesis
        by (auto simp: multi_large_mem_pool_allocation_def room_def)
    next
      case (Inr d1)
      let ?d2 = "upd_pool (n_pools d + ?m - 1) (\<lambda>p. p\<lparr>large_mem_pool := False\<rparr>) d1"
      let ?d3 = "upd_pool (n_pools d) (set_alloc_size 0 (of_nat NUM_PAGES)) ?d2"
      have res: "multi_large_mem_pool_allocation d num = Inr (?d3, n_pools d)"
        using Some r l0 n0 Inr by (simp add: multi_large_mem_pool_allocation_def Let_def)
      from loop Inr have l1: "links_ok d1" "tiles_ok d1" "n_pools d1 = n_pools d + ?m" "drv d1 = drv'"
        "\<And>j. j < n_pools d \<Longrightarrow> \<exists>x. pool d1 j = (pool d j)\<lparr>next_pool := x\<rparr>"
        "\<And>j. n_pools d \<le> j \<Longrightarrow> j < n_pools d + ?m \<Longrightarrow> fresh_large (pool d1 j) \<and> large_mem_pool (pool d1 j)"
        by auto
      have same: "same_list d1 ?d3"
        by (auto simp: same_list_def same_shape_def)
      have lay1: "layout_ok d1" using l1(2-4) mm(2,5) ts
        by (simp add: layout_ok_def add_mult_distrib)
      have p3: "pool ?d3 j = (if j = n_pools d then set_alloc_size 0 (of_nat NUM_PAGES) else id)
          ((if j = n_pools d + ?m - 1 then (pool d1 j)\<lparr>large_mem_pool := False\<rparr> else pool d1 j))"
        if "j < n_pools d1" for j using that l1(3) assms(3) by simp
      have "links_ok ?d3"
        by (rule same_list_links [OF same l1(1)]) (simp add: links_curr [OF l1(1)])
      moreover have "layout_ok ?d3" by (rule same_list_layout [OF same lay1])
      moreover have "\<exists>x. pool ?d3 j = (pool d j)\<lparr>next_pool := x\<rparr>" if "j < n_pools d" for j
        using l1(5) [OF that] that l1(3) assms(3) by (simp add: p3)
      moreover have "fresh_large (pool ?d3 j) \<and> (large_mem_pool (pool ?d3 j) \<longleftrightarrow> Suc j \<noteq> n_pools d + ?m)"
        if "n_pools d \<le> j" "j < n_pools d + ?m" for j
        using l1(6) [OF that] that l1(3) by (auto simp: p3)
      ultimately have "large_grown d ?m ?d3"
        using l1(3,4) mm(3,4) by (simp add: large_grown_def)
      then show ?thesis by (simp add: res)
    qed
  qed
qed


section \<open>The large path as a whole\<close>

lemma num_pools_bounds:
  assumes "sz > of_nat HUGE_PAGE_SIZE" "unat sz \<le> 1023 * HUGE_PAGE_SIZE"
  shows "2 \<le> unat (num_pools_for sz)" "unat (num_pools_for sz) < 1024"
    "unat sz \<le> unat (num_pools_for sz) * HUGE_PAGE_SIZE"
proof -
  have s: "HUGE_PAGE_SIZE < unat sz" using assms(1) by (simp add: word_less_nat_alt)
  obtain a b where ab: "unat sz div HUGE_PAGE_SIZE = a" "unat sz mod HUGE_PAGE_SIZE = b" by blast
  have sz: "unat sz = a * HUGE_PAGE_SIZE + b" "b < HUGE_PAGE_SIZE"
    using div_mult_mod_eq [of "unat sz" HUGE_PAGE_SIZE] mod_less_divisor [of HUGE_PAGE_SIZE "unat sz"]
    unfolding ab by simp_all
  have a: "a \<le> 1023" "1 \<le> a" "b = 0 \<longrightarrow> 2 \<le> a" "a = 1023 \<longrightarrow> b = 0"
    using sz s assms(2) by auto
  define t where "t = sz div of_nat HUGE_PAGE_SIZE"
  have t: "unat t = a" using ab(1) by (simp add: t_def unat_div)
  have t1: "unat (t + 1) = a + 1" using t a(1) by (simp add: unat_word_ariths)
  have r: "sz mod of_nat HUGE_PAGE_SIZE \<noteq> 0 \<longleftrightarrow> b \<noteq> 0"
    using ab(2) by (simp add: word_unat_eq_iff unat_mod)
  have "num_pools_for sz = ucast (if sz mod of_nat HUGE_PAGE_SIZE \<noteq> 0 then t + 1 else t)"
    unfolding num_pools_for_def Let_def t_def [symmetric] ..
  then have eq: "unat (num_pools_for sz) = (if b = 0 then a else a + 1)"
    unfolding r using t t1 a(1) by (simp add: unsigned_ucast_eq take_bit_nat_eq_self)
  show "2 \<le> unat (num_pools_for sz)" unfolding eq using a by auto
  show "unat (num_pools_for sz) < 1024" unfolding eq using a by auto
  show "unat sz \<le> unat (num_pools_for sz) * HUGE_PAGE_SIZE"
    unfolding eq sz(1) using sz(2) by simp
qed

lemma alloc_ok_large:
  assumes "pool_inv d' (insert (Large k m) L)" "Large k m \<notin> L" "layout_ok d0" "k < n_pools d0"
    and "base (drv d0) = base (drv d)" "base (drv d') = base (drv d)"
    and "pim_mem_size (drv d') = pim_mem_size (drv d)" "unat sz \<le> m * HUGE_PAGE_SIZE"
  shows "alloc_ok d L sz d' (addr (head_page (pool d0 k) ! 0))"
  unfolding alloc_ok_def
proof (intro conjI exI [of _ "Large k m"])
  have "unat (addr (head_page (pool d0 k) ! 0)) = unat (base (drv d0)) + k * HUGE_PAGE_SIZE"
    using layout_page_addr [OF assms(3,4), of 0] by simp
  then show "unat (addr (head_page (pool d0 k) ! 0)) = blk_addr d' (Large k m)"
    using assms(5,6) by (simp add: blk_addr_def)
qed (use assms in simp_all)

lemma mark_free_run:
  assumes "pool_inv d L" "free_pools d q (q + unat num)" "2 \<le> unat num"
  obtains d' where "mark_large (unat num) 0 num (Some q) d = Inr d'"
    "pool_inv d' (insert (Large q (unat num)) L)" "Large q (unat num) \<notin> L" "drv d' = drv d"
proof -
  note inv = pool_invD [OF assms(1)]
  have le: "q + unat num \<le> n_pools d" and pos: "0 < unat num"
    using assms(2,3) by (auto simp: free_pools_def)
  have nf: "nfree_pages (pool d j) = of_nat NUM_PAGES" if "q \<le> j" "j < q + unat num" for j
    using assms(2) that by (simp add: free_pools_def)
  show thesis
  proof (rule mark_large_state [OF inv(1,2) le pos], goal_cases)
    case (1 d')
    have b: "n_pools d \<le> n_pools d'" "q + unat num \<le> n_pools d'"
      "n_pools d' \<le> max (n_pools d) (q + unat num)" "q \<le> n_pools d"
      using 1(4) le by auto
    have f: "free_pools d q (min (q + unat num) (n_pools d))"
      using nf by (auto simp: free_pools_def)
    have r: "nfree_pages (pool d' j) = 0 \<and> (\<forall>i. \<not> page_used (pool d' j) i) \<and>
        (large_mem_pool (pool d' j) \<longleftrightarrow> Suc j \<noteq> q + unat num)" if j: "q \<le> j" "j < q + unat num" for j
    proof -
      have "j < n_pools d" using j le by simp
      with free_pool_empty(3) [OF assms(1) this nf [OF j]] show ?thesis
        by (simp add: 1(6) [OF j])
    qed
    have k: "\<exists>x. pool d' j = (pool d j)\<lparr>next_pool := x\<rparr>" if "j < n_pools d" "j < q \<or> q + unat num \<le> j" for j
      using 1(7) [OF that] by (intro exI [of _ "next_pool (pool d j)"]) simp
    note add = large_add_inv [OF assms(1) 1(2,3) b(1) assms(3) b(2-4) f r k]
    show ?thesis by (rule that [OF 1(1) add 1(5)])
  qed
qed

lemma large_found_spec:
  assumes "pool_inv d L" "free_pools d k (k + unat num)" "2 \<le> unat num"
    "unat sz \<le> unat num * HUGE_PAGE_SIZE"
  shows "\<exists>d' a. large_found d num (Some k) = Inr (d', a) \<and> alloc_ok d L sz d' a"
proof -
  have k: "k < n_pools d" using assms(2,3) by (simp add: free_pools_def)
  have f: "free_pools (d\<lparr>curr_mem_pool := Some k\<rparr>) k (k + unat num)" using assms(2) by (simp add: free_pools_def)
  show ?thesis
    by (rule mark_free_run [OF pool_inv_curr [OF k assms(1)] f assms(3)])
      (use k assms(4) pool_invD(2) [OF assms(1)] in \<open>auto simp: large_found_def intro!: alloc_ok_large\<close>)
qed

lemma large_extend_one_spec:
  assumes "pool_inv d L" "tail_run d num 1 (Some q)" "2 \<le> unat num"
    "unat sz \<le> unat num * HUGE_PAGE_SIZE"
  shows "case large_extend_one d num q of Inl e \<Rightarrow> \<not> room d 1 \<and> e \<noteq> OutOfFuel
    | Inr (d', a) \<Rightarrow> alloc_ok d L sz d' a"
proof -
  note inv = pool_invD [OF assms(1)]
  have q: "q < n_pools d" "free_pools d q (n_pools d)" "Suc (n_pools d) = q + unat num"
    using assms(2) by (auto simp: tail_run_def)
  have tail: "tail_mem_pool d = Some (n_pools d - 1)" using inv(1) by (simp add: links_ok_def)
  show ?thesis
  proof (rule multi_mem_pool_allocation_cases [OF inv(2,1)], goal_cases)
    case (1 e)
    then show ?thesis by (auto simp: large_extend_one_def Let_def)
  next
    case (2 d1)
    then show ?thesis by (simp add: large_extend_one_def Let_def tail)
  next
    case (3 va w)
    let ?d4 = "(one_more va w d)\<lparr>curr_mem_pool := Some q\<rparr>"
    have np: "n_pools (one_more va w d) = Suc (n_pools d)" by (simp add: one_more_def)
    have inv4: "pool_inv ?d4 L"
      using one_more_inv [OF assms(1) 3(1)] q(1) np by (intro pool_inv_curr) simp_all
    have "free_pools (one_more va w d) q (q + unat num)"
      using q by (auto simp: free_pools_def one_more_pool [OF inv(1)] np)
    then have f: "free_pools ?d4 q (q + unat num)" by (simp add: free_pools_def)
    have ne: "pool_heap d \<noteq> []" using q(1) by auto
    have st: "upd_pool (n_pools d) (\<lambda>p. p\<lparr>prev_pool := Some (n_pools d - 1)\<rparr>)
        (upd_pool (n_pools d - 1) (\<lambda>p. p\<lparr>next_pool := Some (n_pools d)\<rparr>)
          (d\<lparr>pool_heap := pool_heap d @ [new_pool va (of_nat NUM_PAGES) False None],
            host_mem := host_mem d - 1 - 1, drv := w, ntotal_mem_pools := ntotal_mem_pools d + 1,
            tail_mem_pool := Some (n_pools d), curr_mem_pool := Some q\<rparr>)) = ?d4"
      using ne by (intro pim_mem.equality)
        (simp_all add: one_more_def grow_def upd_pool_def new_pool_def nth_append list_update_append Let_def)
    have link: "large_extend_one d num q = (case mark_large (unat num) 0 num (Some q) ?d4 of
        Inl e \<Rightarrow> Inl e | Inr d5 \<Rightarrow> Inr (d5, addr (head_page (pool d q) ! 0)))"
      unfolding large_extend_one_def Let_def tail 3(2) st [symmetric] by simp
    have dr: "base (drv ?d4) = base (drv d)" "pim_mem_size (drv ?d4) = pim_mem_size (drv d)"
      using multi_mmap_drv_Some(3,4) [OF 3(1)] inv(2) by (simp_all add: one_more_def layout_ok_def)
    show ?thesis
    proof (rule mark_free_run [OF inv4 f assms(3)], goal_cases)
      case (1 d5)
      have "alloc_ok d L sz d5 (addr (head_page (pool d q) ! 0))"
        by (rule alloc_ok_large [OF 1(2,3) inv(2) q(1)]) (use 1(4) dr assms(4) in simp_all)
      with 1(1) link show ?thesis by simp
    qed
  qed
qed

lemma large_grown_addD:
  assumes "pool_inv d L" "large_grown d m d1"
  shows "links_ok d1" "layout_ok d1" "n_pools d1 = n_pools d + m"
    "base (drv d1) = base (drv d)" "pim_mem_size (drv d1) = pim_mem_size (drv d)"
    "j < n_pools d \<Longrightarrow> \<exists>x. pool d1 j = (pool d j)\<lparr>next_pool := x\<rparr>"
    "n_pools d \<le> j \<Longrightarrow> j < n_pools d + m \<Longrightarrow> fresh_large (pool d1 j)
       \<and> (large_mem_pool (pool d1 j) \<longleftrightarrow> Suc j \<noteq> n_pools d + m)"
  using assms(2) by (auto simp: large_grown_def)

lemma links_layout_curr:
  "links_ok d \<Longrightarrow> k < n_pools d \<Longrightarrow> links_ok (d\<lparr>curr_mem_pool := Some k\<rparr>)"
  "layout_ok (d\<lparr>curr_mem_pool := x\<rparr>) = layout_ok d"
  by (auto simp: links_ok_def layout_ok_def tiles_ok_def)

lemma large_fresh_spec:
  assumes "pool_inv d L" "2 \<le> unat num" "unat num < 1024" "unat sz \<le> unat num * HUGE_PAGE_SIZE"
  shows "case large_fresh d num of Inl e \<Rightarrow> \<not> room d (unat num) \<and> e \<noteq> OutOfFuel
    | Inr (d', a) \<Rightarrow> alloc_ok d L sz d' a"
proof -
  note inv = pool_invD [OF assms(1)]
  have pos: "0 < unat num" using assms(2) by simp
  note sp = multi_large_spec [OF inv(1,2) pos assms(3)]
  show ?thesis
  proof (cases "multi_large_mem_pool_allocation d num")
    case (Inl e)
    with sp show ?thesis by (simp add: large_fresh_def)
  next
    case (Inr r)
    with sp obtain d1 where r: "r = (d1, n_pools d)" and g: "large_grown d (unat num) d1"
      by (cases r) auto
    note g' = large_grown_addD [OF assms(1) g]
    let ?d = "d1\<lparr>curr_mem_pool := Some (n_pools d)\<rparr>" and ?n = "n_pools d"
    have links: "links_ok ?d" using g'(1,3) pos by (intro links_layout_curr) simp_all
    have layout: "layout_ok ?d" using g'(2) by (simp add: links_layout_curr)
    have b: "?n \<le> n_pools ?d" "?n + unat num \<le> n_pools ?d" "n_pools ?d \<le> max ?n (?n + unat num)" "?n \<le> ?n"
      using g'(3) by auto
    have f: "free_pools d ?n (min (?n + unat num) ?n)" by (simp add: free_pools_def)
    have run: "nfree_pages (pool ?d j) = 0 \<and> (\<forall>i. \<not> page_used (pool ?d j) i) \<and>
        (large_mem_pool (pool ?d j) \<longleftrightarrow> Suc j \<noteq> ?n + unat num)" if "?n \<le> j" "j < ?n + unat num" for j
      using g'(7) [OF that] by (simp add: fresh_large_def)
    have keep: "\<exists>x. pool ?d j = (pool d j)\<lparr>next_pool := x\<rparr>" if "j < ?n" "j < ?n \<or> ?n + unat num \<le> j" for j
      using g'(6) [OF that(1)] by simp
    note add = large_add_inv [OF assms(1) links layout b(1) assms(2) b(2-4) f run keep]
    have "alloc_ok d L sz ?d (addr (head_page (pool d1 ?n) ! 0))"
      by (rule alloc_ok_large [OF add g'(2)]) (use g'(3-5) pos assms(4) in simp_all)
    with Inr r show ?thesis by (simp add: large_fresh_def)
  qed
qed

lemma large_extend_many_spec:
  assumes "pool_inv d L" "tail_run d num need (Some q)" "2 \<le> unat num" "unat num < 1024"
    "unat sz \<le> unat num * HUGE_PAGE_SIZE"
  shows "case large_extend_many d num need q of Inl e \<Rightarrow> \<not> room d (unat num) \<and> e \<noteq> OutOfFuel
    | Inr (d', a) \<Rightarrow> alloc_ok d L sz d' a"
proof -
  note inv = pool_invD [OF assms(1)]
  let ?n = "n_pools d" and ?m = "unat num"
  have q: "q < ?n" "free_pools d q ?n" "1 \<le> unat need" "unat need + (?n - q) = ?m"
    using assms(2) by (auto simp: tail_run_def)
  have need: "0 < unat need" "unat need < 1024" using q(3,4) assms(4) by linarith+
  have tail: "tail_mem_pool d = Some (?n - 1)" using inv(1) by (simp add: links_ok_def)
  note sp = multi_large_spec [OF inv(1,2) need]
  show ?thesis
  proof (cases "multi_large_mem_pool_allocation d need")
    case (Inl e)
    have "\<not> room d ?m" using sp Inl q(4) by (auto simp: room_def)
    with Inl sp show ?thesis by (simp add: large_extend_many_def)
  next
    case (Inr r)
    with sp obtain d1 where r: "r = (d1, ?n)" and g: "large_grown d (unat need) d1"
      by (cases r) auto
    note g' = large_grown_addD [OF assms(1) g]
    let ?d4 = "d1\<lparr>curr_mem_pool := Some q\<rparr>"
    have n1: "n_pools d1 = q + ?m" using g'(3) q by simp
    have nt: "next_pool (pool d1 (?n - 1)) = Some ?n" and pn: "prev_pool (pool d1 ?n) = Some (?n - 1)"
      using links_next [OF g'(1), of "?n - 1"] links_prev [OF g'(1), of ?n] q(1) need(1) g'(3) by auto
    have st: "upd_pool ?n (\<lambda>p. p\<lparr>prev_pool := Some (?n - 1)\<rparr>)
        (upd_pool (?n - 1) (\<lambda>p. p\<lparr>next_pool := Some ?n\<rparr>) ?d4) = ?d4"
    proof -
      have "(pool d1 (?n - 1))\<lparr>next_pool := Some ?n\<rparr> = pool d1 (?n - 1)"
        "(pool d1 ?n)\<lparr>prev_pool := Some (?n - 1)\<rparr> = pool d1 ?n" using nt pn by simp_all
      then show ?thesis by (simp add: upd_pool_def)
    qed
    have link: "large_extend_many d num need q = (case mark_large ?m 0 num (Some q) ?d4 of
        Inl e \<Rightarrow> Inl e | Inr d5 \<Rightarrow> Inr (d5, addr (head_page (pool d q) ! 0)))"
      unfolding large_extend_many_def Let_def tail Inr r sum.case prod.case option.case st ..
    have links: "links_ok ?d4" using g'(1) n1 assms(3) by (intro links_layout_curr) simp_all
    have layout: "layout_ok ?d4" using g'(2) by (simp add: links_layout_curr)
    have le: "q + ?m \<le> n_pools ?d4" and pos: "0 < ?m" using n1 assms(3) by simp_all
    show ?thesis
    proof (rule mark_large_state [OF links layout le pos], goal_cases)
      case (1 d5)
      have b: "?n \<le> n_pools d5" "q + ?m \<le> n_pools d5" "n_pools d5 \<le> max ?n (q + ?m)" "q \<le> ?n"
        using 1(4) n1 q by auto
      have f: "free_pools d q (min (q + ?m) ?n)" using q(2) by (auto simp: free_pools_def)
      have run: "nfree_pages (pool d5 j) = 0 \<and> (\<forall>i. \<not> page_used (pool d5 j) i) \<and>
          (large_mem_pool (pool d5 j) \<longleftrightarrow> Suc j \<noteq> q + ?m)" if j: "q \<le> j" "j < q + ?m" for j
      proof -
        have "\<not> page_used (pool d1 j) i" for i
        proof (cases "j < ?n")
          case True
          then have "nfree_pages (pool d j) = of_nat NUM_PAGES" using q(2) j by (simp add: free_pools_def)
          from free_pool_empty(3) [OF assms(1) True this] g'(6) [OF True] show ?thesis by auto
        next
          case False
          with g'(7) [of j] j n1 g'(3) show ?thesis by (simp add: fresh_large_def)
        qed
        then show ?thesis by (simp add: 1(6) [OF j])
      qed
      have keep: "\<exists>x. pool d5 j = (pool d j)\<lparr>next_pool := x\<rparr>" if "j < ?n" "j < q \<or> q + ?m \<le> j" for j
        using 1(7) [of j] that g'(3) g'(6) [of j] by simp
      note add = large_add_inv [OF assms(1) 1(2,3) b(1) assms(3) b(2-4) f run keep]
      have "alloc_ok d L sz d5 (addr (head_page (pool d q) ! 0))"
        by (rule alloc_ok_large [OF add inv(2) q(1)]) (use 1(5) g'(4,5) assms(5) in simp_all)
      with 1(1) link show ?case by simp
    qed
  qed
qed

section \<open>The call\<close>

text \<open>How many pools a request may have to add.\<close>

definition pools_needed :: "u64 \<Rightarrow> nat" where
  "pools_needed sz = (if sz > of_nat HUGE_PAGE_SIZE then unat (num_pools_for sz) else 1)"

lemma room_mono: "m \<le> m' \<Longrightarrow> room d m' \<Longrightarrow> room d m"
  by (simp add: room_def)

lemma malloc_large_spec:
  assumes "pool_inv d L" "sz > of_nat HUGE_PAGE_SIZE" "unat sz \<le> 1023 * HUGE_PAGE_SIZE"
  shows "case malloc_large d sz of Inl e \<Rightarrow> \<not> room d (unat (num_pools_for sz)) \<and> e \<noteq> OutOfFuel
    | Inr (d', a) \<Rightarrow> alloc_ok d L sz d' a"
proof -
  note inv = pool_invD [OF assms(1)]
  let ?num = "num_pools_for sz"
  note b = num_pools_bounds [OF assms(2,3)]
  have fresh: "case large_fresh d ?num of Inl e \<Rightarrow> \<not> room d (unat ?num) \<and> e \<noteq> OutOfFuel
    | Inr (d', a) \<Rightarrow> alloc_ok d L sz d' a" by (rule large_fresh_spec [OF assms(1) b])
  show ?thesis
  proof (rule search_back_start [OF inv(1,2) b(1)], goal_cases)
    case (1 p need mp)
    then obtain k where p: "p = Some k" "free_pools d k (k + unat ?num)" by blast
    from large_found_spec [OF assms(1) p(2) b(1,3)] 1(1) p(1) show ?case
      by (auto simp: malloc_large_def Let_def)
  next
    case (2 p need mp)
    show ?case
    proof (cases mp)
      case None
      with 2 fresh show ?thesis by (simp add: malloc_large_def Let_def)
    next
      case (Some q)
      with 2(2) have tr: "tail_run d ?num need (Some q)" by simp
      show ?thesis
      proof (cases "need = 1")
        case True
        with large_extend_one_spec [OF assms(1) _ b(1,3), of q] tr
        have "case large_extend_one d ?num q of Inl e \<Rightarrow> \<not> room d 1 \<and> e \<noteq> OutOfFuel
          | Inr (d', a) \<Rightarrow> alloc_ok d L sz d' a" by simp
        with True Some 2(1) b(1) show ?thesis
          by (auto simp: malloc_large_def Let_def split: sum.splits dest: room_mono [of 1, rotated])
      next
        case False
        have "need > 1" using False tr
          by (auto simp: tail_run_def word_less_nat_alt word_unat_eq_iff)
        with large_extend_many_spec [OF assms(1) tr b(1,2,3)] fresh False Some 2(1) show ?thesis
          by (auto simp: malloc_large_def Let_def)
      qed
    qed
  qed
qed

lemma malloc_dev_spec:
  assumes "pool_inv d L" "unat sz \<le> 1023 * HUGE_PAGE_SIZE"
  shows "case malloc_dev d sz of Inl e \<Rightarrow> \<not> room d (pools_needed sz) \<and> e \<noteq> OutOfFuel
    | Inr (d', a) \<Rightarrow> alloc_ok d L sz d' a"
proof (cases "sz > of_nat HUGE_PAGE_SIZE")
  case True
  with malloc_large_spec [OF assms(1) True assms(2)] show ?thesis
    unfolding malloc_dev_def pools_needed_def by (simp only: True if_True)
next
  case False
  then have "sz \<le> of_nat HUGE_PAGE_SIZE" by simp
  from malloc_pages_spec [OF assms(1) nalloc_pages_bounds [OF this]] show ?thesis
    unfolding malloc_dev_def pools_needed_def by (simp only: False if_False)
qed

section \<open>Freeing a live block\<close>

lemma remove_small:
  assumes "blocks_ok d L" "Small k i n \<in> L"
  shows "in_large (L - {Small k i n}) = in_large L" "last_large (L - {Small k i n}) = last_large L"
    "in_small (L - {Small k i n}) k' j \<longleftrightarrow> in_small L k' j \<and> \<not> (k' = k \<and> i \<le> j \<and> j < i + n)"
proof -
  show "in_large (L - {Small k i n}) = in_large L" "last_large (L - {Small k i n}) = last_large L"
    by (auto simp: in_large_def last_large_def fun_eq_iff)
  have "b = Small k i n" if "b \<in> L" "(k, j) \<in> blk_pages b" "i \<le> j" "j < i + n" for b
  proof (rule ccontr)
    assume "b \<noteq> Small k i n"
    then have "blk_pages (Small k i n) \<inter> blk_pages b = {}"
      using blocks_okD(2) [OF assms that(1)] by auto
    moreover have "(k, j) \<in> blk_pages (Small k i n) \<inter> blk_pages b" using that by simp
    ultimately show False by blast
  qed
  then have "i0 = i \<and> n0 = n" if "Small k i0 n0 \<in> L" "i0 \<le> j" "j < i0 + n0" "i \<le> j" "j < i + n" for i0 n0
    using that by fastforce
  then show "in_small (L - {Small k i n}) k' j \<longleftrightarrow> in_small L k' j \<and> \<not> (k' = k \<and> i \<le> j \<and> j < i + n)"
    using assms(2) by (auto simp: in_small_def)
qed

lemma remove_large:
  assumes "blocks_ok d L" "Large k m \<in> L"
  shows "in_small (L - {Large k m}) = in_small L"
    "in_large (L - {Large k m}) j \<longleftrightarrow> in_large L j \<and> \<not> (k \<le> j \<and> j < k + m)"
    "\<not> (k \<le> j \<and> j < k + m) \<Longrightarrow> last_large (L - {Large k m}) j = last_large L j"
    "k \<le> j \<Longrightarrow> j < k + m \<Longrightarrow> last_large L j \<longleftrightarrow> Suc j = k + m"
proof -
  show "in_small (L - {Large k m}) = in_small L" by (auto simp: in_small_def fun_eq_iff)
  have m: "2 \<le> m" using blocks_okD(1) [OF assms] by simp
  have uniq: "k0 = k \<and> m0 = m" if "Large k0 m0 \<in> L" "k0 \<le> j" "j < k0 + m0" "k \<le> j" "j < k + m" for k0 m0 j
  proof (rule ccontr)
    assume "\<not> ?thesis"
    then have "blk_pages (Large k m) \<inter> blk_pages (Large k0 m0) = {}"
      using blocks_okD(2) [OF assms that(1)] by auto
    moreover have "(j, 0) \<in> blk_pages (Large k m) \<inter> blk_pages (Large k0 m0)" using that by simp
    ultimately show False by blast
  qed
  show "in_large (L - {Large k m}) j \<longleftrightarrow> in_large L j \<and> \<not> (k \<le> j \<and> j < k + m)"
    using uniq assms(2) by (fastforce simp: in_large_def)
  show "last_large (L - {Large k m}) j = last_large L j" if "\<not> (k \<le> j \<and> j < k + m)"
  proof -
    have "Large k0 m0 \<in> L \<and> Suc j = k0 + m0 \<longleftrightarrow> Large k0 m0 \<in> L - {Large k m} \<and> Suc j = k0 + m0"
      for k0 m0 using that m by auto
    then show ?thesis unfolding last_large_def by blast
  qed
  show "last_large L j \<longleftrightarrow> Suc j = k + m" if "k \<le> j" "j < k + m"
  proof
    assume "last_large L j"
    then obtain k0 m0 where l: "Large k0 m0 \<in> L" "Suc j = k0 + m0" by (auto simp: last_large_def)
    with blocks_okD(1) [OF assms(1) l(1)] have "k0 \<le> j" "j < k0 + m0" by auto
    from uniq [OF l(1) this that] l(2) show "Suc j = k + m" by simp
  next
    assume "Suc j = k + m"
    with assms(2) show "last_large L j" by (auto simp: last_large_def)
  qed
qed

lemma blocks_ok_remove:
  assumes "blocks_ok d L" "\<And>b'. b' \<in> L - {b} \<Longrightarrow> blk_ok d' b'"
  shows "blocks_ok d' (L - {b})"
  using assms unfolding blocks_ok_def by auto

lemma find_addr_blk:
  assumes "links_ok d" "layout_ok d" "blk_ok d b" "unat a = blk_addr d b"
  shows "find_addr (Suc (n_pools d)) d a (head_mem_pool d)
    = Some (Some (case b of Small k i n \<Rightarrow> k | Large k m \<Rightarrow> k))"
proof -
  have h: "head_mem_pool d = Some 0" using assms(1) by (simp add: links_ok_def)
  show ?thesis
  proof (cases b)
    case (Small k i n)
    with assms(3,4) show ?thesis unfolding h
      by (simp only: block.case)
        (rule find_addr_spec [OF assms(1,2), where off = "i * PAGE_SIZE"], auto simp: blk_addr_def)
  next
    case (Large k m)
    with assms(3,4) show ?thesis unfolding h
      by (simp only: block.case)
        (rule find_addr_spec [OF assms(1,2), where off = 0], auto simp: blk_addr_def)
  qed
qed

lemma free_small_spec:
  assumes "pool_inv d L" "Small k i n \<in> L" "unat a = blk_addr d (Small k i n)"
  shows "\<exists>d'. free_dev d a = Inr d' \<and> pool_inv d' (L - {Small k i n}) \<and> drv d' = drv d"
proof -
  let ?b = "Small k i n" and ?p = "pool d k"
  note inv = pool_invD [OF assms(1)]
  note rm = remove_small [OF inv(3) assms(2)]
  from blocks_okD(1) [OF inv(3) assms(2)] have b: "k < n_pools d" "0 < n" "i + n \<le> NUM_PAGES"
    "alloc_size (head_page ?p ! i) = Some (of_nat n)" by auto
  have sm: "in_small L k j" if "i \<le> j" "j < i + n" for j using assms(2) that by (auto simp: in_small_def)
  have nl: "\<not> in_large L k" using in_small_large [OF inv(3) sm [of i]] b(2) by simp
  have ok: "pool_ok L k ?p" by (rule inv(4) [OF b(1)])
  with nl have nolg: "\<not> large_mem_pool ?p" and used: "\<And>j. page_used ?p j \<longleftrightarrow> in_small L k j"
    and nf: "unat (nfree_pages ?p) = n_free ?p" by (simp_all add: pool_ok_def)
  have bits: "bits_ok ?p" by (rule layout_bits [OF inv(2) b(1)])
  have "unat (a - start_va ?p) = unat a - unat (start_va ?p)"
    by (rule unat_sub) (use assms(3) layout_start [OF inv(2) b(1)] in \<open>simp add: word_le_nat_alt blk_addr_def\<close>)
  also have "\<dots> = i * PAGE_SIZE" using assms(3) layout_start [OF inv(2) b(1)] by (simp add: blk_addr_def)
  finally have off: "unat (a - start_va ?p) = i * PAGE_SIZE" .
  have "unat (drop_bit PAGE_SHIFT (a - start_va ?p)) = unat (a - start_va ?p) div 2 ^ PAGE_SHIFT"
    by (simp add: drop_bit_eq_div unat_div)
  then have idx: "unat (drop_bit PAGE_SHIFT (a - start_va ?p)) = i" unfolding off by simp
  have n32: "unat (of_nat n :: u32) = n" using b(3) by (intro unat_of_nat_u32) simp
  then have n0: "(of_nat n :: u32) \<noteq> 0" using b(2) by auto
  let ?d = "upd_pool k (\<lambda>p. clr_bit_vector p i n) d"
  have "find_addr (Suc (n_pools d)) d a (head_mem_pool d) = Some (Some k)"
    using find_addr_blk [OF inv(1,2) blocks_okD(1) [OF inv(3) assms(2)] assms(3)] by simp
  then have res: "free_dev d a = Inr ?d"
    using nolg b(4) n0 by (simp add: free_dev_def free_page_def Let_def idx n32)
  have usedrun: "page_used ?p j" if "i \<le> j" "j < i + n" for j using used sm [OF that] by simp
  have same: "same_list d ?d"
    by (rule same_list_upd) (use b(3) in \<open>auto simp: same_shape_def clr_ok\<close>)
  have links: "links_ok ?d" by (rule upd_pool_links [OF same inv(1)])
  have pl: "pool ?d j = (if j = k then clr_bit_vector ?p i n else pool d j)" if "j < n_pools d" for j
    using that by simp
  have blocks: "blocks_ok ?d (L - {?b})"
  proof (rule blocks_ok_remove [OF inv(3)])
    fix b' assume b': "b' \<in> L - {?b}"
    then have "blk_ok d b'" using blocks_okD(1) [OF inv(3)] by blast
    then show "blk_ok ?d b'" by (rule blk_ok_mono) (use \<open>blk_ok d b'\<close> in \<open>auto simp: pl\<close>)
  qed
  have frees: "n_free (clr_bit_vector ?p i n) = n_free ?p + n"
    by (rule clr_n_free [OF bits b(3) usedrun])
  have "n_free (clr_bit_vector ?p i n) \<le> NUM_PAGES" by (rule n_free_le [OF clr_ok [OF bits b(3)]])
  then have cnt: "unat (nfree_pages ?p + of_nat n) = n_free ?p + n"
    using frees nf n32 by (simp add: unat_word_ariths)
  have "pool_ok (L - {?b}) j (pool ?d j)" if j: "j < n_pools ?d" for j
  proof (cases "j = k")
    case True
    then show ?thesis
      using nl nolg frees cnt b(1) by (auto simp: pool_ok_def rm clr_page_used [OF bits b(3)] used)
  next
    case False
    with inv(4) [of j] j show ?thesis by (auto simp: pool_ok_def rm)
  qed
  with links same_list_layout [OF same inv(2)] blocks have "pool_inv ?d (L - {?b})"
    by (simp add: pool_inv_def)
  with res show ?thesis by auto
qed

lemma free_large_block_spec:
  assumes "pool_inv d L" "Large k m \<in> L" "unat a = blk_addr d (Large k m)"
  shows "\<exists>d'. free_dev d a = Inr d' \<and> pool_inv d' (L - {Large k m}) \<and> drv d' = drv d"
proof -
  let ?b = "Large k m"
  note inv = pool_invD [OF assms(1)]
  note rm = remove_large [OF inv(3) assms(2)]
  from blocks_okD(1) [OF inv(3) assms(2)] have b: "2 \<le> m" "k + m \<le> n_pools d" by auto
  have inl: "in_large L j" if "k \<le> j" "j < k + m" for j using assms(2) that by (auto simp: in_large_def)
  have lg: "large_mem_pool (pool d j) \<longleftrightarrow> Suc j \<noteq> k + m" if j: "k \<le> j" "j < k + m" for j
    using inv(4) [of j] inl [OF j] rm(4) [OF j] j b(2) by (simp add: pool_ok_def)
  have nu: "\<not> page_used (pool d j) i" if j: "k \<le> j" "j < k + m" for j i
    using inv(4) [of j] inl [OF j] j b(2) by (simp add: pool_ok_def)
  have fa: "find_addr (Suc (n_pools d)) d a (head_mem_pool d) = Some (Some k)"
    using find_addr_blk [OF inv(1,2) blocks_okD(1) [OF inv(3) assms(2)] assms(3)] by simp
  have fuel: "0 < m" "m < Suc (n_pools d)" using b by simp_all
  from free_large_spec [OF inv(1) b(2) fuel lg] obtain d' where d':
    "free_large (Suc (n_pools d)) (Some k) d = Some d'" "d' = d\<lparr>pool_heap := pool_heap d'\<rparr>"
    "n_pools d' = n_pools d" "\<forall>j < n_pools d. pool d' j = (if k \<le> j \<and> j < k + m
        then (pool d j)\<lparr>large_mem_pool := False, nfree_pages := of_nat NUM_PAGES\<rparr> else pool d j)"
    by blast
  have res: "free_dev d a = Inr d'"
    using fa d'(1) lg [of k] b(1) by (simp add: free_dev_def)
  have proj: "drv d' = drv d" "head_mem_pool d' = head_mem_pool d" "tail_mem_pool d' = tail_mem_pool d"
    "curr_mem_pool d' = curr_mem_pool d"
    by (subst d'(2), simp)+
  have same: "same_list d d'" using d'(3,4) proj by (auto simp: same_list_def same_shape_def)
  have links: "links_ok d'" by (rule same_list_links [OF same inv(1)]) (simp add: proj links_curr [OF inv(1)])
  have blocks: "blocks_ok d' (L - {?b})"
  proof (rule blocks_ok_remove [OF inv(3)])
    fix b' assume b': "b' \<in> L - {?b}"
    then have ok: "blk_ok d b'" using blocks_okD(1) [OF inv(3)] by blast
    show "blk_ok d' b'" by (rule blk_ok_mono [OF ok]) (use ok d'(3,4) in auto)
  qed
  have "pool_ok (L - {?b}) j (pool d' j)" if j: "j < n_pools d'" for j
  proof (cases "k \<le> j \<and> j < k + m")
    case True
    then have il: "in_large L j" using inl by blast
    have js: "\<not> in_small L j x" for x using in_small_large [OF inv(3)] il by blast
    have bits: "bits_ok (pool d j)" using layout_bits [OF inv(2)] j d'(3) by simp
    have "n_free (pool d j) = NUM_PAGES" using n_free_all_iff [OF bits] nu True by blast
    then show ?thesis using True d'(3,4) j js nu by (simp add: pool_ok_def rm(1,2))
  next
    case False
    have "pool_ok L j (pool d' j)" using inv(4) [of j] j d'(3,4) False by auto
    moreover have "in_large (L - {?b}) j = in_large L j" using rm(2) [of j] False by blast
    ultimately show ?thesis using rm(3) [OF False] by (simp add: pool_ok_def rm(1))
  qed
  with links same_list_layout [OF same inv(2)] blocks have "pool_inv d' (L - {?b})"
    by (simp add: pool_inv_def)
  with res proj show ?thesis by auto
qed

lemma free_dev_spec:
  assumes "pool_inv d L" "b \<in> L" "unat a = blk_addr d b"
  shows "\<exists>d'. free_dev d a = Inr d' \<and> pool_inv d' (L - {b}) \<and> drv d' = drv d"
  using assms free_small_spec free_large_block_spec by (cases b) blast+

end
