(* ===== verification/Region_Client.thy ===== *)
theory Region_Client
  imports Pim_Prelude
begin

text \<open>
  The contract between the PIM library's memory allocator and the programs that use it: a
  client owns a list of regions, each an address and the size it asked for, grows it with
  an allocation and shrinks it by freeing any one of them. The laws of \<open>region_alloc\<close> are what
  the allocator has to provide; the lemmas of the locale are what every client may rely on.
\<close>

inductive client ::
  "('s \<Rightarrow> u64 \<Rightarrow> 'e + 's \<times> u64) \<Rightarrow> ('s \<Rightarrow> u64 \<Rightarrow> 'e + 's) \<Rightarrow> (u64 \<Rightarrow> bool) \<Rightarrow> ('s \<Rightarrow> bool) \<Rightarrow>
     's \<Rightarrow> (u64 \<times> u64) list \<Rightarrow> bool"
  for al :: "'s \<Rightarrow> u64 \<Rightarrow> 'e + 's \<times> u64" and fr :: "'s \<Rightarrow> u64 \<Rightarrow> 'e + 's"
  and fits :: "u64 \<Rightarrow> bool" and start :: "'s \<Rightarrow> bool" where
  client_start: "start s \<Longrightarrow> client al fr fits start s []"
| client_alloc: "client al fr fits start s A \<Longrightarrow> fits sz \<Longrightarrow> al s sz = Inr (s', a) \<Longrightarrow>
    client al fr fits start s' (A @ [(a, sz)])"
| client_free: "client al fr fits start s A \<Longrightarrow> i < length A \<Longrightarrow> fr s (fst (A ! i)) = Inr s' \<Longrightarrow>
    client al fr fits start s' (take i A @ drop (Suc i) A)"

inductive_cases client_nilE: "client al fr fits start s []"

lemma set_take_drop_nth:
  assumes "distinct Bs" "i < length Bs"
  shows "set (take i Bs @ drop (Suc i) Bs) = set Bs - {Bs ! i}" "distinct (take i Bs @ drop (Suc i) Bs)"
proof -
  have "Bs = take i Bs @ Bs ! i # drop (Suc i) Bs" using assms(2) by (rule id_take_nth_drop)
  then have "distinct (take i Bs @ Bs ! i # drop (Suc i) Bs)"
    "set Bs = set (take i Bs @ Bs ! i # drop (Suc i) Bs)" using assms(1) by simp_all
  then show "set (take i Bs @ drop (Suc i) Bs) = set Bs - {Bs ! i}"
    "distinct (take i Bs @ drop (Suc i) Bs)" by auto
qed

locale region_alloc =
  fixes al :: "'s \<Rightarrow> u64 \<Rightarrow> 'e + 's \<times> u64"
    and fr :: "'s \<Rightarrow> u64 \<Rightarrow> 'e + 's"
    and fits :: "u64 \<Rightarrow> bool"
    and start :: "'s \<Rightarrow> bool"
    and live :: "'s \<Rightarrow> 'b set \<Rightarrow> bool"
    and first :: "'s \<Rightarrow> 'b \<Rightarrow> nat"
    and bytes :: "'b \<Rightarrow> nat"
    and window :: "'s \<Rightarrow> nat \<times> nat"
    and enough :: "'s \<Rightarrow> u64 \<Rightarrow> bool"
  assumes start_live: "start s \<Longrightarrow> live s {}"
    and alloc_live: "live s L \<Longrightarrow> fits sz \<Longrightarrow> al s sz = Inr (s', a) \<Longrightarrow>
      \<exists>b. b \<notin> L \<and> live s' (insert b L) \<and> unat a = first s' b \<and> unat sz \<le> bytes b \<and> first s' = first s"
    and alloc_enough: "live s L \<Longrightarrow> fits sz \<Longrightarrow> enough s sz \<Longrightarrow> \<exists>s' a. al s sz = Inr (s', a)"
    and free_live: "live s L \<Longrightarrow> b \<in> L \<Longrightarrow> unat a = first s b \<Longrightarrow>
      \<exists>s'. fr s a = Inr s' \<and> live s' (L - {b}) \<and> first s' = first s"
    and live_disjoint: "live s L \<Longrightarrow> b \<in> L \<Longrightarrow> b' \<in> L \<Longrightarrow> b \<noteq> b' \<Longrightarrow>
      first s b + bytes b \<le> first s b' \<or> first s b' + bytes b' \<le> first s b"
    and live_window: "live s L \<Longrightarrow> b \<in> L \<Longrightarrow>
      fst (window s) \<le> first s b \<and> first s b + bytes b \<le> snd (window s)"
begin

definition owned :: "'s \<Rightarrow> (u64 \<times> u64) list \<Rightarrow> 'b list \<Rightarrow> bool" where
  "owned s A Bs \<longleftrightarrow> distinct Bs \<and> live s (set Bs) \<and> length Bs = length A
     \<and> (\<forall>i < length A. unat (fst (A ! i)) = first s (Bs ! i) \<and> unat (snd (A ! i)) \<le> bytes (Bs ! i))"

lemma owned_free:
  assumes "owned s A Bs" "i < length A" "fr s (fst (A ! i)) = Inr s'"
  shows "owned s' (take i A @ drop (Suc i) A) (take i Bs @ drop (Suc i) Bs)"
proof -
  from assms(1) have o: "distinct Bs" "live s (set Bs)" "length Bs = length A"
    "\<And>j. j < length A \<Longrightarrow> unat (fst (A ! j)) = first s (Bs ! j) \<and> unat (snd (A ! j)) \<le> bytes (Bs ! j)"
    by (auto simp: owned_def)
  have "Bs ! i \<in> set Bs" using assms(2) o(3) by simp
  from free_live [OF o(2) this, of "fst (A ! i)"] o(4) [OF assms(2)] assms(3)
  have s': "live s' (set Bs - {Bs ! i})" "first s' = first s" by auto
  have i: "i < length Bs" using assms(2) o(3) by simp
  have nth: "(take i xs @ drop (Suc i) xs) ! j = xs ! (if j < i then j else Suc j)"
    if "i < length xs" "j < length xs - 1" for xs :: "'c list" and j
    using that by (auto simp: nth_append min_def)
  have len: "length (take i A @ drop (Suc i) A) = length A - 1"
    using assms(2) by auto
  show ?thesis
    unfolding owned_def set_take_drop_nth(1) [OF o(1) i] len
  proof (intro conjI allI impI)
    show "distinct (take i Bs @ drop (Suc i) Bs)" by (rule set_take_drop_nth(2) [OF o(1) i])
    show "live s' (set Bs - {Bs ! i})" by (rule s'(1))
    show "length (take i Bs @ drop (Suc i) Bs) = length A - 1" using i o(3) by auto
    fix j assume j: "j < length A - 1"
    then have j': "j < length Bs - 1" and k: "(if j < i then j else Suc j) < length A" using o(3) by auto
    show "unat (fst ((take i A @ drop (Suc i) A) ! j)) = first s' ((take i Bs @ drop (Suc i) Bs) ! j)"
      "unat (snd ((take i A @ drop (Suc i) A) ! j)) \<le> bytes ((take i Bs @ drop (Suc i) Bs) ! j)"
      unfolding nth [OF assms(2) j] nth [OF i j'] s'(2) using o(4) [OF k] by simp_all
  qed
qed

lemma client_owned: "client al fr fits start s A \<Longrightarrow> \<exists>Bs. owned s A Bs"
proof (induction rule: client.induct)
  case (client_start s)
  then show ?case using start_live by (intro exI [of _ "[]"]) (simp add: owned_def)
next
  case (client_alloc s A sz s' a)
  then obtain Bs where o: "owned s A Bs" by blast
  then have "live s (set Bs)" by (simp add: owned_def)
  from alloc_live [OF this client_alloc.hyps(2,3)] obtain b where
    b: "b \<notin> set Bs" "live s' (insert b (set Bs))" "unat a = first s' b" "unat sz \<le> bytes b" "first s' = first s"
    by blast
  with o show ?case
    by (intro exI [of _ "Bs @ [b]"]) (auto simp: owned_def nth_append less_Suc_eq)
next
  case (client_free s A i s')
  then show ?case using owned_free by blast
qed

lemma client_disjoint:
  assumes "client al fr fits start s A" "i < length A" "j < length A" "i \<noteq> j"
  shows "unat (fst (A ! i)) + unat (snd (A ! i)) \<le> unat (fst (A ! j))
    \<or> unat (fst (A ! j)) + unat (snd (A ! j)) \<le> unat (fst (A ! i))"
proof -
  from client_owned [OF assms(1)] obtain Bs where o: "owned s A Bs" by blast
  then have "Bs ! i \<noteq> Bs ! j" using assms(2-4) by (simp add: owned_def nth_eq_iff_index_eq)
  moreover from o assms(2,3) have "Bs ! i \<in> set Bs" "Bs ! j \<in> set Bs" by (simp_all add: owned_def)
  ultimately have "first s (Bs ! i) + bytes (Bs ! i) \<le> first s (Bs ! j)
    \<or> first s (Bs ! j) + bytes (Bs ! j) \<le> first s (Bs ! i)"
    using o live_disjoint [of s "set Bs"] unfolding owned_def by blast
  moreover from o assms(2,3) have "unat (fst (A ! i)) = first s (Bs ! i)" "unat (snd (A ! i)) \<le> bytes (Bs ! i)"
    "unat (fst (A ! j)) = first s (Bs ! j)" "unat (snd (A ! j)) \<le> bytes (Bs ! j)"
    by (simp_all add: owned_def)
  ultimately show ?thesis by linarith
qed

lemma client_window:
  assumes "client al fr fits start s A" "i < length A"
  shows "fst (window s) \<le> unat (fst (A ! i))
    \<and> unat (fst (A ! i)) + unat (snd (A ! i)) \<le> snd (window s)"
proof -
  from client_owned [OF assms(1)] obtain Bs where o: "owned s A Bs" by blast
  then have "live s (set Bs)" "Bs ! i \<in> set Bs" "unat (fst (A ! i)) = first s (Bs ! i)"
    "unat (snd (A ! i)) \<le> bytes (Bs ! i)" using assms(2) by (simp_all add: owned_def)
  with live_window [of s "set Bs" "Bs ! i"] show ?thesis by simp
qed

lemma client_can_free:
  assumes "client al fr fits start s A" "i < length A"
  shows "\<exists>s'. fr s (fst (A ! i)) = Inr s'"
proof -
  from client_owned [OF assms(1)] obtain Bs where o: "owned s A Bs" by blast
  then have "live s (set Bs)" "Bs ! i \<in> set Bs" "unat (fst (A ! i)) = first s (Bs ! i)"
    using assms(2) by (simp_all add: owned_def)
  with free_live show ?thesis by blast
qed

lemma client_can_alloc:
  assumes "client al fr fits start s A" "fits sz" "enough s sz"
  shows "\<exists>s' a. al s sz = Inr (s', a)"
  using client_owned [OF assms(1)] alloc_enough [OF _ assms(2,3)] by (auto simp: owned_def)

lemma client_all_freed:
  assumes "client al fr fits start s []" shows "live s {}"
  using client_owned [OF assms] by (auto simp: owned_def)

end

end
