(* ===== verification/Pool_Client.thy ===== *)
theory Pool_Client
  imports Pool_Inv Region_Client
begin

text \<open>
  \<^verbatim>\<open>pim_malloc\<close> and \<^verbatim>\<open>pim_free\<close> as a client sees them: the contract \<open>region_alloc\<close>
  interpreted on the model of a device, and the properties of the allocator that follow.
\<close>

section \<open>The first pool\<close>

definition device_start :: "pim_mem \<Rightarrow> bool" where
  "device_start d \<longleftrightarrow> (\<exists>node junk hm. init_device node junk hm = Inr d \<and> window_ok node
     \<and> total_size node = 0 \<and> curr_mem_pool d \<noteq> None)"

lemma device_start_inv:
  assumes "device_start d" shows "pool_inv d {}"
proof -
  from assms obtain node junk hm where i: "init_device node junk hm = Inr d" "window_ok node"
    "total_size node = 0" "curr_mem_pool d \<noteq> None" by (auto simp: device_start_def)
  then obtain va w where m: "multi_mmap_drv (of_nat HUGE_PAGE_SIZE) node = Some (va, w)"
    and d: "d = \<lparr>ntotal_mem_pools = junk + 1, curr_mem_pool = Some 0, head_mem_pool = Some 0,
       tail_mem_pool = Some 0, pool_heap = [new_pool va (of_nat NUM_PAGES) False None], drv = w,
       host_mem = hm - 1 - 1\<rparr>"
    by (auto simp: init_device_def multi_mem_pool_allocation_def Let_def split: option.splits if_splits)
  note mm = multi_mmap_drv_Some [OF m i(2), simplified]
  have p: "pool_ok {} 0 (new_pool va (of_nat NUM_PAGES) False None)"
    by (simp add: pool_ok_def in_large_def in_small_def)
  show ?thesis using mm i(3) p unfolding d
    by (auto simp: pool_inv_def links_ok_def layout_ok_def tiles_ok_def blocks_ok_def)
qed

section \<open>The contract\<close>

definition dev_window :: "pim_mem \<Rightarrow> nat \<times> nat" where
  "dev_window d = (unat (base (drv d)), unat (base (drv d)) + unat (pim_mem_size (drv d)))"

definition size_fits :: "u64 \<Rightarrow> bool" where
  "size_fits sz \<longleftrightarrow> unat sz \<le> 1023 * HUGE_PAGE_SIZE"

lemma blk_addr_base: "base (drv d') = base (drv d) \<Longrightarrow> blk_addr d' = blk_addr d"
  by (simp add: blk_addr_def fun_eq_iff)

interpretation pim: region_alloc malloc_dev free_dev size_fits device_start pool_inv blk_addr blk_bytes
  dev_window "\<lambda>d sz. room d (pools_needed sz)"
proof (unfold_locales, goal_cases)
  case (1 s)
  then show ?case by (rule device_start_inv)
next
  case (2 s L sz s' a)
  with malloc_dev_spec [of s L sz] have "alloc_ok s L sz s' a" by (simp add: size_fits_def)
  then show ?case unfolding alloc_ok_def using blk_addr_base by metis
next
  case (3 s L sz)
  with malloc_dev_spec [of s L sz] show ?case by (auto simp: size_fits_def split: sum.splits)
next
  case (4 s L b a)
  with free_dev_spec [of s L b a] blk_addr_base show ?case by metis
next
  case (5 s L b b')
  then have ok: "blk_ok s b" "blk_ok s b'" "blk_pages b \<inter> blk_pages b' = {}"
    using blocks_okD [OF pool_invD(3) [OF 5(1)]] by blast+
  from blk_range_disjoint [OF ok(3,1,2)] show ?case by (auto simp: blk_addr_def)
next
  case (6 s L b)
  with blk_in_window [OF pool_invD(2) [OF 6(1)] blocks_okD(1) [OF pool_invD(3) [OF 6(1)] 6(2)]]
  show ?case by (simp add: blk_addr_def dev_window_def)
qed

abbreviation pim_client :: "pim_mem \<Rightarrow> (u64 \<times> u64) list \<Rightarrow> bool" where
  "pim_client \<equiv> client malloc_dev free_dev size_fits device_start"

lemma client_inv: "pim_client d A \<Longrightarrow> \<exists>L. pool_inv d L"
  using pim.client_owned unfolding pim.owned_def by blast

section \<open>The walk at exit\<close>

lemma real_free_walk_from:
  assumes "links_ok d" "k < n_pools d" "n_pools d - k < fuel"
  shows "real_free_walk fuel d (Some k) = Some [k..<n_pools d]"
  using assms(2,3)
proof (induction fuel arbitrary: k)
  case (Suc fuel)
  show ?case
  proof (cases "Suc k < n_pools d")
    case True
    with Suc have "real_free_walk fuel d (Some (Suc k)) = Some [Suc k..<n_pools d]" by simp
    with True Suc.prems(1) show ?thesis by (simp add: links_next [OF assms(1)] upt_conv_Cons)
  next
    case False
    with Suc.prems obtain f where "fuel = Suc f" "n_pools d = Suc k" by (cases fuel) auto
    then show ?thesis using Suc.prems(1) by (simp add: links_next [OF assms(1)])
  qed
qed simp

lemma real_free_walk_all:
  "links_ok d \<Longrightarrow> real_free_walk (Suc (n_pools d)) d (head_mem_pool d) = Some [0..<n_pools d]"
  using real_free_walk_from [of d 0 "Suc (n_pools d)"] by (simp add: links_ok_def del: real_free_walk.simps)

section \<open>A concrete device\<close>

definition demo_node :: pim_mem_t where
  "demo_node = \<lparr>base = 0x100000000, fd = 3, pim_mem_size = 0x40000000, total_size = 0\<rparr>"

definition demo_pool :: mem_pool where
  "demo_pool = new_pool 0x100000000 512 False None"

definition demo_dev :: pim_mem where
  "demo_dev = \<lparr>ntotal_mem_pools = 1, curr_mem_pool = Some 0, head_mem_pool = Some 0,
     tail_mem_pool = Some 0, pool_heap = [demo_pool], drv = demo_node\<lparr>total_size := 0x200000\<rparr>,
     host_mem = 98\<rparr>"

lemma demo_init: "init_device demo_node 0 100 = Inr demo_dev"
  by (simp add: init_device_def multi_mem_pool_allocation_def multi_mmap_drv_def demo_node_def
      demo_dev_def demo_pool_def Let_def)

lemma demo_start: "device_start demo_dev"
  unfolding device_start_def
  by (rule exI [of _ demo_node], rule exI [of _ 0], rule exI [of _ 100])
    (simp add: demo_init, simp add: demo_dev_def demo_node_def window_ok_def)

lemma demo_client: "pim_client demo_dev []"
  by (rule client_start) (rule demo_start)


text \<open>
  As long as the pages from \<open>curr_idx\<close> on are free, allocation is a bump of that index: enough
  to run the demo device.
\<close>

lemma set_bit_vector_bump:
  assumes "free_run (bit_vector p) (unat (curr_idx p)) n" "0 < n"
  shows "set_bit_vector p n = (mark_used p (unat (curr_idx p)) n, int (unat (curr_idx p)))"
proof -
  have "take n (drop (unat (curr_idx p)) (bit_vector p)) = free_flag n"
    using assms by (simp add: free_run_take_drop)
  then have "strstr (drop (unat (curr_idx p)) (bit_vector p)) (free_flag n) = Some 0"
    using assms(2) by (cases "drop (unat (curr_idx p)) (bit_vector p)") (auto simp: free_flag_def)
  then show ?thesis by (simp add: set_bit_vector_def)
qed

lemma malloc_bump:
  assumes "sz \<le> of_nat HUGE_PAGE_SIZE" "curr_mem_pool d = Some k" "k < n_pools d"
    and "nalloc_pages_for sz = n" "n \<noteq> 0" "n \<le> nfree_pages (pool d k)" "curr_idx (pool d k) = i"
    and "free_run (bit_vector (pool d k)) (unat i) (unat n)"
  shows "malloc_dev d sz = Inr ((small_alloc k (unat i) n d)\<lparr>curr_mem_pool := Some k\<rparr>,
    addr (head_page (pool d k) ! unat i))"
proof -
  have "0 < unat n" using assms(5) by (simp add: unat_gt_0)
  with assms(7,8) have "set_bit_vector (pool d k) (unat n) = (mark_used (pool d k) (unat i) (unat n), int (unat i))"
    using set_bit_vector_bump [of "pool d k" "unat n"] by simp
  with assms show ?thesis
    by (simp add: malloc_dev_def malloc_pages_def pick_pool_def small_alloc_eq not_less [symmetric])
qed

definition demo_dev1 :: pim_mem where
  "demo_dev1 = (small_alloc 0 0 2 demo_dev)\<lparr>curr_mem_pool := Some 0\<rparr>"

definition demo_dev2 :: pim_mem where
  "demo_dev2 = (small_alloc 0 2 1 demo_dev1)\<lparr>curr_mem_pool := Some 0\<rparr>"

lemma demo_pages: "nalloc_pages_for 8192 = 2" "nalloc_pages_for 4096 = 1"
  by (simp_all add: nalloc_pages_for_def)

lemma demo_addr: "addr (head_page demo_pool ! 0) = 0x100000000" "addr (head_page demo_pool ! 2) = 0x100002000"
  by (simp_all add: demo_pool_def)

lemma demo_pool_bits: "bits_ok demo_pool" "\<not> page_used demo_pool i"
  by (simp_all add: demo_pool_def)

lemma demo_malloc1: "malloc_dev demo_dev 8192 = Inr (demo_dev1, 0x100000000)"
  using malloc_bump [of 8192 demo_dev 0 2 0] demo_pages demo_addr
  by (simp add: demo_dev_def demo_dev1_def demo_pool_def new_pool_def free_run_def free_flag_def)

lemma demo_dev1_pool: "pool demo_dev1 0 = set_alloc_size 0 2 (mark_used demo_pool 0 2)"
  "curr_mem_pool demo_dev1 = Some 0" "n_pools demo_dev1 = 1"
  by (simp_all add: demo_dev1_def small_alloc_def upd_pool_def demo_dev_def)

lemma demo_malloc2: "malloc_dev demo_dev1 4096 = Inr (demo_dev2, 0x100002000)"
proof -
  have "free_run (bit_vector (pool demo_dev1 0)) 2 1"
    by (simp add: demo_dev1_pool set_alloc_size_def mark_used_def demo_pool_def new_pool_def free_run_def
        free_flag_def used_flag_def list_upd_simps)
  moreover have "addr (head_page (pool demo_dev1 0) ! 2) = 0x100002000"
    using demo_addr by (simp add: demo_dev1_pool set_alloc_size_def nth_list_update)
  moreover have "nfree_pages (pool demo_dev1 0) = 510" "curr_idx (pool demo_dev1 0) = 2"
    by (simp_all add: demo_dev1_pool set_alloc_size_def mark_used_def demo_pool_def)
  ultimately show ?thesis
    using malloc_bump [of 4096 demo_dev1 0 1 2] demo_pages by (simp add: demo_dev2_def demo_dev1_pool)
qed

lemma demo_client1: "pim_client demo_dev1 ([] @ [(0x100000000, 8192)])"
  by (rule client_alloc, rule demo_client, simp add: size_fits_def, rule demo_malloc1)

lemma demo_client2: "pim_client demo_dev2 (([] @ [(0x100000000, 8192)]) @ [(0x100002000, 4096)])"
  by (rule client_alloc, rule demo_client1, simp add: size_fits_def, rule demo_malloc2)

section \<open>The pages that are taken\<close>







section \<open>Properties of the allocator\<close>











text \<open>
  Claim C33: the clean-up at exit visits every pool of the device exactly once, in the order of
  the list, and leaves the device with no pool and its driver node closed.
\<close>

theorem real_free_releases_all:
  assumes "pim_client d A"
  shows "\<exists>d'. multi_real_free_dev d = Some ([0..<n_pools d], d') \<and> head_mem_pool d' = None
    \<and> curr_mem_pool d' = None \<and> tail_mem_pool d' = None \<and> base (drv d') = 0 \<and> \<not> fd (drv d') > 0"
proof -
  from client_inv [OF assms] obtain L where "pool_inv d L" by blast
  from real_free_walk_all [OF pool_invD(1) [OF this]] show ?thesis
    by (simp add: multi_real_free_dev_def init_mpim_mem_def release_node_def Let_def)
qed

theorem real_free_releases_all_witness:
  "\<exists>d'. multi_real_free_dev demo_dev2 = Some ([0], d') \<and> base (drv d') = 0"
proof -
  have "n_pools demo_dev2 = 1" by (simp add: demo_dev2_def small_alloc_def demo_dev1_pool)
  with real_free_releases_all [OF demo_client2] show ?thesis by auto
qed

text \<open>
  A double free is not detected. \<^verbatim>\<open>mpim_free\<close> reads the page's \<^verbatim>\<open>alloc_size\<close> and
  never resets it, so freeing the same page block again succeeds and adds the pages to
  \<^verbatim>\<open>nfree_pages\<close> a second time, which then counts more pages than the pool has free.
\<close>

theorem double_free_inflates:
  assumes "pool_inv d L" "Small k i n \<in> L" "unat a = blk_addr d (Small k i n)"
  shows "\<exists>d1 d2. free_dev d a = Inr d1 \<and> free_dev d1 a = Inr d2
    \<and> nfree_pages (pool d2 k) = nfree_pages (pool d1 k) + of_nat n
    \<and> n_free (pool d2 k) = n_free (pool d1 k)"
proof -
  note inv = pool_invD [OF assms(1)]
  from blocks_okD(1) [OF inv(3) assms(2)] have b: "k < n_pools d" "0 < n" "i + n \<le> NUM_PAGES"
    "alloc_size (head_page (pool d k) ! i) = Some (of_nat n)" by auto
  let ?f = "\<lambda>p. clr_bit_vector p i n"
  let ?d1 = "upd_pool k ?f d" and ?d2 = "upd_pool k ?f (upd_pool k ?f d)"
  have n32: "unat (of_nat n :: u32) = n" using b(3) by (intro unat_of_nat_u32) simp
  then have n0: "(of_nat n :: u32) \<noteq> 0" using b(2) by auto
  have nolg: "\<not> large_mem_pool (pool d k)"
  proof -
    have "in_small L k i" unfolding in_small_def
      by (rule exI [of _ i], rule exI [of _ n]) (use assms(2) b(2) in simp)
    from in_small_large [OF inv(3) this] inv(4) [OF b(1)] show ?thesis by (simp add: pool_ok_def)
  qed
  have off: "unat (a - start_va (pool d k)) = i * PAGE_SIZE"
    using assms(3) layout_start [OF inv(2) b(1)]
    by (subst unat_sub) (simp_all add: word_le_nat_alt blk_addr_def)
  have "unat (drop_bit PAGE_SHIFT (a - start_va (pool d k))) = unat (a - start_va (pool d k)) div 2 ^ PAGE_SHIFT"
    by (simp add: drop_bit_eq_div unat_div)
  then have idx: "unat (drop_bit PAGE_SHIFT (a - start_va (pool d k))) = i" unfolding off by simp
  have free: "free_dev e a = Inr (upd_pool k ?f e)"
    if e: "links_ok e" "layout_ok e" "drv e = drv d" "n_pools e = n_pools d"
      "alloc_size (head_page (pool e k) ! i) = Some (of_nat n)" "\<not> large_mem_pool (pool e k)"
      "start_va (pool e k) = start_va (pool d k)" for e
  proof -
    have "blk_ok e (Small k i n)" using b e(4,5) by simp
    moreover have "unat a = blk_addr e (Small k i n)" using assms(3) e(3) by (simp add: blk_addr_def)
    ultimately have "find_addr (Suc (n_pools e)) e a (head_mem_pool e) = Some (Some k)"
      using find_addr_blk [OF e(1,2), of "Small k i n" a] by simp
    then show ?thesis using e(5-7) n0 by (simp add: free_dev_def free_page_def Let_def idx n32)
  qed
  have same: "same_list d ?d1"
    by (rule same_list_upd) (use b(3) in \<open>auto simp: same_shape_def clr_ok\<close>)
  have one: "free_dev d a = Inr ?d1" by (rule free [OF inv(1,2)]) (use b nolg in simp_all)
  have two: "free_dev ?d1 a = Inr ?d2"
    by (rule free [OF upd_pool_links [OF same inv(1)] same_list_layout [OF same inv(2)]])
      (use b nolg in simp_all)
  have bits: "bits_ok (?f (pool d k))" by (rule clr_ok [OF layout_bits [OF inv(2) b(1)] b(3)])
  have len: "length (bit_vector (pool d k)) = NUM_PAGES"
    using layout_bits [OF inv(2) b(1)] by (simp add: bits_ok_def)
  have "blit i (free_flag n) (blit i (free_flag n) (bit_vector (pool d k))) = blit i (free_flag n) (bit_vector (pool d k))"
    using b(3) len by (intro nth_equalityI) (auto simp: free_flag_def list_upd_simps)
  then have "n_free (?f (?f (pool d k))) = n_free (?f (pool d k))"
    by (simp add: n_free_def clr_bit_vector_def)
  with one two b(1) show ?thesis by (intro exI [of _ ?d1] exI [of _ ?d2]) simp
qed

theorem double_free_inflates_witness:
  "\<exists>d1 d2. free_dev demo_dev1 0x100000000 = Inr d1 \<and> free_dev d1 0x100000000 = Inr d2
    \<and> nfree_pages (pool d2 0) = nfree_pages (pool d1 0) + 2"
proof -
  have "free_run (bit_vector (pool demo_dev 0)) 0 2"
    by (simp add: demo_dev_def demo_pool_def new_pool_def free_run_def free_flag_def)
  then have "pool_inv (small_alloc 0 0 2 demo_dev) {Small 0 0 2}"
    using small_alloc_inv(1) [OF device_start_inv [OF demo_start], of 0 0 2]
    by (simp add: demo_dev_def demo_pool_def)
  then have inv: "pool_inv demo_dev1 {Small 0 0 2}"
    unfolding demo_dev1_def by (intro pool_inv_curr) (simp_all add: small_alloc_def demo_dev_def)
  have "unat (0x100000000 :: u64) = blk_addr demo_dev1 (Small 0 0 2)"
    by (simp add: blk_addr_def demo_dev1_def small_alloc_def demo_dev_def demo_node_def)
  from double_free_inflates [OF inv _ this] show ?thesis by auto
qed

end
