(* ===== verification/Kernel_Props.thy ===== *)
theory Kernel_Props
  imports Pim_Kernels
begin

text \<open>
  The properties of the matrix kernels: what the silent \<^verbatim>\<open>gemm\<close> builds and how it reaches the
  engine, how many instructions every kernel emits, and where the sizes or the addresses defeat
  them.
\<close>

section \<open>A device with the identity translation\<close>

definition demo_dev :: pl_dma_t where
  "demo_dev = \<lparr>dev_fd = 3, dev_desc_base = 0x800000, dev_dram_base = 0, dev_isa = 0x1000, dev_drv = demo_pl_env\<rparr>"

definition demo_math :: math_env where
  "demo_math = \<lparr>pl_dma = Some [demo_dev], addr_trans = \<lambda>a _. a\<rparr>"

definition demo_margs :: "u32 \<Rightarrow> u32 \<Rightarrow> u32 \<Rightarrow> math_args" where
  "demo_margs p q r = pim_args.extend demo_args (math_args.fields 0x20000000 0x30000000 p q r 10 0)"

lemma demo_math_simps [simp]:
  "pl_dev demo_math 0 = Some demo_dev" "dev_desc_base demo_dev = 0x800000" "dev_drv demo_dev = demo_pl_env"
  "VA2PA demo_math 0 a = Some (ucast (ucast a :: u32))"
  by (simp_all add: demo_math_def demo_dev_def pl_dev_def VA2PA_def)

lemma demo_margs_simps [simp]:
  "p_size (demo_margs p q r) = p" "q_size (demo_margs p q r) = q" "r_size (demo_margs p q r) = r"
  "fused_op (demo_margs p q r) = 10"
  by (simp_all add: demo_margs_def demo_args_def pim_args.extend_def math_args.fields_def)

lemma demo_PA: "PA demo_math 0 (a + ucast off) = ucast a + off"
  by (simp add: PA_def ucast_add_down)


lemma demo_exec:
  "\<not> past_end s \<Longrightarrow> \<exists>args' st'. mm_exec demo_math 0 args s st = Some (0, args', s, st')"
proof -
  assume "\<not> past_end s"
  let ?a = "args\<lparr>desc_idx := idx s - 1, desc_last := nxt s - 0x40, desc_host := dev_isa demo_dev\<rparr>"
  obtain st' where "pl_dma_ioctl demo_pl_env DMA_START (pim_args.truncate ?a) st = (SUCCESS, pim_args.truncate ?a, st')"
    using demo_dma_start by blast
  then show ?thesis using \<open>\<not> past_end s\<close> by (simp add: mm_exec_def mpim_exec_def Let_def)
qed

lemma handed_over_result:
  assumes "handed_over demo_math 0 args n st res"
  shows "\<exists>args' s' st'. res = Some (0, args', s', st')"
  using assms demo_exec by (force simp: handed_over_def chained_def)

section \<open>Silent gemm\<close>


lemma gemm_eq: "gemm env d args isa0 st = gemm_silent env d args isa0 st"
  by (simp add: gemm_def)

lemma gemm_ends:
  assumes "pl_dev env d = Some dev" "unat (q_size args) + 256 \<le> 2 ^ 32"
    and "unat (p_size args) * (unat (r_loop_var (r_size args)) * (2 + 2 * trips REG_SIZE (q_size args))) < 2 ^ 32"
  shows "\<exists>ds s. gemm env d args isa0 st = mm_exec env d args s st \<and> chained (ucast (dev_desc_base dev)) ds s
    \<and> length ds = unat (p_size args) * (unat (r_loop_var (r_size args)) * (2 + 2 * trips REG_SIZE (q_size args)))"
proof -
  let ?c = "2 + 2 * trips REG_SIZE (q_size args)"
  have "grown (ucast (dev_desc_base dev)) [] (trips 1 (p_size args) * (trips 1 (r_loop_var (r_size args)) * ?c))
      (u32_for 1 0 (p_size args) (\<lambda>p. u32_for 1 0 (r_loop_var (r_size args)) (gemm_silent_r env d args p))
        (mm_start dev isa0))"
    by (rule p_loop_grown [OF gemm_silent_r_grown [OF assms(1) _ assms(2)] _ _ step1 step1 chained_mm_start])
      (use assms(3) in simp_all)
  then obtain ds s where "u32_for 1 0 (p_size args) (\<lambda>p. u32_for 1 0 (r_loop_var (r_size args)) (gemm_silent_r env d args p))
      (mm_start dev isa0) = Some s" "chained (ucast (dev_desc_base dev)) ds s" "length ds = trips 1 (p_size args) * (trips 1 (r_loop_var (r_size args)) * ?c)"
    by (auto simp: grown_def)
  then show ?thesis by (intro exI [of _ ds] exI [of _ s]) (simp add: gemm_eq gemm_silent_def assms(1))
qed

lemma gemm_result:
  assumes "pl_dev env d = Some dev" "unat (q_size args) + 256 \<le> 2 ^ 32"
    and "n = unat (p_size args) * (unat (r_loop_var (r_size args)) * (2 + 2 * trips REG_SIZE (q_size args)))" "n < 2 ^ 32"
    and "gemm env d args isa0 st = Some (ret, args', s', st')"
  shows "(\<exists>ds. length ds = n \<and> chained (ucast (dev_desc_base dev)) ds s') \<and> started dev args n st ret args' st' \<and> n \<le> ISA_ENTRIES"
proof -
  obtain ds s where s: "gemm env d args isa0 st = mm_exec env d args s st" "chained (ucast (dev_desc_base dev)) ds s" "length ds = n"
    using gemm_ends [OF assms(1,2)] assms(3,4) by blast
  then have "\<not> past_end s" using assms(5) by (auto simp: mm_exec_def)
  then have len: "length ds \<le> ISA_ENTRIES" using s(2) by (simp add: chained_def)
  from mm_exec_started [OF assms(1) s(2) len, of args st] s assms(5) len show ?thesis by auto
qed

lemma gemm_demo_returns:
  assumes "unat (q_size args) + 256 \<le> 2 ^ 32"
    and "unat (p_size args) * (unat (r_loop_var (r_size args)) * (2 + 2 * trips REG_SIZE (q_size args))) \<le> ISA_ENTRIES"
  shows "\<exists>args' s' st'. gemm demo_math 0 args isa0 st = Some (0, args', s', st')"
proof -
  have "unat (p_size args) * (unat (r_loop_var (r_size args)) * (2 + 2 * trips REG_SIZE (q_size args))) < 2 ^ 32"
    using assms(2) by (simp add: ISA_ENTRIES_def)
  then obtain ds s where s: "gemm demo_math 0 args isa0 st = mm_exec demo_math 0 args s st" "chained (ucast (dev_desc_base demo_dev)) ds s"
      "length ds \<le> ISA_ENTRIES"
    using gemm_ends [OF demo_math_simps(1) assms(1)] assms(2) by metis
  then have "\<not> past_end s" by (simp add: chained_def)
  then show ?thesis using demo_exec s(1) by metis
qed



text \<open>
  Claim C14: when \<^verbatim>\<open>_gemm\<close> returns 0, the driver has copied exactly the built descriptors, has set
  the current descriptor to the first one and the tail to the last one, and one of its polls, before any
  that saw an error, has seen the last one complete; the list it copied is linked from the first entry to
  the last. This asks that the counter of the row does not wrap and that there are fewer than \<open>2 ^ 32\<close>
  descriptors.
\<close>

theorem gemm_starts_engine:
  assumes "pl_dev env d = Some dev" "dev_desc_base dev = desc_mem_base (dev_drv dev)"
    and "unat (q_size args) + 256 \<le> 2 ^ 32"
    and "n = unat (p_size args) * (unat (r_loop_var (r_size args)) * (2 + 2 * trips REG_SIZE (q_size args)))"
    and "n < 2 ^ 32"
    and "gemm env d args isa0 st = Some (0, args', s', st')"
  shows "desc_idx args' = of_nat n - 1 \<and> trace st' = trace st @ start_trace dev n
    \<and> (\<exists>j < CDMA_MAX_POLLING. desc_done (dev_drv dev) (of_nat n - 1) (clock st + 3 + 2 * j + 1)
         \<and> (\<forall>i \<le> j. \<not> sr_error (dev_drv dev) (clock st + 3 + 2 * i)))
    \<and> (\<exists>ds. length ds = n \<and> chained (ucast (dev_desc_base dev)) ds s') \<and> \<not> past_end s'"
proof -
  obtain ds where r: "length ds = n" "chained (ucast (dev_desc_base dev)) ds s'" "started dev args n st 0 args' st'" "n \<le> ISA_ENTRIES"
    using gemm_result [OF assms(1,3-6)] by blast
  moreover from r have "\<not> past_end s'" "desc_idx args' = of_nat n - 1" by (simp_all add: chained_def started_def)
  ultimately show ?thesis using started_trace [OF assms(2) r(3)] by (auto simp: polled_done_def)
qed

theorem gemm_starts_engine_witness:
  "\<exists>args' s' st'. gemm demo_math 0 (demo_margs 1 256 256) Map.empty demo_pl = Some (0, args', s', st')
    \<and> desc_idx args' = 3 \<and> RegWr TAILDESC_L 0x8000C0 \<in> set (trace st')"
proof -
  let ?a = "demo_margs 1 256 256"
  have c: "unat (r_loop_var 256) = 1" "trips REG_SIZE 256 = 1" by (simp_all add: r_loop_var_unat trips_def)
  have u: "unat (256 :: u32) = 256" "unat (1 :: u32) = 1" by simp_all
  have four: "4 = unat (p_size ?a) * (unat (r_loop_var (r_size ?a)) * (2 + 2 * trips REG_SIZE (q_size ?a)))"
    unfolding demo_margs_simps c u by simp
  have q: "unat (q_size ?a) + 256 \<le> 2 ^ 32" unfolding demo_margs_simps u by simp
  have base: "dev_desc_base demo_dev = desc_mem_base (dev_drv demo_dev)" by (simp add: demo_pl_env_def)
  obtain args' s' st' where g: "gemm demo_math 0 ?a Map.empty demo_pl = Some (0, args', s', st')"
    using gemm_demo_returns [OF q, of Map.empty demo_pl] unfolding four [symmetric] by (auto simp: ISA_ENTRIES_def)
  have "desc_idx args' = of_nat 4 - 1 \<and> trace st' = trace demo_pl @ start_trace demo_dev 4"
    using gemm_starts_engine [OF demo_math_simps(1) base q four _ g] by simp
  moreover have "RegWr TAILDESC_L 0x8000C0 \<in> set (start_trace demo_dev 4)"
    by (simp add: start_trace_def Let_def)
  ultimately show ?thesis using g by auto
qed

text \<open>
  A matrix narrower than one column block (fewer than 256 columns) makes \<^verbatim>\<open>_gemm\<close> start
  the engine without a single descriptor: nothing is copied, the poll index is \<open>0xFFFFFFFF\<close>, and
  the tail pointer is one entry before the first descriptor.
\<close>

theorem gemm_narrow_starts_stale:
  assumes "pl_dev env d = Some dev" "dev_desc_base dev = desc_mem_base (dev_drv dev)"
    and "unat (q_size args) + 256 \<le> 2 ^ 32" "r_size args < 256"
    and "gemm env d args isa0 st = Some (0, args', s', st')"
  shows "desc_idx args' = 0xFFFFFFFF \<and> DescFromUser (dev_isa dev) 0 \<in> set (trace st')
    \<and> RegWr TAILDESC_L (ucast (dev_desc_base dev) - 0x40) \<in> set (trace st')"
proof -
  have "unat (r_size args) < 256" using assms(4) by (simp add: word_less_nat_alt)
  then have "0 = unat (p_size args) * (unat (r_loop_var (r_size args)) * (2 + 2 * trips REG_SIZE (q_size args)))"
    by (simp add: r_loop_var_unat)
  from gemm_result [OF assms(1,3) this _ assms(5)] have s: "started dev args 0 st 0 args' st'" by simp
  then have "desc_idx args' = of_nat 0 - 1" by (simp add: started_def)
  then show ?thesis using started_trace(1) [OF assms(2) s] by (simp add: start_trace_def Let_def)
qed

theorem gemm_narrow_starts_stale_witness:
  "\<exists>args' s' st'. gemm demo_math 0 (demo_margs 1 256 255) Map.empty demo_pl = Some (0, args', s', st')
    \<and> RegWr TAILDESC_L 0x7FFFC0 \<in> set (trace st')"
proof -
  let ?a = "demo_margs 1 256 255"
  have u: "unat (256 :: u32) = 256" by simp
  have r0: "unat (r_loop_var (r_size ?a)) = 0" unfolding demo_margs_simps r_loop_var_unat by simp
  have q: "unat (q_size ?a) + 256 \<le> 2 ^ 32" unfolding demo_margs_simps u by simp
  have base: "dev_desc_base demo_dev = desc_mem_base (dev_drv demo_dev)" by (simp add: demo_pl_env_def)
  obtain args' s' st' where g: "gemm demo_math 0 ?a Map.empty demo_pl = Some (0, args', s', st')"
    using gemm_demo_returns [OF q, of Map.empty demo_pl] unfolding r0 by auto
  have "r_size ?a < 256" by simp
  from gemm_narrow_starts_stale [OF demo_math_simps(1) base q this g] g show ?thesis by auto
qed

lemma u32_for_None: "i < bound \<Longrightarrow> body i s = None \<Longrightarrow> u32_for step i bound body s = None"
  by (simp add: u32_for_step)

text \<open>
  A row longer than \<open>0xFFFFFF00\<close> elements makes \<^verbatim>\<open>_gemm\<close> run forever: the counter of its
  inner loop wraps around before it reaches the bound.
\<close>

theorem gemm_long_row_loops:
  assumes "0xFFFFFF00 < q_size args" "0 < p_size args" "256 \<le> r_size args"
  shows "gemm env d args isa0 st = None"
proof -
  have "u32_for REG_SIZE 0 (q_size args) body s = None" for body and s :: mm_state
    using u32_for_wraps [of 0 "q_size args" body s] assms(1) by (cases "u32_for REG_SIZE 0 (q_size args) body s")
      (simp_all add: REG_SIZE_def)
  then have r: "gemm_silent_r env d args p r s = None" for p r s
    unfolding gemm_silent_r_def Let_def by (auto simp: bind_eq_None_conv)
  have "0 < unat (r_loop_var (r_size args))"
    using assms(3) by (simp add: r_loop_var_unat word_le_nat_alt div_greater_zero_iff)
  then have "0 < r_loop_var (r_size args)" by (simp add: word_less_nat_alt)
  then show ?thesis
    using assms(2) by (auto simp: gemm_eq gemm_silent_def u32_for_None r bind_eq_None_conv)
qed

theorem gemm_long_row_loops_witness:
  "gemm demo_math 0 (demo_margs 1 0xFFFFFF80 256) Map.empty demo_pl = None"
  by (rule gemm_long_row_loops) simp_all

text \<open>
  When the bias is one contiguous buffer and a block starts on a later huge page of it,
  the next block reads its bias at an address that is too high by the whole offset of that page:
  the kernel adds the full offset to a base that already contains it.
\<close>

theorem gemm_bias_past_page:
  assumes "pl_dev env d = Some dev" "unat (q_size args) + 256 \<le> 2 ^ 32"
    and linear: "\<forall>off. PA env d (bias_va args + ucast off) = PA env d (bias_va args) + off"
    and page: "bias_off args p r mod HUGE_PAGE = 0"
    and run: "gemm_silent_r env d args p r s = Some s1"
    and s1: "chained base ds s1" "length ds + (2 + 2 * trips REG_SIZE (q_size args)) \<le> ISA_ENTRIES"
  shows "\<exists>s2 e. gemm_silent_r env d args p (r + 1) s1 = Some s2 \<and> isa s2 (idx s1) = Some e
    \<and> src_l e = PA env d (bias_va args + ucast (bias_off args p (r + 1))) + bias_off args p r"
proof -
  have n32: "length ds + (2 + 2 * trips REG_SIZE (q_size args)) < 2 ^ 32" "length ds < ISA_ENTRIES"
    using s1(2) by (simp_all add: ISA_ENTRIES_def)
  let ?o = "bias_off args p r"
  have o1: "bias_off args p (r + 1) = ?o + 512" by (simp add: bias_off_def PIM_WIDTH_def algebra_simps)
  have "unat (?o mod HUGE_PAGE) = unat ?o mod 2097152" by (simp add: unat_mod HUGE_PAGE_def)
  then have "unat ?o mod 2097152 = 0" using page by simp
  then obtain k where k: "unat ?o = 2097152 * k" by (auto elim: dvdE)
  moreover have "unat ?o < 4294967296" by (rule u32_bound)
  ultimately have "k < 2048" by linarith
  then have lt: "unat ?o + 512 < 4294967296" unfolding k by linarith
  then have "unat (?o + 512) = unat ?o + 512" by (simp add: unat_word_ariths)
  then have "unat ((?o + 512) mod HUGE_PAGE) = (2097152 * k + 512) mod 2097152"
    by (simp add: unat_mod HUGE_PAGE_def k)
  then have "unat ((?o + 512) mod HUGE_PAGE) = 512" by simp
  then have off: "(?o + 512) mod HUGE_PAGE \<noteq> 0" by (metis unsigned_0 zero_neq_numeral)
  have D: "D_base s1 = PA env d (bias_va args) + ?o"
    by (rule gemm_silent_r_bases [OF run])
      (use page linear assms(1) in \<open>simp add: seek_abs_def bias_off_def VA2PA_def PA_def\<close>)
  then have sk: "seek_abs env d (bias_va args) (bias_off args p (r + 1)) (D_base s1)
      = Some (D_base s1, D_base s1 + (?o + 512))"
    using off by (simp add: seek_abs_def o1)
  let ?i = "(D_base s1 + (?o + 512), BRAM_DUMMY + bias_off args p (r + 1) mod 0x40, PIM_WIDTH,
    RD_B_ATTR OR push_bit 4 OPCODE_ELE_ADD)"
  from gemm_silent_r_first [OF assms(1) s1(1) assms(2) n32(1) sk [unfolded bias_off_def]]
  obtain s2 es where s2: "gemm_silent_r env d args p (r + 1) s1 = Some s2" "chained base ((ds @ [?i]) @ es) s2"
    unfolding grown_def bias_off_def by blast
  have "isa s2 (of_nat (length ds)) = Some (mk_desc base (length ds) (((ds @ [?i]) @ es) ! length ds))"
    using s2(2) n32(2) unfolding chained_def by simp
  moreover have "((ds @ [?i]) @ es) ! length ds = ?i" by (simp add: nth_append)
  moreover have "idx s1 = of_nat (length ds)" using s1(1) by (simp add: chained_def)
  ultimately have "isa s2 (idx s1) = Some (mk_desc base (length ds) ?i)" by simp
  moreover have "PA env d (bias_va args + ucast (bias_off args p (r + 1))) = PA env d (bias_va args) + (?o + 512)"
    using linear unfolding o1 by blast
  ultimately show ?thesis using s2(1) D by (intro exI) (auto simp: mk_desc_def)
qed

theorem gemm_bias_past_page_witness:
  "\<exists>s1 s2 e. gemm_silent_r demo_math 0 (demo_margs 1 256 0x200000) 0 4096 (mm_start demo_dev Map.empty) = Some s1
    \<and> gemm_silent_r demo_math 0 (demo_margs 1 256 0x200000) 0 (4096 + 1) s1 = Some s2 \<and> isa s2 (idx s1) = Some e
    \<and> src_l e = PA demo_math 0 (bias_va (demo_margs 1 256 0x200000)
        + ucast (bias_off (demo_margs 1 256 0x200000) 0 (4096 + 1))) + 0x200000"
proof -
  let ?a = "demo_margs 1 256 0x200000"
  have c: "trips REG_SIZE (q_size ?a) = 1" unfolding demo_margs_simps by (simp add: trips_def)
  have u: "unat (256 :: u32) = 256" by simp
  have q: "unat (q_size ?a) + 256 \<le> 2 ^ 32" unfolding demo_margs_simps u by simp
  have b: "bias_off ?a 0 4096 = 0x200000" by (simp add: bias_off_def PIM_WIDTH_def)
  have lin: "\<forall>off. PA demo_math 0 (bias_va ?a + ucast off) = PA demo_math 0 (bias_va ?a) + off"
    using demo_PA [of "bias_va ?a" 0] by (simp add: demo_PA)
  have page: "bias_off ?a 0 4096 mod HUGE_PAGE = 0" unfolding b HUGE_PAGE_def by simp
  have room: "length ([] :: instr list) + (2 + 2 * trips REG_SIZE (q_size ?a)) < 2 ^ 32" unfolding c by simp
  have "grown (ucast (dev_desc_base demo_dev)) [] (2 + 2 * trips REG_SIZE (q_size ?a))
      (gemm_silent_r demo_math 0 ?a 0 4096 (mm_start demo_dev Map.empty))"
    by (rule gemm_silent_r_grown [OF demo_math_simps(1) chained_mm_start q room])
  then obtain s1 ds where s1: "gemm_silent_r demo_math 0 ?a 0 4096 (mm_start demo_dev Map.empty) = Some s1"
    "chained (ucast (dev_desc_base demo_dev)) ds s1" "length ds = 2 + 2 * 1"
    unfolding grown_def c append_Nil by blast
  have room1: "length ds + (2 + 2 * trips REG_SIZE (q_size ?a)) \<le> ISA_ENTRIES" unfolding c s1(3) by (simp add: ISA_ENTRIES_def)
  from gemm_bias_past_page [OF demo_math_simps(1) q lin page s1(1,2) room1] s1(1)
  show ?thesis unfolding b by blast
qed

section \<open>Decoupled and fused kernels\<close>

text \<open>
  The decoupled product returns and hands over, for every tile of 256 rows and 16
  columns, two instructions per 256 elements of the row and one write, provided that the two
  products of sizes it divides by do not vanish modulo \<open>2 ^ 32\<close>.
\<close>

theorem tiled_hands_over:
  assumes "pl_dev env d = Some dev" "unat (p_size args) + 256 \<le> 2 ^ 32" "unat (q_size args) + 256 \<le> 2 ^ 32"
    and "unat (r_size args) + 16 \<le> 2 ^ 32" "q_size args * r_size args \<noteq> 0" "p_size args * q_size args \<noteq> 0"
    and "n = trips REG_SIZE (p_size args) * (trips NUM_BANKS (r_size args) * (1 + 2 * trips REG_SIZE (q_size args)))"
    and "n \<le> ISA_ENTRIES"
  shows "handed_over env d args n st (matmul_tiled env d args isa0 st)"
proof -
  have n32: "n < 2 ^ 32" using assms(8) by (simp add: ISA_ENTRIES_def)
  have "grown (ucast (dev_desc_base dev)) [] n (u32_for REG_SIZE 0 (p_size args)
      (\<lambda>p. u32_for NUM_BANKS 0 (r_size args) (matmul_decoupled_r env d args p)) (mm_start dev isa0))"
    unfolding assms(7)
    by (rule p_loop_grown [OF matmul_decoupled_r_grown [OF assms(1,5,6) _ assms(3)] _ _ _ _ chained_mm_start])
      (use assms n32 in simp_all)
  from grown_handed_over [OF assms(1) this] assms(7,8) show ?thesis
    by (simp add: matmul_tiled_def matmul_decoupled_def assms(1))
qed

lemma demo_decoupled_sizes:
  "trips REG_SIZE 256 = 1" "trips NUM_BANKS 16 = 1" "trips 512 16 = 1" "trips REG_SIZE 16 = 1"
  by (simp_all add: trips_def)

theorem tiled_hands_over_witness:
  "handed_over demo_math 0 (demo_margs 256 256 16) 3 demo_pl (matmul_tiled demo_math 0 (demo_margs 256 256 16) Map.empty demo_pl)"
  by (rule tiled_hands_over [OF demo_math_simps(1)]) (simp_all add: demo_decoupled_sizes ISA_ENTRIES_def)

text \<open>
  The decoupled \<^verbatim>\<open>gemm\<close> additionally emits three instructions per row and 512 columns
  for the addition of the bias, in the same list.
\<close>

theorem gemm_decoupled_hands_over:
  assumes "pl_dev env d = Some dev" "unat (p_size args) + 256 \<le> 2 ^ 32" "unat (q_size args) + 256 \<le> 2 ^ 32"
    and "unat (r_size args) + 512 \<le> 2 ^ 32" "q_size args * r_size args \<noteq> 0" "p_size args * q_size args \<noteq> 0"
    and "n = trips REG_SIZE (p_size args) * (trips NUM_BANKS (r_size args) * (1 + 2 * trips REG_SIZE (q_size args)))
      + unat (p_size args) * (trips 512 (r_size args) * 3)"
    and "n \<le> ISA_ENTRIES"
  shows "handed_over env d args n st (gemm_decoupled env d args isa0 st)"
proof -
  have n32: "n < 2 ^ 32" using assms(8) by (simp add: ISA_ENTRIES_def)
  let ?n1 = "trips REG_SIZE (p_size args) * (trips NUM_BANKS (r_size args) * (1 + 2 * trips REG_SIZE (q_size args)))"
  let ?n2 = "trips 1 (p_size args) * (trips 512 (r_size args) * 3)"
  have "grown (ucast (dev_desc_base dev)) [] ?n1 (u32_for REG_SIZE 0 (p_size args)
      (\<lambda>p. u32_for NUM_BANKS 0 (r_size args) (gemm_decoupled_r env d args p)) (mm_start dev isa0))"
    by (rule p_loop_grown [OF gemm_decoupled_r_grown [OF assms(1,5,6) _ assms(3)] _ _ _ _ chained_mm_start])
      (use assms n32 in simp_all)
  then have "grown (ucast (dev_desc_base dev)) [] n (Option.bind (u32_for REG_SIZE 0 (p_size args)
      (\<lambda>p. u32_for NUM_BANKS 0 (r_size args) (gemm_decoupled_r env d args p)) (mm_start dev isa0))
      (u32_for 1 0 (p_size args) (\<lambda>p. u32_for 512 0 (r_size args) (gemm_add_r env d args p))))"
  proof (rule grown_bind [where k = ?n2])
    fix s :: mm_state and es assume "chained (ucast (dev_desc_base dev)) ([] @ es) s" "length es = ?n1"
    then show "grown (ucast (dev_desc_base dev)) ([] @ es) ?n2
        (u32_for 1 0 (p_size args) (\<lambda>p. u32_for 512 0 (r_size args) (gemm_add_r env d args p)) s)"
      using assms(4,7) n32 by (intro p_loop_grown [OF gemm_add_r_grown [OF assms(1)] _ _ step1]) simp_all
  qed (use assms(7) in simp)
  from grown_handed_over [OF assms(1) this] assms(8) show ?thesis
    by (simp add: gemm_decoupled_def assms(1))
qed

theorem gemm_decoupled_hands_over_witness:
  "handed_over demo_math 0 (demo_margs 16 256 16) 51 demo_pl (gemm_decoupled demo_math 0 (demo_margs 16 256 16) Map.empty demo_pl)"
  by (rule gemm_decoupled_hands_over [OF demo_math_simps(1)]) (simp_all add: demo_decoupled_sizes ISA_ENTRIES_def)

text \<open>
  A product fused with an addition or a subtraction takes the silent kernel above 16
  rows and the decoupled one up to 16, and hands over the instructions of that kernel, the read of
  the second operand included.
\<close>

theorem fusion_hands_over:
  assumes "pl_dev env d = Some dev" "fused_op args \<in> {10, 11}"
    and "unat (p_size args) + 256 \<le> 2 ^ 32" "unat (q_size args) + 256 \<le> 2 ^ 32" "unat (r_size args) + 16 \<le> 2 ^ 32"
    and "q_size args * r_size args \<noteq> 0" "p_size args * q_size args \<noteq> 0"
    and "n = (if 16 < p_size args
        then unat (p_size args) * (unat (r_loop_var (r_size args)) * (2 + 2 * trips REG_SIZE (q_size args)))
        else trips REG_SIZE (p_size args) * (trips NUM_BANKS (r_size args) * (2 + 2 * trips REG_SIZE (q_size args))))"
    and "n \<le> ISA_ENTRIES"
  shows "handed_over env d args n st (matmul_fusion env d args isa0 junk st)"
proof -
  have n32: "n < 2 ^ 32" using assms(9) by (simp add: ISA_ENTRIES_def)
  obtain op where op: "fused_opcode (fused_op args) = Some op" using assms(2) by (auto simp: fused_opcode_def)
  show ?thesis
  proof (cases "16 < p_size args")
    case True
    have "grown (ucast (dev_desc_base dev)) [] (trips 1 (p_size args) *
        (trips 1 (r_loop_var (r_size args)) * (2 + 2 * trips REG_SIZE (q_size args))))
      (u32_for 1 0 (p_size args) (\<lambda>p. u32_for 1 0 (r_loop_var (r_size args)) (fusion_silent_r env d args op p))
        (mm_start dev isa0))"
      by (rule p_loop_grown [OF fusion_silent_r_grown [OF assms(1) _ assms(4)] _ _ step1 step1 chained_mm_start])
        (use assms(8) n32 True in simp_all)
    from grown_handed_over [OF assms(1) this] assms(8,9) show ?thesis
      using True by (simp add: matmul_fusion_def matmul_fusion_silent_def op assms(1,8))
  next
    case False
    have "grown (ucast (dev_desc_base dev)) [] n (u32_for REG_SIZE 0 (p_size args)
      (\<lambda>p. u32_for NUM_BANKS 0 (r_size args) (fusion_decoupled_r env d args op p)) (mm_start dev isa0))"
      unfolding assms(8) if_not_P [OF False]
      by (rule p_loop_grown [OF fusion_decoupled_r_grown [OF assms(1,6,7) _ assms(4)] _ _ _ _ chained_mm_start])
        (use assms n32 False in simp_all)
    from grown_handed_over [OF assms(1) this] assms(8,9) show ?thesis
      using False by (simp add: matmul_fusion_def matmul_fusion_decoupled_def op assms(1))
  qed
qed

theorem fusion_hands_over_witness:
  "handed_over demo_math 0 (demo_margs 17 256 256) 68 demo_pl
    (matmul_fusion demo_math 0 (demo_margs 17 256 256) Map.empty (mm_start demo_dev Map.empty) demo_pl)"
  by (rule fusion_hands_over [OF demo_math_simps(1)])
    (simp_all add: demo_decoupled_sizes r_loop_var_unat ISA_ENTRIES_def)

text \<open>
  Any other fused operation is refused: the result is -1, no descriptor is written and
  the driver is not called.
\<close>

theorem fusion_refuses:
  assumes "fused_op args \<notin> {10, 11}"
  shows "matmul_fusion env d args isa0 junk st = Some (- 1, args, junk\<lparr>isa := isa0\<rparr>, st)"
  using assms by (simp add: matmul_fusion_def matmul_fusion_silent_def matmul_fusion_decoupled_def fused_opcode_def)

theorem fusion_refuses_witness:
  "\<exists>junk'. matmul_fusion demo_math 0 (demo_margs 1 1 1\<lparr>fused_op := 12\<rparr>) Map.empty (mm_start demo_dev Map.empty) demo_pl
    = Some (- 1, demo_margs 1 1 1\<lparr>fused_op := 12\<rparr>, junk', demo_pl)"
  using fusion_refuses [of "demo_margs 1 1 1\<lparr>fused_op := 12\<rparr>" demo_math 0 Map.empty "mm_start demo_dev Map.empty" demo_pl] by simp

text \<open>
  The decoupled product does not survive sizes whose product wraps around to 0: it
  divides by that product before anything else.
\<close>

theorem tiled_wrapped_size_traps:
  assumes "0 < p_size args" "0 < q_size args" "0 < r_size args" "q_size args * r_size args = 0"
  shows "matmul_tiled env d args isa0 st = None"
proof -
  have "matmul_decoupled_q env d args p q s = None" for p q s
    using assms(4) by (simp add: matmul_decoupled_q_def u32_rem_def)
  then have "matmul_decoupled_r env d args p r s = None" for p r s
    using assms(2) by (simp add: matmul_decoupled_r_def u32_for_None)
  then show ?thesis
    using assms(1,3) by (auto simp: matmul_tiled_def matmul_decoupled_def u32_for_None bind_eq_None_conv)
qed

theorem tiled_wrapped_size_traps_witness:
  "matmul_tiled demo_math 0 (demo_margs 1 0x10000 0x10000) Map.empty demo_pl = None"
  by (rule tiled_wrapped_size_traps) simp_all

end
