(* ===== verification/Vec_Props.thy ===== *)
theory Vec_Props
  imports Pim_Vec Pool_Client Kernel_Props
begin

text \<open>
  The element-wise kernel: what it builds on device 0, that its buffers go back to the allocator,
  when the code buffer is large enough, and what happens on the other devices.
\<close>

section \<open>Views\<close>

lemma view_on_dev [simp]: "view d (on_dev d f s) = f (view d s)"
  by (simp add: view_def on_dev_def Let_def)

lemma on_dev_other: "d' \<noteq> d \<Longrightarrow> lists (on_dev d f s) d' = lists s d'"
  by (simp add: on_dev_def Let_def)

lemma on_dev_code [simp]:
  "code_idx (on_dev d f s) = code_idx s" "code (on_dev d f s) = code s"
  "code_cap (on_dev d f s) = code_cap s" "code_over (on_dev d f s) = code_over s"
  "coded ds (on_dev d f s) = coded ds s"
  by (simp_all add: on_dev_def Let_def coded_def)

lemma view_code [simp]: "view d (put_code src dst n op s) = view d s"
  by (simp add: view_def put_code_def)

lemma lists_code [simp]: "lists (put_code src dst n op s) = lists s" "vec_idx (put_code src dst n op s) = vec_idx s"
  by (simp_all add: put_code_def)

lemma view_code_pow [simp]:
  "view d ((put_code src dst n op ^^ k) s) = view d s"
  "lists ((put_code src dst n op ^^ k) s) = lists s" "vec_idx ((put_code src dst n op ^^ k) s) = vec_idx s"
  by (induction k) simp_all

lemma code_idx_pow [simp]:
  "code_idx ((put_code src dst n op ^^ k) s) = code_idx s + of_nat k" "code_cap ((put_code src dst n op ^^ k) s) = code_cap s"
  "vec_past ((put_code src dst n op ^^ k) s') = vec_past s'"
  by (induction k) (simp_all add: put_code_def)

lemma Config_put: "ConfigPimRdInstr = put_code" "ConfigPimWrInstr = put_code"
  by (simp_all add: fun_eq_iff ConfigPimRdInstr_def ConfigPimWrInstr_def)

lemma coded_pow:
  "coded ds s \<Longrightarrow> length ds + k < 2 ^ 32 \<Longrightarrow> coded (ds @ replicate k (src, dst, n, op)) ((put_code src dst n op ^^ k) s)"
proof (induction k)
  case (Suc k)
  then have "coded (ds @ replicate k (src, dst, n, op)) ((put_code src dst n op ^^ k) s)" by simp
  from coded_put [OF this, of src dst n op] Suc.prems(2) show ?case
    by (simp add: replicate_append_same)
qed simp

section \<open>The program\<close>

text \<open>
  The instructions of batch \<open>i\<close>: each operand's channel instructions are fetched, then the operand
  moves. \<open>k\<close> is the position in the code list.
\<close>

definition batch_instrs :: "u32 \<Rightarrow> u64 \<Rightarrow> u64 \<Rightarrow> u64 \<Rightarrow> u64 \<Rightarrow> u64 \<Rightarrow> u64 \<Rightarrow> nat \<Rightarrow> instr list" where
  "batch_instrs op code_pa pmm_pa a b c chunk i =
     (let A = ucast (a + of_nat i * chunk); B = ucast (b + of_nat i * chunk); C = ucast (c + of_nat i * chunk);
          fetch = (\<lambda>k. (ucast (code_pa + ucast ((of_nat (48 * i + k) :: u32) * 0x20)), CODE_WR_ADDR, 32 * CH_NUM, op))
      in [fetch 0, (A, ucast (pmm_pa + srcA_reg_offset op), ucast chunk, op),
          fetch 16, (B, B_DUMMY, 32 * CH_NUM, op),
          fetch 32, (ucast (pmm_pa + VACC_OFFSET), C, ucast chunk, op)])"

definition batch_code :: "u32 \<Rightarrow> u64 \<Rightarrow> u64 \<Rightarrow> u64 \<Rightarrow> u64 \<Rightarrow> u64 \<Rightarrow> nat \<Rightarrow> instr list" where
  "batch_code op pmm_pa a b c chunk i =
     (let n = ucast chunk
      in replicate 16 (ucast (a + of_nat i * chunk), ucast (pmm_pa + srcA_reg_offset op), n,
             BATCH8 OR srcA_attr op OR push_bit 4 op)
       @ replicate 16 (ucast (b + of_nat i * chunk), B_DUMMY, n, RD_B_ATTR OR push_bit 4 op)
       @ replicate 16 (ucast (pmm_pa + VACC_OFFSET), ucast (c + of_nat i * chunk), n, RD_C_ATTR OR push_bit 4 op))"

lemma length_batch [simp]: "length (batch_instrs op cp pm a b c n i) = 6" "length (batch_code op pm a b c n i) = 48"
  by (simp_all add: batch_instrs_def batch_code_def Let_def)

lemma unat_CH_NUM [simp]: "unat CH_NUM = 16" by (simp add: CH_NUM_def)


lemma coded_three:
  assumes "coded ds s" "length ds + 48 < 2 ^ 32"
  shows "coded (ds @ replicate 16 (x1, x2, x3, x4) @ replicate 16 (y1, y2, y3, y4) @ replicate 16 (z1, z2, z3, z4))
    ((put_code z1 z2 z3 z4 ^^ 16) (on_dev d3 f3 (on_dev e3 g3 ((put_code y1 y2 y3 y4 ^^ 16) (on_dev d2 f2 (on_dev e2 g2
      ((put_code x1 x2 x3 x4 ^^ 16) (on_dev d1 f1 s))))))))"
proof -
  have "coded (((ds @ replicate 16 (x1, x2, x3, x4)) @ replicate 16 (y1, y2, y3, y4)) @ replicate 16 (z1, z2, z3, z4))
    ((put_code z1 z2 z3 z4 ^^ 16) (on_dev d3 f3 (on_dev e3 g3 ((put_code y1 y2 y3 y4 ^^ 16) (on_dev d2 f2 (on_dev e2 g2
      ((put_code x1 x2 x3 x4 ^^ 16) (on_dev d1 f1 s))))))))"
    using assms by (intro coded_pow iffD2 [OF on_dev_code(5)]) simp_all
  then show ?thesis unfolding append_assoc .
qed

lemma elewise_step_code:
  assumes "coded ds s" "length ds + 48 < 2 ^ 32"
  shows "coded (ds @ batch_code op pm a b c chunk i) (elewise_step d op cp pm a b c chunk (of_nat i) s)"
  unfolding elewise_step_def batch_code_def Let_def Config_put on_dev_code(5) unat_CH_NUM
  by (rule coded_three [OF assms])

section \<open>The main loop\<close>

lemma elewise_loop_invariant:
  assumes "\<And>k s. k < i + n \<Longrightarrow> i \<le> k \<Longrightarrow> I k s \<Longrightarrow> I (Suc k) (body (of_nat k) s)" and "I i s"
  shows "I (i + n) (elewise_loop n i body s)"
  using assms
proof (induction n arbitrary: i s)
  case (Suc n)
  have "I (Suc i + n) (elewise_loop n (Suc i) body (body (of_nat i) s))"
    using Suc.prems by (intro Suc.IH) simp_all
  then show ?case by simp
qed simp

lemma code_idx_step:
  "code_idx (elewise_step d op cp pm a b c chunk i s) = code_idx s + 48"
  "code_cap (elewise_step d op cp pm a b c chunk i s) = code_cap s"
  by (simp_all add: elewise_step_def Let_def Config_put)

lemma puts_eq: "PIM_RD_INSTR = put_desc" "RdPimCode = put_desc" "RdPimReg = put_desc" "WrPimReg = put_desc"
  by (simp_all add: fun_eq_iff put_defs)

lemma on_dev_put_desc [simp]:
  "vec_idx (on_dev d (put_desc src dst n op) s) = vec_idx s + 1"
  "vec_past (on_dev d (put_desc src dst n op) s) \<longleftrightarrow> vec_past s \<or> ISA_ENTRIES \<le> unat (vec_idx s)"
  by (simp_all add: on_dev_def view_def put_desc_def Let_def)

text \<open>Within the array a batch does not write past it.\<close>

lemma past_step:
  assumes "vec_idx s = of_nat m" "m + 6 \<le> ISA_ENTRIES" "\<not> vec_past s"
  shows "vec_idx (elewise_step d op cp pm a b c chunk i s) = of_nat (m + 6)" "\<not> vec_past (elewise_step d op cp pm a b c chunk i s)"
proof -
  have u: "\<not> ISA_ENTRIES \<le> unat (of_nat (m + j) :: u32)" if "j < 6" for j
  proof -
    have "unat (of_nat (m + j) :: u32) = m + j" using assms(2) that by (intro unat_of_nat_u32) (simp add: ISA_ENTRIES_def)
    then show ?thesis using assms(2) that by simp
  qed
  have j: "of_nat m + 1 = (of_nat (m + 1) :: u32)" "of_nat m + 2 = (of_nat (m + 2) :: u32)" "of_nat m + 3 = (of_nat (m + 3) :: u32)"
    "of_nat m + 4 = (of_nat (m + 4) :: u32)" "of_nat m + 5 = (of_nat (m + 5) :: u32)" by simp_all
  note v = u [of 0] u [of 1, folded j] u [of 2, folded j] u [of 3, folded j] u [of 4, folded j] u [of 5, folded j]
  show "vec_idx (elewise_step d op cp pm a b c chunk i s) = of_nat (m + 6)"
    using assms(1) by (simp add: elewise_step_def Let_def Config_put puts_eq add.assoc)
  show "\<not> vec_past (elewise_step d op cp pm a b c chunk i s)"
    unfolding elewise_step_def Let_def Config_put puts_eq
    using assms(1,3) v by (simp add: add.assoc del: not_le)
qed

lemma iter_bound:
  assumes "batch_chunk_of t \<noteq> 0" "t = total_bytes p r"
  shows "unat (t div batch_chunk_of t) \<le> 1048576"
proof -
  have t: "unat t < 8589934592"
  proof -
    have "unat (ucast (p * r) :: u64) = unat (p * r)" by (simp add: unat_ucast_up)
    moreover have "unat (p * r) < 4294967296" by (rule u32_bound)
    ultimately show ?thesis unfolding assms(2) total_bytes_def unat_word_ariths by simp
  qed
  show ?thesis
  proof (cases "t < 8192")
    case True
    then have c: "batch_chunk_of t = t" by (simp add: batch_chunk_of_def vec_consts)
    then have "unat t \<noteq> 0" using assms(1) by (simp add: unat_eq_zero)
    then show ?thesis unfolding c by (simp add: unat_div)
  next
    case False
    then have "unat (t div batch_chunk_of t) = unat t div 8192" by (simp add: batch_chunk_of_def vec_consts unat_div)
    then show ?thesis using t by simp
  qed
qed


section \<open>What the kernel returns\<close>

definition pa_of :: "math_env \<Rightarrow> nat \<Rightarrow> u64 \<Rightarrow> u64" where
  "pa_of env d a = (case VA2PA env d a of None \<Rightarrow> 0 | Some x \<Rightarrow> x)"

definition n_batches :: "math_args \<Rightarrow> nat" where
  "n_batches args = (let t = total_bytes (p_size args) (r_size args) in unat (t div batch_chunk_of t))"

definition vec_init :: "nat \<Rightarrow> pl_dma_t \<Rightarrow> u64 \<Rightarrow> u64 \<Rightarrow> u32 \<Rightarrow> (nat \<Rightarrow> u32 \<Rightarrow> pim_isa_t option) \<Rightarrow> (u32 \<Rightarrow> pim_isa_t option) \<Rightarrow> vec_state" where
  "vec_init d dev code_bytes attr_pa op isas junk =
     on_dev d (put_desc (ucast attr_pa) OP_ATTR_ADDR BURST_SIZE op) (vec_start dev code_bytes isas junk)"

definition code_bytes_of :: "math_args \<Rightarrow> u64" where
  "code_bytes_of args = ISA_32_BYTES * scast (n_code_of (p_size args) (r_size args))"

text \<open>
  The channel instructions of all batches fit the pages of the code buffer, and the descriptors the array.
\<close>

definition vec_fits :: "math_args \<Rightarrow> bool" where
  "vec_fits args \<longleftrightarrow> 48 * n_batches args \<le> alloc_room (code_bytes_of args) div 32 \<and> 1 + 6 * n_batches args \<le> ISA_ENTRIES"

lemma ConfigOpAttr_snd: "snd (ConfigOpAttr attr_pa a b c i n p q r op s) = put_desc attr_pa OP_ATTR_ADDR BURST_SIZE op s"
  by (simp add: ConfigOpAttr_def split: prod.splits)

lemma elewise_SomeD:
  assumes "elewise env ae d op args isas junk lib st = Some res"
  obtains dev lib1 lib2 desc_list lib3 op_data lib4 lib5 where
    "pl_dev env d = Some dev" "batch_chunk_of (total_bytes (p_size args) (r_size args)) \<noteq> 0"
    "pim_malloc0 ae (ISA_32_BYTES * scast (n_code_of (p_size args) (r_size args))) lib = Some (lib1, ew_code res)"
    "pim_malloc0 ae (ISA_BYTES * scast (n_desc_of (p_size args) (r_size args))) lib1 = Some (lib2, desc_list)"
    "pim_malloc0 ae CL_DATA_BYTES lib2 = Some (lib3, op_data)"
    "pim_free0 (ew_code res) lib3 = Some lib4" "pim_free0 desc_list lib4 = Some lib5"
    "pim_free0 op_data lib5 = Some (ew_lib res)"
    "ew_state res = elewise_loop (n_batches args) 0
       (elewise_step d op (pa_of env 0 (ew_code res)) (pa_of env 0 (pmm_base_addr args)) (pa_of env d (srcA_va args))
         (pa_of env d (srcB_va args)) (pa_of env d (dstC_va args)) (batch_chunk_of (total_bytes (p_size args) (r_size args))))
       (vec_init d dev (code_bytes_of args) (pa_of env d op_data) op isas junk)"
    "\<not> overrun (ew_state res)" "ew_ret res = 0"
    "(ew_args res, ew_pl res) = snd (vec_exec env d args (ew_state res) st)"
  using assms unfolding elewise_def Let_def
  by (auto simp: Option.bind_eq_Some_conv pa_of_def n_batches_def vec_init_def code_bytes_of_def on_dev_def Let_def ConfigOpAttr_snd
      split_beta split: if_splits)

section \<open>A concrete device and allocator\<close>

definition demo_math2 :: math_env where
  "demo_math2 = \<lparr>pl_dma = Some [Kernel_Props.demo_dev, Kernel_Props.demo_dev], addr_trans = \<lambda>a _. a\<rparr>"

lemma demo_math2_dev: "pl_dev demo_math2 0 = Some Kernel_Props.demo_dev" "pl_dev demo_math2 1 = Some Kernel_Props.demo_dev"
  by (simp_all add: demo_math2_def pl_dev_def)

definition demo_lib :: pim_lib where
  "demo_lib = \<lparr>mem_pool_list = Some [Pool_Client.demo_dev]\<rparr>"

definition demo_alloc :: alloc_env where
  "demo_alloc = \<lparr>alloc_drv = \<lparr>open_dev = \<lambda>_. 3, ioctl_info = \<lambda>_. None, mmap_dev = \<lambda>_ _ _. 0\<rparr>,
     alloc_devs = 1, alloc_junk = \<lambda>_. 0, alloc_host = 0\<rparr>"

text \<open>A device whose only pool has its first \<open>i\<close> pages in use and the rover behind them.\<close>

definition bumped :: "pim_mem \<Rightarrow> nat \<Rightarrow> bool" where
  "bumped d i \<longleftrightarrow> curr_mem_pool d = Some 0 \<and> n_pools d = 1 \<and> curr_idx (pool d 0) = of_nat i
     \<and> nfree_pages (pool d 0) = of_nat (NUM_PAGES - i) \<and> bit_vector (pool d 0) = used_flag i @ free_flag (NUM_PAGES - i)"

lemma bumped_start: "bumped Pool_Client.demo_dev 0"
  by (simp add: bumped_def Pool_Client.demo_dev_def demo_pool_def new_pool_def used_flag_def free_flag_def)

lemma bumped_malloc:
  assumes "bumped d i" "sz \<le> of_nat HUGE_PAGE_SIZE" "nalloc_pages_for sz = of_nat n" "0 < n" "i + n \<le> NUM_PAGES"
  shows "\<exists>d' a. malloc_dev d sz = Inr (d', a) \<and> bumped d' (i + n)"
proof -
  note b = assms(1) [unfolded bumped_def]
  have u: "unat (of_nat n :: u32) = n" "unat (of_nat i :: u32) = i" "unat (of_nat (NUM_PAGES - i) :: u32) = NUM_PAGES - i"
    using assms(5) by (intro unat_of_nat_u32, simp)+
  have run: "free_run (bit_vector (pool d 0)) i n"
    using b assms(5) by (auto simp: free_run_def nth_append free_flag_def used_flag_def)
  have "of_nat n \<le> nfree_pages (pool d 0)" using b assms(5) u by (simp add: word_le_nat_alt)
  moreover have "(of_nat n :: u32) \<noteq> 0" using u(1) assms(4) by auto
  ultimately have m: "malloc_dev d sz = Inr ((small_alloc 0 i (of_nat n) d)\<lparr>curr_mem_pool := Some 0\<rparr>, addr (head_page (pool d 0) ! i))"
    using malloc_bump [OF assms(2), of d 0 "of_nat n" "of_nat i"] b assms(3) run u by simp
  have "blit i (used_flag n) (used_flag i @ free_flag (NUM_PAGES - i)) = used_flag (i + n) @ free_flag (NUM_PAGES - (i + n))"
    using assms(5) by (intro nth_equalityI) (auto simp: nth_append nth_blit used_flag_def free_flag_def)
  then have "bumped ((small_alloc 0 i (of_nat n) d)\<lparr>curr_mem_pool := Some 0\<rparr>) (i + n)"
    using b u assms(5) by (simp add: bumped_def small_alloc_def upd_pool_def set_alloc_size_def mark_used_def of_nat_diff)
  then show ?thesis using m by blast
qed

lemma bumped_malloc0:
  assumes "bumped d i" "mem_pool_list lib = Some [d]" "sz \<le> of_nat HUGE_PAGE_SIZE" "nalloc_pages_for sz = of_nat n"
    "0 < n" "i + n \<le> NUM_PAGES"
  shows "\<exists>d' a. pim_malloc0 ae sz lib = Some (lib\<lparr>mem_pool_list := Some [d']\<rparr>, a) \<and> bumped d' (i + n)"
proof -
  from bumped_malloc [OF assms(1,3-6)] obtain d' a where "malloc_dev d sz = Inr (d', a)" "bumped d' (i + n)" by blast
  then show ?thesis using assms(2) by (auto simp: pim_malloc0_def mpim_malloc_def mpim_init_def)
qed

section \<open>Properties\<close>



lemma n_batches_le: "batch_chunk_of (total_bytes (p_size args) (r_size args)) \<noteq> 0 \<Longrightarrow> n_batches args \<le> 1048576"
  unfolding n_batches_def Let_def by (rule iter_bound [OF _ refl])

lemma vec_start_simps [simp]:
  "coded [] (vec_start dev cb isas junk)" "code_idx (vec_start dev cb isas junk) = 0" "vec_idx (vec_start dev cb isas junk) = 0"
  "lists (vec_start dev cb isas junk) = isas" "code_cap (vec_start dev cb isas junk) = alloc_room cb div 32"
  "\<not> vec_past (vec_start dev cb isas junk)"
  by (simp_all add: vec_start_def coded_def)


lemma malloc0_client:
  assumes "pim_malloc0 ae n lib = Some (lib1, a)" "mem_pool_list lib = Some (d # ds)" "pim_client d A" "size_fits n"
  shows "\<exists>d'. lib1 = lib\<lparr>mem_pool_list := Some (d' # ds)\<rparr> \<and> pim_client d' (A @ [(a, n)])"
proof -
  from assms(1,2) obtain d' where "malloc_dev d n = Inr (d', a)" "lib1 = lib\<lparr>mem_pool_list := Some (d' # ds)\<rparr>"
    by (auto simp: pim_malloc0_def mpim_malloc_def mpim_init_def split: sum.splits)
  then show ?thesis using client_alloc [OF assms(3,4)] by blast
qed

lemma free0_client:
  assumes "mem_pool_list lib = Some (d # ds)" "pim_client d A" "i < length A"
  shows "\<exists>d'. pim_free0 (fst (A ! i)) lib = Some (lib\<lparr>mem_pool_list := Some (d' # ds)\<rparr>)
    \<and> pim_client d' (take i A @ drop (Suc i) A)"
proof -
  obtain d' where "free_dev d (fst (A ! i)) = Inr d'" using pim.client_can_free [OF assms(2,3)] by blast
  then show ?thesis using assms(1) client_free [OF assms(2,3)] by (auto simp: pim_free0_def mpim_free_def)
qed

lemma VA2PA_Some: "pl_dev env d = Some dev \<Longrightarrow> VA2PA env d a = Some (pa_of env d a)"
  by (simp add: pa_of_def VA2PA_def)

text \<open>When it ends, the loop has overrun neither array, or exactly the one that was too small.\<close>

lemma elewise_state:
  fixes k op cp pm a b c ch dev cb at isas junk and n :: nat
  defines "s \<equiv> elewise_loop n 0 (elewise_step k op cp pm a b c ch) (vec_init k dev cb at op isas junk)"
  assumes "n \<le> 1048576"
  shows "code_over s \<longleftrightarrow> alloc_room cb div 32 < 48 * n" "1 + 6 * n \<le> ISA_ENTRIES \<Longrightarrow> \<not> vec_past s"
    "code_idx s = of_nat (48 * n)"
proof -
  let ?I = "\<lambda>j (s :: vec_state). coded (concat (map (batch_code op pm a b c ch) [0..<j])) s \<and> code_idx s = of_nat (48 * j)
    \<and> code_cap s = alloc_room cb div 32"
  have lens: "length (concat (map (batch_code op pm a b c ch) [0..<j])) = 48 * j" for j by (induction j) simp_all
  have "?I (0 + n) s"
    unfolding s_def
  proof (rule elewise_loop_invariant [where I = ?I])
    fix j s assume j: "j < 0 + n" and I: "?I j s"
    have "coded (concat (map (batch_code op pm a b c ch) [0..<j]) @ batch_code op pm a b c ch j)
        (elewise_step k op cp pm a b c ch (of_nat j) s)"
      using I j assms(2) by (intro elewise_step_code) (simp_all add: lens)
    then show "?I (Suc j) (elewise_step k op cp pm a b c ch (of_nat j) s)"
      using I by (simp add: code_idx_step algebra_simps)
  qed (simp add: vec_init_def)
  then show "code_over s \<longleftrightarrow> alloc_room cb div 32 < 48 * n" "code_idx s = of_nat (48 * n)"
    by (simp_all add: coded_def lens)
  assume room: "1 + 6 * n \<le> ISA_ENTRIES"
  have "vec_idx s = of_nat (1 + 6 * (0 + n)) \<and> \<not> vec_past s"
    unfolding s_def
  proof (rule elewise_loop_invariant [where I = "\<lambda>j (s :: vec_state). vec_idx s = of_nat (1 + 6 * j) \<and> \<not> vec_past s"])
    fix j and s :: vec_state assume j: "j < 0 + n" and I: "vec_idx s = of_nat (1 + 6 * j) \<and> \<not> vec_past s"
    have "1 + 6 * j + 6 \<le> ISA_ENTRIES" using j room by simp
    from past_step [OF conjunct1 [OF I] this conjunct2 [OF I]]
    show "vec_idx (elewise_step k op cp pm a b c ch (of_nat j) s) = of_nat (1 + 6 * Suc j)
        \<and> \<not> vec_past (elewise_step k op cp pm a b c ch (of_nat j) s)" by simp
  qed (simp add: vec_init_def ISA_ENTRIES_def)
  then show "\<not> vec_past s" by simp
qed

lemma elewise_run:
  assumes "pl_dev env 0 = Some dev0" "pl_dev env k = Some dev" "batch_chunk_of (total_bytes (p_size args) (r_size args)) \<noteq> 0"
    and "mem_pool_list lib = Some (d # ds)" "pim_client d A"
    and "size_fits (ISA_32_BYTES * scast (n_code_of (p_size args) (r_size args)))"
    and "size_fits (ISA_BYTES * scast (n_desc_of (p_size args) (r_size args)))"
    and "pim_malloc0 ae (ISA_32_BYTES * scast (n_code_of (p_size args) (r_size args))) lib = Some (lib1, p1)"
    and "pim_malloc0 ae (ISA_BYTES * scast (n_desc_of (p_size args) (r_size args))) lib1 = Some (lib2, p2)"
    and "pim_malloc0 ae CL_DATA_BYTES lib2 = Some (lib3, p3)"
    and "vec_fits args"
  shows "\<exists>res d'. elewise env ae k op args isas junk lib st = Some res
    \<and> mem_pool_list (ew_lib res) = Some (d' # ds) \<and> pim_client d' A"
proof -
  have sz: "size_fits CL_DATA_BYTES" by (simp add: size_fits_def CL_DATA_BYTES_def)
  from malloc0_client [OF assms(8,4,5,6)] obtain d1 b1 where
    1: "mem_pool_list lib1 = Some (d1 # ds)" "pim_client d1 (A @ [(p1, b1)])" by auto
  from malloc0_client [OF assms(9) 1 assms(7)] obtain d2 b2 where
    2: "mem_pool_list lib2 = Some (d2 # ds)" "pim_client d2 (A @ [(p1, b1), (p2, b2)])" by auto
  from malloc0_client [OF assms(10) 2 sz] obtain d3 b3 where
    3: "mem_pool_list lib3 = Some (d3 # ds)" "pim_client d3 (A @ [(p1, b1), (p2, b2), (p3, b3)])" by auto
  from free0_client [OF 3, of "length A"] obtain d4 where
    c4: "pim_client d4 (A @ [(p2, b2), (p3, b3)])" and f4: "pim_free0 p1 lib3 = Some (lib3\<lparr>mem_pool_list := Some (d4 # ds)\<rparr>)"
    by (auto simp: nth_append)
  define lib4 where "lib4 = lib3\<lparr>mem_pool_list := Some (d4 # ds)\<rparr>"
  then have 4: "mem_pool_list lib4 = Some (d4 # ds)" "pim_client d4 (A @ [(p2, b2), (p3, b3)])" "pim_free0 p1 lib3 = Some lib4"
    using c4 f4 by simp_all
  from free0_client [OF 4(1,2), of "length A"] obtain d5 where
    c5: "pim_client d5 (A @ [(p3, b3)])" and f5: "pim_free0 p2 lib4 = Some (lib4\<lparr>mem_pool_list := Some (d5 # ds)\<rparr>)"
    by (auto simp: nth_append)
  define lib5 where "lib5 = lib4\<lparr>mem_pool_list := Some (d5 # ds)\<rparr>"
  then have 5: "mem_pool_list lib5 = Some (d5 # ds)" "pim_client d5 (A @ [(p3, b3)])" "pim_free0 p2 lib4 = Some lib5"
    using c5 f5 by simp_all
  from free0_client [OF 5(1,2), of "length A"] obtain d6 where
    c6: "pim_client d6 (A)" and f6: "pim_free0 p3 lib5 = Some (lib5\<lparr>mem_pool_list := Some (d6 # ds)\<rparr>)"
    by (auto simp: nth_append)
  define lib6 where "lib6 = lib5\<lparr>mem_pool_list := Some (d6 # ds)\<rparr>"
  then have 6: "mem_pool_list lib6 = Some (d6 # ds)" "pim_client d6 (A)" "pim_free0 p3 lib5 = Some lib6"
    using c6 f6 by simp_all
  note va = VA2PA_Some [OF assms(1)] VA2PA_Some [OF assms(2)]
  have n: "n_batches args \<le> 1048576" by (rule n_batches_le [OF assms(3)])
  have ok: "\<not> overrun (elewise_loop (n_batches args) 0 (elewise_step k op cp pm a b c ch) (vec_init k dev (code_bytes_of args) at op isas junk))"
    for cp pm a b c ch at
    using elewise_state(1,2) [OF n, where cb = "code_bytes_of args"] assms(11) by (auto simp: overrun_def vec_fits_def)
  have "\<exists>res. elewise env ae k op args isas junk lib st = Some res \<and> ew_lib res = lib6"
    unfolding elewise_def Let_def va assms(2,8-10) using assms(3) 4(3) 5(3) 6(3) ok
    by (simp add: va assms(2,9,10) split_beta vec_init_def n_batches_def code_bytes_of_def Let_def ConfigOpAttr_snd on_dev_def)
  then show ?thesis using 6(1,2) by auto
qed

lemma chunk_not_zero:
  assumes "p * r \<noteq> 0" shows "batch_chunk_of (total_bytes p r) \<noteq> 0"
proof -
  have "unat (p * r) \<noteq> 0" using assms by (simp add: unat_eq_zero)
  moreover have "unat (p * r) < 4294967296" by (rule u32_bound)
  moreover have "unat (ucast (p * r) :: u64) = unat (p * r)" by (simp add: unat_ucast_up)
  ultimately have "unat (total_bytes p r) \<noteq> 0" by (simp add: total_bytes_def unat_word_ariths)
  then have "total_bytes p r \<noteq> 0" by (metis unat_0)
  then show ?thesis by (simp add: batch_chunk_of_def vec_consts)
qed

text \<open>A run on the demo devices, for sizes whose buffers take \<open>c\<close> and \<open>e\<close> pages.\<close>

lemma demo_elewise:
  assumes "k = 0 \<or> k = 1" "batch_chunk_of (total_bytes p r) \<noteq> 0"
    and "ISA_32_BYTES * scast (n_code_of p r) \<le> 0x200000" "nalloc_pages_for (ISA_32_BYTES * scast (n_code_of p r)) = of_nat c"
    and "ISA_BYTES * scast (n_desc_of p r) \<le> 0x200000" "nalloc_pages_for (ISA_BYTES * scast (n_desc_of p r)) = of_nat e"
    and "0 < c" "c \<le> 200" "0 < e" "e \<le> 200" "vec_fits (demo_margs p q r)"
  shows "\<exists>res d'. elewise demo_math2 demo_alloc k op (demo_margs p q r) isas junk demo_lib st = Some res
    \<and> mem_pool_list (ew_lib res) = Some [d'] \<and> pim_client d' []"
proof -
  have fit: "size_fits n" if "n \<le> 0x200000" for n
    using that by (simp add: size_fits_def word_le_nat_alt)
  have lib: "mem_pool_list demo_lib = Some [Pool_Client.demo_dev]" by (simp add: demo_lib_def)
  have huge: "n \<le> of_nat HUGE_PAGE_SIZE" if "n \<le> 0x200000" for n :: u64 using that by simp
  from bumped_malloc0 [OF bumped_start lib huge [OF assms(3)] assms(4,7), of demo_alloc] assms(8) obtain d1 a1 where
    1: "pim_malloc0 demo_alloc (ISA_32_BYTES * scast (n_code_of p r)) demo_lib = Some (demo_lib\<lparr>mem_pool_list := Some [d1]\<rparr>, a1)"
      "bumped d1 c" by auto
  from bumped_malloc0 [OF 1(2) _ huge [OF assms(5)] assms(6,9), of "demo_lib\<lparr>mem_pool_list := Some [d1]\<rparr>" demo_alloc] assms(8,10)
  obtain d2 a2 where 2: "pim_malloc0 demo_alloc (ISA_BYTES * scast (n_desc_of p r)) (demo_lib\<lparr>mem_pool_list := Some [d1]\<rparr>)
      = Some (demo_lib\<lparr>mem_pool_list := Some [d2]\<rparr>, a2)" "bumped d2 (c + e)" by auto
  have "nalloc_pages_for CL_DATA_BYTES = of_nat 2" "CL_DATA_BYTES \<le> 0x200000"
    by (simp_all add: nalloc_pages_for_def CL_DATA_BYTES_def)
  with bumped_malloc0 [OF 2(2), of "demo_lib\<lparr>mem_pool_list := Some [d2]\<rparr>" CL_DATA_BYTES 2 demo_alloc] huge assms(8,10)
  obtain d3 a3 where 3: "pim_malloc0 demo_alloc CL_DATA_BYTES (demo_lib\<lparr>mem_pool_list := Some [d2]\<rparr>)
      = Some (demo_lib\<lparr>mem_pool_list := Some [d3]\<rparr>, a3)" by auto
  have dev: "\<exists>dev. pl_dev demo_math2 k = Some dev" using assms(1) demo_math2_dev by auto
  then obtain dev where dev: "pl_dev demo_math2 k = Some dev" by blast
  show ?thesis
    by (rule elewise_run [OF demo_math2_dev(1) dev _ lib demo_client, where args = "demo_margs p q r",
        unfolded demo_margs_simps, OF assms(2) fit [OF assms(3)] fit [OF assms(5)] 1(1) 2(1) 3 assms(11)])
qed

lemma demo_sizes:
  "batch_chunk_of (total_bytes 1 4096) = 8192" "ISA_32_BYTES * scast (n_code_of 1 4096) = 1536"
  "ISA_BYTES * scast (n_desc_of 1 4096) = 384" "n_batches (demo_margs 1 1 4096) = 1"
  "batch_chunk_of (total_bytes 4 4095) = 8192" "ISA_32_BYTES * scast (n_code_of 4 4095) = 0"
  "ISA_BYTES * scast (n_desc_of 4 4095) = 0"
  by (simp_all add: batch_chunk_of_def total_bytes_def n_code_of_def n_desc_of_def vec_r_loop_var_def n_batches_def
      vec_consts Let_def)

lemma demo_elewise1:
  "k = 0 \<or> k = 1 \<Longrightarrow> \<exists>res d'. elewise demo_math2 demo_alloc k op (demo_margs 1 1 4096) isas junk demo_lib st = Some res
    \<and> mem_pool_list (ew_lib res) = Some [d'] \<and> pim_client d' []"
  by (rule demo_elewise [where c = 2 and e = 2])
    (simp_all add: demo_sizes nalloc_pages_for_def vec_fits_def code_bytes_of_def alloc_room_def ISA_ENTRIES_def)





lemma total_nat:
  assumes "unat p * unat r < 2 ^ 32" shows "unat (total_bytes p r) = 2 * (unat p * unat r)"
proof -
  have "unat (ucast (p * r) :: u64) = unat p * unat r"
    using assms by (simp add: unat_ucast_up unat_word_ariths)
  then show ?thesis using assms by (simp add: total_bytes_def unat_word_ariths)
qed

lemma n_batches_nat:
  assumes "unat (p_size args) * unat (r_size args) < 2 ^ 32"
    and "batch_chunk_of (total_bytes (p_size args) (r_size args)) \<noteq> 0"
  shows "0 < unat (p_size args) * unat (r_size args) \<and> n_batches args =
    (if unat (p_size args) * unat (r_size args) < 4096 then 1 else unat (p_size args) * unat (r_size args) div 4096)"
proof -
  let ?t = "total_bytes (p_size args) (r_size args)" and ?n = "unat (p_size args) * unat (r_size args)"
  note t = total_nat [OF assms(1)]
  show ?thesis
  proof (cases "?t < 8192")
    case True
    then have c: "batch_chunk_of ?t = ?t" by (simp add: batch_chunk_of_def vec_consts)
    then have nz: "unat ?t \<noteq> 0" using assms(2) by (simp add: unat_eq_zero)
    have "?n < 4096" using True t by (simp add: word_less_nat_alt)
    moreover have "n_batches args = 1" unfolding n_batches_def Let_def c using nz by (simp add: unat_div)
    moreover have "0 < ?n" using nz t by linarith
    ultimately show ?thesis by simp
  next
    case False
    then have "n_batches args = unat ?t div 8192"
      by (simp add: n_batches_def Let_def batch_chunk_of_def vec_consts unat_div)
    moreover have ge: "4096 \<le> ?n" using False t by (simp add: word_less_nat_alt)
    moreover have "0 < ?n" using ge by (rule less_le_trans [rotated]) simp
    ultimately show ?thesis unfolding t by simp
  qed
qed

lemma vec_r_loop_var_nat: "unat (vec_r_loop_var r) = unat r div 4096"
proof -
  have r: "unat r < 4294967296" by (rule u32_bound)
  then have "unat r * 2 < 18446744073709551616" by linarith
  then have "unat (ucast r * 2 :: u64) = 2 * unat r" by (simp add: unat_word_ariths mod_less)
  then have "unat (ucast r * 2 div 8192 :: u64) = unat r div 4096" by (simp add: unat_div)
  moreover have "unat r div 4096 < 2 ^ 32" using r by (rule less_mult_imp_div_less [OF less_trans]) simp
  ultimately show ?thesis
    by (simp only: vec_r_loop_var_def unsigned_ucast_eq) (simp add: take_bit_nat_eq_self)
qed

lemma scast_unat_small:
  assumes "unat (w :: u32) < 2 ^ 31" shows "unat (scast w :: u64) = unat w"
proof -
  have "scast w = (of_nat (unat w) :: u64)" using scast_small_u32 [OF assms] by simp
  then show ?thesis using assms by (simp add: unat_of_nat_u64)
qed

lemma code_request:
  assumes "unat p * unat r < 2 ^ 32"
  shows "unat (ISA_32_BYTES * scast (n_code_of p r)) = 32 * (48 * (unat p * (unat r div 4096)))"
proof -
  have le: "unat p * (unat r div 4096) \<le> 1048576"
  proof -
    have "unat p * (unat r div 4096) * 4096 \<le> unat p * unat r" by (simp add: mult.assoc)
    moreover have "x \<le> 1048576" if "x * 4096 \<le> y" "y < 2 ^ 32" for x y :: nat using that by simp
    ultimately show ?thesis using assms by blast
  qed
  have "unat (p * vec_r_loop_var r) = unat p * (unat r div 4096)"
    using le by (simp add: unat_word_ariths vec_r_loop_var_nat)
  then have n: "unat (n_code_of p r) = unat p * (unat r div 4096) * 48"
    unfolding n_code_of_def CH_NUM_def using le by (simp add: unat_word_ariths)
  have "unat (scast (n_code_of p r) :: u64) = unat p * (unat r div 4096) * 48"
    using n le by (simp add: scast_unat_small)
  then show ?thesis using le by (simp add: ISA_32_BYTES_def unat_word_ariths)
qed

lemma round_up: "0 < k \<Longrightarrow> (n :: nat) \<le> k * (n div k) + (if n mod k = 0 then 0 else k)"
proof -
  assume "0 < k"
  then have l: "n mod k < k" by simp
  have e: "k * (n div k) + n mod k = n" by (rule mult_div_mod_eq)
  show ?thesis
  proof (cases "n mod k = 0")
    case True
    then show ?thesis using e by simp
  next
    case False
    from add_left_mono [OF less_imp_le [OF l], of "k * (n div k)", unfolded e] show ?thesis using False by simp
  qed
qed

lemma alloc_room_enough:
  assumes "unat sz < 2 ^ 31" shows "unat sz \<le> alloc_room sz"
proof -
  show ?thesis
  proof (cases "sz > of_nat HUGE_PAGE_SIZE")
    case True
    have "unat (num_pools_for sz) = unat sz div 2097152 + (if unat sz mod 2097152 \<noteq> 0 then 1 else 0)"
      using assms by (simp add: num_pools_for_def Let_def unsigned_ucast_eq take_bit_nat_eq_self unat_word_ariths unat_div unat_mod unat_eq_zero [symmetric])
    then show ?thesis using True round_up [of 2097152 "unat sz"]
      by (simp add: alloc_room_def split: if_splits)
  next
    case False
    have "unat (nalloc_pages_for sz) = (if unat sz div 4096 \<noteq> 0 then unat sz div 4096 else 1) + (if unat sz mod 4096 \<noteq> 0 then 1 else 0)"
      using assms by (simp add: nalloc_pages_for_def Let_def unsigned_ucast_eq take_bit_nat_eq_self unat_word_ariths unat_div unat_mod unat_eq_zero [symmetric])
    then show ?thesis using False round_up [of 4096 "unat sz"]
      by (simp add: alloc_room_def split: if_splits)
  qed
qed

text \<open>
  Claim C34: let the number of elements be neither 0 nor \<open>2 ^ 32\<close> or more. When the rows are a multiple of
  4096 elements, the channel instructions fit the code buffer that an element-wise operation requests. When the rows are shorter than 4096
  elements it requests 0 bytes, for which the allocator gives one page, and from three batches on the
  operation writes past it: it never returns normally.
\<close>

theorem elewise_code_fits:
  assumes "unat (p_size args) * unat (r_size args) < 2 ^ 32" "p_size args * r_size args \<noteq> 0"
  shows "(4096 dvd unat (r_size args) \<longrightarrow> 48 * n_batches args \<le> alloc_room (code_bytes_of args) div 32)
    \<and> (r_size args < 4096 \<and> 3 * 4096 \<le> unat (p_size args) * unat (r_size args) \<longrightarrow>
        elewise env ae k op args isas junk lib st = None)"
proof -
  let ?P = "unat (p_size args)" and ?R = "unat (r_size args)"
  note c = chunk_not_zero [OF assms(2)]
  note nb = n_batches_nat [OF assms(1) c]
  have fits: "unat (code_bytes_of args) = 32 * (48 * (?P * (?R div 4096)))"
    unfolding code_bytes_of_def by (rule code_request [OF assms(1)])
  show ?thesis
  proof (intro conjI impI)
    assume "4096 dvd ?R"
    then obtain m where m: "?R = 4096 * m" by blast
    have "\<not> ?P * ?R < 4096" using m nb by (cases "?P * m") auto
    then have n: "n_batches args = ?P * m" using nb m by simp
    have u: "unat (code_bytes_of args) = 32 * (48 * n_batches args)" unfolding fits using m n by simp
    then have "unat (code_bytes_of args) < 2 ^ 31" using n_batches_le [OF c] by simp
    from div_le_mono [OF alloc_room_enough [OF this], of 32]
    show "48 * n_batches args \<le> alloc_room (code_bytes_of args) div 32" unfolding u by simp
  next
    assume h: "r_size args < 4096 \<and> 3 * 4096 \<le> ?P * ?R"
    then have "?R < 4096" by (simp add: word_less_nat_alt)
    then have "unat (code_bytes_of args) = 0" unfolding fits by simp
    then have "code_bytes_of args = 0" by (simp only: unat_eq_zero)
    then have room: "alloc_room (code_bytes_of args) div 32 = 128" by (simp add: alloc_room_def nalloc_pages_for_def Let_def)
    have "\<not> ?P * ?R < 4096" using h by simp
    then have "n_batches args = ?P * ?R div 4096" using nb by simp
    then have n3: "3 \<le> n_batches args" using h div_le_mono [of "3 * 4096" "?P * ?R" 4096] by simp
    show "elewise env ae k op args isas junk lib st = None"
    proof (rule ccontr)
      assume "elewise env ae k op args isas junk lib st \<noteq> None"
      then obtain res where "elewise env ae k op args isas junk lib st = Some res" by auto
      from elewise_SomeD [OF this] obtain dev cp pm a b c ch at where
        "ew_state res = elewise_loop (n_batches args) 0 (elewise_step k op cp pm a b c ch) (vec_init k dev (code_bytes_of args) at op isas junk)"
        "\<not> overrun (ew_state res)" by metis
      then have "\<not> alloc_room (code_bytes_of args) div 32 < 48 * n_batches args"
        using elewise_state(1) [OF n_batches_le [OF c], where cb = "code_bytes_of args"] by (simp add: overrun_def)
      then show False using room n3 by simp
    qed
  qed
qed

theorem elewise_code_fits_witness:
  "n_batches (demo_margs 1 1 4096) = 1 \<and> 48 \<le> alloc_room (code_bytes_of (demo_margs 1 1 4096)) div 32
    \<and> elewise demo_math2 demo_alloc 0 OPCODE_ELE_ADD (demo_margs 4 1 4095) (\<lambda>_. Map.empty) Map.empty demo_lib demo_pl = None"
  using elewise_code_fits [of "demo_margs 1 1 4096"] elewise_code_fits [of "demo_margs 4 1 4095"] by (simp add: demo_sizes)

lemma on_dev_put_desc_other:
  "j \<noteq> vec_idx s \<Longrightarrow> lists (on_dev d (put_desc src dst n op) s) d j = lists s d j"
  by (simp add: on_dev_def view_def put_desc_def Let_def)

lemma elewise_step_other:
  assumes "k \<noteq> 0" "j \<noteq> vec_idx s + 2" "j \<noteq> vec_idx s + 3"
  shows "lists (elewise_step k op cp pm a b c ch i s) k j = lists s k j"
    and "vec_idx (elewise_step k op cp pm a b c ch i s) = vec_idx s + 6"
  using assms by (simp_all add: elewise_step_def Let_def Config_put puts_eq add.assoc on_dev_other on_dev_put_desc_other)

text \<open>
  On any other device the kernel leaves gaps: of the six descriptors of a batch it
  writes four into the list of device 0, whatever the device. The list that the engine of the
  device then runs over has old content there.
\<close>

theorem elewise_other_device_gaps:
  assumes "elewise env ae k op args isas junk lib st = Some res" "k \<noteq> 0" "i < n_batches args" "j \<in> {1, 2, 5, 6}"
  shows "lists (ew_state res) k (of_nat (6 * i + j)) = isas k (of_nat (6 * i + j))
    \<and> vec_idx (ew_state res) = of_nat (1 + 6 * n_batches args)"
proof -
  from elewise_SomeD [OF assms(1)] obtain dev cp pm a b c ch cb at where
    cn: "batch_chunk_of (total_bytes (p_size args) (r_size args)) \<noteq> 0"
    and s: "ew_state res = elewise_loop (n_batches args) 0 (elewise_step k op cp pm a b c ch) (vec_init k dev cb at op isas junk)" by metis
  have n: "n_batches args \<le> 1048576" using n_batches_le [OF cn] .
  let ?x = "of_nat (6 * i + j) :: u32"
  let ?I = "\<lambda>m (s :: vec_state). lists s k ?x = isas k ?x \<and> vec_idx s = of_nat (1 + 6 * m)"
  have x: "unat ?x = 6 * i + j" using n assms(3,4) by (intro unat_of_nat_u32) auto
  have "?I (0 + n_batches args) (elewise_loop (n_batches args) 0 (elewise_step k op cp pm a b c ch) (vec_init k dev cb at op isas junk))"
  proof (rule elewise_loop_invariant [where I = ?I])
    fix m and s :: vec_state assume m: "m < 0 + n_batches args" and I: "?I m s"
    have u: "unat (of_nat (3 + 6 * m) :: u32) = 3 + 6 * m" "unat (of_nat (4 + 6 * m) :: u32) = 4 + 6 * m"
      using m n by (intro unat_of_nat_u32, simp)+
    have "6 * i + j \<noteq> 3 + 6 * m" "6 * i + j \<noteq> 4 + 6 * m" using assms(4) by (auto; presburger)+
    then have ne: "?x \<noteq> of_nat (3 + 6 * m)" "?x \<noteq> of_nat (4 + 6 * m)" using x u by metis+
    have "vec_idx s + 2 = of_nat (3 + 6 * m)" "vec_idx s + 3 = of_nat (4 + 6 * m)" using I by simp_all
    with ne have "?x \<noteq> vec_idx s + 2" "?x \<noteq> vec_idx s + 3" by metis+
    from elewise_step_other [OF assms(2) this] I
    show "?I (Suc m) (elewise_step k op cp pm a b c ch (of_nat m) s)" by (simp add: algebra_simps)
  next
    have "?x \<noteq> 0" using x assms(4) by (metis (no_types) unat_0 add_is_0 insertE singletonD empty_iff zero_neq_one zero_neq_numeral)
    then show "?I 0 (vec_init k dev cb at op isas junk)"
      by (simp add: vec_init_def on_dev_put_desc_other del: of_nat_add of_nat_mult)
  qed
  then show ?thesis unfolding s by simp
qed

theorem elewise_other_device_gaps_witness:
  "\<exists>res. elewise demo_math2 demo_alloc 1 OPCODE_ELE_ADD (demo_margs 1 1 4096) (\<lambda>_. Map.empty) Map.empty demo_lib demo_pl = Some res
    \<and> lists (ew_state res) 1 1 = None \<and> vec_idx (ew_state res) = 7"
proof -
  obtain res where r: "elewise demo_math2 demo_alloc 1 OPCODE_ELE_ADD (demo_margs 1 1 4096) (\<lambda>_. Map.empty) Map.empty demo_lib demo_pl = Some res"
    using demo_elewise1 by blast
  from elewise_other_device_gaps [OF r, of 0 1] r show ?thesis by (simp add: demo_sizes)
qed

text \<open>
  A bias operation returns and hands over three linked instructions per row of the bias
  and block of 4096 columns.
\<close>

theorem bias_hands_over:
  assumes "pl_dev env d = Some dev" "unat (r_size args) + 4096 \<le> 2 ^ 32"
    and "n = trips 4096 (r_size args) * (unat (q_size args) * 3)" "n \<le> ISA_ENTRIES"
  shows "handed_over env d args n st (bias_op env d op args isa0 st)"
proof -
  have body: "grown ba ds 3 (bias_q env d op args r q s)"
    if "chained ba ds s" "length ds + 3 < 2 ^ 32" for ba ds r q s
  proof -
    note h = that
    obtain a A where "seek_abs env d (srcA_va args) (r * TYPE_SIZE) (A_base s) = Some (a, A)"
      using seek_abs_some [OF assms(1)] by blast
    moreover obtain b B where "seek_abs env d (srcB_va args) (q * r_size args * TYPE_SIZE + r * TYPE_SIZE) (B_base s) = Some (b, B)"
      using seek_abs_some [OF assms(1)] by blast
    moreover obtain c C where "seek_abs env d (dstC_va args) (q * r_size args * TYPE_SIZE + r * TYPE_SIZE) (C_base s) = Some (c, C)"
      using seek_abs_some [OF assms(1)] by blast
    ultimately show ?thesis unfolding bias_q_def instr_puts Let_def using h by (simp add: grown_put3)
  qed
  have st: "REG_SIZE * NUM_BANKS = 4096" by (simp add: isa_consts)
  have n32: "n < 2 ^ 32" using assms(4) by (simp add: ISA_ENTRIES_def)
  have "grown (ucast (dev_desc_base dev)) [] (trips 4096 (r_size args) * (trips 1 (q_size args) * 3))
      (u32_for 4096 0 (r_size args) (\<lambda>r. u32_for 1 0 (q_size args) (bias_q env d op args r)) (mm_start dev isa0))"
    by (rule p_loop_grown [OF body _ _ _ step1 chained_mm_start]) (use assms(2,3) n32 in simp_all)
  from grown_handed_over [OF assms(1) this] show ?thesis
    using assms(3,4) by (simp add: bias_op_def assms(1) st)
qed

theorem bias_hands_over_witness:
  "handed_over demo_math2 1 (demo_margs 1 2 4097) 12 demo_pl (bias_op demo_math2 1 OPCODE_ELE_ADD (demo_margs 1 2 4097) Map.empty demo_pl)"
  by (rule bias_hands_over [OF demo_math2_dev(2)]) (simp_all add: trips_def ISA_ENTRIES_def)

end
