(* ===== verification/Xnl_Client.thy ===== *)
theory Xnl_Client
  imports Pim_Prelude
begin

text \<open>
  The library's side of the QDMA control channel: \<^verbatim>\<open>src/qdma_src/dmactl.c\<close> and its headers
  \<^verbatim>\<open>qdma_nl.h\<close> and \<^verbatim>\<open>dmautils.h\<close>. A command becomes a generic-netlink message, a header of 20 bytes
  and a sequence of attributes; the reply is walked attribute by attribute.

  A message buffer is its list of bytes, in the byte order of the machine (little endian). Reading
  or writing past it is \<open>Overrun\<close>. What the system calls and \<^verbatim>\<open>malloc\<close> answer, and how they change the
  kernel, is the record \<open>nl_env\<close> over a kernel state of type \<open>'k\<close>. Texts of the log are not modelled,
  apart from those a reply carries for \<^verbatim>\<open>log_msg_dump\<close>.
\<close>

section \<open>Bytes\<close>

type_synonym byte = "8 word"

definition le :: "nat \<Rightarrow> 'a::len word \<Rightarrow> byte list" where
  "le n w = map (\<lambda>i. ucast (drop_bit (8 * i) w)) [0..<n]"

fun le_word :: "byte list \<Rightarrow> 'a::len word" where
  "le_word [] = 0"
| "le_word (b # bs) = ucast b OR push_bit 8 (le_word bs)"

definition get16 :: "nat \<Rightarrow> byte list \<Rightarrow> u16" where
  "get16 p buf = le_word (take 2 (drop p buf))"

definition get32 :: "nat \<Rightarrow> byte list \<Rightarrow> u32" where
  "get32 p buf = le_word (take 4 (drop p buf))"

definition put :: "nat \<Rightarrow> byte list \<Rightarrow> byte list \<Rightarrow> byte list" where
  "put p bs buf = take p buf @ bs @ drop (p + length bs) buf"

section \<open>Commands\<close>

text \<open>\<^verbatim>\<open>enum xnl_op_t\<close> and \<^verbatim>\<open>enum xnl_attr_t\<close>, without \<^verbatim>\<open>ERR_DEBUG\<close>.\<close>

datatype xnl_op_t =
    XNL_CMD_DEV_LIST | XNL_CMD_DEV_INFO | XNL_CMD_DEV_STAT | XNL_CMD_DEV_STAT_CLEAR
  | XNL_CMD_REG_DUMP | XNL_CMD_REG_RD | XNL_CMD_REG_WRT | XNL_CMD_REG_INFO_READ | XNL_CMD_Q_LIST
  | XNL_CMD_Q_ADD | XNL_CMD_Q_START | XNL_CMD_Q_STOP | XNL_CMD_Q_DEL | XNL_CMD_Q_DUMP
  | XNL_CMD_Q_DESC | XNL_CMD_Q_CMPT | XNL_CMD_Q_RX_PKT | XNL_CMD_Q_CMPT_READ
  | XNL_CMD_INTR_RING_DUMP | XNL_CMD_Q_UDD | XNL_CMD_GLOBAL_CSR | XNL_CMD_DEV_CAP
  | XNL_CMD_GET_Q_STATE

primrec op_no :: "xnl_op_t \<Rightarrow> nat" where
  "op_no XNL_CMD_DEV_LIST = 0"
| "op_no XNL_CMD_DEV_INFO = 1"
| "op_no XNL_CMD_DEV_STAT = 2"
| "op_no XNL_CMD_DEV_STAT_CLEAR = 3"
| "op_no XNL_CMD_REG_DUMP = 4"
| "op_no XNL_CMD_REG_RD = 5"
| "op_no XNL_CMD_REG_WRT = 6"
| "op_no XNL_CMD_REG_INFO_READ = 7"
| "op_no XNL_CMD_Q_LIST = 8"
| "op_no XNL_CMD_Q_ADD = 9"
| "op_no XNL_CMD_Q_START = 10"
| "op_no XNL_CMD_Q_STOP = 11"
| "op_no XNL_CMD_Q_DEL = 12"
| "op_no XNL_CMD_Q_DUMP = 13"
| "op_no XNL_CMD_Q_DESC = 14"
| "op_no XNL_CMD_Q_CMPT = 15"
| "op_no XNL_CMD_Q_RX_PKT = 16"
| "op_no XNL_CMD_Q_CMPT_READ = 17"
| "op_no XNL_CMD_INTR_RING_DUMP = 18"
| "op_no XNL_CMD_Q_UDD = 19"
| "op_no XNL_CMD_GLOBAL_CSR = 20"
| "op_no XNL_CMD_DEV_CAP = 21"
| "op_no XNL_CMD_GET_Q_STATE = 22"

datatype (plugins only: size) xnl_attr_t =
    XNL_ATTR_GENMSG | XNL_ATTR_DRV_INFO | XNL_ATTR_DEV_IDX | XNL_ATTR_PCI_BUS | XNL_ATTR_PCI_DEV
  | XNL_ATTR_PCI_FUNC | XNL_ATTR_DEV_STAT_MMH2C_PKTS1 | XNL_ATTR_DEV_STAT_MMH2C_PKTS2
  | XNL_ATTR_DEV_STAT_MMC2H_PKTS1 | XNL_ATTR_DEV_STAT_MMC2H_PKTS2 | XNL_ATTR_DEV_STAT_STH2C_PKTS1
  | XNL_ATTR_DEV_STAT_STH2C_PKTS2 | XNL_ATTR_DEV_STAT_STC2H_PKTS1 | XNL_ATTR_DEV_STAT_STC2H_PKTS2
  | XNL_ATTR_DEV_CFG_BAR | XNL_ATTR_DEV_USR_BAR | XNL_ATTR_DEV_QSET_MAX | XNL_ATTR_DEV_QSET_QBASE
  | XNL_ATTR_VERSION_INFO | XNL_ATTR_DEVICE_TYPE | XNL_ATTR_IP_TYPE | XNL_ATTR_DEV_NUMQS
  | XNL_ATTR_DEV_NUM_PFS | XNL_ATTR_DEV_MM_CHANNEL_MAX | XNL_ATTR_DEV_MAILBOX_ENABLE
  | XNL_ATTR_DEV_FLR_PRESENT | XNL_ATTR_DEV_ST_ENABLE | XNL_ATTR_DEV_MM_ENABLE
  | XNL_ATTR_DEV_MM_CMPT_ENABLE | XNL_ATTR_REG_BAR_NUM | XNL_ATTR_REG_ADDR | XNL_ATTR_REG_VAL
  | XNL_ATTR_CSR_INDEX | XNL_ATTR_CSR_COUNT | XNL_ATTR_QIDX | XNL_ATTR_NUM_Q | XNL_ATTR_QFLAG
  | XNL_ATTR_CMPT_DESC_SIZE | XNL_ATTR_SW_DESC_SIZE | XNL_ATTR_QRNGSZ_IDX | XNL_ATTR_C2H_BUFSZ_IDX
  | XNL_ATTR_CMPT_TIMER_IDX | XNL_ATTR_CMPT_CNTR_IDX | XNL_ATTR_CMPT_TRIG_MODE | XNL_ATTR_MM_CHANNEL
  | XNL_ATTR_CMPT_ENTRIES_CNT | XNL_ATTR_RANGE_START | XNL_ATTR_RANGE_END | XNL_ATTR_INTR_VECTOR_IDX
  | XNL_ATTR_INTR_VECTOR_START_IDX | XNL_ATTR_INTR_VECTOR_END_IDX | XNL_ATTR_RSP_BUF_LEN
  | XNL_ATTR_GLOBAL_CSR | XNL_ATTR_PIPE_GL_MAX | XNL_ATTR_PIPE_FLOW_ID | XNL_ATTR_PIPE_SLR_ID
  | XNL_ATTR_PIPE_TDEST | XNL_ATTR_DEV_STM_BAR | XNL_ATTR_Q_STATE | XNL_ATTR_ERROR
  | XNL_ATTR_PING_PONG_EN | XNL_ATTR_APERTURE_SZ | XNL_ATTR_DEV_STAT_PING_PONG_LATMIN1
  | XNL_ATTR_DEV_STAT_PING_PONG_LATMIN2 | XNL_ATTR_DEV_STAT_PING_PONG_LATMAX1
  | XNL_ATTR_DEV_STAT_PING_PONG_LATMAX2 | XNL_ATTR_DEV_STAT_PING_PONG_LATAVG1
  | XNL_ATTR_DEV_STAT_PING_PONG_LATAVG2 | XNL_ATTR_DEV | XNL_ATTR_DEBUG_EN
  | XNL_ATTR_DESC_ENGINE_MODE | XNL_ATTR_NUM_REGS

primrec attr_no :: "xnl_attr_t \<Rightarrow> nat" where
  "attr_no XNL_ATTR_GENMSG = 0"
| "attr_no XNL_ATTR_DRV_INFO = 1"
| "attr_no XNL_ATTR_DEV_IDX = 2"
| "attr_no XNL_ATTR_PCI_BUS = 3"
| "attr_no XNL_ATTR_PCI_DEV = 4"
| "attr_no XNL_ATTR_PCI_FUNC = 5"
| "attr_no XNL_ATTR_DEV_STAT_MMH2C_PKTS1 = 6"
| "attr_no XNL_ATTR_DEV_STAT_MMH2C_PKTS2 = 7"
| "attr_no XNL_ATTR_DEV_STAT_MMC2H_PKTS1 = 8"
| "attr_no XNL_ATTR_DEV_STAT_MMC2H_PKTS2 = 9"
| "attr_no XNL_ATTR_DEV_STAT_STH2C_PKTS1 = 10"
| "attr_no XNL_ATTR_DEV_STAT_STH2C_PKTS2 = 11"
| "attr_no XNL_ATTR_DEV_STAT_STC2H_PKTS1 = 12"
| "attr_no XNL_ATTR_DEV_STAT_STC2H_PKTS2 = 13"
| "attr_no XNL_ATTR_DEV_CFG_BAR = 14"
| "attr_no XNL_ATTR_DEV_USR_BAR = 15"
| "attr_no XNL_ATTR_DEV_QSET_MAX = 16"
| "attr_no XNL_ATTR_DEV_QSET_QBASE = 17"
| "attr_no XNL_ATTR_VERSION_INFO = 18"
| "attr_no XNL_ATTR_DEVICE_TYPE = 19"
| "attr_no XNL_ATTR_IP_TYPE = 20"
| "attr_no XNL_ATTR_DEV_NUMQS = 21"
| "attr_no XNL_ATTR_DEV_NUM_PFS = 22"
| "attr_no XNL_ATTR_DEV_MM_CHANNEL_MAX = 23"
| "attr_no XNL_ATTR_DEV_MAILBOX_ENABLE = 24"
| "attr_no XNL_ATTR_DEV_FLR_PRESENT = 25"
| "attr_no XNL_ATTR_DEV_ST_ENABLE = 26"
| "attr_no XNL_ATTR_DEV_MM_ENABLE = 27"
| "attr_no XNL_ATTR_DEV_MM_CMPT_ENABLE = 28"
| "attr_no XNL_ATTR_REG_BAR_NUM = 29"
| "attr_no XNL_ATTR_REG_ADDR = 30"
| "attr_no XNL_ATTR_REG_VAL = 31"
| "attr_no XNL_ATTR_CSR_INDEX = 32"
| "attr_no XNL_ATTR_CSR_COUNT = 33"
| "attr_no XNL_ATTR_QIDX = 34"
| "attr_no XNL_ATTR_NUM_Q = 35"
| "attr_no XNL_ATTR_QFLAG = 36"
| "attr_no XNL_ATTR_CMPT_DESC_SIZE = 37"
| "attr_no XNL_ATTR_SW_DESC_SIZE = 38"
| "attr_no XNL_ATTR_QRNGSZ_IDX = 39"
| "attr_no XNL_ATTR_C2H_BUFSZ_IDX = 40"
| "attr_no XNL_ATTR_CMPT_TIMER_IDX = 41"
| "attr_no XNL_ATTR_CMPT_CNTR_IDX = 42"
| "attr_no XNL_ATTR_CMPT_TRIG_MODE = 43"
| "attr_no XNL_ATTR_MM_CHANNEL = 44"
| "attr_no XNL_ATTR_CMPT_ENTRIES_CNT = 45"
| "attr_no XNL_ATTR_RANGE_START = 46"
| "attr_no XNL_ATTR_RANGE_END = 47"
| "attr_no XNL_ATTR_INTR_VECTOR_IDX = 48"
| "attr_no XNL_ATTR_INTR_VECTOR_START_IDX = 49"
| "attr_no XNL_ATTR_INTR_VECTOR_END_IDX = 50"
| "attr_no XNL_ATTR_RSP_BUF_LEN = 51"
| "attr_no XNL_ATTR_GLOBAL_CSR = 52"
| "attr_no XNL_ATTR_PIPE_GL_MAX = 53"
| "attr_no XNL_ATTR_PIPE_FLOW_ID = 54"
| "attr_no XNL_ATTR_PIPE_SLR_ID = 55"
| "attr_no XNL_ATTR_PIPE_TDEST = 56"
| "attr_no XNL_ATTR_DEV_STM_BAR = 57"
| "attr_no XNL_ATTR_Q_STATE = 58"
| "attr_no XNL_ATTR_ERROR = 59"
| "attr_no XNL_ATTR_PING_PONG_EN = 60"
| "attr_no XNL_ATTR_APERTURE_SZ = 61"
| "attr_no XNL_ATTR_DEV_STAT_PING_PONG_LATMIN1 = 62"
| "attr_no XNL_ATTR_DEV_STAT_PING_PONG_LATMIN2 = 63"
| "attr_no XNL_ATTR_DEV_STAT_PING_PONG_LATMAX1 = 64"
| "attr_no XNL_ATTR_DEV_STAT_PING_PONG_LATMAX2 = 65"
| "attr_no XNL_ATTR_DEV_STAT_PING_PONG_LATAVG1 = 66"
| "attr_no XNL_ATTR_DEV_STAT_PING_PONG_LATAVG2 = 67"
| "attr_no XNL_ATTR_DEV = 68"
| "attr_no XNL_ATTR_DEBUG_EN = 69"
| "attr_no XNL_ATTR_DESC_ENGINE_MODE = 70"
| "attr_no XNL_ATTR_NUM_REGS = 71"

abbreviation (input) EINVAL :: int where "EINVAL \<equiv> 22"

abbreviation (input) XNL_ATTR_MAX :: nat where "XNL_ATTR_MAX \<equiv> 72"

definition XNL_RESP_BUFLEN_MIN :: int where "XNL_RESP_BUFLEN_MIN = 256"
definition XNL_RESP_BUFLEN_MAX :: int where "XNL_RESP_BUFLEN_MAX = 20480"
definition MAX_KMALLOC_SIZE :: int where "MAX_KMALLOC_SIZE = 4194304"

definition XNL_F_QMODE_ST :: u32 where "XNL_F_QMODE_ST = 0x1"
definition XNL_F_QMODE_MM :: u32 where "XNL_F_QMODE_MM = 0x2"
definition XNL_F_QDIR_H2C :: u32 where "XNL_F_QDIR_H2C = 0x4"
definition XNL_F_QDIR_C2H :: u32 where "XNL_F_QDIR_C2H = 0x8"
definition XNL_F_QDIR_BOTH :: u32 where "XNL_F_QDIR_BOTH = XNL_F_QDIR_H2C OR XNL_F_QDIR_C2H"
definition XNL_F_FETCH_CREDIT :: u32 where "XNL_F_FETCH_CREDIT = 0x40"

text \<open>
  The union \<^verbatim>\<open>req\<close> of a command: the words of \<^verbatim>\<open>xcmd_q_parm\<close>, which the other members share.
\<close>

record xcmd_q_parm =
  sflags :: u32
  qp_flags :: u32
  qp_idx :: u32
  num_q :: u32
  range_start :: u32
  range_end :: u32
  sw_desc_sz :: byte
  cmpt_entry_size :: byte
  qrngsz_idx :: byte
  c2h_bufsz_idx :: byte
  cmpt_tmr_idx :: byte
  cmpt_cntr_idx :: byte
  cmpt_trig_mode :: byte
  mm_channel :: byte
  fetch_credit :: byte
  ping_pong_en :: byte
  aperture_sz :: u32

abbreviation (input) intr_vector :: "xcmd_q_parm \<Rightarrow> u32" where "intr_vector \<equiv> sflags"
abbreviation (input) intr_start_idx :: "xcmd_q_parm \<Rightarrow> u32" where "intr_start_idx \<equiv> qp_flags"
abbreviation (input) intr_end_idx :: "xcmd_q_parm \<Rightarrow> u32" where "intr_end_idx \<equiv> qp_idx"
abbreviation (input) reg_bar :: "xcmd_q_parm \<Rightarrow> u32" where "reg_bar \<equiv> qp_flags"
abbreviation (input) reg_reg :: "xcmd_q_parm \<Rightarrow> u32" where "reg_reg \<equiv> qp_idx"
abbreviation (input) reg_val :: "xcmd_q_parm \<Rightarrow> u32" where "reg_val \<equiv> num_q"
abbreviation (input) reg_range_end :: "xcmd_q_parm \<Rightarrow> u32" where "reg_range_end \<equiv> range_end"

record xnl_dev_info =
  di_pci_bus :: byte
  di_pci_dev :: byte
  dev_func :: byte
  config_bar :: byte
  user_bar :: byte
  di_qmax :: u32
  di_qbase :: u32

record xnl_dev_stat =
  mm_h2c_pkts :: u64
  mm_c2h_pkts :: u64
  st_h2c_pkts :: u64
  st_c2h_pkts :: u64
  ping_pong_lat_max :: u64
  ping_pong_lat_min :: u64
  ping_pong_lat_avg :: u64

record xcmd_dev_cap =
  version_str :: "byte list"
  num_qs :: u32
  num_pfs :: u32
  flr_present :: u32
  mm_en :: u32
  mm_cmpt_en :: u32
  st_en :: u32
  mailbox_en :: u32
  mm_channel_max :: u32
  debug_mode :: u32
  desc_eng_mode :: u32

record xnl_q_info =
  qi_flags :: u32
  qi_qidx :: u32
  qi_state :: u32

text \<open>The union \<^verbatim>\<open>resp\<close>: cleared, or the member that was written last.\<close>

datatype xcmd_resp = No_Resp | Dev_Cap xcmd_dev_cap | Dev_Stat xnl_dev_stat | Dev_Info xnl_dev_info
  | Q_Info xnl_q_info | Csr "byte list"

record xcmd_info =
  vf :: bool
  xop :: xnl_op_t
  req :: xcmd_q_parm
  resp :: xcmd_resp
  if_bdf :: u32
  dumps :: bool

section \<open>Building a message\<close>

datatype nl_crash = Overrun | Null_Deref | Endless

text \<open>\<^verbatim>\<open>malloc\<close> and \<^verbatim>\<open>memset\<close> of a message with room for \<open>dlen\<close> bytes of attributes, or for all of them.\<close>

definition xnl_msg_size :: "u32 \<Rightarrow> nat" where
  "xnl_msg_size dlen = 20 + (if dlen \<noteq> 0 then unat dlen else XNL_ATTR_MAX * 8)"

definition xnl_msg_set_hdr :: "u32 \<Rightarrow> u16 \<Rightarrow> xnl_op_t \<Rightarrow> byte list \<Rightarrow> byte list" where
  "xnl_msg_set_hdr pid family op buf =
     put 16 [of_nat (op_no op)] (put 12 (le 4 pid) (put 6 (le 2 (1 :: u16)) (put 4 (le 2 family) (put 0 (le 4 (20 :: u32)) buf))))"

definition xnl_msg_add_int_attr :: "xnl_attr_t \<Rightarrow> u32 \<Rightarrow> byte list \<Rightarrow> nl_crash + byte list" where
  "xnl_msg_add_int_attr t v buf =
     (let p = unat (get32 0 buf)
      in if length buf < p + 8 then Inl Overrun
         else Inr (put 0 (le 4 (get32 0 buf + 8))
                (put p (le 2 (8 :: u16) @ le 2 (of_nat (attr_no t) :: u16) @ le 4 v) buf)))"

fun add_attrs :: "(xnl_attr_t \<times> u32) list \<Rightarrow> byte list \<Rightarrow> nl_crash + byte list" where
  "add_attrs [] buf = Inr buf"
| "add_attrs ((t, v) # as) buf =
     (case xnl_msg_add_int_attr t v buf of Inl c \<Rightarrow> Inl c | Inr buf1 \<Rightarrow> add_attrs as buf1)"

text \<open>The calls of \<^verbatim>\<open>xnl_msg_add_int_attr\<close> a command makes, in their order.\<close>

definition opt_attr :: "u32 \<Rightarrow> nat \<Rightarrow> xnl_attr_t \<Rightarrow> u32 \<Rightarrow> (xnl_attr_t \<times> u32) list" where
  "opt_attr f i t v = (if f AND push_bit i 1 \<noteq> 0 then [(t, v)] else [])"

definition xnl_msg_add_extra_config_attrs :: "xcmd_q_parm \<Rightarrow> (xnl_attr_t \<times> u32) list" where
  "xnl_msg_add_extra_config_attrs q =
     opt_attr (sflags q) 7 XNL_ATTR_QRNGSZ_IDX (ucast (qrngsz_idx q)) @
     opt_attr (sflags q) 8 XNL_ATTR_C2H_BUFSZ_IDX (ucast (c2h_bufsz_idx q)) @
     opt_attr (sflags q) 5 XNL_ATTR_CMPT_DESC_SIZE (ucast (cmpt_entry_size q)) @
     opt_attr (sflags q) 6 XNL_ATTR_SW_DESC_SIZE (ucast (sw_desc_sz q)) @
     opt_attr (sflags q) 9 XNL_ATTR_CMPT_TIMER_IDX (ucast (cmpt_tmr_idx q)) @
     opt_attr (sflags q) 10 XNL_ATTR_CMPT_CNTR_IDX (ucast (cmpt_cntr_idx q)) @
     opt_attr (sflags q) 14 XNL_ATTR_MM_CHANNEL (ucast (mm_channel q)) @
     opt_attr (sflags q) 11 XNL_ATTR_CMPT_TRIG_MODE (ucast (cmpt_trig_mode q)) @
     opt_attr (sflags q) 12 XNL_ATTR_PING_PONG_EN (ucast (ping_pong_en q)) @
     opt_attr (sflags q) 13 XNL_ATTR_APERTURE_SZ (aperture_sz q)"

definition queue_attrs :: "xcmd_q_parm \<Rightarrow> u32 \<Rightarrow> (xnl_attr_t \<times> u32) list" where
  "queue_attrs q dlen = [(XNL_ATTR_QIDX, qp_idx q), (XNL_ATTR_NUM_Q, num_q q), (XNL_ATTR_QFLAG, qp_flags q),
     (XNL_ATTR_RSP_BUF_LEN, dlen)]"

definition op_attrs :: "xnl_op_t \<Rightarrow> xcmd_q_parm \<Rightarrow> u32 \<Rightarrow> (xnl_attr_t \<times> u32) list" where
  "op_attrs op q dlen =
     (case op of
        XNL_CMD_Q_ADD \<Rightarrow> queue_attrs q dlen
      | XNL_CMD_Q_START \<Rightarrow> xnl_msg_add_extra_config_attrs q @ queue_attrs q dlen
      | XNL_CMD_Q_STOP \<Rightarrow> queue_attrs q dlen
      | XNL_CMD_Q_DEL \<Rightarrow> queue_attrs q dlen
      | XNL_CMD_Q_DUMP \<Rightarrow> queue_attrs q dlen
      | XNL_CMD_Q_DESC \<Rightarrow> [(XNL_ATTR_QIDX, qp_idx q), (XNL_ATTR_NUM_Q, num_q q), (XNL_ATTR_QFLAG, qp_flags q),
          (XNL_ATTR_RANGE_START, range_start q), (XNL_ATTR_RANGE_END, range_end q), (XNL_ATTR_RSP_BUF_LEN, dlen)]
      | XNL_CMD_Q_CMPT \<Rightarrow> [(XNL_ATTR_QIDX, qp_idx q), (XNL_ATTR_NUM_Q, num_q q), (XNL_ATTR_QFLAG, qp_flags q),
          (XNL_ATTR_RANGE_START, range_start q), (XNL_ATTR_RANGE_END, range_end q), (XNL_ATTR_RSP_BUF_LEN, dlen)]
      | XNL_CMD_Q_RX_PKT \<Rightarrow> [(XNL_ATTR_QIDX, qp_idx q), (XNL_ATTR_NUM_Q, num_q q), (XNL_ATTR_QFLAG, XNL_F_QDIR_C2H)]
      | XNL_CMD_Q_CMPT_READ \<Rightarrow> [(XNL_ATTR_QIDX, qp_idx q), (XNL_ATTR_QFLAG, qp_flags q)]
      | XNL_CMD_INTR_RING_DUMP \<Rightarrow> [(XNL_ATTR_INTR_VECTOR_IDX, intr_vector q),
          (XNL_ATTR_INTR_VECTOR_START_IDX, intr_start_idx q), (XNL_ATTR_INTR_VECTOR_END_IDX, intr_end_idx q),
          (XNL_ATTR_RSP_BUF_LEN, dlen)]
      | XNL_CMD_REG_RD \<Rightarrow> [(XNL_ATTR_REG_BAR_NUM, reg_bar q), (XNL_ATTR_REG_ADDR, reg_reg q)]
      | XNL_CMD_REG_WRT \<Rightarrow> [(XNL_ATTR_REG_BAR_NUM, reg_bar q), (XNL_ATTR_REG_ADDR, reg_reg q), (XNL_ATTR_REG_VAL, reg_val q)]
      | XNL_CMD_REG_INFO_READ \<Rightarrow> [(XNL_ATTR_REG_BAR_NUM, reg_bar q), (XNL_ATTR_REG_ADDR, reg_reg q),
          (XNL_ATTR_NUM_REGS, reg_range_end q), (XNL_ATTR_RSP_BUF_LEN, dlen)]
      | XNL_CMD_REG_DUMP \<Rightarrow> [(XNL_ATTR_RSP_BUF_LEN, dlen)]
      | XNL_CMD_GLOBAL_CSR \<Rightarrow> [(XNL_ATTR_CSR_INDEX, 0), (XNL_ATTR_CSR_COUNT, 16)]
      | _ \<Rightarrow> [])"

text \<open>The size of the reply: sums and products of an \<^verbatim>\<open>int\<close> and an \<^verbatim>\<open>unsigned\<close>, which wrap.\<close>

definition resp_rows :: "u32 \<Rightarrow> u32 \<Rightarrow> u32" where
  "resp_rows n row_len = word_of_int XNL_RESP_BUFLEN_MAX + n * row_len"

definition scale_len :: "xcmd_q_parm \<Rightarrow> u32 \<Rightarrow> u32" where
  "scale_len q l =
     (let l1 = if qp_flags q AND XNL_F_QDIR_BOTH = XNL_F_QDIR_BOTH then l * 2 else l;
          l2 = if num_q q > 1 then l1 * num_q q else l1
      in if sint l2 > MAX_KMALLOC_SIZE then word_of_int MAX_KMALLOC_SIZE else l2)"

definition get_cmd_resp_buf_len :: "xnl_op_t \<Rightarrow> xcmd_q_parm \<Rightarrow> u32" where
  "get_cmd_resp_buf_len op q =
     (case op of
        XNL_CMD_Q_DESC \<Rightarrow> scale_len q (resp_rows (range_end q - range_start q) 100)
      | XNL_CMD_Q_CMPT \<Rightarrow> scale_len q (resp_rows (range_end q - range_start q) 50)
      | XNL_CMD_INTR_RING_DUMP \<Rightarrow> scale_len q (resp_rows (intr_end_idx q - intr_start_idx q) 50)
      | XNL_CMD_DEV_LIST \<Rightarrow> word_of_int XNL_RESP_BUFLEN_MAX
      | XNL_CMD_DEV_INFO \<Rightarrow> word_of_int XNL_RESP_BUFLEN_MAX
      | XNL_CMD_DEV_CAP \<Rightarrow> word_of_int XNL_RESP_BUFLEN_MAX
      | XNL_CMD_Q_START \<Rightarrow> word_of_int XNL_RESP_BUFLEN_MAX
      | XNL_CMD_Q_STOP \<Rightarrow> word_of_int XNL_RESP_BUFLEN_MAX
      | XNL_CMD_Q_DEL \<Rightarrow> word_of_int XNL_RESP_BUFLEN_MAX
      | XNL_CMD_GLOBAL_CSR \<Rightarrow> word_of_int XNL_RESP_BUFLEN_MAX
      | XNL_CMD_Q_ADD \<Rightarrow> scale_len q (word_of_int XNL_RESP_BUFLEN_MAX)
      | XNL_CMD_Q_DUMP \<Rightarrow> scale_len q (word_of_int XNL_RESP_BUFLEN_MAX)
      | XNL_CMD_Q_CMPT_READ \<Rightarrow> scale_len q (word_of_int XNL_RESP_BUFLEN_MAX)
      | XNL_CMD_Q_LIST \<Rightarrow> scale_len q (word_of_int (XNL_RESP_BUFLEN_MAX * 10))
      | XNL_CMD_REG_DUMP \<Rightarrow> scale_len q (word_of_int (XNL_RESP_BUFLEN_MAX * 6))
      | XNL_CMD_REG_INFO_READ \<Rightarrow> scale_len q (word_of_int (XNL_RESP_BUFLEN_MAX * 6))
      | XNL_CMD_DEV_STAT \<Rightarrow> scale_len q (word_of_int XNL_RESP_BUFLEN_MAX)
      | _ \<Rightarrow> word_of_int XNL_RESP_BUFLEN_MIN)"

section \<open>Talking to the kernel\<close>

text \<open>
  \<open>nl_seq\<close> is what the stack held where \<^verbatim>\<open>snd_seq\<close> is; \<open>nl_recv dlen\<close> answers with the result and the
  bytes it stores, no more than \<open>dlen\<close>.
\<close>

record 'k nl_env =
  nl_alloc :: "nat \<Rightarrow> 'k \<Rightarrow> bool \<times> 'k"
  nl_socket :: "'k \<Rightarrow> int \<times> 'k"
  nl_bind :: "'k \<Rightarrow> int \<times> 'k"
  nl_sendto :: "byte list \<Rightarrow> 'k \<Rightarrow> int \<times> 'k"
  nl_recv :: "nat \<Rightarrow> 'k \<Rightarrow> (int \<times> byte list) \<times> 'k"
  nl_close :: "'k \<Rightarrow> 'k"
  nl_pid :: u32
  nl_seq :: u32
  nl_garbage :: int

definition xnl_send :: "'k nl_env \<Rightarrow> u32 \<Rightarrow> byte list \<Rightarrow> 'k \<Rightarrow> int \<times> byte list \<times> 'k" where
  "xnl_send env seq buf k =
     (let buf1 = put 8 (le 4 seq) buf; len = unat (get32 0 buf1)
      in case nl_sendto env (take len buf1) k of
           (rv, k1) \<Rightarrow> (if rv \<noteq> int len then - 1 else 0, buf1, k1))"

definition NLMSG_OK :: "byte list \<Rightarrow> int \<Rightarrow> bool" where
  "NLMSG_OK buf len \<longleftrightarrow> 16 \<le> len \<and> 16 \<le> get32 0 buf \<and> uint (get32 0 buf) \<le> len"

text \<open>
  The length \<open>dlen\<close> is an \<^verbatim>\<open>int\<close>; \<^verbatim>\<open>memset\<close> and \<^verbatim>\<open>recv\<close> take it as a \<^verbatim>\<open>size_t\<close>, so that a negative one is close to
  \<open>2 ^ 64\<close>.
\<close>

definition size_of_int :: "u32 \<Rightarrow> u64" where
  "size_of_int dlen = word_of_int (sint dlen)"

definition xnl_recv :: "'k nl_env \<Rightarrow> u32 \<Rightarrow> byte list \<Rightarrow> 'k \<Rightarrow> nl_crash + int \<times> byte list \<times> 'k" where
  "xnl_recv env dlen buf k =
     (if length buf < unat (20 + size_of_int dlen) then Inl Overrun
      else let buf1 = put 0 (replicate (unat (20 + size_of_int dlen)) 0) buf
           in case nl_recv env (unat (size_of_int dlen)) k of
                ((rv, bs), k1) \<Rightarrow>
                  if rv < 0 then Inr (- 1, buf1, k1)
                  else let stored = take (unat (size_of_int dlen)) bs; buf2 = put 0 stored buf1
                       in if length buf < length stored then Inl Overrun
                          else Inr (if \<not> NLMSG_OK buf2 rv \<and> rv \<le> 20 \<or> get16 4 buf2 = 2 then - 1 else 0, buf2, k1))"

text \<open>
  \<^verbatim>\<open>xnl_connect\<close>: the result, the family number and the kernel. The name of the family is
  \<^verbatim>\<open>xnl_pf\<close> or \<^verbatim>\<open>xnl_vf\<close>.
\<close>

definition family_name :: "bool \<Rightarrow> byte list" where
  "family_name v = [0x78, 0x6e, 0x6c, 0x5f, if v then 0x76 else 0x70, 0x66]"

definition nla_align :: "u16 \<Rightarrow> nat" where
  "nla_align l = (unat l + 3) div 4 * 4"

definition family_request :: "u32 \<Rightarrow> bool \<Rightarrow> byte list \<Rightarrow> byte list" where
  "family_request pid v buf =
     put 0 (le 4 (32 :: u32))
     (put 20 (le 2 (11 :: u16) @ le 2 (2 :: u16) @ family_name v @ [0])
     (put 16 [3, 1] (put 0 (le 4 (20 :: u32)) (put 12 (le 4 pid) (put 6 (le 2 (1 :: u16)) (put 4 (le 2 (16 :: u16)) buf))))))"

definition xnl_connect :: "'k nl_env \<Rightarrow> bool \<Rightarrow> 'k \<Rightarrow> nl_crash + int \<times> u16 \<times> 'k" where
  "xnl_connect env v k =
     (case nl_alloc env (xnl_msg_size 0) k of (ok, k1) \<Rightarrow>
      case nl_socket env k1 of (fd, k2) \<Rightarrow>
        if fd < 0 then Inr (fd, 0, k2)
        else case nl_bind env k2 of (rv, k3) \<Rightarrow>
          if rv < 0 then Inr (rv, 0, k3)
          else if \<not> ok then Inl Null_Deref
          else case xnl_send env (nl_seq env) (family_request (nl_pid env) v (replicate (xnl_msg_size 0) 0)) k3 of (rv1, buf1, k4) \<Rightarrow>
            if rv1 < 0 then Inr (rv1, 2, k4)
            else case xnl_recv env (word_of_int XNL_RESP_BUFLEN_MIN) buf1 k4 of Inl cr \<Rightarrow> Inl cr | Inr (rv2, buf2, k5) \<Rightarrow>
              if rv2 < 0 then Inr (rv2, 2, k5)
              else let p = 20 + nla_align (get16 20 buf2)
                   in if length buf2 < p + 4 then Inl Overrun
                      else if get16 (p + 2) buf2 \<noteq> 1 then Inr (0, 2, k5)
                      else if length buf2 < p + 6 then Inl Overrun
                      else Inr (0, get16 (p + 4) buf2, k5))"

section \<open>Reading a reply\<close>

text \<open>
  The walk over the attributes: None does not end. \<open>attrs\<close> is the array of values, \<open>texts\<close> what goes
  to \<^verbatim>\<open>log_msg_dump\<close> when the command has one.
\<close>

partial_function (option) recv_attrs ::
    "bool \<Rightarrow> byte list \<Rightarrow> nat \<Rightarrow> int \<Rightarrow> u32 list \<Rightarrow> byte list list \<Rightarrow> (nl_crash + int \<times> u32 list \<times> byte list list) option" where
  "recv_attrs d buf p maxlen attrs texts =
     (if maxlen \<le> 0 then Some (Inr (0, attrs, texts))
      else if length buf < p + 4 then Some (Inl Overrun)
      else let l = nla_align (get16 p buf); t = unat (get16 (p + 2) buf); body = drop (p + 4) buf
           in if XNL_ATTR_MAX \<le> t then Some (Inr (- EINVAL, attrs, texts))
              else if t = attr_no XNL_ATTR_GENMSG
              then (if d \<and> 0 \<notin> set body then Some (Inl Overrun)
                    else recv_attrs d buf (p + l) (maxlen - int l) attrs
                           (if d then texts @ [takeWhile (\<lambda>b. b \<noteq> 0) body] else texts))
              else if length buf < p + 8 then Some (Inl Overrun)
              else recv_attrs d buf (p + l) (maxlen - int l) (attrs[t := get32 (p + 4) buf]) texts)"

text \<open>The result of the walk is dropped.\<close>

definition recv_nl_msg :: "bool \<Rightarrow> byte list \<Rightarrow> u32 list \<Rightarrow> nl_crash + int \<times> u32 list \<times> byte list list" where
  "recv_nl_msg d buf attrs =
     (case recv_attrs d buf 20 (sint (get32 0 buf - 20)) attrs [] of
        None \<Rightarrow> Inl Endless
      | Some (Inl c) \<Rightarrow> Inl c
      | Some (Inr (_, attrs1, texts)) \<Rightarrow> Inr (sint (attrs1 ! attr_no XNL_ATTR_ERROR), attrs1, texts))"

definition xnl_parse_dev_info_attrs :: "u32 list \<Rightarrow> xnl_dev_info" where
  "xnl_parse_dev_info_attrs attrs = \<lparr>
     di_pci_bus = ucast (attrs ! attr_no XNL_ATTR_PCI_BUS), di_pci_dev = ucast (attrs ! attr_no XNL_ATTR_PCI_DEV),
     dev_func = ucast (attrs ! attr_no XNL_ATTR_PCI_FUNC), config_bar = ucast (attrs ! attr_no XNL_ATTR_DEV_CFG_BAR),
     user_bar = (let u = attrs ! attr_no XNL_ATTR_DEV_USR_BAR in if u + 1 = 0 then 2 else ucast u),
     di_qmax = attrs ! attr_no XNL_ATTR_DEV_QSET_MAX, di_qbase = attrs ! attr_no XNL_ATTR_DEV_QSET_QBASE\<rparr>"

definition two_words :: "u32 list \<Rightarrow> xnl_attr_t \<Rightarrow> xnl_attr_t \<Rightarrow> u64" where
  "two_words attrs lo hi = ucast (attrs ! attr_no lo) OR push_bit 32 (ucast (attrs ! attr_no hi))"

definition xnl_parse_dev_stat_attrs :: "u32 list \<Rightarrow> xnl_dev_stat" where
  "xnl_parse_dev_stat_attrs attrs = \<lparr>
     mm_h2c_pkts = two_words attrs XNL_ATTR_DEV_STAT_MMH2C_PKTS1 XNL_ATTR_DEV_STAT_MMH2C_PKTS2,
     mm_c2h_pkts = two_words attrs XNL_ATTR_DEV_STAT_MMC2H_PKTS1 XNL_ATTR_DEV_STAT_MMC2H_PKTS2,
     st_h2c_pkts = two_words attrs XNL_ATTR_DEV_STAT_STH2C_PKTS1 XNL_ATTR_DEV_STAT_STH2C_PKTS2,
     st_c2h_pkts = two_words attrs XNL_ATTR_DEV_STAT_STC2H_PKTS1 XNL_ATTR_DEV_STAT_STC2H_PKTS2,
     ping_pong_lat_max = two_words attrs XNL_ATTR_DEV_STAT_PING_PONG_LATMAX1 XNL_ATTR_DEV_STAT_PING_PONG_LATMAX2,
     ping_pong_lat_min = two_words attrs XNL_ATTR_DEV_STAT_PING_PONG_LATMIN1 XNL_ATTR_DEV_STAT_PING_PONG_LATMIN2,
     ping_pong_lat_avg = two_words attrs XNL_ATTR_DEV_STAT_PING_PONG_LATAVG1 XNL_ATTR_DEV_STAT_PING_PONG_LATAVG2\<rparr>"

text \<open>
  The version is the text of the first attribute, of at most 256 bytes; the earlier contents of the
  array are kept where the first attribute is none of the three.
\<close>

definition version_types :: "nat set" where
  "version_types = {attr_no XNL_ATTR_VERSION_INFO, attr_no XNL_ATTR_DEVICE_TYPE, attr_no XNL_ATTR_IP_TYPE}"

definition xnl_parse_dev_cap_attrs :: "byte list \<Rightarrow> u32 list \<Rightarrow> xcmd_dev_cap" where
  "xnl_parse_dev_cap_attrs buf attrs = \<lparr>
     version_str = (if unat (get16 22 buf) \<in> version_types then take 256 (takeWhile (\<lambda>b. b \<noteq> 0) (drop 24 buf)) else []),
     num_qs = attrs ! attr_no XNL_ATTR_DEV_NUMQS, num_pfs = attrs ! attr_no XNL_ATTR_DEV_NUM_PFS,
     flr_present = attrs ! attr_no XNL_ATTR_DEV_FLR_PRESENT, mm_en = attrs ! attr_no XNL_ATTR_DEV_MM_ENABLE,
     mm_cmpt_en = attrs ! attr_no XNL_ATTR_DEV_MM_CMPT_ENABLE, st_en = attrs ! attr_no XNL_ATTR_DEV_ST_ENABLE,
     mailbox_en = attrs ! attr_no XNL_ATTR_DEV_MAILBOX_ENABLE, mm_channel_max = attrs ! attr_no XNL_ATTR_DEV_MM_CHANNEL_MAX,
     debug_mode = attrs ! attr_no XNL_ATTR_DEBUG_EN, desc_eng_mode = attrs ! attr_no XNL_ATTR_DESC_ENGINE_MODE\<rparr>"

definition xnl_parse_q_state_attrs :: "u32 list \<Rightarrow> xnl_q_info" where
  "xnl_parse_q_state_attrs attrs = \<lparr>qi_flags = attrs ! attr_no XNL_ATTR_QFLAG, qi_qidx = attrs ! attr_no XNL_ATTR_QIDX,
     qi_state = attrs ! attr_no XNL_ATTR_Q_STATE\<rparr>"

definition xnl_parse_cmd_attrs :: "byte list \<Rightarrow> u32 list \<Rightarrow> xcmd_info \<Rightarrow> xcmd_info" where
  "xnl_parse_cmd_attrs buf attrs c =
     (case xop c of
        XNL_CMD_DEV_INFO \<Rightarrow> c\<lparr>resp := Dev_Info (xnl_parse_dev_info_attrs attrs)\<rparr>
      | XNL_CMD_DEV_STAT \<Rightarrow> c\<lparr>resp := Dev_Stat (xnl_parse_dev_stat_attrs attrs)\<rparr>
      | XNL_CMD_DEV_CAP \<Rightarrow> c\<lparr>resp := Dev_Cap (xnl_parse_dev_cap_attrs buf attrs)\<rparr>
      | XNL_CMD_REG_RD \<Rightarrow> c\<lparr>req := (req c)\<lparr>num_q := attrs ! attr_no XNL_ATTR_REG_VAL\<rparr>\<rparr>
      | XNL_CMD_REG_WRT \<Rightarrow> c\<lparr>req := (req c)\<lparr>num_q := attrs ! attr_no XNL_ATTR_REG_VAL\<rparr>\<rparr>
      | XNL_CMD_GET_Q_STATE \<Rightarrow> c\<lparr>resp := Q_Info (xnl_parse_q_state_attrs attrs)\<rparr>
      | XNL_CMD_GLOBAL_CSR \<Rightarrow>
          if unat (get16 22 buf) = attr_no XNL_ATTR_GLOBAL_CSR then c\<lparr>resp := Csr (take 260 (drop 24 buf))\<rparr> else c
      | _ \<Rightarrow> c)"

section \<open>One command\<close>

definition xnl_send_cmd :: "'k nl_env \<Rightarrow> u32 \<Rightarrow> byte list \<Rightarrow> xcmd_info \<Rightarrow> u32 \<Rightarrow> 'k \<Rightarrow> nl_crash + int \<times> byte list \<times> 'k" where
  "xnl_send_cmd env seq buf c dlen k =
     (case add_attrs ((XNL_ATTR_DEV_IDX, if_bdf c) # op_attrs (xop c) (req c) dlen) buf of
        Inl cr \<Rightarrow> Inl cr
      | Inr buf1 \<Rightarrow> Inr (xnl_send env seq buf1 k))"

text \<open>The result, the command with its answer, the array of attributes and the texts.\<close>

type_synonym 'k xnl_result = "nl_crash + (int \<times> xcmd_info \<times> u32 list \<times> byte list list) \<times> 'k"

definition xnl_common_msg_send :: "'k nl_env \<Rightarrow> xcmd_info \<Rightarrow> u32 list \<Rightarrow> 'k \<Rightarrow> 'k xnl_result" where
  "xnl_common_msg_send env c attrs k =
     (case xnl_connect env (vf c) k of
        Inl cr \<Rightarrow> Inl cr
      | Inr (rv, family, k1) \<Rightarrow>
          if rv < 0 then Inr ((rv, c, attrs, []), k1)
          else let dlen = get_cmd_resp_buf_len (xop c) (req c)
               in case nl_alloc env (xnl_msg_size dlen) k1 of (ok, k2) \<Rightarrow>
                 if \<not> ok then Inr ((rv, c, attrs, []), nl_close env k2)
                 else case xnl_send_cmd env (nl_seq env + 1)
                        (xnl_msg_set_hdr (nl_pid env) family (xop c) (replicate (xnl_msg_size dlen) 0)) c dlen k2 of
                   Inl cr \<Rightarrow> Inl cr
                 | Inr (rv1, buf1, k3) \<Rightarrow>
                     if rv1 < 0 then Inr ((rv1, c, attrs, []), nl_close env k3)
                     else case xnl_recv env dlen buf1 k3 of Inl cr \<Rightarrow> Inl cr | Inr (rv2, buf2, k4) \<Rightarrow>
                       if rv2 < 0 then Inr ((rv2, c, attrs, []), nl_close env k4)
                       else case recv_nl_msg (dumps c) buf2 attrs of
                         Inl cr \<Rightarrow> Inl cr
                       | Inr (rv3, attrs1, texts) \<Rightarrow>
                           Inr ((rv3, if rv3 < 0 then c else xnl_parse_cmd_attrs buf2 attrs1 c, attrs1, texts), nl_close env k4))"

section \<open>The commands of the interface\<close>

definition no_attrs :: "u32 list" where "no_attrs = replicate XNL_ATTR_MAX 0"

text \<open>Adding, deleting and stopping a queue, and most other commands, are one message.\<close>

definition simple_cmd :: "'k nl_env \<Rightarrow> xcmd_info \<Rightarrow> 'k \<Rightarrow> 'k xnl_result" where
  "simple_cmd env c k = xnl_common_msg_send env c no_attrs k"

definition qdma_q_add :: "'k nl_env \<Rightarrow> xcmd_info \<Rightarrow> 'k \<Rightarrow> 'k xnl_result" where "qdma_q_add = simple_cmd"
definition qdma_q_del :: "'k nl_env \<Rightarrow> xcmd_info \<Rightarrow> 'k \<Rightarrow> 'k xnl_result" where "qdma_q_del = simple_cmd"
definition qdma_q_stop :: "'k nl_env \<Rightarrow> xcmd_info \<Rightarrow> 'k \<Rightarrow> 'k xnl_result" where "qdma_q_stop = simple_cmd"
definition qdma_q_get_state :: "'k nl_env \<Rightarrow> xcmd_info \<Rightarrow> 'k \<Rightarrow> 'k xnl_result" where "qdma_q_get_state = simple_cmd"
definition qdma_q_dump :: "'k nl_env \<Rightarrow> xcmd_info \<Rightarrow> 'k \<Rightarrow> 'k xnl_result" where "qdma_q_dump = simple_cmd"
definition qdma_q_desc_dump :: "'k nl_env \<Rightarrow> xcmd_info \<Rightarrow> 'k \<Rightarrow> 'k xnl_result" where "qdma_q_desc_dump = simple_cmd"
definition qdma_q_cmpt_read :: "'k nl_env \<Rightarrow> xcmd_info \<Rightarrow> 'k \<Rightarrow> 'k xnl_result" where "qdma_q_cmpt_read = simple_cmd"
definition qdma_dev_q_list_dump :: "'k nl_env \<Rightarrow> xcmd_info \<Rightarrow> 'k \<Rightarrow> 'k xnl_result" where "qdma_dev_q_list_dump = simple_cmd"
definition qdma_dev_stat_clear :: "'k nl_env \<Rightarrow> xcmd_info \<Rightarrow> 'k \<Rightarrow> 'k xnl_result" where "qdma_dev_stat_clear = simple_cmd"
definition qdma_dev_intr_ring_dump :: "'k nl_env \<Rightarrow> xcmd_info \<Rightarrow> 'k \<Rightarrow> 'k xnl_result" where "qdma_dev_intr_ring_dump = simple_cmd"
definition qdma_dev_get_global_csr :: "'k nl_env \<Rightarrow> xcmd_info \<Rightarrow> 'k \<Rightarrow> 'k xnl_result" where "qdma_dev_get_global_csr = simple_cmd"

text \<open>\<^verbatim>\<open>qdma_dev_info\<close>, \<^verbatim>\<open>qdma_dev_cap\<close> and \<^verbatim>\<open>qdma_dev_stat\<close> return nothing where they succeed.\<close>

definition no_result :: "'k nl_env \<Rightarrow> 'k xnl_result \<Rightarrow> 'k xnl_result" where
  "no_result env out =
     (case out of
        Inl cr \<Rightarrow> Inl cr
      | Inr ((rv, r), k1) \<Rightarrow> Inr ((if rv < 0 then rv else nl_garbage env, r), k1))"

definition qdma_dev_info :: "'k nl_env \<Rightarrow> xcmd_info \<Rightarrow> 'k \<Rightarrow> 'k xnl_result" where
  "qdma_dev_info env c k = no_result env (simple_cmd env c k)"

definition qdma_dev_cap :: "'k nl_env \<Rightarrow> xcmd_info \<Rightarrow> 'k \<Rightarrow> 'k xnl_result" where
  "qdma_dev_cap env c k = no_result env (simple_cmd env c k)"

definition qdma_dev_stat :: "'k nl_env \<Rightarrow> xcmd_info \<Rightarrow> 'k \<Rightarrow> 'k xnl_result" where
  "qdma_dev_stat env c k = no_result env (simple_cmd env c k)"

text \<open>The list of the devices of both drivers; the result of the first is dropped, its attributes are not.\<close>

definition qdma_dev_list_dump :: "'k nl_env \<Rightarrow> xcmd_info \<Rightarrow> 'k \<Rightarrow> 'k xnl_result" where
  "qdma_dev_list_dump env c k =
     (case xnl_common_msg_send env c no_attrs k of
        Inl cr \<Rightarrow> Inl cr
      | Inr ((_, c1, attrs1, texts1), k1) \<Rightarrow>
          (case xnl_common_msg_send env (c1\<lparr>vf := True\<rparr>) attrs1 k1 of
             Inl cr \<Rightarrow> Inl cr
           | Inr ((rv, c2, attrs2, texts2), k2) \<Rightarrow> Inr ((rv, c2, attrs2, texts1 @ texts2), k2)))"

definition credit_flag :: "bool \<Rightarrow> u32 \<Rightarrow> u32" where
  "credit_flag b f = (if b then f OR XNL_F_FETCH_CREDIT else f AND NOT XNL_F_FETCH_CREDIT)"

definition set_flags :: "(u32 \<Rightarrow> u32) \<Rightarrow> xcmd_info \<Rightarrow> xcmd_info" where
  "set_flags g c = c\<lparr>req := (req c)\<lparr>qp_flags := g (qp_flags (req c))\<rparr>\<rparr>"

text \<open>\<open>h2c\<close> and \<open>c2h\<close>: the masks \<^verbatim>\<open>Q_ENABLE_H2C_FETCH_CREDIT\<close> and \<^verbatim>\<open>Q_ENABLE_C2H_FETCH_CREDIT\<close>.\<close>

definition h2c_credit :: "xcmd_info \<Rightarrow> bool" where "h2c_credit c \<longleftrightarrow> fetch_credit (req c) AND 1 = 1"
definition c2h_credit :: "xcmd_info \<Rightarrow> bool" where "c2h_credit c \<longleftrightarrow> fetch_credit (req c) AND 2 = 2"

definition qdma_q_start :: "'k nl_env \<Rightarrow> xcmd_info \<Rightarrow> 'k \<Rightarrow> 'k xnl_result" where
  "qdma_q_start env c k =
     (let f = qp_flags (req c)
      in if f AND XNL_F_QDIR_BOTH = XNL_F_QDIR_BOTH then
           case xnl_common_msg_send env
                  (set_flags (\<lambda>f. credit_flag (c2h_credit c) f AND NOT XNL_F_QDIR_BOTH OR XNL_F_QDIR_C2H) c) no_attrs k of
             Inl cr \<Rightarrow> Inl cr
           | Inr ((rv, c1, attrs1, texts1), k1) \<Rightarrow>
               if rv < 0 then Inr ((rv, c1, attrs1, texts1), k1)
               else (case xnl_common_msg_send env
                       (set_flags (\<lambda>f. credit_flag (h2c_credit c1) f AND NOT XNL_F_QDIR_BOTH OR XNL_F_QDIR_H2C) c1) attrs1 k1 of
                       Inl cr \<Rightarrow> Inl cr
                     | Inr ((rv2, c2, attrs2, texts2), k2) \<Rightarrow> Inr ((rv2, c2, attrs2, texts1 @ texts2), k2))
         else xnl_common_msg_send env
                (if f AND XNL_F_QDIR_H2C = XNL_F_QDIR_H2C then set_flags (credit_flag (h2c_credit c)) c
                 else if f AND XNL_F_QDIR_C2H = XNL_F_QDIR_C2H then set_flags (credit_flag (c2h_credit c)) c
                 else c) no_attrs k)"

end
