(* ===== verification/Xnl_Wire.thy ===== *)
theory Xnl_Wire
  imports Xnl_Client
begin

text \<open>
  The wire format of the control channel: what a sequence of attributes looks like in a message, that
  the library writes exactly this, and what its walk makes of it.
\<close>

section \<open>Bytes\<close>

lemma length_le [simp]: "length (le n w) = n"
  by (simp add: le_def)

lemma upt_2_4: "[0..<2] = [0, 1 :: nat]" "[0..<4] = [0, 1, 2, 3 :: nat]"
  by (simp_all add: upt_conv_Cons)

lemma le_word_le16 [simp]: "le_word (le 2 w) = (w :: u16)"
  by (rule bit_eqI) (auto simp: le_def upt_2_4 bit_simps)

lemma le_word_le32 [simp]: "le_word (le 4 w) = (w :: u32)"
proof (rule bit_word_eqI)
  fix n assume "n < LENGTH(32)"
  then show "bit (le_word (le 4 w) :: u32) n = bit w n"
    by (cases "n < 16"; cases "n < 24") (auto simp: le_def upt_2_4 bit_simps)
qed

lemma get16_at [simp]: "get16 (length pre) (pre @ le 2 w @ post) = w"
  by (simp add: get16_def)

lemma get32_at [simp]: "get32 (length pre) (pre @ le 4 w @ post) = w"
  by (simp add: get32_def)

lemma get32_0 [simp]: "get32 0 (le 4 w @ post) = w"
  using get32_at [of "[]"] by simp

lemma put_at: "p = length pre \<Longrightarrow> length bs = length old \<Longrightarrow> put p bs (pre @ old @ post) = pre @ bs @ post"
  by (simp add: put_def)

lemma put_0: "length bs = length old \<Longrightarrow> put 0 bs (old @ post) = bs @ post"
  using put_at [of 0 "[]" bs old post] by simp

section \<open>Attributes\<close>

text \<open>An attribute that is a number, a text, or bytes; the last two are padded to a multiple of four bytes.\<close>

datatype nl_attr = Num xnl_attr_t u32 | Txt "byte list" | Blob xnl_attr_t "byte list"

definition pad :: "nat \<Rightarrow> byte list" where
  "pad n = replicate ((n + 3) div 4 * 4 - n) 0"

primrec enc :: "nl_attr \<Rightarrow> byte list" where
  "enc (Num t v) = le 2 (8 :: u16) @ le 2 (of_nat (attr_no t) :: u16) @ le 4 v"
| "enc (Txt s) = le 2 (of_nat (length s + 5) :: u16) @ le 2 (0 :: u16) @ s @ 0 # pad (length s + 5)"
| "enc (Blob t bs) = le 2 (of_nat (length bs + 4) :: u16) @ le 2 (of_nat (attr_no t) :: u16) @ bs @ pad (length bs + 4)"

definition enc_all :: "nl_attr list \<Rightarrow> byte list" where
  "enc_all as = concat (map enc as)"

text \<open>
  Texts end at their first zero and their length fits; a number is no text. The library reads a number
  where bytes are: their first four.
\<close>

primrec attr_ok :: "nl_attr \<Rightarrow> bool" where
  "attr_ok (Num t v) \<longleftrightarrow> t \<noteq> XNL_ATTR_GENMSG"
| "attr_ok (Txt s) \<longleftrightarrow> 0 \<notin> set s \<and> length s + 8 < 2 ^ 16"
| "attr_ok (Blob t bs) \<longleftrightarrow> t \<noteq> XNL_ATTR_GENMSG \<and> bs \<noteq> [] \<and> length bs + 8 < 2 ^ 16"

primrec upd_attr :: "nl_attr \<Rightarrow> u32 list \<Rightarrow> u32 list" where
  "upd_attr (Num t v) vs = vs[attr_no t := v]"
| "upd_attr (Txt s) vs = vs"
| "upd_attr (Blob t bs) vs = vs[attr_no t := le_word (take 4 (bs @ pad (length bs + 4)))]"

primrec text_of :: "nl_attr \<Rightarrow> byte list list" where
  "text_of (Num t v) = []"
| "text_of (Txt s) = [s]"
| "text_of (Blob t bs) = []"

lemma enc_all_simps [simp]: "enc_all [] = []" "enc_all (a # as) = enc a @ enc_all as" "enc_all (xs @ ys) = enc_all xs @ enc_all ys"
  by (simp_all add: enc_all_def)

lemma length_pad: "n + length (pad n) = (n + 3) div 4 * 4"
  by (simp add: pad_def)

lemma length_enc_Num [simp]: "length (enc (Num t v)) = 8"
  by simp

lemma length_enc_Txt: "length (enc (Txt s)) = (length s + 8) div 4 * 4"
  using length_pad [of "length s + 5"] by (simp add: add.commute)

lemma length_enc_Blob: "length (enc (Blob t bs)) = (length bs + 7) div 4 * 4"
  using length_pad [of "length bs + 4"] by (simp add: add.commute)

lemma length_enc_Nums: "length (enc_all (map (\<lambda>(t, v). Num t v) as)) = 8 * length as"
  by (induction as) auto

lemma attr_no_less: "attr_no t < 72"
  by (cases t) simp_all

lemma attr_no_code [simp]: "unat (of_nat (attr_no t) :: u16) = attr_no t"
  using attr_no_less [of t] by (simp add: unat_of_nat)

lemma attr_no_0: "attr_no t = 0 \<longleftrightarrow> t = XNL_ATTR_GENMSG"
  by (cases t) simp_all

section \<open>Writing\<close>

lemma xnl_msg_add_int_attr_at:
  assumes "length mid + 4 = p" "length old = 8" "p + 8 + length rest < 2 ^ 32"
  shows "xnl_msg_add_int_attr t v (le 4 (of_nat p :: u32) @ mid @ old @ rest)
    = Inr (le 4 (of_nat (p + 8) :: u32) @ mid @ enc (Num t v) @ rest)"
proof -
  have p: "unat (of_nat p :: u32) = p" using assms by (simp add: unat_of_nat)
  have "put p (enc (Num t v)) (le 4 (of_nat p :: u32) @ mid @ old @ rest) = le 4 (of_nat p :: u32) @ mid @ enc (Num t v) @ rest"
    using put_at [of p "le 4 (of_nat p :: u32) @ mid" "enc (Num t v)" old rest] assms by simp
  then show ?thesis
    using assms by (simp add: xnl_msg_add_int_attr_def p put_0 add.commute)
qed

text \<open>The calls that add attributes append exactly their encodings and advance the length.\<close>

lemma add_attrs_enc:
  assumes "length mid + 4 = p" "8 * length as \<le> length rest" "p + length rest < 2 ^ 32"
  shows "add_attrs as (le 4 (of_nat p :: u32) @ mid @ rest)
    = Inr (le 4 (of_nat (p + 8 * length as) :: u32) @ mid @ enc_all (map (\<lambda>(t, v). Num t v) as) @ drop (8 * length as) rest)"
  using assms
proof (induction as arbitrary: p mid rest)
  case (Cons a as)
  obtain t v where a: "a = (t, v)" by fastforce
  have "rest = take 8 rest @ drop 8 rest" by simp
  then have "xnl_msg_add_int_attr t v (le 4 (of_nat p :: u32) @ mid @ rest)
      = Inr (le 4 (of_nat (p + 8) :: u32) @ mid @ enc (Num t v) @ drop 8 rest)"
    using xnl_msg_add_int_attr_at [of mid p "take 8 rest" "drop 8 rest" t v] Cons.prems by (simp only: ) simp
  moreover have "add_attrs as (le 4 (of_nat (p + 8) :: u32) @ (mid @ enc (Num t v)) @ drop 8 rest)
      = Inr (le 4 (of_nat (p + 8 + 8 * length as) :: u32) @ (mid @ enc (Num t v))
          @ enc_all (map (\<lambda>(t, v). Num t v) as) @ drop (8 * length as) (drop 8 rest))"
    using Cons.prems by (intro Cons.IH) auto
  ultimately show ?case by (simp add: a add.assoc add.commute)
qed simp

section \<open>Walking\<close>

lemma recv_attrs_step:
  assumes "attr_ok a" "0 < m"
  shows "recv_attrs d (pre @ enc a @ post) (length pre) m vs ts
    = recv_attrs d (pre @ enc a @ post) (length pre + length (enc a)) (m - int (length (enc a)))
        (upd_attr a vs) (if d then ts @ text_of a else ts)"
proof (cases a)
  case (Num t v)
  have "attr_no t \<noteq> 0" using assms Num attr_no_0 [of t] by simp
  moreover have "get16 (length pre + 2) (pre @ enc a @ post) = of_nat (attr_no t)"
    using get16_at [of "pre @ le 2 (8 :: u16)" _ "le 4 v @ post"] by (simp add: Num)
  moreover have "get32 (length pre + 4) (pre @ enc a @ post) = v"
    using get32_at [of "pre @ le 2 (8 :: u16) @ le 2 (of_nat (attr_no t) :: u16)" v post] by (simp add: Num)
  moreover have "get16 (length pre) (pre @ enc a @ post) = 8"
    using get16_at [of pre 8 "le 2 (of_nat (attr_no t) :: u16) @ le 4 v @ post"] by (simp add: Num)
  ultimately show ?thesis
    using assms(2) attr_no_less [of t] by (subst recv_attrs.simps) (simp add: Num nla_align_def Let_def)
next
  case (Txt s)
  let ?tail = "s @ 0 # pad (length s + 5) @ post"
  have s: "0 \<notin> set s" "length s + 8 < 2 ^ 16" using assms Txt by simp_all
  have "unat (of_nat (length s + 5) :: u16) = length s + 5"
    using s(2) by (simp only: unat_of_nat) simp
  then have "unat (get16 (length pre) (pre @ enc a @ post)) = length s + 5"
    using get16_at [of pre "of_nat (length s + 5)" "le 2 (0 :: u16) @ ?tail"] by (simp add: Txt)
  then have "nla_align (get16 (length pre) (pre @ enc a @ post)) = length (enc a)"
    by (simp only: nla_align_def length_enc_Txt Txt) simp
  moreover have "get16 (length pre + 2) (pre @ enc a @ post) = 0"
    using get16_at [of "pre @ le 2 (of_nat (length s + 5) :: u16)" 0 ?tail] by (simp add: Txt)
  moreover have "drop (length pre + 4) (pre @ enc a @ post) = ?tail" by (simp add: Txt)
  moreover have "takeWhile (\<lambda>b. b \<noteq> 0) ?tail = s"
    using s by (subst takeWhile_append2) auto
  moreover have "length pre + 4 \<le> length (pre @ enc a @ post)" by (simp add: Txt)
  ultimately show ?thesis
    using assms(2) by (subst recv_attrs.simps) (simp add: Let_def Txt del: enc.simps)
next
  case (Blob t bs)
  let ?hd = "le 2 (of_nat (length bs + 4) :: u16) @ le 2 (of_nat (attr_no t) :: u16)" and ?data = "bs @ pad (length bs + 4)"
  have bs: "t \<noteq> XNL_ATTR_GENMSG" "length bs + 8 < 2 ^ 16" "1 \<le> length bs"
    using assms Blob by (auto simp: Suc_le_eq)
  have "(1 + 7) div 4 \<le> (length bs + 7) div 4" using bs(3) by (intro div_le_mono) simp
  then have four: "4 \<le> length ?data" using length_pad [of "length bs + 4"] by (simp add: add.commute)
  have "unat (of_nat (length bs + 4) :: u16) = length bs + 4"
    using bs(2) by (simp only: unat_of_nat) simp
  then have "unat (get16 (length pre) (pre @ enc a @ post)) = length bs + 4"
    using get16_at [of pre "of_nat (length bs + 4)" "le 2 (of_nat (attr_no t) :: u16) @ ?data @ post"] by (simp add: Blob)
  then have "nla_align (get16 (length pre) (pre @ enc a @ post)) = length (enc a)"
    by (simp only: nla_align_def length_enc_Blob Blob) simp
  moreover have "get16 (length pre + 2) (pre @ enc a @ post) = of_nat (attr_no t)"
    using get16_at [of "pre @ le 2 (of_nat (length bs + 4) :: u16)" "of_nat (attr_no t)" "?data @ post"] by (simp add: Blob)
  moreover have "get32 (length pre + 4) (pre @ enc a @ post) = le_word (take 4 ?data)"
    using four by (simp add: get32_def Blob)
  moreover have "length pre + 8 \<le> length (pre @ enc a @ post)" using four by (simp add: Blob)
  moreover have "attr_no t \<noteq> 0" "attr_no t < 72" using bs(1) attr_no_0 [of t] attr_no_less [of t] by simp_all
  ultimately show ?thesis
    using assms(2) by (subst recv_attrs.simps) (simp add: Let_def Blob del: enc.simps)
qed

text \<open>A reply of well-formed attributes is read to its end.\<close>

lemma recv_attrs_all:
  assumes "\<forall>a \<in> set as. attr_ok a" "0 \<le> r"
  shows "recv_attrs d (pre @ enc_all as @ post) (length pre) (int (length (enc_all as)) + r) vs ts
    = recv_attrs d (pre @ enc_all as @ post) (length pre + length (enc_all as)) r
        (fold upd_attr as vs) (if d then ts @ concat (map text_of as) else ts)"
  using assms(1)
proof (induction as arbitrary: pre vs ts)
  case (Cons a as)
  have pos: "0 < length (enc a)" by (cases a) (simp_all add: le_def)
  have "recv_attrs d (pre @ enc a @ (enc_all as @ post)) (length pre) (int (length (enc_all (a # as))) + r) vs ts
      = recv_attrs d (pre @ enc a @ (enc_all as @ post)) (length pre + length (enc a))
          (int (length (enc_all as)) + r) (upd_attr a vs) (if d then ts @ text_of a else ts)"
    using recv_attrs_step [of a "int (length (enc_all (a # as))) + r" d pre "enc_all as @ post" vs ts] Cons.prems assms(2) pos
    by simp
  with Cons.IH [of "pre @ enc a"] Cons.prems show ?case by (simp add: add.assoc)
qed simp

end
