(* ===== verification/Xnl_Link.thy ===== *)
theory Xnl_Link
  imports Xnl_Wire
begin

text \<open>
  What one command of the library does over a netlink socket that behaves as documented: the request
  arrives with its attributes, and the first reply is what the library reads.
\<close>

section \<open>Requests and replies as bytes\<close>

definition nums :: "(xnl_attr_t \<times> u32) list \<Rightarrow> nl_attr list" where
  "nums as = map (\<lambda>(t, v). Num t v) as"

definition wire_request :: "u16 \<Rightarrow> u32 \<Rightarrow> u32 \<Rightarrow> xnl_op_t \<Rightarrow> (xnl_attr_t \<times> u32) list \<Rightarrow> byte list" where
  "wire_request fam seq pid op as =
     le 4 (of_nat (20 + 8 * length as) :: u32) @ le 2 fam @ le 2 (1 :: u16) @ le 4 seq @ le 4 pid
     @ [of_nat (op_no op), 0, 0, 0] @ enc_all (nums as)"

text \<open>
  The headers of a message after its length and type: flags, sequence number, port, command and version. A
  reply of the driver has the sequence number that \<^verbatim>\<open>xnl_msg_alloc\<close> of \<^verbatim>\<open>nl.c\<close> is given, port 0, the command,
  and version 0, which the driver's family does not set.
\<close>

definition nl_head :: "u16 \<Rightarrow> u32 \<Rightarrow> u32 \<Rightarrow> nat \<Rightarrow> byte \<Rightarrow> byte list" where
  "nl_head flags seq pid cmd ver = le 2 flags @ le 4 seq @ le 4 pid @ [of_nat cmd, ver, 0, 0]"

definition wire_reply :: "u32 \<Rightarrow> xnl_op_t \<Rightarrow> u16 \<Rightarrow> nl_attr list \<Rightarrow> byte list" where
  "wire_reply seq op fam as =
     le 4 (of_nat (20 + length (enc_all as)) :: u32) @ le 2 fam @ nl_head 0 seq 0 (op_no op) 0 @ enc_all as"

text \<open>
  The answer of the kernel's controller to the search for a family: the command \<^verbatim>\<open>CTRL_CMD_NEWFAMILY\<close> in
  version 2, with the request's sequence number and the port of the socket; the name of the family, its
  number, and what follows.
\<close>

definition family_reply :: "u32 \<Rightarrow> u32 \<Rightarrow> bool \<Rightarrow> u16 \<Rightarrow> byte list \<Rightarrow> byte list" where
  "family_reply seq port v fam rest =
     le 4 (of_nat (40 + length rest) :: u32) @ le 2 (16 :: u16) @ nl_head 0 seq port 1 2
     @ (le 2 (11 :: u16) @ le 2 (2 :: u16) @ family_name v @ [0, 0])
     @ (le 2 (6 :: u16) @ le 2 (1 :: u16) @ le 2 fam @ [0, 0]) @ rest"

text \<open>The search for a family, as the library sends it.\<close>

definition family_wire :: "u32 \<Rightarrow> u32 \<Rightarrow> bool \<Rightarrow> byte list" where
  "family_wire seq pid v = le 4 (32 :: u32) @ le 2 (16 :: u16) @ le 2 (1 :: u16) @ le 4 seq @ le 4 pid @ [3, 1, 0, 0]
     @ le 2 (11 :: u16) @ le 2 (2 :: u16) @ family_name v @ [0, 0]"

lemma length_nl_head [simp]: "length (nl_head flags seq pid cmd ver) = 14"
  by (simp add: nl_head_def)

lemma length_family_name [simp]: "length (family_name v) = 6"
  by (simp add: family_name_def)

lemma family_request_eq:
  "put 8 (le 4 seq) (family_request pid v (replicate (32 + n) 0)) = family_wire seq pid v @ replicate n 0"
proof -
  have r: "replicate (32 + n) (0 :: byte) = replicate 4 0 @ replicate 2 0 @ replicate 2 0 @ replicate 4 0 @ replicate 4 0
      @ [0, 0, 0, 0] @ replicate 4 0 @ replicate 6 0 @ [0, 0] @ replicate n 0"
    by (simp add: replicate_add numeral_eq_Suc)
  show ?thesis unfolding r family_request_def put_def family_wire_def by (simp add: numeral_eq_Suc)
qed

lemma length_wire_request: "length (wire_request fam seq pid op as) = 20 + 8 * length as"
  by (simp add: wire_request_def nums_def length_enc_Nums)

lemma xnl_msg_set_hdr_eq:
  "xnl_msg_set_hdr pid fam op (replicate (20 + n) 0)
    = le 4 (20 :: u32) @ (le 2 fam @ le 2 (1 :: u16) @ replicate 4 0 @ le 4 pid @ [of_nat (op_no op), 0, 0, 0]) @ replicate n 0"
proof -
  have r: "replicate (20 + n) (0 :: byte) = replicate 4 0 @ replicate 2 0 @ replicate 2 0 @ replicate 4 0 @ replicate 4 0 @ [0, 0, 0, 0] @ replicate n 0"
    by (simp add: replicate_add numeral_eq_Suc)
  show ?thesis unfolding r xnl_msg_set_hdr_def put_def by (simp add: numeral_eq_Suc)
qed

text \<open>The bytes the library hands to the kernel for a command.\<close>

lemma xnl_send_cmd_eq:
  assumes "as = (XNL_ATTR_DEV_IDX, if_bdf c) # op_attrs (xop c) (req c) dlen"
    and "8 * length as \<le> n" "n < 2 ^ 31"
  shows "xnl_send_cmd env seq (xnl_msg_set_hdr pid fam (xop c) (replicate (20 + n) 0)) c dlen k
    = Inr (case nl_sendto env (wire_request fam seq pid (xop c) as) k of (rv, k1) \<Rightarrow>
        (if rv \<noteq> int (20 + 8 * length as) then - 1 else 0,
         wire_request fam seq pid (xop c) as @ replicate (n - 8 * length as) 0, k1))"
proof -
  let ?mid = "le 2 fam @ le 2 (1 :: u16) @ replicate 4 0 @ le 4 pid @ [of_nat (op_no (xop c)), 0, 0, 0]"
  let ?len = "of_nat (20 + 8 * length as) :: u32"
  have "add_attrs as (le 4 (of_nat 20 :: u32) @ ?mid @ replicate n 0)
      = Inr (le 4 ?len @ ?mid @ enc_all (nums as) @ drop (8 * length as) (replicate n 0))"
    using add_attrs_enc [of ?mid 20 as "replicate n 0"] assms(2,3) unfolding nums_def by simp
  moreover have "put 8 (le 4 seq) (le 4 ?len @ ?mid @ enc_all (nums as) @ drop (8 * length as) (replicate n 0))
      = wire_request fam seq pid (xop c) as @ replicate (n - 8 * length as) 0"
    using put_at [of 8 "le 4 ?len @ le 2 fam @ le 2 (1 :: u16)" "le 4 seq" "replicate 4 0"]
    by (simp add: wire_request_def)
  moreover have "unat (get32 0 (wire_request fam seq pid (xop c) as @ replicate (n - 8 * length as) 0)) = 20 + 8 * length as"
  proof -
    have "unat ?len = 20 + 8 * length as" using assms(2,3) by (simp only: unat_of_nat) simp
    then show ?thesis unfolding wire_request_def append_assoc get32_0 .
  qed
  moreover have "take (20 + 8 * length as) (wire_request fam seq pid (xop c) as @ replicate (n - 8 * length as) 0)
      = wire_request fam seq pid (xop c) as"
    using length_wire_request [of fam seq pid "xop c" as] by simp
  ultimately show ?thesis
    unfolding xnl_send_cmd_def xnl_msg_set_hdr_eq xnl_send_def Let_def assms(1) [symmetric]
    by (simp del: of_nat_add of_nat_mult split: prod.split)
qed

section \<open>A socket that works\<close>

text \<open>
  The documented behaviour of a generic-netlink socket. \<open>view\<close> gives the state of the driver and the
  messages waiting in the socket; \<open>fam\<close> the numbers of the two families, where they are registered;
  \<open>serve\<close> what the driver makes of a request with a sequence number: its new state and the messages it
  sends. The port of a socket is the kernel's choice.
\<close>

definition link_ok ::
    "'k nl_env \<Rightarrow> ('k \<Rightarrow> 'd \<times> byte list list) \<Rightarrow> (bool \<Rightarrow> u16 option)
     \<Rightarrow> (bool \<Rightarrow> u32 \<Rightarrow> xnl_op_t \<Rightarrow> (xnl_attr_t \<times> u32) list \<Rightarrow> 'd \<Rightarrow> byte list list \<times> 'd) \<Rightarrow> bool" where
  "link_ok env view fam serve \<longleftrightarrow>
     (\<forall>n k. nl_alloc env n k = (True, k)) \<and>
     (\<forall>k. \<exists>fd k'. nl_socket env k = (fd, k') \<and> 0 \<le> fd \<and> view k' = (fst (view k), [])) \<and>
     (\<forall>k. \<exists>k'. nl_bind env k = (0, k') \<and> view k' = view k) \<and>
     (\<forall>k v f. fam v = Some f \<longrightarrow> (\<exists>k' port rest.
        nl_sendto env (family_wire (nl_seq env) (nl_pid env) v) k = (32, k')
        \<and> view k' = (fst (view k), snd (view k) @ [family_reply (nl_seq env) port v f rest]))) \<and>
     (\<forall>k v f seq op as d ms. fam v = Some f \<and> serve v seq op as (fst (view k)) = (ms, d) \<longrightarrow> (\<exists>k'.
        nl_sendto env (wire_request f seq (nl_pid env) op as) k = (int (20 + 8 * length as), k')
        \<and> view k' = (d, snd (view k) @ ms))) \<and>
     (\<forall>k m ms n. snd (view k) = m # ms \<longrightarrow> (\<exists>k'.
        nl_recv env n k = ((int (min n (length m)), take n m), k') \<and> view k' = (fst (view k), ms))) \<and>
     (\<forall>k. fst (view (nl_close env k)) = fst (view k))"

lemma link_okD:
  assumes "link_ok env view fam serve"
  shows "nl_alloc env n k = (True, k)"
    and "\<exists>fd k'. nl_socket env k = (fd, k') \<and> 0 \<le> fd \<and> view k' = (fst (view k), [])"
    and "\<exists>k'. nl_bind env k = (0, k') \<and> view k' = view k"
    and "fam v = Some f \<Longrightarrow> \<exists>k' port rest.
        nl_sendto env (family_wire (nl_seq env) (nl_pid env) v) k = (32, k')
        \<and> view k' = (fst (view k), snd (view k) @ [family_reply (nl_seq env) port v f rest])"
    and "fam v = Some f \<Longrightarrow> serve v seq op as (fst (view k)) = (ms, d) \<Longrightarrow> \<exists>k'.
        nl_sendto env (wire_request f seq (nl_pid env) op as) k = (int (20 + 8 * length as), k')
        \<and> view k' = (d, snd (view k) @ ms)"
    and "snd (view k) = m # ns \<Longrightarrow> \<exists>k'.
        nl_recv env n k = ((int (min n (length m)), take n m), k') \<and> view k' = (fst (view k), ns)"
    and "fst (view (nl_close env k)) = fst (view k)"
  using assms unfolding link_ok_def by blast+

lemma size_of_int_pos:
  assumes "unat dlen < 2 ^ 31"
  shows "unat (size_of_int dlen) = unat dlen" "unat (20 + size_of_int dlen) = 20 + unat dlen"
proof -
  have "uint dlen < 2 ^ 31" using assms by (simp add: uint_nat del: of_nat_unat)
  then have "sint dlen = int (unat dlen)"
    by (simp add: sint_uint signed_take_bit_int_eq_self_iff order_trans [OF _ uint_ge_0])
  then have s: "size_of_int dlen = of_nat (unat dlen)" by (simp only: size_of_int_def of_int_of_nat_eq)
  show "unat (size_of_int dlen) = unat dlen" unfolding s unat_of_nat using assms by simp
  have "20 + size_of_int dlen = of_nat (20 + unat dlen)" unfolding s by (simp only: of_nat_add of_nat_numeral)
  then show "unat (20 + size_of_int dlen) = 20 + unat dlen" using assms by (simp only: unat_of_nat) simp
qed

lemma recv_message:
  assumes "link_ok env view fam serve" "snd (view k) = m # ms" "get16 4 (take n m) \<noteq> 2" "6 \<le> n"
    and "20 < length m" "20 < n" "20 + n \<le> length buf" "n = unat dlen" "n < 2 ^ 31"
  shows "\<exists>k'. xnl_recv env dlen buf k = Inr (0, take n m @ replicate (20 + n - length (take n m)) 0 @ drop (20 + n) buf, k')
    \<and> view k' = (fst (view k), ms)"
proof -
  have n: "unat (size_of_int dlen) = n" "unat (20 + size_of_int dlen) = 20 + n"
    using size_of_int_pos [of dlen] assms(8,9) by simp_all
  obtain k' where k': "nl_recv env n k = ((int (min n (length m)), take n m), k')" "view k' = (fst (view k), ms)"
    using link_okD(6) [OF assms(1,2)] by blast
  let ?buf = "put 0 (take n m) (put 0 (replicate (20 + n) 0) buf)"
  have b: "?buf = take n m @ replicate (20 + n - length (take n m)) 0 @ drop (20 + n) buf"
    using assms(7) by (simp add: put_def)
  have "get16 4 ?buf = get16 4 (take n m)"
    using assms(5,6) unfolding b by (simp add: get16_def)
  then show ?thesis
    using assms(3,5-7) k' b by (auto simp: xnl_recv_def n Let_def)
qed

lemma connect_link:
  assumes "link_ok env view fam serve" "fam v = Some f"
  shows "\<exists>k'. xnl_connect env v k = Inr (0, f, k') \<and> view k' = (fst (view k), [])"
proof -
  note L = link_okD [OF assms(1)]
  obtain fd k1 where k1: "nl_socket env k = (fd, k1)" "0 \<le> fd" "view k1 = (fst (view k), [])" using L(2) by blast
  obtain k2 where k2: "nl_bind env k1 = (0, k2)" "view k2 = (fst (view k), [])" using L(3) [of k1] k1(3) by auto
  obtain k3 port rest where k3: "nl_sendto env (family_wire (nl_seq env) (nl_pid env) v) k2 = (32, k3)"
      "view k3 = (fst (view k), [family_reply (nl_seq env) port v f rest])"
    using L(4) [OF assms(2), of k2] k2(2) by auto
  let ?sent = "family_wire (nl_seq env) (nl_pid env) v" and ?m = "family_reply (nl_seq env) port v f rest"
  have s: "xnl_send env (nl_seq env) (family_request (nl_pid env) v (replicate 596 0)) k2 = (0, ?sent @ replicate 564 0, k3)"
    using family_request_eq [of "nl_seq env" "nl_pid env" v 564] k3(1) unfolding xnl_send_def
    by (simp add: family_wire_def)
  have m: "take 256 ?m = le 4 (of_nat (40 + length rest) :: u32) @ le 2 (16 :: u16) @ nl_head 0 (nl_seq env) port 1 2
     @ (le 2 (11 :: u16) @ le 2 (2 :: u16) @ family_name v @ [0, 0])
     @ (le 2 (6 :: u16) @ le 2 (1 :: u16) @ le 2 f @ [0, 0]) @ take 216 rest"
    by (simp add: family_reply_def)
  let ?tl = "replicate (20 + 256 - length (take 256 ?m)) 0 @ drop (20 + 256) (?sent @ replicate 564 0)"
  have "get16 4 (take 256 ?m) = 16"
    unfolding m using get16_at [of "le 4 (of_nat (40 + length rest) :: u32)"] by simp
  then have room: "get16 4 (take 256 ?m) \<noteq> 2" "20 < length ?m" "20 + 256 \<le> length (?sent @ replicate 564 0)"
    by (simp_all add: family_reply_def family_wire_def)
  have n: "6 \<le> (256 :: nat)" "20 < (256 :: nat)" "256 = unat (256 :: u32)" "(256 :: nat) < 2 ^ 31" by simp_all
  have q: "snd (view k3) = ?m # []" by (simp only: k3(2) snd_conv)
  obtain k4 where k4: "xnl_recv env 256 (?sent @ replicate 564 0) k3 = Inr (0, take 256 ?m @ ?tl, k4)" "view k4 = (fst (view k3), [])"
    using recv_message [OF assms(1) q room(1) n(1) room(2) n(2) room(3) n(3,4)] by blast
  then have view: "view k4 = (fst (view k), [])" using k3(2) by simp
  have "get16 20 (take 256 ?m @ ?tl) = 11" "get16 34 (take 256 ?m @ ?tl) = 1" "get16 36 (take 256 ?m @ ?tl) = f"
    unfolding m by (simp_all add: get16_def)
  then show ?thesis
    using k1 k2 s k4(1) view L(1) unfolding xnl_connect_def by (simp add: xnl_msg_size_def XNL_RESP_BUFLEN_MIN_def nla_align_def)
qed

section \<open>One command\<close>

lemma length_op_attrs: "length (op_attrs op q dlen) \<le> 14"
  by (cases op) (simp_all add: op_attrs_def queue_attrs_def xnl_msg_add_extra_config_attrs_def opt_attr_def)

lemma recv_nl_msg_reply:
  assumes "\<forall>a \<in> set rs. attr_ok a" "length (enc_all rs) < 2 ^ 31"
  shows "recv_nl_msg d (wire_reply seq op f rs @ post) attrs
    = Inr (sint (fold upd_attr rs attrs ! attr_no XNL_ATTR_ERROR), fold upd_attr rs attrs, if d then concat (map text_of rs) else [])"
proof -
  let ?L = "length (enc_all rs)" and ?hd = "le 4 (of_nat (20 + length (enc_all rs)) :: u32) @ le 2 f @ nl_head 0 seq 0 (op_no op) 0"
  have "sint (of_nat ?L :: u32) = int ?L"
    using assms(2) by (simp add: sint_uint uint_nat unat_of_nat signed_take_bit_int_eq_self_iff)
  moreover have "get32 0 (wire_reply seq op f rs @ post) - 20 = of_nat ?L" by (simp add: wire_reply_def)
  moreover have "recv_attrs d (?hd @ enc_all rs @ post) (length ?hd) (int ?L + 0) attrs []
      = recv_attrs d (?hd @ enc_all rs @ post) (length ?hd + ?L) 0 (fold upd_attr rs attrs) (if d then [] @ concat (map text_of rs) else [])"
    by (rule recv_attrs_all [OF assms(1)]) simp
  moreover have "wire_reply seq op f rs @ post = ?hd @ enc_all rs @ post" by (simp add: wire_reply_def)
  ultimately show ?thesis
    by (simp add: recv_nl_msg_def) (simp add: recv_attrs.simps [of _ _ _ 0])
qed

definition cmd_attrs :: "xcmd_info \<Rightarrow> (xnl_attr_t \<times> u32) list" where
  "cmd_attrs c = (XNL_ATTR_DEV_IDX, if_bdf c) # op_attrs (xop c) (req c) (get_cmd_resp_buf_len (xop c) (req c))"

text \<open>What the library makes of the first reply.\<close>

definition answered :: "byte list \<Rightarrow> nl_attr list \<Rightarrow> xcmd_info \<Rightarrow> u32 list \<Rightarrow> int \<times> xcmd_info \<times> u32 list \<times> byte list list" where
  "answered buf rs c attrs =
     (let vs = fold upd_attr rs attrs; rv = sint (vs ! attr_no XNL_ATTR_ERROR)
      in (rv, if rv < 0 then c else xnl_parse_cmd_attrs buf vs c, vs, if dumps c then concat (map text_of rs) else []))"

text \<open>A command and the first message that comes back; \<open>dlen\<close> is the room for it.\<close>

lemma exchange_raw:
  assumes "link_ok env view fam serve" "fam (vf c) = Some f"
    and "dlen = unat (get_cmd_resp_buf_len (xop c) (req c))" "120 \<le> dlen" "dlen < 2 ^ 31"
    and "serve (vf c) (nl_seq env + 1) (xop c) (cmd_attrs c) (fst (view k)) = (m # ms, d)"
    and "20 < length m" "get16 4 (take dlen m) \<noteq> 2"
    and "buf = take dlen m @ replicate (20 + dlen - length (take dlen m)) 0"
  shows "\<exists>k'. fst (view k') = d \<and> xnl_common_msg_send env c attrs k
    = (case recv_nl_msg (dumps c) buf attrs of
         Inl cr \<Rightarrow> Inl cr
       | Inr (rv, vs, texts) \<Rightarrow> Inr ((rv, if rv < 0 then c else xnl_parse_cmd_attrs buf vs c, vs, texts), k'))"
proof -
  note L = link_okD [OF assms(1)]
  let ?dlen = "get_cmd_resp_buf_len (xop c) (req c)"
  have size: "xnl_msg_size ?dlen = 20 + dlen" using assms(3,4) by (auto simp: xnl_msg_size_def)
  have as: "8 * length (cmd_attrs c) \<le> dlen" using assms(4) length_op_attrs [of "xop c" "req c" ?dlen] by (simp add: cmd_attrs_def)
  obtain k1 where k1: "xnl_connect env (vf c) k = Inr (0, f, k1)" "view k1 = (fst (view k), [])"
    using connect_link [OF assms(1,2)] by blast
  obtain k2 where k2: "nl_sendto env (wire_request f (nl_seq env + 1) (nl_pid env) (xop c) (cmd_attrs c)) k1
      = (int (20 + 8 * length (cmd_attrs c)), k2)" "view k2 = (d, m # ms)"
    using L(5) [OF assms(2), of "nl_seq env + 1" "xop c" "cmd_attrs c" k1] assms(6) k1(2) by fastforce
  let ?buf1 = "wire_request f (nl_seq env + 1) (nl_pid env) (xop c) (cmd_attrs c) @ replicate (dlen - 8 * length (cmd_attrs c)) 0"
  have sent: "xnl_send_cmd env (nl_seq env + 1) (xnl_msg_set_hdr (nl_pid env) f (xop c) (replicate (20 + dlen) 0)) c ?dlen k1
      = Inr (0, ?buf1, k2)"
    using xnl_send_cmd_eq [of "cmd_attrs c" c ?dlen dlen env "nl_seq env + 1" "nl_pid env" f k1] as assms(5) k2(1)
    by (simp add: cmd_attrs_def del: of_nat_add of_nat_mult)
  have len: "length ?buf1 = 20 + dlen" using length_wire_request as by simp
  then obtain k3 where k3: "xnl_recv env ?dlen ?buf1 k2 = Inr (0, buf, k3)" "view k3 = (d, ms)"
    using recv_message [OF assms(1), of k2 m ms dlen ?buf1 ?dlen] k2(2) assms(3-5,7-9) by auto
  have "xnl_common_msg_send env c attrs k
    = (case recv_nl_msg (dumps c) buf attrs of
         Inl cr \<Rightarrow> Inl cr
       | Inr (rv, vs, texts) \<Rightarrow> Inr ((rv, if rv < 0 then c else xnl_parse_cmd_attrs buf vs c, vs, texts), nl_close env k3))"
    using k1 L(1) size sent k3 assms(3) by (simp add: xnl_common_msg_send_def Let_def split: sum.split)
  then show ?thesis using L(7) [of k3] k3(2) by auto
qed

lemma length_wire_reply: "length (wire_reply seq op f rs) = 20 + length (enc_all rs)"
  by (simp add: wire_reply_def)

lemma wire_reply_type: "6 \<le> n \<Longrightarrow> get16 4 (take n (wire_reply seq op f rs)) = f"
  by (simp add: wire_reply_def get16_def)

lemma enc_all_pos: "rs \<noteq> [] \<Longrightarrow> 0 < length (enc_all rs)"
  by (cases rs; cases "hd rs") auto

text \<open>A command and the first reply to it.\<close>

lemma exchange:
  assumes "link_ok env view fam serve" "fam (vf c) = Some f" "f \<noteq> 2"
    and "dlen = unat (get_cmd_resp_buf_len (xop c) (req c))" "120 \<le> dlen" "dlen < 2 ^ 31"
    and "serve (vf c) (nl_seq env + 1) (xop c) (cmd_attrs c) (fst (view k)) = (wire_reply seq op f rs # ms, d)"
    and "rs \<noteq> []" "\<forall>a \<in> set rs. attr_ok a" "20 + length (enc_all rs) \<le> dlen"
  shows "\<exists>k' post. xnl_common_msg_send env c attrs k = Inr (answered (wire_reply seq op f rs @ post) rs c attrs, k') \<and> fst (view k') = d"
proof -
  let ?r = "wire_reply seq op f rs" and ?post = "replicate (20 + dlen - length (wire_reply seq op f rs)) 0"
  have all: "take dlen ?r = ?r" using assms(10) by (simp add: length_wire_reply)
  obtain k' where k': "fst (view k') = d" "xnl_common_msg_send env c attrs k
    = (case recv_nl_msg (dumps c) (?r @ ?post) attrs of
         Inl cr \<Rightarrow> Inl cr
       | Inr (rv, vs, texts) \<Rightarrow> Inr ((rv, if rv < 0 then c else xnl_parse_cmd_attrs (?r @ ?post) vs c, vs, texts), k'))"
    using exchange_raw [OF assms(1,2,4-7), of "?r @ ?post" attrs] all assms(3,5) enc_all_pos [OF assms(8)] wire_reply_type [of dlen seq op f rs]
    by (auto simp: length_wire_reply)
  have "recv_nl_msg (dumps c) (?r @ ?post) attrs
      = Inr (sint (fold upd_attr rs attrs ! attr_no XNL_ATTR_ERROR), fold upd_attr rs attrs, if dumps c then concat (map text_of rs) else [])"
    using recv_nl_msg_reply [OF assms(9), of "dumps c" seq op f ?post attrs] assms(6,10) by simp
  then have "xnl_common_msg_send env c attrs k = Inr (answered (?r @ ?post) rs c attrs, k')"
    using k'(2) by (simp add: answered_def Let_def)
  then show ?thesis using k'(1) by blast
qed

end
