(* ===== verification/Xpdev.thy ===== *)
theory Xpdev
  imports Pim_Prelude
begin

text \<open>
  The queue tables of the QDMA driver, \<^verbatim>\<open>xilinx-qdma/driver/src/qdma_mod.c\<close>, with the character devices
  of \<^verbatim>\<open>cdev.c\<close> and the commands of the PIM interface device (\<^verbatim>\<open>kaim_if_cdev_ioctl\<close>, built under
  \<^verbatim>\<open>NEWTON\<close>).

  A card has three tables, for the host-to-card, card-to-host and completion side of every queue; the
  two directions of a queue share a character device. Devices live in a heap, an address is never
  given twice, and touching one that is gone is the value None. The library \<^verbatim>\<open>libqdma\<close> below and the
  kernel's device core are the record \<open>lib_env\<close> over a state of type \<open>'l\<close>; a call hands out the first
  result and the new state. Locks are held around each operation on a table, so operations are steps.
\<close>

section \<open>State\<close>

abbreviation (input) Q_H2C :: nat where "Q_H2C \<equiv> 0"
abbreviation (input) Q_C2H :: nat where "Q_C2H \<equiv> 1"
abbreviation (input) Q_CMPT :: nat where "Q_CMPT \<equiv> 2"
abbreviation (input) QDMA_QUEUE_IDX_INVALID :: nat where "QDMA_QUEUE_IDX_INVALID \<equiv> 0xFFFF"
abbreviation (input) EINVAL :: int where "EINVAL \<equiv> 22"
abbreviation (input) ENOMEM :: int where "ENOMEM \<equiv> 12"
abbreviation (input) ENOSPC :: int where "ENOSPC \<equiv> 28"

text \<open>The fields of \<^verbatim>\<open>qdma_queue_conf\<close> the driver sets; its bit fields are words of their width.\<close>

record queue_conf =
  qidx :: nat
  st :: bool
  q_type :: nat
  irq_en :: bool
  desc_rng_sz_idx :: "4 word"
  wb_status_en :: bool
  cmpl_status_acc_en :: bool
  cmpl_status_pend_chk :: bool
  desc_bypass :: bool
  pfetch_en :: bool
  conf_fetch_credit :: bool
  c2h_buf_sz_idx :: "4 word"
  cmpl_rng_sz_idx :: "4 word"
  cmpl_desc_sz :: "2 word"
  cmpl_stat_en :: bool
  cmpl_udd_en :: bool
  cmpl_timer_idx :: "4 word"
  cmpl_cnt_th_idx :: "4 word"
  cmpl_trig_mode :: "3 word"
  cmpl_en_intr :: bool
  conf_sw_desc_sz :: "2 word"
  pfetch_bypass :: bool
  cmpl_ovf_chk_dis :: bool
  conf_mm_channel :: "1 word"
  conf_ping_pong :: bool
  aperture_size :: u32

definition conf0 :: queue_conf where
  "conf0 = \<lparr>qidx = 0, st = False, q_type = 0, irq_en = False, desc_rng_sz_idx = 0, wb_status_en = False,
     cmpl_status_acc_en = False, cmpl_status_pend_chk = False, desc_bypass = False, pfetch_en = False,
     conf_fetch_credit = False, c2h_buf_sz_idx = 0, cmpl_rng_sz_idx = 0, cmpl_desc_sz = 0, cmpl_stat_en = False,
     cmpl_udd_en = False, cmpl_timer_idx = 0, cmpl_cnt_th_idx = 0, cmpl_trig_mode = 0, cmpl_en_intr = False,
     conf_sw_desc_sz = 0, pfetch_bypass = False, cmpl_ovf_chk_dis = False, conf_mm_channel = 0,
     conf_ping_pong = False, aperture_size = 0\<rparr>"

record xlnx_qdata =
  qhndl :: nat
  xcdev :: "nat option"

definition no_qdata :: xlnx_qdata where "no_qdata = \<lparr>qhndl = 0, xcdev = None\<rparr>"

record xlnx_pci_dev =
  dev_hndl :: nat
  qmax :: nat
  idx :: u32
  qdata :: "xlnx_qdata list"

record qdma_cdev =
  minor :: nat
  c2h_qhndl :: nat
  h2c_qhndl :: nat
  dir_init :: u16

record dev_conf =
  qsets_max :: nat
  qsets_base :: nat
  bar_num_config :: u32
  bar_num_user :: u32
  bar_num_bypass :: u32
  pdev_bus :: u32
  pdev_slot :: u32
  pdev_func :: u32

record q_state =
  qs_state :: u32
  qs_idx :: u32
  qs_st :: bool
  qs_type :: nat

record 'l drv =
  xpdev_list :: "xlnx_pci_dev list"
  cdevs :: "nat \<Rightarrow> qdma_cdev option"
  cdev_next :: nat
  lib :: 'l

text \<open>
  The calls of \<^verbatim>\<open>libqdma\<close>, by device handle. \<open>l_queue_add\<close> answers with the result, the index the queue
  got and its handle. \<open>k_device_create\<close> is 0 where there is no class.
\<close>

record 'l lib_env =
  l_queue_add :: "nat \<Rightarrow> queue_conf \<Rightarrow> 'l \<Rightarrow> (int \<times> nat \<times> nat) \<times> 'l"
  l_queue_remove :: "nat \<Rightarrow> nat \<Rightarrow> 'l \<Rightarrow> int \<times> 'l"
  l_queue_get_config :: "nat \<Rightarrow> nat \<Rightarrow> 'l \<Rightarrow> int \<times> queue_conf"
  l_queue_config :: "nat \<Rightarrow> nat \<Rightarrow> queue_conf \<Rightarrow> 'l \<Rightarrow> int \<times> 'l"
  l_queue_start :: "nat \<Rightarrow> nat \<Rightarrow> 'l \<Rightarrow> int \<times> 'l"
  l_queue_stop :: "nat \<Rightarrow> nat \<Rightarrow> 'l \<Rightarrow> int \<times> 'l"
  l_queue_state :: "nat \<Rightarrow> nat \<Rightarrow> 'l \<Rightarrow> int \<times> q_state"
  l_get_config :: "nat \<Rightarrow> 'l \<Rightarrow> int \<times> dev_conf"
  l_c2h_buf_sz :: "nat \<Rightarrow> 'l \<Rightarrow> int \<times> u32 list"
  l_qmax :: "nat \<Rightarrow> 'l \<Rightarrow> nat"
  k_alloc :: "'l \<Rightarrow> bool \<times> 'l"
  k_cdev_add :: "nat \<Rightarrow> 'l \<Rightarrow> int \<times> 'l"
  k_device_create :: "nat \<Rightarrow> 'l \<Rightarrow> int \<times> 'l"
  cdev_minor_cnt :: nat

section \<open>Character devices\<close>

definition dir_bit :: "nat \<Rightarrow> u16" where
  "dir_bit t = push_bit t 1"

definition set_hndl :: "nat \<Rightarrow> nat \<Rightarrow> qdma_cdev \<Rightarrow> qdma_cdev" where
  "set_hndl t h c = (if t = Q_C2H then c\<lparr>c2h_qhndl := h\<rparr> else c\<lparr>h2c_qhndl := h\<rparr>)"

text \<open>The result, and the device where it is 0.\<close>

definition qdma_cdev_create :: "'l lib_env \<Rightarrow> queue_conf \<Rightarrow> nat \<Rightarrow> nat \<Rightarrow> 'l drv \<Rightarrow> (int \<times> nat option) \<times> 'l drv" where
  "qdma_cdev_create env conf mnr h s =
     (case k_alloc env (lib s) of (ok, l1) \<Rightarrow>
        if \<not> ok then ((- ENOMEM, None), s\<lparr>lib := l1\<rparr>)
        else if cdev_minor_cnt env \<le> mnr then ((- ENOSPC, None), s\<lparr>lib := l1\<rparr>)
        else case k_cdev_add env mnr l1 of (rv, l2) \<Rightarrow>
          if rv < 0 then ((rv, None), s\<lparr>lib := l2\<rparr>)
          else case k_device_create env mnr l2 of (rv2, l3) \<Rightarrow>
            if rv2 < 0 then ((rv2, None), s\<lparr>lib := l3\<rparr>)
            else let c = set_hndl (q_type conf) h \<lparr>minor = mnr, c2h_qhndl = 0, h2c_qhndl = 0, dir_init = dir_bit (q_type conf)\<rparr>
                 in ((0, Some (cdev_next s)),
                     s\<lparr>cdevs := (cdevs s)(cdev_next s \<mapsto> c), cdev_next := cdev_next s + 1, lib := l3\<rparr>))"

definition qdma_cdev_destroy :: "nat \<Rightarrow> 'l drv \<Rightarrow> 'l drv" where
  "qdma_cdev_destroy c s = s\<lparr>cdevs := (cdevs s)(c := None)\<rparr>"

section \<open>The tables\<close>

text \<open>A card is the position \<open>d\<close> of its device in the list.\<close>

definition xpdev_find_by_idx :: "u32 \<Rightarrow> 'l drv \<Rightarrow> nat option" where
  "xpdev_find_by_idx i s = List.find (\<lambda>d. idx (xpdev_list s ! d) = i) [0..<length (xpdev_list s)]"

definition set_qdata :: "nat \<Rightarrow> nat \<Rightarrow> xlnx_qdata \<Rightarrow> 'l drv \<Rightarrow> 'l drv" where
  "set_qdata d j q s = s\<lparr>xpdev_list := (xpdev_list s)[d := (xpdev_list s ! d)\<lparr>qdata := (qdata (xpdev_list s ! d))[j := q]\<rparr>]\<rparr>"

definition xpdev_queue_get :: "xlnx_pci_dev \<Rightarrow> nat \<Rightarrow> nat \<Rightarrow> bool \<Rightarrow> nat option" where
  "xpdev_queue_get x i t check_qhndl =
     (if qmax x \<le> i then None
      else let j = i + (if t = Q_C2H then qmax x else 0) + (if t = Q_CMPT then 2 * qmax x else 0)
           in if check_qhndl \<and> qhndl (qdata x ! j) = 0 \<and> xcdev (qdata x ! j) = None then None else Some j)"

text \<open>The part of \<^verbatim>\<open>xpdev_queue_delete\<close> that leaves the character device.\<close>

definition leave_cdev :: "nat \<Rightarrow> nat \<Rightarrow> 'l drv \<Rightarrow> 'l drv option" where
  "leave_cdev t c s =
     (case cdevs s c of
        None \<Rightarrow> None
      | Some cd \<Rightarrow>
          let f = dir_init cd AND NOT (dir_bit (if t \<noteq> 0 then 1 else 0));
              s1 = s\<lparr>cdevs := (cdevs s)(c \<mapsto> cd\<lparr>dir_init := f\<rparr>)\<rparr>
          in Some (if f = 0 then qdma_cdev_destroy c s1 else s1))"

definition xpdev_queue_delete :: "'l lib_env \<Rightarrow> nat \<Rightarrow> nat \<Rightarrow> nat \<Rightarrow> 'l drv \<Rightarrow> (int \<times> 'l drv) option" where
  "xpdev_queue_delete env d i t s =
     (let x = xpdev_list s ! d
      in case xpdev_queue_get x i t True of
           None \<Rightarrow> Some (- EINVAL, s)
         | Some j \<Rightarrow>
             if t \<noteq> Q_CMPT \<and> xcdev (qdata x ! j) = None then Some (- EINVAL, s)
             else case (if qhndl (qdata x ! j) \<noteq> QDMA_QUEUE_IDX_INVALID
                        then l_queue_remove env (dev_hndl x) (qhndl (qdata x ! j)) (lib s) else (0, lib s)) of (rv, l1) \<Rightarrow>
               let s1 = s\<lparr>lib := l1\<rparr>
               in if rv < 0 then Some (rv, s1)
                  else (case (if t \<noteq> Q_CMPT then leave_cdev t (the (xcdev (qdata x ! j))) s1 else Some s1) of
                          None \<Rightarrow> None
                        | Some s2 \<Rightarrow> Some (rv, set_qdata d j no_qdata s2)))"

text \<open>Joining the character device the other direction of the queue has.\<close>

definition join_cdev :: "nat \<Rightarrow> nat \<Rightarrow> nat \<Rightarrow> 'l drv \<Rightarrow> 'l drv option" where
  "join_cdev t h c s =
     (case cdevs s c of
        None \<Rightarrow> None
      | Some cd \<Rightarrow> Some (s\<lparr>cdevs := (cdevs s)(c \<mapsto> (set_hndl t h cd)\<lparr>dir_init := dir_init cd OR dir_bit t\<rparr>)\<rparr>))"

definition other_cdev :: "xlnx_pci_dev \<Rightarrow> nat \<Rightarrow> nat \<Rightarrow> nat option" where
  "other_cdev x i t =
     (if t = Q_CMPT then None
      else case xpdev_queue_get x i (if t = Q_C2H then 0 else 1) False of
             None \<Rightarrow> None
           | Some j \<Rightarrow> xcdev (qdata x ! j))"

text \<open>The result, the index the queue got, and the state.\<close>

definition xpdev_queue_add :: "'l lib_env \<Rightarrow> nat \<Rightarrow> queue_conf \<Rightarrow> 'l drv \<Rightarrow> (int \<times> nat \<times> 'l drv) option" where
  "xpdev_queue_add env d conf s =
     (let x = xpdev_list s ! d; t = q_type conf
      in case l_queue_add env (dev_hndl x) conf (lib s) of ((rv, i, h), l1) \<Rightarrow>
        let s1 = s\<lparr>lib := l1\<rparr>
        in if rv < 0 then Some (rv, i, s1)
           else case xpdev_queue_get x i t False of
             None \<Rightarrow> Some (rv, i, s1)
           | Some j \<Rightarrow>
               (case other_cdev x i t of
                  Some c \<Rightarrow>
                    (case join_cdev t h c (set_qdata d j \<lparr>qhndl = h, xcdev = Some c\<rparr> s1) of
                       None \<Rightarrow> None
                     | Some s2 \<Rightarrow> Some (0, i, s2))
                | None \<Rightarrow>
                    (case l_get_config env (dev_hndl x) (lib s1) of (rv1, conf1) \<Rightarrow>
                       if rv1 < 0 then Some (rv1, i, s1)
                       else if t = Q_CMPT
                       then Some (rv1, i, set_qdata d j ((qdata x ! j)\<lparr>qhndl := h\<rparr>) s1)
                       else case qdma_cdev_create env conf (qsets_base conf1 + i) h s1 of ((rv2, c), s2) \<Rightarrow>
                              Some (rv2, i, set_qdata d j \<lparr>qhndl = h, xcdev = c\<rparr> s2))))"

text \<open>\<^verbatim>\<open>xpdev_queue_delete_all\<close>; the results are dropped.\<close>

fun delete_each :: "'l lib_env \<Rightarrow> nat \<Rightarrow> (nat \<times> nat) list \<Rightarrow> 'l drv \<Rightarrow> 'l drv option" where
  "delete_each env d [] s = Some s"
| "delete_each env d ((i, t) # qs) s =
     (case xpdev_queue_delete env d i t s of None \<Rightarrow> None | Some (_, s1) \<Rightarrow> delete_each env d qs s1)"

definition xpdev_queue_delete_all :: "'l lib_env \<Rightarrow> nat \<Rightarrow> 'l drv \<Rightarrow> 'l drv option" where
  "xpdev_queue_delete_all env d s =
     delete_each env d (concat (map (\<lambda>i. [(i, 0), (i, 1)]) [0..<qmax (xpdev_list s ! d)])) s"

section \<open>Resetting a card\<close>

text \<open>
  \<^verbatim>\<open>xpdev_device_cleanup\<close> walks over both directions of all queues; a device both use is left by the
  first and destroyed by the second.
\<close>

fun cleanup_each :: "nat \<Rightarrow> nat list \<Rightarrow> 'l drv \<Rightarrow> 'l drv option" where
  "cleanup_each d [] s = Some s"
| "cleanup_each d (j # js) s =
     (case xcdev (qdata (xpdev_list s ! d) ! j) of
        None \<Rightarrow> cleanup_each d js (set_qdata d j no_qdata s)
      | Some c \<Rightarrow>
          (case cdevs s c of
             None \<Rightarrow> None
           | Some cd \<Rightarrow>
               cleanup_each d js (set_qdata d j no_qdata
                 (if dir_init cd = 1 \<or> dir_init cd = 2 then qdma_cdev_destroy c s
                  else s\<lparr>cdevs := (cdevs s)(c \<mapsto> cd\<lparr>dir_init := drop_bit 1 (dir_init cd)\<rparr>)\<rparr>))))"

definition xpdev_device_cleanup :: "nat \<Rightarrow> 'l drv \<Rightarrow> 'l drv option" where
  "xpdev_device_cleanup d s = cleanup_each d [0..<qmax (xpdev_list s ! d) * 2] s"

text \<open>
  \<^verbatim>\<open>qdma_reset_prepare\<close>, called before a reset of the function. What it does to the device's structure,
  which is \<^verbatim>\<open>libqdma\<close>'s, are the acts of \<open>reset_act\<close>: going offline, setting and checking the function-level
  reset of a Versal hard IP, and the assignments \<^verbatim>\<open>qsets_max = 0\<close> and \<^verbatim>\<open>qsets_base = -1\<close> to its configuration.
\<close>

datatype reset_act = Going_Offline | Flr_Quirk_Set | Qsets_Max int | Qsets_Base int | Flr_Quirk_Check

record 'l reset_env =
  hard_ip :: "nat \<Rightarrow> 'l \<Rightarrow> bool"
  reset_does :: "reset_act \<Rightarrow> nat \<Rightarrow> 'l \<Rightarrow> 'l"

definition qdma_reset_prepare :: "'l lib_env \<Rightarrow> 'l reset_env \<Rightarrow> nat \<Rightarrow> 'l drv \<Rightarrow> 'l drv option" where
  "qdma_reset_prepare env offline d s =
     (let h = dev_hndl (xpdev_list s ! d);
          l1 = reset_does offline Going_Offline h (lib s);
          l2 = (if hard_ip offline h l1 then reset_does offline Flr_Quirk_Set h l1 else l1)
      in case xpdev_queue_delete_all env d (s\<lparr>lib := l2\<rparr>) of
           None \<Rightarrow> None
         | Some s1 \<Rightarrow>
             (case xpdev_device_cleanup d s1 of
                None \<Rightarrow> None
              | Some s2 \<Rightarrow>
                  (let l3 = reset_does offline (Qsets_Base (- 1)) h (reset_does offline (Qsets_Max 0) h (lib s2))
                   in Some (s2\<lparr>lib := if hard_ip offline h l3 then reset_does offline Flr_Quirk_Check h l3 else l3\<rparr>))))"

section \<open>Starting queues\<close>

text \<open>
  A range of queues in one direction, or in both when the request is for queue pairs: the directions
  of one queue, and all of them in order.
\<close>

definition dirs :: "bool \<Rightarrow> nat \<Rightarrow> nat list" where
  "dirs is_qp t = (if t \<noteq> Q_CMPT \<and> is_qp then [t, if t = 0 then 1 else 0] else [t])"

definition queue_range :: "bool \<Rightarrow> nat \<Rightarrow> nat \<Rightarrow> nat \<Rightarrow> (nat \<times> nat) list" where
  "queue_range is_qp t i n = concat (map (\<lambda>i. map (Pair i) (dirs is_qp t)) [i..<i + n])"

fun start_each :: "'l lib_env \<Rightarrow> nat \<Rightarrow> (nat \<times> nat) list \<Rightarrow> int \<Rightarrow> 'l drv \<Rightarrow> int \<times> 'l drv" where
  "start_each env d [] rv s = (rv, s)"
| "start_each env d ((i, t) # qs) rv s =
     (let x = xpdev_list s ! d
      in case xpdev_queue_get x i t True of
           None \<Rightarrow> (rv, s)
         | Some j \<Rightarrow>
             (case l_queue_start env (dev_hndl x) (qhndl (qdata x ! j)) (lib s) of (rv1, l1) \<Rightarrow>
                if rv1 < 0 then (rv1, s\<lparr>lib := l1\<rparr>) else start_each env d qs rv1 (s\<lparr>lib := l1\<rparr>)))"

text \<open>\<^verbatim>\<open>nl_work_handler_q_start\<close>: a queue that is not there ends the work with the result so far.\<close>

definition nl_work_handler_q_start :: "'l lib_env \<Rightarrow> nat \<Rightarrow> bool \<Rightarrow> nat \<Rightarrow> nat \<Rightarrow> nat \<Rightarrow> 'l drv \<Rightarrow> int \<times> 'l drv" where
  "nl_work_handler_q_start env d is_qp t i n s = start_each env d (queue_range is_qp t i n) 0 s"

section \<open>The PIM interface device\<close>

text \<open>The parameter block, as 32-bit words; a queue type goes into two bits, and into eight for a look-up.\<close>

record aim_ioctl =
  aim_qidx :: u32
  aim_type :: u32
  aim_st :: u32
  aim_bd :: u32

datatype aim_cmd = QUEUE_ADD aim_ioctl | QUEUE_START aim_ioctl | QUEUE_STOP aim_ioctl | QUEUE_DELETE aim_ioctl
  | GET_FPGA_MEM u32 | OTHER_AIM_CMD

definition aim_conf :: "aim_ioctl \<Rightarrow> queue_conf" where
  "aim_conf p = conf0\<lparr>qidx := unat (take_bit 24 (aim_qidx p)), q_type := unat (take_bit 2 (aim_type p)), st := bit (aim_st p) 0\<rparr>"

definition aim_start_conf :: "aim_ioctl \<Rightarrow> queue_conf" where
  "aim_start_conf p = (aim_conf p)\<lparr>desc_rng_sz_idx := 1, wb_status_en := True, cmpl_status_acc_en := True,
     cmpl_status_pend_chk := True, cmpl_stat_en := True, cmpl_trig_mode := 1, cmpl_en_intr := True,
     irq_en := (q_type (aim_conf p) = 0)\<rparr>"

definition aim_slot :: "aim_ioctl \<Rightarrow> nat \<times> nat" where
  "aim_slot p = (unat (aim_qidx p), unat (take_bit 8 (aim_type p)))"

definition on_queue :: "nat \<Rightarrow> nat \<times> nat \<Rightarrow> (xlnx_pci_dev \<Rightarrow> nat \<Rightarrow> 'l drv \<Rightarrow> int \<times> 'l drv) \<Rightarrow> 'l drv \<Rightarrow> int \<times> 'l drv" where
  "on_queue d it act s =
     (let x = xpdev_list s ! d
      in case xpdev_queue_get x (fst it) (snd it) True of
           None \<Rightarrow> (- EINVAL, s)
         | Some j \<Rightarrow> act x (qhndl (qdata x ! j)) s)"

definition aim_start :: "'l lib_env \<Rightarrow> aim_ioctl \<Rightarrow> xlnx_pci_dev \<Rightarrow> nat \<Rightarrow> 'l drv \<Rightarrow> int \<times> 'l drv" where
  "aim_start env p x h s =
     (case l_queue_config env (dev_hndl x) h (aim_start_conf p) (lib s) of (rv, l1) \<Rightarrow>
        if rv < 0 then (rv, s\<lparr>lib := l1\<rparr>)
        else case l_queue_start env (dev_hndl x) h l1 of (rv1, l2) \<Rightarrow> (rv1, s\<lparr>lib := l2\<rparr>))"

definition aim_stop :: "'l lib_env \<Rightarrow> xlnx_pci_dev \<Rightarrow> nat \<Rightarrow> 'l drv \<Rightarrow> int \<times> 'l drv" where
  "aim_stop env x h s = (case l_queue_stop env (dev_hndl x) h (lib s) of (rv, l1) \<Rightarrow> (rv, s\<lparr>lib := l1\<rparr>))"

definition on_card :: "u32 \<Rightarrow> (nat \<Rightarrow> (int \<times> 'l drv) option) \<Rightarrow> 'l drv \<Rightarrow> (int \<times> 'l drv) option" where
  "on_card bd act s = (case xpdev_find_by_idx bd s of None \<Rightarrow> Some (- EINVAL, s) | Some d \<Rightarrow> act d)"

definition kaim_if_cdev_ioctl :: "'l lib_env \<Rightarrow> aim_cmd \<Rightarrow> 'l drv \<Rightarrow> (int \<times> 'l drv) option" where
  "kaim_if_cdev_ioctl env cmd s =
     (case cmd of
        OTHER_AIM_CMD \<Rightarrow> Some (0, s)
      | GET_FPGA_MEM bd \<Rightarrow> on_card bd (\<lambda>d. Some (0, s)) s
      | QUEUE_ADD p \<Rightarrow>
          on_card (aim_bd p) (\<lambda>d. map_option (\<lambda>(rv, _, s1). (rv, s1)) (xpdev_queue_add env d (aim_conf p) s)) s
      | QUEUE_START p \<Rightarrow> on_card (aim_bd p) (\<lambda>d. Some (on_queue d (aim_slot p) (aim_start env p) s)) s
      | QUEUE_STOP p \<Rightarrow> on_card (aim_bd p) (\<lambda>d. Some (on_queue d (aim_slot p) (aim_stop env) s)) s
      | QUEUE_DELETE p \<Rightarrow> on_card (aim_bd p) (\<lambda>d. xpdev_queue_delete env d (fst (aim_slot p)) (snd (aim_slot p)) s) s)"

end
