(* ===== verification/Xnl_Server.thy ===== *)
theory Xnl_Server
  imports Xnl_Wire Xpdev
begin

text \<open>
  The driver's side of the control channel: \<^verbatim>\<open>xilinx-qdma/driver/src/nl.c\<close>, the handlers of the commands
  the queue set-up uses. A handler gets the attributes of the request as a function (\<^verbatim>\<open>info->attrs\<close>) and
  gives its result, the replies it sent, in order, and the new state of the driver; None is a touch
  of what is not there: a character device that is gone, an attribute nobody sent, a buffer of no
  bytes. The result goes to the netlink core, the replies to the caller.

  What a reply says in words is a \<open>remark\<close>, turned into text by a parameter; \<open>Unset\<close> is a buffer of the
  stack nobody has written. Building and sending a reply is taken to succeed.
\<close>

section \<open>Requests and replies\<close>

type_synonym attr_fun = "xnl_attr_t \<Rightarrow> u32 option"

datatype remark = Missing_Attr | No_Device | Both_Modes | Bad_Index | From_Lib | Zero_Qs | Bad_Type
  | Oom | Oom_In_Dump | Added nat | Started | Stopped | Deleted | Unset
  | No_Count | Too_Many | Reserved_Vector | Bad_Bar | Versions "byte list list" | Dumps "byte list list" | Completions "byte list list"

record 'l srv_env =
  dev_env :: "'l lib_env"
  say :: "remark \<Rightarrow> byte list"
  describe :: "xlnx_pci_dev \<Rightarrow> dev_conf \<Rightarrow> byte list"

definition xnl_respond_buffer :: "'l srv_env \<Rightarrow> remark \<Rightarrow> int \<Rightarrow> nl_attr list" where
  "xnl_respond_buffer env n error = [Txt (say env n), Num XNL_ATTR_ERROR (word_of_int error)]"

definition respond_text :: "byte list \<Rightarrow> int \<Rightarrow> nl_attr list" where
  "respond_text t error = [Txt t, Num XNL_ATTR_ERROR (word_of_int error)]"

text \<open>A reply whose text is sent once more, with another result.\<close>

definition again :: "nl_attr list \<Rightarrow> int \<Rightarrow> nl_attr list" where
  "again r error = take 1 r @ [Num XNL_ATTR_ERROR (word_of_int error)]"

type_synonym 'l outcome = "(int \<times> nl_attr list list \<times> 'l drv) option"

text \<open>The card a request names, or the reply that there is none.\<close>

definition xnl_rcv_check_xpdev :: "'l srv_env \<Rightarrow> attr_fun \<Rightarrow> 'l drv \<Rightarrow> nl_attr list + nat" where
  "xnl_rcv_check_xpdev env at s =
     (case at XNL_ATTR_DEV_IDX of
        None \<Rightarrow> Inl (xnl_respond_buffer env Missing_Attr (- EINVAL))
      | Some i \<Rightarrow>
          (case xpdev_find_by_idx i s of
             None \<Rightarrow> Inl (xnl_respond_buffer env No_Device (- EINVAL))
           | Some d \<Rightarrow> Inr d))"

definition has :: "u32 \<Rightarrow> u32 \<Rightarrow> bool" where
  "has f b \<longleftrightarrow> f AND b \<noteq> 0"

definition XNL_F_Q_CMPL :: u32 where "XNL_F_Q_CMPL = 0x8000"

definition default_flags :: "u32 \<Rightarrow> u32" where
  "default_flags f =
     (let f1 = if \<not> has f XNL_F_QMODE_ST \<and> \<not> has f XNL_F_QMODE_MM then f OR XNL_F_QMODE_MM else f
      in if \<not> has f1 XNL_F_QDIR_H2C \<and> \<not> has f1 XNL_F_QDIR_C2H \<and> \<not> has f1 XNL_F_Q_CMPL then f1 OR XNL_F_QDIR_H2C else f1)"

text \<open>The queues a request names; a bad request is answered with the error code 0.\<close>

definition qconf_get :: "'l srv_env \<Rightarrow> attr_fun \<Rightarrow> nl_attr list + queue_conf \<times> bool" where
  "qconf_get env at =
     (case at XNL_ATTR_QFLAG of
        None \<Rightarrow> Inl (xnl_respond_buffer env Missing_Attr 0)
      | Some f0 \<Rightarrow>
          if has f0 XNL_F_QMODE_ST \<and> has f0 XNL_F_QMODE_MM then Inl (xnl_respond_buffer env Both_Modes 0)
          else let f = default_flags f0
               in case at XNL_ATTR_QIDX of
                    None \<Rightarrow> Inl (xnl_respond_buffer env Missing_Attr 0)
                  | Some i \<Rightarrow> Inr (conf0\<lparr>qidx := unat (take_bit 24 i), st := has f XNL_F_QMODE_ST,
                      q_type := (if has f XNL_F_QDIR_H2C then Q_H2C else if has f XNL_F_QDIR_C2H then Q_C2H else Q_CMPT)\<rparr>,
                      f AND XNL_F_QDIR_BOTH = XNL_F_QDIR_BOTH))"

definition set_if :: "u32 option \<Rightarrow> (u32 \<Rightarrow> 'a \<Rightarrow> 'a) \<Rightarrow> 'a \<Rightarrow> 'a" where
  "set_if v f c = (case v of None \<Rightarrow> c | Some w \<Rightarrow> f w c)"

definition xnl_extract_extra_config_attr :: "attr_fun \<Rightarrow> u32 \<Rightarrow> queue_conf \<Rightarrow> queue_conf" where
  "xnl_extract_extra_config_attr at f c =
     (let c1 = c\<lparr>desc_bypass := has f 0x20, pfetch_bypass := has f 0x2000, pfetch_en := has f 0x10,
                 wb_status_en := has f 0x100, cmpl_status_acc_en := has f 0x80, cmpl_status_pend_chk := has f 0x200,
                 conf_fetch_credit := has f XNL_F_FETCH_CREDIT, cmpl_stat_en := has f 0x400, cmpl_en_intr := has f 0x800,
                 cmpl_udd_en := has f 0x1000 \<or> q_type c = Q_CMPT, cmpl_ovf_chk_dis := has f 0x4000\<rparr>;
          c2 = set_if (at XNL_ATTR_QRNGSZ_IDX) (\<lambda>v c. c\<lparr>desc_rng_sz_idx := ucast v, cmpl_rng_sz_idx := ucast v\<rparr>) c1;
          c3 = set_if (at XNL_ATTR_C2H_BUFSZ_IDX) (\<lambda>v c. c\<lparr>c2h_buf_sz_idx := ucast v\<rparr>) c2;
          c4 = set_if (at XNL_ATTR_CMPT_TIMER_IDX) (\<lambda>v c. c\<lparr>cmpl_timer_idx := ucast v\<rparr>) c3;
          c5 = set_if (at XNL_ATTR_CMPT_CNTR_IDX) (\<lambda>v c. c\<lparr>cmpl_cnt_th_idx := ucast v\<rparr>) c4;
          c6 = set_if (at XNL_ATTR_MM_CHANNEL) (\<lambda>v c. c\<lparr>conf_mm_channel := ucast v\<rparr>) c5;
          c7 = set_if (at XNL_ATTR_CMPT_DESC_SIZE) (\<lambda>v c. c\<lparr>cmpl_desc_sz := ucast v\<rparr>) c6;
          c8 = set_if (at XNL_ATTR_SW_DESC_SIZE) (\<lambda>v c. c\<lparr>conf_sw_desc_sz := ucast v\<rparr>) c7;
          c9 = set_if (at XNL_ATTR_PING_PONG_EN) (\<lambda>v c. c\<lparr>conf_ping_pong := True\<rparr>) c8;
          c10 = set_if (at XNL_ATTR_APERTURE_SZ) (\<lambda>v c. c\<lparr>aperture_size := v\<rparr>) c9
      in c10\<lparr>cmpl_trig_mode := (case at XNL_ATTR_CMPT_TRIG_MODE of None \<Rightarrow> 1 | Some v \<Rightarrow> ucast v)\<rparr>)"

text \<open>\<^verbatim>\<open>xnl_rcv_check_qidx\<close>: a queue that is not there is answered with the error code 0 too.\<close>

definition xnl_rcv_check_qidx :: "'l srv_env \<Rightarrow> nat \<Rightarrow> nat \<Rightarrow> nat \<Rightarrow> 'l drv \<Rightarrow> nl_attr list + nat" where
  "xnl_rcv_check_qidx env d i t s =
     (let x = xpdev_list s ! d
      in case xpdev_queue_get x i t True of
           None \<Rightarrow> Inl (xnl_respond_buffer env Bad_Index 0)
         | Some j \<Rightarrow> Inr (qhndl (qdata x ! j)))"

section \<open>Adding queues\<close>

text \<open>
  The result is that of the last queue. Where the request leaves the index to the library, each call
  changes it, and the next starts from it.
\<close>

fun add_each :: "'l srv_env \<Rightarrow> nat \<Rightarrow> bool \<Rightarrow> queue_conf \<Rightarrow> (nat \<times> nat) list \<Rightarrow> int \<Rightarrow> 'l drv \<Rightarrow> (int \<times> bool \<times> 'l drv) option" where
  "add_each env d auto conf [] rv s = Some (rv, True, s)"
| "add_each env d auto conf ((i, t) # qs) rv s =
     (let conf1 = conf\<lparr>q_type := t, qidx := (if auto then qidx conf else i mod 2 ^ 24)\<rparr>
      in case xpdev_queue_add (dev_env env) d conf1 s of
           None \<Rightarrow> None
         | Some (rv1, i1, s1) \<Rightarrow>
             if rv1 < 0 then Some (rv1, False, s1)
             else add_each env d auto (conf1\<lparr>qidx := i1\<rparr>) qs rv1 s1)"

fun digits :: "nat \<Rightarrow> nat" where
  "digits n = (if n < 10 then 1 else Suc (digits (n div 10)))"

text \<open>The length of the text \<^verbatim>\<open>ERR! xnl OOM %d.\<close> and its newline, which is sent as the error code.\<close>

definition oom_len :: "u32 \<Rightarrow> int" where
  "oom_len l = int (15 + (if sint l < 0 then Suc (digits (nat (- sint l))) else digits (nat (sint l))))"

definition resp_len :: "attr_fun \<Rightarrow> u32" where
  "resp_len at = (case at XNL_ATTR_RSP_BUF_LEN of None \<Rightarrow> 20480 | Some l \<Rightarrow> l)"

lemma resp_len_pos: "at XNL_ATTR_RSP_BUF_LEN \<noteq> Some 0 \<Longrightarrow> resp_len at \<noteq> 0"
  by (auto simp: resp_len_def split: option.split)

text \<open>
  The answer is built in a buffer of the size the request asks for; one of no bytes is allocated, and
  touched when the answer is sent.
\<close>

definition xnl_q_add :: "'l srv_env \<Rightarrow> attr_fun \<Rightarrow> 'l drv \<Rightarrow> 'l outcome" where
  "xnl_q_add env at s =
     (case xnl_rcv_check_xpdev env at s of
        Inl r \<Rightarrow> Some (- EINVAL, [r], s)
      | Inr d \<Rightarrow>
          (case k_alloc (dev_env env) (lib s) of (ok, l1) \<Rightarrow>
             let s1 = s\<lparr>lib := l1\<rparr>; len = resp_len at
             in if \<not> ok then Some (- ENOMEM, [xnl_respond_buffer env Oom (oom_len len)], s1)
                else if len = 0 then None
                else if l_qmax (dev_env env) (dev_hndl (xpdev_list s1 ! d)) (lib s1) = 0
                then Some (0, [xnl_respond_buffer env Zero_Qs 8], s1)
                else case qconf_get env at of
                  Inl r \<Rightarrow> Some (- EINVAL, [r], s1)
                | Inr (conf, is_qp) \<Rightarrow>
                    (case at XNL_ATTR_NUM_Q of
                       None \<Rightarrow> Some (- 1, [xnl_respond_buffer env Missing_Attr (- 1)], s1)
                     | Some n \<Rightarrow>
                         let i = qidx conf mod 2 ^ 16
                         in case add_each env d (i = QDMA_QUEUE_IDX_INVALID) conf (queue_range is_qp (q_type conf) i (unat n)) 0 s1 of
                              None \<Rightarrow> None
                            | Some (rv, done, s2) \<Rightarrow>
                                Some (if rv < 0 then rv else 0,
                                  [xnl_respond_buffer env (if done then Added (unat n) else From_Lib) rv], s2))))"

section \<open>Starting queues\<close>

definition xnl_q_buf_idx_get :: "'l srv_env \<Rightarrow> xlnx_pci_dev \<Rightarrow> 'l drv \<Rightarrow> nat" where
  "xnl_q_buf_idx_get env x s =
     (case l_c2h_buf_sz (dev_env env) (dev_hndl x) (lib s) of (rv, szs) \<Rightarrow>
        if rv < 0 then 0
        else case List.find (\<lambda>i. szs ! i = 4096) [0..<16] of None \<Rightarrow> 0 | Some i \<Rightarrow> i)"

text \<open>
  The configuration of each queue, before any is started: the result and the replies of a failure, or
  the state. A buffer index chosen for a streaming queue stays for those after it.
\<close>

fun config_each :: "'l srv_env \<Rightarrow> nat \<Rightarrow> bool \<Rightarrow> queue_conf \<Rightarrow> (nat \<times> nat) list \<Rightarrow> int \<Rightarrow> 'l drv
    \<Rightarrow> (int \<times> nl_attr list list \<times> remark \<times> 'l drv) + 'l drv" where
  "config_each env d bufsz conf [] rv s = Inr s"
| "config_each env d bufsz conf ((i, t) # qs) rv s =
     (let x = xpdev_list s ! d; e = dev_env env; conf1 = conf\<lparr>q_type := t, qidx := i mod 2 ^ 24\<rparr>
      in case xnl_rcv_check_qidx env d (qidx conf1) t s of
           Inl r \<Rightarrow> Inl (rv, [r], Unset, s)
         | Inr h \<Rightarrow>
             (case l_queue_get_config e (dev_hndl x) h (lib s) of (rv1, old) \<Rightarrow>
                if rv1 < 0 then Inl (rv1, [], From_Lib, s)
                else let conf2 = (if t \<noteq> Q_CMPT \<and> st old \<and> q_type old \<noteq> 0 \<and> \<not> bufsz
                                  then conf1\<lparr>c2h_buf_sz_idx := of_nat (xnl_q_buf_idx_get env x s)\<rparr> else conf1)
                     in case l_queue_config e (dev_hndl x) h conf2 (lib s) of (rv2, l1) \<Rightarrow>
                       if rv2 < 0 then Inl (rv2, [], From_Lib, s\<lparr>lib := l1\<rparr>)
                       else config_each env d bufsz conf2 qs rv2 (s\<lparr>lib := l1\<rparr>)))"

text \<open>
  \<^verbatim>\<open>xpdev_nl_queue_start\<close> replies itself. After the configuration of queue pairs the type is that of
  the second direction.
\<close>

definition xpdev_nl_queue_start :: "'l srv_env \<Rightarrow> nat \<Rightarrow> bool \<Rightarrow> nat \<Rightarrow> nat \<Rightarrow> nat \<Rightarrow> 'l drv \<Rightarrow> int \<times> nl_attr list list \<times> 'l drv" where
  "xpdev_nl_queue_start env d is_qp t i n s =
     (case k_alloc (dev_env env) (lib s) of (ok, l1) \<Rightarrow>
        if \<not> ok then (- ENOMEM, [], s\<lparr>lib := l1\<rparr>)
        else case nl_work_handler_q_start (dev_env env) d is_qp t i n (s\<lparr>lib := l1\<rparr>) of (rv, s1) \<Rightarrow>
          (rv, [xnl_respond_buffer env (if rv < 0 then From_Lib else Started) rv], s1))"

text \<open>The queues are configured, all of them, and then started.\<close>

definition start_queues :: "'l srv_env \<Rightarrow> nat \<Rightarrow> bool \<Rightarrow> bool \<Rightarrow> queue_conf \<Rightarrow> nat \<Rightarrow> nat \<Rightarrow> 'l drv
    \<Rightarrow> int \<times> nl_attr list list \<times> 'l drv" where
  "start_queues env d is_qp bufsz conf i k s =
     (let t = q_type conf
      in case config_each env d bufsz conf (queue_range is_qp t i k) 0 s of
           Inl (rv, rs, n, s1) \<Rightarrow> (0, rs @ [xnl_respond_buffer env n rv], s1)
         | Inr s1 \<Rightarrow>
             (case xpdev_nl_queue_start env d is_qp (if 0 < k then last (dirs is_qp t) else t) i k s1 of (rv, rs, s2) \<Rightarrow>
                (0, if rv < 0 then rs @ [xnl_respond_buffer env From_Lib rv] else rs, s2)))"

definition xnl_q_start :: "'l srv_env \<Rightarrow> attr_fun \<Rightarrow> 'l drv \<Rightarrow> 'l outcome" where
  "xnl_q_start env at s =
     (case xnl_rcv_check_xpdev env at s of
        Inl r \<Rightarrow> Some (0, [r], s)
      | Inr d \<Rightarrow>
          if l_qmax (dev_env env) (dev_hndl (xpdev_list s ! d)) (lib s) = 0
          then Some (0, [xnl_respond_buffer env Zero_Qs 8], s)
          else case qconf_get env at of
            Inl r \<Rightarrow> Some (0, [r, again r (- EINVAL)], s)
          | Inr (c0, is_qp) \<Rightarrow>
              (case at XNL_ATTR_NUM_Q of
                 None \<Rightarrow> Some (0, [xnl_respond_buffer env Missing_Attr (- 1)], s)
               | Some n \<Rightarrow>
                   let conf1 = xnl_extract_extra_config_attr at (the (at XNL_ATTR_QFLAG)) c0;
                       i = qidx conf1 mod 2 ^ 16; k = unat n mod 2 ^ 16; t = q_type conf1;
                       conf = (if at XNL_ATTR_MM_CHANNEL = None then conf1\<lparr>conf_mm_channel := 0\<rparr> else conf1)
                   in if st conf \<and> t = Q_CMPT then Some (0, [xnl_respond_buffer env Bad_Type 33], s)
                      else Some (start_queues env d is_qp (at XNL_ATTR_C2H_BUFSZ_IDX \<noteq> None) conf i k s)))"

section \<open>Stopping and deleting queues\<close>

fun stop_each :: "'l srv_env \<Rightarrow> nat \<Rightarrow> (nat \<times> nat) list \<Rightarrow> int \<Rightarrow> 'l drv \<Rightarrow> int \<times> nl_attr list list \<times> remark \<times> 'l drv" where
  "stop_each env d [] rv s = (rv, [], Stopped, s)"
| "stop_each env d ((i, t) # qs) rv s =
     (case xnl_rcv_check_qidx env d (i mod 2 ^ 24) t s of
        Inl r \<Rightarrow> (rv, [r], Unset, s)
      | Inr h \<Rightarrow>
          (case l_queue_stop (dev_env env) (dev_hndl (xpdev_list s ! d)) h (lib s) of (rv1, l1) \<Rightarrow>
             if rv1 < 0 then (rv1, [], From_Lib, s\<lparr>lib := l1\<rparr>) else stop_each env d qs rv1 (s\<lparr>lib := l1\<rparr>)))"

definition xnl_q_stop :: "'l srv_env \<Rightarrow> attr_fun \<Rightarrow> 'l drv \<Rightarrow> 'l outcome" where
  "xnl_q_stop env at s =
     (case xnl_rcv_check_xpdev env at s of
        Inl r \<Rightarrow> Some (0, [r], s)
      | Inr d \<Rightarrow>
          if l_qmax (dev_env env) (dev_hndl (xpdev_list s ! d)) (lib s) = 0
          then Some (0, [xnl_respond_buffer env Zero_Qs 8], s)
          else case qconf_get env at of
            Inl r \<Rightarrow> Some (0, [r, again r (- EINVAL)], s)
          | Inr (conf, is_qp) \<Rightarrow>
              (case at XNL_ATTR_NUM_Q of
                 None \<Rightarrow> Some (- 1, [], s)
               | Some n \<Rightarrow>
                   (case stop_each env d (queue_range is_qp (q_type conf) (qidx conf mod 2 ^ 16) (unat n mod 2 ^ 16)) 0 s of
                      (rv, rs, n, s1) \<Rightarrow> Some (0, rs @ [xnl_respond_buffer env n rv], s1))))"

fun del_each :: "'l srv_env \<Rightarrow> nat \<Rightarrow> (nat \<times> nat) list \<Rightarrow> int \<Rightarrow> 'l drv \<Rightarrow> (int \<times> remark \<times> 'l drv) option" where
  "del_each env d [] rv s = Some (rv, Deleted, s)"
| "del_each env d ((i, t) # qs) rv s =
     (case xpdev_queue_delete (dev_env env) d (i mod 2 ^ 24) t s of
        None \<Rightarrow> None
      | Some (rv1, s1) \<Rightarrow> if rv1 < 0 then Some (rv1, From_Lib, s1) else del_each env d qs rv1 s1)"

definition xnl_q_del :: "'l srv_env \<Rightarrow> attr_fun \<Rightarrow> 'l drv \<Rightarrow> 'l outcome" where
  "xnl_q_del env at s =
     (case xnl_rcv_check_xpdev env at s of
        Inl r \<Rightarrow> Some (0, [r], s)
      | Inr d \<Rightarrow>
          if l_qmax (dev_env env) (dev_hndl (xpdev_list s ! d)) (lib s) = 0
          then Some (0, [xnl_respond_buffer env Zero_Qs 8], s)
          else case qconf_get env at of
            Inl r \<Rightarrow> Some (0, [r, again r (- EINVAL)], s)
          | Inr (conf, is_qp) \<Rightarrow>
              (case at XNL_ATTR_NUM_Q of
                 None \<Rightarrow> Some (- 1, [], s)
               | Some n \<Rightarrow>
                   (case del_each env d (queue_range is_qp (q_type conf) (qidx conf mod 2 ^ 16) (unat n mod 2 ^ 16)) 0 s of
                      None \<Rightarrow> None
                    | Some (rv, n, s1) \<Rightarrow> Some (0, [xnl_respond_buffer env n rv], s1))))"

section \<open>Information\<close>

definition xnl_dev_info :: "'l srv_env \<Rightarrow> attr_fun \<Rightarrow> 'l drv \<Rightarrow> 'l outcome" where
  "xnl_dev_info env at s =
     (case xnl_rcv_check_xpdev env at s of
        Inl r \<Rightarrow> Some (- EINVAL, [r], s)
      | Inr d \<Rightarrow>
          (case l_get_config (dev_env env) (dev_hndl (xpdev_list s ! d)) (lib s) of (rv, c) \<Rightarrow>
             if rv < 0 then Some (rv, [], s)
             else Some (0, [[Num XNL_ATTR_PCI_BUS (pdev_bus c), Num XNL_ATTR_PCI_DEV (pdev_slot c),
                Num XNL_ATTR_PCI_FUNC (pdev_func c), Num XNL_ATTR_DEV_CFG_BAR (bar_num_config c),
                Num XNL_ATTR_DEV_USR_BAR (bar_num_user c), Num XNL_ATTR_DEV_QSET_MAX (of_nat (qsets_max c)),
                Num XNL_ATTR_DEV_QSET_QBASE (of_nat (qsets_base c))]], s)))"

definition state_flags :: "q_state \<Rightarrow> u32" where
  "state_flags q = (if qs_st q then XNL_F_QMODE_ST else XNL_F_QMODE_MM)
     OR (if qs_type q = Q_C2H then XNL_F_QDIR_C2H else if qs_type q = Q_H2C then XNL_F_QDIR_H2C else XNL_F_Q_CMPL)"

text \<open>A request for both directions is refused without a reply.\<close>

definition xnl_get_queue_state :: "'l srv_env \<Rightarrow> attr_fun \<Rightarrow> 'l drv \<Rightarrow> 'l outcome" where
  "xnl_get_queue_state env at s =
     (case xnl_rcv_check_xpdev env at s of
        Inl r \<Rightarrow> Some (- EINVAL, [r], s)
      | Inr d \<Rightarrow>
          (case qconf_get env at of
             Inl r \<Rightarrow> Some (- EINVAL, [r], s)
           | Inr (conf, is_qp) \<Rightarrow>
               if is_qp then Some (- EINVAL, [], s)
               else case xnl_rcv_check_qidx env d (qidx conf) (q_type conf) s of
                 Inl r \<Rightarrow> Some (- EINVAL, [r], s)
               | Inr h \<Rightarrow>
                   (case l_queue_state (dev_env env) (dev_hndl (xpdev_list s ! d)) h (lib s) of (rv, q) \<Rightarrow>
                      if rv < 0 then Some (rv, [xnl_respond_buffer env From_Lib rv], s)
                      else Some (0, [[Num XNL_ATTR_QFLAG (state_flags q), Num XNL_ATTR_QIDX (qs_idx q),
                             Num XNL_ATTR_Q_STATE (qs_state q)]], s))))"

text \<open>
  The list of the cards: a line of each begins with \<^verbatim>\<open>qdma\<close> and its index in hexadecimal, of five digits at
  least; \<open>describe\<close> gives the rest. The first line that does not fit the buffer ends the list: it is cut to
  nothing, and the number of bytes up to there is returned all the same. A card whose configuration
  cannot be read ends the list too: the room for the error is taken the wrong way round, negative, and
  the kernel's \<^verbatim>\<open>snprintf\<close> writes nothing into it.
\<close>

definition hex_digit :: "nat \<Rightarrow> byte" where
  "hex_digit n = of_nat (if n < 10 then 0x30 + n else 0x57 + n)"

fun hex :: "nat \<Rightarrow> byte list" where
  "hex n = (if n < 16 then [hex_digit n] else hex (n div 16) @ [hex_digit (n mod 16)])"

definition hex5 :: "nat \<Rightarrow> byte list" where
  "hex5 n = replicate (5 - length (hex n)) 0x30 @ hex n"

definition qdma_word :: "byte list" where
  "qdma_word = [0x71, 0x64, 0x6d, 0x61]"

definition list_line :: "u32 \<Rightarrow> byte list \<Rightarrow> byte list" where
  "list_line i rest = qdma_word @ hex5 (unat i) @ 9 # rest @ [10]"

fun list_lines :: "'l srv_env \<Rightarrow> 'l \<Rightarrow> xlnx_pci_dev list \<Rightarrow> byte list \<Rightarrow> int \<times> byte list" where
  "list_lines env l [] t = (int (length t), t)"
| "list_lines env l (x # xs) t =
     (case l_get_config (dev_env env) (dev_hndl x) l of (rv, c) \<Rightarrow>
        if rv < 0 then (int (length t), t)
        else let t1 = t @ list_line (idx x) (describe env x c)
             in if 20480 \<le> length t1 then (int (length t1), []) else list_lines env l xs t1)"

definition xpdev_list_dump :: "'l srv_env \<Rightarrow> 'l drv \<Rightarrow> int \<times> byte list" where
  "xpdev_list_dump env s = list_lines env (lib s) (xpdev_list s) []"

definition xnl_dev_list :: "'l srv_env \<Rightarrow> 'l drv \<Rightarrow> 'l outcome" where
  "xnl_dev_list env s =
     (case k_alloc (dev_env env) (lib s) of (ok, l1) \<Rightarrow>
        let s1 = s\<lparr>lib := l1\<rparr>
        in if \<not> ok then Some (- ENOMEM, [xnl_respond_buffer env Oom (oom_len 20480)], s1)
           else case xpdev_list_dump env s1 of (rv, t) \<Rightarrow>
             Some (0, [[Txt t, Num XNL_ATTR_ERROR (word_of_int rv)]], s1))"

end
