(* ===== verification/Xnl_Info.thy ===== *)
theory Xnl_Info
  imports Xnl_Server
begin

text \<open>
  The other handlers of \<^verbatim>\<open>nl.c\<close>: capabilities, statistics, lists and dumps of queues, completions, interrupt
  rings, registers; and the table \<^verbatim>\<open>xnl_ops\<close> of all handlers. What they ask \<^verbatim>\<open>libqdma\<close> is the record
  \<open>info_env\<close>; none of them changes the driver's own tables.
\<close>

section \<open>What the handlers ask for\<close>

record dev_stats =
  mmh2c_pkts :: u64
  mmc2h_pkts :: u64
  sth2c_pkts :: u64
  stc2h_pkts :: u64
  min_ping_pong_lat :: u64
  max_ping_pong_lat :: u64
  total_ping_pong_lat :: u64

text \<open>\<^verbatim>\<open>qdma_dev_attributes\<close>, the fields that are sent as numbers; \<open>da_raw\<close> is the structure itself.\<close>

record dev_attributes =
  da_num_pfs :: u32
  da_num_qs :: u32
  da_flr_present :: bool
  da_st_en :: bool
  da_mm_en :: bool
  da_mm_cmpt_en :: bool
  da_mailbox_en :: bool
  da_debug_mode :: bool
  da_desc_eng_mode :: u32
  da_mm_channel_max :: u32
  da_raw :: "byte list"

record version_info =
  rtl_version_str :: "byte list"
  vivado_release_str :: "byte list"
  device_type_str :: "byte list"
  ip_str :: "byte list"

text \<open>
  By device handle; texts come with the result of the call. A queue count is at most \<^verbatim>\<open>qsets_max\<close>, an
  unsigned short. \<open>i_iomap\<close> maps a bar; \<open>i_readl\<close> and \<open>i_writel\<close>
  access it at any offset. Reading registers or completions may change what is read.
\<close>

record 'l info_env =
  i_version :: "nat \<Rightarrow> 'l \<Rightarrow> int \<times> version_info"
  i_caps :: "nat \<Rightarrow> 'l \<Rightarrow> int \<times> dev_attributes"
  i_stats :: "nat \<Rightarrow> 'l \<Rightarrow> dev_stats"
  i_clear_stats :: "nat \<Rightarrow> 'l \<Rightarrow> 'l"
  i_queue_count :: "nat \<Rightarrow> 'l \<Rightarrow> int \<times> u16 \<times> u16"
  i_queue_list :: "nat \<Rightarrow> u32 \<Rightarrow> 'l \<Rightarrow> int \<times> byte list"
  i_reg_dump :: "nat \<Rightarrow> u32 \<Rightarrow> 'l \<Rightarrow> byte list"
  i_reg_info :: "nat \<Rightarrow> u32 \<Rightarrow> u32 \<Rightarrow> u32 \<Rightarrow> 'l \<Rightarrow> byte list"
  i_queue_dump :: "nat \<Rightarrow> nat \<Rightarrow> 'l \<Rightarrow> int \<times> byte list"
  i_dump_desc :: "u32 \<Rightarrow> u32 \<Rightarrow> nat \<Rightarrow> nat \<Rightarrow> 'l \<Rightarrow> int \<times> byte list"
  i_dump_cmpt :: "u32 \<Rightarrow> u32 \<Rightarrow> nat \<Rightarrow> nat \<Rightarrow> 'l \<Rightarrow> int \<times> byte list"
  i_get_udd :: "nat \<Rightarrow> nat \<Rightarrow> 'l \<Rightarrow> int \<times> byte list"
  i_read_cmpt :: "nat \<Rightarrow> nat \<Rightarrow> 'l \<Rightarrow> (int \<times> byte list list) \<times> 'l"
  i_intr_dump :: "nat \<Rightarrow> u32 \<Rightarrow> u32 \<Rightarrow> u32 \<Rightarrow> 'l \<Rightarrow> int \<times> byte list"
  i_csr :: "nat \<Rightarrow> byte \<Rightarrow> byte \<Rightarrow> 'l \<Rightarrow> int \<times> byte list"
  i_read_config :: "nat \<Rightarrow> u32 \<Rightarrow> 'l \<Rightarrow> (int \<times> u32) \<times> 'l"
  i_write_config :: "nat \<Rightarrow> u32 \<Rightarrow> u32 \<Rightarrow> 'l \<Rightarrow> int \<times> 'l"
  i_iomap :: "nat \<Rightarrow> u32 \<Rightarrow> 'l \<Rightarrow> bool"
  i_readl :: "nat \<Rightarrow> u32 \<Rightarrow> u32 \<Rightarrow> 'l \<Rightarrow> u32 \<times> 'l"
  i_writel :: "nat \<Rightarrow> u32 \<Rightarrow> u32 \<Rightarrow> u32 \<Rightarrow> 'l \<Rightarrow> 'l"

text \<open>
  \<^verbatim>\<open>xnl_mem_alloc\<close>: the handler ends where it fails, after a reply. A buffer of no bytes is allocated; to
  answer from it (\<open>answer\<close>) is to touch what is not there.
\<close>

definition with_buffer :: "'l srv_env \<Rightarrow> u32 \<Rightarrow> nl_attr list list \<Rightarrow> ('l drv \<Rightarrow> 'l outcome) \<Rightarrow> 'l drv \<Rightarrow> 'l outcome" where
  "with_buffer env len extra act s =
     (case k_alloc (dev_env env) (lib s) of (ok, l1) \<Rightarrow>
        let s1 = s\<lparr>lib := l1\<rparr>
        in if ok then act s1 else Some (- ENOMEM, xnl_respond_buffer env Oom (oom_len len) # extra, s1))"

definition answer :: "u32 \<Rightarrow> int \<times> nl_attr list list \<times> 'l drv \<Rightarrow> 'l outcome" where
  "answer len out = (if len = 0 then None else Some out)"

definition hndl_of :: "'l drv \<Rightarrow> nat \<Rightarrow> nat" where
  "hndl_of s d = dev_hndl (xpdev_list s ! d)"

section \<open>The device\<close>

definition yes :: "bool \<Rightarrow> u32" where "yes b = (if b then 1 else 0)"

text \<open>A failure is not answered.\<close>

definition xnl_dev_version_capabilities :: "'l srv_env \<Rightarrow> 'l info_env \<Rightarrow> attr_fun \<Rightarrow> 'l drv \<Rightarrow> 'l outcome" where
  "xnl_dev_version_capabilities env ie at s =
     (case xnl_rcv_check_xpdev env at s of
        Inl r \<Rightarrow> Some (- EINVAL, [r], s)
      | Inr d \<Rightarrow>
          (case i_version ie (hndl_of s d) (lib s) of (rv, v) \<Rightarrow>
             if rv < 0 then Some (rv, [], s)
             else case i_caps ie (hndl_of s d) (lib s) of (rv1, a) \<Rightarrow>
               if rv1 < 0 then Some (rv1, [], s)
               else Some (0, [[
                 Blob XNL_ATTR_VERSION_INFO (say env (Versions [rtl_version_str v, vivado_release_str v, device_type_str v, ip_str v]) @ [0]),
                 Blob XNL_ATTR_DEVICE_TYPE (device_type_str v @ [0]), Blob XNL_ATTR_IP_TYPE (ip_str v @ [0]),
                 Num XNL_ATTR_DEV_MM_ENABLE (yes (da_mm_en a)), Num XNL_ATTR_DEV_ST_ENABLE (yes (da_st_en a)),
                 Num XNL_ATTR_DEV_MM_CMPT_ENABLE (yes (da_mm_cmpt_en a)), Num XNL_ATTR_DEV_NUMQS (da_num_qs a),
                 Num XNL_ATTR_DEV_NUM_PFS (da_num_pfs a), Num XNL_ATTR_DEV_MM_CHANNEL_MAX (da_mm_channel_max a),
                 Num XNL_ATTR_DEV_MAILBOX_ENABLE (yes (da_mailbox_en a)), Num XNL_ATTR_DEV_FLR_PRESENT (yes (da_flr_present a)),
                 Num XNL_ATTR_DEBUG_EN (yes (da_debug_mode a)), Num XNL_ATTR_DESC_ENGINE_MODE (da_desc_eng_mode a),
                 Blob XNL_ATTR_DEV (da_raw a)]], s)))"

text \<open>A counter in two words, and the average of the latency over the packets, where there are any.\<close>

definition halves :: "xnl_attr_t \<Rightarrow> xnl_attr_t \<Rightarrow> u64 \<Rightarrow> nl_attr list" where
  "halves a b w = [Num a (ucast w), Num b (ucast (drop_bit 32 w))]"

definition avg_lat :: "dev_stats \<Rightarrow> u64" where
  "avg_lat c = (if stc2h_pkts c \<noteq> 0 then total_ping_pong_lat c div stc2h_pkts c else 0)"

definition stat_attrs :: "dev_stats \<Rightarrow> nl_attr list" where
  "stat_attrs c =
     halves XNL_ATTR_DEV_STAT_MMH2C_PKTS1 XNL_ATTR_DEV_STAT_MMH2C_PKTS2 (mmh2c_pkts c)
     @ halves XNL_ATTR_DEV_STAT_MMC2H_PKTS1 XNL_ATTR_DEV_STAT_MMC2H_PKTS2 (mmc2h_pkts c)
     @ halves XNL_ATTR_DEV_STAT_STH2C_PKTS1 XNL_ATTR_DEV_STAT_STH2C_PKTS2 (sth2c_pkts c)
     @ halves XNL_ATTR_DEV_STAT_STC2H_PKTS1 XNL_ATTR_DEV_STAT_STC2H_PKTS2 (stc2h_pkts c)
     @ halves XNL_ATTR_DEV_STAT_PING_PONG_LATMIN1 XNL_ATTR_DEV_STAT_PING_PONG_LATMIN2 (min_ping_pong_lat c)
     @ halves XNL_ATTR_DEV_STAT_PING_PONG_LATMIN1 XNL_ATTR_DEV_STAT_PING_PONG_LATMIN2 (min_ping_pong_lat c)
     @ halves XNL_ATTR_DEV_STAT_PING_PONG_LATMAX1 XNL_ATTR_DEV_STAT_PING_PONG_LATMAX2 (max_ping_pong_lat c)
     @ halves XNL_ATTR_DEV_STAT_PING_PONG_LATAVG1 XNL_ATTR_DEV_STAT_PING_PONG_LATAVG2 (avg_lat c)"

definition xnl_dev_stat :: "'l srv_env \<Rightarrow> 'l info_env \<Rightarrow> attr_fun \<Rightarrow> 'l drv \<Rightarrow> 'l outcome" where
  "xnl_dev_stat env ie at s =
     (case xnl_rcv_check_xpdev env at s of
        Inl r \<Rightarrow> Some (- EINVAL, [r], s)
      | Inr d \<Rightarrow> Some (0, [stat_attrs (i_stats ie (hndl_of s d) (lib s))], s))"

definition xnl_dev_stat_clear :: "'l srv_env \<Rightarrow> 'l info_env \<Rightarrow> attr_fun \<Rightarrow> 'l drv \<Rightarrow> 'l outcome" where
  "xnl_dev_stat_clear env ie at s =
     (case xnl_rcv_check_xpdev env at s of
        Inl r \<Rightarrow> Some (- EINVAL, [r], s)
      | Inr d \<Rightarrow> with_buffer env 256 [] (\<lambda>s1.
          Some (0, [respond_text [] 0], s1\<lparr>lib := i_clear_stats ie (hndl_of s1 d) (lib s1)\<rparr>)) s)"

definition xnl_config_reg_dump :: "'l srv_env \<Rightarrow> 'l info_env \<Rightarrow> attr_fun \<Rightarrow> 'l drv \<Rightarrow> 'l outcome" where
  "xnl_config_reg_dump env ie at s =
     (case xnl_rcv_check_xpdev env at s of
        Inl r \<Rightarrow> Some (0, [r], s)
      | Inr d \<Rightarrow> with_buffer env (resp_len at) [] (\<lambda>s1.
          answer (resp_len at) (0, [respond_text (i_reg_dump ie (hndl_of s1 d) (resp_len at) (lib s1)) 0], s1)) s)"

definition or_zero :: "u32 option \<Rightarrow> u32" where
  "or_zero v = (case v of None \<Rightarrow> 0 | Some w \<Rightarrow> w)"

definition xnl_config_reg_info_dump :: "'l srv_env \<Rightarrow> 'l info_env \<Rightarrow> attr_fun \<Rightarrow> 'l drv \<Rightarrow> 'l outcome" where
  "xnl_config_reg_info_dump env ie at s =
     (case xnl_rcv_check_xpdev env at s of
        Inl r \<Rightarrow> Some (0, [r], s)
      | Inr d \<Rightarrow> with_buffer env (resp_len at) [] (\<lambda>s1.
          answer (resp_len at) (0, [respond_text (i_reg_info ie (hndl_of s1 d) (or_zero (at XNL_ATTR_REG_ADDR))
            (or_zero (at XNL_ATTR_NUM_REGS)) (resp_len at) (lib s1)) 0], s1)) s)"

section \<open>Queues\<close>

text \<open>
  The number of queues, then a buffer for a line of each. A failed count, and a count of none, are
  answered with a result to which the length of the text is added.
\<close>

definition xnl_q_list :: "'l srv_env \<Rightarrow> 'l info_env \<Rightarrow> attr_fun \<Rightarrow> 'l drv \<Rightarrow> 'l outcome" where
  "xnl_q_list env ie at s =
     (case xnl_rcv_check_xpdev env at s of
        Inl r \<Rightarrow> Some (- EINVAL, [r], s)
      | Inr d \<Rightarrow> with_buffer env 256 [] (\<lambda>s1.
          case i_queue_count ie (hndl_of s1 d) (lib s1) of (rv, h2c, c2h) \<Rightarrow>
            if rv < 0 then Some (0, [xnl_respond_buffer env No_Count (rv + 26)], s1)
            else if ucast h2c + ucast c2h = (0 :: u32) then Some (0, [xnl_respond_buffer env Zero_Qs (rv + 9)], s1)
            else let len = (ucast h2c + ucast c2h) * 200
                 in with_buffer env len [] (\<lambda>s2.
                      case i_queue_list ie (hndl_of s2 d) len (lib s2) of (rv1, t) \<Rightarrow>
                        answer len (0, [respond_text t rv1], s2)) s1) s)"

text \<open>
  The walk the dumps share: over the queues of the range, \<open>dump\<close> writes the text of one. The result, a
  reply for a queue that is not there, and the texts so far; and whether the walk came to its end.
\<close>

fun dump_each :: "'l srv_env \<Rightarrow> nat \<Rightarrow> (nat \<Rightarrow> int \<times> byte list) \<Rightarrow> (nat \<times> nat) list \<Rightarrow> int \<Rightarrow> byte list list \<Rightarrow> 'l drv
    \<Rightarrow> int \<times> nl_attr list list \<times> byte list list \<times> bool" where
  "dump_each env d dump [] rv ts s = (rv, [], ts, True)"
| "dump_each env d dump ((i, t) # qs) rv ts s =
     (case xnl_rcv_check_qidx env d (i mod 2 ^ 24) t s of
        Inl r \<Rightarrow> (rv, [r], ts, False)
      | Inr h \<Rightarrow>
          (case dump h of (rv1, text) \<Rightarrow>
             if rv1 < 0 then (rv1, [], ts @ [text], False) else dump_each env d dump qs rv1 (ts @ [text]) s))"

text \<open>The length of a text of \<open>n\<close> letters and the two ends of the range, which is sent as the result.\<close>

definition range_len :: "nat \<Rightarrow> nat \<Rightarrow> nat \<Rightarrow> int" where
  "range_len n i k = int (n + digits i + digits (unat (of_nat (i + k) - 1 :: u32)))"

definition dump_reply :: "'l srv_env \<Rightarrow> nat \<Rightarrow> (nat \<Rightarrow> int \<times> byte list) \<Rightarrow> nat \<Rightarrow> bool \<Rightarrow> queue_conf \<Rightarrow> nat \<Rightarrow> 'l drv
    \<Rightarrow> int \<times> nl_attr list list \<times> 'l drv" where
  "dump_reply env d dump n is_qp conf k s =
     (let i = qidx conf mod 2 ^ 16
      in case dump_each env d dump (queue_range is_qp (q_type conf) i k) 0 [] s of (rv, rs, ts, done) \<Rightarrow>
           (0, rs @ [xnl_respond_buffer env (Dumps ts) (if done then range_len n i k else rv)], s))"

definition xnl_q_dump :: "'l srv_env \<Rightarrow> 'l info_env \<Rightarrow> attr_fun \<Rightarrow> 'l drv \<Rightarrow> 'l outcome" where
  "xnl_q_dump env ie at s =
     (case xnl_rcv_check_xpdev env at s of
        Inl r \<Rightarrow> Some (0, [r], s)
      | Inr d \<Rightarrow>
          (case qconf_get env at of
             Inl r \<Rightarrow> Some (- EINVAL, [r], s)
           | Inr (conf, is_qp) \<Rightarrow> with_buffer env (resp_len at) [] (\<lambda>s1.
               case at XNL_ATTR_NUM_Q of
                 None \<Rightarrow> Some (- 1, [], s1)
               | Some n \<Rightarrow>
                   if 100 < n then answer (resp_len at) (0, [xnl_respond_buffer env Too_Many 34], s1)
                   else let len = n * 24576
                        in with_buffer env len [] (\<lambda>s2.
                             answer len (dump_reply env d (\<lambda>h. i_queue_dump ie (hndl_of s2 d) h (lib s2)) 20 is_qp conf (unat n) s2)) s1) s))"

text \<open>
  Descriptors and completions: the ends of the range are read before anything is looked at. Here a
  failed allocation is answered twice. Where the end of the queues wraps there are none.
\<close>

definition dump_range :: "'l srv_env \<Rightarrow> (u32 \<Rightarrow> u32 \<Rightarrow> nat \<Rightarrow> nat \<Rightarrow> 'l \<Rightarrow> int \<times> byte list) \<Rightarrow> attr_fun \<Rightarrow> 'l drv \<Rightarrow> 'l outcome" where
  "dump_range env dump at s =
     (case (at XNL_ATTR_RANGE_START, at XNL_ATTR_RANGE_END) of
        (Some v1, Some v2) \<Rightarrow>
          (case xnl_rcv_check_xpdev env at s of
             Inl r \<Rightarrow> Some (0, [r], s)
           | Inr d \<Rightarrow>
               if l_qmax (dev_env env) (hndl_of s d) (lib s) = 0 then Some (0, [], s)
               else case qconf_get env at of
                 Inl r \<Rightarrow> Some (- EINVAL, [r], s)
               | Inr (conf, is_qp) \<Rightarrow>
                   with_buffer env (resp_len at) [xnl_respond_buffer env Oom_In_Dump (oom_len (resp_len at) + 7)] (\<lambda>s1.
                     case at XNL_ATTR_NUM_Q of
                       None \<Rightarrow> Some (- 1, [], s1)
                     | Some n \<Rightarrow> answer (resp_len at)
                         (dump_reply env d (\<lambda>h. dump v1 v2 (hndl_of s1 d) h (lib s1)) 29 is_qp conf
                           (if qidx conf mod 2 ^ 16 + unat n < 2 ^ 32 then unat n else 0) s1)) s)
      | _ \<Rightarrow> None)"

definition xnl_q_dump_desc :: "'l srv_env \<Rightarrow> 'l info_env \<Rightarrow> attr_fun \<Rightarrow> 'l drv \<Rightarrow> 'l outcome" where
  "xnl_q_dump_desc env ie at s = dump_range env (i_dump_desc ie) at s"

definition xnl_q_dump_cmpt :: "'l srv_env \<Rightarrow> 'l info_env \<Rightarrow> attr_fun \<Rightarrow> 'l drv \<Rightarrow> 'l outcome" where
  "xnl_q_dump_cmpt env ie at s = dump_range env (i_dump_cmpt ie) at s"

definition xnl_q_read_udd :: "'l srv_env \<Rightarrow> 'l info_env \<Rightarrow> attr_fun \<Rightarrow> 'l drv \<Rightarrow> 'l outcome" where
  "xnl_q_read_udd env ie at s = with_buffer env 20480 [] (\<lambda>s1.
     case xnl_rcv_check_xpdev env at s1 of
       Inl r \<Rightarrow> Some (- EINVAL, [r], s1)
     | Inr d \<Rightarrow>
         (case qconf_get env at of
            Inl r \<Rightarrow> Some (0, [r, again r (- EINVAL)], s1)
          | Inr (conf, is_qp) \<Rightarrow>
              (case xnl_rcv_check_qidx env d (qidx conf) (q_type conf) s1 of
                 Inl r \<Rightarrow> Some (0, [r, respond_text [] 0], s1)
               | Inr h \<Rightarrow>
                   (case i_get_udd ie (hndl_of s1 d) h (lib s1) of (rv, t) \<Rightarrow> Some (0, [respond_text t rv], s1))))) s"

definition respond_cmpt :: "nl_attr list \<Rightarrow> nat \<Rightarrow> nl_attr list" where
  "respond_cmpt r n = r @ [Num XNL_ATTR_CMPT_ENTRIES_CNT (of_nat n)]"

text \<open>The completions read, of the completion queue of the index, whatever the flags ask for.\<close>

definition xnl_q_cmpt_read :: "'l srv_env \<Rightarrow> 'l info_env \<Rightarrow> attr_fun \<Rightarrow> 'l drv \<Rightarrow> 'l outcome" where
  "xnl_q_cmpt_read env ie at s =
     (case xnl_rcv_check_xpdev env at s of
        Inl r \<Rightarrow> Some (- EINVAL, [r], s)
      | Inr d \<Rightarrow> with_buffer env (resp_len at) [] (\<lambda>s1.
          case qconf_get env at of
            Inl r \<Rightarrow> answer (resp_len at) (0, [r, respond_cmpt (again r (- EINVAL)) 0], s1)
          | Inr (conf, is_qp) \<Rightarrow>
              (case xnl_rcv_check_qidx env d (qidx conf) Q_CMPT s1 of
                 Inl r \<Rightarrow> answer (resp_len at) (0, [r, respond_cmpt (respond_text [] 0) 0], s1)
               | Inr h \<Rightarrow>
                   (case l_queue_get_config (dev_env env) (hndl_of s1 d) h (lib s1) of (rv, old) \<Rightarrow>
                      if rv < 0 then answer (resp_len at) (0, [respond_cmpt (xnl_respond_buffer env From_Lib rv) 0], s1)
                      else case i_read_cmpt ie (hndl_of s1 d) h (lib s1) of ((rv1, es), l2) \<Rightarrow>
                        answer (resp_len at) (0, [respond_cmpt (xnl_respond_buffer env
                          (if rv1 < 0 \<or> es = [] then From_Lib else Completions es) rv1) (length es)], s1\<lparr>lib := l2\<rparr>)))) s)"

text \<open>\<^verbatim>\<open>xnl_q_read_pkt\<close>: its body is disabled.\<close>

definition xnl_q_read_pkt :: "'l drv \<Rightarrow> 'l outcome" where
  "xnl_q_read_pkt s = Some (- EINVAL, [], s)"

section \<open>Interrupts and registers\<close>

text \<open>The first vectors are reserved; the text that says so is answered with its length as the result.\<close>

definition reserved_vector :: "u32 \<Rightarrow> u32 \<Rightarrow> int option" where
  "reserved_vector i v =
     (if i = 0 then if v = 0 then Some 36 else if v = 1 then Some 35 else None
      else if v = 0 then Some 35 else None)"

definition xnl_intr_ring_dump :: "'l srv_env \<Rightarrow> 'l info_env \<Rightarrow> attr_fun \<Rightarrow> 'l drv \<Rightarrow> 'l outcome" where
  "xnl_intr_ring_dump env ie at s =
     (case xnl_rcv_check_xpdev env at s of
        Inl r \<Rightarrow> Some (0, [r], s)
      | Inr d \<Rightarrow>
          (case (at XNL_ATTR_INTR_VECTOR_IDX, at XNL_ATTR_INTR_VECTOR_START_IDX, at XNL_ATTR_INTR_VECTOR_END_IDX) of
             (None, _) \<Rightarrow> Some (- 1, [], s)
           | (Some v, Some a, Some b) \<Rightarrow> with_buffer env (resp_len at) [] (\<lambda>s1.
               case reserved_vector (idx (xpdev_list s1 ! d)) v of
                 Some n \<Rightarrow> answer (resp_len at) (0, [xnl_respond_buffer env Reserved_Vector n], s1)
               | None \<Rightarrow>
                   (case i_intr_dump ie (hndl_of s1 d) v a b (lib s1) of (rv, t) \<Rightarrow>
                      answer (resp_len at) (0, [respond_text t rv], s1))) s
           | _ \<Rightarrow> None))"

text \<open>A bar that is there is mapped for the access.\<close>

definition read_bar :: "'l info_env \<Rightarrow> nat \<Rightarrow> u32 \<Rightarrow> u32 \<Rightarrow> 'l \<Rightarrow> (int \<times> u32) \<times> 'l" where
  "read_bar ie h bar reg l =
     (if bit bar 31 then ((- EINVAL, 0), l)
      else if \<not> i_iomap ie h bar l then ((- ENOMEM, 0), l)
      else case i_readl ie h bar reg l of (v, l1) \<Rightarrow> ((0, v), l1))"

definition write_bar :: "'l info_env \<Rightarrow> nat \<Rightarrow> u32 \<Rightarrow> u32 \<Rightarrow> u32 \<Rightarrow> 'l \<Rightarrow> int \<times> 'l" where
  "write_bar ie h bar reg v l =
     (if bit bar 31 then (- EINVAL, l)
      else if \<not> i_iomap ie h bar l then (- ENOMEM, l)
      else (0, i_writel ie h bar reg v l))"

text \<open>The configuration bar, the user bar or the bypass bar, in this order; no other.\<close>

definition xnl_register_read :: "'l srv_env \<Rightarrow> 'l info_env \<Rightarrow> attr_fun \<Rightarrow> 'l drv \<Rightarrow> 'l outcome" where
  "xnl_register_read env ie at s =
     (case xnl_rcv_check_xpdev env at s of
        Inl r \<Rightarrow> Some (0, [r], s)
      | Inr d \<Rightarrow>
          (case l_get_config (dev_env env) (hndl_of s d) (lib s) of (rv, c) \<Rightarrow>
             if rv < 0 then Some (rv, [], s)
             else case (at XNL_ATTR_REG_BAR_NUM, at XNL_ATTR_REG_ADDR) of
               (Some bar, Some reg) \<Rightarrow>
                 (let h = hndl_of s d;
                      acc = (if bar = bar_num_config c then Some (i_read_config ie h reg (lib s))
                             else if bar = bar_num_user c \<or> bar = bar_num_bypass c then Some (read_bar ie h bar reg (lib s))
                             else None)
                  in case acc of
                       None \<Rightarrow> Some (0, [xnl_respond_buffer env Bad_Bar 0], s)
                     | Some ((rv1, v), l1) \<Rightarrow>
                         if rv1 < 0 then Some (rv1, [], s\<lparr>lib := l1\<rparr>)
                         else Some (0, [[Num XNL_ATTR_REG_VAL v]], s\<lparr>lib := l1\<rparr>))
             | _ \<Rightarrow> Some (- EINVAL, [], s)))"

definition xnl_register_write :: "'l srv_env \<Rightarrow> 'l info_env \<Rightarrow> attr_fun \<Rightarrow> 'l drv \<Rightarrow> 'l outcome" where
  "xnl_register_write env ie at s =
     (case xnl_rcv_check_xpdev env at s of
        Inl r \<Rightarrow> Some (0, [r], s)
      | Inr d \<Rightarrow>
          (case l_get_config (dev_env env) (hndl_of s d) (lib s) of (rv, c) \<Rightarrow>
             if rv < 0 then Some (rv, [], s)
             else case (at XNL_ATTR_REG_BAR_NUM, at XNL_ATTR_REG_ADDR, at XNL_ATTR_REG_VAL) of
               (Some bar, Some reg, Some v) \<Rightarrow>
                 (let h = hndl_of s d;
                      acc = (if bar = bar_num_config c then Some (i_write_config ie h reg v (lib s))
                             else if bar = bar_num_user c \<or> bar = bar_num_bypass c then Some (write_bar ie h bar reg v (lib s))
                             else None)
                  in case acc of
                       None \<Rightarrow> Some (0, [xnl_respond_buffer env Bad_Bar (rv + 19)], s)
                     | Some (rv1, l1) \<Rightarrow>
                         if rv1 < 0 then Some (rv1, [], s\<lparr>lib := l1\<rparr>)
                         else Some (0, [xnl_respond_buffer env Unset rv1], s\<lparr>lib := l1\<rparr>))
             | _ \<Rightarrow> Some (- EINVAL, [], s)))"

definition xnl_get_global_csr :: "'l srv_env \<Rightarrow> 'l info_env \<Rightarrow> attr_fun \<Rightarrow> 'l drv \<Rightarrow> 'l outcome" where
  "xnl_get_global_csr env ie at s =
     (case xnl_rcv_check_xpdev env at s of
        Inl r \<Rightarrow> Some (0, [r], s)
      | Inr d \<Rightarrow>
          (case k_alloc (dev_env env) (lib s) of (ok, l1) \<Rightarrow>
             let s1 = s\<lparr>lib := l1\<rparr>
             in if \<not> ok then Some (- ENOMEM, [], s1)
                else case (at XNL_ATTR_CSR_INDEX, at XNL_ATTR_CSR_COUNT) of
                  (Some i, Some n) \<Rightarrow>
                    (case i_csr ie (hndl_of s1 d) (ucast i) (ucast n) (lib s1) of (rv, bs) \<Rightarrow>
                       if rv < 0 then Some (rv, [], s1) else Some (0, [[Blob XNL_ATTR_GLOBAL_CSR bs]], s1))
                | _ \<Rightarrow> Some (- EINVAL, [], s1)))"

section \<open>Dispatch\<close>

text \<open>The table \<^verbatim>\<open>xnl_ops\<close>.\<close>

definition xnl_doit :: "'l srv_env \<Rightarrow> 'l info_env \<Rightarrow> xnl_op_t \<Rightarrow> attr_fun \<Rightarrow> 'l drv \<Rightarrow> 'l outcome" where
  "xnl_doit env ie op at s =
     (case op of
        XNL_CMD_DEV_LIST \<Rightarrow> xnl_dev_list env s
      | XNL_CMD_DEV_CAP \<Rightarrow> xnl_dev_version_capabilities env ie at s
      | XNL_CMD_DEV_INFO \<Rightarrow> xnl_dev_info env at s
      | XNL_CMD_DEV_STAT \<Rightarrow> xnl_dev_stat env ie at s
      | XNL_CMD_DEV_STAT_CLEAR \<Rightarrow> xnl_dev_stat_clear env ie at s
      | XNL_CMD_Q_LIST \<Rightarrow> xnl_q_list env ie at s
      | XNL_CMD_Q_ADD \<Rightarrow> xnl_q_add env at s
      | XNL_CMD_Q_START \<Rightarrow> xnl_q_start env at s
      | XNL_CMD_Q_STOP \<Rightarrow> xnl_q_stop env at s
      | XNL_CMD_Q_DEL \<Rightarrow> xnl_q_del env at s
      | XNL_CMD_Q_DUMP \<Rightarrow> xnl_q_dump env ie at s
      | XNL_CMD_Q_DESC \<Rightarrow> xnl_q_dump_desc env ie at s
      | XNL_CMD_REG_DUMP \<Rightarrow> xnl_config_reg_dump env ie at s
      | XNL_CMD_REG_INFO_READ \<Rightarrow> xnl_config_reg_info_dump env ie at s
      | XNL_CMD_Q_CMPT \<Rightarrow> xnl_q_dump_cmpt env ie at s
      | XNL_CMD_Q_UDD \<Rightarrow> xnl_q_read_udd env ie at s
      | XNL_CMD_Q_RX_PKT \<Rightarrow> xnl_q_read_pkt s
      | XNL_CMD_Q_CMPT_READ \<Rightarrow> xnl_q_cmpt_read env ie at s
      | XNL_CMD_INTR_RING_DUMP \<Rightarrow> xnl_intr_ring_dump env ie at s
      | XNL_CMD_REG_RD \<Rightarrow> xnl_register_read env ie at s
      | XNL_CMD_REG_WRT \<Rightarrow> xnl_register_write env ie at s
      | XNL_CMD_GLOBAL_CSR \<Rightarrow> xnl_get_global_csr env ie at s
      | XNL_CMD_GET_Q_STATE \<Rightarrow> xnl_get_queue_state env at s)"

end
