(* ===== verification/Queue_Setup.thy ===== *)
theory Queue_Setup
  imports Xnl_Client
begin

text \<open>
  The set-up of the QDMA queues when a PIM program starts, and their removal when it ends:
  \<^verbatim>\<open>src/qdma_src/pim_qdma.h\<close>, and \<^verbatim>\<open>init_qdma\<close> and \<^verbatim>\<open>close_qdma\<close> of \<^verbatim>\<open>src/qdma_src/mdrv_interface.c\<close>, over
  the commands of theory \<open>Xnl_Client\<close>.

  The enumerations have no other values than theirs, so the branches for invalid ones are left out.
  Opening and closing a device file are parameters over the state of the kernel.
\<close>

section \<open>Settings and queues\<close>

datatype q_mode = MODE_MM | MODE_ST
datatype q_dirs = DIR_H2C | DIR_C2H | DIR_BIDI
datatype io_dir = DMAXFER_IO_READ | DMAXFER_IO_WRITE

record q_settings =
  pci_dev :: u32
  fun_id :: u32
  set_num_q :: nat
  is_vf :: bool
  set_mode :: q_mode
  set_dir :: q_dirs

definition settings :: q_settings where
  "settings = \<lparr>pci_dev = 0, fun_id = 0, set_num_q = 1, is_vf = False, set_mode = MODE_MM, set_dir = DIR_BIDI\<rparr>"

record queue_info =
  q_name :: "byte list option"
  q_qid :: nat
  q_pf :: u32
  q_io :: io_dir

definition no_queue :: queue_info where
  "no_queue = \<lparr>q_name = None, q_qid = 0, q_pf = 0, q_io = DMAXFER_IO_READ\<rparr>"

definition no_cmd :: xcmd_info where
  "no_cmd = \<lparr>vf = False, xop = XNL_CMD_DEV_LIST,
     req = \<lparr>sflags = 0, qp_flags = 0, qp_idx = 0, num_q = 0, range_start = 0, range_end = 0, sw_desc_sz = 0,
            cmpt_entry_size = 0, qrngsz_idx = 0, c2h_bufsz_idx = 0, cmpt_tmr_idx = 0, cmpt_cntr_idx = 0,
            cmpt_trig_mode = 0, mm_channel = 0, fetch_credit = 0, ping_pong_en = 0, aperture_sz = 0\<rparr>,
     resp = No_Resp, if_bdf = 0, dumps = False\<rparr>"

definition bdf :: "q_settings \<Rightarrow> u32 \<Rightarrow> u32 \<Rightarrow> u32" where
  "bdf c bus pf = push_bit 12 bus OR push_bit 4 (pci_dev c) OR pf"

section \<open>Commands for one queue\<close>

definition mode_flag :: "q_mode \<Rightarrow> u32" where
  "mode_flag m = (case m of MODE_MM \<Rightarrow> XNL_F_QMODE_MM | MODE_ST \<Rightarrow> XNL_F_QMODE_ST)"

definition dir_flag :: "io_dir \<Rightarrow> u32" where
  "dir_flag d = (case d of DMAXFER_IO_WRITE \<Rightarrow> XNL_F_QDIR_H2C | DMAXFER_IO_READ \<Rightarrow> XNL_F_QDIR_C2H)"

text \<open>What the four \<^verbatim>\<open>qdma_prepare_q_*\<close> have in common: flags are added to those that are set.\<close>

definition prepare_q :: "xnl_op_t \<Rightarrow> u32 \<Rightarrow> q_settings \<Rightarrow> u32 \<Rightarrow> io_dir \<Rightarrow> nat \<Rightarrow> u32 \<Rightarrow> xcmd_info \<Rightarrow> xcmd_info" where
  "prepare_q op extra c bus d qid pf x = x\<lparr>xop := op, vf := is_vf c, if_bdf := bdf c bus pf,
     req := (req x)\<lparr>qp_idx := of_nat qid, num_q := 1,
       qp_flags := qp_flags (req x) OR mode_flag (set_mode c) OR dir_flag d OR extra\<rparr>\<rparr>"

definition qdma_prepare_q_add :: "q_settings \<Rightarrow> u32 \<Rightarrow> io_dir \<Rightarrow> nat \<Rightarrow> u32 \<Rightarrow> xcmd_info \<Rightarrow> xcmd_info" where
  "qdma_prepare_q_add c bus d qid pf x =
     (let y = prepare_q XNL_CMD_Q_ADD 0 c bus d qid pf x in y\<lparr>req := (req y)\<lparr>sflags := qp_flags (req y)\<rparr>\<rparr>)"

definition start_flags :: u32 where
  "start_flags = 0x100 OR 0x80 OR 0x200 OR 0x400 OR XNL_F_FETCH_CREDIT"

definition qdma_prepare_q_start :: "q_settings \<Rightarrow> u32 \<Rightarrow> io_dir \<Rightarrow> nat \<Rightarrow> u32 \<Rightarrow> xcmd_info \<Rightarrow> xcmd_info" where
  "qdma_prepare_q_start = prepare_q XNL_CMD_Q_START start_flags"

definition qdma_prepare_q_stop :: "q_settings \<Rightarrow> u32 \<Rightarrow> io_dir \<Rightarrow> nat \<Rightarrow> u32 \<Rightarrow> xcmd_info \<Rightarrow> xcmd_info" where
  "qdma_prepare_q_stop = prepare_q XNL_CMD_Q_STOP 0"

definition qdma_prepare_q_del :: "q_settings \<Rightarrow> u32 \<Rightarrow> io_dir \<Rightarrow> nat \<Rightarrow> u32 \<Rightarrow> xcmd_info \<Rightarrow> xcmd_info" where
  "qdma_prepare_q_del = prepare_q XNL_CMD_Q_DEL 0"

section \<open>Creating and destroying queues\<close>

type_synonym 'k step = "nl_crash + int \<times> 'k"

definition qdma_create_queue :: "'k nl_env \<Rightarrow> q_settings \<Rightarrow> u32 \<Rightarrow> io_dir \<Rightarrow> nat \<Rightarrow> u32 \<Rightarrow> 'k \<Rightarrow> 'k step" where
  "qdma_create_queue env c bus d qid pf k =
     (case qdma_q_add env (qdma_prepare_q_add c bus d qid pf no_cmd) k of
        Inl cr \<Rightarrow> Inl cr
      | Inr ((ret, _), k1) \<Rightarrow>
          if ret < 0 then Inr (ret, k1)
          else case qdma_q_start env (qdma_prepare_q_start c bus d qid pf no_cmd) k1 of
            Inl cr \<Rightarrow> Inl cr
          | Inr ((ret2, x, _), k2) \<Rightarrow>
              if ret2 < 0
              then (case qdma_q_del env (qdma_prepare_q_del c bus d qid pf x) k2 of
                      Inl cr \<Rightarrow> Inl cr
                    | Inr (_, k3) \<Rightarrow> Inr (ret2, k3))
              else Inr (ret2, k2))"

text \<open>A queue is stopped and deleted, whether or not it stops.\<close>

definition qdma_destroy_queue :: "'k nl_env \<Rightarrow> q_settings \<Rightarrow> u32 \<Rightarrow> io_dir \<Rightarrow> nat \<Rightarrow> u32 \<Rightarrow> 'k \<Rightarrow> 'k step" where
  "qdma_destroy_queue env c bus d qid pf k =
     (case qdma_q_stop env (qdma_prepare_q_stop c bus d qid pf no_cmd) k of
        Inl cr \<Rightarrow> Inl cr
      | Inr (_, k1) \<Rightarrow>
          (case qdma_q_del env (qdma_prepare_q_del c bus d qid pf no_cmd) k1 of
             Inl cr \<Rightarrow> Inl cr
           | Inr ((ret, _), k2) \<Rightarrow> Inr (ret, k2)))"

fun hex_of :: "nat \<Rightarrow> byte list" where
  "hex_of n = (if n < 16 then [of_nat (if n < 10 then 0x30 + n else 0x57 + n)]
               else hex_of (n div 16) @ [of_nat (if n mod 16 < 10 then 0x30 + n mod 16 else 0x57 + n mod 16)])"

fun dec_of :: "nat \<Rightarrow> byte list" where
  "dec_of n = (if n < 10 then [of_nat (0x30 + n)] else dec_of (n div 10) @ [of_nat (0x30 + n mod 10)])"

text \<open>The name \<^verbatim>\<open>/dev/qdma%s%05x-%s-%d\<close>, cut to the 99 bytes its buffer holds.\<close>

definition qdma_q_prep_name :: "q_settings \<Rightarrow> u32 \<Rightarrow> nat \<Rightarrow> u32 \<Rightarrow> byte list" where
  "qdma_q_prep_name c bus qid pf =
     (let h = hex_of (unat (bdf c bus pf))
      in take 99 ([0x2f, 0x64, 0x65, 0x76, 0x2f, 0x71, 0x64, 0x6d, 0x61] @ (if is_vf c then [0x76, 0x66] else [])
         @ replicate (5 - length h) 0x30 @ h @ [0x2d] @ (case set_mode c of MODE_MM \<Rightarrow> [0x4d, 0x4d] | MODE_ST \<Rightarrow> [0x53, 0x54])
         @ [0x2d] @ dec_of qid))"

definition qdma_prepare_queue :: "'k nl_env \<Rightarrow> q_settings \<Rightarrow> u32 \<Rightarrow> io_dir \<Rightarrow> nat \<Rightarrow> u32 \<Rightarrow> 'k \<Rightarrow> nl_crash + int \<times> queue_info \<times> 'k" where
  "qdma_prepare_queue env c bus d qid pf k =
     (let q = no_queue\<lparr>q_name := Some (qdma_q_prep_name c bus qid pf), q_io := d\<rparr>
      in case qdma_create_queue env c bus d qid pf k of
           Inl cr \<Rightarrow> Inl cr
         | Inr (ret, k1) \<Rightarrow> Inr (ret, if ret < 0 then q else q\<lparr>q_qid := qid, q_pf := pf\<rparr>, k1))"

text \<open>The queues of a card in the order they are made; the first failure ends the set-up.\<close>

fun setup_each :: "'k nl_env \<Rightarrow> q_settings \<Rightarrow> u32 \<Rightarrow> (nat \<times> io_dir) list \<Rightarrow> int \<Rightarrow> queue_info list \<Rightarrow> 'k
    \<Rightarrow> nl_crash + int \<times> queue_info list \<times> 'k" where
  "setup_each env c bus [] ret qs k = Inr (ret, qs, k)"
| "setup_each env c bus ((qid, d) # ds) ret qs k =
     (case qdma_prepare_queue env c bus d qid (fun_id c) k of
        Inl cr \<Rightarrow> Inl cr
      | Inr (ret1, q, k1) \<Rightarrow>
          if ret1 < 0 then Inr (ret1, qs @ [q], k1) else setup_each env c bus ds ret1 (qs @ [q]) k1)"

definition io_dirs :: "q_dirs \<Rightarrow> io_dir list" where
  "io_dirs d = (case d of DIR_H2C \<Rightarrow> [DMAXFER_IO_WRITE] | DIR_C2H \<Rightarrow> [DMAXFER_IO_READ]
     | DIR_BIDI \<Rightarrow> [DMAXFER_IO_WRITE, DMAXFER_IO_READ])"

definition queue_plan :: "q_settings \<Rightarrow> (nat \<times> io_dir) list" where
  "queue_plan c = concat (map (\<lambda>qid. map (Pair qid) (io_dirs (set_dir c))) [0..<set_num_q c])"

text \<open>
  \<^verbatim>\<open>qdma_setup_queues\<close>: the number of queues or the error, and the array, whose entries not reached are
  zero; None where it was not allocated. Without queues \<open>ret\<close> is what the stack held.
\<close>

definition qdma_setup_queues :: "'k nl_env \<Rightarrow> q_settings \<Rightarrow> u32 \<Rightarrow> 'k \<Rightarrow> nl_crash + int \<times> queue_info list option \<times> 'k" where
  "qdma_setup_queues env c bus k =
     (let n = length (queue_plan c)
      in case nl_alloc env (32 * n) k of (ok, k1) \<Rightarrow>
        if \<not> ok then Inr (- 12, None, k1)
        else case setup_each env c bus (queue_plan c) (nl_garbage env) [] k1 of
          Inl cr \<Rightarrow> Inl cr
        | Inr (ret, qs, k2) \<Rightarrow>
            Inr (if ret < 0 then ret else int n, Some (qs @ replicate (n - length qs) no_queue), k2))"

fun destroy_each :: "'k nl_env \<Rightarrow> q_settings \<Rightarrow> u32 \<Rightarrow> queue_info list \<Rightarrow> 'k \<Rightarrow> nl_crash + 'k" where
  "destroy_each env c bus [] k = Inr k"
| "destroy_each env c bus (q # qs) k =
     (case qdma_destroy_queue env c bus (q_io q) (q_qid q) (q_pf q) k of
        Inl cr \<Rightarrow> Inl cr
      | Inr (_, k1) \<Rightarrow> destroy_each env c bus qs k1)"

definition qdma_queues_cleanup :: "'k nl_env \<Rightarrow> q_settings \<Rightarrow> u32 \<Rightarrow> queue_info list option \<Rightarrow> int \<Rightarrow> 'k \<Rightarrow> nl_crash + 'k" where
  "qdma_queues_cleanup env c bus qs n k =
     (case qs of
        None \<Rightarrow> Inr k
      | Some qs \<Rightarrow> if n < 0 then Inr k else destroy_each env c bus (take (nat n) qs) k)"

section \<open>The cards\<close>

definition MAX_QDMA :: nat where "MAX_QDMA = 10"

text \<open>Lines that are not empty, as \<^verbatim>\<open>strtok\<close> gives them.\<close>

fun split_lines :: "byte list \<Rightarrow> byte list \<Rightarrow> byte list list" where
  "split_lines cur [] = (if cur = [] then [] else [cur])"
| "split_lines cur (b # bs) =
     (if b = 10 then (if cur = [] then split_lines [] bs else cur # split_lines [] bs)
      else split_lines (cur @ [b]) bs)"

definition is_space :: "byte \<Rightarrow> bool" where
  "is_space b \<longleftrightarrow> b \<in> {9, 10, 11, 12, 13, 32}"

text \<open>\<^verbatim>\<open>sscanf(line, "qdma%2s", id)\<close>\<close>

definition scan_id :: "byte list \<Rightarrow> byte list option" where
  "scan_id l =
     (if take 4 l \<noteq> [0x71, 0x64, 0x6d, 0x61] then None
      else let w = take 2 (takeWhile (\<lambda>b. \<not> is_space b) (dropWhile is_space (drop 4 l)))
           in if w = [] then None else Some w)"

fun extract_lines :: "byte list list \<Rightarrow> nat \<Rightarrow> byte list list \<Rightarrow> byte list list" where
  "extract_lines [] n ids = ids"
| "extract_lines (l # ls) n ids =
     (if MAX_QDMA \<le> n then ids
      else case scan_id l of
             None \<Rightarrow> extract_lines ls n ids
           | Some w \<Rightarrow> extract_lines ls (n + 1) (ids[n := w]))"

definition extract_qdma_ids :: "byte list \<Rightarrow> byte list list \<Rightarrow> byte list list" where
  "extract_qdma_ids input ids = extract_lines (split_lines [] input) 0 ids"

definition hex_value :: "byte \<Rightarrow> nat option" where
  "hex_value b =
     (if 0x30 \<le> b \<and> b \<le> 0x39 then Some (unat b - 0x30)
      else if 0x61 \<le> b \<and> b \<le> 0x66 then Some (unat b - 0x57)
      else if 0x41 \<le> b \<and> b \<le> 0x46 then Some (unat b - 0x37)
      else None)"

fun hex_prefix :: "byte list \<Rightarrow> nat \<Rightarrow> nat" where
  "hex_prefix [] n = n"
| "hex_prefix (b # bs) n = (case hex_value b of None \<Rightarrow> n | Some d \<Rightarrow> hex_prefix bs (16 * n + d))"

text \<open>\<^verbatim>\<open>strtoul\<close> in base 16 of an identifier of at most two characters, none of them space.\<close>

definition strtoul16 :: "byte list \<Rightarrow> u32" where
  "strtoul16 s =
     (case s of
        [] \<Rightarrow> 0
      | b # bs \<Rightarrow>
          if b = 0x2b then of_nat (hex_prefix bs 0)
          else if b = 0x2d then - of_nat (hex_prefix bs 0)
          else of_nat (hex_prefix s 0))"

record qdma_t =
  devname :: "byte list option"
  qdma_fd :: int
  bus_num :: u32

record 'k qdma_lib =
  kern :: 'k
  totalDevNum :: nat
  qdma_list :: "byte list list"
  qdma :: "qdma_t list option"
  pci_bus :: u32
  q_infos :: "queue_info list option"
  q_count :: int
  at_exit :: bool

text \<open>The bus of every card is that of the line of the same number; there are ten.\<close>

definition get_qdma_bus_list :: "'k nl_env \<Rightarrow> 'k qdma_lib \<Rightarrow> nl_crash + 'k qdma_lib" where
  "get_qdma_bus_list env s =
     (case qdma_dev_list_dump env (no_cmd\<lparr>dumps := True\<rparr>) (kern s) of
        Inl cr \<Rightarrow> Inl cr
      | Inr ((_, _, _, texts), k1) \<Rightarrow>
          let ids = fold extract_qdma_ids texts (qdma_list s)
          in if MAX_QDMA < totalDevNum s then Inl Overrun
             else Inr (s\<lparr>kern := k1, qdma_list := ids,
                    qdma := map_option (\<lambda>qs. map (\<lambda>i. (qs ! i)\<lparr>bus_num := strtoul16 (ids ! i)\<rparr>) [0..<totalDevNum s]) (qdma s)\<rparr>))"

text \<open>The result of the check is not used.\<close>

definition qdma_validate_qrange :: "'k nl_env \<Rightarrow> q_settings \<Rightarrow> u32 \<Rightarrow> 'k \<Rightarrow> 'k step" where
  "qdma_validate_qrange env c bus k =
     (case qdma_dev_info env (no_cmd\<lparr>xop := XNL_CMD_DEV_INFO, if_bdf := bdf c bus (fun_id c)\<rparr>) k of
        Inl cr \<Rightarrow> Inl cr
      | Inr ((ret, x, _), k1) \<Rightarrow>
          Inr (if ret < 0 then ret
               else case resp x of Dev_Info i \<Rightarrow> if di_qmax i = 0 then - EINVAL else 0 | _ \<Rightarrow> - EINVAL, k1))"

text \<open>One card: its queues, and the file named by the first; True where the set-up goes on.\<close>

definition init_card :: "'k nl_env \<Rightarrow> (byte list \<Rightarrow> 'k \<Rightarrow> int \<times> 'k) \<Rightarrow> q_settings \<Rightarrow> nat \<Rightarrow> 'k qdma_lib \<Rightarrow> nl_crash + bool \<times> 'k qdma_lib" where
  "init_card env open_file c i s =
     (let bus = bus_num (the (qdma s) ! i)
      in case qdma_validate_qrange env c bus (kern s) of
           Inl cr \<Rightarrow> Inl cr
         | Inr (_, k1) \<Rightarrow>
             (case qdma_setup_queues env c bus k1 of
                Inl cr \<Rightarrow> Inl cr
              | Inr (n, qs, k2) \<Rightarrow>
                  let s1 = s\<lparr>kern := k2, pci_bus := bus, q_infos := qs, q_count := n\<rparr>
                  in if n < 0 then Inr (False, s1)
                     else case qs of
                       Some (q # _) \<Rightarrow>
                         (case q_name q of
                            None \<Rightarrow> Inl Null_Deref
                          | Some name \<Rightarrow>
                              (case open_file name k2 of (fd, k3) \<Rightarrow>
                                 Inr (0 \<le> fd, s1\<lparr>kern := k3,
                                   qdma := map_option (\<lambda>qs. qs[i := (qs ! i)\<lparr>devname := Some name, qdma_fd := fd\<rparr>]) (qdma s)\<rparr>)))
                     | _ \<Rightarrow> Inl Null_Deref))"

fun init_cards :: "'k nl_env \<Rightarrow> (byte list \<Rightarrow> 'k \<Rightarrow> int \<times> 'k) \<Rightarrow> q_settings \<Rightarrow> nat list \<Rightarrow> 'k qdma_lib \<Rightarrow> nl_crash + bool \<times> 'k qdma_lib" where
  "init_cards env open_file c [] s = Inr (True, s)"
| "init_cards env open_file c (i # is) s =
     (case init_card env open_file c i s of
        Inl cr \<Rightarrow> Inl cr
      | Inr (go_on, s1) \<Rightarrow> if go_on then init_cards env open_file c is s1 else Inr (False, s1))"

text \<open>\<open>blank\<close> is what \<^verbatim>\<open>malloc\<close> leaves in the array. The clean-up is registered when every card is there.\<close>

definition init_qdma :: "'k nl_env \<Rightarrow> (byte list \<Rightarrow> 'k \<Rightarrow> int \<times> 'k) \<Rightarrow> q_settings \<Rightarrow> qdma_t \<Rightarrow> 'k qdma_lib \<Rightarrow> nl_crash + 'k qdma_lib" where
  "init_qdma env open_file c blank s =
     (if qdma s \<noteq> None then Inr s
      else case nl_alloc env (64 * totalDevNum s) (kern s) of (ok, k1) \<Rightarrow>
        if \<not> ok \<and> 0 < totalDevNum s then Inl Null_Deref
        else case get_qdma_bus_list env (s\<lparr>kern := k1, qdma := Some (replicate (totalDevNum s) blank)\<rparr>) of
          Inl cr \<Rightarrow> Inl cr
        | Inr s1 \<Rightarrow>
            (case init_cards env open_file c [0..<totalDevNum s1] s1 of
               Inl cr \<Rightarrow> Inl cr
             | Inr (all, s2) \<Rightarrow> Inr (s2\<lparr>at_exit := at_exit s2 \<or> all\<rparr>)))"

section \<open>At exit\<close>

fun cleanup_cards :: "'k nl_env \<Rightarrow> q_settings \<Rightarrow> qdma_t list \<Rightarrow> queue_info list option \<Rightarrow> int \<Rightarrow> 'k \<Rightarrow> nl_crash + 'k" where
  "cleanup_cards env c [] qs n k = Inr k"
| "cleanup_cards env c (x # xs) qs n k =
     (case qdma_queues_cleanup env c (bus_num x) qs n k of
        Inl cr \<Rightarrow> Inl cr
      | Inr k1 \<Rightarrow> cleanup_cards env c xs qs n k1)"

definition qdma_env_cleanup :: "'k nl_env \<Rightarrow> q_settings \<Rightarrow> 'k qdma_lib \<Rightarrow> nl_crash + 'k qdma_lib" where
  "qdma_env_cleanup env c s =
     (case cleanup_cards env c (take (totalDevNum s) (the (qdma s))) (q_infos s) (q_count s) (kern s) of
        Inl cr \<Rightarrow> Inl cr
      | Inr k1 \<Rightarrow> Inr (s\<lparr>kern := k1, q_infos := None, q_count := 0\<rparr>))"

text \<open>
  The exit of the program: \<^verbatim>\<open>close_qdma\<close>, if it was registered, closes the files and registers the
  clean-up, which runs after it.
\<close>

definition close_qdma :: "'k nl_env \<Rightarrow> (int \<Rightarrow> 'k \<Rightarrow> 'k) \<Rightarrow> q_settings \<Rightarrow> 'k qdma_lib \<Rightarrow> nl_crash + 'k qdma_lib" where
  "close_qdma env close_file c s =
     (case qdma s of
        None \<Rightarrow> Inr s
      | Some qs \<Rightarrow>
          qdma_env_cleanup env c (s\<lparr>kern := fold (\<lambda>q. close_file (qdma_fd q)) (take (totalDevNum s) qs) (kern s)\<rparr>))"

definition exit_qdma :: "'k nl_env \<Rightarrow> (int \<Rightarrow> 'k \<Rightarrow> 'k) \<Rightarrow> q_settings \<Rightarrow> 'k qdma_lib \<Rightarrow> nl_crash + 'k qdma_lib" where
  "exit_qdma env close_file c s = (if at_exit s then close_qdma env close_file c s else Inr s)"

end
