(* ===== verification/Xpdev_Props.thy ===== *)
theory Xpdev_Props
  imports Xpdev
begin

text \<open>
  The two directions of a queue share a character device and each holds one bit of it. As long as
  requests name one direction, the device lives exactly as long as one of the two refers to it, and
  nothing touches a device that is gone. The type \<^verbatim>\<open>Q_H2C_C2H\<close>, which the PIM interface device lets
  through, breaks this.
\<close>

section \<open>Which queue refers to which device\<close>

definition refers :: "'l drv \<Rightarrow> nat \<Rightarrow> nat \<Rightarrow> nat \<Rightarrow> nat \<Rightarrow> bool" where
  "refers s d i t c \<longleftrightarrow> d < length (xpdev_list s) \<and> i < qmax (xpdev_list s ! d) \<and> t < 2
     \<and> xcdev (qdata (xpdev_list s ! d) ! (i + t * qmax (xpdev_list s ! d))) = Some c"

definition tables_ok :: "'l drv \<Rightarrow> bool" where
  "tables_ok s \<longleftrightarrow> (\<forall>x \<in> set (xpdev_list s). length (qdata x) = 3 * qmax x)"

definition refs_live :: "'l drv \<Rightarrow> bool" where
  "refs_live s \<longleftrightarrow> (\<forall>d i t c. refers s d i t c \<longrightarrow> (\<exists>cd. cdevs s c = Some cd \<and> bit (dir_init cd) t))"

definition refs_apart :: "'l drv \<Rightarrow> bool" where
  "refs_apart s \<longleftrightarrow> (\<forall>d d' i i' t t' c. refers s d i t c \<longrightarrow> refers s d' i' t' c \<longrightarrow> d = d' \<and> i = i')"

definition refs_shared :: "'l drv \<Rightarrow> bool" where
  "refs_shared s \<longleftrightarrow> (\<forall>d i t t' c c'. refers s d i t c \<longrightarrow> refers s d i t' c' \<longrightarrow> c = c')"

definition bits_used :: "'l drv \<Rightarrow> bool" where
  "bits_used s \<longleftrightarrow> (\<forall>d i t u c cd. refers s d i t c \<longrightarrow> cdevs s c = Some cd \<longrightarrow> bit (dir_init cd) u \<longrightarrow> refers s d i u c)"

text \<open>
  Every device that is referred to lives and has the bit of the direction, and only bits of directions
  that refer to it; it belongs to one queue, whose directions share it. New addresses are fresh.
\<close>

definition cdev_inv :: "'l drv \<Rightarrow> bool" where
  "cdev_inv s \<longleftrightarrow> tables_ok s \<and> refs_live s \<and> refs_apart s \<and> (\<forall>c cd. cdevs s c = Some cd \<longrightarrow> c < cdev_next s)
     \<and> refs_shared s \<and> bits_used s"

lemma cdev_invD:
  assumes "cdev_inv s"
  shows "tables_ok s"
    and "refers s d i t c \<Longrightarrow> \<exists>cd. cdevs s c = Some cd \<and> bit (dir_init cd) t"
    and "refers s d i t c \<Longrightarrow> refers s d' i' t' c \<Longrightarrow> d = d' \<and> i = i'"
    and "cdevs s c = Some cd \<Longrightarrow> c < cdev_next s"
    and "refers s d i t c \<Longrightarrow> refers s d i t' c' \<Longrightarrow> c = c'"
    and "refers s d i t c \<Longrightarrow> cdevs s c = Some cd \<Longrightarrow> bit (dir_init cd) u \<Longrightarrow> refers s d i u c"
proof -
  note A = assms [unfolded cdev_inv_def]
  show "tables_ok s" using A by (rule conjunct1)
  show "refers s d i t c \<Longrightarrow> \<exists>cd. cdevs s c = Some cd \<and> bit (dir_init cd) t"
    using A unfolding refs_live_def by blast
  show "refers s d i t c \<Longrightarrow> refers s d' i' t' c \<Longrightarrow> d = d' \<and> i = i'"
    using A unfolding refs_apart_def by blast
  show "cdevs s c = Some cd \<Longrightarrow> c < cdev_next s" using A by blast
  show "refers s d i t c \<Longrightarrow> refers s d i t' c' \<Longrightarrow> c = c'"
    using A unfolding refs_shared_def by blast
  show "refers s d i t c \<Longrightarrow> cdevs s c = Some cd \<Longrightarrow> bit (dir_init cd) u \<Longrightarrow> refers s d i u c"
    using A unfolding bits_used_def by blast
qed

lemma cdev_invI:
  assumes "tables_ok s"
    and "\<And>d i t c. refers s d i t c \<Longrightarrow> \<exists>cd. cdevs s c = Some cd \<and> bit (dir_init cd) t"
    and "\<And>d d' i i' t t' c. refers s d i t c \<Longrightarrow> refers s d' i' t' c \<Longrightarrow> d = d' \<and> i = i'"
    and "\<And>c cd. cdevs s c = Some cd \<Longrightarrow> c < cdev_next s"
    and "\<And>d i t t' c c'. refers s d i t c \<Longrightarrow> refers s d i t' c' \<Longrightarrow> c = c'"
    and "\<And>d i t u c cd. refers s d i t c \<Longrightarrow> cdevs s c = Some cd \<Longrightarrow> bit (dir_init cd) u \<Longrightarrow> refers s d i u c"
  shows "cdev_inv s"
proof -
  have "refs_live s" unfolding refs_live_def by (intro allI impI) (rule assms(2))
  moreover have "refs_apart s" unfolding refs_apart_def by (intro allI impI) (rule assms(3))
  moreover have "refs_shared s" unfolding refs_shared_def by (intro allI impI) (rule assms(5))
  moreover have "bits_used s" unfolding bits_used_def by (intro allI impI) (rule assms(6))
  ultimately show ?thesis using assms(1,4) unfolding cdev_inv_def by blast
qed

lemma ex_lib [simp]: "\<exists>l. s\<lparr>lib := l0\<rparr> = s\<lparr>lib := l\<rparr>" "\<exists>l. s = s\<lparr>lib := l\<rparr>"
  by (rule exI, rule refl) (rule exI [of _ "lib s"], simp)

lemma refers_lib [simp]: "refers (s\<lparr>lib := l\<rparr>) = refers s" "refers (s\<lparr>cdevs := m\<rparr>) = refers s" "refers (s\<lparr>cdev_next := n\<rparr>) = refers s"
  by (simp_all add: refers_def fun_eq_iff)

lemma tables_lib [simp]: "tables_ok (s\<lparr>lib := l\<rparr>) = tables_ok s" "tables_ok (s\<lparr>cdevs := m\<rparr>) = tables_ok s"
    "tables_ok (s\<lparr>cdev_next := n\<rparr>) = tables_ok s"
  by (simp_all add: tables_ok_def)

lemma cdev_inv_lib [simp]: "cdev_inv (s\<lparr>lib := l\<rparr>) = cdev_inv s"
  by (simp add: cdev_inv_def refs_live_def refs_apart_def refs_shared_def bits_used_def)

lemma slot_inj: "i < n \<Longrightarrow> i' < n \<Longrightarrow> i + t * n = i' + t' * n \<longleftrightarrow> i = i' \<and> t = t'" for n :: nat
proof
  assume a: "i < n" "i' < n" and e: "i + t * n = i' + t' * n"
  have parts: "(a + b * n) div n = b" "(a + b * n) mod n = a" if "a < n" for a b using that by simp_all
  from parts [OF a(1), of t] parts [OF a(2), of t'] e show "i = i' \<and> t = t'" by simp
qed simp

lemma tables_set [simp]: "d < length (xpdev_list s) \<Longrightarrow> tables_ok s \<Longrightarrow> tables_ok (set_qdata d j q s)"
  by (auto simp: tables_ok_def set_qdata_def dest!: set_update_subset_insert [THEN subsetD])

lemma refers_set:
  assumes "d < length (xpdev_list s)" "tables_ok s" "i < qmax (xpdev_list s ! d)" "t < 3"
  shows "refers (set_qdata d (i + t * qmax (xpdev_list s ! d)) q s) d' i' t' c
    \<longleftrightarrow> (if d' = d \<and> i' = i \<and> t' = t then t < 2 \<and> xcdev q = Some c else refers s d' i' t' c)"
proof -
  let ?x = "xpdev_list s ! d"
  have "length (qdata ?x) = 3 * qmax ?x" using assms(1,2) by (simp add: tables_ok_def)
  moreover have "i + t * qmax ?x < 3 * qmax ?x"
  proof -
    have "t * qmax ?x \<le> 2 * qmax ?x" using assms(4) by (intro mult_le_mono1) simp
    with assms(3) show ?thesis by linarith
  qed
  moreover have "i + t * qmax ?x = i' + t' * qmax ?x \<longleftrightarrow> i = i' \<and> t = t'" if "i' < qmax ?x"
    using slot_inj [OF assms(3) that] .
  ultimately show ?thesis
    using assms(1,3) by (auto simp: refers_def set_qdata_def nth_list_update)
qed

lemma set_qdata_parts [simp]:
  "cdevs (set_qdata d j q s) = cdevs s" "cdev_next (set_qdata d j q s) = cdev_next s" "lib (set_qdata d j q s) = lib s"
  by (simp_all add: set_qdata_def)

lemma queue_get_slot:
  assumes "xpdev_queue_get x i t b = Some j" "t < 3"
  shows "i < qmax x \<and> j = i + t * qmax x"
proof -
  consider "t = 0" | "t = 1" | "t = 2" using assms(2) by linarith
  then show ?thesis using assms(1) by cases (auto simp: xpdev_queue_get_def Let_def split: if_splits)
qed

section \<open>Taking away\<close>

definition used_by :: "nat \<Rightarrow> nat \<Rightarrow> 'l drv \<Rightarrow> bool" where
  "used_by d c s \<longleftrightarrow> (\<exists>i t. refers s d i t c)"

text \<open>What an operation on the queues of card \<open>d\<close> may do to the devices when it only takes away.\<close>

definition shrinks :: "nat \<Rightarrow> 'l drv \<Rightarrow> 'l drv \<Rightarrow> bool" where
  "shrinks d s s' \<longleftrightarrow> length (xpdev_list s') = length (xpdev_list s) \<and> map qmax (xpdev_list s') = map qmax (xpdev_list s)
     \<and> (\<forall>d' i t c. refers s' d' i t c \<longrightarrow> refers s d' i t c)
     \<and> (\<forall>d' i t c. d' \<noteq> d \<longrightarrow> refers s d' i t c \<longrightarrow> refers s' d' i t c)
     \<and> (\<forall>c. used_by d c s \<longrightarrow> used_by d c s' \<or> cdevs s' c = None)
     \<and> (\<forall>c. \<not> used_by d c s \<longrightarrow> cdevs s' c = cdevs s c)"

lemma shrinksD:
  assumes "shrinks d s s'"
  shows "length (xpdev_list s') = length (xpdev_list s)" "map qmax (xpdev_list s') = map qmax (xpdev_list s)"
    and "refers s' d' i t c \<Longrightarrow> refers s d' i t c"
    and "d' \<noteq> d \<Longrightarrow> refers s' d' i t c = refers s d' i t c"
    and "used_by d c s \<Longrightarrow> used_by d c s' \<or> cdevs s' c = None"
    and "\<not> used_by d c s \<Longrightarrow> cdevs s' c = cdevs s c"
  using assms unfolding shrinks_def by auto

lemma shrinks_refl [simp]: "shrinks d s s"
  by (simp add: shrinks_def)

lemma shrinks_trans:
  assumes "shrinks d s s'" "shrinks d s' s''"
  shows "shrinks d s s''"
proof -
  note A = shrinksD [OF assms(1)] and B = shrinksD [OF assms(2)]
  have "used_by d c s'' \<or> cdevs s'' c = None" if "used_by d c s" for c
    using A(5) [OF that] B(5,6) [of c] by (cases "used_by d c s'") auto
  moreover have "cdevs s'' c = cdevs s c" if "\<not> used_by d c s" for c
  proof -
    have "\<not> used_by d c s'" using that A(3) unfolding used_by_def by blast
    then show ?thesis using A(6) [OF that] B(6) [of c] by simp
  qed
  ultimately show ?thesis
    unfolding shrinks_def using A(1-4) B(1-4) by auto
qed

lemma qmax_set_qdata [simp]: "map qmax (xpdev_list (set_qdata d j q s)) = map qmax (xpdev_list s)"
  by (cases "d < length (xpdev_list s)") (simp_all add: set_qdata_def map_update list_update_same_conv list_update_beyond)

section \<open>Deleting\<close>

lemma bit_dir_bit [simp]: "bit (dir_bit t) b \<longleftrightarrow> b = t \<and> t < 16"
  by (auto simp: dir_bit_def bit_simps)

lemma queue_delete_inv:
  assumes "cdev_inv s" "d < length (xpdev_list s)" "t < 3"
  shows "\<exists>rv s'. xpdev_queue_delete env d i t s = Some (rv, s') \<and> cdev_inv s' \<and> shrinks d s s'"
proof (cases "xpdev_queue_get (xpdev_list s ! d) i t True")
  case None
  then show ?thesis using assms by (simp add: xpdev_queue_delete_def)
next
  case (Some j)
  let ?x = "xpdev_list s ! d"
  have i: "i < qmax ?x" and j: "j = i + t * qmax ?x" using queue_get_slot [OF Some assms(3)] by simp_all
  obtain rv l1 where l1: "(if qhndl (qdata ?x ! j) \<noteq> QDMA_QUEUE_IDX_INVALID
      then l_queue_remove env (dev_hndl ?x) (qhndl (qdata ?x ! j)) (lib s) else (0, lib s)) = (rv, l1)" by fastforce
  let ?s1 = "s\<lparr>lib := l1\<rparr>"
  have set: "set_qdata d j q = set_qdata d (i + t * qmax (xpdev_list s2 ! d)) q" if "xpdev_list s2 = xpdev_list s" for q and s2 :: "'a drv"
    using that j by simp
  show ?thesis
  proof (cases "rv < 0 \<or> (t \<noteq> Q_CMPT \<and> xcdev (qdata ?x ! j) = None)")
    case True
    moreover have "shrinks d s ?s1" by (simp add: shrinks_def used_by_def)
    ultimately show ?thesis using assms l1 Some by (auto simp: xpdev_queue_delete_def Let_def)
  next
    case False
    show ?thesis
    proof (cases "t = Q_CMPT")
      case True
      let ?s2 = "set_qdata d j no_qdata ?s1"
      have r: "refers ?s2 d' i' t' c = refers s d' i' t' c" for d' i' t' c
      proof -
        have "refers ?s2 d' i' t' c = (if d' = d \<and> i' = i \<and> t' = 2 then (2 :: nat) < 2 \<and> xcdev no_qdata = Some c else refers ?s1 d' i' t' c)"
          using refers_set [of d ?s1 i t no_qdata d' i' t' c] assms i True cdev_invD(1) [OF assms(1)] j by simp
        then show ?thesis by (auto simp: refers_def)
      qed
      have "cdev_inv ?s2"
      proof (rule cdev_invI)
        show "tables_ok ?s2" using cdev_invD(1) [OF assms(1)] assms(2) by simp
      qed (use cdev_invD(2-6) [OF assms(1)] r in auto)
      moreover have "shrinks d s ?s2"
        using r qmax_set_qdata [of d j no_qdata ?s1] by (auto simp: shrinks_def used_by_def dest: map_eq_imp_length_eq simp del: qmax_set_qdata)
      ultimately show ?thesis
        using True False l1 Some by (auto simp add: xpdev_queue_delete_def Let_def simp del: set_qdata_parts)
    next
      case nc: False
      then obtain c where c: "xcdev (qdata ?x ! j) = Some c" using False by auto
      have t: "t < 2" using nc assms(3) by simp
      have ref: "refers s d i t c" using c i j t assms(2) by (simp add: refers_def)
      then obtain cd where cd: "cdevs s c = Some cd" "bit (dir_init cd) t" using cdev_invD(2) [OF assms(1)] by blast
      let ?f = "dir_init cd AND NOT (dir_bit (if t \<noteq> 0 then 1 else 0))"
      have tb: "(if t \<noteq> 0 then 1 else 0) = t" using t by auto
      let ?s2 = "?s1\<lparr>cdevs := (cdevs s)(c \<mapsto> cd\<lparr>dir_init := ?f\<rparr>)\<rparr>"
      let ?s3 = "if ?f = 0 then qdma_cdev_destroy c ?s2 else ?s2"
      let ?s4 = "set_qdata d j no_qdata ?s3"
      have x3: "xpdev_list ?s3 = xpdev_list s" "refers ?s3 = refers s" "tables_ok ?s3 = tables_ok s" "cdev_next ?s3 = cdev_next s"
        by (simp_all add: qdma_cdev_destroy_def)
      have r: "refers ?s4 d' i' t' c' \<longleftrightarrow> refers s d' i' t' c' \<and> (d', i', t') \<noteq> (d, i, t)" for d' i' t' c'
        using refers_set [of d ?s3 i t no_qdata d' i' t' c'] assms(2,3) i cdev_invD(1) [OF assms(1)] x3 j
        by (auto simp: no_qdata_def)
      have "cdev_inv ?s4"
      proof (rule cdev_invI)
        show "tables_ok ?s4" using cdev_invD(1) [OF assms(1)] assms(2) x3 by simp
        show "d1 = d2 \<and> i1 = i2" if "refers ?s4 d1 i1 t1 c'" "refers ?s4 d2 i2 t2 c'" for d1 i1 t1 d2 i2 t2 c'
          using cdev_invD(3) [OF assms(1)] that r by blast
        show "c1 = c2" if "refers ?s4 d' i' t1 c1" "refers ?s4 d' i' t2 c2" for d' i' t1 t2 c1 c2
          using cdev_invD(5) [OF assms(1)] that r by blast
        show "refers ?s4 d' i' u c'" if "refers ?s4 d' i' t' c'" "cdevs ?s4 c' = Some cd'" "bit (dir_init cd') u" for d' i' t' u c' cd'
        proof (cases "c' = c")
          case True
          then have e: "d' = d" "i' = i" using cdev_invD(3) [OF assms(1) _ ref] that(1) r by blast+
          have "cd' = cd\<lparr>dir_init := ?f\<rparr>" using that(2) True by (auto simp: qdma_cdev_destroy_def split: if_splits)
          then have "bit (dir_init cd) u" "u \<noteq> t" using that(3) unfolding tb by (auto simp: bit_simps)
          then show ?thesis using cdev_invD(6) [OF assms(1) ref cd(1)] True e r by simp
        next
          case False
          then have "cdevs s c' = Some cd'" using that(2) by (auto simp: qdma_cdev_destroy_def split: if_splits)
          then have "refers s d' i' u c'" using cdev_invD(6) [OF assms(1)] that(1,3) r by blast
          then show ?thesis using cdev_invD(5) [OF assms(1) ref] False r by blast
        qed
        show "c' < cdev_next ?s4" if "cdevs ?s4 c' = Some cd'" for c' cd'
          using that cdev_invD(4) [OF assms(1)] cd(1) by (auto simp: x3 qdma_cdev_destroy_def split: if_splits)
        show "\<exists>cd'. cdevs ?s4 c' = Some cd' \<and> bit (dir_init cd') t'" if "refers ?s4 d' i' t' c'" for d' i' t' c'
        proof (cases "c' = c")
          case True
          have "refers s d' i' t' c" "(d', i', t') \<noteq> (d, i, t)" using that r True by blast+
          moreover from this have "d' = d" "i' = i" using cdev_invD(3) [OF assms(1) _ ref] by blast+
          ultimately have "t' \<noteq> t" "bit (dir_init cd) t'" using cdev_invD(2) [OF assms(1), of d' i' t' c] cd(1) by auto
          then have "bit ?f t'" unfolding tb by (auto simp: bit_simps dest: bit_imp_le_length)
          moreover from this have "?f \<noteq> 0" by auto
          ultimately show ?thesis using True by simp
        next
          case False
          then show ?thesis using cdev_invD(2) [OF assms(1)] that r by (auto simp: qdma_cdev_destroy_def)
        qed
      qed
      moreover have "leave_cdev t c ?s1 = Some ?s3" using cd(1) by (simp add: leave_cdev_def Let_def)
      then have "xpdev_queue_delete env d i t s = Some (rv, ?s4)"
        using nc c False l1 Some by (simp add: xpdev_queue_delete_def Let_def del: set_qdata_parts)
      moreover have "shrinks d s ?s4"
      proof -
        have "used_by d c' ?s4 \<or> cdevs ?s4 c' = None" if u: "used_by d c' s" for c'
        proof (cases "c' = c \<and> ?f \<noteq> 0")
          case True
          then obtain b where "bit ?f b" using bit_eq_iff [of ?f 0] by (auto simp del: bit_and_iff bit_not_iff bit_not_iff_eq)
          then have "bit (dir_init cd) b" "b \<noteq> t" unfolding tb by (auto simp: bit_simps dest: bit_imp_le_length)
          then have "refers ?s4 d i b c" using cdev_invD(6) [OF assms(1) ref cd(1)] r by simp
          then show ?thesis using True unfolding used_by_def by blast
        next
          case False
          then show ?thesis
          proof (cases "c' = c")
            case True
            with False show ?thesis by (simp add: qdma_cdev_destroy_def)
          next
            case False
            then show ?thesis using u r cdev_invD(5) [OF assms(1) ref] unfolding used_by_def by blast
          qed
        qed
        moreover have "cdevs ?s4 c' = cdevs s c'" if "\<not> used_by d c' s" for c'
          using that ref by (auto simp: used_by_def qdma_cdev_destroy_def)
        moreover have "map qmax (xpdev_list ?s4) = map qmax (xpdev_list s)" using x3(1) by simp
        moreover from this have "length (xpdev_list ?s4) = length (xpdev_list s)" by (rule map_eq_imp_length_eq)
        moreover have "refers s d' i' t' c'" if "refers ?s4 d' i' t' c'" for d' i' t' c' using that r by blast
        moreover have "refers ?s4 d' i' t' c'" if "d' \<noteq> d" "refers s d' i' t' c'" for d' i' t' c' using that r by blast
        ultimately show ?thesis unfolding shrinks_def by (intro conjI allI impI)
      qed
      ultimately show ?thesis by blast
    qed
  qed
qed

section \<open>Adding\<close>

lemma set_hndl_dir [simp]: "dir_init (set_hndl t h cd) = dir_init cd"
  by (simp add: set_hndl_def)

lemma queue_add_inv:
  assumes "cdev_inv s" "d < length (xpdev_list s)" "q_type conf < 3"
  shows "\<exists>rv i s'. xpdev_queue_add env d conf s = Some (rv, i, s') \<and> cdev_inv s' \<and> length (xpdev_list s') = length (xpdev_list s)"
proof -
  let ?x = "xpdev_list s ! d" and ?t = "q_type conf"
  obtain rv i h l1 where l1: "l_queue_add env (dev_hndl ?x) conf (lib s) = ((rv, i, h), l1)" by (metis prod.exhaust)
  let ?s1 = "s\<lparr>lib := l1\<rparr>"
  show ?thesis
  proof (cases "rv < 0 \<or> xpdev_queue_get ?x i ?t False = None")
    case True
    then show ?thesis using assms l1 by (auto simp: xpdev_queue_add_def Let_def)
  next
    case False
    then obtain j where get: "xpdev_queue_get ?x i ?t False = Some j" by auto
    then have i: "i < qmax ?x" and j: "j = i + ?t * qmax ?x" using queue_get_slot assms(3) by blast+
    have r: "refers (set_qdata d j q s2) d' i' t' c
        \<longleftrightarrow> (if d' = d \<and> i' = i \<and> t' = ?t then ?t < 2 \<and> xcdev q = Some c else refers s2 d' i' t' c)"
      if "xpdev_list s2 = xpdev_list s" for q d' i' t' c and s2 :: "'a drv"
      using refers_set [of d s2 i ?t q d' i' t' c] assms i cdev_invD(1) [OF assms(1)] that j by (simp add: tables_ok_def)
    have tab: "tables_ok (set_qdata d j q s2)" if e: "xpdev_list s2 = xpdev_list s" for q and s2 :: "'a drv"
      by (rule tables_set) (use cdev_invD(1) [OF assms(1)] assms(2) e in \<open>simp_all add: tables_ok_def\<close>)
    show ?thesis
    proof (cases "other_cdev ?x i ?t")
      case (Some c)
      then have "?t \<noteq> 2" by (auto simp: other_cdev_def)
      then consider "?t = 0" | "?t = 1" using assms(3) by linarith
      then have c: "xcdev (qdata ?x ! (i + (1 - ?t) * qmax ?x)) = Some c"
        by cases (use Some i in \<open>auto simp: other_cdev_def xpdev_queue_get_def split: if_splits\<close>)
      have t: "?t < 2" using assms(3) \<open>?t \<noteq> 2\<close> by linarith
      have ref: "refers s d i (1 - ?t) c" using c i assms(2) by (simp add: refers_def)
      then obtain cd where cd: "cdevs s c = Some cd" "bit (dir_init cd) (1 - ?t)" using cdev_invD(2) [OF assms(1)] by blast
      let ?cd = "(set_hndl ?t h cd)\<lparr>dir_init := dir_init cd OR dir_bit ?t\<rparr>"
      let ?s2 = "(set_qdata d j \<lparr>qhndl = h, xcdev = Some c\<rparr> ?s1)\<lparr>cdevs := (cdevs s)(c \<mapsto> ?cd)\<rparr>"
      have r2: "refers ?s2 d' i' t' c' \<longleftrightarrow> (if d' = d \<and> i' = i \<and> t' = ?t then c' = c else refers s d' i' t' c')" for d' i' t' c'
        using r [of ?s1] t by auto
      have "cdev_inv ?s2"
      proof (rule cdev_invI)
        show "tables_ok ?s2" using tab [of ?s1] by simp
        show "c1 = c2" if "refers ?s2 d' i' t1 c1" "refers ?s2 d' i' t2 c2" for d' i' t1 t2 c1 c2
          using cdev_invD(5) [OF assms(1)] cdev_invD(5) [OF assms(1) ref] that unfolding r2 by (metis (full_types))
        show "refers ?s2 d' i' u c'" if "refers ?s2 d' i' t' c'" "cdevs ?s2 c' = Some cd'" "bit (dir_init cd') u" for d' i' t' u c' cd'
        proof (cases "c' = c")
          case True
          then have e: "d' = d" "i' = i" using cdev_invD(3) [OF assms(1) _ ref] that(1) unfolding r2 by (metis (full_types))+
          have "u = ?t \<or> bit (dir_init cd) u" using that(2,3) True by (auto simp: bit_simps)
          then show ?thesis using cdev_invD(6) [OF assms(1) ref cd(1)] True e unfolding r2 by auto
        next
          case False
          then have old: "refers s d' i' t' c'" using that(1) unfolding r2 by (metis (full_types))
          then have "refers s d' i' u c'" using cdev_invD(6) [OF assms(1)] that(2,3) False by auto
          then show ?thesis using cdev_invD(5) [OF assms(1) ref] False unfolding r2 by metis
        qed
        show "c' < cdev_next ?s2" if "cdevs ?s2 c' = Some cd'" for c' cd'
          using that cd(1) cdev_invD(4) [OF assms(1)] by (auto split: if_splits)
        show "d1 = d2 \<and> i1 = i2" if "refers ?s2 d1 i1 t1 c'" "refers ?s2 d2 i2 t2 c'" for d1 i1 t1 d2 i2 t2 c'
          using that cdev_invD(3) [OF assms(1)] ref unfolding r2 by (metis (full_types))
        show "\<exists>cd'. cdevs ?s2 c' = Some cd' \<and> bit (dir_init cd') t'" if "refers ?s2 d' i' t' c'" for d' i' t' c'
        proof (cases "d' = d \<and> i' = i \<and> t' = ?t")
          case True
          then show ?thesis using that t unfolding r2 by (auto simp: bit_simps)
        next
          case False
          then have "refers s d' i' t' c'" using that unfolding r2 by (simp only: if_False)
          then obtain cd' where "cdevs s c' = Some cd'" "bit (dir_init cd') t'" using cdev_invD(2) [OF assms(1)] by blast
          then show ?thesis using cd(1) by (auto simp: bit_simps)
        qed
      qed
      moreover have "xpdev_queue_add env d conf s = Some (0, i, ?s2)"
        using False get Some l1 cd(1) by (simp add: xpdev_queue_add_def Let_def join_cdev_def)
      ultimately show ?thesis by (simp add: set_qdata_def)
    next
      case None
      obtain rv1 conf1 where g: "l_get_config env (dev_hndl ?x) l1 = (rv1, conf1)" by fastforce
      show ?thesis
      proof (cases "rv1 < 0")
        case True
        then show ?thesis using False get None l1 g assms by (auto simp: xpdev_queue_add_def Let_def)
      next
        case ok: False
        show ?thesis
        proof (cases "?t = Q_CMPT")
          case True
          let ?s2 = "set_qdata d j ((qdata ?x ! j)\<lparr>qhndl := h\<rparr>) ?s1"
          have "refers ?s2 d' i' t' c \<longleftrightarrow> refers s d' i' t' c" for d' i' t' c
            using r [of ?s1] True by (auto simp: refers_def)
          then have "cdev_inv ?s2"
            by (intro cdev_invI) (use tab [of ?s1] cdev_invD(2-6) [OF assms(1)] in auto)
          moreover have "xpdev_queue_add env d conf s = Some (rv1, i, ?s2)"
            using False get None l1 g ok True by (simp add: xpdev_queue_add_def Let_def)
          ultimately show ?thesis by (simp add: set_qdata_def)
        next
          case nc: False
          then have t: "?t < 2" using assms(3) by simp
          obtain rv2 co s2 where cr: "qdma_cdev_create env conf (qsets_base conf1 + i) h ?s1 = ((rv2, co), s2)" by (metis prod.exhaust)
          let ?s3 = "set_qdata d j \<lparr>qhndl = h, xcdev = co\<rparr> s2"
          have add: "xpdev_queue_add env d conf s = Some (rv2, i, ?s3)"
            using False get None l1 g ok nc cr by (simp add: xpdev_queue_add_def Let_def)
          have x2: "xpdev_list s2 = xpdev_list s" "refers s2 = refers s"
            and heap: "co = None \<and> cdevs s2 = cdevs s \<and> cdev_next s2 = cdev_next s
              \<or> co = Some (cdev_next s) \<and> cdev_next s2 = cdev_next s + 1
                \<and> (\<exists>cd. cdevs s2 = (cdevs s)(cdev_next s \<mapsto> cd) \<and> dir_init cd = dir_bit ?t)"
            using cr t by (auto simp: qdma_cdev_create_def Let_def split: if_splits prod.splits)
          have fresh: "\<not> refers s d' i' t' (cdev_next s)" for d' i' t'
            using cdev_invD(2,4) [OF assms(1)] by blast
          have r3: "refers ?s3 d' i' t' c \<longleftrightarrow> (if d' = d \<and> i' = i \<and> t' = ?t then co = Some c else refers s d' i' t' c)" for d' i' t' c
            using r [OF x2(1)] x2(2) t by auto
          have alone: "\<not> refers s d i (1 - ?t) c" for c
          proof -
            consider "?t = 0" | "?t = 1" using t by linarith
            then show ?thesis
              by cases (use None i in \<open>auto simp: refers_def other_cdev_def xpdev_queue_get_def split: if_splits\<close>)
          qed
          have here: "t' = ?t" if "refers s d i t' c" for t' c
          proof -
            have "t' < 2" using that by (simp add: refers_def)
            then show ?thesis using that alone [of c] t by (cases "t' = 1 - ?t") auto
          qed
          have "cdev_inv ?s3"
          proof (rule cdev_invI)
            show "c1 = c2" if "refers ?s3 d' i' t1 c1" "refers ?s3 d' i' t2 c2" for d' i' t1 t2 c1 c2
              using cdev_invD(5) [OF assms(1)] that here unfolding r3 by (metis (full_types) option.inject)
            show "refers ?s3 d' i' u c" if "refers ?s3 d' i' t' c" "cdevs ?s3 c = Some cd" "bit (dir_init cd) u" for d' i' t' u c cd
            proof (cases "d' = d \<and> i' = i \<and> t' = ?t")
              case True
              then have "co = Some c" using that(1) unfolding r3 by simp
              then have "u = ?t" using heap that(2,3) by auto
              then show ?thesis using that(1) True by simp
            next
              case False
              then have old: "refers s d' i' t' c" using that(1) unfolding r3 by (simp only: if_False)
              then have "c \<noteq> cdev_next s" using fresh by blast
              then have "cdevs s c = Some cd" using that(2) heap by auto
              then have "refers s d' i' u c" using cdev_invD(6) [OF assms(1) old] that(3) by blast
              then show ?thesis using old here False unfolding r3 by metis
            qed
            show "tables_ok ?s3" using tab [OF x2(1)] by simp
            show "c < cdev_next ?s3" if "cdevs ?s3 c = Some cd" for c cd
              using that heap cdev_invD(4) [OF assms(1)] by (fastforce split: if_splits)
            show "d1 = d2 \<and> i1 = i2" if "refers ?s3 d1 i1 t1 c" "refers ?s3 d2 i2 t2 c" for d1 i1 t1 d2 i2 t2 c
              using that heap fresh cdev_invD(3) [OF assms(1)] unfolding r3 by (auto split: if_splits)
            show "\<exists>cd. cdevs ?s3 c = Some cd \<and> bit (dir_init cd) t'" if "refers ?s3 d' i' t' c" for d' i' t' c
            proof (cases "d' = d \<and> i' = i \<and> t' = ?t")
              case True
              then have "co = Some c" using that unfolding r3 by simp
              then show ?thesis using heap True t by auto
            next
              case False
              then have old: "refers s d' i' t' c" using that unfolding r3 by (simp only: if_False)
              then have "c \<noteq> cdev_next s" using fresh by blast
              then show ?thesis using cdev_invD(2) [OF assms(1) old] heap by auto
            qed
          qed
          then show ?thesis using add x2(1) by (simp add: set_qdata_def)
        qed
      qed
    qed
  qed
qed

end
