(* ===== verification/Queue_Link.thy ===== *)
theory Queue_Link
  imports Xnl_Link Xnl_Info Queue_Setup Xpdev_Props
begin

text \<open>
  The set-up of the queues from end to end: the library's commands over the socket, served by the
  driver's handlers. The driver of physical functions and that of virtual functions are two modules
  with a state each, None after a crash.
\<close>

section \<open>The driver behind the socket\<close>

type_synonym 'l drivers = "bool \<Rightarrow> 'l drv option"

text \<open>
  The message a handler sends: its command is that of the request, but the state of a queue, which has no
  text, goes out under the command of the statistics; its sequence number is one more than the request's.
\<close>

definition reply_cmd :: "xnl_op_t \<Rightarrow> nl_attr list \<Rightarrow> xnl_op_t" where
  "reply_cmd op rs = (case rs of Txt t # _ \<Rightarrow> op | _ \<Rightarrow> if op = XNL_CMD_GET_Q_STATE then XNL_CMD_DEV_STAT else op)"

definition driver_reply :: "u32 \<Rightarrow> xnl_op_t \<Rightarrow> u16 \<Rightarrow> nl_attr list \<Rightarrow> byte list" where
  "driver_reply seq op fam rs = wire_reply (seq + 1) (reply_cmd op rs) fam rs"

text \<open>
  The netlink core hands the last attribute of each type to the handler and answers a result other
  than 0 with an error message \<open>err\<close>, after the handler's own replies.
\<close>

definition netlink_serve :: "'l srv_env \<Rightarrow> 'l info_env \<Rightarrow> (bool \<Rightarrow> u16 option) \<Rightarrow> (u32 \<Rightarrow> int \<Rightarrow> byte list)
    \<Rightarrow> bool \<Rightarrow> u32 \<Rightarrow> xnl_op_t \<Rightarrow> (xnl_attr_t \<times> u32) list \<Rightarrow> 'l drivers \<Rightarrow> byte list list \<times> 'l drivers" where
  "netlink_serve env ie fam err v seq op as ds =
     (case ds v of
        None \<Rightarrow> ([], ds)
      | Some s \<Rightarrow>
          (case xnl_doit env ie op (map_of (rev as)) s of
             None \<Rightarrow> ([], ds(v := None))
           | Some (rv, rs, s1) \<Rightarrow>
               (map (driver_reply seq op (the (fam v))) rs @ (if rv \<noteq> 0 then [err seq rv] else []), ds(v := Some s1))))"

text \<open>A library \<^verbatim>\<open>libqdma\<close> and a kernel that grant what they are asked for; \<open>hnd\<close> names the handles.\<close>

definition obliging :: "'l lib_env \<Rightarrow> (nat \<Rightarrow> nat \<Rightarrow> nat) \<Rightarrow> bool" where
  "obliging env hnd \<longleftrightarrow>
     (\<forall>d conf l. \<exists>l'. l_queue_add env d conf l = ((0, qidx conf, hnd (q_type conf) (qidx conf)), l')) \<and>
     (\<forall>d h l. \<exists>l'. l_queue_remove env d h l = (0, l')) \<and>
     (\<forall>d h l. \<exists>c. l_queue_get_config env d h l = (0, c)) \<and>
     (\<forall>d h c l. \<exists>l'. l_queue_config env d h c l = (0, l')) \<and>
     (\<forall>d h l. \<exists>l'. l_queue_start env d h l = (0, l')) \<and>
     (\<forall>d h l. \<exists>l'. l_queue_stop env d h l = (0, l')) \<and>
     (\<forall>d l. \<exists>c. l_get_config env d l = (0, c) \<and> qsets_base c < cdev_minor_cnt env) \<and>
     (\<forall>d l. l_qmax env d l \<noteq> 0) \<and>
     (\<forall>l. \<exists>l'. k_alloc env l = (True, l')) \<and>
     (\<forall>m l. \<exists>l'. k_cdev_add env m l = (0, l')) \<and>
     (\<forall>m l. \<exists>l'. k_device_create env m l = (0, l'))"

lemma obligingD:
  assumes "obliging env hnd"
  shows "\<exists>l'. l_queue_add env d conf l = ((0, qidx conf, hnd (q_type conf) (qidx conf)), l')"
    and "\<exists>l'. l_queue_remove env d h l = (0, l')"
    and "\<exists>c. l_queue_get_config env d h l = (0, c)"
    and "\<exists>l'. l_queue_config env d h conf l = (0, l')"
    and "\<exists>l'. l_queue_start env d h l = (0, l')"
    and "\<exists>l'. l_queue_stop env d h l = (0, l')"
    and "\<exists>c. l_get_config env d l = (0, c) \<and> qsets_base c < cdev_minor_cnt env"
    and "l_qmax env d l \<noteq> 0"
    and "\<exists>l'. k_alloc env l = (True, l')"
    and "\<exists>l'. k_cdev_add env m l = (0, l')"
    and "\<exists>l'. k_device_create env m l = (0, l')"
  using assms unfolding obliging_def by simp_all

section \<open>Queue 0 in the tables\<close>

text \<open>The entries of the two directions of queue 0 of card \<open>d\<close>.\<close>

definition slot :: "'l drv \<Rightarrow> nat \<Rightarrow> nat \<Rightarrow> xlnx_qdata" where
  "slot s d t = qdata (xpdev_list s ! d) ! (t * qmax (xpdev_list s ! d))"

definition card_at :: "u32 \<Rightarrow> nat \<Rightarrow> 'l drv \<Rightarrow> bool" where
  "card_at b d s \<longleftrightarrow> xpdev_find_by_idx b s = Some d \<and> d < length (xpdev_list s)
     \<and> 0 < qmax (xpdev_list s ! d) \<and> length (qdata (xpdev_list s ! d)) = 3 * qmax (xpdev_list s ! d)"

definition put_slot :: "nat \<Rightarrow> nat \<Rightarrow> xlnx_qdata \<Rightarrow> 'l drv \<Rightarrow> 'l drv" where
  "put_slot d t q s = set_qdata d (t * qmax (xpdev_list s ! d)) q s"

lemma slot_lib [simp]: "slot (s\<lparr>lib := l\<rparr>) = slot s" "slot (s\<lparr>cdevs := m\<rparr>) = slot s" "slot (s\<lparr>cdev_next := n\<rparr>) = slot s"
  by (simp_all add: slot_def fun_eq_iff)

lemma card_at_lib [simp]: "card_at b d (s\<lparr>lib := l\<rparr>) = card_at b d s" "card_at b d (s\<lparr>cdevs := m\<rparr>) = card_at b d s"
    "card_at b d (s\<lparr>cdev_next := n\<rparr>) = card_at b d s"
  by (simp_all add: card_at_def xpdev_find_by_idx_def)

lemma put_slot_parts [simp]:
  "cdevs (put_slot d t q s) = cdevs s" "cdev_next (put_slot d t q s) = cdev_next s" "lib (put_slot d t q s) = lib s"
  by (simp_all add: put_slot_def set_qdata_def)

lemma card_at_put [simp]: "card_at b d s \<Longrightarrow> card_at b d (put_slot d' t q s)"
proof -
  assume c: "card_at b d s"
  let ?s = "put_slot d' t q s"
  have same: "idx (xpdev_list ?s ! e) = idx (xpdev_list s ! e)" "qmax (xpdev_list ?s ! e) = qmax (xpdev_list s ! e)"
    "length (qdata (xpdev_list ?s ! e)) = length (qdata (xpdev_list s ! e))" if "e < length (xpdev_list s)" for e
    by (cases "d' = e"; use that in \<open>simp add: put_slot_def set_qdata_def\<close>)+
  have len: "length (xpdev_list ?s) = length (xpdev_list s)" by (simp add: put_slot_def set_qdata_def)
  have "xpdev_find_by_idx b ?s = xpdev_find_by_idx b s"
    unfolding xpdev_find_by_idx_def len by (intro find_cong) (auto simp: same)
  then show ?thesis using c same len by (simp add: card_at_def)
qed

lemma slot_put: "card_at b d s \<Longrightarrow> t < 2 \<Longrightarrow> u < 2 \<Longrightarrow> slot (put_slot d t q s) d u = (if u = t then q else slot s d u)"
proof -
  assume c: "card_at b d s" and t: "t < 2" "u < 2"
  have "t = 0 \<or> t = 1" "u = 0 \<or> u = 1" using t by auto
  then show ?thesis using c by (auto simp: card_at_def slot_def put_slot_def set_qdata_def)
qed

lemma queue_get_0:
  assumes "card_at b d s" "t < 2"
  shows "xpdev_queue_get (xpdev_list s ! d) 0 t chk
    = (if chk \<and> qhndl (slot s d t) = 0 \<and> xcdev (slot s d t) = None then None else Some (t * qmax (xpdev_list s ! d)))"
proof -
  have "t = 0 \<or> t = 1" using assms(2) by auto
  then show ?thesis using assms(1) by (auto simp: xpdev_queue_get_def slot_def card_at_def)
qed

lemma other_cdev_0: "card_at b d s \<Longrightarrow> t < 2 \<Longrightarrow> other_cdev (xpdev_list s ! d) 0 t = xcdev (slot s d (1 - t))"
proof -
  assume c: "card_at b d s" and "t < 2"
  then have "t = 0 \<or> t = 1" by auto
  then show ?thesis using queue_get_0 [OF c] by (auto simp: other_cdev_def slot_def)
qed

text \<open>The first direction of a queue makes the character device, the second joins it.\<close>

lemma add_first:
  assumes "obliging env hnd" "card_at b d s" "q_type conf < 2" "qidx conf = 0" "xcdev (slot s d (1 - q_type conf)) = None"
  shows "\<exists>l mnr. xpdev_queue_add env d conf s = Some (0, 0,
    put_slot d (q_type conf) \<lparr>qhndl = hnd (q_type conf) 0, xcdev = Some (cdev_next s)\<rparr>
      (s\<lparr>cdevs := (cdevs s)(cdev_next s \<mapsto>
         set_hndl (q_type conf) (hnd (q_type conf) 0) \<lparr>minor = mnr, c2h_qhndl = 0, h2c_qhndl = 0, dir_init = dir_bit (q_type conf)\<rparr>),
         cdev_next := cdev_next s + 1, lib := l\<rparr>))"
proof -
  note O = obligingD [OF assms(1)]
  let ?x = "xpdev_list s ! d" and ?t = "q_type conf"
  obtain l1 where l1: "l_queue_add env (dev_hndl ?x) conf (lib s) = ((0, 0, hnd ?t 0), l1)" using O(1) assms(4) by metis
  obtain c where c: "l_get_config env (dev_hndl ?x) l1 = (0, c)" "qsets_base c < cdev_minor_cnt env" using O(7) by blast
  obtain l2 where l2: "k_alloc env l1 = (True, l2)" using O(9) by blast
  obtain l3 where l3: "k_cdev_add env (qsets_base c) l2 = (0, l3)" using O(10) by blast
  obtain l4 where l4: "k_device_create env (qsets_base c) l3 = (0, l4)" using O(11) by blast
  have "xpdev_queue_get ?x 0 ?t False = Some (?t * qmax ?x)" using queue_get_0 [OF assms(2,3)] by simp
  moreover have "other_cdev ?x 0 ?t = None" using other_cdev_0 [OF assms(2,3)] assms(5) by simp
  ultimately show ?thesis
    using l1 c l2 l3 l4 assms(3)
    by (intro exI [of _ l4] exI [of _ "qsets_base c"]) (simp add: xpdev_queue_add_def qdma_cdev_create_def put_slot_def Let_def)
qed

lemma add_second:
  assumes "obliging env hnd" "card_at b d s" "q_type conf < 2" "qidx conf = 0"
    and "xcdev (slot s d (1 - q_type conf)) = Some c" "cdevs s c = Some cd"
  shows "\<exists>l. xpdev_queue_add env d conf s = Some (0, 0,
    (put_slot d (q_type conf) \<lparr>qhndl = hnd (q_type conf) 0, xcdev = Some c\<rparr> (s\<lparr>lib := l\<rparr>))\<lparr>cdevs := (cdevs s)(c \<mapsto>
       (set_hndl (q_type conf) (hnd (q_type conf) 0) cd)\<lparr>dir_init := dir_init cd OR dir_bit (q_type conf)\<rparr>)\<rparr>)"
proof -
  let ?x = "xpdev_list s ! d" and ?t = "q_type conf"
  obtain l1 where l1: "l_queue_add env (dev_hndl ?x) conf (lib s) = ((0, 0, hnd ?t 0), l1)"
    using obligingD(1) [OF assms(1)] assms(4) by metis
  have "xpdev_queue_get ?x 0 ?t False = Some (?t * qmax ?x)" using queue_get_0 [OF assms(2,3)] by simp
  moreover have "other_cdev ?x 0 ?t = Some c" using other_cdev_0 [OF assms(2,3)] assms(5) by simp
  ultimately show ?thesis
    using l1 assms(6) by (intro exI [of _ l1]) (simp add: xpdev_queue_add_def join_cdev_def put_slot_def Let_def)
qed

definition left :: "nat \<Rightarrow> qdma_cdev \<Rightarrow> qdma_cdev option" where
  "left t cd = (if dir_init cd AND NOT (dir_bit t) = 0 then None else Some (cd\<lparr>dir_init := dir_init cd AND NOT (dir_bit t)\<rparr>))"

lemma leave_cdev_left:
  "t < 2 \<Longrightarrow> cdevs s c = Some cd \<Longrightarrow> leave_cdev t c s = Some (s\<lparr>cdevs := (cdevs s)(c := left t cd)\<rparr>)"
  by (cases t) (auto simp: leave_cdev_def left_def qdma_cdev_destroy_def Let_def)

lemma delete_0:
  assumes "obliging env hnd" "card_at b d s" "t < 2" "xcdev (slot s d t) = Some c" "cdevs s c = Some cd"
  shows "\<exists>l. xpdev_queue_delete env d 0 t s = Some (0, put_slot d t no_qdata (s\<lparr>lib := l, cdevs := (cdevs s)(c := left t cd)\<rparr>))"
proof -
  let ?x = "xpdev_list s ! d"
  obtain l1 where l1: "qhndl (slot s d t) \<noteq> QDMA_QUEUE_IDX_INVALID \<longrightarrow> l_queue_remove env (dev_hndl ?x) (qhndl (slot s d t)) (lib s) = (0, l1)"
      "qhndl (slot s d t) = QDMA_QUEUE_IDX_INVALID \<longrightarrow> l1 = lib s"
    using obligingD(2) [OF assms(1)] by metis
  have get: "xpdev_queue_get ?x 0 t True = Some (t * qmax ?x)" using queue_get_0 [OF assms(2,3)] assms(4) by simp
  have entry: "qdata ?x ! (t * qmax ?x) = slot s d t" by (simp add: slot_def)
  have leave: "leave_cdev t c (s\<lparr>lib := l1\<rparr>) = Some (s\<lparr>lib := l1, cdevs := (cdevs s)(c := left t cd)\<rparr>)"
    using leave_cdev_left [OF assms(3), of "s\<lparr>lib := l1\<rparr>"] assms(5) by simp
  have "xpdev_queue_delete env d 0 t s = Some (0, put_slot d t no_qdata (s\<lparr>lib := l1, cdevs := (cdevs s)(c := left t cd)\<rparr>))"
    unfolding xpdev_queue_delete_def Let_def get option.case entry
    using l1 assms(3,4) leave
    by (cases "qhndl (slot s d t) = QDMA_QUEUE_IDX_INVALID") (simp_all add: put_slot_def split del: if_split)
  then show ?thesis by blast
qed

section \<open>The handlers on one queue\<close>

text \<open>A request for queue 0 in one direction, in the mode of the set-up.\<close>

definition queue_flags :: "u32 \<Rightarrow> nat \<Rightarrow> bool" where
  "queue_flags f t \<longleftrightarrow> \<not> has f XNL_F_QMODE_ST \<and> has f XNL_F_QMODE_MM \<and> f AND XNL_F_QDIR_BOTH \<noteq> XNL_F_QDIR_BOTH
     \<and> (has f XNL_F_QDIR_H2C \<longleftrightarrow> t = 0) \<and> (has f XNL_F_QDIR_C2H \<longleftrightarrow> t = 1)"

definition one_queue :: "attr_fun \<Rightarrow> u32 \<Rightarrow> nat \<Rightarrow> bool" where
  "one_queue at b t \<longleftrightarrow> at XNL_ATTR_DEV_IDX = Some b \<and> at XNL_ATTR_QIDX = Some 0 \<and> at XNL_ATTR_NUM_Q = Some 1
     \<and> at XNL_ATTR_RSP_BUF_LEN \<noteq> Some 0 \<and> (\<exists>f. at XNL_ATTR_QFLAG = Some f \<and> queue_flags f t)"

lemma conf0_simps [simp]: "qidx conf0 = 0" "st conf0 = False" "q_type conf0 = 0"
    "conf0\<lparr>qidx := 0\<rparr> = conf0" "conf0\<lparr>qidx := 0, st := False\<rparr> = conf0"
    "conf0\<lparr>qidx := 0, st := False, q_type := t\<rparr> = conf0\<lparr>q_type := t\<rparr>"
    "conf0\<lparr>q_type := t, qidx := 0\<rparr> = conf0\<lparr>q_type := t\<rparr>"
  by (simp_all add: conf0_def)

lemma one_queue_conf:
  assumes "one_queue at b t" "t < 2"
  shows "qconf_get env at = Inr (conf0\<lparr>q_type := t\<rparr>, False)"
proof -
  obtain f where at: "at XNL_ATTR_QFLAG = Some f" "at XNL_ATTR_QIDX = Some 0" and "queue_flags f t"
    using assms(1) unfolding one_queue_def by blast
  then have f: "\<not> has f XNL_F_QMODE_ST" "has f XNL_F_QMODE_MM" "f AND XNL_F_QDIR_BOTH \<noteq> XNL_F_QDIR_BOTH"
      "has f XNL_F_QDIR_H2C = (t = 0)" "has f XNL_F_QDIR_C2H = (t = 1)"
    by (simp_all only: queue_flags_def not_False_eq_True)
  have t: "t = 0 \<or> t = 1" using assms(2) by auto
  then have "has f XNL_F_QDIR_H2C \<or> has f XNL_F_QDIR_C2H" using f(4,5) by simp
  then have "default_flags f = f" using f(1,2) by (auto simp: default_flags_def Let_def)
  moreover have "(if has f XNL_F_QDIR_H2C then Q_H2C else if has f XNL_F_QDIR_C2H then Q_C2H else Q_CMPT) = t"
    using t f(4,5) by auto
  ultimately show ?thesis using f(1-3) at by (simp add: qconf_get_def Let_def)
qed

lemma queue_range_1 [simp]: "queue_range False t 0 (Suc 0) = [(0, t)]"
  by (simp add: queue_range_def dirs_def)

lemma check_xpdev_at: "one_queue at b t \<Longrightarrow> card_at b d s \<Longrightarrow> xnl_rcv_check_xpdev env at s = Inr d"
  by (simp add: one_queue_def card_at_def xnl_rcv_check_xpdev_def)

lemma one_queue_num: "one_queue at b t \<Longrightarrow> at XNL_ATTR_NUM_Q = Some 1 \<and> at XNL_ATTR_RSP_BUF_LEN \<noteq> Some 0"
  by (simp add: one_queue_def)

lemma q_add_one:
  assumes "obliging (dev_env env) hnd" "card_at b d s" "one_queue at b t" "t < 2"
    and "\<And>l. \<exists>s'. xpdev_queue_add (dev_env env) d (conf0\<lparr>q_type := t\<rparr>) (s\<lparr>lib := l\<rparr>) = Some (0, 0, s') \<and> P s'"
  shows "\<exists>s'. xnl_q_add env at s = Some (0, [xnl_respond_buffer env (Added 1) 0], s') \<and> P s'"
proof -
  obtain l1 where l1: "k_alloc (dev_env env) (lib s) = (True, l1)" using obligingD(9) [OF assms(1)] by blast
  obtain s' where s': "xpdev_queue_add (dev_env env) d (conf0\<lparr>q_type := t\<rparr>) (s\<lparr>lib := l1\<rparr>) = Some (0, 0, s')" "P s'"
    using assms(5) by blast
  then show ?thesis
    using l1 check_xpdev_at [OF assms(3,2), of env] one_queue_conf [OF assms(3,4), of env]
      one_queue_num [OF assms(3)] resp_len_pos [of at]
    by (simp add: xnl_q_add_def Let_def obligingD(8) [OF assms(1)])
qed

lemma q_del_one:
  assumes "obliging (dev_env env) hnd" "card_at b d s" "one_queue at b t" "t < 2"
    and "xpdev_queue_delete (dev_env env) d 0 t s = Some (0, s')"
  shows "xnl_q_del env at s = Some (0, [xnl_respond_buffer env Deleted 0], s')"
  using check_xpdev_at [OF assms(3,2), of env] one_queue_conf [OF assms(3,4), of env]
    one_queue_num [OF assms(3)] assms(5)
  by (simp add: xnl_q_del_def Let_def obligingD(8) [OF assms(1)])

lemma check_qidx_0:
  assumes "card_at b d s" "t < 2" "xcdev (slot s d t) \<noteq> None"
  shows "xnl_rcv_check_qidx env d 0 t s = Inr (qhndl (slot s d t))"
  using queue_get_0 [OF assms(1,2), of True] assms(3) by (simp add: xnl_rcv_check_qidx_def Let_def) (simp add: slot_def)

lemma q_stop_one:
  assumes "obliging (dev_env env) hnd" "card_at b d s" "one_queue at b t" "t < 2" "xcdev (slot s d t) \<noteq> None"
  shows "\<exists>l. xnl_q_stop env at s = Some (0, [xnl_respond_buffer env Stopped 0], s\<lparr>lib := l\<rparr>)"
proof -
  obtain l1 where "l_queue_stop (dev_env env) (dev_hndl (xpdev_list s ! d)) (qhndl (slot s d t)) (lib s) = (0, l1)"
    using obligingD(6) [OF assms(1)] by blast
  then show ?thesis
    using check_xpdev_at [OF assms(3,2), of env] one_queue_conf [OF assms(3,4), of env]
      one_queue_num [OF assms(3)] check_qidx_0 [OF assms(2,4,5), of env]
    by (simp add: xnl_q_stop_def Let_def obligingD(8) [OF assms(1)])
qed

lemma extra_config_keeps [simp]:
  "q_type (xnl_extract_extra_config_attr at f c) = q_type c" "qidx (xnl_extract_extra_config_attr at f c) = qidx c"
  "st (xnl_extract_extra_config_attr at f c) = st c"
  by (simp_all add: xnl_extract_extra_config_attr_def Let_def set_if_def split: option.split)

lemma q_start_one:
  assumes "obliging (dev_env env) hnd" "card_at b d s" "one_queue at b t" "t < 2" "xcdev (slot s d t) \<noteq> None"
  shows "\<exists>l. xnl_q_start env at s = Some (0, [xnl_respond_buffer env Started 0], s\<lparr>lib := l\<rparr>)"
proof -
  note O = obligingD [OF assms(1)]
  define c1 where "c1 = xnl_extract_extra_config_attr at (the (at XNL_ATTR_QFLAG)) (conf0\<lparr>q_type := t\<rparr>)"
  define conf where "conf = (if at XNL_ATTR_MM_CHANNEL = None then c1\<lparr>conf_mm_channel := 0\<rparr> else c1)"
  have conf: "q_type conf = t" "qidx conf = 0" "\<not> st conf" "q_type c1 = t" "qidx c1 = 0" "\<not> st c1"
    by (simp_all add: conf_def c1_def)
  have head: "xnl_q_start env at s = Some (start_queues env d False (at XNL_ATTR_C2H_BUFSZ_IDX \<noteq> None) conf 0 1 s)"
    using check_xpdev_at [OF assms(3,2), of env] one_queue_conf [OF assms(3,4), of env] one_queue_num [OF assms(3)] conf
    unfolding conf_def by (simp add: xnl_q_start_def Let_def c1_def [symmetric] O(8))
  obtain old where old: "l_queue_get_config (dev_env env) (dev_hndl (xpdev_list s ! d)) (qhndl (slot s d t)) (lib s) = (0, old)"
    using O(3) by blast
  have "\<exists>l. config_each env d bz conf [(0, t)] 0 s = Inr (s\<lparr>lib := l\<rparr>)" for bz
  proof -
    define c3 where "c3 = (if t \<noteq> Q_CMPT \<and> st old \<and> q_type old \<noteq> 0 \<and> \<not> bz
       then conf\<lparr>q_type := t, qidx := 0, c2h_buf_sz_idx := of_nat (xnl_q_buf_idx_get env (xpdev_list s ! d) s)\<rparr>
       else conf\<lparr>q_type := t, qidx := 0\<rparr>)"
    obtain l where l: "l_queue_config (dev_env env) (dev_hndl (xpdev_list s ! d)) (qhndl (slot s d t)) c3 (lib s) = (0, l)"
      using O(4) by blast
    have "config_each env d bz conf [(0, t)] 0 s = Inr (s\<lparr>lib := l\<rparr>)"
      using check_qidx_0 [OF assms(2,4,5), of env] old l unfolding c3_def by (simp add: Let_def)
    then show ?thesis by blast
  qed
  then obtain l where l: "config_each env d (at XNL_ATTR_C2H_BUFSZ_IDX \<noteq> None) conf [(0, t)] 0 s = Inr (s\<lparr>lib := l\<rparr>)" by blast
  obtain l2 where l2: "k_alloc (dev_env env) l = (True, l2)" using O(9) by blast
  obtain l3 where l3: "l_queue_start (dev_env env) (dev_hndl (xpdev_list s ! d)) (qhndl (slot s d t)) l2 = (0, l3)" using O(5) by blast
  have "xpdev_queue_get (xpdev_list s ! d) 0 t True = Some (t * qmax (xpdev_list s ! d))"
    using queue_get_0 [OF assms(2,4)] assms(5) by simp
  moreover have "qdata (xpdev_list s ! d) ! (t * qmax (xpdev_list s ! d)) = slot s d t" by (simp add: slot_def)
  ultimately show ?thesis
    using l l2 l3 conf unfolding head
    by (simp add: start_queues_def xpdev_nl_queue_start_def nl_work_handler_q_start_def dirs_def Let_def)
qed

end
