(* ===== verification/Queue_Props.thy ===== *)
theory Queue_Props
  imports Queue_Link
begin

text \<open>
  The commands of the set-up, served by the driver's handlers: what the library's calls do to the
  driver's tables.
\<close>

section \<open>One command\<close>

definition texts_ok :: "'l srv_env \<Rightarrow> bool" where
  "texts_ok env \<longleftrightarrow> (\<forall>r. 0 \<notin> set (say env r) \<and> length (say env r) \<le> 200)"

lemma command_ok:
  assumes "link_ok env view fam (netlink_serve senv ie fam err)" "fam (vf c) = Some f" "f \<noteq> 2"
    and "get_cmd_resp_buf_len (xop c) (req c) = 20480" "texts_ok senv" "fst (view k) (vf c) = Some s"
    and "xnl_doit senv ie (xop c) (map_of (rev (cmd_attrs c))) s = Some (rv, xnl_respond_buffer senv r 0 # later, s')"
  shows "\<exists>k' x. xnl_common_msg_send env c no_attrs k = Inr ((0, x), k') \<and> fst (view k') = (fst (view k))(vf c := Some s')"
proof -
  let ?rs = "xnl_respond_buffer senv r 0"
  have said: "0 \<notin> set (say senv r)" "length (say senv r) \<le> 200" using assms(5) by (auto simp: texts_ok_def)
  have "length (enc_all ?rs) \<le> 300"
  proof -
    have "length (enc (Txt (say senv r))) \<le> 208"
      using said(2) length_enc_Txt [of "say senv r"] by (auto intro: order_trans [OF div_times_less_eq_dividend])
    then show ?thesis by (simp add: xnl_respond_buffer_def del: enc.simps)
  qed
  then have "20 + length (enc_all ?rs) \<le> 20480" by simp
  moreover have "\<forall>a \<in> set ?rs. attr_ok a" using said by (simp add: xnl_respond_buffer_def)
  moreover have "netlink_serve senv ie fam err (vf c) (nl_seq env + 1) (xop c) (cmd_attrs c) (fst (view k))
      = (driver_reply (nl_seq env + 1) (xop c) f ?rs
          # (map (driver_reply (nl_seq env + 1) (xop c) f) later @ (if rv \<noteq> 0 then [err (nl_seq env + 1) rv] else [])), (fst (view k))(vf c := Some s'))"
    using assms(2,6,7) by (simp add: netlink_serve_def)
  moreover have "20480 = unat (get_cmd_resp_buf_len (xop c) (req c))" using assms(4) by simp
  ultimately obtain k' post where k': "xnl_common_msg_send env c no_attrs k = Inr (answered (driver_reply (nl_seq env + 1) (xop c) f ?rs @ post) ?rs c no_attrs, k')"
      "fst (view k') = (fst (view k))(vf c := Some s')"
    unfolding driver_reply_def
    using exchange [OF assms(1-3), where dlen = 20480 and k = k and rs = ?rs and attrs = no_attrs
        and seq = "nl_seq env + 1 + 1" and op = "reply_cmd (xop c) ?rs"] by (auto simp: xnl_respond_buffer_def)
  have "fst (answered (driver_reply (nl_seq env + 1) (xop c) f ?rs @ post) ?rs c no_attrs) = 0"
    by (simp add: answered_def xnl_respond_buffer_def no_attrs_def Let_def)
  then show ?thesis using k' by (metis prod.collapse)
qed

lemma room:
  assumes "xop c \<in> {XNL_CMD_Q_ADD, XNL_CMD_Q_START, XNL_CMD_Q_STOP, XNL_CMD_Q_DEL}"
    and "num_q (req c) = 1" "qp_flags (req c) AND XNL_F_QDIR_BOTH \<noteq> XNL_F_QDIR_BOTH"
  shows "get_cmd_resp_buf_len (xop c) (req c) = 20480"
  using assms by (auto simp: get_cmd_resp_buf_len_def scale_len_def XNL_RESP_BUFLEN_MAX_def MAX_KMALLOC_SIZE_def)

lemma attrs_one_queue:
  assumes "xop c \<in> {XNL_CMD_Q_ADD, XNL_CMD_Q_START, XNL_CMD_Q_STOP, XNL_CMD_Q_DEL}" "xop c = XNL_CMD_Q_START \<longrightarrow> sflags (req c) = 0"
    and "qp_idx (req c) = 0" "num_q (req c) = 1" "queue_flags (qp_flags (req c)) t" "if_bdf c = b"
  shows "one_queue (map_of (rev (cmd_attrs c))) b t"
proof -
  have "op_attrs (xop c) (req c) n = queue_attrs (req c) n" for n
    using assms(1,2) by (auto simp: op_attrs_def xnl_msg_add_extra_config_attrs_def opt_attr_def)
  moreover have "get_cmd_resp_buf_len (xop c) (req c) = 20480"
    using room [OF assms(1,4)] assms(5) unfolding queue_flags_def by blast
  ultimately show ?thesis using assms(3-6) by (simp add: cmd_attrs_def queue_attrs_def one_queue_def)
qed

definition dir_no :: "io_dir \<Rightarrow> nat" where
  "dir_no d = (case d of DMAXFER_IO_WRITE \<Rightarrow> 0 | DMAXFER_IO_READ \<Rightarrow> 1)"

lemma dir_no_less [simp]: "dir_no d < 2"
  by (cases d) (simp_all add: dir_no_def)

lemmas flag_defs = XNL_F_QMODE_ST_def XNL_F_QMODE_MM_def XNL_F_QDIR_H2C_def XNL_F_QDIR_C2H_def XNL_F_QDIR_BOTH_def
  XNL_F_FETCH_CREDIT_def mode_flag_def dir_flag_def dir_no_def has_def settings_def

lemma settings_flags:
  "queue_flags (0 OR mode_flag (set_mode settings) OR dir_flag d OR 0) (dir_no d)"
  "queue_flags ((0 OR mode_flag (set_mode settings) OR dir_flag d OR start_flags) AND NOT XNL_F_FETCH_CREDIT) (dir_no d)"
  by (cases d; simp add: queue_flags_def flag_defs start_flags_def)+

section \<open>The commands of the set-up\<close>

lemma first_reply_ok:
  assumes "link_ok env view fam (netlink_serve senv ie fam err)" "fam False = Some f" "f \<noteq> 2" "texts_ok senv"
    and "fst (view k) False = Some s" "vf c = False"
    and "xop c \<in> {XNL_CMD_Q_ADD, XNL_CMD_Q_START, XNL_CMD_Q_STOP, XNL_CMD_Q_DEL}" "xop c = XNL_CMD_Q_START \<longrightarrow> sflags (req c) = 0"
    and "qp_idx (req c) = 0" "num_q (req c) = 1" "queue_flags (qp_flags (req c)) t" "if_bdf c = b"
    and "\<And>at. one_queue at b t \<Longrightarrow> \<exists>rv later. xnl_doit senv ie (xop c) at s = Some (rv, xnl_respond_buffer senv r 0 # later, s')"
  shows "\<exists>k' x. xnl_common_msg_send env c no_attrs k = Inr ((0, x), k') \<and> fst (view k') = (fst (view k))(False := Some s')"
proof -
  obtain rv later where s': "xnl_doit senv ie (xop c) (map_of (rev (cmd_attrs c))) s = Some (rv, xnl_respond_buffer senv r 0 # later, s')"
    using assms(13) [OF attrs_one_queue [OF assms(7-12)]] by blast
  have "get_cmd_resp_buf_len (xop c) (req c) = 20480"
    using room [OF assms(7,10)] assms(11) unfolding queue_flags_def by blast
  then show ?thesis
    using command_ok [OF assms(1) _ assms(3) _ assms(4) _ s'] assms(2,5,6) by simp
qed

lemma command_one:
  assumes "link_ok env view fam (netlink_serve senv ie fam err)" "fam False = Some f" "f \<noteq> 2" "texts_ok senv"
    and "fst (view k) False = Some s" "vf c = False"
    and "xop c \<in> {XNL_CMD_Q_ADD, XNL_CMD_Q_START, XNL_CMD_Q_STOP, XNL_CMD_Q_DEL}" "xop c = XNL_CMD_Q_START \<longrightarrow> sflags (req c) = 0"
    and "qp_idx (req c) = 0" "num_q (req c) = 1" "queue_flags (qp_flags (req c)) t" "if_bdf c = b"
    and "\<And>at. one_queue at b t \<Longrightarrow> \<exists>s'. xnl_doit senv ie (xop c) at s = Some (0, [xnl_respond_buffer senv r 0], s') \<and> P s'"
  shows "\<exists>k' x s'. xnl_common_msg_send env c no_attrs k = Inr ((0, x), k') \<and> fst (view k') = (fst (view k))(False := Some s') \<and> P s'"
proof -
  obtain s' where s': "xnl_doit senv ie (xop c) (map_of (rev (cmd_attrs c))) s = Some (0, [xnl_respond_buffer senv r 0], s')" "P s'"
    using assms(13) [OF attrs_one_queue [OF assms(7-12)]] by blast
  have "get_cmd_resp_buf_len (xop c) (req c) = 20480"
    using room [OF assms(7,10)] assms(11) unfolding queue_flags_def by blast
  then show ?thesis
    using command_ok [OF assms(1) _ assms(3) _ assms(4) _ s'(1)] assms(2,5,6) s'(2) by metis
qed

lemma start_command:
  "qdma_q_start env (qdma_prepare_q_start settings bus io 0 0 no_cmd) k
    = xnl_common_msg_send env (set_flags (credit_flag False) (qdma_prepare_q_start settings bus io 0 0 no_cmd)) no_attrs k"
  by (cases io) (simp_all add: qdma_q_start_def qdma_prepare_q_start_def prepare_q_def no_cmd_def Let_def flag_defs start_flags_def
      h2c_credit_def c2h_credit_def)

lemma q_start_missing:
  assumes "obliging (dev_env env) hnd" "card_at b d s" "one_queue at b t" "t < 2" "slot s d t = no_qdata"
  shows "\<exists>rv later. xnl_q_start env at s = Some (rv, xnl_respond_buffer env Bad_Index 0 # later, s)"
proof -
  define c1 where "c1 = xnl_extract_extra_config_attr at (the (at XNL_ATTR_QFLAG)) (conf0\<lparr>q_type := t\<rparr>)"
  define conf where "conf = (if at XNL_ATTR_MM_CHANNEL = None then c1\<lparr>conf_mm_channel := 0\<rparr> else c1)"
  have conf: "q_type conf = t" "qidx conf = 0" "\<not> st conf" "q_type c1 = t" "qidx c1 = 0" "\<not> st c1"
    by (simp_all add: conf_def c1_def)
  have head: "xnl_q_start env at s = Some (start_queues env d False (at XNL_ATTR_C2H_BUFSZ_IDX \<noteq> None) conf 0 1 s)"
    using check_xpdev_at [OF assms(3,2), of env] one_queue_conf [OF assms(3,4), of env] one_queue_num [OF assms(3)] conf
    unfolding conf_def by (simp add: xnl_q_start_def Let_def c1_def [symmetric] obligingD(8) [OF assms(1)])
  have "xnl_rcv_check_qidx env d 0 t s = Inl (xnl_respond_buffer env Bad_Index 0)"
    using queue_get_0 [OF assms(2,4), of True] assms(5) by (simp add: xnl_rcv_check_qidx_def no_qdata_def)
  then show ?thesis unfolding head using conf by (simp add: start_queues_def Let_def)
qed

lemma put_slot_lib [simp]: "(put_slot d t q s)\<lparr>lib := l\<rparr> = put_slot d t q (s\<lparr>lib := l\<rparr>)"
  by (simp add: put_slot_def set_qdata_def)

lemma put_slot_cdevs [simp]: "(put_slot d t q s)\<lparr>cdevs := m\<rparr> = put_slot d t q (s\<lparr>cdevs := m\<rparr>)"
  by (simp add: put_slot_def set_qdata_def)

lemma drv_order [simp]: "s\<lparr>cdev_next := n, lib := l, cdevs := m\<rparr> = s\<lparr>cdevs := m, cdev_next := n, lib := l\<rparr>"
  by (rule drv.equality) simp_all

text \<open>A queue is added and started; \<open>P\<close> is what adding it makes of the tables.\<close>

lemma create_ok:
  assumes "link_ok env view fam (netlink_serve senv ie fam err)" "fam False = Some f" "f \<noteq> 2" "texts_ok senv"
    and "obliging (dev_env senv) hnd" "fst (view k) False = Some s" "card_at (bdf settings bus 0) d s"
    and "\<And>l. \<exists>s'. xpdev_queue_add (dev_env senv) d (conf0\<lparr>q_type := dir_no io\<rparr>) (s\<lparr>lib := l\<rparr>) = Some (0, 0, s') \<and> P s'"
    and "\<And>s'. P s' \<Longrightarrow> card_at (bdf settings bus 0) d s' \<and> xcdev (slot s' d (dir_no io)) \<noteq> None"
    and "\<And>s' l. P s' \<Longrightarrow> P (s'\<lparr>lib := l\<rparr>)"
  shows "\<exists>k' s'. qdma_create_queue env settings bus io 0 0 k = Inr (0, k') \<and> fst (view k') = (fst (view k))(False := Some s') \<and> P s'"
proof -
  let ?b = "bdf settings bus 0" and ?t = "dir_no io"
  let ?add = "qdma_prepare_q_add settings bus io 0 0 no_cmd" and ?start = "qdma_prepare_q_start settings bus io 0 0 no_cmd"
  note prep = qdma_prepare_q_add_def qdma_prepare_q_start_def prepare_q_def no_cmd_def Let_def
  have vf: "is_vf settings = False" by (simp add: settings_def)
  have "\<exists>k' x s'. xnl_common_msg_send env ?add no_attrs k = Inr ((0, x), k') \<and> fst (view k') = (fst (view k))(False := Some s') \<and> P s'"
  proof (rule command_one [OF assms(1-4,6), of ?add ?t ?b])
    show "\<exists>s'. xnl_doit senv ie (xop ?add) at s = Some (0, [xnl_respond_buffer senv (Added 1) 0], s') \<and> P s'" if "one_queue at ?b ?t" for at
      using q_add_one [OF assms(5,7) that dir_no_less assms(8)] by (simp add: prep xnl_doit_def)
  qed (use settings_flags(1) [of io] in \<open>simp_all add: prep vf\<close>)
  then obtain k1 x1 s1 where k1: "qdma_q_add env ?add k = Inr ((0, x1), k1)" "fst (view k1) = (fst (view k))(False := Some s1)" "P s1"
    by (auto simp: qdma_q_add_def simple_cmd_def)
  let ?c = "set_flags (credit_flag False) ?start"
  have s1: "fst (view k1) False = Some s1" using k1(2) by simp
  have "\<exists>k' x s'. xnl_common_msg_send env ?c no_attrs k1 = Inr ((0, x), k') \<and> fst (view k') = (fst (view k1))(False := Some s') \<and> P s'"
  proof (rule command_one [OF assms(1-4) s1, of ?c ?t ?b])
    show "\<exists>s'. xnl_doit senv ie (xop ?c) at s1 = Some (0, [xnl_respond_buffer senv Started 0], s') \<and> P s'" if at: "one_queue at ?b ?t" for at
    proof -
      obtain l where "xnl_q_start senv at s1 = Some (0, [xnl_respond_buffer senv Started 0], s1\<lparr>lib := l\<rparr>)"
        using q_start_one [OF assms(5) _ at dir_no_less] assms(9) [OF k1(3)] by blast
      then show ?thesis using assms(10) [OF k1(3)] by (simp add: prep xnl_doit_def set_flags_def)
    qed
  qed (use settings_flags(2) [of io] in \<open>simp_all add: prep vf set_flags_def credit_flag_def\<close>)
  moreover have "qdma_q_start env ?start k1 = xnl_common_msg_send env ?c no_attrs k1" by (rule start_command)
  ultimately obtain k2 x2 s2 where "qdma_q_start env ?start k1 = Inr ((0, x2), k2)" "fst (view k2) = (fst (view k1))(False := Some s2)" "P s2"
    by auto
  then show ?thesis using k1(1,2) by (cases x2) (auto simp: qdma_create_queue_def)
qed

text \<open>A queue is stopped and deleted.\<close>

lemma destroy_ok:
  assumes "link_ok env view fam (netlink_serve senv ie fam err)" "fam False = Some f" "f \<noteq> 2" "texts_ok senv"
    and "obliging (dev_env senv) hnd" "fst (view k) False = Some s" "card_at (bdf settings bus 0) d s"
    and "xcdev (slot s d (dir_no io)) = Some c" "cdevs s c = Some cd"
  shows "\<exists>k' l. qdma_destroy_queue env settings bus io 0 0 k = Inr (0, k') \<and> fst (view k') = (fst (view k))(False := Some
    (put_slot d (dir_no io) no_qdata (s\<lparr>lib := l, cdevs := (cdevs s)(c := left (dir_no io) cd)\<rparr>)))"
proof -
  let ?b = "bdf settings bus 0" and ?t = "dir_no io"
  let ?stop = "qdma_prepare_q_stop settings bus io 0 0 no_cmd" and ?del = "qdma_prepare_q_del settings bus io 0 0 no_cmd"
  note prep = qdma_prepare_q_stop_def qdma_prepare_q_del_def prepare_q_def no_cmd_def Let_def
  have vf: "is_vf settings = False" by (simp add: settings_def)
  have "\<exists>k' x s'. xnl_common_msg_send env ?stop no_attrs k = Inr ((0, x), k') \<and> fst (view k') = (fst (view k))(False := Some s')
      \<and> (\<exists>l. s' = s\<lparr>lib := l\<rparr>)"
  proof (rule command_one [OF assms(1-4,6), of ?stop ?t ?b])
    show "\<exists>s'. xnl_doit senv ie (xop ?stop) at s = Some (0, [xnl_respond_buffer senv Stopped 0], s') \<and> (\<exists>l. s' = s\<lparr>lib := l\<rparr>)"
      if "one_queue at ?b ?t" for at
      using q_stop_one [OF assms(5,7) that dir_no_less] assms(8) by (auto simp: prep xnl_doit_def)
  qed (use settings_flags(1) [of io] in \<open>simp_all add: prep vf\<close>)
  then obtain k1 x1 l1 where k1: "qdma_q_stop env ?stop k = Inr ((0, x1), k1)" "fst (view k1) = (fst (view k))(False := Some (s\<lparr>lib := l1\<rparr>))"
    by (auto simp: qdma_q_stop_def simple_cmd_def)
  let ?s1 = "s\<lparr>lib := l1\<rparr>"
  have s1: "fst (view k1) False = Some ?s1" using k1(2) by simp
  obtain l2 where l2: "xpdev_queue_delete (dev_env senv) d 0 ?t ?s1
      = Some (0, put_slot d ?t no_qdata (s\<lparr>lib := l2, cdevs := (cdevs s)(c := left ?t cd)\<rparr>))"
    using delete_0 [OF assms(5), of ?b d ?s1 ?t c cd] assms(7-9) by auto
  have "\<exists>k' x s'. xnl_common_msg_send env ?del no_attrs k1 = Inr ((0, x), k') \<and> fst (view k') = (fst (view k1))(False := Some s')
      \<and> s' = put_slot d ?t no_qdata (s\<lparr>lib := l2, cdevs := (cdevs s)(c := left ?t cd)\<rparr>)"
  proof (rule command_one [OF assms(1-4) s1, of ?del ?t ?b])
    show "\<exists>s'. xnl_doit senv ie (xop ?del) at ?s1 = Some (0, [xnl_respond_buffer senv Deleted 0], s')
        \<and> s' = put_slot d ?t no_qdata (s\<lparr>lib := l2, cdevs := (cdevs s)(c := left ?t cd)\<rparr>)" if "one_queue at ?b ?t" for at
      using q_del_one [OF assms(5) _ that dir_no_less l2] assms(7) by (auto simp: prep xnl_doit_def)
  qed (use settings_flags(1) [of io] in \<open>simp_all add: prep vf\<close>)
  then obtain k2 x2 where "qdma_q_del env ?del k1 = Inr ((0, x2), k2)"
      "fst (view k2) = (fst (view k1))(False := Some (put_slot d ?t no_qdata (s\<lparr>lib := l2, cdevs := (cdevs s)(c := left ?t cd)\<rparr>)))"
    by (auto simp: qdma_q_del_def simple_cmd_def)
  then show ?thesis using k1 by (auto simp: qdma_destroy_queue_def)
qed

section \<open>Set-up and removal\<close>

text \<open>The tables with both directions of queue 0 on one new device.\<close>

definition one_sided :: "nat \<Rightarrow> nat \<Rightarrow> nat \<Rightarrow> 'l \<Rightarrow> 'l drv \<Rightarrow> 'l drv" where
  "one_sided d h m l s = put_slot d 0 \<lparr>qhndl = h, xcdev = Some (cdev_next s)\<rparr>
     (s\<lparr>cdevs := (cdevs s)(cdev_next s \<mapsto> \<lparr>minor = m, c2h_qhndl = 0, h2c_qhndl = h, dir_init = 1\<rparr>),
        cdev_next := cdev_next s + 1, lib := l\<rparr>)"

definition two_sided :: "nat \<Rightarrow> nat \<Rightarrow> nat \<Rightarrow> nat \<Rightarrow> 'l \<Rightarrow> 'l drv \<Rightarrow> 'l drv" where
  "two_sided d h2c c2h m l s = put_slot d 1 \<lparr>qhndl = c2h, xcdev = Some (cdev_next s)\<rparr>
     (put_slot d 0 \<lparr>qhndl = h2c, xcdev = Some (cdev_next s)\<rparr>
       (s\<lparr>cdevs := (cdevs s)(cdev_next s \<mapsto> \<lparr>minor = m, c2h_qhndl = c2h, h2c_qhndl = h2c, dir_init = 3\<rparr>),
          cdev_next := cdev_next s + 1, lib := l\<rparr>))"

lemma sided_lib: "(one_sided d h m l s)\<lparr>lib := l'\<rparr> = one_sided d h m l' s"
    "(two_sided d h2c c2h m l s)\<lparr>lib := l'\<rparr> = two_sided d h2c c2h m l' s"
  by (simp_all add: one_sided_def two_sided_def)

lemma dir_bit_01 [simp]: "dir_bit 0 = 1" "dir_bit (Suc 0) = 2"
  by (simp_all add: dir_bit_def)

lemma one_sided_parts:
  assumes "card_at b d s"
  shows "card_at b d (one_sided d h m l s)" "xcdev (slot (one_sided d h m l s) d 0) = Some (cdev_next s)"
    "cdevs (one_sided d h m l s) (cdev_next s) = Some \<lparr>minor = m, c2h_qhndl = 0, h2c_qhndl = h, dir_init = 1\<rparr>"
  using assms by (simp_all add: one_sided_def slot_put [of b])

lemma two_sided_parts:
  assumes "card_at b d s"
  shows "card_at b d (two_sided d h2c c2h m l s)" "xcdev (slot (two_sided d h2c c2h m l s) d 0) = Some (cdev_next s)"
    "xcdev (slot (two_sided d h2c c2h m l s) d 1) = Some (cdev_next s)"
    "cdevs (two_sided d h2c c2h m l s) (cdev_next s) = Some \<lparr>minor = m, c2h_qhndl = c2h, h2c_qhndl = h2c, dir_init = 3\<rparr>"
  using assms by (simp_all add: two_sided_def slot_put [of b])

lemma add_one:
  assumes "obliging env hnd" "card_at b d s" "xcdev (slot s d 1) = None"
  shows "\<exists>m l. xpdev_queue_add env d (conf0\<lparr>q_type := 0\<rparr>) s = Some (0, 0, one_sided d (hnd 0 0) m l s)"
  using add_first [OF assms(1,2), of "conf0\<lparr>q_type := 0\<rparr>"] assms(3) by (auto simp: one_sided_def set_hndl_def)

lemma add_two:
  assumes "obliging env hnd" "card_at b d s"
  shows "\<exists>l'. xpdev_queue_add env d (conf0\<lparr>q_type := 1\<rparr>) (one_sided d h m l s) = Some (0, 0, two_sided d h (hnd 1 0) m l' s)"
  using add_second [OF assms(1) one_sided_parts(1) [OF assms(2)], of "conf0\<lparr>q_type := 1\<rparr>" h m l, OF _ _ _ one_sided_parts(3) [OF assms(2)]]
    one_sided_parts(2) [OF assms(2), of h m l]
  by (auto simp: one_sided_def two_sided_def set_hndl_def)

lemma add_pair:
  assumes "obliging env hnd" "card_at b d s" "xcdev (slot s d 1) = None"
  shows "\<exists>m l1 l2. xpdev_queue_add env d (conf0\<lparr>q_type := 0\<rparr>) s = Some (0, 0, one_sided d (hnd 0 0) m l1 s)
    \<and> xpdev_queue_add env d (conf0\<lparr>q_type := 1\<rparr>) (one_sided d (hnd 0 0) m l1 s) = Some (0, 0, two_sided d (hnd 0 0) (hnd 1 0) m l2 s)
    \<and> card_at b d (one_sided d (hnd 0 0) m l1 s)"
  using add_one [OF assms] add_two [OF assms(1,2)] one_sided_parts(1) [OF assms(2)] by metis

lemma setup_ok:
  assumes "link_ok env view fam (netlink_serve senv ie fam err)" "fam False = Some f" "f \<noteq> 2" "texts_ok senv"
    and "obliging (dev_env senv) hnd" "fst (view k) False = Some s" "card_at (bdf settings bus 0) d s"
    and "xcdev (slot s d 0) = None" "xcdev (slot s d 1) = None"
  shows "\<exists>k' n1 n2 m l. qdma_setup_queues env settings bus k = Inr (2, Some
      [\<lparr>q_name = n1, q_qid = 0, q_pf = 0, q_io = DMAXFER_IO_WRITE\<rparr>, \<lparr>q_name = n2, q_qid = 0, q_pf = 0, q_io = DMAXFER_IO_READ\<rparr>], k')
    \<and> fst (view k') False = Some (two_sided d (hnd 0 0) (hnd 1 0) m l s)"
proof -
  let ?b = "bdf settings bus 0" and ?e = "dev_env senv"
  let ?P1 = "\<lambda>s'. \<exists>m l. s' = one_sided d (hnd 0 0) m l s"
  have "\<exists>k' s'. qdma_create_queue env settings bus DMAXFER_IO_WRITE 0 0 k = Inr (0, k') \<and> fst (view k') = (fst (view k))(False := Some s') \<and> ?P1 s'"
  proof (rule create_ok [OF assms(1-7)])
    fix l
    obtain m l' where "xpdev_queue_add ?e d (conf0\<lparr>q_type := 0\<rparr>) (s\<lparr>lib := l\<rparr>) = Some (0, 0, one_sided d (hnd 0 0) m l' (s\<lparr>lib := l\<rparr>))"
      using add_one [OF assms(5), of ?b d "s\<lparr>lib := l\<rparr>"] assms(7,9) by auto
    then show "\<exists>s'. xpdev_queue_add ?e d (conf0\<lparr>q_type := dir_no DMAXFER_IO_WRITE\<rparr>) (s\<lparr>lib := l\<rparr>) = Some (0, 0, s') \<and> ?P1 s'"
      by (auto simp: dir_no_def one_sided_def)
  next
    fix s' assume "?P1 s'"
    then show "card_at ?b d s' \<and> xcdev (slot s' d (dir_no DMAXFER_IO_WRITE)) \<noteq> None"
      using one_sided_parts [OF assms(7)] by (auto simp: dir_no_def)
  next
    fix s' l assume "?P1 s'"
    then show "?P1 (s'\<lparr>lib := l\<rparr>)" by (elim exE) (simp only: sided_lib, blast)
  qed
  then obtain k1 m l1 where k1: "qdma_create_queue env settings bus DMAXFER_IO_WRITE 0 0 k = Inr (0, k1)"
      "fst (view k1) False = Some (one_sided d (hnd 0 0) m l1 s)" by auto
  let ?s1 = "one_sided d (hnd 0 0) m l1 s" and ?P2 = "\<lambda>s'. \<exists>l. s' = two_sided d (hnd 0 0) (hnd 1 0) m l s"
  note s1 = one_sided_parts [OF assms(7)]
  have "\<exists>k' s'. qdma_create_queue env settings bus DMAXFER_IO_READ 0 0 k1 = Inr (0, k') \<and> fst (view k') = (fst (view k1))(False := Some s') \<and> ?P2 s'"
  proof (rule create_ok [OF assms(1-5) k1(2) s1(1)])
    fix l
    obtain l' where l': "xpdev_queue_add ?e d (conf0\<lparr>q_type := 1\<rparr>) (one_sided d (hnd 0 0) m l s)
        = Some (0, 0, two_sided d (hnd 0 0) (hnd 1 0) m l' s)"
      using add_two [OF assms(5,7)] by blast
    show "\<exists>s'. xpdev_queue_add ?e d (conf0\<lparr>q_type := dir_no DMAXFER_IO_READ\<rparr>) (?s1\<lparr>lib := l\<rparr>) = Some (0, 0, s') \<and> ?P2 s'"
      unfolding sided_lib using l' by (auto simp: dir_no_def)
  next
    fix s' assume "?P2 s'"
    then show "card_at ?b d s' \<and> xcdev (slot s' d (dir_no DMAXFER_IO_READ)) \<noteq> None"
      using two_sided_parts [OF assms(7)] by (auto simp: dir_no_def)
  next
    fix s' l assume "?P2 s'"
    then show "?P2 (s'\<lparr>lib := l\<rparr>)" by (elim exE) (simp only: sided_lib, blast)
  qed
  then obtain k2 l2 where k2: "qdma_create_queue env settings bus DMAXFER_IO_READ 0 0 k1 = Inr (0, k2)"
      "fst (view k2) False = Some (two_sided d (hnd 0 0) (hnd 1 0) m l2 s)" by auto
  have plan: "queue_plan settings = [(0, DMAXFER_IO_WRITE), (0, DMAXFER_IO_READ)]"
    by (simp add: queue_plan_def settings_def io_dirs_def)
  have pf: "fun_id settings = 0" by (simp add: settings_def)
  show ?thesis
    using link_okD(1) [OF assms(1)] k1(1) k2 plan pf
    by (simp add: qdma_setup_queues_def qdma_prepare_queue_def no_queue_def Let_def) blast
qed

lemma left_two: "left 0 \<lparr>minor = m, c2h_qhndl = c2h, h2c_qhndl = h2c, dir_init = 3\<rparr>
      = Some \<lparr>minor = m, c2h_qhndl = c2h, h2c_qhndl = h2c, dir_init = 2\<rparr>"
    "left (Suc 0) \<lparr>minor = m, c2h_qhndl = c2h, h2c_qhndl = h2c, dir_init = 2\<rparr> = None"
  by (simp_all add: left_def)

text \<open>Removing the two queues takes the device away and leaves their entries empty.\<close>

lemma cleanup_ok:
  assumes "link_ok env view fam (netlink_serve senv ie fam err)" "fam False = Some f" "f \<noteq> 2" "texts_ok senv"
    and "obliging (dev_env senv) hnd" "card_at (bdf settings bus 0) d s"
    and "fst (view k) False = Some (two_sided d h2c c2h m l s)"
  shows "\<exists>k' l'. qdma_queues_cleanup env settings bus (Some
      [\<lparr>q_name = n1, q_qid = 0, q_pf = 0, q_io = DMAXFER_IO_WRITE\<rparr>, \<lparr>q_name = n2, q_qid = 0, q_pf = 0, q_io = DMAXFER_IO_READ\<rparr>]) 2 k = Inr k'
    \<and> fst (view k') False = Some (put_slot d 1 no_qdata (put_slot d 0 no_qdata
        (put_slot d 1 \<lparr>qhndl = c2h, xcdev = Some (cdev_next s)\<rparr> (put_slot d 0 \<lparr>qhndl = h2c, xcdev = Some (cdev_next s)\<rparr>
          (s\<lparr>cdevs := (cdevs s)(cdev_next s := None), cdev_next := cdev_next s + 1, lib := l'\<rparr>)))))"
proof -
  let ?b = "bdf settings bus 0" and ?s = "two_sided d h2c c2h m l s"
  note s = two_sided_parts [OF assms(6), of h2c c2h m l]
  obtain k1 l1 where k1: "qdma_destroy_queue env settings bus DMAXFER_IO_WRITE 0 0 k = Inr (0, k1)"
      "fst (view k1) False = Some (put_slot d 0 no_qdata (?s\<lparr>lib := l1, cdevs := (cdevs ?s)(cdev_next s \<mapsto>
         \<lparr>minor = m, c2h_qhndl = c2h, h2c_qhndl = h2c, dir_init = 2\<rparr>)\<rparr>))"
    using destroy_ok [OF assms(1-5,7) s(1) _ s(4), of DMAXFER_IO_WRITE] s(2) by (auto simp: dir_no_def left_two)
  let ?s1 = "put_slot d 0 no_qdata (?s\<lparr>lib := l1, cdevs := (cdevs ?s)(cdev_next s \<mapsto>
         \<lparr>minor = m, c2h_qhndl = c2h, h2c_qhndl = h2c, dir_init = 2\<rparr>)\<rparr>)"
  have s1: "card_at ?b d ?s1" "xcdev (slot ?s1 d 1) = Some (cdev_next s)"
      "cdevs ?s1 (cdev_next s) = Some \<lparr>minor = m, c2h_qhndl = c2h, h2c_qhndl = h2c, dir_init = 2\<rparr>"
    using s by (simp_all add: slot_put [of ?b])
  obtain k2 l2 where k2: "qdma_destroy_queue env settings bus DMAXFER_IO_READ 0 0 k1 = Inr (0, k2)"
      "fst (view k2) False = Some (put_slot d 1 no_qdata (?s1\<lparr>lib := l2, cdevs := (cdevs ?s1)(cdev_next s := None)\<rparr>))"
    using destroy_ok [OF assms(1-5) k1(2) s1(1) _ s1(3), of DMAXFER_IO_READ] s1(2) by (auto simp: dir_no_def left_two)
  have "put_slot d 1 no_qdata (?s1\<lparr>lib := l2, cdevs := (cdevs ?s1)(cdev_next s := None)\<rparr>)
    = put_slot d 1 no_qdata (put_slot d 0 no_qdata
        (put_slot d 1 \<lparr>qhndl = c2h, xcdev = Some (cdev_next s)\<rparr> (put_slot d 0 \<lparr>qhndl = h2c, xcdev = Some (cdev_next s)\<rparr>
          (s\<lparr>cdevs := (cdevs s)(cdev_next s := None), cdev_next := cdev_next s + 1, lib := l2\<rparr>))))"
    by (simp add: two_sided_def)
  then show ?thesis using k1(1) k2 by (simp add: qdma_queues_cleanup_def) blast
qed

lemma empty_slots_restored:
  assumes "card_at b d s" "slot s d 0 = no_qdata" "slot s d 1 = no_qdata"
  shows "xpdev_list (put_slot d 1 no_qdata (put_slot d 0 no_qdata (put_slot d 1 q1 (put_slot d 0 q0 s)))) = xpdev_list s"
proof (rule nth_equalityI)
  let ?s = "put_slot d 1 no_qdata (put_slot d 0 no_qdata (put_slot d 1 q1 (put_slot d 0 q0 s)))"
  show len: "length (xpdev_list ?s) = length (xpdev_list s)" by (simp add: put_slot_def set_qdata_def)
  fix e assume e: "e < length (xpdev_list ?s)"
  let ?x = "xpdev_list s ! d" and ?q = "qmax (xpdev_list s ! d)"
  have q: "qdata ?x ! 0 = no_qdata" "qdata ?x ! ?q = no_qdata" "0 < ?q" "d < length (xpdev_list s)"
    using assms by (simp_all add: slot_def card_at_def)
  have "(qdata ?x)[0 := q0, ?q := q1, 0 := no_qdata, ?q := no_qdata] = qdata ?x"
  proof -
    have "(qdata ?x)[0 := q0, ?q := q1, 0 := no_qdata, ?q := no_qdata] = (qdata ?x)[0 := no_qdata, ?q := no_qdata]"
      using q(3) by (simp add: list_update_swap)
    then show ?thesis using q(1,2) by (metis list_update_id)
  qed
  then show "xpdev_list ?s ! e = xpdev_list s ! e"
    using e len q(4) by (cases "e = d") (simp_all add: put_slot_def set_qdata_def)
qed

section \<open>The type for both directions\<close>

text \<open>Deleting with type 3 takes the entry of the first direction and the bit of the second.\<close>

lemma delete_both:
  assumes "obliging env hnd" "card_at b d s" "xcdev (slot s d 0) = Some c" "cdevs s c = Some cd" "dir_init cd = 3"
  shows "\<exists>l. xpdev_queue_delete env d 0 3 s = Some (0, put_slot d 0 no_qdata
    (s\<lparr>lib := l, cdevs := (cdevs s)(c \<mapsto> cd\<lparr>dir_init := 1\<rparr>)\<rparr>))"
proof -
  let ?x = "xpdev_list s ! d"
  obtain l1 where l1: "qhndl (slot s d 0) \<noteq> QDMA_QUEUE_IDX_INVALID \<longrightarrow> l_queue_remove env (dev_hndl ?x) (qhndl (slot s d 0)) (lib s) = (0, l1)"
      "qhndl (slot s d 0) = QDMA_QUEUE_IDX_INVALID \<longrightarrow> l1 = lib s"
    using obligingD(2) [OF assms(1)] by metis
  have entry: "qdata ?x ! 0 = slot s d 0" by (simp add: slot_def)
  have get: "xpdev_queue_get ?x 0 3 True = Some 0"
    using assms(2,3) by (simp add: xpdev_queue_get_def Let_def entry card_at_def)
  have leave: "leave_cdev 3 c (s\<lparr>lib := l1\<rparr>) = Some (s\<lparr>lib := l1, cdevs := (cdevs s)(c \<mapsto> cd\<lparr>dir_init := 1\<rparr>)\<rparr>)"
    using assms(4,5) by (simp add: leave_cdev_def Let_def)
  have "xpdev_queue_delete env d 0 3 s = Some (0, put_slot d 0 no_qdata (s\<lparr>lib := l1, cdevs := (cdevs s)(c \<mapsto> cd\<lparr>dir_init := 1\<rparr>)\<rparr>))"
    unfolding xpdev_queue_delete_def Let_def get option.case entry
    using l1 assms(3) leave
    by (cases "qhndl (slot s d 0) = QDMA_QUEUE_IDX_INVALID") (simp_all add: put_slot_def split del: if_split)
  then show ?thesis by blast
qed

text \<open>Deleting a queue whose device is gone touches it.\<close>

lemma delete_gone:
  assumes "obliging env hnd" "card_at b d s" "xcdev (slot s d 1) = Some c" "cdevs s c = None"
  shows "xpdev_queue_delete env d 0 1 s = None"
proof -
  let ?x = "xpdev_list s ! d"
  obtain l1 where l1: "l_queue_remove env (dev_hndl ?x) (qhndl (slot s d 1)) (lib s) = (0, l1)"
    using obligingD(2) [OF assms(1)] by blast
  have "xpdev_queue_get ?x 0 1 True = Some (1 * qmax ?x)" using queue_get_0 [OF assms(2)] assms(3) by simp
  moreover have "qdata ?x ! (1 * qmax ?x) = slot s d 1" by (simp only: slot_def)
  moreover have "leave_cdev 1 c (s\<lparr>lib := l\<rparr>) = None" for l using assms(4) by (simp add: leave_cdev_def)
  ultimately show ?thesis
    unfolding xpdev_queue_delete_def Let_def using assms(3) l1 by simp
qed

end
