(* ===== verification/Queue_Ids.thy ===== *)
theory Queue_Ids
  imports Xnl_Server Queue_Setup
begin

text \<open>
  From the driver's list of cards to the library's bus numbers: the lines the driver prints are taken
  apart by the library, which keeps the first two digits of each index.
\<close>

section \<open>Hexadecimal digits\<close>

definition hex_pad :: "nat \<Rightarrow> nat \<Rightarrow> byte list" where
  "hex_pad k n = replicate (k - length (hex n)) 0x30 @ hex n"

declare hex.simps [simp del]

lemma hex_small: "n < 16 \<Longrightarrow> hex n = [hex_digit n]"
  by (subst hex.simps) simp

lemma hex_big: "\<not> n < 16 \<Longrightarrow> hex n = hex (n div 16) @ [hex_digit (n mod 16)]"
  by (subst hex.simps) simp

lemma hex_pad_Suc: "0 < k \<Longrightarrow> hex_pad (Suc k) n = hex_pad k (n div 16) @ [hex_digit (n mod 16)]"
proof (cases "n < 16")
  case True
  assume "0 < k"
  then obtain j where "k = Suc j" by (cases k) auto
  then show ?thesis using True by (simp add: hex_pad_def hex_small hex_digit_def replicate_append_same)
next
  case False
  then show ?thesis by (simp add: hex_pad_def hex_big [of n])
qed

lemma hex5_digits:
  assumes "n < 16 ^ 5"
  shows "hex5 n = [hex_digit (n div 65536), hex_digit (n div 4096 mod 16), hex_digit (n div 256 mod 16),
    hex_digit (n div 16 mod 16), hex_digit (n mod 16)]"
proof -
  have s: "hex_pad (Suc 0) m = [hex_digit m]" if "m < 16" for m using that by (simp add: hex_pad_def hex_small)
  have "hex5 n = hex_pad (Suc (Suc (Suc (Suc 1)))) n" by (simp add: hex5_def hex_pad_def)
  also have "\<dots> = hex_pad 1 (n div 16 div 16 div 16 div 16) @ [hex_digit (n div 16 div 16 div 16 mod 16),
      hex_digit (n div 16 div 16 mod 16), hex_digit (n div 16 mod 16), hex_digit (n mod 16)]"
    by (simp only: hex_pad_Suc zero_less_Suc zero_less_one append_assoc append_Cons append_Nil)
  also have "n div 16 div 16 div 16 div 16 < 16" using assms by (simp add: div_mult2_eq [symmetric])
  ultimately show ?thesis by (simp add: s div_mult2_eq [symmetric])
qed

lemma hex_digit_props:
  assumes "n < 16"
  shows "hex_value (hex_digit n) = Some n" "\<not> is_space (hex_digit n)" "hex_digit n \<noteq> 10"
    "hex_digit n \<noteq> 0x2b" "hex_digit n \<noteq> 0x2d" "hex_digit n \<noteq> 0"
proof -
  have "n \<in> {0..<16}" using assms by simp
  then have "hex_value (hex_digit n) = Some n \<and> \<not> is_space (hex_digit n) \<and> hex_digit n \<noteq> 10
      \<and> hex_digit n \<noteq> 0x2b \<and> hex_digit n \<noteq> 0x2d \<and> hex_digit n \<noteq> 0"
    by (simp add: atLeastLessThan_nat_numeral) (elim disjE; simp add: hex_digit_def hex_value_def is_space_def)
  then show "hex_value (hex_digit n) = Some n" "\<not> is_space (hex_digit n)" "hex_digit n \<noteq> 10"
    "hex_digit n \<noteq> 0x2b" "hex_digit n \<noteq> 0x2d" "hex_digit n \<noteq> 0" by blast+
qed

section \<open>Lines\<close>

lemma split_lines_line:
  assumes "10 \<notin> set l" "cur @ l \<noteq> []"
  shows "split_lines cur (l @ 10 # rest) = (cur @ l) # split_lines [] rest"
  using assms
proof (induction l arbitrary: cur)
  case (Cons a l)
  then show ?case using Cons.IH [of "cur @ [a]"] by simp
qed simp

lemma list_line_split: "list_line i r = (qdma_word @ hex5 (unat i) @ 9 # r) @ [10]"
  by (simp add: list_line_def)

lemma line_chars:
  assumes "unat i < 16 ^ 5" "10 \<notin> set r"
  shows "10 \<notin> set (qdma_word @ hex5 (unat i) @ 9 # r)"
  using assms hex_digit_props(3) by (auto simp: qdma_word_def hex5_digits)

lemma scan_line:
  assumes "unat i < 16 ^ 5"
  shows "scan_id (qdma_word @ hex5 (unat i) @ r) = Some [hex_digit (unat i div 65536), hex_digit (unat i div 4096 mod 16)]"
proof -
  have d: "unat i div 65536 < 16" using assms by simp
  show ?thesis
    using hex_digit_props(2) [OF d] hex_digit_props(2) [of "unat i div 4096 mod 16"]
    by (simp add: scan_id_def qdma_word_def hex5_digits [OF assms] Let_def)
qed

lemma strtoul_two:
  assumes "unat i < 16 ^ 5"
  shows "strtoul16 [hex_digit (unat i div 65536), hex_digit (unat i div 4096 mod 16)] = drop_bit 12 i"
proof -
  have d: "unat i div 65536 < 16" using assms by simp
  have "16 * (unat i div 65536) + unat i div 4096 mod 16 = unat i div 4096"
    using div_mult_mod_eq [of "unat i div 4096" 16] by (simp add: div_mult2_eq [symmetric])
  then have "strtoul16 [hex_digit (unat i div 65536), hex_digit (unat i div 4096 mod 16)] = of_nat (unat i div 4096)"
    using hex_digit_props [OF d] hex_digit_props(1) [of "unat i div 4096 mod 16"] by (simp add: strtoul16_def flip: of_nat_add of_nat_mult)
  also have "of_nat (unat i div 4096) = drop_bit 12 i"
    by (simp add: drop_bit_eq_div word_arith_nat_div)
  finally show ?thesis .
qed

section \<open>The list\<close>

definition card_lines :: "'l srv_env \<Rightarrow> xlnx_pci_dev list \<Rightarrow> 'l \<Rightarrow> byte list list" where
  "card_lines env xs l = map (\<lambda>x. qdma_word @ hex5 (unat (idx x)) @ 9 # describe env x (snd (l_get_config (dev_env env) (dev_hndl x) l))) xs"

definition listable :: "'l srv_env \<Rightarrow> xlnx_pci_dev \<Rightarrow> 'l \<Rightarrow> bool" where
  "listable env x l \<longleftrightarrow> unat (idx x) < 16 ^ 5 \<and> 0 \<le> fst (l_get_config (dev_env env) (dev_hndl x) l)
     \<and> 10 \<notin> set (describe env x (snd (l_get_config (dev_env env) (dev_hndl x) l)))"

definition card_text :: "'l srv_env \<Rightarrow> xlnx_pci_dev list \<Rightarrow> 'l \<Rightarrow> byte list" where
  "card_text env xs l = concat (map (\<lambda>t. t @ [10]) (card_lines env xs l))"

lemma card_text_simps [simp]:
  "card_text env [] l = []"
  "card_text env (x # xs) l = list_line (idx x) (describe env x (snd (l_get_config (dev_env env) (dev_hndl x) l))) @ card_text env xs l"
  by (simp_all add: card_text_def card_lines_def list_line_split)

lemma list_lines_eq:
  assumes "\<forall>x \<in> set xs. listable env x l" "length (t @ card_text env xs l) < 20480"
  shows "list_lines env l xs t = (int (length (t @ card_text env xs l)), t @ card_text env xs l)"
  using assms by (induction xs arbitrary: t) (auto simp: listable_def Let_def split: prod.split)

lemma list_lines_fits:
  assumes "\<forall>x \<in> set xs. listable env x l" "fst (list_lines env l xs t) < 20480"
  shows "length (t @ card_text env xs l) < 20480"
  using assms
proof (induction xs arbitrary: t)
  case (Cons x xs)
  let ?c = "l_get_config (dev_env env) (dev_hndl x) l"
  let ?t = "t @ list_line (idx x) (describe env x (snd ?c))"
  have "0 \<le> fst ?c" using Cons.prems(1) by (simp add: listable_def)
  then have "length ?t < 20480 \<and> fst (list_lines env l xs ?t) < 20480"
    using Cons.prems(2) by (cases ?c) (simp add: Let_def split: if_splits)
  then show ?case using Cons.IH [of ?t] Cons.prems(1) by simp
qed simp

lemma split_card_lines:
  "\<forall>x \<in> set xs. listable env x l \<Longrightarrow> split_lines [] (concat (map (\<lambda>t. t @ [10]) (card_lines env xs l))) = card_lines env xs l"
proof (induction xs)
  case (Cons x xs)
  let ?t = "qdma_word @ hex5 (unat (idx x)) @ 9 # describe env x (snd (l_get_config (dev_env env) (dev_hndl x) l))"
  have "10 \<notin> set ?t" by (rule line_chars) (use Cons.prems in \<open>simp_all add: listable_def\<close>)
  then have "split_lines [] (?t @ 10 # concat (map (\<lambda>t. t @ [10]) (card_lines env xs l)))
      = ?t # split_lines [] (concat (map (\<lambda>t. t @ [10]) (card_lines env xs l)))"
    using split_lines_line [of ?t "[]"] by (simp add: qdma_word_def)
  then show ?case using Cons by (simp add: card_lines_def)
qed (simp add: card_lines_def)

lemma extract_card_lines:
  assumes "\<forall>x \<in> set xs. listable env x l" "n + length xs \<le> 10" "length ids = 10"
  shows "length (extract_lines (card_lines env xs l) n ids) = 10
    \<and> (\<forall>i < n. extract_lines (card_lines env xs l) n ids ! i = ids ! i)
    \<and> (\<forall>i < length xs. strtoul16 (extract_lines (card_lines env xs l) n ids ! (n + i)) = drop_bit 12 (idx (xs ! i)))"
  using assms
proof (induction xs arbitrary: n ids)
  case (Cons x xs)
  let ?w = "[hex_digit (unat (idx x) div 65536), hex_digit (unat (idx x) div 4096 mod 16)]"
  have x: "unat (idx x) < 16 ^ 5" using Cons.prems by (simp add: listable_def)
  have step: "extract_lines (card_lines env (x # xs) l) n ids = extract_lines (card_lines env xs l) (Suc n) (ids[n := ?w])"
    using Cons.prems(2) scan_line [OF x] by (simp add: card_lines_def MAX_QDMA_def)
  have IH: "length (extract_lines (card_lines env xs l) (Suc n) (ids[n := ?w])) = 10"
      "\<forall>i < Suc n. extract_lines (card_lines env xs l) (Suc n) (ids[n := ?w]) ! i = ids[n := ?w] ! i"
      "\<forall>i < length xs. strtoul16 (extract_lines (card_lines env xs l) (Suc n) (ids[n := ?w]) ! (Suc n + i)) = drop_bit 12 (idx (xs ! i))"
    using Cons.IH [of "Suc n" "ids[n := ?w]"] Cons.prems by simp_all
  have "strtoul16 (extract_lines (card_lines env (x # xs) l) n ids ! (n + i)) = drop_bit 12 (idx ((x # xs) ! i))" if "i < length (x # xs)" for i
  proof (cases i)
    case 0
    have "n < length ids" using Cons.prems by simp
    then show ?thesis using 0 IH(2) strtoul_two [OF x] by (simp add: step)
  next
    case (Suc j)
    then show ?thesis using IH(3) that by (simp add: step)
  qed
  then show ?case using IH(1,2) by (simp add: step)
qed (simp add: card_lines_def)

end
