(* ===== verification/Xpdev_Reset.thy ===== *)
theory Xpdev_Reset
  imports Xpdev_Props
begin

text \<open>
  A reset of a card destroys the devices of its queues, all of them and no others, and touches none
  that is gone.
\<close>

lemma slot_exists: "j < 2 * n \<Longrightarrow> \<exists>i t. i < n \<and> t < 2 \<and> j = i + t * n" for n :: nat
  by (rule exI [of _ "j mod n"], rule exI [of _ "j div n"]) (auto simp: less_mult_imp_div_less intro: mod_less_divisor gr0I)

text \<open>While the walk is on, the flags count the directions that are left.\<close>

definition counted :: "nat \<Rightarrow> 'l drv \<Rightarrow> bool" where
  "counted d s \<longleftrightarrow> (\<forall>i t c. refers s d i t c \<longrightarrow>
     (\<exists>cd. cdevs s c = Some cd \<and> (if refers s d i (1 - t) c then dir_init cd = 3 else dir_init cd = 1 \<or> dir_init cd = 2)))"

lemma countedD:
  "counted d s \<Longrightarrow> refers s d i t c \<Longrightarrow>
    \<exists>cd. cdevs s c = Some cd \<and> (if refers s d i (1 - t) c then dir_init cd = 3 else dir_init cd = 1 \<or> dir_init cd = 2)"
  unfolding counted_def by blast

lemma refers_t: "refers s d i t c \<Longrightarrow> t = 0 \<or> t = 1"
  by (auto simp: refers_def)

lemma counted_start:
  assumes "cdev_inv s"
  shows "counted d s"
  unfolding counted_def
proof (intro allI impI)
  fix i t c assume r: "refers s d i t c"
  obtain cd where cd: "cdevs s c = Some cd" using cdev_invD(2) [OF assms r] by blast
  have b: "bit (dir_init cd) u \<longleftrightarrow> refers s d i u c" for u
    using cdev_invD(2) [OF assms, of d i u c] cdev_invD(6) [OF assms r cd] cd by auto
  have "dir_init cd = (if refers s d i 0 c then 1 else 0) OR (if refers s d i 1 c then push_bit 1 1 else 0)"
  proof (rule bit_word_eqI)
    fix u assume "u < LENGTH(16)"
    have "bit (dir_init cd) u \<longrightarrow> u = 0 \<or> u = 1" using b refers_t by metis
    then show "bit (dir_init cd) u = bit ((if refers s d i 0 c then 1 else 0) OR (if refers s d i 1 c then push_bit 1 1 else 0) :: u16) u"
      using b [of 0] b [of 1] by (auto simp: bit_simps split: if_splits)
  qed
  then show "\<exists>cd. cdevs s c = Some cd \<and> (if refers s d i (1 - t) c then dir_init cd = 3 else dir_init cd = 1 \<or> dir_init cd = 2)"
    using cd r refers_t [OF r] by auto
qed

lemma cleanup_shrinks:
  assumes "counted d s" "tables_ok s" "refs_apart s" "d < length (xpdev_list s)"
    and "\<forall>j \<in> set js. j < 2 * qmax (xpdev_list s ! d)"
  shows "\<exists>s'. cleanup_each d js s = Some s' \<and> shrinks d s s' \<and> tables_ok s' \<and> cdev_next s' = cdev_next s
    \<and> (\<forall>i t c. i + t * qmax (xpdev_list s ! d) \<in> set js \<longrightarrow> \<not> refers s' d i t c)"
  using assms
proof (induction js arbitrary: s)
  case (Cons j js)
  let ?q = "qmax (xpdev_list s ! d)"
  obtain i t where it: "i < ?q" "t < 2" "j = i + t * ?q" using slot_exists [of j ?q] Cons.prems(5) by auto
  have step: ?case if
    run: "cleanup_each d (j # js) s = cleanup_each d js (set_qdata d j no_qdata s1)"
    and s1: "xpdev_list s1 = xpdev_list s" "cdev_next s1 = cdev_next s"
    and count: "counted d (set_qdata d j no_qdata s1)"
    and gone: "\<And>c. refers s d i t c \<Longrightarrow> refers s d i (1 - t) c \<or> cdevs s1 c = None"
    and frame: "\<And>c. \<not> refers s d i t c \<Longrightarrow> cdevs s1 c = cdevs s c" for s1
  proof -
    let ?s2 = "set_qdata d j no_qdata s1"
    have x: "refers s1 = refers s" "tables_ok s1" using s1(1) Cons.prems(2) by (simp_all add: refers_def tables_ok_def fun_eq_iff)
    have r: "refers ?s2 d' i' t' c \<longleftrightarrow> refers s d' i' t' c \<and> (d', i', t') \<noteq> (d, i, t)" for d' i' t' c
      using refers_set [of d s1 i t no_qdata d' i' t' c] Cons.prems(4) it s1(1) x by (auto simp: no_qdata_def)
    have q: "map qmax (xpdev_list ?s2) = map qmax (xpdev_list s)" "qmax (xpdev_list ?s2 ! d) = ?q"
      using Cons.prems(4) s1(1) by (simp_all add: set_qdata_def map_update list_update_same_conv)
    have sh: "shrinks d s ?s2"
    proof -
      have "used_by d c ?s2 \<or> cdevs ?s2 c = None" if u: "used_by d c s" for c
      proof (cases "refers s d i t c")
        case True
        have "1 - t \<noteq> t" using it(2) by presburger
        then show ?thesis using gone [OF True] r unfolding used_by_def by auto
      next
        case False
        then show ?thesis using u r unfolding used_by_def by blast
      qed
      moreover have "cdevs ?s2 c = cdevs s c" if "\<not> used_by d c s" for c
        using frame that by (auto simp: used_by_def)
      ultimately show ?thesis
        using q(1) r map_eq_imp_length_eq [OF q(1)] unfolding shrinks_def by auto
    qed
    have "refs_apart ?s2" using Cons.prems(3) r unfolding refs_apart_def by blast
    moreover have "tables_ok ?s2" using x(2) s1(1) Cons.prems(4) by simp
    moreover have "d < length (xpdev_list ?s2)" using s1(1) Cons.prems(4) by (simp add: set_qdata_def)
    ultimately obtain s' where s': "cleanup_each d js ?s2 = Some s'" "shrinks d ?s2 s'" "tables_ok s'" "cdev_next s' = cdev_next s"
        "\<forall>i t c. i + t * ?q \<in> set js \<longrightarrow> \<not> refers s' d i t c"
      using Cons.IH [OF count] Cons.prems(5) q s1(2) by auto
    moreover have "\<not> refers s' d i' t' c" if e: "i' + t' * ?q = j" for i' t' c
    proof
      assume "refers s' d i' t' c"
      then have "refers ?s2 d i' t' c" by (rule shrinksD(3) [OF s'(2)])
      then have "refers s d i' t' c" "(i', t') \<noteq> (i, t)" using r by auto
      then show False using slot_inj [of i' ?q i t' t] e it by (auto simp: refers_def)
    qed
    ultimately show ?thesis using run shrinks_trans [OF sh s'(2)] by auto
  qed
  show ?case
  proof (cases "xcdev (qdata (xpdev_list s ! d) ! j)")
    case None
    then have "\<not> refers s d i t c" for c using it by (simp add: refers_def)
    moreover have "refers (set_qdata d j no_qdata s) d' i' t' c \<longleftrightarrow> refers s d' i' t' c" for d' i' t' c
      using refers_set [of d s i t no_qdata d' i' t' c] Cons.prems(2,4) it calculation by (auto simp: no_qdata_def)
    ultimately show ?thesis using None Cons.prems(1) by (intro step [of s]) (auto simp: counted_def)
  next
    case (Some c)
    then have r: "refers s d i t c' \<longleftrightarrow> c' = c" for c' using it Cons.prems(4) by (auto simp: refers_def)
    then obtain cd where cd: "cdevs s c = Some cd"
        "if refers s d i (1 - t) c then dir_init cd = 3 else dir_init cd = 1 \<or> dir_init cd = 2"
      using countedD [OF Cons.prems(1), of i t c] by blast
    let ?s1 = "if dir_init cd = 1 \<or> dir_init cd = 2 then qdma_cdev_destroy c s
      else s\<lparr>cdevs := (cdevs s)(c \<mapsto> cd\<lparr>dir_init := drop_bit 1 (dir_init cd)\<rparr>)\<rparr>"
    have x: "xpdev_list ?s1 = xpdev_list s" "refers ?s1 = refers s" "tables_ok ?s1" "cdev_next ?s1 = cdev_next s"
      using Cons.prems(2) by (simp_all add: qdma_cdev_destroy_def)
    have r1: "refers (set_qdata d j no_qdata ?s1) d' i' t' c' \<longleftrightarrow> refers s d' i' t' c' \<and> (d', i', t') \<noteq> (d, i, t)" for d' i' t' c'
      using refers_set [of d ?s1 i t no_qdata d' i' t' c'] Cons.prems(4) it x by (auto simp: no_qdata_def)
    show ?thesis
    proof (rule step [of ?s1])
      show "cleanup_each d (j # js) s = cleanup_each d js (set_qdata d j no_qdata ?s1)"
        using Some cd(1) by simp
      show "counted d (set_qdata d j no_qdata ?s1)"
        unfolding counted_def
      proof (intro allI impI)
        fix i' t' c' assume a: "refers (set_qdata d j no_qdata ?s1) d i' t' c'"
        show "\<exists>cd. cdevs (set_qdata d j no_qdata ?s1) c' = Some cd \<and>
          (if refers (set_qdata d j no_qdata ?s1) d i' (1 - t') c' then dir_init cd = 3 else dir_init cd = 1 \<or> dir_init cd = 2)"
        proof (cases "c' = c")
          case True
          have a1: "refers s d i' t' c" "(i', t') \<noteq> (i, t)" using a True unfolding r1 by auto
          then have "i' = i" using Cons.prems(3) r unfolding refs_apart_def by blast
          then have "t' = 1 - t" "1 - t' = t" using a1(2) refers_t [OF a1(1)] it(2) by auto
          then have "dir_init cd = 3" using a1(1) \<open>i' = i\<close> cd(2) by simp
          then show ?thesis using True \<open>i' = i\<close> \<open>1 - t' = t\<close> r1 by (simp add: drop_bit_Suc)
        next
          case False
          have a1: "refers s d i' t' c'" using a unfolding r1 by simp
          have "cdevs (set_qdata d j no_qdata ?s1) c' = cdevs s c'" using False by (simp add: qdma_cdev_destroy_def)
          moreover have "refers (set_qdata d j no_qdata ?s1) d i' (1 - t') c' = refers s d i' (1 - t') c'"
            using r1 r False by auto
          ultimately show ?thesis using countedD [OF Cons.prems(1) a1] by simp
        qed
      qed
      show "refers s d i (1 - t) c' \<or> cdevs ?s1 c' = None" if "refers s d i t c'" for c'
        using that r cd(2) by (auto simp: qdma_cdev_destroy_def split: if_splits)
      show "cdevs ?s1 c' = cdevs s c'" if "\<not> refers s d i t c'" for c'
        using that r by (auto simp: qdma_cdev_destroy_def)
    qed (use x in auto)
  qed
qed simp

section \<open>A reset\<close>

lemma delete_each_shrinks:
  assumes "cdev_inv s" "d < length (xpdev_list s)" "\<forall>(i, t) \<in> set qs. t < 3"
  shows "\<exists>s'. delete_each env d qs s = Some s' \<and> cdev_inv s' \<and> shrinks d s s'"
  using assms
proof (induction qs arbitrary: s)
  case (Cons q qs)
  obtain i t where q: "q = (i, t)" by fastforce
  then obtain rv s1 where s1: "xpdev_queue_delete env d i t s = Some (rv, s1)" "cdev_inv s1" "shrinks d s s1"
    using queue_delete_inv [OF Cons.prems(1,2), of t env i] Cons.prems(3) by auto
  then obtain s' where "delete_each env d qs s1 = Some s'" "cdev_inv s'" "shrinks d s1 s'"
    using Cons.IH [of s1] Cons.prems(2,3) shrinksD(1) by fastforce
  then show ?case using q s1 shrinks_trans by fastforce
qed simp

lemma device_cleanup_shrinks:
  assumes "cdev_inv s" "d < length (xpdev_list s)"
  shows "\<exists>s'. xpdev_device_cleanup d s = Some s' \<and> cdev_inv s' \<and> shrinks d s s' \<and> (\<forall>c. \<not> used_by d c s')"
proof -
  let ?q = "qmax (xpdev_list s ! d)"
  have "refs_apart s" using assms(1) by (simp add: cdev_inv_def)
  then obtain s' where s': "xpdev_device_cleanup d s = Some s'" "shrinks d s s'" "tables_ok s'" "cdev_next s' = cdev_next s"
      "\<forall>i t c. i + t * ?q \<in> set [0..<?q * 2] \<longrightarrow> \<not> refers s' d i t c"
    using cleanup_shrinks [OF counted_start [OF assms(1)] cdev_invD(1) [OF assms(1)] _ assms(2), of "[0..<?q * 2]"]
    unfolding xpdev_device_cleanup_def by auto
  have "qmax (xpdev_list s' ! d) = ?q"
    using arg_cong [OF shrinksD(2) [OF s'(2)], of "\<lambda>xs. xs ! d"] shrinksD(1) [OF s'(2)] assms(2) by simp
  then have none: "\<not> refers s' d i t c" for i t c
  proof -
    have False if r: "refers s' d i t c"
    proof -
      have i: "i < ?q" using r \<open>qmax (xpdev_list s' ! d) = ?q\<close> by (simp add: refers_def)
      have "i + t * ?q \<in> set [0..<?q * 2]" using i refers_t [OF r] by auto
      then show False using s'(5) r by blast
    qed
    then show ?thesis by blast
  qed
  have keep: "cdevs s' c = cdevs s c" "refers s d' i t c" "d' \<noteq> d" if "refers s' d' i t c" for d' i t c
  proof -
    show d: "d' \<noteq> d" using that none by blast
    show r: "refers s d' i t c" using that by (rule shrinksD(3) [OF s'(2)])
    have "\<not> used_by d c s" using cdev_invD(3) [OF assms(1) r] d unfolding used_by_def by blast
    then show "cdevs s' c = cdevs s c" by (rule shrinksD(6) [OF s'(2)])
  qed
  have "cdev_inv s'"
  proof (rule cdev_invI)
    show "\<exists>cd. cdevs s' c = Some cd \<and> bit (dir_init cd) t" if "refers s' d' i t c" for d' i t c
      using keep [OF that] cdev_invD(2) [OF assms(1)] by metis
    show "d1 = d2 \<and> i1 = i2" if "refers s' d1 i1 t1 c" "refers s' d2 i2 t2 c" for d1 i1 t1 d2 i2 t2 c
      using keep(2) that cdev_invD(3) [OF assms(1)] by blast
    show "c1 = c2" if "refers s' d' i t1 c1" "refers s' d' i t2 c2" for d' i t1 t2 c1 c2
      using keep(2) that cdev_invD(5) [OF assms(1)] by blast
    show "c < cdev_next s'" if "cdevs s' c = Some cd" for c cd
    proof -
      have "cdevs s c \<noteq> None"
        using that none shrinksD(5,6) [OF s'(2), of c] unfolding used_by_def by (metis option.discI)
      then show ?thesis using cdev_invD(4) [OF assms(1)] s'(4) by auto
    qed
    show "refers s' d' i u c" if "refers s' d' i t c" "cdevs s' c = Some cd" "bit (dir_init cd) u" for d' i t u c cd
      using keep [OF that(1)] that(2,3) cdev_invD(6) [OF assms(1), of d' i t c cd u] shrinksD(4) [OF s'(2), of d' i u c] by simp
  qed (fact s'(3))
  then show ?thesis using s' none unfolding used_by_def by blast
qed

lemma reset_inv:
  assumes "cdev_inv s" "d < length (xpdev_list s)"
  shows "\<exists>s'. qdma_reset_prepare env offline d s = Some s' \<and> cdev_inv s' \<and> shrinks d s s' \<and> (\<forall>c. \<not> used_by d c s')"
proof -
  let ?h = "dev_hndl (xpdev_list s ! d)"
  let ?l = "reset_does offline Going_Offline ?h (lib s)"
  let ?s = "s\<lparr>lib := if hard_ip offline ?h ?l then reset_does offline Flr_Quirk_Set ?h ?l else ?l\<rparr>"
  obtain s1 where s1: "xpdev_queue_delete_all env d ?s = Some s1" "cdev_inv s1" "shrinks d ?s s1"
    using delete_each_shrinks [of ?s d "concat (map (\<lambda>i. [(i, 0), (i, 1)]) [0..<qmax (xpdev_list ?s ! d)])" env] assms
    by (auto simp: xpdev_queue_delete_all_def)
  have "length (xpdev_list s1) = length (xpdev_list s)" using shrinksD(1) [OF s1(3)] by simp
  then obtain s' where s': "xpdev_device_cleanup d s1 = Some s'" "cdev_inv s'" "shrinks d s1 s'" "\<forall>c. \<not> used_by d c s'"
    using device_cleanup_shrinks [OF s1(2)] assms(2) by metis
  moreover have "shrinks d s ?s" by (simp add: shrinks_def used_by_def)
  ultimately have sh: "shrinks d s s'" using shrinks_trans s1(3) by blast
  have any: "cdev_inv (s'\<lparr>lib := l\<rparr>)" "shrinks d s (s'\<lparr>lib := l\<rparr>)" "\<forall>c. \<not> used_by d c (s'\<lparr>lib := l\<rparr>)" for l
    using s'(2,4) sh by (simp_all add: shrinks_def used_by_def)
  show ?thesis using any s' s1(1) by (simp add: qdma_reset_prepare_def Let_def)
qed

end
