(* ===== verification/Xnl_Safety.thy ===== *)
theory Xnl_Safety
  imports Xnl_Info Xpdev_Reset
begin

text \<open>
  Requests over netlink, commands of the PIM interface device and resets, in any order: as long as the
  interface device is asked for one direction at a time no device is touched after it is gone, and as
  long as requests are complete no handler crashes. The type for both directions breaks this, and so
  does a request for a dump that leaves out its range.
\<close>

section \<open>What only asks the library\<close>

lemma start_each_lib: "\<exists>rv' l. start_each env d qs rv s = (rv', s\<lparr>lib := l\<rparr>)"
proof (induction qs arbitrary: rv s)
  case Nil
  show ?case by (auto intro: exI [of _ "lib s"])
next
  case (Cons q qs)
  obtain i t where q: "q = (i, t)" by fastforce
  show ?case
  proof (cases "xpdev_queue_get (xpdev_list s ! d) i t True")
    case None
    then show ?thesis using q by (auto intro: exI [of _ "lib s"])
  next
    case (Some j)
    obtain rv1 l1 where "l_queue_start env (dev_hndl (xpdev_list s ! d)) (qhndl (qdata (xpdev_list s ! d) ! j)) (lib s) = (rv1, l1)"
      by fastforce
    then show ?thesis using q Some Cons.IH [of rv1 "s\<lparr>lib := l1\<rparr>"] by (auto simp: Let_def)
  qed
qed

lemma stop_each_lib: "\<exists>rv' rs n l. stop_each env d qs rv s = (rv', rs, n, s\<lparr>lib := l\<rparr>)"
proof (induction qs arbitrary: rv s)
  case Nil
  show ?case by (auto intro: exI [of _ "lib s"])
next
  case (Cons q qs)
  obtain i t where q: "q = (i, t)" by fastforce
  show ?case
  proof (cases "xnl_rcv_check_qidx env d (i mod 2 ^ 24) t s")
    case (Inl r)
    then show ?thesis using q by (auto intro: exI [of _ "lib s"])
  next
    case (Inr h)
    obtain rv1 l1 where "l_queue_stop (dev_env env) (dev_hndl (xpdev_list s ! d)) h (lib s) = (rv1, l1)" by fastforce
    then show ?thesis using q Inr Cons.IH [of rv1 "s\<lparr>lib := l1\<rparr>"] by (auto simp: Let_def)
  qed
qed

lemma config_each_lib:
  "(\<exists>rv' rs n l. config_each env d b conf qs rv s = Inl (rv', rs, n, s\<lparr>lib := l\<rparr>))
    \<or> (\<exists>l. config_each env d b conf qs rv s = Inr (s\<lparr>lib := l\<rparr>))"
proof (induction qs arbitrary: rv s conf)
  case Nil
  have "s = s\<lparr>lib := lib s\<rparr>" by simp
  then show ?case by (metis config_each.simps(1))
next
  case (Cons q qs)
  obtain i t where q: "q = (i, t)" by fastforce
  have same: "s = s\<lparr>lib := lib s\<rparr>" by simp
  let ?x = "xpdev_list s ! d" and ?c1 = "conf\<lparr>q_type := t, qidx := i mod 2 ^ 24\<rparr>"
  show ?case
  proof (cases "xnl_rcv_check_qidx env d (qidx ?c1) t s")
    case (Inl r)
    then show ?thesis using q same by (auto simp: Let_def intro: exI [of _ "lib s"])
  next
    case (Inr h)
    obtain rv1 old where g: "l_queue_get_config (dev_env env) (dev_hndl ?x) h (lib s) = (rv1, old)" by fastforce
    define c2 where "c2 = (if t \<noteq> Q_CMPT \<and> st old \<and> q_type old \<noteq> 0 \<and> \<not> b
      then ?c1\<lparr>c2h_buf_sz_idx := of_nat (xnl_q_buf_idx_get env ?x s)\<rparr> else ?c1)"
    obtain rv2 l1 where c: "l_queue_config (dev_env env) (dev_hndl ?x) h c2 (lib s) = (rv2, l1)" by fastforce
    have "config_each env d b conf (q # qs) rv s =
        (if rv1 < 0 then Inl (rv1, [], From_Lib, s)
         else if rv2 < 0 then Inl (rv2, [], From_Lib, s\<lparr>lib := l1\<rparr>)
         else config_each env d b c2 qs rv2 (s\<lparr>lib := l1\<rparr>))"
      using q Inr g c unfolding c2_def by (auto simp: Let_def)
    then show ?thesis using Cons.IH [of c2 rv2 "s\<lparr>lib := l1\<rparr>"] by (cases "rv1 < 0"; cases "rv2 < 0") auto
  qed
qed

lemma start_queues_lib: "\<exists>rv rs l. start_queues env d is_qp b conf i k s = (rv, rs, s\<lparr>lib := l\<rparr>)"
proof -
  let ?qs = "queue_range is_qp (q_type conf) i k"
  let ?t = "if 0 < k then last (dirs is_qp (q_type conf)) else q_type conf"
  consider (fail) rv rs n l where "config_each env d b conf ?qs 0 s = Inl (rv, rs, n, s\<lparr>lib := l\<rparr>)"
    | (ok) l where "config_each env d b conf ?qs 0 s = Inr (s\<lparr>lib := l\<rparr>)"
    using config_each_lib [of env d b conf ?qs 0 s] by blast
  then show ?thesis
  proof cases
    case fail
    then show ?thesis by (simp add: start_queues_def)
  next
    case ok
    let ?s = "s\<lparr>lib := l\<rparr>"
    obtain a l1 where a: "k_alloc (dev_env env) (lib ?s) = (a, l1)" by fastforce
    obtain rv l2 where st: "nl_work_handler_q_start (dev_env env) d is_qp ?t i k (?s\<lparr>lib := l1\<rparr>) = (rv, ?s\<lparr>lib := l2\<rparr>)"
      using start_each_lib [of "dev_env env" d "queue_range is_qp ?t i k" 0 "?s\<lparr>lib := l1\<rparr>"]
      unfolding nl_work_handler_q_start_def by auto
    show ?thesis
      using ok a st by (simp add: start_queues_def xpdev_nl_queue_start_def Let_def)
  qed
qed

section \<open>What changes the tables\<close>

lemma find_by_idx_less: "xpdev_find_by_idx i s = Some d \<Longrightarrow> d < length (xpdev_list s)"
  unfolding xpdev_find_by_idx_def by (auto simp: find_Some_iff)

lemma check_xpdev_less: "xnl_rcv_check_xpdev env at s = Inr d \<Longrightarrow> d < length (xpdev_list s)"
  by (auto simp: xnl_rcv_check_xpdev_def find_by_idx_less split: option.splits)

lemma qconf_type: "qconf_get env at = Inr (conf, is_qp) \<Longrightarrow> q_type conf < 3"
  by (auto simp: qconf_get_def Let_def split: option.splits if_splits)

lemma queue_range_types: "t < 3 \<Longrightarrow> (i', t') \<in> set (queue_range is_qp t i n) \<Longrightarrow> t' < 3"
  by (auto simp: queue_range_def dirs_def split: if_splits)

lemma add_each_inv:
  assumes "cdev_inv s" "d < length (xpdev_list s)" "\<forall>(i, t) \<in> set qs. t < 3"
  shows "\<exists>rv' b s'. add_each env d auto conf qs rv s = Some (rv', b, s') \<and> cdev_inv s'"
  using assms
proof (induction qs arbitrary: s rv conf)
  case (Cons q qs)
  obtain i t where q: "q = (i, t)" by fastforce
  define conf1 where "conf1 = conf\<lparr>q_type := t, qidx := (if auto then qidx conf else i mod 2 ^ 24)\<rparr>"
  obtain rv1 i1 s1 where s1: "xpdev_queue_add (dev_env env) d conf1 s = Some (rv1, i1, s1)" "cdev_inv s1"
      "length (xpdev_list s1) = length (xpdev_list s)"
    using queue_add_inv [OF Cons.prems(1,2), of conf1 "dev_env env"] Cons.prems(3) q by (auto simp: conf1_def)
  have "add_each env d auto conf (q # qs) rv s
      = (if rv1 < 0 then Some (rv1, False, s1) else add_each env d auto (conf1\<lparr>qidx := i1\<rparr>) qs rv1 s1)"
    using s1(1) q unfolding conf1_def by (simp add: Let_def)
  moreover have "\<exists>rv' b s'. add_each env d auto (conf1\<lparr>qidx := i1\<rparr>) qs rv1 s1 = Some (rv', b, s') \<and> cdev_inv s'"
    using Cons.IH [of s1 "conf1\<lparr>qidx := i1\<rparr>" rv1] Cons.prems(2,3) s1 by auto
  ultimately show ?case using s1(2) by (cases "rv1 < 0") auto
qed (auto intro: exI [of _ True])

lemma del_each_inv:
  assumes "cdev_inv s" "d < length (xpdev_list s)" "\<forall>(i, t) \<in> set qs. t < 3"
  shows "\<exists>rv' n s'. del_each env d qs rv s = Some (rv', n, s') \<and> cdev_inv s'"
  using assms
proof (induction qs arbitrary: s rv)
  case (Cons q qs)
  obtain i t where q: "q = (i, t)" by fastforce
  obtain rv1 s1 where s1: "xpdev_queue_delete (dev_env env) d (i mod 2 ^ 24) t s = Some (rv1, s1)" "cdev_inv s1"
      "length (xpdev_list s1) = length (xpdev_list s)"
    using queue_delete_inv [OF Cons.prems(1,2), of t "dev_env env" "i mod 2 ^ 24"] Cons.prems(3) q shrinksD(1) by fastforce
  then show ?case using Cons.IH [of s1 rv1] Cons.prems(2,3) q by auto
qed simp

text \<open>Every handler keeps the invariant.\<close>

definition keeps :: "'l outcome \<Rightarrow> bool" where
  "keeps out \<longleftrightarrow> (\<exists>rv rs s'. out = Some (rv, rs, s') \<and> cdev_inv s')"

lemma keeps_Some [simp]: "keeps (Some (rv, rs, s')) \<longleftrightarrow> cdev_inv s'"
  by (simp add: keeps_def)

lemma q_add_inv:
  assumes "cdev_inv s" "at XNL_ATTR_RSP_BUF_LEN \<noteq> Some 0"
  shows "keeps (xnl_q_add env at s)"
proof (cases "xnl_rcv_check_xpdev env at s")
  case (Inl r)
  then show ?thesis using assms by (simp add: xnl_q_add_def)
next
  case (Inr d)
  obtain ok l1 where a: "k_alloc (dev_env env) (lib s) = (ok, l1)" by fastforce
  let ?s1 = "s\<lparr>lib := l1\<rparr>"
  note room = resp_len_pos [of at, OF assms(2)]
  show ?thesis
  proof (cases "qconf_get env at")
    case (Inl r)
    then show ?thesis using Inr a assms room by (auto simp: xnl_q_add_def Let_def)
  next
    case conf: (Inr ci)
    obtain conf is_qp where ci: "ci = (conf, is_qp)" by fastforce
    have t: "\<forall>(i, t) \<in> set (queue_range is_qp (q_type conf) i n). t < 3" for i n
      using queue_range_types qconf_type conf ci by blast
    have "\<exists>rv' b s'. add_each env d auto conf (queue_range is_qp (q_type conf) i n) 0 ?s1 = Some (rv', b, s') \<and> cdev_inv s'" for auto i n
      using add_each_inv [of ?s1 d _ env auto conf 0] assms check_xpdev_less [OF Inr] t by simp
    then obtain rv' b s' where "case at XNL_ATTR_NUM_Q of None \<Rightarrow> True | Some n \<Rightarrow>
        add_each env d (qidx conf mod 2 ^ 16 = QDMA_QUEUE_IDX_INVALID) conf
          (queue_range is_qp (q_type conf) (qidx conf mod 2 ^ 16) (unat n)) 0 ?s1 = Some (rv', b, s')" "cdev_inv s'"
      using assms by (cases "at XNL_ATTR_NUM_Q") fastforce+
    then show ?thesis
      using Inr a assms conf ci room by (cases "at XNL_ATTR_NUM_Q") (auto simp: xnl_q_add_def Let_def)
  qed
qed

lemma q_start_inv:
  assumes "cdev_inv s"
  shows "keeps (xnl_q_start env at s)"
proof -
  have "keeps (Some (start_queues env d is_qp b conf i k s))" for d is_qp b conf i k
    using start_queues_lib [of env d is_qp b conf i k s] assms by (auto simp: keeps_def)
  then show ?thesis
    using assms by (auto simp: xnl_q_start_def Let_def split: sum.split option.split)
qed

lemma q_stop_inv:
  assumes "cdev_inv s"
  shows "keeps (xnl_q_stop env at s)"
proof -
  have "keeps (case stop_each env d qs 0 s of (rv, rs, n, s1) \<Rightarrow> Some (0, rs @ [xnl_respond_buffer env n rv], s1))" for d qs
    using stop_each_lib [of env d qs 0 s] assms by (auto simp: keeps_def)
  then show ?thesis
    using assms by (auto simp: xnl_q_stop_def Let_def split: sum.split option.split)
qed

lemma q_del_inv:
  assumes "cdev_inv s"
  shows "keeps (xnl_q_del env at s)"
proof (cases "xnl_rcv_check_xpdev env at s")
  case (Inl r)
  then show ?thesis using assms by (simp add: xnl_q_del_def)
next
  case (Inr d)
  show ?thesis
  proof (cases "qconf_get env at")
    case (Inl r)
    then show ?thesis using Inr assms by (auto simp: xnl_q_del_def Let_def)
  next
    case conf: (Inr ci)
    obtain conf is_qp where ci: "ci = (conf, is_qp)" by fastforce
    have "\<exists>rv' m s'. del_each env d (queue_range is_qp (q_type conf) i n) 0 s = Some (rv', m, s') \<and> cdev_inv s'" for i n
      using del_each_inv [OF assms check_xpdev_less [OF Inr]] queue_range_types qconf_type conf ci by blast
    then obtain rv' m s' where "case at XNL_ATTR_NUM_Q of None \<Rightarrow> True | Some n \<Rightarrow>
        del_each env d (queue_range is_qp (q_type conf) (qidx conf mod 2 ^ 16) (unat n mod 2 ^ 16)) 0 s = Some (rv', m, s')" "cdev_inv s'"
      using assms by (cases "at XNL_ATTR_NUM_Q") fastforce+
    then show ?thesis
      using Inr assms conf ci by (cases "at XNL_ATTR_NUM_Q") (auto simp: xnl_q_del_def Let_def)
  qed
qed

section \<open>Handlers that only look\<close>

text \<open>A request the handlers can answer: a reply has room, and a dump names what it is to dump.\<close>

definition answerable :: "xnl_op_t \<Rightarrow> attr_fun \<Rightarrow> bool" where
  "answerable op at \<longleftrightarrow>
     at XNL_ATTR_RSP_BUF_LEN \<noteq> Some 0
     \<and> (op = XNL_CMD_Q_DUMP \<longrightarrow> at XNL_ATTR_NUM_Q \<noteq> Some 0)
     \<and> (op \<in> {XNL_CMD_Q_DESC, XNL_CMD_Q_CMPT} \<longrightarrow> at XNL_ATTR_RANGE_START \<noteq> None \<and> at XNL_ATTR_RANGE_END \<noteq> None)
     \<and> (op = XNL_CMD_INTR_RING_DUMP \<and> at XNL_ATTR_INTR_VECTOR_IDX \<noteq> None
          \<longrightarrow> at XNL_ATTR_INTR_VECTOR_START_IDX \<noteq> None \<and> at XNL_ATTR_INTR_VECTOR_END_IDX \<noteq> None)"

lemma with_buffer_keeps:
  assumes "\<And>l. keeps (act (s\<lparr>lib := l\<rparr>))" "cdev_inv s"
  shows "keeps (with_buffer env len extra act s)"
  using assms by (simp add: with_buffer_def Let_def split: prod.split)

lemma answer_keeps: "len \<noteq> 0 \<Longrightarrow> cdev_inv s' \<Longrightarrow> keeps (answer len (rv, rs, s'))"
  by (simp add: answer_def)

lemma dump_reply_keeps:
  assumes "len \<noteq> 0" "cdev_inv s"
  shows "keeps (answer len (dump_reply env d dump n is_qp conf k s))"
  using assms by (simp add: dump_reply_def Let_def answer_def split: prod.split)

lemmas looks_only = with_buffer_keeps answer_keeps dump_reply_keeps resp_len_pos

lemma dev_list_keeps: "cdev_inv s \<Longrightarrow> keeps (xnl_dev_list env s)"
  by (auto simp: xnl_dev_list_def Let_def split: prod.split)

lemma device_handlers_keep:
  assumes "cdev_inv s" "at XNL_ATTR_RSP_BUF_LEN \<noteq> Some 0"
  shows "keeps (xnl_dev_info env at s)" "keeps (xnl_get_queue_state env at s)"
    "keeps (xnl_dev_version_capabilities env ie at s)" "keeps (xnl_dev_stat env ie at s)" "keeps (xnl_dev_stat_clear env ie at s)"
    "keeps (xnl_config_reg_dump env ie at s)" "keeps (xnl_config_reg_info_dump env ie at s)"
  using assms
  by (auto simp: xnl_dev_info_def xnl_get_queue_state_def xnl_dev_version_capabilities_def xnl_dev_stat_def
      xnl_dev_stat_clear_def xnl_config_reg_dump_def xnl_config_reg_info_dump_def Let_def
      intro!: looks_only split: sum.split prod.split)

lemma times_room: "w \<noteq> 0 \<Longrightarrow> unat w * n < 2 ^ 32 \<Longrightarrow> n \<noteq> 0 \<Longrightarrow> w * of_nat n \<noteq> 0" for w :: u32
proof
  assume w: "w \<noteq> 0" "unat w * n < 2 ^ 32" "n \<noteq> 0" "w * of_nat n = 0"
  have "w * of_nat n = of_nat (unat w * n)" by simp
  then have "unat (w * of_nat n) = unat w * n" using w(2) by (simp only: unat_of_nat) simp
  then show False using w by (simp add: unat_eq_0)
qed

lemma queue_count_room:
  fixes a b :: u16
  assumes "ucast a + ucast b \<noteq> (0 :: u32)"
  shows "(ucast a + ucast b) * 200 \<noteq> (0 :: u32)"
proof -
  have "unat a < 2 ^ LENGTH(16)" "unat b < 2 ^ LENGTH(16)" by (rule unsigned_less)+
  then have le: "unat a < 65536" "unat b < 65536" by simp_all
  then have "unat (ucast a :: u32) = unat a" "unat (ucast b :: u32) = unat b"
    by (simp_all add: unsigned_ucast_eq take_bit_nat_eq_self)
  then have "unat (ucast a + ucast b :: u32) < 131072" using le by (simp add: unat_word_ariths)
  then show ?thesis using times_room [OF assms, of 200] by simp
qed

lemma q_list_keeps: "cdev_inv s \<Longrightarrow> keeps (xnl_q_list env ie at s)"
  using queue_count_room by (auto simp: xnl_q_list_def Let_def intro!: looks_only split: sum.split prod.split)

lemma dump_room: "n \<noteq> 0 \<Longrightarrow> \<not> 100 < n \<Longrightarrow> n * 24576 \<noteq> 0" for n :: u32
  using times_room [of n 24576] by (simp add: word_less_nat_alt)

lemma q_dump_keeps:
  assumes "cdev_inv s" "at XNL_ATTR_RSP_BUF_LEN \<noteq> Some 0" "at XNL_ATTR_NUM_Q \<noteq> Some 0"
  shows "keeps (xnl_q_dump env ie at s)"
  using assms dump_room
  by (auto simp: xnl_q_dump_def Let_def intro!: looks_only split: sum.split prod.split option.split)

lemma range_dumps_keep:
  assumes "cdev_inv s" "at XNL_ATTR_RSP_BUF_LEN \<noteq> Some 0" "at XNL_ATTR_RANGE_START \<noteq> None" "at XNL_ATTR_RANGE_END \<noteq> None"
  shows "keeps (xnl_q_dump_desc env ie at s)" "keeps (xnl_q_dump_cmpt env ie at s)"
  using assms
  by (auto simp: xnl_q_dump_desc_def xnl_q_dump_cmpt_def dump_range_def intro!: looks_only split: sum.split prod.split option.split)

lemma completion_handlers_keep:
  assumes "cdev_inv s" "at XNL_ATTR_RSP_BUF_LEN \<noteq> Some 0"
  shows "keeps (xnl_q_read_udd env ie at s)" "keeps (xnl_q_cmpt_read env ie at s)"
  using assms
  by (auto simp: xnl_q_read_udd_def xnl_q_cmpt_read_def intro!: looks_only split: sum.split prod.split)

lemma register_handlers_keep:
  assumes "cdev_inv s"
  shows "keeps (xnl_register_read env ie at s)" "keeps (xnl_register_write env ie at s)" "keeps (xnl_get_global_csr env ie at s)"
  using assms
  by (auto simp: xnl_register_read_def xnl_register_write_def xnl_get_global_csr_def Let_def
      split: sum.split prod.split option.split)

lemma intr_dump_keeps:
  assumes "cdev_inv s" "answerable XNL_CMD_INTR_RING_DUMP at"
  shows "keeps (xnl_intr_ring_dump env ie at s)"
  using assms
  by (auto simp: xnl_intr_ring_dump_def answerable_def intro!: looks_only split: sum.split prod.split option.split)

lemma xnl_doit_inv:
  assumes "cdev_inv s" "answerable op at"
  shows "keeps (xnl_doit env ie op at s)"
proof -
  have len: "at XNL_ATTR_RSP_BUF_LEN \<noteq> Some 0" using assms(2) by (simp add: answerable_def)
  note K = dev_list_keeps [OF assms(1)] device_handlers_keep [of s at, OF assms(1) len] q_list_keeps [OF assms(1)] completion_handlers_keep [of s at, OF assms(1) len]
    register_handlers_keep [OF assms(1)] q_add_inv [of s at, OF assms(1) len] q_start_inv [OF assms(1)] q_stop_inv [OF assms(1)] q_del_inv [OF assms(1)]
  show ?thesis
    using K q_dump_keeps [of s at, OF assms(1) len] range_dumps_keep [of s at, OF assms(1) len] intr_dump_keeps [of s at, OF assms(1)] assms
    by (cases op) (simp_all add: xnl_doit_def answerable_def xnl_q_read_pkt_def)
qed

section \<open>Any sequence\<close>

datatype drv_call = Request xnl_op_t attr_fun | Pim_Ioctl aim_cmd | Reset nat

definition drv_step :: "'l srv_env \<Rightarrow> 'l info_env \<Rightarrow> 'l reset_env \<Rightarrow> drv_call \<Rightarrow> 'l drv \<Rightarrow> 'l drv option" where
  "drv_step env ie offline call s =
     (case call of
        Request op at \<Rightarrow> map_option (\<lambda>(_, _, s1). s1) (xnl_doit env ie op at s)
      | Pim_Ioctl cmd \<Rightarrow> map_option snd (kaim_if_cdev_ioctl (dev_env env) cmd s)
      | Reset d \<Rightarrow> if d < length (xpdev_list s) then qdma_reset_prepare (dev_env env) offline d s else Some s)"

fun drv_run :: "'l srv_env \<Rightarrow> 'l info_env \<Rightarrow> 'l reset_env \<Rightarrow> drv_call list \<Rightarrow> 'l drv \<Rightarrow> 'l drv option" where
  "drv_run env ie offline [] s = Some s"
| "drv_run env ie offline (c # cs) s = (case drv_step env ie offline c s of None \<Rightarrow> None | Some s1 \<Rightarrow> drv_run env ie offline cs s1)"

text \<open>One direction at a time: the type of a queue the interface device adds or deletes is one of the three.\<close>

definition one_direction :: "drv_call \<Rightarrow> bool" where
  "one_direction call =
     (case call of
        Pim_Ioctl (QUEUE_ADD p) \<Rightarrow> aim_type p < 3
      | Pim_Ioctl (QUEUE_DELETE p) \<Rightarrow> aim_type p < 3
      | _ \<Rightarrow> True)"

definition tame :: "drv_call \<Rightarrow> bool" where
  "tame call \<longleftrightarrow> one_direction call \<and> (case call of Request op at \<Rightarrow> answerable op at | _ \<Rightarrow> True)"

definition fresh_tables :: "'l drv \<Rightarrow> bool" where
  "fresh_tables s \<longleftrightarrow> (\<forall>c. cdevs s c = None) \<and> (\<forall>x \<in> set (xpdev_list s). qdata x = replicate (3 * qmax x) no_qdata)"

lemma type_small: "w < 3 \<Longrightarrow> unat (take_bit 2 w) < 3" "w < 3 \<Longrightarrow> unat (take_bit 8 w) < 3" for w :: u32
  by (simp_all add: word_less_nat_alt take_bit_eq_mod unat_mod)

lemma ioctl_inv:
  assumes "cdev_inv s" "one_direction (Pim_Ioctl cmd)"
  shows "\<exists>rv s'. kaim_if_cdev_ioctl env cmd s = Some (rv, s') \<and> cdev_inv s'"
proof -
  have card: "\<exists>rv s'. on_card bd act s = Some (rv, s') \<and> cdev_inv s'"
    if "\<And>d. d < length (xpdev_list s) \<Longrightarrow> \<exists>rv s'. act d = Some (rv, s') \<and> cdev_inv s'" for bd act
    using that find_by_idx_less [of bd s] assms(1) by (auto simp: on_card_def split: option.split)
  have start: "\<exists>rv s'. on_queue d it (aim_start env p) s = (rv, s') \<and> cdev_inv s'" for d it p
    using assms(1) by (auto simp: on_queue_def aim_start_def Let_def split: option.split prod.split)
  have stop: "\<exists>rv s'. on_queue d it (aim_stop env) s = (rv, s') \<and> cdev_inv s'" for d it
    using assms(1) by (auto simp: on_queue_def aim_stop_def Let_def split: option.split prod.split)
  show ?thesis
  proof (cases cmd)
    case (QUEUE_ADD p)
    then have "q_type (aim_conf p) < 3" using assms(2) type_small(1) by (simp add: one_direction_def aim_conf_def)
    then have "\<exists>rv i s'. xpdev_queue_add env d (aim_conf p) s = Some (rv, i, s') \<and> cdev_inv s'" if "d < length (xpdev_list s)" for d
      using queue_add_inv [OF assms(1) that] by blast
    then show ?thesis unfolding kaim_if_cdev_ioctl_def QUEUE_ADD aim_cmd.case by (intro card) fastforce
  next
    case (QUEUE_DELETE p)
    then have "snd (aim_slot p) < 3" using assms(2) type_small(2) by (simp add: one_direction_def aim_slot_def)
    then show ?thesis
      unfolding kaim_if_cdev_ioctl_def QUEUE_DELETE aim_cmd.case using queue_delete_inv [OF assms(1)] by (intro card) blast
  next
    case (QUEUE_START p)
    then show ?thesis unfolding kaim_if_cdev_ioctl_def QUEUE_START aim_cmd.case using start by (intro card) simp
  next
    case (QUEUE_STOP p)
    then show ?thesis unfolding kaim_if_cdev_ioctl_def QUEUE_STOP aim_cmd.case using stop by (intro card) simp
  qed (use assms(1) in \<open>auto simp: kaim_if_cdev_ioctl_def intro!: card\<close>)
qed

lemma drv_step_inv:
  assumes "cdev_inv s" "tame c"
  shows "\<exists>s'. drv_step env ie offline c s = Some s' \<and> cdev_inv s'"
proof (cases c)
  case (Request op at)
  then show ?thesis using xnl_doit_inv [OF assms(1), of op at env ie] assms(2) by (auto simp: drv_step_def keeps_def tame_def)
next
  case (Pim_Ioctl cmd)
  then show ?thesis using ioctl_inv [OF assms(1), of cmd "dev_env env"] assms(2) by (auto simp: drv_step_def tame_def)
next
  case (Reset d)
  then show ?thesis using reset_inv [OF assms(1), of d "dev_env env" offline] assms(1) by (auto simp: drv_step_def)
qed

lemma fresh_none:
  assumes "fresh_tables s"
  shows "\<not> refers s d i t c"
proof
  assume r: "refers s d i t c"
  let ?x = "xpdev_list s ! d"
  have "qdata ?x = replicate (3 * qmax ?x) no_qdata" using assms r by (simp add: fresh_tables_def refers_def)
  moreover have "i + t * qmax ?x < 3 * qmax ?x" using r refers_t [OF r] by (auto simp: refers_def)
  ultimately show False using r by (simp add: refers_def no_qdata_def)
qed

lemma fresh_inv:
  assumes "fresh_tables s"
  shows "cdev_inv s"
proof (rule cdev_invI)
  show "tables_ok s" using assms by (simp add: fresh_tables_def tables_ok_def)
  show "c < cdev_next s" if "cdevs s c = Some cd" for c cd using assms that by (simp add: fresh_tables_def)
qed (use fresh_none [OF assms] in blast)+

lemma drv_run_inv:
  assumes "cdev_inv s" "\<forall>c \<in> set cs. tame c"
  shows "\<exists>s'. drv_run env ie offline cs s = Some s' \<and> cdev_inv s'"
  using assms
proof (induction cs arbitrary: s)
  case (Cons c cs)
  then obtain s1 where "drv_step env ie offline c s = Some s1" "cdev_inv s1"
    using drv_step_inv [of s c env ie offline] by auto
  then show ?case using Cons by simp
qed simp

end
