(* ===== verification/Xnl_Faults.thy ===== *)
theory Xnl_Faults
  imports Xnl_Link
begin

text \<open>
  Two ways a command fails although the socket works: a reply longer than the room for it, after whose
  cut the walk finds nothing but zeros and does not move on, and a request longer than its buffer.
\<close>

lemma recv_attrs_stuck:
  assumes "0 < m" "p + 4 \<le> length buf" "get16 p buf = 0" "get16 (p + 2) buf = 0" "d \<longrightarrow> 0 \<in> set (drop (p + 4) buf)"
  shows "recv_attrs d buf p m vs ts = None"
proof (rule ccontr)
  assume "recv_attrs d buf p m vs ts \<noteq> None"
  then obtain r where r: "recv_attrs d buf p m vs ts = Some r" by blast
  have "(d0, b0, p0, m0) \<noteq> (d, buf, p, m)" if "recv_attrs d0 b0 p0 m0 vs ts = Some r" for d0 b0 p0 m0 vs ts r
  proof (rule recv_attrs.raw_induct [OF _ that, of "\<lambda>d0 b0 p0 m0 vs ts r. (d0, b0, p0, m0) \<noteq> (d, buf, p, m)"])
    fix f d0 b0 p0 m0 vs ts r
    assume IH: "\<And>d0 b0 p0 m0 vs ts r. f d0 b0 p0 m0 vs ts = Some r \<Longrightarrow> (d0, b0, p0, m0) \<noteq> (d, buf, p, m)"
      and body: "(if m0 \<le> 0 then Some (Inr (0, vs, ts))
        else if length b0 < p0 + 4 then Some (Inl Overrun)
        else let l = nla_align (get16 p0 b0); t = unat (get16 (p0 + 2) b0); body = drop (p0 + 4) b0
             in if 72 \<le> t then Some (Inr (- 22, vs, ts))
                else if t = attr_no XNL_ATTR_GENMSG
                then (if d0 \<and> 0 \<notin> set body then Some (Inl Overrun)
                      else f d0 b0 (p0 + l) (m0 - int l) vs (if d0 then ts @ [takeWhile (\<lambda>b. b \<noteq> 0) body] else ts))
                else if length b0 < p0 + 8 then Some (Inl Overrun)
                else f d0 b0 (p0 + l) (m0 - int l) (vs[t := get32 (p0 + 4) b0]) ts) = Some r"
    show "(d0, b0, p0, m0) \<noteq> (d, buf, p, m)"
    proof
      assume e: "(d0, b0, p0, m0) = (d, buf, p, m)"
      have "nla_align 0 = 0" by (simp add: nla_align_def)
      then have "\<exists>ts'. f d buf p m vs ts' = Some r" using body e assms by (simp add: Let_def split: if_splits; blast)
      then show False using IH by blast
    qed
  qed
  then show False using r by blast
qed

lemma recv_attrs_zeros:
  assumes "0 < m"
  shows "recv_attrs d (pre @ replicate 20 0) (length pre) m vs ts = None"
proof (rule recv_attrs_stuck)
  have z: "le_word (replicate 2 0) = (0 :: u16)" by (simp add: numeral_2_eq_2)
  show "get16 (length pre) (pre @ replicate 20 0) = 0" by (simp add: get16_def z)
  show "get16 (length pre + 2) (pre @ replicate 20 0) = 0" by (simp add: get16_def z)
qed (use assms in auto)

lemma sint_of_nat32: "n < 2 ^ 31 \<Longrightarrow> sint (of_nat n :: u32) = int n"
  by (simp add: sint_uint uint_nat unat_of_nat signed_take_bit_int_eq_self_iff)

lemma reply_cut_at_attribute:
  assumes "link_ok env view fam serve" "fam (vf c) = Some f" "f \<noteq> 2"
    and "dlen = unat (get_cmd_resp_buf_len (xop c) (req c))" "120 \<le> dlen" "dlen < 2 ^ 31"
    and "serve (vf c) (nl_seq env + 1) (xop c) (cmd_attrs c) (fst (view k)) = (wire_reply seq op f (rs @ rest) # ms, d)"
    and "\<forall>a \<in> set rs. attr_ok a" "20 + length (enc_all rs) = dlen" "rest \<noteq> []"
    and "length (enc_all (rs @ rest)) < 2 ^ 31"
  shows "xnl_common_msg_send env c attrs k = Inl Endless"
proof -
  let ?m = "wire_reply seq op f (rs @ rest)" and ?L = "length (enc_all (rs @ rest))"
  let ?hd = "le 4 (of_nat (20 + ?L) :: u32) @ le 2 f @ nl_head 0 seq 0 (op_no op) 0"
  let ?buf = "?hd @ enc_all rs @ replicate 20 0"
  have cut: "take dlen ?m = ?hd @ enc_all rs"
    using assms(9) by (auto simp: wire_reply_def)
  have "\<exists>k'. fst (view k') = d \<and> xnl_common_msg_send env c attrs k
    = (case recv_nl_msg (dumps c) ?buf attrs of
         Inl cr \<Rightarrow> Inl cr
       | Inr (rv, vs, texts) \<Rightarrow> Inr ((rv, if rv < 0 then c else xnl_parse_cmd_attrs ?buf vs c, vs, texts), k'))"
  proof (intro exchange_raw [OF assms(1,2,4-7)])
    show "20 < length ?m" using enc_all_pos [of "rs @ rest"] assms(10) by (simp add: length_wire_reply)
    show "get16 4 (take dlen ?m) \<noteq> 2" using wire_reply_type [of dlen seq op f "rs @ rest"] assms(3,5) by simp
    show "?buf = take dlen ?m @ replicate (20 + dlen - length (take dlen ?m)) 0"
      unfolding cut using assms(9) by simp
  qed
  moreover have "recv_nl_msg (dumps c) ?buf attrs = Inl Endless"
  proof -
    have pos: "0 < length (enc_all rest)" using enc_all_pos assms(10) by blast
    have "sint (of_nat ?L :: u32) = int ?L"
      using assms(11) sint_of_nat32 by blast
    moreover have "get32 0 ?buf - 20 = of_nat ?L"
      by (simp only: append_assoc get32_0 of_nat_add of_nat_numeral) simp
    moreover have "int ?L = int (length (enc_all rs)) + int (length (enc_all rest))"
      by (simp only: enc_all_simps length_append of_nat_add)
    ultimately have "sint (get32 0 ?buf - 20) = int (length (enc_all rs)) + int (length (enc_all rest))" by (simp only:)
    moreover have "recv_attrs (dumps c) (?hd @ enc_all rs @ replicate 20 0) (length ?hd)
          (int (length (enc_all rs)) + int (length (enc_all rest))) attrs []
        = recv_attrs (dumps c) (?hd @ enc_all rs @ replicate 20 0) (length ?hd + length (enc_all rs)) (int (length (enc_all rest)))
          (fold upd_attr rs attrs) (if dumps c then [] @ concat (map text_of rs) else [])"
      by (rule recv_attrs_all [OF assms(8)]) simp
    moreover have "recv_attrs (dumps c) (?hd @ enc_all rs @ replicate 20 0) (length ?hd + length (enc_all rs))
        (int (length (enc_all rest))) vs ts = None" for vs ts
      using recv_attrs_zeros [of "int (length (enc_all rest))" "dumps c" "?hd @ enc_all rs" vs ts] pos
      by (simp only: append_assoc length_append add.assoc of_nat_0_less_iff)
    moreover have "length ?hd = 20" by simp
    ultimately show ?thesis unfolding recv_nl_msg_def by (simp only: append_assoc option.case)
  qed
  ultimately show ?thesis by auto
qed

text \<open>The attributes of a request stop fitting where the room is less than they need.\<close>

lemma add_attrs_overrun:
  assumes "length mid + 4 = p" "length rest < 8 * length as" "p + length rest < 2 ^ 32"
  shows "add_attrs as (le 4 (of_nat p :: u32) @ mid @ rest) = Inl Overrun"
  using assms
proof (induction as arbitrary: p mid rest)
  case (Cons a as)
  obtain t v where a: "a = (t, v)" by fastforce
  have p: "unat (of_nat p :: u32) = p" using Cons.prems by (simp add: unat_of_nat)
  show ?case
  proof (cases "length rest < 8")
    case True
    then show ?thesis using a p Cons.prems(1) by (simp add: xnl_msg_add_int_attr_def Let_def)
  next
    case False
    then have "xnl_msg_add_int_attr t v (le 4 (of_nat p :: u32) @ mid @ take 8 rest @ drop 8 rest)
        = Inr (le 4 (of_nat (p + 8) :: u32) @ mid @ enc (Num t v) @ drop 8 rest)"
      using Cons.prems by (intro xnl_msg_add_int_attr_at) auto
    moreover have "add_attrs as (le 4 (of_nat (p + 8) :: u32) @ (mid @ enc (Num t v)) @ drop 8 rest) = Inl Overrun"
      using Cons.prems False by (intro Cons.IH) auto
    ultimately show ?thesis using a by simp
  qed
qed simp

lemma request_overruns:
  assumes "link_ok env view fam serve" "fam (vf c) = Some f"
    and "dlen = unat (get_cmd_resp_buf_len (xop c) (req c))" "0 < dlen" "dlen < 8 * length (cmd_attrs c)"
  shows "xnl_common_msg_send env c attrs k = Inl Overrun"
proof -
  note L = link_okD [OF assms(1)]
  let ?dlen = "get_cmd_resp_buf_len (xop c) (req c)"
  have size: "xnl_msg_size ?dlen = 20 + dlen" using assms(3,4) by (auto simp: xnl_msg_size_def)
  obtain k1 where k1: "xnl_connect env (vf c) k = Inr (0, f, k1)" using connect_link [OF assms(1,2)] by blast
  have "dlen < 120" using assms(5) length_op_attrs [of "xop c" "req c" ?dlen] by (simp add: cmd_attrs_def)
  then have "add_attrs (cmd_attrs c) (xnl_msg_set_hdr (nl_pid env) f (xop c) (replicate (20 + dlen) 0)) = Inl Overrun"
    using add_attrs_overrun [of "le 2 f @ le 2 (1 :: u16) @ replicate 4 0 @ le 4 (nl_pid env) @ [of_nat (op_no (xop c)), 0, 0, 0]"
        20 "replicate dlen 0" "cmd_attrs c"] assms(5)
    unfolding xnl_msg_set_hdr_eq by simp
  then have "xnl_send_cmd env (nl_seq env + 1) (xnl_msg_set_hdr (nl_pid env) f (xop c) (replicate (20 + dlen) 0)) c ?dlen k1
      = Inl Overrun"
    by (simp add: xnl_send_cmd_def cmd_attrs_def)
  then show ?thesis using k1 L(1) size by (simp add: xnl_common_msg_send_def Let_def)
qed

end
