(* ===== verification/Xnl_Sim.thy ===== *)
theory Xnl_Sim
  imports Xnl_Link
begin

text \<open>
  A socket that behaves as \<open>link_ok\<close> asks: its state is the driver's and the messages that wait. It takes
  a request apart and hands it to the driver. Theorems over \<open>link_ok\<close> are applied to it.
\<close>

definition all_attrs :: "xnl_attr_t list" where
  "all_attrs =
    [XNL_ATTR_GENMSG, XNL_ATTR_DRV_INFO, XNL_ATTR_DEV_IDX, XNL_ATTR_PCI_BUS, XNL_ATTR_PCI_DEV,
     XNL_ATTR_PCI_FUNC, XNL_ATTR_DEV_STAT_MMH2C_PKTS1, XNL_ATTR_DEV_STAT_MMH2C_PKTS2,
     XNL_ATTR_DEV_STAT_MMC2H_PKTS1, XNL_ATTR_DEV_STAT_MMC2H_PKTS2, XNL_ATTR_DEV_STAT_STH2C_PKTS1,
     XNL_ATTR_DEV_STAT_STH2C_PKTS2, XNL_ATTR_DEV_STAT_STC2H_PKTS1, XNL_ATTR_DEV_STAT_STC2H_PKTS2,
     XNL_ATTR_DEV_CFG_BAR, XNL_ATTR_DEV_USR_BAR, XNL_ATTR_DEV_QSET_MAX, XNL_ATTR_DEV_QSET_QBASE,
     XNL_ATTR_VERSION_INFO, XNL_ATTR_DEVICE_TYPE, XNL_ATTR_IP_TYPE, XNL_ATTR_DEV_NUMQS,
     XNL_ATTR_DEV_NUM_PFS, XNL_ATTR_DEV_MM_CHANNEL_MAX, XNL_ATTR_DEV_MAILBOX_ENABLE,
     XNL_ATTR_DEV_FLR_PRESENT, XNL_ATTR_DEV_ST_ENABLE, XNL_ATTR_DEV_MM_ENABLE,
     XNL_ATTR_DEV_MM_CMPT_ENABLE, XNL_ATTR_REG_BAR_NUM, XNL_ATTR_REG_ADDR, XNL_ATTR_REG_VAL,
     XNL_ATTR_CSR_INDEX, XNL_ATTR_CSR_COUNT, XNL_ATTR_QIDX, XNL_ATTR_NUM_Q, XNL_ATTR_QFLAG,
     XNL_ATTR_CMPT_DESC_SIZE, XNL_ATTR_SW_DESC_SIZE, XNL_ATTR_QRNGSZ_IDX, XNL_ATTR_C2H_BUFSZ_IDX,
     XNL_ATTR_CMPT_TIMER_IDX, XNL_ATTR_CMPT_CNTR_IDX, XNL_ATTR_CMPT_TRIG_MODE, XNL_ATTR_MM_CHANNEL,
     XNL_ATTR_CMPT_ENTRIES_CNT, XNL_ATTR_RANGE_START, XNL_ATTR_RANGE_END, XNL_ATTR_INTR_VECTOR_IDX,
     XNL_ATTR_INTR_VECTOR_START_IDX, XNL_ATTR_INTR_VECTOR_END_IDX, XNL_ATTR_RSP_BUF_LEN,
     XNL_ATTR_GLOBAL_CSR, XNL_ATTR_PIPE_GL_MAX, XNL_ATTR_PIPE_FLOW_ID, XNL_ATTR_PIPE_SLR_ID,
     XNL_ATTR_PIPE_TDEST, XNL_ATTR_DEV_STM_BAR, XNL_ATTR_Q_STATE, XNL_ATTR_ERROR,
     XNL_ATTR_PING_PONG_EN, XNL_ATTR_APERTURE_SZ, XNL_ATTR_DEV_STAT_PING_PONG_LATMIN1,
     XNL_ATTR_DEV_STAT_PING_PONG_LATMIN2, XNL_ATTR_DEV_STAT_PING_PONG_LATMAX1,
     XNL_ATTR_DEV_STAT_PING_PONG_LATMAX2, XNL_ATTR_DEV_STAT_PING_PONG_LATAVG1,
     XNL_ATTR_DEV_STAT_PING_PONG_LATAVG2, XNL_ATTR_DEV, XNL_ATTR_DEBUG_EN,
     XNL_ATTR_DESC_ENGINE_MODE, XNL_ATTR_NUM_REGS]"

definition all_ops :: "xnl_op_t list" where
  "all_ops =
    [XNL_CMD_DEV_LIST, XNL_CMD_DEV_INFO, XNL_CMD_DEV_STAT, XNL_CMD_DEV_STAT_CLEAR, XNL_CMD_REG_DUMP,
     XNL_CMD_REG_RD, XNL_CMD_REG_WRT, XNL_CMD_REG_INFO_READ, XNL_CMD_Q_LIST, XNL_CMD_Q_ADD,
     XNL_CMD_Q_START, XNL_CMD_Q_STOP, XNL_CMD_Q_DEL, XNL_CMD_Q_DUMP, XNL_CMD_Q_DESC, XNL_CMD_Q_CMPT,
     XNL_CMD_Q_RX_PKT, XNL_CMD_Q_CMPT_READ, XNL_CMD_INTR_RING_DUMP, XNL_CMD_Q_UDD,
     XNL_CMD_GLOBAL_CSR, XNL_CMD_DEV_CAP, XNL_CMD_GET_Q_STATE]"

fun attrs_of :: "byte list \<Rightarrow> (xnl_attr_t \<times> u32) list" where
  "attrs_of bs = (if length bs < 8 then [] else (all_attrs ! unat (get16 2 bs), get32 4 bs) # attrs_of (drop 8 bs))"

declare attrs_of.simps [simp del]

lemma all_attrs_at [simp]: "all_attrs ! attr_no t = t"
  by (cases t) (simp_all add: all_attrs_def)

lemma all_ops_at [simp]: "all_ops ! op_no t = t"
  by (cases t) (simp_all add: all_ops_def)

lemma attrs_of_enc: "attrs_of (enc_all (nums as)) = as"
proof (induction as)
  case (Cons a as)
  obtain t v where a: "a = (t, v)" by fastforce
  have "get16 2 (enc (Num t v) @ r) = of_nat (attr_no t)" for r
    using get16_at [of "le 2 (8 :: u16)" _ "le 4 v @ r"] by simp
  moreover have "get32 4 (enc (Num t v) @ r) = v" for r
    using get32_at [of "le 2 (8 :: u16) @ le 2 (of_nat (attr_no t) :: u16)" v r] by simp
  ultimately show ?case
    using Cons a by (subst attrs_of.simps) (simp add: nums_def del: enc.simps)
qed (simp add: attrs_of.simps nums_def)

type_synonym 'd sim = "'d \<times> byte list list"

definition sim_sendto :: "(bool \<Rightarrow> u16 option) \<Rightarrow> (bool \<Rightarrow> u32 \<Rightarrow> xnl_op_t \<Rightarrow> (xnl_attr_t \<times> u32) list \<Rightarrow> 'd \<Rightarrow> byte list list \<times> 'd)
    \<Rightarrow> byte list \<Rightarrow> 'd sim \<Rightarrow> int \<times> 'd sim" where
  "sim_sendto fam serve m k =
     (int (length m),
      if get16 4 m = 16
      then (case fam (m ! 28 = 0x76) of None \<Rightarrow> k | Some f \<Rightarrow> (fst k, snd k @ [family_reply (get32 8 m) 1 (m ! 28 = 0x76) f []]))
      else (case serve (fam True = Some (get16 4 m)) (get32 8 m) (all_ops ! unat (m ! 16)) (attrs_of (drop 20 m)) (fst k) of
              (ms, d) \<Rightarrow> (d, snd k @ ms)))"

definition sim_env :: "(bool \<Rightarrow> u16 option) \<Rightarrow> (bool \<Rightarrow> u32 \<Rightarrow> xnl_op_t \<Rightarrow> (xnl_attr_t \<times> u32) list \<Rightarrow> 'd \<Rightarrow> byte list list \<times> 'd)
    \<Rightarrow> 'd sim nl_env" where
  "sim_env fam serve = \<lparr>
     nl_alloc = (\<lambda>n k. (True, k)),
     nl_socket = (\<lambda>k. (3, (fst k, []))),
     nl_bind = (\<lambda>k. (0, k)),
     nl_sendto = sim_sendto fam serve,
     nl_recv = (\<lambda>n k. case snd k of [] \<Rightarrow> ((- 1, []), k) | m # ms \<Rightarrow> ((int (min n (length m)), take n m), (fst k, ms))),
     nl_close = (\<lambda>k. k), nl_pid = 1, nl_seq = 0, nl_garbage = 0\<rparr>"

lemma link_ok_sim:
  assumes "fam False = Some f" "fam True \<noteq> Some f" "fam True \<noteq> Some 16" "f \<noteq> 16"
  shows "link_ok (sim_env fam serve) (\<lambda>k. k) fam serve"
proof -
  have f: "fw \<noteq> 16" "(fam True = Some fw) = v" if "fam v = Some fw" for v fw
    using that assms by (cases v; auto)+
  have family: "sim_sendto fam serve (family_wire seq pid v) k = (32, fst k, snd k @ [family_reply seq 1 v fw []])" if "fam v = Some fw" for seq pid v k fw
  proof -
    have "get16 4 (family_wire seq pid v) = 16" by (simp add: family_wire_def get16_def)
    moreover have "family_wire seq pid v ! 28 = (if v then 0x76 else 0x70)"
      by (simp add: family_wire_def family_name_def nth_append)
    moreover have "get32 8 (family_wire seq pid v) = seq"
      using get32_at [of "le 4 (32 :: u32) @ le 2 (16 :: u16) @ le 2 (1 :: u16)" seq] by (simp add: family_wire_def)
    moreover have "length (family_wire seq pid v) = 32" by (simp add: family_wire_def)
    ultimately show ?thesis using that by (cases v) (simp_all add: sim_sendto_def)
  qed
  have request: "sim_sendto fam serve (wire_request fw seq pid op as) k
      = (int (20 + 8 * length as), case serve v seq op as (fst k) of (ms, d) \<Rightarrow> (d, snd k @ ms))" if "fam v = Some fw" for v fw seq pid op as k
  proof -
    have "get16 4 (wire_request fw seq pid op as) = fw" by (simp add: wire_request_def get16_def)
    moreover have "get32 8 (wire_request fw seq pid op as) = seq"
      using get32_at [of "le 4 (of_nat (20 + 8 * length as) :: u32) @ le 2 fw @ le 2 (1 :: u16)" seq] by (simp add: wire_request_def)
    moreover have "wire_request fw seq pid op as ! 16 = of_nat (op_no op)"
      by (simp add: wire_request_def nth_append)
    moreover have "unat (of_nat (op_no op) :: byte) = op_no op" by (cases op) simp_all
    moreover have "drop 20 (wire_request fw seq pid op as) = enc_all (nums as)" by (simp add: wire_request_def)
    ultimately show ?thesis
      using f [OF that] by (simp add: sim_sendto_def attrs_of_enc length_wire_request)
  qed
  show ?thesis
    unfolding link_ok_def using family request
    by (auto simp: sim_env_def split: prod.split)
qed

end
