(* ===== verification/Xnl_Props.thy ===== *)
theory Xnl_Props
  imports Queue_Props Queue_Ids Xnl_Safety Xnl_Faults Xnl_Sim
begin

text \<open>
  What holds of the queue set-up from end to end, over any socket that behaves as documented and any
  \<^verbatim>\<open>libqdma\<close>: its normal course, the invariant of the driver's tables, and where errors are lost.
\<close>

section \<open>A machine to try them on\<close>

definition sim_hnd :: "nat \<Rightarrow> nat \<Rightarrow> nat" where
  "sim_hnd t i = 100 + 10 * t + i"

definition sim_lib :: "unit lib_env" where
  "sim_lib = \<lparr>
     l_queue_add = (\<lambda>d conf l. ((0, qidx conf, sim_hnd (q_type conf) (qidx conf)), l)),
     l_queue_remove = (\<lambda>d h l. (0, l)),
     l_queue_get_config = (\<lambda>d h l. (0, conf0)),
     l_queue_config = (\<lambda>d h c l. (0, l)),
     l_queue_start = (\<lambda>d h l. (0, l)),
     l_queue_stop = (\<lambda>d h l. (0, l)),
     l_queue_state = (\<lambda>d h l. (0, \<lparr>qs_state = 0, qs_idx = 0, qs_st = False, qs_type = 0\<rparr>)),
     l_get_config = (\<lambda>d l. (0, \<lparr>qsets_max = 4, qsets_base = 0, bar_num_config = 0, bar_num_user = 2, bar_num_bypass = 4,
        pdev_bus = 1, pdev_slot = 0, pdev_func = 0\<rparr>)),
     l_c2h_buf_sz = (\<lambda>d l. (0, replicate 16 4096)),
     l_qmax = (\<lambda>d l. 4),
     k_alloc = (\<lambda>l. (True, l)),
     k_cdev_add = (\<lambda>m l. (0, l)),
     k_device_create = (\<lambda>m l. (0, l)),
     cdev_minor_cnt = 2048\<rparr>"

definition sim_srv :: "unit srv_env" where
  "sim_srv = \<lparr>dev_env = sim_lib, say = (\<lambda>r. []), describe = (\<lambda>x c. [])\<rparr>"

text \<open>A card that has moved 7 packets to the host and 3 from it.\<close>

definition sim_stats :: dev_stats where
  "sim_stats = \<lparr>mmh2c_pkts = 7, mmc2h_pkts = 3, sth2c_pkts = 0, stc2h_pkts = 2, min_ping_pong_lat = 5, max_ping_pong_lat = 2 ^ 40,
     total_ping_pong_lat = 100\<rparr>"

definition sim_info :: "unit info_env" where
  "sim_info = \<lparr>
     i_version = (\<lambda>h l. (0, \<lparr>rtl_version_str = [], vivado_release_str = [], device_type_str = [], ip_str = []\<rparr>)),
     i_caps = (\<lambda>h l. (0, \<lparr>da_num_pfs = 1, da_num_qs = 4, da_flr_present = False, da_st_en = True, da_mm_en = True,
       da_mm_cmpt_en = False, da_mailbox_en = False, da_debug_mode = False, da_desc_eng_mode = 0, da_mm_channel_max = 1,
       da_raw = [0]\<rparr>)),
     i_stats = (\<lambda>h l. sim_stats), i_clear_stats = (\<lambda>h l. l),
     i_queue_count = (\<lambda>h l. (0, 1, 1)), i_queue_list = (\<lambda>h n l. (0, [])),
     i_reg_dump = (\<lambda>h n l. []), i_reg_info = (\<lambda>h a n m l. []),
     i_queue_dump = (\<lambda>h q l. (0, [])), i_dump_desc = (\<lambda>a b h q l. (0, [])), i_dump_cmpt = (\<lambda>a b h q l. (0, [])),
     i_get_udd = (\<lambda>h q l. (0, [])), i_read_cmpt = (\<lambda>h q l. ((0, []), l)), i_intr_dump = (\<lambda>h v a b l. (0, [])),
     i_csr = (\<lambda>h i n l. (0, [0])), i_read_config = (\<lambda>h r l. ((0, 0), l)), i_write_config = (\<lambda>h r v l. (0, l)),
     i_iomap = (\<lambda>h b l. True), i_readl = (\<lambda>h b r l. (0, l)), i_writel = (\<lambda>h b r v l. l)\<rparr>"

definition sim_drv :: "unit drv" where
  "sim_drv = \<lparr>xpdev_list = [\<lparr>dev_hndl = 1, qmax = 2, idx = 0x1000, qdata = replicate 6 no_qdata\<rparr>],
     cdevs = (\<lambda>c. None), cdev_next = 0, lib = ()\<rparr>"

definition sim_reset :: "unit reset_env" where
  "sim_reset = \<lparr>hard_ip = (\<lambda>h l. True), reset_does = (\<lambda>a h l. l)\<rparr>"

definition sim_fam :: "bool \<Rightarrow> u16 option" where
  "sim_fam v = (if v then None else Some 30)"

definition sim_kernel :: "unit drivers sim nl_env" where
  "sim_kernel = sim_env sim_fam (netlink_serve sim_srv sim_info sim_fam (\<lambda>seq rv. []))"

definition sim_start :: "unit drivers sim" where
  "sim_start = ((\<lambda>v. if v then None else Some sim_drv), [])"

lemma sim_obliging: "obliging sim_lib sim_hnd" "dev_env sim_srv = sim_lib"
  by (simp_all add: obliging_def sim_lib_def sim_srv_def)

lemma sim_texts: "texts_ok sim_srv"
  by (simp add: texts_ok_def sim_srv_def)

lemma sim_link: "link_ok sim_kernel (\<lambda>k. k) sim_fam (netlink_serve sim_srv sim_info sim_fam (\<lambda>seq rv. []))"
  unfolding sim_kernel_def by (rule link_ok_sim [of _ 30]) (simp_all add: sim_fam_def)

lemma sim_family: "sim_fam False = Some 30" "(30 :: u16) \<noteq> 2" "fst sim_start False = Some sim_drv"
  by (simp_all add: sim_fam_def sim_start_def)

lemma sim_bdf: "bdf settings 1 0 = 0x1000"
  by (simp add: bdf_def settings_def)

lemma sim_card: "card_at (bdf settings 1 0) 0 sim_drv"
  by (simp add: sim_bdf card_at_def xpdev_find_by_idx_def sim_drv_def)

lemma sim_slots: "slot sim_drv 0 0 = no_qdata" "slot sim_drv 0 1 = no_qdata"
  by (simp_all add: slot_def sim_drv_def)

section \<open>The normal course\<close>




text \<open>The attributes of a message, where each is a number of the interface and they fill it.\<close>

fun typed_attrs :: "byte list \<Rightarrow> (xnl_attr_t \<times> u32) list option" where
  "typed_attrs bs =
     (if bs = [] then Some []
      else if length bs < 8 \<or> get16 0 bs \<noteq> 8 \<or> length all_attrs \<le> unat (get16 2 bs) then None
      else map_option (Cons (all_attrs ! unat (get16 2 bs), get32 4 bs)) (typed_attrs (drop 8 bs)))"

declare typed_attrs.simps [simp del]

lemma attr_no_in_all: "attr_no t < length all_attrs"
  by (cases t) (simp_all add: all_attrs_def)

lemma typed_attrs_enc: "typed_attrs (enc_all (nums as)) = Some as"
proof (induction as)
  case (Cons a as)
  obtain t v where a: "a = (t, v)" by fastforce
  have "get16 0 (enc (Num t v) @ r) = 8" for r
    using get16_at [of "[]" 8 "le 2 (of_nat (attr_no t) :: u16) @ le 4 v @ r"] by simp
  moreover have "get16 2 (enc (Num t v) @ r) = of_nat (attr_no t)" for r
    using get16_at [of "le 2 (8 :: u16)" _ "le 4 v @ r"] by simp
  moreover have "get32 4 (enc (Num t v) @ r) = v" for r
    using get32_at [of "le 2 (8 :: u16) @ le 2 (of_nat (attr_no t) :: u16)" v r] by simp
  moreover have "enc (Num t v) \<noteq> []" by (simp add: le_def)
  ultimately show ?case
    using Cons a attr_no_in_all [of t] by (subst typed_attrs.simps) (simp add: nums_def del: enc.simps)
qed (simp add: typed_attrs.simps nums_def)

text \<open>Claim C12: where the buffer has room for the attributes, what a command hands to the kernel is a
  well-formed message of the family: the length field is its number of bytes, the header names the family,
  the sequence number, the process and the operation, and its attributes are numbers of the interface that
  fill it and read back as those of the command.\<close>

theorem requests_are_well_formed:
  assumes "dlen = get_cmd_resp_buf_len (xop c) (req c)" "8 * length (cmd_attrs c) \<le> unat dlen" "unat dlen < 2 ^ 31"
  shows "\<exists>m. xnl_send_cmd env seq (xnl_msg_set_hdr pid fam (xop c) (replicate (xnl_msg_size dlen) 0)) c dlen k
      = Inr (case nl_sendto env m k of (rv, k1) \<Rightarrow>
          (if rv \<noteq> int (length m) then - 1 else 0, m @ replicate (xnl_msg_size dlen - length m) 0, k1))
    \<and> unat (get32 0 m) = length m \<and> get16 4 m = fam \<and> get32 8 m = seq \<and> get32 12 m = pid
    \<and> m ! 16 = of_nat (op_no (xop c)) \<and> typed_attrs (drop 20 m) = Some (cmd_attrs c)"
proof -
  let ?n = "length (cmd_attrs c)"
  let ?m = "wire_request fam seq pid (xop c) (cmd_attrs c)" and ?h = "le 4 (of_nat (20 + 8 * ?n) :: u32)"
  have "dlen \<noteq> 0" using assms(2) by (auto simp: cmd_attrs_def)
  then have size: "xnl_msg_size dlen = 20 + unat dlen" by (simp add: xnl_msg_size_def)
  have len: "length ?m = 20 + 8 * ?n" by (rule length_wire_request)
  have "unat (of_nat (20 + 8 * ?n) :: u32) = 20 + 8 * ?n"
    using assms(2,3) by (simp only: unat_of_nat) simp
  then have "unat (get32 0 ?m) = length ?m" using len by (simp add: wire_request_def)
  moreover have "get16 4 ?m = fam" using get16_at [of ?h fam] by (simp add: wire_request_def)
  moreover have "get32 8 ?m = seq" using get32_at [of "?h @ le 2 fam @ le 2 (1 :: u16)" seq] by (simp add: wire_request_def)
  moreover have "get32 12 ?m = pid"
    using get32_at [of "?h @ le 2 fam @ le 2 (1 :: u16) @ le 4 seq" pid] by (simp add: wire_request_def)
  moreover have "?m ! 16 = of_nat (op_no (xop c))" by (simp add: wire_request_def nth_append)
  moreover have "typed_attrs (drop 20 ?m) = Some (cmd_attrs c)" by (simp add: wire_request_def typed_attrs_enc)
  moreover have "xnl_send_cmd env seq (xnl_msg_set_hdr pid fam (xop c) (replicate (xnl_msg_size dlen) 0)) c dlen k
      = Inr (case nl_sendto env ?m k of (rv, k1) \<Rightarrow>
          (if rv \<noteq> int (length ?m) then - 1 else 0, ?m @ replicate (xnl_msg_size dlen - length ?m) 0, k1))"
    using xnl_send_cmd_eq [of "cmd_attrs c" c dlen "unat dlen" env seq pid fam k] assms(2,3) unfolding size len
    by (simp only: assms(1) cmd_attrs_def diff_cancel2 add_diff_cancel_left)
  ultimately show ?thesis by blast
qed

theorem requests_are_well_formed_witness:
  "\<exists>m. xnl_send_cmd sim_kernel 7 (xnl_msg_set_hdr 9 30 XNL_CMD_Q_STOP (replicate 20500 0)) (no_cmd\<lparr>xop := XNL_CMD_Q_STOP\<rparr>) 20480 sim_start
      = Inr (case nl_sendto sim_kernel m sim_start of (rv, k1) \<Rightarrow>
          (if rv \<noteq> int (length m) then - 1 else 0, m @ replicate (20500 - length m) 0, k1))
    \<and> unat (get32 0 m) = length m \<and> get16 4 m = 30 \<and> get32 8 m = 7 \<and> get32 12 m = 9
    \<and> m ! 16 = of_nat (op_no XNL_CMD_Q_STOP)
    \<and> typed_attrs (drop 20 m) = Some (cmd_attrs (no_cmd\<lparr>xop := XNL_CMD_Q_STOP\<rparr>))"
  using requests_are_well_formed [of 20480 "no_cmd\<lparr>xop := XNL_CMD_Q_STOP\<rparr>" sim_kernel 7 9 30 sim_start]
    length_op_attrs [of XNL_CMD_Q_STOP "req no_cmd"]
  by (simp add: no_cmd_def cmd_attrs_def get_cmd_resp_buf_len_def XNL_RESP_BUFLEN_MAX_def xnl_msg_size_def op_attrs_def queue_attrs_def)

text \<open>Claim C3: over a socket that behaves as documented, with a \<^verbatim>\<open>libqdma\<close> and a kernel that grant what
  they are asked for, setting up the queues of a card whose queue 0 has no device in either direction
  reports two queues, and in the driver's table both directions of queue 0 hold the handles they got and
  share one new character device that knows them both.\<close>

theorem queues_set_up:
  assumes "link_ok env view fam (netlink_serve senv ie fam err)" "fam False = Some f" "f \<noteq> 2" "texts_ok senv"
    and "obliging (dev_env senv) hnd" "fst (view k) False = Some s" "card_at (bdf settings bus 0) d s"
    and "xcdev (slot s d 0) = None" "xcdev (slot s d 1) = None"
  shows "\<exists>k' qs s' m. qdma_setup_queues env settings bus k = Inr (2, Some qs, k')
    \<and> map (\<lambda>q. (q_qid q, q_io q)) qs = [(0, DMAXFER_IO_WRITE), (0, DMAXFER_IO_READ)]
    \<and> fst (view k') False = Some s'
    \<and> slot s' d 0 = \<lparr>qhndl = hnd 0 0, xcdev = Some (cdev_next s)\<rparr>
    \<and> slot s' d 1 = \<lparr>qhndl = hnd 1 0, xcdev = Some (cdev_next s)\<rparr>
    \<and> cdevs s' = (cdevs s)(cdev_next s \<mapsto> \<lparr>minor = m, c2h_qhndl = hnd 1 0, h2c_qhndl = hnd 0 0, dir_init = 3\<rparr>)"
proof -
  obtain k' n1 n2 m l where k': "qdma_setup_queues env settings bus k = Inr (2, Some
      [\<lparr>q_name = n1, q_qid = 0, q_pf = 0, q_io = DMAXFER_IO_WRITE\<rparr>, \<lparr>q_name = n2, q_qid = 0, q_pf = 0, q_io = DMAXFER_IO_READ\<rparr>], k')"
      "fst (view k') False = Some (two_sided d (hnd 0 0) (hnd 1 0) m l s)"
    using setup_ok [OF assms] by blast
  have "slot (two_sided d (hnd 0 0) (hnd 1 0) m l s) d 0 = \<lparr>qhndl = hnd 0 0, xcdev = Some (cdev_next s)\<rparr>"
    "slot (two_sided d (hnd 0 0) (hnd 1 0) m l s) d 1 = \<lparr>qhndl = hnd 1 0, xcdev = Some (cdev_next s)\<rparr>"
    "cdevs (two_sided d (hnd 0 0) (hnd 1 0) m l s)
      = (cdevs s)(cdev_next s \<mapsto> \<lparr>minor = m, c2h_qhndl = hnd 1 0, h2c_qhndl = hnd 0 0, dir_init = 3\<rparr>)"
    using assms(7) by (simp_all add: two_sided_def slot_put [of "bdf settings bus 0"])
  then show ?thesis using k' by (intro exI conjI) auto
qed

theorem queues_set_up_witness:
  "\<exists>k' qs s' m. qdma_setup_queues sim_kernel settings 1 sim_start = Inr (2, Some qs, k')
    \<and> map (\<lambda>q. (q_qid q, q_io q)) qs = [(0, DMAXFER_IO_WRITE), (0, DMAXFER_IO_READ)]
    \<and> fst k' False = Some s'
    \<and> slot s' 0 0 = \<lparr>qhndl = sim_hnd 0 0, xcdev = Some (cdev_next sim_drv)\<rparr>
    \<and> slot s' 0 1 = \<lparr>qhndl = sim_hnd 1 0, xcdev = Some (cdev_next sim_drv)\<rparr>
    \<and> cdevs s' = (cdevs sim_drv)(cdev_next sim_drv \<mapsto> \<lparr>minor = m, c2h_qhndl = sim_hnd 1 0, h2c_qhndl = sim_hnd 0 0, dir_init = 3\<rparr>)"
  by (rule queues_set_up [OF sim_link sim_family(1,2) sim_texts _ sim_family(3) sim_card])
    (simp_all add: sim_obliging sim_slots [simplified] no_qdata_def)



text \<open>Claim C22: the bus numbers the library takes from the driver's list of at most ten cards are those of
  the cards, in their order.\<close>

theorem listed_buses_are_the_cards:
  assumes "\<forall>x \<in> set (xpdev_list s). listable env x (lib s)" "length (xpdev_list s) \<le> 10"
    and "fst (xpdev_list_dump env s) < 20480" "length ids = 10" "i < length (xpdev_list s)"
  shows "strtoul16 (extract_qdma_ids (snd (xpdev_list_dump env s)) ids ! i) = drop_bit 12 (idx (xpdev_list s ! i))"
proof -
  have "snd (xpdev_list_dump env s) = concat (map (\<lambda>t. t @ [10]) (card_lines env (xpdev_list s) (lib s)))"
    using list_lines_eq [OF assms(1) list_lines_fits [OF assms(1), of "[]"]] assms(3) by (simp add: xpdev_list_dump_def card_text_def)
  then have "extract_qdma_ids (snd (xpdev_list_dump env s)) ids = extract_lines (card_lines env (xpdev_list s) (lib s)) 0 ids"
    using split_card_lines [OF assms(1)] by (simp add: extract_qdma_ids_def)
  then show ?thesis using extract_card_lines [OF assms(1), of 0 ids] assms(2,4,5) by simp
qed

theorem listed_buses_are_the_cards_witness:
  "strtoul16 (extract_qdma_ids (snd (xpdev_list_dump sim_srv sim_drv)) (replicate 10 []) ! 0) = drop_bit 12 (idx (xpdev_list sim_drv ! 0))"
proof -
  have l: "listable sim_srv x l" if "x \<in> set (xpdev_list sim_drv)" for x l
    using that by (simp add: listable_def sim_srv_def sim_lib_def sim_drv_def)
  have "length (hex5 4096) = 5" by (simp add: hex5_digits)
  then have "fst (xpdev_list_dump sim_srv sim_drv) < 20480"
    by (simp add: xpdev_list_dump_def sim_drv_def sim_srv_def sim_lib_def list_line_def qdma_word_def)
  then show ?thesis using l by (intro listed_buses_are_the_cards) (auto simp: sim_drv_def)
qed

text \<open>A counter of 64 bits that is sent in two words is put together again.\<close>

lemma join_halves: "ucast (ucast w :: u32) OR push_bit 32 (ucast (ucast (drop_bit 32 w) :: u32)) = w" for w :: u64
  by (rule bit_word_eqI) (auto simp: bit_simps)

lemma two_words_halves:
  "vs ! attr_no a = ucast w \<Longrightarrow> vs ! attr_no b = ucast (drop_bit 32 w) \<Longrightarrow> two_words vs a b = w"
  by (simp add: two_words_def join_halves)

definition arrived :: "dev_stats \<Rightarrow> xnl_dev_stat" where
  "arrived n = \<lparr>mm_h2c_pkts = mmh2c_pkts n, mm_c2h_pkts = mmc2h_pkts n, st_h2c_pkts = sth2c_pkts n, st_c2h_pkts = stc2h_pkts n,
     ping_pong_lat_max = max_ping_pong_lat n, ping_pong_lat_min = min_ping_pong_lat n,
     ping_pong_lat_avg = (if stc2h_pkts n = 0 then 0 else total_ping_pong_lat n div stc2h_pkts n)\<rparr>"

lemma stat_attrs_parsed: "xnl_parse_dev_stat_attrs (fold upd_attr (stat_attrs n) no_attrs) = arrived n"
proof -
  let ?vs = "fold upd_attr (stat_attrs n) no_attrs"
  note look = stat_attrs_def halves_def no_attrs_def
  have "two_words ?vs XNL_ATTR_DEV_STAT_MMH2C_PKTS1 XNL_ATTR_DEV_STAT_MMH2C_PKTS2 = mmh2c_pkts n"
    "two_words ?vs XNL_ATTR_DEV_STAT_MMC2H_PKTS1 XNL_ATTR_DEV_STAT_MMC2H_PKTS2 = mmc2h_pkts n"
    "two_words ?vs XNL_ATTR_DEV_STAT_STH2C_PKTS1 XNL_ATTR_DEV_STAT_STH2C_PKTS2 = sth2c_pkts n"
    "two_words ?vs XNL_ATTR_DEV_STAT_STC2H_PKTS1 XNL_ATTR_DEV_STAT_STC2H_PKTS2 = stc2h_pkts n"
    "two_words ?vs XNL_ATTR_DEV_STAT_PING_PONG_LATMAX1 XNL_ATTR_DEV_STAT_PING_PONG_LATMAX2 = max_ping_pong_lat n"
    "two_words ?vs XNL_ATTR_DEV_STAT_PING_PONG_LATMIN1 XNL_ATTR_DEV_STAT_PING_PONG_LATMIN2 = min_ping_pong_lat n"
    "two_words ?vs XNL_ATTR_DEV_STAT_PING_PONG_LATAVG1 XNL_ATTR_DEV_STAT_PING_PONG_LATAVG2 = avg_lat n"
    by (rule two_words_halves; simp add: look)+
  then show ?thesis by (simp add: xnl_parse_dev_stat_attrs_def arrived_def avg_lat_def)
qed

lemma stat_attrs_ok:
  "stat_attrs n \<noteq> []" "\<forall>a \<in> set (stat_attrs n). attr_ok a" "length (enc_all (stat_attrs n)) = 128"
  "fold upd_attr (stat_attrs n) no_attrs ! attr_no XNL_ATTR_ERROR = 0"
  by (simp_all add: stat_attrs_def halves_def no_attrs_def)

text \<open>Claim C36: over a socket that behaves as documented, and where the room the library computes for the
  reply is from 148 bytes to 2 GiB, the statistics of a card arrive as \<^verbatim>\<open>libqdma\<close> counts them, the latency as
  its average over the packets, and asking for them changes nothing in the driver.\<close>

theorem statistics_arrive:
  assumes "link_ok env view fam (netlink_serve senv ie fam err)" "fam (vf c) = Some f" "f \<noteq> 2"
    and "148 \<le> unat (get_cmd_resp_buf_len (xop c) (req c))" "unat (get_cmd_resp_buf_len (xop c) (req c)) < 2 ^ 31"
    and "xop c = XNL_CMD_DEV_STAT" "fst (view k) (vf c) = Some s" "xpdev_find_by_idx (if_bdf c) s = Some d"
  shows "\<exists>k' r. qdma_dev_stat env c k
      = Inr ((nl_garbage env, c\<lparr>resp := Dev_Stat (arrived (i_stats ie (dev_hndl (xpdev_list s ! d)) (lib s)))\<rparr>, r), k')
    \<and> fst (view k') = fst (view k)"
proof -
  let ?n = "i_stats ie (dev_hndl (xpdev_list s ! d)) (lib s)"
  let ?rs = "stat_attrs ?n"
  have serve: "netlink_serve senv ie fam err (vf c) (nl_seq env + 1) (xop c) (cmd_attrs c) (fst (view k))
      = (driver_reply (nl_seq env + 1) (xop c) f ?rs # [], fst (view k))"
    using assms(2,6-8) by (simp add: netlink_serve_def xnl_doit_def xnl_dev_stat_def xnl_rcv_check_xpdev_def cmd_attrs_def op_attrs_def
        hndl_of_def fun_upd_idem)
  obtain k' post where k': "xnl_common_msg_send env c no_attrs k = Inr (answered (driver_reply (nl_seq env + 1) (xop c) f ?rs @ post) ?rs c no_attrs, k')"
      "fst (view k') = fst (view k)"
    using exchange [OF assms(1-3) refl _ assms(5) serve [unfolded driver_reply_def] stat_attrs_ok(1,2), where attrs = no_attrs] assms(4) stat_attrs_ok(3)
    unfolding driver_reply_def by auto
  obtain r where r: "answered (driver_reply (nl_seq env + 1) (xop c) f ?rs @ post) ?rs c no_attrs = (0, c\<lparr>resp := Dev_Stat (arrived ?n)\<rparr>, r)"
    using stat_attrs_ok(4) [of ?n] stat_attrs_parsed [of ?n] by (simp add: answered_def Let_def xnl_parse_cmd_attrs_def assms(6))
  show ?thesis
    using k' unfolding r by (auto simp: qdma_dev_stat_def no_result_def simple_cmd_def)
qed

theorem statistics_arrive_witness:
  "\<exists>k' r. qdma_dev_stat sim_kernel (no_cmd\<lparr>xop := XNL_CMD_DEV_STAT, if_bdf := 0x1000\<rparr>) sim_start
      = Inr ((nl_garbage sim_kernel, no_cmd\<lparr>xop := XNL_CMD_DEV_STAT, if_bdf := 0x1000, resp := Dev_Stat \<lparr>
        mm_h2c_pkts = 7, mm_c2h_pkts = 3, st_h2c_pkts = 0, st_c2h_pkts = 2, ping_pong_lat_max = 2 ^ 40, ping_pong_lat_min = 5,
        ping_pong_lat_avg = 50\<rparr>\<rparr>, r), k')
    \<and> fst k' = fst sim_start"
proof -
  let ?c = "no_cmd\<lparr>xop := XNL_CMD_DEV_STAT, if_bdf := 0x1000\<rparr>"
  have c: "vf ?c = False" "xop ?c = XNL_CMD_DEV_STAT" "if_bdf ?c = 0x1000" by (simp_all add: no_cmd_def)
  have "get_cmd_resp_buf_len (xop ?c) (req ?c) = 20480"
    by (simp add: get_cmd_resp_buf_len_def scale_len_def XNL_RESP_BUFLEN_MAX_def MAX_KMALLOC_SIZE_def no_cmd_def
        XNL_F_QDIR_BOTH_def XNL_F_QDIR_H2C_def XNL_F_QDIR_C2H_def)
  moreover have "xpdev_find_by_idx 0x1000 sim_drv = Some 0" using sim_card sim_bdf by (simp add: card_at_def)
  ultimately show ?thesis
    using statistics_arrive [OF sim_link, of ?c 30 sim_start sim_drv 0] sim_family c
    by (simp add: sim_info_def sim_stats_def arrived_def)
qed

section \<open>The tables\<close>

text \<open>Claim C6: from freshly allocated tables, any sequence of netlink requests, commands of the PIM
  interface device, and resets, with any \<^verbatim>\<open>libqdma\<close>, never touches a character device that is gone, as long
  as the commands name one direction and the requests are complete; every device a table refers to is
  there and has the bit of the direction.\<close>

theorem devices_never_dangle:
  assumes "fresh_tables s" "\<forall>call \<in> set calls. tame call"
  shows "\<exists>s'. drv_run env ie offline calls s = Some s' \<and> cdev_inv s'
    \<and> (\<forall>d i t c. refers s' d i t c \<longrightarrow> (\<exists>cd. cdevs s' c = Some cd \<and> bit (dir_init cd) t))"
proof -
  obtain s' where s': "drv_run env ie offline calls s = Some s'" "cdev_inv s'"
    using drv_run_inv [OF fresh_inv [OF assms(1)] assms(2)] by blast
  then show ?thesis using cdev_invD(2) by blast
qed

definition pim_queue :: "u32 \<Rightarrow> u32 \<Rightarrow> aim_ioctl" where
  "pim_queue t b = \<lparr>aim_qidx = 0, aim_type = t, aim_st = 0, aim_bd = b\<rparr>"

lemma sim_fresh: "fresh_tables sim_drv"
  by (simp add: fresh_tables_def sim_drv_def)

theorem devices_never_dangle_witness:
  "\<exists>s'. drv_run sim_srv sim_info sim_reset [Pim_Ioctl (QUEUE_ADD (pim_queue 0 0x1000)), Reset 0] sim_drv = Some s' \<and> cdev_inv s'
    \<and> (\<forall>d i t c. refers s' d i t c \<longrightarrow> (\<exists>cd. cdevs s' c = Some cd \<and> bit (dir_init cd) t))"
  by (rule devices_never_dangle [OF sim_fresh]) (simp add: tame_def one_direction_def pim_queue_def)


text \<open>What the commands for queue 0 are in the tables.\<close>

lemma pim_add:
  assumes "card_at b d s" "xpdev_queue_add (dev_env env) d (conf0\<lparr>q_type := unat (take_bit 2 t)\<rparr>) s = Some (r, i, s')"
  shows "drv_step env ie offline (Pim_Ioctl (QUEUE_ADD (pim_queue t b))) s = Some s'"
proof -
  have "aim_conf (pim_queue t b) = conf0\<lparr>q_type := unat (take_bit 2 t)\<rparr>"
    by (simp add: aim_conf_def pim_queue_def conf0_def)
  moreover have "xpdev_find_by_idx b s = Some d" "aim_bd (pim_queue t b) = b"
    using assms(1) by (simp_all add: card_at_def pim_queue_def)
  ultimately show ?thesis using assms(2) by (simp add: drv_step_def kaim_if_cdev_ioctl_def on_card_def)
qed

lemma pim_delete:
  assumes "card_at b d s"
  shows "drv_step env ie offline (Pim_Ioctl (QUEUE_DELETE (pim_queue t b))) s
    = map_option snd (xpdev_queue_delete (dev_env env) d 0 (unat (take_bit 8 t)) s)"
  using assms by (simp add: drv_step_def kaim_if_cdev_ioctl_def on_card_def card_at_def aim_slot_def pim_queue_def)




text \<open>The second direction refers to a device that has only the bit of the first: adding and deleting the
  first destroys it.\<close>

lemma half_deleted_dangles:
  assumes "obliging (dev_env env) hnd" "card_at b d s" "slot s d 0 = no_qdata"
    and "xcdev (slot s d 1) = Some c" "cdevs s c = Some cd" "dir_init cd = 1"
  shows "drv_run env ie offline (map Pim_Ioctl [QUEUE_ADD (pim_queue 0 b), QUEUE_DELETE (pim_queue 0 b), QUEUE_DELETE (pim_queue 1 b)]) s = None"
proof -
  let ?e = "dev_env env" and ?cd = "set_hndl 0 (hnd 0 0) cd"
  obtain l1 where s1: "xpdev_queue_add ?e d (conf0\<lparr>q_type := 0\<rparr>) s = Some (0, 0,
      (put_slot d 0 \<lparr>qhndl = hnd 0 0, xcdev = Some c\<rparr> (s\<lparr>lib := l1\<rparr>))\<lparr>cdevs := (cdevs s)(c \<mapsto> ?cd\<lparr>dir_init := 1\<rparr>)\<rparr>)"
    using add_second [OF assms(1,2), of "conf0\<lparr>q_type := 0\<rparr>", OF _ _ _ assms(5)] assms(4,6) by auto
  let ?s1 = "(put_slot d 0 \<lparr>qhndl = hnd 0 0, xcdev = Some c\<rparr> (s\<lparr>lib := l1\<rparr>))\<lparr>cdevs := (cdevs s)(c \<mapsto> ?cd\<lparr>dir_init := 1\<rparr>)\<rparr>"
  have c1: "card_at b d ?s1" "xcdev (slot ?s1 d 0) = Some c" "xcdev (slot ?s1 d 1) = Some c" "cdevs ?s1 c = Some (?cd\<lparr>dir_init := 1\<rparr>)"
    using assms(2,4) by (simp_all add: slot_put [of b])
  obtain l2 where s2: "xpdev_queue_delete ?e d 0 0 ?s1
      = Some (0, put_slot d 0 no_qdata (?s1\<lparr>lib := l2, cdevs := (cdevs ?s1)(c := None)\<rparr>))"
    using delete_0 [OF assms(1) c1(1) _ c1(2,4)] by (auto simp: left_def)
  let ?s2 = "put_slot d 0 no_qdata (?s1\<lparr>lib := l2, cdevs := (cdevs ?s1)(c := None)\<rparr>)"
  have c2: "card_at b d ?s2" "xcdev (slot ?s2 d 1) = Some c" "cdevs ?s2 c = None"
    using assms(2,4) by (simp_all add: slot_put [of b])
  have "drv_run env ie offline (map Pim_Ioctl [QUEUE_DELETE (pim_queue 1 b)]) ?s2 = None"
    using pim_delete [OF c2(1), of env ie offline 1] delete_gone [OF assms(1) c2] by simp
  then have "drv_run env ie offline (map Pim_Ioctl [QUEUE_DELETE (pim_queue 0 b), QUEUE_DELETE (pim_queue 1 b)]) ?s1 = None"
    using pim_delete [OF c1(1), of env ie offline 0] s2 by (simp del: put_slot_lib put_slot_cdevs)
  then show ?thesis
    using pim_add [OF assms(2), of env 0 0 0 ?s1 ie offline] s1 by (simp del: put_slot_lib put_slot_cdevs)
qed

text \<open>Claim C40: the PIM interface device lets through the type for both directions. Deleting a queue with
  it clears the wrong bit of the shared device; adding and deleting the first direction again destroys
  the device while the second still refers to it, and deleting that touches what is gone.\<close>

theorem both_directions_dangle:
  assumes "obliging (dev_env env) hnd" "card_at b d s" "slot s d 0 = no_qdata" "slot s d 1 = no_qdata"
  shows "drv_run env ie offline (map Pim_Ioctl [QUEUE_ADD (pim_queue 0 b), QUEUE_ADD (pim_queue 1 b), QUEUE_DELETE (pim_queue 3 b),
    QUEUE_ADD (pim_queue 0 b), QUEUE_DELETE (pim_queue 0 b), QUEUE_DELETE (pim_queue 1 b)]) s = None"
proof -
  let ?e = "dev_env env" and ?n = "cdev_next s"
  obtain m l1 l2 where s2: "xpdev_queue_add ?e d (conf0\<lparr>q_type := 0\<rparr>) s = Some (0, 0, one_sided d (hnd 0 0) m l1 s)"
      "xpdev_queue_add ?e d (conf0\<lparr>q_type := 1\<rparr>) (one_sided d (hnd 0 0) m l1 s) = Some (0, 0, two_sided d (hnd 0 0) (hnd 1 0) m l2 s)"
      "card_at b d (one_sided d (hnd 0 0) m l1 s)"
    using add_pair [OF assms(1,2)] assms(4) by (auto simp: no_qdata_def)
  let ?s2 = "two_sided d (hnd 0 0) (hnd 1 0) m l2 s" and ?cd = "\<lparr>minor = m, c2h_qhndl = hnd 1 0, h2c_qhndl = hnd 0 0, dir_init = 1\<rparr>"
  note c2 = two_sided_parts [OF assms(2), of "hnd 0 0" "hnd 1 0" m l2]
  obtain l3 where s3: "xpdev_queue_delete ?e d 0 3 ?s2
      = Some (0, put_slot d 0 no_qdata (?s2\<lparr>lib := l3, cdevs := (cdevs ?s2)(?n \<mapsto> ?cd)\<rparr>))"
    using delete_both [OF assms(1) c2(1,2,4)] by auto
  let ?s3 = "put_slot d 0 no_qdata (?s2\<lparr>lib := l3, cdevs := (cdevs ?s2)(?n \<mapsto> ?cd)\<rparr>)"
  have "drv_run env ie offline (map Pim_Ioctl [QUEUE_ADD (pim_queue 0 b), QUEUE_DELETE (pim_queue 0 b), QUEUE_DELETE (pim_queue 1 b)]) ?s3 = None"
    by (rule half_deleted_dangles [OF assms(1), of _ d _ ?n ?cd]) (use c2 in \<open>simp_all add: slot_put [of b]\<close>)
  then have "drv_run env ie offline (map Pim_Ioctl [QUEUE_DELETE (pim_queue 3 b), QUEUE_ADD (pim_queue 0 b),
      QUEUE_DELETE (pim_queue 0 b), QUEUE_DELETE (pim_queue 1 b)]) ?s2 = None"
    using pim_delete [OF c2(1), of env ie offline 3] s3 by (simp add: take_bit_eq_mod del: put_slot_lib put_slot_cdevs)
  then show ?thesis
    using pim_add [OF assms(2), of env 0] pim_add [OF s2(3), of env 1] s2(1,2) by simp
qed

theorem both_directions_dangle_witness:
  "drv_run sim_srv sim_info sim_reset (map Pim_Ioctl [QUEUE_ADD (pim_queue 0 0x1000), QUEUE_ADD (pim_queue 1 0x1000), QUEUE_DELETE (pim_queue 3 0x1000),
    QUEUE_ADD (pim_queue 0 0x1000), QUEUE_DELETE (pim_queue 0 0x1000), QUEUE_DELETE (pim_queue 1 0x1000)]) sim_drv = None"
  by (rule both_directions_dangle [OF _ _ sim_slots, of sim_srv sim_hnd]) (use sim_card sim_bdf sim_obliging in simp_all)

section \<open>Errors that are lost\<close>

text \<open>Starting a queue nobody added is reported as success: the driver answers a missing queue
  with the error code 0, its state stays as it was, and the library returns 0.\<close>

theorem start_of_missing_queue_succeeds:
  assumes "link_ok env view fam (netlink_serve senv ie fam err)" "fam False = Some f" "f \<noteq> 2" "texts_ok senv"
    and "obliging (dev_env senv) hnd" "fst (view k) False = Some s" "card_at (bdf settings bus 0) d s"
    and "slot s d (dir_no io) = no_qdata"
  shows "\<exists>k' x. qdma_q_start env (qdma_prepare_q_start settings bus io 0 0 no_cmd) k = Inr ((0, x), k')
    \<and> fst (view k') = fst (view k)"
proof -
  let ?b = "bdf settings bus 0" and ?t = "dir_no io"
  let ?c = "set_flags (credit_flag False) (qdma_prepare_q_start settings bus io 0 0 no_cmd)"
  note prep = qdma_prepare_q_start_def prepare_q_def no_cmd_def set_flags_def Let_def
  have vf: "is_vf settings = False" by (simp add: settings_def)
  have "\<exists>k' x. xnl_common_msg_send env ?c no_attrs k = Inr ((0, x), k') \<and> fst (view k') = (fst (view k))(False := Some s)"
  proof (rule first_reply_ok [OF assms(1-4,6), of ?c ?t ?b])
    show "\<exists>rv later. xnl_doit senv ie (xop ?c) at s = Some (rv, xnl_respond_buffer senv Bad_Index 0 # later, s)" if "one_queue at ?b ?t" for at
      using q_start_missing [OF assms(5,7) that dir_no_less assms(8)] by (simp add: prep xnl_doit_def)
  qed (use settings_flags(2) [of io] in \<open>simp_all add: prep vf credit_flag_def\<close>)
  moreover have "(fst (view k))(False := Some s) = fst (view k)" using assms(6) by (simp add: fun_upd_idem)
  ultimately show ?thesis unfolding start_command by simp
qed

theorem start_of_missing_queue_succeeds_witness:
  "\<exists>k' x. qdma_q_start sim_kernel (qdma_prepare_q_start settings 1 DMAXFER_IO_WRITE 0 0 no_cmd) sim_start = Inr ((0, x), k')
    \<and> fst k' = fst sim_start"
  by (rule start_of_missing_queue_succeeds [where hnd = sim_hnd, OF sim_link sim_family(1,2) sim_texts _ sim_family(3) sim_card])
    (simp_all add: sim_obliging sim_slots dir_no_def)

text \<open>Claim C37: asked through the library to dump no queues, the driver allocates a buffer of no bytes and
  touches it when it answers: the kernel crashes, and no reply comes.\<close>

theorem dump_of_no_queues_crashes:
  assumes "xop c = XNL_CMD_Q_DUMP" "num_q (req c) = 0" "\<not> (has (qp_flags (req c)) XNL_F_QMODE_ST \<and> has (qp_flags (req c)) XNL_F_QMODE_MM)"
    and "ds (vf c) = Some s" "xpdev_find_by_idx (if_bdf c) s = Some d" "\<forall>l. fst (k_alloc (dev_env senv) l)"
  shows "netlink_serve senv ie fam err (vf c) seq (xop c) (cmd_attrs c) ds = ([], ds(vf c := None))"
proof -
  let ?at = "map_of (rev (cmd_attrs c))"
  have at: "?at XNL_ATTR_DEV_IDX = Some (if_bdf c)" "?at XNL_ATTR_NUM_Q = Some 0"
    "?at XNL_ATTR_QFLAG = Some (qp_flags (req c))" "?at XNL_ATTR_QIDX = Some (qp_idx (req c))"
    by (simp_all add: cmd_attrs_def op_attrs_def queue_attrs_def assms(1,2))
  have "xnl_rcv_check_xpdev senv ?at s = Inr d" using assms(5) at by (simp add: xnl_rcv_check_xpdev_def)
  moreover obtain conf is_qp where "qconf_get senv ?at = Inr (conf, is_qp)"
    using assms(3) at by (auto simp: qconf_get_def Let_def)
  moreover have "with_buffer senv n ex act t = act (t\<lparr>lib := snd (k_alloc (dev_env senv) (lib t))\<rparr>)" for n ex act t
    using assms(6) by (auto simp: with_buffer_def Let_def split: prod.split) (metis fst_conv)
  ultimately have "xnl_doit senv ie (xop c) ?at s = None"
    using at(2) by (simp add: assms(1) xnl_doit_def xnl_q_dump_def answer_def)
  then show ?thesis using assms(4) by (simp add: netlink_serve_def)
qed

theorem dump_of_no_queues_crashes_witness:
  "netlink_serve sim_srv sim_info sim_fam (\<lambda>seq rv. []) False 1 XNL_CMD_Q_DUMP
      (cmd_attrs (no_cmd\<lparr>xop := XNL_CMD_Q_DUMP, if_bdf := 0x1000\<rparr>)) (fst sim_start) = ([], (fst sim_start)(False := None))"
proof -
  have "xpdev_find_by_idx 0x1000 sim_drv = Some 0" using sim_card sim_bdf by (simp add: card_at_def)
  then show ?thesis
    using dump_of_no_queues_crashes [of "no_cmd\<lparr>xop := XNL_CMD_Q_DUMP, if_bdf := 0x1000\<rparr>" "fst sim_start" sim_drv 0 sim_srv sim_info
        sim_fam "\<lambda>seq rv. []" 1] sim_family(3)
    by (simp add: no_cmd_def has_def sim_srv_def sim_lib_def)
qed

text \<open>Claim C38: over a socket that behaves as documented, a reply of less than 2 GiB, longer than the room
  for it, which is from 120 bytes to 2 GiB, and cut where one of its well-formed attributes begins, makes the library's walk
  over it never end.\<close>

theorem cut_reply_never_ends:
  assumes "link_ok env view fam serve" "fam (vf c) = Some f" "f \<noteq> 2"
    and "dlen = unat (get_cmd_resp_buf_len (xop c) (req c))" "120 \<le> dlen" "dlen < 2 ^ 31"
    and "serve (vf c) (nl_seq env + 1) (xop c) (cmd_attrs c) (fst (view k)) = (wire_reply seq op f (rs @ rest) # ms, d)"
    and "\<forall>a \<in> set rs. attr_ok a" "20 + length (enc_all rs) = dlen" "rest \<noteq> []"
    and "length (enc_all (rs @ rest)) < 2 ^ 31"
  shows "xnl_common_msg_send env c attrs k = Inl Endless"
  using assms by (rule reply_cut_at_attribute)

text \<open>
  The list of 512 cards with the lines of the driver: those of 498 cards with 32 queues have 40 characters,
  those of 14 cards with 8 queues 38, and together they fill the room but for the error code.
\<close>

definition many_cards :: "xlnx_pci_dev list" where
  "many_cards = map (\<lambda>i. \<lparr>dev_hndl = i, qmax = (if i < 498 then 32 else 8), idx = of_nat (4096 + i), qdata = []\<rparr>) [0..<512]"

definition many_srv :: "unit srv_env" where
  "many_srv = sim_srv\<lparr>describe := (\<lambda>x c. map (\<lambda>ch. of_nat (of_char ch))
     (if qmax x = 32 then ''0000:81:00.0'' @ CHR 0x09 # ''max QP: 32, 0~31'' else ''0000:81:00.0'' @ CHR 0x09 # ''max QP: 8, 0~7''))\<rparr>"

definition many_start :: "unit drivers" where
  "many_start = (\<lambda>v. if v then None else Some \<lparr>xpdev_list = many_cards, cdevs = (\<lambda>c. None), cdev_next = 0, lib = ()\<rparr>)"

lemma many_listed:
  "\<exists>t. length t = 20452 \<and> 0 \<notin> set t \<and> xpdev_list_dump many_srv (the (many_start False)) = (20452, t)"
proof -
  have idx: "unat (of_nat (4096 + i) :: u32) < 16 ^ 5" if "i < 512" for i
    using that by (simp only: unat_of_nat) simp
  have l: "\<forall>x \<in> set many_cards. listable many_srv x ()"
    using idx by (auto simp: listable_def many_cards_def many_srv_def sim_srv_def sim_lib_def simp del: of_nat_add)
  have zero: "0 \<notin> set (card_text many_srv xs ())" if "set xs \<subseteq> set many_cards" for xs
    using that
  proof (induction xs)
    case (Cons x xs)
    have "unat (idx x) < 16 ^ 5" using l Cons.prems by (simp add: listable_def)
    moreover have "unat (idx x) div 65536 < 16" using calculation by simp
    ultimately have "0 \<notin> set (hex5 (unat (idx x)))"
      using hex_digit_props(6) [OF less_le_trans [OF mod_less_divisor]] hex_digit_props(6) [of "unat (idx x) div 65536"]
      by (auto simp: hex5_digits eq_commute [of 0])
    then show ?case using Cons by (auto simp: list_line_def qdma_word_def many_srv_def)
  qed simp
  have line: "length (list_line (idx x) (describe many_srv x c)) = (if qmax x = 32 then 40 else 38)"
    if "x \<in> set many_cards" for x c
  proof -
    have "unat (idx x) < 16 ^ 5" using l that by (simp add: listable_def)
    then show ?thesis by (simp add: list_line_def qdma_word_def hex5_digits many_srv_def)
  qed
  have "length (card_text many_srv xs ()) = sum_list (map (\<lambda>x. if qmax x = 32 then 40 else 38) xs)" if "set xs \<subseteq> set many_cards" for xs
    using that by (induction xs) (simp_all add: line)
  moreover have "sum_list (map (\<lambda>x. if qmax x = 32 then 40 else 38 :: nat) many_cards) = 20452"
  proof -
    have "map (\<lambda>x. if qmax x = 32 then 40 else 38 :: nat) many_cards = map (\<lambda>i. if i < 498 then 40 else 38) ([0..<498] @ [498..<498 + 14])"
      using upt_add_eq_append [of 0 498 14] by (simp add: many_cards_def)
    also have "\<dots> = map (\<lambda>i. 40) [0..<498] @ map (\<lambda>i. 38) [498..<498 + 14]" by (simp cong: map_cong)
    finally show ?thesis by (simp add: sum_list_triv del: upt_rec_numeral map_replicate_const)
  qed
  ultimately have "length (card_text many_srv many_cards ()) = 20452" by simp
  then show ?thesis
    using list_lines_eq [OF l, of "[]"] zero by (simp add: xpdev_list_dump_def many_start_def)
qed

theorem cut_reply_never_ends_witness:
  "xnl_common_msg_send (sim_env sim_fam (netlink_serve many_srv sim_info sim_fam (\<lambda>seq rv. []))) no_cmd no_attrs (many_start, []) = Inl Endless"
proof -
  obtain t where t: "length t = 20452" "0 \<notin> set t" "xpdev_list_dump many_srv (the (many_start False)) = (20452, t)"
    using many_listed by blast
  have len: "length (enc_all [Txt t]) = 20460" using length_enc_Txt [of t] t(1) by (simp del: enc.simps)
  let ?d = "many_start(False := Some ((the (many_start False))\<lparr>lib := ()\<rparr>))"
  have serve: "netlink_serve many_srv sim_info sim_fam (\<lambda>seq rv. []) False (nl_seq (sim_env sim_fam (netlink_serve many_srv sim_info sim_fam (\<lambda>seq rv. []))) + 1)
      XNL_CMD_DEV_LIST (cmd_attrs no_cmd) many_start
    = (wire_reply 2 XNL_CMD_DEV_LIST 30 ([Txt t] @ [Num XNL_ATTR_ERROR 20452]) # [], many_start)"
    using t(3) by (simp add: netlink_serve_def xnl_doit_def xnl_dev_list_def driver_reply_def reply_cmd_def sim_env_def sim_fam_def
        many_start_def many_srv_def sim_srv_def sim_lib_def fun_upd_idem)
  show ?thesis
  proof (rule cut_reply_never_ends [where fam = sim_fam and view = "\<lambda>k. k" and rs = "[Txt t]" and rest = "[Num XNL_ATTR_ERROR 20452]" and c = no_cmd])
    show "link_ok (sim_env sim_fam (netlink_serve many_srv sim_info sim_fam (\<lambda>seq rv. []))) (\<lambda>k. k) sim_fam
        (netlink_serve many_srv sim_info sim_fam (\<lambda>seq rv. []))"
      by (rule link_ok_sim [of _ 30]) (simp_all add: sim_fam_def)
    show "20 + length (enc_all [Txt t]) = 20480" unfolding len by simp
    show "length (enc_all ([Txt t] @ [Num XNL_ATTR_ERROR 20452])) < 2 ^ 31" using len by (simp del: enc.simps)
    show "20480 = unat (get_cmd_resp_buf_len (xop no_cmd) (req no_cmd))"
      by (simp add: no_cmd_def get_cmd_resp_buf_len_def XNL_RESP_BUFLEN_MAX_def)
    show "\<forall>a \<in> set [Txt t]. attr_ok a" using t(1,2) by simp
  qed (use serve in \<open>simp_all add: no_cmd_def sim_fam_def\<close>)
qed

text \<open>Claim C39: the room for the reply to a dump of completions or descriptors, which is also the room
  for the request, is computed from the range it names with sums and products that wrap; where it comes
  out smaller than the seven attributes need, adding them writes past the buffer.\<close>

theorem small_room_overruns:
  assumes "link_ok env view fam serve" "fam (vf c) = Some f"
    and "xop c = XNL_CMD_Q_CMPT \<and> w = 50 \<or> xop c = XNL_CMD_Q_DESC \<and> w = 100"
    and "num_q (req c) \<le> 1" "qp_flags (req c) AND XNL_F_QDIR_BOTH \<noteq> XNL_F_QDIR_BOTH"
    and "(20480 + w * (uint (range_end (req c)) - uint (range_start (req c)))) mod 2 ^ 32 \<in> {1..<56}"
  shows "xnl_common_msg_send env c attrs k = Inl Overrun"
proof -
  let ?l = "(20480 + w * (uint (range_end (req c)) - uint (range_start (req c)))) mod 2 ^ 32"
  let ?r = "resp_rows (range_end (req c) - range_start (req c)) (word_of_int w)"
  have "?r = word_of_int (20480 + w * (uint (range_end (req c)) - uint (range_start (req c))))"
    by (simp add: resp_rows_def XNL_RESP_BUFLEN_MAX_def wi_hom_syms)
  then have u: "uint ?r = ?l" by (simp only: uint_word_of_int) simp
  then have "uint ?r < 2 ^ 31" using assms(6) by simp
  then have s: "sint ?r = ?l" using u by (simp add: sint_uint signed_take_bit_int_eq_self_iff order_trans [OF _ uint_ge_0])
  have "get_cmd_resp_buf_len (xop c) (req c) = ?r"
    using assms(3-6) s by (auto simp: get_cmd_resp_buf_len_def scale_len_def Let_def MAX_KMALLOC_SIZE_def not_less)
  then have "nat ?l = unat (get_cmd_resp_buf_len (xop c) (req c))" using u by (simp add: unat_eq_nat_uint)
  moreover have "length (cmd_attrs c) = 7" using assms(3) by (auto simp: cmd_attrs_def op_attrs_def)
  ultimately show ?thesis
    using assms(6) by (intro request_overruns [OF assms(1,2), of "nat ?l"]) auto
qed

text \<open>A dump of 85898937 completions has room for 34 bytes.\<close>

theorem small_room_overruns_witness:
  "xnl_common_msg_send sim_kernel (no_cmd\<lparr>xop := XNL_CMD_Q_CMPT, req := (req no_cmd)\<lparr>num_q := 1, range_end := 85898937\<rparr>\<rparr>)
     no_attrs sim_start = Inl Overrun"
  by (rule small_room_overruns [OF sim_link, where w = 50])
    (simp_all add: no_cmd_def sim_fam_def XNL_F_QDIR_BOTH_def XNL_F_QDIR_H2C_def XNL_F_QDIR_C2H_def)

text \<open>When the buffer of a request cannot be allocated the library returns 0, as for success,
  without having sent anything: only the search for the family reaches the kernel.\<close>

theorem no_memory_reported_as_success:
  assumes "xnl_connect env (vf c) k = Inr (0, f, k1)" "nl_alloc env (xnl_msg_size (get_cmd_resp_buf_len (xop c) (req c))) k1 = (False, k2)"
  shows "xnl_common_msg_send env c attrs k = Inr ((0, c, attrs, []), nl_close env k2)"
  using assms by (simp add: xnl_common_msg_send_def)

text \<open>A kernel that grants buffers of up to 600 bytes: that of the search has 596, that of a request 20500.\<close>

definition tight_kernel :: "unit drivers sim nl_env" where
  "tight_kernel = sim_kernel\<lparr>nl_alloc := (\<lambda>n k. (n \<le> 600, k))\<rparr>"

theorem no_memory_reported_as_success_witness:
  "\<exists>k2. xnl_common_msg_send tight_kernel no_cmd no_attrs sim_start = Inr ((0, no_cmd, no_attrs, []), k2)"
proof -
  obtain k' where k': "xnl_connect sim_kernel False sim_start = Inr (0, 30, k')"
    using connect_link [OF sim_link sim_family(1), of sim_start] by blast
  have same: "xnl_send tight_kernel = xnl_send sim_kernel" "xnl_recv tight_kernel = xnl_recv sim_kernel"
    by (simp_all add: tight_kernel_def xnl_send_def xnl_recv_def fun_eq_iff)
  have fields: "nl_socket tight_kernel = nl_socket sim_kernel" "nl_bind tight_kernel = nl_bind sim_kernel"
    "nl_seq tight_kernel = nl_seq sim_kernel" "nl_pid tight_kernel = nl_pid sim_kernel"
    "nl_alloc tight_kernel (xnl_msg_size 0) k = nl_alloc sim_kernel (xnl_msg_size 0) k" for k
    by (simp_all add: tight_kernel_def sim_kernel_def sim_env_def xnl_msg_size_def)
  have "xnl_connect tight_kernel False sim_start = xnl_connect sim_kernel False sim_start"
    unfolding xnl_connect_def same fields ..
  then have "xnl_connect tight_kernel (vf no_cmd) sim_start = Inr (0, 30, k')" using k' by (simp add: no_cmd_def)
  moreover have "nl_alloc tight_kernel (xnl_msg_size (get_cmd_resp_buf_len (xop no_cmd) (req no_cmd))) k' = (False, k')"
    by (simp add: tight_kernel_def xnl_msg_size_def no_cmd_def get_cmd_resp_buf_len_def XNL_RESP_BUFLEN_MAX_def)
  ultimately have "xnl_common_msg_send tight_kernel no_cmd no_attrs sim_start = Inr ((0, no_cmd, no_attrs, []), nl_close tight_kernel k')"
    by (rule no_memory_reported_as_success)
  then show ?thesis by blast
qed

end
