(* ===== verification/Spec2Isabelle.thy ===== *)
theory Spec2Isabelle
  imports Service_Props Host_Props Copy_Props Window_Props Vec_Props Xnl_Props
begin

text \<open>
  Multi-PIM software stack.

  The repository drives FPGA boards with processing-in-memory (PIM) units. A program links the
  user libraries of \<^verbatim>\<open>multi_pim_sw_versal_sonic\<close>: the memory library (\<^verbatim>\<open>src/mem_src\<close>) maps the
  boards' memory and allocates from it, the math library (\<^verbatim>\<open>src/pim_math_src\<close>) turns a
  matrix operation into a linked list of DMA descriptors that are PIM instructions, and the
  kernel driver (\<^verbatim>\<open>src/drv_src\<close>) copies the list to the board and runs the engine over it.
  Data moves between host and board either through the same driver or through the QDMA
  subsystem (\<^verbatim>\<open>xilinx-qdma\<close>), whose queues a resource manager deals out to PCIe functions.

  The theories, in the order of their imports:

  \<^item> \<open>Pim_Prelude\<close>: integer types, sizes, facts on lists, loops and words.
  \<^item> \<open>Page_Bitmap\<close>: \<^verbatim>\<open>_strnstr\<close>, \<^verbatim>\<open>_set_bit_vector\<close>, \<^verbatim>\<open>_clr_bit_vector\<close> of \<^verbatim>\<open>mpim_mem.c\<close>. The lemmas
    show that a returned run was free and is exactly what gets marked, and when a run is missed.
  \<^item> \<open>Mem_Region\<close>: \<^verbatim>\<open>mem_src/mdrv_interface.c\<close>, the window of device memory and the regions
    \<^verbatim>\<open>multi_mmap_drv\<close> hands out from it.
  \<^item> \<open>Mem_Pool\<close>: the allocator of \<^verbatim>\<open>mpim_mem.c\<close>, \<^verbatim>\<open>mpim_malloc\<close>, \<^verbatim>\<open>mpim_free\<close>, the pool list and the
    clean-up at exit. \<open>Pool_Links\<close> gives the shape of the list and shows that the fuel of each
    pointer-chasing loop is enough; \<open>Pool_Inv\<close> gives the invariant \<open>pool_inv\<close> (which pages of
    which pool are live) and shows that both operations preserve it; \<open>Region_Client\<close> states the
    contract of an allocator as the locale \<open>region_alloc\<close> and proves what every client may rely
    on; \<open>Pool_Client\<close> interprets it on the model and draws the consequences.
  \<^item> \<open>Qdma_Resource\<close>: \<^verbatim>\<open>qdma_resource_mgmt.c\<close>, the free list of queue ranges and the functions'
    parts. \<open>Qdma_Queues\<close> shows, for every sequence of calls, that a queue has one owner, that
    none is lost, and what each request returns.
  \<^item> \<open>Pl_Dma\<close>: the driver \<^verbatim>\<open>dma_fops_pl.c\<close>, as a sequence of register and memory accesses against
    a hardware whose answers are a parameter; the waits, the interrupt handler, the transfers and
    the \<^verbatim>\<open>ioctl\<close> commands.
  \<^item> \<open>Pim_Isa\<close>: the descriptor builder (\<^verbatim>\<open>pim_math.h\<close>) and the math library's driver interface. A
    32-bit counting loop is \<open>u32_for\<close>, a partial function, since its counter may wrap; what every
    emitting loop shares is the locale \<open>instr_sink\<close>, interpreted on the descriptor list and on the
    code list.
  \<^item> \<open>Pim_Math\<close>: the matrix kernels of \<^verbatim>\<open>matmul.c\<close>. \<open>Pim_Kernels\<close> shows how many instructions each
    kernel emits and which ones the silent \<^verbatim>\<open>gemm\<close> emits; \<open>Kernel_Props\<close> composes this with \<open>Pl_Dma\<close>
    and shows what reaches the engine.
  \<^item> \<open>Pim_Vec\<close>: the element-wise kernels of \<^verbatim>\<open>elewise.c\<close>, the test access to the units' memory and
    the clean-up of the library. \<open>Vec_Props\<close> shows what the kernel builds, that its buffers go
    back to the allocator, and when the code buffer is large enough.
  \<^item> \<open>Qdma_Mbox\<close>: the mailbox protocol \<^verbatim>\<open>qdma_mbox_protocol.c\<close>, the PF's answer to each message
    over \<open>Qdma_Resource\<close>; \<open>Mbox_Link\<close>: the messages a function composes, sends and receives word by
    word. \<open>Mbox_Props\<close> shows that messages act on the resource manager as its operations, stay
    within the sender's queues, and are answered.
  \<^item> \<open>Mbox_Service\<close>: \<^verbatim>\<open>qdma_mbox.c\<close>, the lists, work routines and timer that move the messages.
    \<open>Service_Props\<close> shows that a listed message is alive and on one list, in order, and answered.
  \<^item> \<open>Host_Dma\<close>: the host DMA device \<^verbatim>\<open>dma_fops_host_x86.c\<close>; \<open>Host_Props\<close>: a transfer that reports
    success moved every byte; and the faults of its error paths.
  \<^item> \<open>Data_Copy\<close>: \<^verbatim>\<open>qdma_src/mdrv_interface.c\<close> and the loops of \<^verbatim>\<open>dma_xfer_utils.c\<close>, the copies
    between process and cards; \<open>Copy_Props\<close>: they return, and every byte arrives.
  \<^item> \<open>Dev_Window\<close>: the list of cards \<^verbatim>\<open>multi_dev_drv.c\<close>, probe and \<^verbatim>\<open>mmap\<close> of the memory driver and
    the translation of addresses; \<open>Window_Props\<close>: numbers of cards are unique, a region translates
    to consecutive addresses.
  \<^item> \<open>Xnl_Client\<close>: the control channel of the library, \<^verbatim>\<open>qdma_src/dmactl.c\<close>, netlink messages as byte
    buffers. \<open>Xnl_Wire\<close> gives the wire format as a sequence of attributes and shows that the library
    writes and reads it; \<open>Xnl_Link\<close> shows one command over a socket that meets the contract
    \<open>link_ok\<close>; \<open>Xnl_Faults\<close> shows two ways a command fails over such a socket.
  \<^item> \<open>Xnl_Server\<close> and \<open>Xnl_Info\<close>: the driver's handlers of the channel, \<^verbatim>\<open>nl.c\<close>, and their dispatch
    \<open>xnl_doit\<close>. \<open>Xpdev\<close>: the tables of cards and queues, \<^verbatim>\<open>qdma_mod.c\<close>, with the queues' character
    devices. \<open>Xpdev_Props\<close> and \<open>Xpdev_Reset\<close> show that a device lives as long as a direction of its
    queue refers to it; \<open>Xnl_Safety\<close> shows this for requests, commands and resets in any order.
  \<^item> \<open>Queue_Setup\<close>: the set-up of the queues by a PIM program, \<^verbatim>\<open>qdma_src/pim_qdma.h\<close>. \<open>Queue_Link\<close>
    joins it with the handlers; \<open>Queue_Props\<close> and \<open>Queue_Ids\<close> follow its commands through the
    driver's tables; \<open>Xnl_Sim\<close> is a socket that meets \<open>link_ok\<close>, so the contract can hold;
    \<open>Xnl_Props\<close> states the whole: normal course, invariant, and where errors are lost.

  Integers keep the width they have in C; \<open>nat\<close> is used for loop positions the code bounds. A failed
  \<^verbatim>\<open>assert\<close>, a NULL dereference, a use of freed memory and a loop that does not end are values, never
  undefined. Parameters stand for what is not under \<^verbatim>\<open>src\<close> or not modelled: the kernel, the C
  library and the boards (\<open>drv_env\<close>, \<open>pl_env\<close>, \<open>host_env\<close>, \<open>copy_env\<close>, \<open>bar_env\<close>, \<open>math_env\<close>,
  \<open>init_env\<close>, \<open>alloc_env\<close>, and the numbers \<open>host_mem\<close> and \<open>mem\<close> of C allocations that still succeed),
  the layout of messages and the registers of the mailbox (\<open>mb_env\<close>, \<open>svc_env\<close>), the netlink socket
  (\<open>nl_env\<close>), and what the driver's tables and handlers ask of the kernel and of \<^verbatim>\<open>libqdma\<close>
  (\<open>lib_env\<close>, \<open>srv_env\<close>, \<open>info_env\<close>).

  Bounds and fuel. Pointer-chasing loops take the number of nodes as fuel, which \<open>Pool_Links\<close> shows
  to be enough. Loops the code itself bounds keep the code's bound (the polls of the hardware, the
  waits of the mailbox, the drains of the socket). A loop that may run for ever is a partial function
  with value None (\<open>u32_for\<close>, the loops of the copies, the walk over the attributes of a reply), and theorems say when it
  ends.

  Not modelled: the vendored XDMA driver and its tools; the register access layer of QDMA, its
  generated tables and register dumps, and the descriptor engine of \<^verbatim>\<open>libqdma\<close>; the copies of the
  QDMA driver for other boards and the ARM variants of the PIM driver; registration and probe of
  character devices beyond what the devices' lists need; the command line tools \<^verbatim>\<open>dmaxfer.c\<close> and
  \<^verbatim>\<open>dmactl_reg.c\<close>; the collectives library \<^verbatim>\<open>pccl\<close>, which the build leaves out and which does not compile
  against the present \<^verbatim>\<open>pim.h\<close>; benchmarks and tests. Of modelled files, log output, locks (operations are steps), checks of NULL arguments the
  callers never pass, and \<^verbatim>\<open>_matmul_silent\<close>, which does not compile, are left out.
\<close>

end
